(* ===== verification/Prelude.thy ===== *)
theory Prelude
  imports Complex_Main "HOL-Library.Word" "HOL-Library.Char_ord" "HOL-Library.List_Lexorder"
    "HOL-Library.Product_Lexorder" "HOL-Library.Multiset"
begin

text \<open>
  What every component of the model shares: the names of the JavaScript types the backend
  works with, decimal digits, bytes in network order, and the generic facts about lists and
  maps the component proofs rest on.

  A JavaScript string is a \<open>string\<close> (the identifiers, hashes and table names of the backend are
  ASCII), compared with \<open><\<close> in code unit order as JavaScript does; a \<open>bigint\<close> is an \<open>int\<close>; a
  \<open>Buffer\<close> is a list of bytes.
\<close>

named_theorems outcome_simps "equations of the operations, for unfolding a step"

type_synonym byte = "8 word"
type_synonym buffer = "byte list"
type_synonym millis = int

section \<open>Strings\<close>

text \<open>JavaScript's \<open><\<close> on strings: lexicographic, shorter prefix first.\<close>

definition str_less :: "string \<Rightarrow> string \<Rightarrow> bool" where
  "str_less a b \<longleftrightarrow> a < b"

lemma str_less_irrefl [simp]: "\<not> str_less a a"
  by (simp add: str_less_def)

lemma str_less_total: "a \<noteq> b \<Longrightarrow> str_less a b \<or> str_less b a"
  by (auto simp: str_less_def)

lemma str_less_asym: "str_less a b \<Longrightarrow> \<not> str_less b a"
  by (auto simp: str_less_def)

lemma str_less_trans: "str_less a b \<Longrightarrow> str_less b c \<Longrightarrow> str_less a c"
  by (auto simp: str_less_def)

section \<open>Decimal digits\<close>

definition digit_char :: "nat \<Rightarrow> char" where
  "digit_char d = char_of (48 + d)"

definition char_digit :: "char \<Rightarrow> nat option" where
  "char_digit c = (let n = of_char c :: nat in if 48 \<le> n \<and> n < 58 then Some (n - 48) else None)"

lemma char_digit_digit_char [simp]: "d < 10 \<Longrightarrow> char_digit (digit_char d) = Some d"
  by (simp add: char_digit_def digit_char_def Let_def)

fun dec_string :: "nat \<Rightarrow> string" where
  "dec_string n = (if n < 10 then [digit_char n] else dec_string (n div 10) @ [digit_char (n mod 10)])"

declare dec_string.simps [simp del]

fun dec_value :: "nat \<Rightarrow> string \<Rightarrow> nat option" where
  "dec_value acc [] = Some acc"
| "dec_value acc (c # cs) =
     (case char_digit c of None \<Rightarrow> None | Some d \<Rightarrow> dec_value (acc * 10 + d) cs)"

definition parse_dec :: "string \<Rightarrow> nat option" where
  "parse_dec s = (if s = [] then None else dec_value 0 s)"

lemma dec_value_append:
  "dec_value acc (xs @ ys) = (case dec_value acc xs of None \<Rightarrow> None | Some a \<Rightarrow> dec_value a ys)"
  by (induction xs arbitrary: acc) (auto split: option.splits)

lemma dec_string_nonempty [simp]: "dec_string n \<noteq> []"
  by (subst dec_string.simps) simp

lemma dec_value_dec_string: "dec_value 0 (dec_string n) = Some n"
proof (induction n rule: dec_string.induct)
  case (1 n)
  show ?case
  proof (cases "n < 10")
    case True
    then show ?thesis by (subst dec_string.simps) simp
  next
    case False
    with "1.IH" show ?thesis
      by (subst dec_string.simps) (simp add: dec_value_append)
  qed
qed

lemma parse_dec_dec_string [simp]: "parse_dec (dec_string n) = Some n"
  by (simp add: parse_dec_def dec_value_dec_string)

lemma char_digit_zero [simp]: "char_digit CHR ''0'' = Some 0"
  by (simp add: char_digit_def)

lemma dec_value_zeros [simp]: "dec_value 0 (replicate k CHR ''0'' @ s) = dec_value 0 s"
  by (induction k) auto

text \<open>\<open>padStart(w, '0')\<close>.\<close>

definition pad_zero :: "nat \<Rightarrow> string \<Rightarrow> string" where
  "pad_zero w s = replicate (w - length s) CHR ''0'' @ s"

lemma parse_dec_pad_zero [simp]: "parse_dec (pad_zero w (dec_string n)) = Some n"
  by (simp add: parse_dec_def pad_zero_def dec_value_dec_string)

lemma length_dec_string_le: "n < 10 ^ k \<Longrightarrow> 0 < k \<Longrightarrow> length (dec_string n) \<le> k"
proof (induction n arbitrary: k rule: dec_string.induct)
  case (1 n)
  show ?case
  proof (cases "n < 10")
    case True
    with "1.prems" show ?thesis by (subst dec_string.simps) simp
  next
    case False
    with "1.prems" obtain j where k: "k = Suc j" by (cases k) auto
    with False "1.prems" have j: "0 < j" by (cases j) auto
    from "1.prems" k have "n div 10 < 10 ^ j" by (simp add: less_mult_imp_div_less mult.commute)
    from "1.IH" [OF False this j] have "length (dec_string (n div 10)) \<le> j" .
    with False k show ?thesis by (subst dec_string.simps) simp
  qed
qed

lemma length_pad_zero: "n < 10 ^ k \<Longrightarrow> 0 < k \<Longrightarrow> length (pad_zero k (dec_string n)) = k"
  using length_dec_string_le [of n k] by (simp add: pad_zero_def)

definition int_string :: "int \<Rightarrow> string" where
  "int_string i = (if i < 0 then CHR ''-'' # dec_string (nat (- i)) else dec_string (nat i))"

section \<open>Binary length\<close>

fun bit_length :: "nat \<Rightarrow> nat" where
  "bit_length n = (if n = 0 then 0 else Suc (bit_length (n div 2)))"

declare bit_length.simps [simp del]

lemma bit_length_0 [simp]: "bit_length 0 = 0"
  by (simp add: bit_length.simps)

lemma bit_length_pos: "0 < n \<Longrightarrow> bit_length n = Suc (bit_length (n div 2))"
  by (simp add: bit_length.simps)

lemma less_exp_bit_length: "n < 2 ^ bit_length n"
proof (induction n rule: bit_length.induct)
  case (1 n)
  show ?case
  proof (cases "n = 0")
    case False
    with 1 have "n div 2 < 2 ^ bit_length (n div 2)" by simp
    then have "n < 2 * 2 ^ bit_length (n div 2)" by linarith
    with False show ?thesis by (simp add: bit_length_pos)
  qed simp
qed

lemma exp_bit_length_le: "0 < n \<Longrightarrow> 2 ^ (bit_length n - 1) \<le> n"
proof (induction n rule: bit_length.induct)
  case (1 n)
  show ?case
  proof (cases "n div 2 = 0")
    case True
    with 1 have "n = 1" by linarith
    then show ?thesis by (simp add: bit_length_pos)
  next
    case False
    with 1 have "2 ^ (bit_length (n div 2) - 1) \<le> n div 2" by simp
    moreover have "bit_length n - 1 = Suc (bit_length (n div 2) - 1)"
      using False 1 by (simp add: bit_length_pos)
    ultimately show ?thesis by simp
  qed
qed

lemma bit_length_le_iff: "bit_length n \<le> k \<longleftrightarrow> n < 2 ^ k"
proof
  assume "bit_length n \<le> k"
  then have "(2::nat) ^ bit_length n \<le> 2 ^ k" by (simp add: power_increasing)
  then show "n < 2 ^ k" using less_exp_bit_length [of n] by linarith
next
  assume n: "n < 2 ^ k"
  show "bit_length n \<le> k"
  proof (rule ccontr)
    assume gt: "\<not> bit_length n \<le> k"
    then have pos: "0 < n" by (cases "n = 0") auto
    from gt have "k \<le> bit_length n - 1" by linarith
    then have "(2::nat) ^ k \<le> 2 ^ (bit_length n - 1)" by (rule power_increasing) simp
    also have "\<dots> \<le> n" using exp_bit_length_le [OF pos] .
    finally show False using n by simp
  qed
qed

lemma bit_length_mono: "m \<le> n \<Longrightarrow> bit_length m \<le> bit_length n"
  using less_exp_bit_length [of n] by (simp add: bit_length_le_iff)

section \<open>ASCII case and blanks\<close>

definition lower_char :: "char \<Rightarrow> char" where
  "lower_char c = (let n = of_char c :: nat in if 65 \<le> n \<and> n \<le> 90 then char_of (n + 32) else c)"

definition to_lower :: "string \<Rightarrow> string" where
  "to_lower s = map lower_char s"

definition is_space :: "char \<Rightarrow> bool" where
  "is_space c = (let n = of_char c :: nat in n = 32 \<or> (9 \<le> n \<and> n \<le> 13))"

definition trim :: "string \<Rightarrow> string" where
  "trim s = rev (dropWhile is_space (rev (dropWhile is_space s)))"

definition starts_with :: "string \<Rightarrow> string \<Rightarrow> bool" where
  "starts_with p s \<longleftrightarrow> take (length p) s = p"

definition is_digit :: "char \<Rightarrow> bool" where
  "is_digit c \<longleftrightarrow> char_digit c \<noteq> None"

definition is_letter :: "char \<Rightarrow> bool" where
  "is_letter c = (let n = of_char c :: nat in (65 \<le> n \<and> n \<le> 90) \<or> (97 \<le> n \<and> n \<le> 122))"

text \<open>\<open>Array.join\<close>.\<close>

fun join_with :: "string \<Rightarrow> string list \<Rightarrow> string" where
  "join_with sep [] = []"
| "join_with sep [x] = x"
| "join_with sep (x # xs) = x @ sep @ join_with sep xs"

section \<open>Results\<close>

text \<open>A call that throws is \<open>Inl\<close> of the message; a list of calls stops at the first that throws.\<close>

fun sequence_results :: "('e + 'a) list \<Rightarrow> 'e + 'a list" where
  "sequence_results [] = Inr []"
| "sequence_results (Inl e # rs) = Inl e"
| "sequence_results (Inr a # rs) = (case sequence_results rs of Inl e \<Rightarrow> Inl e | Inr xs \<Rightarrow> Inr (a # xs))"

lemma sequence_results_map [simp]: "sequence_results (map Inr xs) = Inr xs"
  by (induction xs) auto

lemma sequence_results_Inr: "sequence_results rs = Inr xs \<longleftrightarrow> rs = map Inr xs"
proof
  show "sequence_results rs = Inr xs \<Longrightarrow> rs = map Inr xs"
    by (induction rs arbitrary: xs rule: sequence_results.induct) (auto split: sum.splits)
qed simp

text \<open>One call after another: the second runs only when the first did not throw.\<close>

definition and_then :: "'e + 'a \<Rightarrow> ('a \<Rightarrow> 'e + 'b) \<Rightarrow> 'e + 'b" where
  "and_then r k = (case r of Inl e \<Rightarrow> Inl e | Inr a \<Rightarrow> k a)"

lemma and_then_simps [simp]: "and_then (Inl e) k = Inl e" "and_then (Inr a) k = k a"
  by (simp_all add: and_then_def)

lemma and_then_Inr: "and_then r k = Inr b \<longleftrightarrow> (\<exists>a. r = Inr a \<and> k a = Inr b)"
  by (cases r) auto

lemma and_then_InrE:
  assumes "and_then r k = Inr b"
  obtains a where "r = Inr a" "k a = Inr b"
  using assms by (auto simp: and_then_Inr)

text \<open>\<open>String.split\<close> with a one-character separator.\<close>

fun split_on :: "char \<Rightarrow> string \<Rightarrow> string list" where
  "split_on sep [] = [[]]"
| "split_on sep (c # cs) =
     (if c = sep then [] # split_on sep cs
      else case split_on sep cs of [] \<Rightarrow> [[c]] | w # ws \<Rightarrow> (c # w) # ws)"

lemma split_on_join:
  "\<forall>p \<in> set ps. sep \<notin> set p \<Longrightarrow> ps \<noteq> [] \<Longrightarrow> split_on sep (join_with [sep] ps) = ps"
proof (induction ps)
  case (Cons p ps)
  have word: "sep \<notin> set p \<Longrightarrow> split_on sep (p @ sep # s) = p # split_on sep s" for p s
    by (induction p) auto
  have alone: "sep \<notin> set p \<Longrightarrow> split_on sep p = [p]" for p
    by (induction p) auto
  show ?case
  proof (cases ps)
    case Nil
    with Cons alone show ?thesis by simp
  next
    case (Cons q qs)
    with Cons.prems Cons.IH word show ?thesis by simp
  qed
qed simp

lemma split_on_covers: "set s \<subseteq> insert c (\<Union> (set ` set (split_on c s)))"
proof (induction s)
  case (Cons d s)
  then show ?case by (cases "split_on c s") auto
qed simp

text \<open>The UTF-8 bytes of a model string, whose characters are the bytes of the encoding.\<close>

definition em_dash :: string where
  "em_dash = [CHR 0xE2, CHR 0x80, CHR 0x94]"

definition utf8 :: "string \<Rightarrow> buffer" where
  "utf8 s = map (\<lambda>c. of_nat (of_char c)) s"

section \<open>Bytes in network order\<close>

definition u16_be :: "byte \<Rightarrow> byte \<Rightarrow> nat" where
  "u16_be a b = 256 * unat a + unat b"

fun be_value :: "buffer \<Rightarrow> nat" where
  "be_value [] = 0"
| "be_value (b # bs) = unat b * 256 ^ length bs + be_value bs"

fun be_bytes :: "nat \<Rightarrow> nat \<Rightarrow> buffer" where
  "be_bytes 0 n = []"
| "be_bytes (Suc k) n = of_nat (n div 256 ^ k) # be_bytes k (n mod 256 ^ k)"

lemma length_be_bytes [simp]: "length (be_bytes k n) = k"
  by (induction k arbitrary: n) auto

lemma unat_of_nat_byte: "n < 256 \<Longrightarrow> unat (of_nat n :: byte) = n"
  by (simp add: unsigned_of_nat take_bit_eq_mod)

lemma utf8_inject [simp]: "utf8 s = utf8 t \<longleftrightarrow> s = t"
proof
  have inj: "c = d" if "(of_nat (of_char c) :: byte) = of_nat (of_char d)" for c d :: char
  proof -
    have "unat (of_nat (of_char c) :: byte) = of_char c" "unat (of_nat (of_char d) :: byte) = of_char d"
      by (simp_all add: unat_of_nat_byte nat_of_char_less_256)
    with that show ?thesis by (metis of_char_eq_iff)
  qed
  assume "utf8 s = utf8 t"
  then have "length s = length t" and all: "\<forall>i < length s. (of_nat (of_char (s ! i)) :: byte) = of_nat (of_char (t ! i))"
    by (auto simp: utf8_def list_eq_iff_nth_eq)
  with inj show "s = t" by (metis nth_equalityI)
qed simp

text \<open>The bytes of a UTF-8 text as a model string.\<close>

definition of_utf8 :: "buffer \<Rightarrow> string" where
  "of_utf8 bs = map (\<lambda>b. char_of (unat b)) bs"

lemma of_utf8_utf8 [simp]: "of_utf8 (utf8 s) = s"
proof -
  have "char_of (unat (of_nat (of_char c) :: byte)) = c" for c :: char
    by (simp add: unat_of_nat_byte nat_of_char_less_256)
  then show ?thesis by (induction s) (simp_all add: of_utf8_def utf8_def)
qed

lemma length_utf8 [simp]: "length (utf8 s) = length s"
  by (simp add: utf8_def)

lemma be_value_be_bytes: "n < 256 ^ k \<Longrightarrow> be_value (be_bytes k n) = n"
proof (induction k arbitrary: n)
  case 0
  then show ?case by simp
next
  case (Suc k)
  then have "n div 256 ^ k < 256" by (simp add: less_mult_imp_div_less mult.commute)
  moreover have "n mod 256 ^ k < 256 ^ k" by simp
  ultimately show ?case
    using Suc.IH [of "n mod 256 ^ k"] by (simp add: unat_of_nat_byte div_mult_mod_eq)
qed

lemma be_value_less: "be_value bs < 256 ^ length bs"
proof (induction bs)
  case Nil
  then show ?case by simp
next
  case (Cons b bs)
  have "unat b \<le> 255" using unsigned_less [of b, where ?'a = nat] by simp
  then have "unat b * 256 ^ length bs \<le> 255 * 256 ^ length bs" by (rule mult_le_mono1)
  moreover have "256 ^ length (b # bs) = 255 * 256 ^ length bs + (256 ^ length bs :: nat)" by simp
  ultimately show ?case using Cons.IH unfolding be_value.simps by linarith
qed

lemma be_bytes_be_value: "be_bytes (length bs) (be_value bs) = bs"
proof (induction bs)
  case Nil
  then show ?case by simp
next
  case (Cons b bs)
  have less: "be_value bs < 256 ^ length bs" by (rule be_value_less)
  then have "(unat b * 256 ^ length bs + be_value bs) div 256 ^ length bs = unat b"
    by simp
  moreover from less have "(unat b * 256 ^ length bs + be_value bs) mod 256 ^ length bs = be_value bs"
    by simp
  ultimately show ?case using Cons.IH by simp
qed

section \<open>Lists and maps\<close>

text \<open>The first position at which a predicate holds (\<open>findIndex\<close>; \<open>None\<close> is JavaScript's -1).\<close>

fun find_index :: "('a \<Rightarrow> bool) \<Rightarrow> 'a list \<Rightarrow> nat option" where
  "find_index P [] = None"
| "find_index P (x # xs) = (if P x then Some 0 else map_option Suc (find_index P xs))"

lemma find_index_Some: "find_index P xs = Some i \<Longrightarrow> i < length xs \<and> P (xs ! i)"
  by (induction xs arbitrary: i) (auto split: if_splits)

lemma find_index_None: "find_index P xs = None \<longleftrightarrow> (\<forall>x \<in> set xs. \<not> P x)"
  by (induction xs) auto

lemma find_SomeD: "find P xs = Some x \<Longrightarrow> x \<in> set xs \<and> P x"
  by (auto simp: find_Some_iff)

text \<open>
  A JavaScript \<open>Map\<close> or \<open>Set\<close> keeps insertion order: writing an existing key keeps its place, a new
  key goes to the end.
\<close>

fun al_put :: "'k \<Rightarrow> 'v \<Rightarrow> ('k \<times> 'v) list \<Rightarrow> ('k \<times> 'v) list" where
  "al_put k v [] = [(k, v)]"
| "al_put k v ((k', v') # kvs) = (if k = k' then (k, v) # kvs else (k', v') # al_put k v kvs)"

definition al_put_all :: "('k \<times> 'v) list \<Rightarrow> ('k \<times> 'v) list \<Rightarrow> ('k \<times> 'v) list" where
  "al_put_all kvs acc = fold (\<lambda>(k, v) m. al_put k v m) kvs acc"

lemma map_of_al_put [simp]: "map_of (al_put k v m) = (map_of m)(k \<mapsto> v)"
  by (induction k v m rule: al_put.induct) (auto simp: fun_eq_iff)

lemma keys_al_put: "set (map fst (al_put k v m)) = insert k (set (map fst m))"
  by (induction k v m rule: al_put.induct) auto

lemma set_al_put: "set (al_put k v m) \<subseteq> insert (k, v) (set m)"
  by (induction k v m rule: al_put.induct) auto

lemma distinct_al_put: "distinct (map fst m) \<Longrightarrow> distinct (map fst (al_put k v m))"
proof (induction k v m rule: al_put.induct)
  case (2 k v k' v' kvs)
  then show ?case using keys_al_put [of k v kvs] by auto
qed simp

lemma keys_al_put_new: "k \<notin> set (map fst m) \<Longrightarrow> map fst (al_put k v m) = map fst m @ [k]"
  by (induction k v m rule: al_put.induct) auto

lemma map_of_al_put_all: "map_of (al_put_all kvs m) = map_of m ++ map_of (rev kvs)"
proof (induction kvs arbitrary: m)
  case Nil
  then show ?case by (simp add: al_put_all_def)
next
  case (Cons kv kvs)
  obtain k v where "kv = (k, v)" by (cases kv)
  with Cons [of "al_put k v m"] show ?case
    by (auto simp: al_put_all_def fun_eq_iff map_add_def split: option.splits)
qed

lemma set_al_put_all: "set (al_put_all kvs m) \<subseteq> set m \<union> set kvs"
proof (induction kvs arbitrary: m)
  case Nil
  then show ?case by (simp add: al_put_all_def)
next
  case (Cons kv kvs)
  obtain k v where kv: "kv = (k, v)" by (cases kv)
  have "set (al_put_all (kv # kvs) m) \<subseteq> set (al_put k v m) \<union> set kvs"
    using Cons.IH [of "al_put k v m"] kv by (simp add: al_put_all_def)
  then show ?case using set_al_put [of k v m] kv by auto
qed

lemma distinct_al_put_all: "distinct (map fst m) \<Longrightarrow> distinct (map fst (al_put_all kvs m))"
proof (induction kvs arbitrary: m)
  case Nil
  then show ?case by (simp add: al_put_all_def)
next
  case (Cons kv kvs)
  obtain k v where kv: "kv = (k, v)" by (cases kv)
  from Cons.prems have "distinct (map fst (al_put k v m))" by (rule distinct_al_put)
  from Cons.IH [OF this] kv show ?case by (simp add: al_put_all_def)
qed

lemma keys_al_put_all: "set (map fst (al_put_all kvs m)) = set (map fst m) \<union> set (map fst kvs)"
proof (induction kvs arbitrary: m)
  case Nil
  then show ?case by (simp add: al_put_all_def)
next
  case (Cons kv kvs)
  obtain k v where kv: "kv = (k, v)" by (cases kv)
  from Cons.IH [of "al_put k v m"] kv show ?case
    using keys_al_put [of k v m] by (auto simp: al_put_all_def)
qed

lemma al_put_all_distinct:
  "distinct (map fst (m @ kvs)) \<Longrightarrow> al_put_all kvs m = m @ kvs"
proof (induction kvs arbitrary: m)
  case Nil
  then show ?case by (simp add: al_put_all_def)
next
  case (Cons kv kvs)
  obtain k v where kv: "kv = (k, v)" by (cases kv)
  have new: "al_put k v m = m @ [(k, v)]" if "k \<notin> set (map fst m)" for m :: "('a \<times> 'b) list"
    using that by (induction k v m rule: al_put.induct) auto
  from Cons.prems kv have "al_put k v m = m @ [(k, v)]" by (intro new) auto
  with Cons.IH [of "m @ [(k, v)]"] Cons.prems kv show ?case
    by (simp add: al_put_all_def)
qed

end
