(* ===== verification/JsTime.thy ===== *)
theory JsTime
  imports Prelude
begin

text \<open>
  The part of JavaScript's \<open>Date\<close> the backend relies on: time values (milliseconds since 1970 UTC),
  \<open>toISOString\<close> for the years 0 to 9999, and the parser of exactly that format. The calendar is
  the ECMAScript definition (\<open>DayFromYear\<close>, \<open>YearFromTime\<close>, the month table); the lemmas show that
  year, month and day are recovered from a day number, so that the text form is read back to the
  time it was made from.
\<close>

section \<open>The calendar\<close>

definition day_from_year :: "int \<Rightarrow> int" where
  "day_from_year y = 365 * (y - 1970) + (y - 1969) div 4 - (y - 1901) div 100 + (y - 1601) div 400"

definition leap_year :: "int \<Rightarrow> bool" where
  "leap_year y \<longleftrightarrow> y mod 4 = 0 \<and> (y mod 100 \<noteq> 0 \<or> y mod 400 = 0)"

definition year_of_day :: "int \<Rightarrow> int" where
  "year_of_day d =
     (let e = 400 * d div 146097 + 1970
      in if day_from_year (e + 1) \<le> d then e + 1 else if day_from_year e \<le> d then e else e - 1)"

definition month_starts :: "bool \<Rightarrow> int list" where
  "month_starts leap =
     (if leap then [0, 31, 60, 91, 121, 152, 182, 213, 244, 274, 305, 335]
      else [0, 31, 59, 90, 120, 151, 181, 212, 243, 273, 304, 334])"

text \<open>Month (0 to 11) and day of the month (1 to 31) of a day within the year.\<close>

definition month_of :: "bool \<Rightarrow> int \<Rightarrow> nat" where
  "month_of leap n = length (filter (\<lambda>s. s \<le> n) (month_starts leap)) - 1"

definition date_of :: "bool \<Rightarrow> int \<Rightarrow> int" where
  "date_of leap n = n - month_starts leap ! month_of leap n + 1"

definition day_in_year :: "bool \<Rightarrow> nat \<Rightarrow> int \<Rightarrow> int" where
  "day_in_year leap m dd = month_starts leap ! m + dd - 1"

lemma day_in_year_date_of [simp]: "day_in_year leap (month_of leap n) (date_of leap n) = n"
  by (simp add: day_in_year_def date_of_def)

lemma div_succ: "0 < n \<Longrightarrow> (x + 1) div n = x div n + (if (x + 1) mod n = 0 then 1 else 0)" for x n :: int
proof -
  assume n: "0 < n"
  define q r where "q = x div n" and "r = x mod n"
  have x: "x = n * q + r" and r: "0 \<le> r" "r < n" using n by (simp_all add: q_def r_def)
  show ?thesis
  proof (cases "r = n - 1")
    case True
    with x have x1: "x + 1 = n * (q + 1)" by (simp add: algebra_simps)
    from n have "n * (q + 1) div n = q + 1" by simp
    then show ?thesis unfolding q_def [symmetric] x1 by simp
  next
    case False
    with x r have "x + 1 = n * q + (r + 1)" "0 \<le> r + 1" "r + 1 < n" by auto
    then have "(x + 1) div n = q" "(x + 1) mod n = r + 1"
      using int_div_pos_eq [of "x + 1" n q "r + 1"] int_mod_pos_eq [of "x + 1" n q "r + 1"] by auto
    with r show ?thesis by (simp add: q_def)
  qed
qed

lemma year_length_cases:
  "(q \<longrightarrow> p) \<Longrightarrow> (r \<longrightarrow> q) \<Longrightarrow> (if p \<and> (\<not> q \<or> r) then 366 else 365)
     = 365 + (if p then 1 else 0) - (if q then 1 else 0) + (if r then 1 else (0::int))"
  by (cases p; cases q; cases r) simp_all

lemma day_from_year_Suc: "day_from_year (y + 1) = day_from_year y + (if leap_year y then 366 else 365)"
proof -
  have shift: "(y - c * n) mod n = y mod n" for c n :: int by (simp add: mod_diff_eq [symmetric])
  have 4: "(y + 1 - 1969) div 4 = (y - 1969) div 4 + (if y mod 4 = 0 then 1 else 0)"
    using div_succ [of 4 "y - 1969"] shift [of 492 4] by (simp add: algebra_simps)
  have 100: "(y + 1 - 1901) div 100 = (y - 1901) div 100 + (if y mod 100 = 0 then 1 else 0)"
    using div_succ [of 100 "y - 1901"] shift [of 19 100] by (simp add: algebra_simps)
  have 400: "(y + 1 - 1601) div 400 = (y - 1601) div 400 + (if y mod 400 = 0 then 1 else 0)"
    using div_succ [of 400 "y - 1601"] shift [of 4 400] by (simp add: algebra_simps)
  have imp: "y mod 100 = 0 \<longrightarrow> y mod 4 = 0" "y mod 400 = 0 \<longrightarrow> y mod 100 = 0"
    using mod_mod_cancel [of 4 100 y] mod_mod_cancel [of 100 400 y] by auto
  define i4 i100 i400 :: int where i: "i4 = (if y mod 4 = 0 then 1 else 0)"
    "i100 = (if y mod 100 = 0 then 1 else 0)" "i400 = (if y mod 400 = 0 then 1 else 0)"
  have leap: "(if leap_year y then 366 else 365) = 365 + i4 - i100 + i400"
    unfolding leap_year_def i by (rule year_length_cases [OF imp])
  show ?thesis unfolding leap unfolding day_from_year_def 4 100 400 i [symmetric]
    by (simp only: algebra_simps)
qed

lemma div_floor: "0 < n \<Longrightarrow> n * (x div n) \<le> x \<and> x < n * (x div n) + n" for x n :: int
  using mult_div_mod_eq [of n x] pos_mod_bound [of n x] pos_mod_sign [of n x] by linarith

lemma day_from_year_approx:
  "400 * day_from_year y \<le> 146097 * (y - 1970) + 800" "146097 * (y - 1970) - 800 \<le> 400 * day_from_year y"
proof -
  define a b c where "a = (y - 1969) div 4" and "b = (y - 1901) div 100" and "c = (y - 1601) div 400"
  have a: "4 * a \<le> y - 1969" "y - 1969 < 4 * a + 4" using div_floor [of 4 "y - 1969"] by (auto simp: a_def)
  have b: "100 * b \<le> y - 1901" "y - 1901 < 100 * b + 100"
    using div_floor [of 100 "y - 1901"] by (auto simp: b_def)
  have c: "400 * c \<le> y - 1601" "y - 1601 < 400 * c + 400"
    using div_floor [of 400 "y - 1601"] by (auto simp: c_def)
  have y: "day_from_year y = 365 * (y - 1970) + a - b + c"
    by (simp add: day_from_year_def a_def b_def c_def)
  show "400 * day_from_year y \<le> 146097 * (y - 1970) + 800" using a b c y by (simp add: algebra_simps)
  show "146097 * (y - 1970) - 800 \<le> 400 * day_from_year y" using a b c y by (simp add: algebra_simps)
qed

lemma year_of_day_bounds:
  "day_from_year (year_of_day d) \<le> d \<and> d < day_from_year (year_of_day d + 1)"
proof -
  define e where "e = 400 * d div 146097 + 1970"
  have e: "146097 * (e - 1970) \<le> 400 * d" "400 * d < 146097 * (e - 1970) + 146097"
    using div_floor [of 146097 "400 * d"] by (auto simp: e_def)
  have lo: "day_from_year (e - 1) \<le> d" using day_from_year_approx(1) [of "e - 1"] e by simp
  have hi: "d < day_from_year (e + 2)" using day_from_year_approx(2) [of "e + 2"] e by simp
  show ?thesis using lo hi unfolding year_of_day_def e_def [symmetric] Let_def
    by (auto simp: add.commute)
qed

lemma day_from_year_mono_less: "y < z \<Longrightarrow> day_from_year (y + 1) \<le> day_from_year z"
proof (induction "nat (z - y - 1)" arbitrary: z)
  case 0
  then have "z = y + 1" by simp
  then show ?case by simp
next
  case (Suc k)
  then have "day_from_year (y + 1) \<le> day_from_year (z - 1)" by (intro Suc.hyps) auto
  moreover have "day_from_year (z - 1) \<le> day_from_year z"
    using day_from_year_Suc [of "z - 1"] by (simp split: if_splits)
  ultimately show ?case by linarith
qed

lemma year_of_day_eqI: "day_from_year y \<le> d \<Longrightarrow> d < day_from_year (y + 1) \<Longrightarrow> year_of_day d = y"
  using year_of_day_bounds [of d] day_from_year_mono_less [of y "year_of_day d"]
    day_from_year_mono_less [of "year_of_day d" y]
  by linarith

lemma day_within_year: "0 \<le> d - day_from_year (year_of_day d)"
  "d - day_from_year (year_of_day d) < (if leap_year (year_of_day d) then 366 else 365)"
  using year_of_day_bounds [of d] day_from_year_Suc [of "year_of_day d"] by auto

lemma month_of_less: "0 \<le> n \<Longrightarrow> month_of leap n < 12"
  by (auto simp: month_of_def month_starts_def)

lemma date_of_bounds:
  assumes "0 \<le> n" "n < (if leap then 366 else 365)"
  shows "1 \<le> date_of leap n" "date_of leap n \<le> 31"
proof -
  have leap: "\<forall>n \<in> {0..365}. 1 \<le> date_of True n \<and> date_of True n \<le> 31" by code_simp
  have common: "\<forall>n \<in> {0..364}. 1 \<le> date_of False n \<and> date_of False n \<le> 31" by code_simp
  from assms have "n \<in> (if leap then {0..365} else {0..364})" by (auto split: if_splits)
  with leap common show "1 \<le> date_of leap n" "date_of leap n \<le> 31" by (cases leap; simp)+
qed

section \<open>The ISO text form\<close>

text \<open>
  \<open>new Date(t).toISOString()\<close>: four digits for the years 0 to 9999, otherwise a sign and six.
\<close>

definition iso_year :: "int \<Rightarrow> string" where
  "iso_year y =
     (if 0 \<le> y \<and> y < 10000 then pad_zero 4 (dec_string (nat y))
      else (if y < 0 then ''-'' else ''+'') @ pad_zero 6 (dec_string (nat \<bar>y\<bar>)))"

definition iso_date :: "millis \<Rightarrow> string" where
  "iso_date t =
     (let d = t div 86400000; y = year_of_day d; n = d - day_from_year y; leap = leap_year y
      in iso_year y @ ''-'' @
         pad_zero 2 (dec_string (month_of leap n + 1)) @ ''-'' @
         pad_zero 2 (dec_string (nat (date_of leap n))))"

definition iso_time :: "millis \<Rightarrow> string" where
  "iso_time t =
     (let m = nat (t mod 86400000)
      in pad_zero 2 (dec_string (m div 3600000)) @ '':'' @
         pad_zero 2 (dec_string (m div 60000 mod 60)) @ '':'' @
         pad_zero 2 (dec_string (m div 1000 mod 60)) @ ''.'' @
         pad_zero 3 (dec_string (m mod 1000)) @ ''Z'')"

definition to_iso_string :: "millis \<Rightarrow> string" where
  "to_iso_string t = iso_date t @ ''T'' @ iso_time t"

text \<open>The times whose year has four digits; MySQL's \<open>DATETIME\<close> holds no others.\<close>

definition four_digit_year :: "millis \<Rightarrow> bool" where
  "four_digit_year t \<longleftrightarrow> 0 \<le> year_of_day (t div 86400000) \<and> year_of_day (t div 86400000) < 10000"

text \<open>\<open>YYYY-MM-DDTHH:mm:ss.sssZ\<close>, read by position; anything else is not of this form.\<close>

definition parse_iso :: "string \<Rightarrow> millis option" where
  "parse_iso s =
     (if length s = 24 \<and> s ! 4 = CHR ''-'' \<and> s ! 7 = CHR ''-'' \<and> s ! 10 = CHR ''T'' \<and> s ! 13 = CHR '':''
        \<and> s ! 16 = CHR '':'' \<and> s ! 19 = CHR ''.'' \<and> s ! 23 = CHR ''Z''
      then case (parse_dec (take 4 s), parse_dec (take 2 (drop 5 s)), parse_dec (take 2 (drop 8 s)),
                 parse_dec (take 2 (drop 11 s)), parse_dec (take 2 (drop 14 s)),
                 parse_dec (take 2 (drop 17 s)), parse_dec (take 3 (drop 20 s))) of
          (Some y, Some mo, Some dd, Some h, Some mi, Some sec, Some ms) \<Rightarrow>
            if 1 \<le> mo \<and> mo \<le> 12 \<and> 1 \<le> dd \<and> dd \<le> 31 \<and> h < 24 \<and> mi < 60 \<and> sec < 60
            then Some ((day_from_year (int y) + day_in_year (leap_year (int y)) (mo - 1) (int dd)) * 86400000
                       + int (h * 3600000 + mi * 60000 + sec * 1000 + ms))
            else None
        | _ \<Rightarrow> None
      else None)"

lemma parse_iso_parts:
  assumes "length y = 4" "length mo = 2" "length dd = 2" "length h = 2" "length mi = 2" "length sec = 2"
    and "length ms = 3"
    and "parse_dec y = Some y'" "parse_dec mo = Some mo'" "parse_dec dd = Some dd'" "parse_dec h = Some h'"
    and "parse_dec mi = Some mi'" "parse_dec sec = Some sec'" "parse_dec ms = Some ms'"
    and "1 \<le> mo'" "mo' \<le> 12" "1 \<le> dd'" "dd' \<le> 31" "h' < 24" "mi' < 60" "sec' < 60"
  shows "parse_iso (y @ ''-'' @ mo @ ''-'' @ dd @ ''T'' @ h @ '':'' @ mi @ '':'' @ sec @ ''.'' @ ms @ ''Z'')
    = Some ((day_from_year (int y') + day_in_year (leap_year (int y')) (mo' - 1) (int dd')) * 86400000
            + int (h' * 3600000 + mi' * 60000 + sec' * 1000 + ms'))"
proof -
  obtain y1 y2 y3 y4 where "y = [y1, y2, y3, y4]"
    using assms(1) by (auto simp: numeral_eq_Suc length_Suc_conv)
  moreover obtain o1 o2 where "mo = [o1, o2]"
    using assms(2) by (auto simp: numeral_eq_Suc length_Suc_conv)
  moreover obtain d1 d2 where "dd = [d1, d2]"
    using assms(3) by (auto simp: numeral_eq_Suc length_Suc_conv)
  moreover obtain h1 h2 where "h = [h1, h2]"
    using assms(4) by (auto simp: numeral_eq_Suc length_Suc_conv)
  moreover obtain i1 i2 where "mi = [i1, i2]"
    using assms(5) by (auto simp: numeral_eq_Suc length_Suc_conv)
  moreover obtain s1 s2 where "sec = [s1, s2]"
    using assms(6) by (auto simp: numeral_eq_Suc length_Suc_conv)
  moreover obtain m1 m2 m3 where "ms = [m1, m2, m3]"
    using assms(7) by (auto simp: numeral_eq_Suc length_Suc_conv)
  ultimately show ?thesis using assms(8-) unfolding parse_iso_def by simp
qed

lemma time_of_day_parts:
  "m div 3600000 * 3600000 + m div 60000 mod 60 * 60000 + m div 1000 mod 60 * 1000 + m mod 1000 = m"
  for m :: nat
proof -
  define a where "a = m div 1000"
  define b where "b = a div 60"
  have b: "m div 60000 = b" using div_mult2_eq [of m 1000 60] by (simp add: a_def b_def)
  have c: "m div 3600000 = b div 60" using div_mult2_eq [of m 60000 60] b by simp
  have "b div 60 * 60 + b mod 60 = b" "b * 60 + a mod 60 = a" "a * 1000 + m mod 1000 = m"
    unfolding b_def a_def by (rule div_mult_mod_eq)+
  then show ?thesis unfolding b c a_def [symmetric] by linarith
qed

lemma iso_date_parts:
  assumes "four_digit_year t"
  defines "d \<equiv> t div 86400000"
  defines "y \<equiv> year_of_day d"
  defines "n \<equiv> d - day_from_year y"
  shows "int (nat y) = y" "nat y < 10000" "0 \<le> n" "month_of (leap_year y) n < 12"
    "1 \<le> date_of (leap_year y) n" "date_of (leap_year y) n \<le> 31"
proof -
  show "int (nat y) = y" "nat y < 10000"
    using assms(1) unfolding four_digit_year_def y_def d_def by auto
  show n: "0 \<le> n" using day_within_year(1) [of d] by (simp add: n_def y_def)
  show "month_of (leap_year y) n < 12" by (rule month_of_less [OF n])
  show "1 \<le> date_of (leap_year y) n" "date_of (leap_year y) n \<le> 31"
    using date_of_bounds [OF n] day_within_year(2) [of d] by (simp_all add: n_def y_def)
qed

lemma iso_year_four_digits:
  "four_digit_year t \<Longrightarrow> iso_year (year_of_day (t div 86400000)) = pad_zero 4 (dec_string (nat (year_of_day (t div 86400000))))"
  by (simp add: iso_year_def four_digit_year_def)

lemma parse_iso_date_time:
  assumes "four_digit_year t" and "h < 24" "mi < 60" "sec < 60" "ms < 1000"
  shows "parse_iso (iso_date t @ ''T'' @ pad_zero 2 (dec_string h) @ '':'' @ pad_zero 2 (dec_string mi) @ '':'' @
      pad_zero 2 (dec_string sec) @ ''.'' @ pad_zero 3 (dec_string ms) @ ''Z'')
    = Some (t div 86400000 * 86400000 + int (h * 3600000 + mi * 60000 + sec * 1000 + ms))"
proof -
  define d where "d = t div 86400000"
  define y where "y = year_of_day d"
  define n where "n = d - day_from_year y"
  note date = iso_date_parts [OF assms(1), folded d_def, folded y_def, folded n_def]
  define mo where "mo = month_of (leap_year y) n + 1"
  define dd where "dd = nat (date_of (leap_year y) n)"
  have iso: "iso_date t = pad_zero 4 (dec_string (nat y)) @ ''-'' @ pad_zero 2 (dec_string mo) @ ''-'' @
      pad_zero 2 (dec_string dd)"
    using iso_year_four_digits [OF assms(1)] by (simp add: iso_date_def Let_def d_def y_def n_def mo_def dd_def)
  have day: "day_from_year y + day_in_year (leap_year y) (mo - 1) (int dd) = d"
    using date(5) by (simp add: mo_def dd_def n_def)
  have bounds: "1 \<le> mo" "mo \<le> 12" "1 \<le> dd" "dd \<le> 31" "mo < 10 ^ 2" "dd < 10 ^ 2" "nat y < 10 ^ 4"
    using date by (auto simp: mo_def dd_def)
  have len: "length (pad_zero 2 (dec_string k)) = 2" if "k < 100" for k
    using that length_pad_zero [of k 2] by simp
  show ?thesis
    unfolding iso append_assoc
    using parse_iso_parts [of "pad_zero 4 (dec_string (nat y))" "pad_zero 2 (dec_string mo)"
        "pad_zero 2 (dec_string dd)" "pad_zero 2 (dec_string h)" "pad_zero 2 (dec_string mi)"
        "pad_zero 2 (dec_string sec)" "pad_zero 3 (dec_string ms)" "nat y" mo dd h mi sec ms]
      bounds assms(2-) date(1) day length_pad_zero [of "nat y" 4] length_pad_zero [of ms 3]
    by (simp add: len d_def)
qed

text \<open>The text form is read back to the time it was made from.\<close>

lemma parse_iso_to_iso_string:
  assumes "four_digit_year t"
  shows "parse_iso (to_iso_string t) = Some t"
proof -
  define m where "m = nat (t mod 86400000)"
  have m: "int m = t mod 86400000" by (simp add: m_def)
  then have "m < 86400000" using pos_mod_bound [of 86400000 t] by linarith
  then have hour: "m div 3600000 < 24" by (simp add: less_mult_imp_div_less)
  have "parse_iso (to_iso_string t) = Some (t div 86400000 * 86400000 + int m)"
    unfolding to_iso_string_def iso_time_def Let_def m_def [symmetric]
    using parse_iso_date_time [OF assms hour, of "m div 60000 mod 60" "m div 1000 mod 60" "m mod 1000"]
    by (simp add: time_of_day_parts)
  then show ?thesis using m by simp
qed

text \<open>A date without a time of day is read as midnight UTC.\<close>

lemma parse_iso_midnight:
  assumes "four_digit_year t"
  shows "parse_iso (iso_date t @ ''T00:00:00.000Z'') = Some (t div 86400000 * 86400000)"
proof -
  have z: "pad_zero 2 (dec_string 0) = ''00''" "pad_zero 3 (dec_string 0) = ''000''"
    by code_simp+
  show ?thesis using parse_iso_date_time [OF assms, of 0 0 0 0] by (simp add: z)
qed

lemma length_iso_date: "four_digit_year t \<Longrightarrow> length (iso_date t) = 10"
proof -
  assume t: "four_digit_year t"
  define d where "d = t div 86400000"
  define y where "y = year_of_day d"
  define n where "n = d - day_from_year y"
  note date = iso_date_parts [OF t, folded d_def, folded y_def, folded n_def]
  have "nat y < 10 ^ 4" "month_of (leap_year y) n + 1 < 10 ^ 2" "nat (date_of (leap_year y) n) < 10 ^ 2"
    using date by auto
  from this [THEN length_pad_zero] show ?thesis
    using iso_year_four_digits [OF t, folded d_def, folded y_def]
    by (simp add: iso_date_def Let_def d_def [symmetric] y_def [symmetric] n_def [symmetric])
qed

end
