(* ===== verification/Base64.thy ===== *)
theory Base64
  imports Prelude
begin

text \<open>
  \<open>Buffer.toString('base64')\<close> and \<open>Buffer.from(text, 'base64')\<close>: groups of three bytes as four
  characters, padded with \<open>=\<close>. Decoding reads both alphabets, stops at the first \<open>=\<close> and skips
  anything else, as Node does. What is encoded is decoded to itself.
\<close>

definition b64_alphabet :: string where
  "b64_alphabet = ''ABCDEFGHIJKLMNOPQRSTUVWXYZabcdefghijklmnopqrstuvwxyz0123456789+/''"

definition b64_char :: "nat \<Rightarrow> char" where
  "b64_char n = b64_alphabet ! n"

definition b64_index :: "char \<Rightarrow> nat option" where
  "b64_index c =
     (if c = CHR ''-'' then Some 62 else if c = CHR ''_'' then Some 63 else find_index ((=) c) b64_alphabet)"

fun b64_sextets :: "nat list \<Rightarrow> nat list" where
  "b64_sextets [] = []"
| "b64_sextets [a] = [a div 4, a mod 4 * 16]"
| "b64_sextets [a, b] = [a div 4, a mod 4 * 16 + b div 16, b mod 16 * 4]"
| "b64_sextets (a # b # c # rest) =
     a div 4 # (a mod 4 * 16 + b div 16) # (b mod 16 * 4 + c div 64) # c mod 64 # b64_sextets rest"

fun b64_octets :: "nat list \<Rightarrow> nat list" where
  "b64_octets (p # q # r # s # rest) =
     (p * 4 + q div 16) # (q mod 16 * 16 + r div 4) # (r mod 4 * 64 + s) # b64_octets rest"
| "b64_octets [p, q, r] = [p * 4 + q div 16, q mod 16 * 16 + r div 4]"
| "b64_octets [p, q] = [p * 4 + q div 16]"
| "b64_octets _ = []"

definition b64_encode :: "buffer \<Rightarrow> string" where
  "b64_encode bs =
     map b64_char (b64_sextets (map unat bs)) @ replicate ((3 - length bs mod 3) mod 3) CHR ''=''"

definition b64_decode :: "string \<Rightarrow> buffer" where
  "b64_decode s = map of_nat (b64_octets (List.map_filter b64_index (takeWhile (\<lambda>c. c \<noteq> CHR ''='') s)))"

lemma b64_octets_sextets: "\<forall>x \<in> set xs. x < 256 \<Longrightarrow> b64_octets (b64_sextets xs) = xs"
proof (induction xs rule: b64_sextets.induct)
  case (2 a)
  then show ?case by simp
next
  case (3 a b)
  then have "b div 16 < 16" by (simp add: less_mult_imp_div_less)
  then show ?case by (simp add: div_mult_mod_eq)
next
  case (4 a b c rest)
  then have "b div 16 < 16" "c div 64 < 4" by (simp_all add: less_mult_imp_div_less)
  with 4 show ?case by (simp add: div_mult_mod_eq)
qed simp

lemma b64_sextets_less: "\<forall>x \<in> set xs. x < 256 \<Longrightarrow> \<forall>s \<in> set (b64_sextets xs). s < 64"
proof (induction xs rule: b64_sextets.induct)
  case (2 a)
  then show ?case by (simp add: less_mult_imp_div_less)
next
  case (3 a b)
  then have "a div 4 < 64" "b div 16 < 16" "a mod 4 < 4" "b mod 16 < 16"
    by (simp_all add: less_mult_imp_div_less)
  then show ?case by simp
next
  case (4 a b c rest)
  then have "a div 4 < 64" "b div 16 < 16" "c div 64 < 4" "a mod 4 < 4" "b mod 16 < 16" "c mod 64 < 64"
    by (simp_all add: less_mult_imp_div_less)
  with 4 show ?case by simp linarith
qed simp

lemma b64_index_char: "n < 64 \<Longrightarrow> b64_index (b64_char n) = Some n \<and> b64_char n \<noteq> CHR ''=''"
proof -
  assume "n < 64"
  moreover have "\<forall>n \<in> {0..<64}. b64_index (b64_char n) = Some n \<and> b64_char n \<noteq> CHR ''=''" by code_simp
  ultimately show ?thesis by auto
qed

theorem b64_decode_encode [simp]: "b64_decode (b64_encode bs) = bs"
proof -
  have byte: "\<forall>x \<in> set (map unat bs). x < 256"
    using unsigned_less [where ?'a = nat and ?'b = 8] by auto
  define ss where "ss = b64_sextets (map unat bs)"
  have ss: "\<forall>s \<in> set ss. s < 64" unfolding ss_def by (rule b64_sextets_less [OF byte])
  then have "takeWhile (\<lambda>c. c \<noteq> CHR ''='') (map b64_char ss @ replicate k CHR ''='') = map b64_char ss" for k
    by (subst takeWhile_append2) (auto simp: b64_index_char)
  moreover from ss have "List.map_filter b64_index (map b64_char ss) = ss"
    by (induction ss) (simp_all add: List.map_filter_simps b64_index_char)
  moreover have "map of_nat (map unat bs) = bs" by (simp add: map_idI)
  ultimately show ?thesis
    using b64_octets_sextets [OF byte] by (simp add: b64_decode_def b64_encode_def ss_def)
qed

text \<open>The \<open>base64url\<close> form has the other two last characters and no padding.\<close>

definition b64url_char :: "nat \<Rightarrow> char" where
  "b64url_char n = (if n = 62 then CHR ''-'' else if n = 63 then CHR ''_'' else b64_char n)"

definition b64url_encode :: "buffer \<Rightarrow> string" where
  "b64url_encode bs = map b64url_char (b64_sextets (map unat bs))"

lemma b64url_index_char: "n < 64 \<Longrightarrow> b64_index (b64url_char n) = Some n \<and> b64url_char n \<noteq> CHR ''=''"
  using b64_index_char [of n] by (auto simp: b64url_char_def b64_index_def)

theorem b64url_decode_encode [simp]: "b64_decode (b64url_encode bs) = bs"
proof -
  have byte: "\<forall>x \<in> set (map unat bs). x < 256"
    using unsigned_less [where ?'a = nat and ?'b = 8] by auto
  define ss where "ss = b64_sextets (map unat bs)"
  have ss: "\<forall>s \<in> set ss. s < 64" unfolding ss_def by (rule b64_sextets_less [OF byte])
  then have "takeWhile (\<lambda>c. c \<noteq> CHR ''='') (map b64url_char ss) = map b64url_char ss"
    by (auto simp: takeWhile_eq_all_conv b64url_index_char)
  moreover from ss have "List.map_filter b64_index (map b64url_char ss) = ss"
    by (induction ss) (simp_all add: List.map_filter_simps b64url_index_char)
  moreover have "map of_nat (map unat bs) = bs" by (simp add: map_idI)
  ultimately show ?thesis
    using b64_octets_sextets [OF byte]
    by (simp add: b64_decode_def b64url_encode_def ss_def del: takeWhile_eq_all_conv)
qed

end
