(* ===== verification/Preference.thy ===== *)
theory Preference
  imports Prelude
begin

text \<open>
  The one contract behind every decision the nodes of a cluster make without talking: which version of
  a row stays (\<open>Codec\<close>) and which node owns a piece of work (\<open>Health\<close>).
\<close>

text \<open>
  What a node relies on to decide by itself which of two candidates stays: a comparison that is a
  strict total order. Merging a candidate into what is held keeps the better of the two, so the
  candidates may arrive in any order, any number of times.
\<close>

locale preference =
  fixes newer :: "'v \<Rightarrow> 'v \<Rightarrow> bool"
  assumes newer_irrefl: "\<not> newer a a"
    and newer_trans: "newer a b \<Longrightarrow> newer b c \<Longrightarrow> newer a c"
    and newer_total: "a \<noteq> b \<Longrightarrow> newer a b \<or> newer b a"
begin

definition merge :: "'v \<Rightarrow> 'v option \<Rightarrow> 'v option" where
  "merge x cur = (case cur of None \<Rightarrow> Some x | Some y \<Rightarrow> if newer x y then Some x else Some y)"

lemma newer_asym: "newer a b \<Longrightarrow> \<not> newer b a"
  using newer_trans newer_irrefl by blast

lemma merge_idem: "merge x (merge x cur) = merge x cur"
  by (auto simp: merge_def newer_irrefl split: option.splits)

lemma merge_commute: "merge x (merge y cur) = merge y (merge x cur)"
proof (cases cur)
  case None
  then show ?thesis using newer_total [of x y] newer_asym [of x y] by (auto simp: merge_def)
next
  case (Some z)
  then show ?thesis
    unfolding merge_def by (simp split: if_splits) (metis newer_total newer_trans newer_asym)
qed

lemma merge_ge: "\<exists>z. merge x cur = Some z \<and> \<not> newer x z \<and> (\<forall>y. cur = Some y \<longrightarrow> \<not> newer y z)"
  by (auto simp: merge_def newer_irrefl dest: newer_asym split: option.splits)

lemma merge_fold_swap: "merge x (fold merge zs c) = fold merge zs (merge x c)"
  by (induction zs arbitrary: c) (simp_all add: merge_commute [of x])

lemma merge_fold_absorb: "x \<in> set xs \<Longrightarrow> merge x (fold merge xs cur) = fold merge xs cur"
  by (induction xs arbitrary: cur) (auto simp: merge_fold_swap merge_idem)

lemma fold_merge_absorb: "set xs \<subseteq> set zs \<Longrightarrow> fold merge (zs @ xs) cur = fold merge zs cur"
  by (induction xs rule: rev_induct) (simp_all add: merge_fold_absorb)

lemma fold_merge_append_commute: "fold merge (xs @ ys) cur = fold merge (ys @ xs) cur"
proof (induction xs arbitrary: ys)
  case (Cons x xs)
  have "fold merge ((x # xs) @ ys) cur = merge x (fold merge (xs @ ys) cur)"
    by (simp add: merge_fold_swap)
  also have "\<dots> = merge x (fold merge (ys @ xs) cur)" by (simp only: Cons.IH)
  also have "\<dots> = fold merge (ys @ x # xs) cur" by (simp add: merge_fold_swap)
  finally show ?case .
qed simp

text \<open>What is held after a set of candidates depends on the set alone.\<close>

lemma fold_merge_set: "set xs = set ys \<Longrightarrow> fold merge xs cur = fold merge ys cur"
  using fold_merge_absorb [of ys xs] fold_merge_absorb [of xs ys] fold_merge_append_commute [of xs ys]
  by simp

lemma fold_merge_upper:
  "fold merge xs cur = Some z \<Longrightarrow> x \<in> set xs \<Longrightarrow> \<not> newer x z"
proof -
  assume z: "fold merge xs cur = Some z" and "x \<in> set xs"
  then have "merge x (Some z) = Some z" using merge_fold_absorb [of x xs cur] by simp
  then show ?thesis by (auto simp: merge_def newer_irrefl split: if_splits)
qed

lemma fold_merge_member: "fold merge xs cur = Some z \<Longrightarrow> z \<in> set xs \<or> cur = Some z"
  by (induction xs arbitrary: cur) (force simp: merge_def split: option.splits if_splits)+

lemma fold_merge_Some: "cur \<noteq> None \<or> xs \<noteq> [] \<Longrightarrow> fold merge xs cur \<noteq> None"
  by (induction xs arbitrary: cur) (auto simp: merge_def split: option.splits)

text \<open>The winner is the one candidate no other beats.\<close>

lemma fold_merge_unique:
  assumes "z \<in> set xs" "\<forall>x \<in> set xs. \<not> newer x z"
  shows "fold merge xs None = Some z"
proof -
  have "xs \<noteq> []" using assms(1) by auto
  then obtain y where y: "fold merge xs None = Some y" using fold_merge_Some [of None xs] by auto
  then have "y \<in> set xs" using fold_merge_member by blast
  with y assms fold_merge_upper newer_total [of y z] show ?thesis by blast
qed

lemma fold_merge_remove:
  assumes "fold merge xs None \<noteq> Some x"
  shows "fold merge (filter (\<lambda>y. y \<noteq> x) xs) None = fold merge xs None"
proof (cases "fold merge xs None")
  case None
  then have "xs = []" using fold_merge_Some [of None xs] by auto
  then show ?thesis by simp
next
  case (Some z)
  then have "z \<in> set xs" "\<forall>y \<in> set xs. \<not> newer y z"
    using fold_merge_member fold_merge_upper by blast+
  with assms Some show ?thesis by (simp add: fold_merge_unique)
qed

end

end
