(* ===== verification/Codec.thy ===== *)
theory Codec
  imports Preference JsTime Base64
begin

text \<open>
  \<^verbatim>\<open>src/cluster/codec.ts\<close>: the wire form of database values and the versions of replicated rows.

  A value the database driver hands out is a \<open>js_value\<close>; what travels in JSON is a \<open>wire_value\<close>.
  JavaScript numbers are the rationals they denote. Conversions between values of different kinds
  that ECMAScript leaves to the engine or that never occur on a row read from a column of the
  matching type (the local text of a date, number text) are the fields of \<open>js_host\<close>; none of them
  is used on a well-typed row. The last section orders versions: the strict order every
  node decides \<^emph>\<open>last writer wins\<close> by, as an interface (\<open>last_writer\<close>) with the merge laws that
  follow from it, interpreted on the code's comparison.
\<close>

section \<open>Values\<close>

datatype column_kind = KString | KNumber | KBigint | KDatetime | KDate | KBinary | KDecimal | KJson

record codec_column =
  cc_name :: string
  cc_kind :: column_kind

datatype js_value =
    JUndefined
  | JNull
  | JBool bool
  | JNum rat
  | JNaN
  | JBig int
  | JStr string
  | JDate "millis option" \<comment> \<open>\<open>None\<close>: an invalid date\<close>
  | JBytes buffer

datatype wire_value = WStr string | WNum rat | WNaN | WBool bool | WNull

record js_host =
  host_date_parse :: "string \<Rightarrow> millis option" \<comment> \<open>\<open>Date.parse\<close> of text that is no ISO time\<close>
  host_date_text :: "millis option \<Rightarrow> string"
  host_number_parse :: "string \<Rightarrow> rat option"
  host_number_text :: "rat \<Rightarrow> string"

definition kind_of :: "string \<Rightarrow> column_kind" where
  "kind_of data_type =
     (let t = to_lower data_type
      in if t = ''datetime'' \<or> t = ''timestamp'' then KDatetime
         else if t = ''date'' then KDate
         else if t \<in> {''tinyblob'', ''blob'', ''mediumblob'', ''longblob'', ''binary'', ''varbinary'', ''bit''}
         then KBinary
         else if t = ''bigint'' then KBigint
         else if t \<in> {''tinyint'', ''smallint'', ''mediumint'', ''int'', ''integer'', ''float'', ''double'', ''year''}
         then KNumber
         else if t = ''decimal'' \<or> t = ''numeric'' then KDecimal
         else if t = ''json'' then KJson
         else KString)"

section \<open>Conversions of the language\<close>

text \<open>\<open>Number(bigint)\<close>: the nearest double, ties to even; exact up to \<open>2 ^ 53\<close>.\<close>

definition double_of_int :: "int \<Rightarrow> rat" where
  "double_of_int i =
     (let a = nat \<bar>i\<bar>
      in if a \<le> 2 ^ 53 then of_int i
         else let u = 2 ^ (bit_length a - 53); m = a div u; r = a mod u;
                  m' = (if 2 * r > u \<or> (2 * r = u \<and> odd m) then m + 1 else m)
              in of_int (sgn i * int (m' * u)))"

text \<open>\<open>String(value)\<close>\<close>

fun to_text :: "js_host \<Rightarrow> js_value \<Rightarrow> string" where
  "to_text h JUndefined = ''undefined''"
| "to_text h JNull = ''null''"
| "to_text h (JBool b) = (if b then ''true'' else ''false'')"
| "to_text h (JNum r) = host_number_text h r"
| "to_text h JNaN = ''NaN''"
| "to_text h (JBig i) = int_string i"
| "to_text h (JStr s) = s"
| "to_text h (JDate t) = host_date_text h t"
| "to_text h (JBytes bs) = join_with '','' (map (\<lambda>b. dec_string (unat b)) bs)"

fun wire_text :: "js_host \<Rightarrow> wire_value \<Rightarrow> string" where
  "wire_text h (WStr s) = s"
| "wire_text h (WNum r) = host_number_text h r"
| "wire_text h WNaN = ''NaN''"
| "wire_text h (WBool b) = (if b then ''true'' else ''false'')"
| "wire_text h WNull = ''null''"

text \<open>\<open>new Date(text)\<close>\<close>

definition date_of_text :: "js_host \<Rightarrow> string \<Rightarrow> millis option" where
  "date_of_text h s = (case parse_iso s of Some t \<Rightarrow> Some t | None \<Rightarrow> host_date_parse h s)"

text \<open>\<open>JSON.stringify\<close> of a value that is no string (\<open>None\<close>: it throws).\<close>

fun stringify :: "js_host \<Rightarrow> js_value \<Rightarrow> string option" where
  "stringify h (JBool b) = Some (if b then ''true'' else ''false'')"
| "stringify h (JNum r) = Some (host_number_text h r)"
| "stringify h (JBig i) = None"
| "stringify h (JDate (Some t)) = Some (CHR 0x22 # to_iso_string t @ [CHR 0x22])"
| "stringify h (JBytes bs) =
     Some (''{'' @ join_with '',''
             (map (\<lambda>(i, b). CHR 0x22 # dec_string i @ CHR 0x22 # CHR '':'' # dec_string (unat b))
               (enumerate 0 bs)) @ ''}'')"
| "stringify h (JStr s) = Some (CHR 0x22 # s @ [CHR 0x22])"
| "stringify h _ = Some ''null''"

definition digit_in :: "nat \<Rightarrow> char \<Rightarrow> nat option" where
  "digit_in radix c =
     (let n = of_char (lower_char c) :: nat;
          d = (if 48 \<le> n \<and> n < 58 then n - 48 else if 97 \<le> n \<and> n \<le> 122 then n - 87 else 99)
      in if d < radix then Some d else None)"

fun radix_value :: "nat \<Rightarrow> nat \<Rightarrow> string \<Rightarrow> nat option" where
  "radix_value radix acc [] = Some acc"
| "radix_value radix acc (c # cs) =
     (case digit_in radix c of None \<Rightarrow> None | Some d \<Rightarrow> radix_value radix (acc * radix + d) cs)"

text \<open>\<open>BigInt(text)\<close>: blank text is 0, a sign only before decimal digits, \<open>0x\<close>, \<open>0o\<close> and \<open>0b\<close>.\<close>

definition bigint_of_text :: "string \<Rightarrow> int option" where
  "bigint_of_text text =
     (let s = trim text; prefix = to_lower (take 2 s); rest = drop 2 s
      in if s = [] then Some 0
         else if prefix \<in> {''0x'', ''0o'', ''0b''}
         then if rest = [] then None
              else map_option int (radix_value (if prefix = ''0x'' then 16 else if prefix = ''0o'' then 8 else 2) 0 rest)
         else if hd s = CHR ''-'' then map_option (\<lambda>n. - int n) (parse_dec (tl s))
         else if hd s = CHR ''+'' then map_option int (parse_dec (tl s))
         else map_option int (parse_dec s))"

section \<open>Encoding and decoding a row\<close>

definition encode_value :: "js_host \<Rightarrow> column_kind \<Rightarrow> js_value \<Rightarrow> string + wire_value" where
  "encode_value h kind v =
     (if v = JNull \<or> v = JUndefined then Inr WNull
      else case kind of
        KDatetime \<Rightarrow>
          (case (case v of JDate t \<Rightarrow> t | _ \<Rightarrow> date_of_text h (to_text h v)) of
             None \<Rightarrow> Inl ''invalid datetime value''
           | Some t \<Rightarrow> Inr (WStr (to_iso_string t)))
      | KDate \<Rightarrow>
          (case (case v of JDate t \<Rightarrow> t | _ \<Rightarrow> date_of_text h (to_text h v)) of
             None \<Rightarrow> Inl ''invalid date value''
           | Some t \<Rightarrow> Inr (WStr (take 10 (to_iso_string t))))
      | KBinary \<Rightarrow>
          (case v of JBytes bs \<Rightarrow> Inr (WStr (b64_encode bs))
           | _ \<Rightarrow> Inl ''binary column did not contain binary data'')
      | KBigint \<Rightarrow> Inr (WStr (to_text h v))
      | KNumber \<Rightarrow>
          Inr (case v of
              JBig i \<Rightarrow> WNum (double_of_int i)
            | JBool b \<Rightarrow> WNum (if b then 1 else 0)
            | JNum r \<Rightarrow> WNum r
            | JDate t \<Rightarrow> (case t of None \<Rightarrow> WNaN | Some t' \<Rightarrow> WNum (of_int t'))
            | JNaN \<Rightarrow> WNaN
            | _ \<Rightarrow> (case host_number_parse h (to_text h v) of None \<Rightarrow> WNaN | Some r \<Rightarrow> WNum r))
      | KDecimal \<Rightarrow> Inr (WStr (to_text h v))
      | KJson \<Rightarrow>
          (case v of JStr s \<Rightarrow> Inr (WStr s)
           | _ \<Rightarrow> (case stringify h v of
                     None \<Rightarrow> Inl ''Do not know how to serialize a BigInt'' | Some s \<Rightarrow> Inr (WStr s)))
      | KString \<Rightarrow> Inr (WStr (to_text h v)))"

definition decode_value :: "js_host \<Rightarrow> column_kind \<Rightarrow> wire_value \<Rightarrow> string + js_value" where
  "decode_value h kind w =
     (if w = WNull then Inr JNull
      else case kind of
        KDatetime \<Rightarrow>
          (case date_of_text h (wire_text h w) of
             None \<Rightarrow> Inl ''invalid datetime value'' | Some t \<Rightarrow> Inr (JDate (Some t)))
      | KDate \<Rightarrow>
          (case date_of_text h (wire_text h w @ ''T00:00:00.000Z'') of
             None \<Rightarrow> Inl ''invalid date value'' | Some t \<Rightarrow> Inr (JDate (Some t)))
      | KBinary \<Rightarrow> Inr (JBytes (b64_decode (wire_text h w)))
      | KBigint \<Rightarrow>
          (case bigint_of_text (wire_text h w) of
             None \<Rightarrow> Inl ''Cannot convert to a BigInt'' | Some i \<Rightarrow> Inr (JBig i))
      | KNumber \<Rightarrow>
          (case (case w of
                   WNum r \<Rightarrow> Some r
                 | WBool b \<Rightarrow> Some (if b then 1 else 0)
                 | WStr s \<Rightarrow> host_number_parse h s
                 | _ \<Rightarrow> None) of
             None \<Rightarrow> Inl ''invalid numeric value'' | Some r \<Rightarrow> Inr (JNum r))
      | _ \<Rightarrow> Inr (JStr (wire_text h w)))"

definition encode_row :: "js_host \<Rightarrow> codec_column list \<Rightarrow> (string \<rightharpoonup> js_value) \<Rightarrow> string + wire_value list" where
  "encode_row h cols row =
     sequence_results (map (\<lambda>c. encode_value h (cc_kind c)
       (case row (cc_name c) of None \<Rightarrow> JUndefined | Some v \<Rightarrow> v)) cols)"

definition decode_row :: "js_host \<Rightarrow> codec_column list \<Rightarrow> wire_value list \<Rightarrow> string + js_value list" where
  "decode_row h cols values =
     (if length values \<noteq> length cols then Inl ''row does not match the column list''
      else sequence_results (map2 (\<lambda>c w. decode_value h (cc_kind c) w) cols values))"

text \<open>What the driver hands out for a column of each kind: the values that travel without loss.\<close>

definition well_typed :: "column_kind \<Rightarrow> js_value \<Rightarrow> bool" where
  "well_typed kind v =
     (case v of
        JNull \<Rightarrow> True
      | JDate (Some t) \<Rightarrow>
          four_digit_year t \<and> (kind = KDatetime \<or> (kind = KDate \<and> t mod 86400000 = 0))
      | JBytes _ \<Rightarrow> kind = KBinary
      | JBig _ \<Rightarrow> kind = KBigint
      | JNum _ \<Rightarrow> kind = KNumber
      | JStr _ \<Rightarrow> kind \<in> {KString, KDecimal, KJson}
      | _ \<Rightarrow> False)"

lemma char_digit_not_blank: "char_digit c = Some d \<Longrightarrow> \<not> is_space c"
  by (auto simp: char_digit_def is_space_def Let_def split: if_splits)

lemma digits_dec_string: "c \<in> set (dec_string n) \<Longrightarrow> is_digit c"
proof (induction n rule: dec_string.induct)
  case (1 n)
  then show ?case
    by (subst (asm) dec_string.simps) (auto simp: is_digit_def split: if_splits)
qed

lemma trim_id: "s \<noteq> [] \<Longrightarrow> \<not> is_space (hd s) \<Longrightarrow> \<not> is_space (last s) \<Longrightarrow> trim s = s"
proof -
  assume s: "s \<noteq> []" "\<not> is_space (hd s)" "\<not> is_space (last s)"
  have id: "dropWhile is_space xs = xs" if "xs \<noteq> []" "\<not> is_space (hd xs)" for xs
    using that by (cases xs) auto
  from id [of s] id [of "rev s"] s show ?thesis by (simp add: trim_def hd_rev)
qed

lemma trim_int_string: "trim (int_string i) = int_string i"
proof (rule trim_id)
  have digit: "\<not> is_space c" if "c \<in> set (dec_string n)" for c n
    using digits_dec_string [OF that] by (auto simp: is_digit_def char_digit_not_blank)
  show "int_string i \<noteq> []" by (simp add: int_string_def)
  show "\<not> is_space (hd (int_string i))"
    using digit [OF hd_in_set [OF dec_string_nonempty]] by (simp add: int_string_def is_space_def)
  show "\<not> is_space (last (int_string i))"
    using digit [OF last_in_set [OF dec_string_nonempty]] by (simp add: int_string_def)
qed

lemma take2_not_prefix:
  assumes "\<And>c. c \<in> set (tl s) \<Longrightarrow> is_digit c"
  shows "to_lower (take 2 s) \<notin> {''0x'', ''0o'', ''0b''}"
proof
  assume pre: "to_lower (take 2 s) \<in> {''0x'', ''0o'', ''0b''}"
  then obtain a b rest where s: "s = a # b # rest"
    by (cases s; cases "tl s") (auto simp: to_lower_def)
  with assms have "is_digit b" by simp
  then have "lower_char b = b" "b \<noteq> CHR ''x'' \<and> b \<noteq> CHR ''o'' \<and> b \<noteq> CHR ''b''"
    by (auto simp: is_digit_def char_digit_def lower_char_def Let_def split: if_splits)
  with pre s show False by (auto simp: to_lower_def)
qed

lemma bigint_of_int_string: "bigint_of_text (int_string i) = Some i"
proof (cases "i < 0")
  case True
  then have i: "int_string i = CHR ''-'' # dec_string (nat (- i))" by (simp add: int_string_def)
  have "to_lower (take 2 (int_string i)) \<notin> {''0x'', ''0o'', ''0b''}"
    by (rule take2_not_prefix) (simp add: i digits_dec_string)
  then show ?thesis
    using True unfolding bigint_of_text_def Let_def trim_int_string by (simp add: i)
next
  case False
  then have i: "int_string i = dec_string (nat i)" by (simp add: int_string_def)
  have pre: "to_lower (take 2 (int_string i)) \<notin> {''0x'', ''0o'', ''0b''}"
    by (rule take2_not_prefix) (metis i digits_dec_string list.set_sel(2) list.sel(2) dec_string_nonempty)
  have "is_digit (hd (dec_string (nat i)))"
    using digits_dec_string [OF hd_in_set [OF dec_string_nonempty]] .
  then have "hd (dec_string (nat i)) \<noteq> CHR ''-''" "hd (dec_string (nat i)) \<noteq> CHR ''+''"
    by (auto simp: is_digit_def char_digit_def)
  then show ?thesis
    using False pre unfolding bigint_of_text_def Let_def trim_int_string by (simp add: i)
qed

lemma date_of_iso [simp]: "four_digit_year t \<Longrightarrow> date_of_text h (to_iso_string t) = Some t"
  by (simp add: date_of_text_def parse_iso_to_iso_string)

lemma take_iso_date: "four_digit_year t \<Longrightarrow> take 10 (to_iso_string t) = iso_date t"
  by (simp add: to_iso_string_def length_iso_date)

lemma date_of_midnight [simp]:
  "four_digit_year t \<Longrightarrow> t mod 86400000 = 0 \<Longrightarrow> date_of_text h (iso_date t @ ''T00:00:00.000Z'') = Some t"
  using parse_iso_midnight [of t] minus_mod_eq_div_mult [of t 86400000] by (simp add: date_of_text_def)

lemma decode_encode_value:
  "well_typed kind v \<Longrightarrow> \<exists>w. encode_value h kind v = Inr w \<and> decode_value h kind w = Inr v"
proof (cases v)
  case (JDate t)
  moreover assume "well_typed kind v"
  ultimately show ?thesis
    by (cases kind; cases t) (simp_all add: well_typed_def encode_value_def decode_value_def take_iso_date)
next
  case (JBig i)
  moreover assume "well_typed kind v"
  ultimately show ?thesis
    by (cases kind) (simp_all add: well_typed_def encode_value_def decode_value_def bigint_of_int_string)
next
  case (JStr s)
  moreover assume "well_typed kind v"
  ultimately show ?thesis
    by (cases kind) (simp_all add: well_typed_def encode_value_def decode_value_def)
qed ((cases kind; simp add: well_typed_def encode_value_def decode_value_def)+)

text \<open>A row read from well-typed columns arrives as it was sent.\<close>

lemma decode_encode_row:
  assumes "\<And>c. c \<in> set cols \<Longrightarrow> \<exists>v. row (cc_name c) = Some v \<and> well_typed (cc_kind c) v"
  shows "\<exists>ws. encode_row h cols row = Inr ws
      \<and> decode_row h cols ws = Inr (map (\<lambda>c. the (row (cc_name c))) cols)"
  using assms
proof (induction cols)
  case Nil
  then show ?case by (simp add: encode_row_def decode_row_def)
next
  case (Cons c cols)
  then obtain v where v: "row (cc_name c) = Some v" "well_typed (cc_kind c) v" by auto
  from decode_encode_value [OF v(2)] obtain w where
    w: "encode_value h (cc_kind c) v = Inr w" "decode_value h (cc_kind c) w = Inr v" by blast
  from Cons obtain ws where
    ws: "encode_row h cols row = Inr ws" "decode_row h cols ws = Inr (map (\<lambda>c. the (row (cc_name c))) cols)"
    by auto
  from v w ws have "encode_row h (c # cols) row = Inr (w # ws)" by (simp add: encode_row_def)
  moreover have "decode_row h (c # cols) (w # ws) = Inr (map (\<lambda>c. the (row (cc_name c))) (c # cols))"
    using v w ws by (simp add: decode_row_def split: if_splits)
  ultimately show ?case by blast
qed

lemma decode_row_length: "decode_row h cols ws = Inr vs \<Longrightarrow> length vs = length cols"
  by (auto simp: decode_row_def sequence_results_Inr split: if_splits dest: arg_cong [where f = length])

section \<open>Versions\<close>

record row_version =
  version :: int
  origin :: string

definition compare_versions :: "row_version \<Rightarrow> row_version \<Rightarrow> int" where
  "compare_versions a b =
     (if version a \<noteq> version b then (if version a > version b then 1 else - 1)
      else if origin a = origin b then 0
      else if str_less (origin b) (origin a) then 1 else - 1)"

definition is_newer :: "row_version \<Rightarrow> row_version option \<Rightarrow> bool" where
  "is_newer incoming local_version =
     (case local_version of None \<Rightarrow> True | Some l \<Rightarrow> compare_versions incoming l > 0)"

lemma compare_versions_pos:
  "compare_versions a b > 0 \<longleftrightarrow>
     version a > version b \<or> (version a = version b \<and> str_less (origin b) (origin a))"
  by (auto simp: compare_versions_def)

lemma row_version_eqI: "version a = version b \<Longrightarrow> origin a = origin b \<Longrightarrow> a = (b :: row_version)"
  by simp

interpretation lww: preference "\<lambda>a b. compare_versions a b > 0"
proof unfold_locales
  fix a b c :: row_version
  show "\<not> compare_versions a a > 0" by (simp add: compare_versions_def)
  show "compare_versions a b > 0 \<Longrightarrow> compare_versions b c > 0 \<Longrightarrow> compare_versions a c > 0"
    by (auto simp: compare_versions_pos intro: str_less_trans)
  show "a \<noteq> b \<Longrightarrow> compare_versions a b > 0 \<or> compare_versions b a > 0"
    using row_version_eqI [of a b] str_less_total [of "origin a" "origin b"]
    by (cases "version a = version b"; cases "origin a = origin b") (auto simp: compare_versions_pos)
qed

lemma merge_is_newer: "lww.merge v cur = (if is_newer v cur then Some v else cur)"
  by (simp add: lww.merge_def is_newer_def split: option.splits)

lemma is_newer_Some: "is_newer a (Some b) \<longleftrightarrow> compare_versions a b > 0"
  by (simp add: is_newer_def)

lemma is_newer_None [simp]: "is_newer a None"
  by (simp add: is_newer_def)

lemma is_newer_bump [simp]: "is_newer \<lparr>version = v + 1, origin = o'\<rparr> (Some \<lparr>version = v, origin = o''\<rparr>)"
  by (simp add: is_newer_def compare_versions_def)

end
