(* ===== verification/Framing.thy ===== *)
theory Framing
  imports Prelude
begin

text \<open>
  \<^verbatim>\<open>src/cluster/framing.ts\<close>: the layout of a call's content before it is sealed: one codec byte,
  four length bytes, the content, zero padding up to a step size. Brotli is a parameter: a compressor
  \<open>buffer \<Rightarrow> buffer\<close> and a decompressor that takes the largest output it may produce and otherwise
  throws.
\<close>

definition codec_raw :: nat where "codec_raw = 0"
definition codec_brotli :: nat where "codec_brotli = 1"
definition header_bytes :: nat where "header_bytes = 5"
definition compress_from_bytes :: nat where "compress_from_bytes = 1024"
definition min_padded_bytes :: nat where "min_padded_bytes = 1024"
definition large_step_bytes :: nat where "large_step_bytes = 64 * 1024"

lemmas framing_consts = codec_raw_def codec_brotli_def header_bytes_def compress_from_bytes_def
  min_padded_bytes_def large_step_bytes_def

text \<open>\<open>2 ** Math.ceil(Math.log2(bytes))\<close> is the smallest power of two that is at least \<open>bytes\<close>.\<close>

definition padded_size :: "nat \<Rightarrow> nat" where
  "padded_size bytes =
     (if bytes \<le> min_padded_bytes then min_padded_bytes
      else if bytes \<le> large_step_bytes then 2 ^ bit_length (bytes - 1)
      else (bytes + large_step_bytes - 1) div large_step_bytes * large_step_bytes)"

definition pack_payload :: "(buffer \<Rightarrow> buffer) \<Rightarrow> buffer \<Rightarrow> string + buffer" where
  "pack_payload compress plaintext =
     (let compressed = compress plaintext;
          smaller = compress_from_bytes \<le> length plaintext \<and> length compressed < length plaintext;
          codec = (if smaller then codec_brotli else codec_raw);
          body = (if smaller then compressed else plaintext)
      in if 2 ^ 32 \<le> length body then Inl ''The value of \"value\" is out of range''
         else Inr (of_nat codec # be_bytes 4 (length body) @ body @
                   replicate (padded_size (header_bytes + length body) - (header_bytes + length body)) 0))"

definition unpack_payload :: "(buffer \<Rightarrow> nat \<Rightarrow> string + buffer) \<Rightarrow> buffer \<Rightarrow> nat \<Rightarrow> string + buffer" where
  "unpack_payload decompress packed max_bytes =
     (if length packed < header_bytes then Inl ''package is too short''
      else let codec = unat (hd packed);
               len = be_value (take 4 (drop 1 packed))
           in if len > length packed - header_bytes then Inl ''package length is inconsistent''
              else let body = take len (drop header_bytes packed)
                   in if codec = codec_raw
                      then if length body > max_bytes then Inl ''package exceeds the size limit'' else Inr body
                      else if codec = codec_brotli then decompress body max_bytes
                      else Inl ''package uses an unknown encoding'')"

section \<open>Padding\<close>

lemma padded_size_ge: "bytes \<le> padded_size bytes"
proof -
  consider "bytes \<le> 1024" | "1024 < bytes" "bytes \<le> 65536" | "65536 < bytes" by linarith
  then show ?thesis
  proof cases
    case 2
    then show ?thesis
      using less_exp_bit_length [of "bytes - 1"] by (simp add: padded_size_def framing_consts)
  next
    case 3
    have "bytes \<le> (bytes + 65535) div 65536 * 65536" by linarith
    with 3 show ?thesis by (simp add: padded_size_def framing_consts)
  qed (simp add: padded_size_def framing_consts)
qed

text \<open>The sizes an observer can see: powers of two from 1 KiB to 64 KiB, then multiples of 64 KiB.\<close>

definition is_step :: "nat \<Rightarrow> bool" where
  "is_step n \<longleftrightarrow> n \<in> {1024, 2048, 4096, 8192, 16384, 32768} \<or> (n mod 65536 = 0 \<and> 0 < n)"

lemma pow2_step:
  assumes "1024 < bytes" "bytes \<le> 65536"
  shows "2 ^ bit_length (bytes - 1) \<in> {2048, 4096, 8192, 16384, 32768, 65536 :: nat}"
proof -
  have "bit_length (bytes - 1) \<le> 16" using assms by (simp add: bit_length_le_iff)
  moreover have "\<not> bit_length (bytes - 1) \<le> 10" using assms by (simp add: bit_length_le_iff)
  ultimately have "bit_length (bytes - 1) \<in> {11, 12, 13, 14, 15, 16}" by auto
  then show ?thesis by auto
qed

lemma padded_size_is_step: "is_step (padded_size bytes)"
proof -
  consider "bytes \<le> 1024" | "1024 < bytes" "bytes \<le> 65536" | "65536 < bytes" by linarith
  then show ?thesis
  proof cases
    case 2
    from pow2_step [OF this] 2 show ?thesis
      by (auto simp: padded_size_def framing_consts is_step_def)
  next
    case 3
    then have "0 < (bytes + 65535) div 65536" by (simp add: div_greater_zero_iff)
    with 3 show ?thesis by (simp add: padded_size_def framing_consts is_step_def)
  qed (simp add: padded_size_def framing_consts is_step_def)
qed

lemma padded_size_least: "is_step n \<Longrightarrow> bytes \<le> n \<Longrightarrow> padded_size bytes \<le> n"
proof -
  assume step: "is_step n" and le: "bytes \<le> n"
  consider "bytes \<le> 1024" | "1024 < bytes" "bytes \<le> 65536" | "65536 < bytes" by linarith
  then show ?thesis
  proof cases
    case 1
    then show ?thesis using step by (auto simp: padded_size_def framing_consts is_step_def)
  next
    case 2
    have pow: "2 ^ bit_length (bytes - 1) \<le> (2::nat) ^ k" if "bytes \<le> 2 ^ k" for k
      using that 2 by (intro power_increasing) (auto simp: bit_length_le_iff)
    have "2 ^ bit_length (bytes - 1) \<le> n"
    proof (cases "n < 65536")
      case True
      with step have "n \<in> {2 ^ 10, 2 ^ 11, 2 ^ 12, 2 ^ 13, 2 ^ 14, 2 ^ 15}" by (auto simp: is_step_def)
      with le pow show ?thesis by blast
    next
      case False
      then show ?thesis using pow [of 16] 2 by simp
    qed
    with 2 show ?thesis by (simp add: padded_size_def framing_consts)
  next
    case 3
    with step le have "n mod 65536 = 0" by (auto simp: is_step_def)
    then obtain q where q: "n = q * 65536" by (metis mod_0_imp_dvd dvd_def mult.commute)
    with le have "(bytes + 65535) div 65536 \<le> q" by linarith
    then have "(bytes + 65535) div 65536 * 65536 \<le> n" unfolding q by (rule mult_le_mono1)
    with 3 show ?thesis by (simp add: padded_size_def framing_consts add.commute)
  qed
qed

section \<open>Packing and unpacking\<close>

lemma length_framed:
  "length (c # be_bytes 4 l @ body @ replicate (padded_size (5 + length body) - (5 + length body)) 0) =
   padded_size (5 + length body)"
  using padded_size_ge [of "5 + length body"] by simp

lemma length_pack_payload:
  assumes "pack_payload compress plaintext = Inr packed"
  shows "\<exists>n. n \<le> length plaintext \<and> length packed = padded_size (5 + n)"
proof -
  define body where "body = (if compress_from_bytes \<le> length plaintext \<and> length (compress plaintext) < length plaintext
    then compress plaintext else plaintext)"
  have "length body \<le> length plaintext" by (simp add: body_def)
  moreover have "length packed = padded_size (5 + length body)"
    using assms length_framed [of _ "length body" body]
    by (auto simp: pack_payload_def Let_def header_bytes_def body_def split: if_splits)
  ultimately show ?thesis by blast
qed

lemma unpack_layout:
  assumes "length body < 2 ^ 32" "codec < 256"
  shows "unpack_payload decompress (of_nat codec # be_bytes 4 (length body) @ body @ pad) max_bytes =
    (if codec = codec_raw then if length body > max_bytes then Inl ''package exceeds the size limit'' else Inr body
     else if codec = codec_brotli then decompress body max_bytes else Inl ''package uses an unknown encoding'')"
proof -
  have len: "be_value (be_bytes 4 (length body)) = length body"
    using assms(1) by (intro be_value_be_bytes) simp
  have "take 4 (be_bytes 4 (length body) @ body @ pad) = be_bytes 4 (length body)"
    "drop 4 (be_bytes 4 (length body) @ body @ pad) = body @ pad" by simp_all
  then show ?thesis
    unfolding unpack_payload_def Let_def header_bytes_def
    by (simp add: len unat_of_nat_byte assms(2))
qed

lemma unpack_pack_lemma:
  assumes "pack_payload compress plaintext = Inr packed" "length plaintext \<le> max_bytes"
    and "decompress (compress plaintext) max_bytes = Inr plaintext"
  shows "unpack_payload decompress packed max_bytes = Inr plaintext"
  using assms unpack_layout [of _ 0] unpack_layout [of _ 1]
  by (auto simp: pack_payload_def Let_def codec_raw_def codec_brotli_def split: if_splits)

lemma unpack_bounded_lemma:
  assumes "\<And>body out. decompress body max_bytes = Inr out \<Longrightarrow> length out \<le> max_bytes"
    and "unpack_payload decompress packed max_bytes = Inr out"
  shows "length out \<le> max_bytes"
  using assms by (auto simp: unpack_payload_def Let_def split: if_splits)

end
