(* ===== verification/Crypto.thy ===== *)
theory Crypto
  imports Base64
begin

text \<open>
  \<^verbatim>\<open>src/cluster/crypto.ts\<close>: the transcripts both handshakes authenticate, the keys they derive, the
  sealed frames of a session, the layout of a request and the window that accepts each counter once.
  SHA-256, HMAC, HKDF, scrypt, AES-256-GCM and X25519 come from Node and are the fields of
  \<open>primitives\<close>; randomness is an argument. A call that throws is \<open>Inl\<close> of its message.
\<close>

definition protocol_version :: nat where "protocol_version = 2"
definition tls_protocol_version :: nat where "tls_protocol_version = 3"
definition label :: string where "label = ''pokyh-cluster/v1''"
definition key_bytes :: nat where "key_bytes = 32"
definition nonce_bytes :: nat where "nonce_bytes = 12"
definition tag_bytes :: nat where "tag_bytes = 16"
definition session_id_bytes :: nat where "session_id_bytes = 16"
definition x25519_public_bytes :: nat where "x25519_public_bytes = 32"

lemmas crypto_consts = protocol_version_def tls_protocol_version_def key_bytes_def nonce_bytes_def
  tag_bytes_def session_id_bytes_def x25519_public_bytes_def

text \<open>What Node's \<open>crypto\<close> provides; a private key is represented by its bytes.\<close>

record primitives =
  sha256_of :: "buffer \<Rightarrow> buffer"
  hmac_sha256 :: "buffer \<Rightarrow> buffer \<Rightarrow> buffer"
  hkdf_sha256 :: "buffer \<Rightarrow> buffer \<Rightarrow> buffer \<Rightarrow> nat \<Rightarrow> buffer"
  scrypt_of :: "buffer \<Rightarrow> buffer \<Rightarrow> nat \<Rightarrow> buffer"
  nfkc :: "string \<Rightarrow> string"
  gcm_seal :: "buffer \<Rightarrow> buffer \<Rightarrow> buffer \<Rightarrow> buffer \<Rightarrow> buffer \<times> buffer"
  gcm_open :: "buffer \<Rightarrow> buffer \<Rightarrow> buffer \<Rightarrow> buffer \<Rightarrow> buffer \<Rightarrow> buffer option"
  x25519 :: "buffer \<Rightarrow> buffer \<Rightarrow> buffer"

section \<open>Small helpers\<close>

definition sha256 :: "primitives \<Rightarrow> buffer list \<Rightarrow> buffer" where
  "sha256 pr parts = sha256_of pr (concat parts)"

definition hmac :: "primitives \<Rightarrow> buffer \<Rightarrow> buffer \<Rightarrow> buffer" where
  "hmac pr key data = hmac_sha256 pr key data"

definition hkdf :: "primitives \<Rightarrow> buffer \<Rightarrow> buffer \<Rightarrow> string \<Rightarrow> buffer" where
  "hkdf pr ikm salt info = hkdf_sha256 pr ikm salt (utf8 (label @ ''/'' @ info)) key_bytes"

definition safe_equal :: "buffer \<Rightarrow> buffer \<Rightarrow> bool" where
  "safe_equal a b \<longleftrightarrow> length a = length b \<and> a = b"

definition out_of_range :: string where
  "out_of_range = ''The value of \"value\" is out of range''"

fun encode_fields :: "buffer list \<Rightarrow> string + buffer" where
  "encode_fields [] = Inr []"
| "encode_fields (f # fs) =
     (if 2 ^ 32 \<le> length f then Inl out_of_range
      else and_then (encode_fields fs) (\<lambda>rest. Inr (be_bytes 4 (length f) @ f @ rest)))"

definition counter_bytes :: "int \<Rightarrow> string + buffer" where
  "counter_bytes counter =
     (if counter < 0 \<or> 2 ^ 64 \<le> counter then Inl out_of_range else Inr (be_bytes 8 (nat counter)))"

section \<open>Wrapping secrets at rest\<close>

definition derive_kek :: "primitives \<Rightarrow> string \<Rightarrow> buffer" where
  "derive_kek pr secret = hkdf pr (utf8 secret) (utf8 (label @ ''/kek-salt'')) ''key-encryption''"

definition wrap_secret :: "primitives \<Rightarrow> buffer \<Rightarrow> buffer \<Rightarrow> buffer \<Rightarrow> string \<Rightarrow> string" where
  "wrap_secret pr nonce kek plaintext ctx =
     (let (body, tag) = gcm_seal pr kek nonce (utf8 (label @ ''/wrap/'' @ ctx)) plaintext
      in b64url_encode (nonce @ body @ tag))"

definition unwrap_secret :: "primitives \<Rightarrow> buffer \<Rightarrow> string \<Rightarrow> string \<Rightarrow> string + buffer" where
  "unwrap_secret pr kek wrapped ctx =
     (let raw = b64_decode wrapped
      in if length raw < nonce_bytes + tag_bytes then Inl ''wrapped secret is malformed''
         else let nonce = take nonce_bytes raw;
                  tag = drop (length raw - tag_bytes) raw;
                  body = drop nonce_bytes (take (length raw - tag_bytes) raw)
              in case gcm_open pr kek nonce (utf8 (label @ ''/wrap/'' @ ctx)) body tag of
                   None \<Rightarrow> Inl ''Unsupported state or unable to authenticate data''
                 | Some plaintext \<Rightarrow> Inr plaintext)"

section \<open>Pairing key\<close>

definition base32_alphabet :: string where
  "base32_alphabet = ''ABCDEFGHJKMNPQRSTUVWXYZ23456789''"

text \<open>The characters a stream of random bytes yields: bytes past the last full cycle are dropped.\<close>

definition pairing_key_chars :: "buffer \<Rightarrow> string" where
  "pairing_key_chars bytes =
     (let limit = 256 - 256 mod length base32_alphabet
      in map (\<lambda>b. base32_alphabet ! (unat b mod length base32_alphabet))
           (filter (\<lambda>b. unat b < limit) bytes))"

fun group5 :: "string \<Rightarrow> string" where
  "group5 (a # b # c # d # e # f # rest) = a # b # c # d # e # CHR ''-'' # group5 (f # rest)"
| "group5 s = s"

text \<open>The draws of the loop, one after the other; \<open>None\<close> asks for another draw.\<close>

definition generate_pairing_key :: "buffer \<Rightarrow> string option" where
  "generate_pairing_key drawn =
     (let out = pairing_key_chars drawn in if length out < 40 then None else Some (group5 (take 40 out)))"

definition normalize_pairing_key :: "primitives \<Rightarrow> string \<Rightarrow> string" where
  "normalize_pairing_key pr key = trim (nfkc pr key)"

definition pairing_key_problem :: "primitives \<Rightarrow> string \<Rightarrow> string option" where
  "pairing_key_problem pr key =
     (let normalized = normalize_pairing_key pr key
      in if length normalized < 16 then Some ''Pairing key must be at least 16 characters long''
         else if 256 < length normalized then Some ''Pairing key must be at most 256 characters long''
         else if card (set normalized) < 8
         then Some (''Pairing key is too repetitive '' @ em_dash @ '' use the generated key or a longer passphrase'')
         else None)"

definition derive_pairing_psk :: "primitives \<Rightarrow> string \<Rightarrow> buffer \<Rightarrow> buffer" where
  "derive_pairing_psk pr pairing_key salt =
     scrypt_of pr (utf8 (normalize_pairing_key pr pairing_key)) salt key_bytes"

definition shared_secret :: "primitives \<Rightarrow> buffer \<Rightarrow> buffer \<Rightarrow> string + buffer" where
  "shared_secret pr private_key peer_public =
     (if length peer_public \<noteq> x25519_public_bytes then Inl ''peer public key has the wrong length''
      else let shared = x25519 pr private_key peer_public
           in if list_all (\<lambda>b. b = 0) shared then Inl ''peer public key is not acceptable'' else Inr shared)"

section \<open>Handshakes\<close>

record channel_binding =
  cb_client :: string
  cb_server :: string

definition binding_fields :: "channel_binding option \<Rightarrow> buffer list" where
  "binding_fields tls =
     (case tls of None \<Rightarrow> [] | Some b \<Rightarrow> [utf8 ''tls'', utf8 (cb_client b), utf8 (cb_server b)])"

definition handshake_version :: "channel_binding option \<Rightarrow> string" where
  "handshake_version tls = dec_string (if tls = None then protocol_version else tls_protocol_version)"

record pair_init =
  pi_from :: string
  pi_name :: string
  pi_addr :: string
  pi_salt :: buffer
  pi_e :: buffer
  pi_n :: buffer
  pi_tls :: "channel_binding option"

record pair_accept =
  pa_id :: string
  pa_name :: string
  pa_e :: buffer
  pa_n :: buffer

definition pair_init_fields :: "pair_init \<Rightarrow> buffer list" where
  "pair_init_fields i =
     [utf8 ''pair-init'', utf8 (handshake_version (pi_tls i)), utf8 (pi_from i), utf8 (pi_name i),
      utf8 (pi_addr i), pi_salt i, pi_e i, pi_n i] @ binding_fields (pi_tls i)"

definition pair_init_transcript :: "pair_init \<Rightarrow> string + buffer" where
  "pair_init_transcript i = encode_fields (pair_init_fields i)"

definition pair_init_mac :: "primitives \<Rightarrow> buffer \<Rightarrow> pair_init \<Rightarrow> string + buffer" where
  "pair_init_mac pr psk i =
     and_then (pair_init_transcript i) (\<lambda>t. Inr (hmac pr (hkdf pr psk (pi_salt i) ''pair/init-mac'') t))"

record pair_keys_result =
  confirm_initiator :: buffer
  confirm_responder :: buffer
  link_key :: buffer

definition pair_keys ::
    "primitives \<Rightarrow> buffer \<Rightarrow> buffer \<Rightarrow> pair_init \<Rightarrow> pair_accept \<Rightarrow> string + pair_keys_result" where
  "pair_keys pr psk shared i a =
     and_then (pair_init_transcript i) (\<lambda>t1.
     and_then (encode_fields [utf8 ''pair-accept'', utf8 (pa_id a), utf8 (pa_name a), pa_e a, pa_n a]) (\<lambda>t2.
       let transcript = sha256 pr [t1, t2];
           master = hkdf pr shared psk ''pair/master''
       in Inr \<lparr>confirm_initiator = hmac pr (hkdf pr master transcript ''pair/confirm-initiator'') transcript,
               confirm_responder = hmac pr (hkdf pr master transcript ''pair/confirm-responder'') transcript,
               link_key = hkdf pr master transcript ''pair/link-key''\<rparr>))"

record session_init =
  si_from :: string
  si_to :: string
  si_e :: buffer
  si_n :: buffer
  si_tls :: "channel_binding option"

record session_accept =
  sa_sid :: buffer
  sa_e :: buffer
  sa_n :: buffer

definition session_init_fields :: "session_init \<Rightarrow> buffer list" where
  "session_init_fields i =
     [utf8 ''session-init'', utf8 (handshake_version (si_tls i)), utf8 (si_from i), utf8 (si_to i),
      si_e i, si_n i] @ binding_fields (si_tls i)"

definition session_init_transcript :: "session_init \<Rightarrow> string + buffer" where
  "session_init_transcript i = encode_fields (session_init_fields i)"

definition session_full_transcript ::
    "primitives \<Rightarrow> session_init \<Rightarrow> session_accept \<Rightarrow> string + buffer" where
  "session_full_transcript pr i a =
     and_then (session_init_transcript i) (\<lambda>t1.
     and_then (encode_fields [utf8 ''session-accept'', sa_sid a, sa_e a, sa_n a]) (\<lambda>t2.
       Inr (sha256 pr [t1, t2])))"

definition session_init_mac :: "primitives \<Rightarrow> buffer \<Rightarrow> session_init \<Rightarrow> string + buffer" where
  "session_init_mac pr lk i =
     and_then (session_init_transcript i) (\<lambda>t. Inr (hmac pr (hkdf pr lk (si_n i) ''session/init-mac'') t))"

definition session_accept_mac ::
    "primitives \<Rightarrow> buffer \<Rightarrow> session_init \<Rightarrow> session_accept \<Rightarrow> string + buffer" where
  "session_accept_mac pr lk i a =
     and_then (session_full_transcript pr i a)
       (\<lambda>t. Inr (hmac pr (hkdf pr lk (sa_n a) ''session/accept-mac'') t))"

record session_keys_result =
  key_c2s :: buffer
  key_s2c :: buffer

definition session_keys ::
    "primitives \<Rightarrow> buffer \<Rightarrow> buffer \<Rightarrow> session_init \<Rightarrow> session_accept \<Rightarrow> string + session_keys_result" where
  "session_keys pr lk shared i a =
     and_then (session_full_transcript pr i a) (\<lambda>transcript.
       let master = hkdf pr shared lk ''session/master''
       in Inr \<lparr>key_c2s = hkdf pr master transcript ''session/client-to-server'',
               key_s2c = hkdf pr master transcript ''session/server-to-client''\<rparr>)"

section \<open>Sealed frames and requests\<close>

datatype direction = C2S | S2C

fun direction_text :: "direction \<Rightarrow> string" where
  "direction_text C2S = ''c2s''"
| "direction_text S2C = ''s2c''"

definition frame_nonce :: "int \<Rightarrow> string + buffer" where
  "frame_nonce counter = and_then (counter_bytes counter) (\<lambda>c. Inr (replicate (nonce_bytes - 8) 0 @ c))"

definition frame_aad :: "direction \<Rightarrow> buffer \<Rightarrow> int \<Rightarrow> string + buffer" where
  "frame_aad d sid counter =
     and_then (counter_bytes counter) (\<lambda>c.
       encode_fields [utf8 (label @ ''/frame''), utf8 (direction_text d), sid, c])"

definition seal_frame ::
    "primitives \<Rightarrow> buffer \<Rightarrow> direction \<Rightarrow> buffer \<Rightarrow> int \<Rightarrow> buffer \<Rightarrow> string + buffer" where
  "seal_frame pr key d sid counter plaintext =
     and_then (frame_nonce counter) (\<lambda>nonce.
     and_then (frame_aad d sid counter) (\<lambda>aad.
       let (body, tag) = gcm_seal pr key nonce aad plaintext in Inr (body @ tag)))"

definition open_frame ::
    "primitives \<Rightarrow> buffer \<Rightarrow> direction \<Rightarrow> buffer \<Rightarrow> int \<Rightarrow> buffer \<Rightarrow> string + buffer" where
  "open_frame pr key d sid counter sealed =
     (if length sealed < tag_bytes then Inl ''frame is too short''
      else and_then (frame_nonce counter) (\<lambda>nonce.
           and_then (frame_aad d sid counter) (\<lambda>aad.
             case gcm_open pr key nonce aad (take (length sealed - tag_bytes) sealed)
                    (drop (length sealed - tag_bytes) sealed) of
               None \<Rightarrow> Inl ''Unsupported state or unable to authenticate data''
             | Some plaintext \<Rightarrow> Inr plaintext)))"

definition request_header_bytes :: nat where
  "request_header_bytes = session_id_bytes + 8"

definition encode_request :: "buffer \<Rightarrow> int \<Rightarrow> buffer \<Rightarrow> string + buffer" where
  "encode_request sid counter sealed = and_then (counter_bytes counter) (\<lambda>c. Inr (sid @ c @ sealed))"

record request =
  req_sid :: buffer
  req_counter :: int
  req_sealed :: buffer

definition decode_request :: "buffer \<Rightarrow> request option" where
  "decode_request body =
     (if length body < request_header_bytes + tag_bytes then None
      else Some \<lparr>req_sid = take session_id_bytes body,
                 req_counter = int (be_value (take 8 (drop session_id_bytes body))),
                 req_sealed = drop request_header_bytes body\<rparr>)"

section \<open>Replay protection\<close>

record replay_window =
  highest :: int
  seen :: "int list"
  win_size :: int

definition new_window :: "int \<Rightarrow> replay_window" where
  "new_window n = \<lparr>highest = -1, seen = [], win_size = n\<rparr>"

definition accept_counter :: "replay_window \<Rightarrow> int \<Rightarrow> bool \<times> replay_window" where
  "accept_counter w counter =
     (if counter < 0 then (False, w)
      else if highest w \<ge> 0 \<and> counter \<le> highest w - win_size w then (False, w)
      else if counter \<in> set (seen w) then (False, w)
      else let seen' = seen w @ [counter];
               highest' = (if counter > highest w then counter else highest w);
               seen'' = (if int (length seen') > win_size w * 2
                         then filter (\<lambda>v. \<not> v \<le> highest' - win_size w) seen' else seen')
           in (True, w\<lparr>highest := highest', seen := seen''\<rparr>))"

fun accept_all :: "replay_window \<Rightarrow> int list \<Rightarrow> bool list \<times> replay_window" where
  "accept_all w [] = ([], w)"
| "accept_all w (c # cs) =
     (let (ok, w') = accept_counter w c; (oks, w'') = accept_all w' cs in (ok # oks, w''))"

section \<open>Configuration comparison\<close>

definition hex_digit :: "nat \<Rightarrow> char" where
  "hex_digit n = ''0123456789abcdef'' ! n"

definition hex_encode :: "buffer \<Rightarrow> string" where
  "hex_encode bs = concat (map (\<lambda>b. [hex_digit (unat b div 16), hex_digit (unat b mod 16)]) bs)"

definition config_fingerprint :: "primitives \<Rightarrow> buffer \<Rightarrow> string \<Rightarrow> string \<Rightarrow> string" where
  "config_fingerprint pr lk lbl v =
     hex_encode (take 16 (hmac pr (hkdf pr lk (utf8 lbl) ''config-fingerprint'') (utf8 v)))"

section \<open>Transcripts\<close>

lemma be_bytes_4_inject:
  assumes "be_bytes 4 m = be_bytes 4 n" "m < 2 ^ 32" "n < 2 ^ 32"
  shows "m = n"
proof -
  have "be_value (be_bytes 4 m) = m" "be_value (be_bytes 4 n) = n"
    using assms(2, 3) by (simp_all add: be_value_be_bytes)
  then show ?thesis using assms(1) by metis
qed

lemma encode_fields_ConsE:
  assumes "encode_fields (f # fs) = Inr b"
  obtains rest where "length f < 2 ^ 32" "encode_fields fs = Inr rest" "b = be_bytes 4 (length f) @ f @ rest"
  using assms by (auto simp: and_then_Inr not_le split: if_splits)

text \<open>Nothing two field lists encode to coincides, not even when one continues the other.\<close>

lemma encode_fields_inject:
  "encode_fields fs = Inr b \<Longrightarrow> encode_fields gs = Inr b \<Longrightarrow> fs = gs"
proof (induction fs arbitrary: gs b)
  case Nil
  then show ?case by (cases gs) (auto simp: and_then_Inr split: if_splits dest: arg_cong [where f = length])
next
  case (Cons f fs)
  from Cons.prems(1) obtain r where f: "length f < 2 ^ 32" "encode_fields fs = Inr r"
    "b = be_bytes 4 (length f) @ f @ r" by (rule encode_fields_ConsE)
  from f(3) have "b \<noteq> []" by (auto dest: arg_cong [where f = length])
  with Cons.prems(2) obtain g gs' where gs: "gs = g # gs'" by (cases gs) auto
  with Cons.prems(2) obtain r' where g: "length g < 2 ^ 32" "encode_fields gs' = Inr r'"
    "b = be_bytes 4 (length g) @ g @ r'" by (metis encode_fields_ConsE)
  from f(3) g(3) have "be_bytes 4 (length f) = be_bytes 4 (length g)" and tl: "f @ r = g @ r'"
    by (auto simp: append_eq_append_conv)
  with f(1) g(1) have "length f = length g" by (intro be_bytes_4_inject)
  with tl have "f = g" "r = r'" by auto
  with Cons.IH [OF f(2), of gs'] g(2) gs show ?case by simp
qed

lemma binding_fields_inject: "binding_fields a = binding_fields b \<Longrightarrow> a = b"
  by (auto simp: binding_fields_def split: option.splits)

lemma pair_init_fields_inject:
  assumes "pair_init_fields i = pair_init_fields j"
  shows "i = j"
proof -
  have "pi_from i = pi_from j" "pi_name i = pi_name j" "pi_addr i = pi_addr j" "pi_salt i = pi_salt j" "pi_e i = pi_e j" "pi_n i = pi_n j"
    "binding_fields (pi_tls i) = binding_fields (pi_tls j)"
    using assms unfolding pair_init_fields_def append_Cons append_Nil list.inject utf8_inject by blast+
  then show ?thesis by (intro pair_init.equality) (simp_all add: binding_fields_inject)
qed

lemma session_init_fields_inject:
  assumes "session_init_fields i = session_init_fields j"
  shows "i = j"
proof -
  have "si_from i = si_from j" "si_to i = si_to j" "si_e i = si_e j" "si_n i = si_n j"
    "binding_fields (si_tls i) = binding_fields (si_tls j)"
    using assms unfolding session_init_fields_def append_Cons append_Nil list.inject utf8_inject by blast+
  then show ?thesis by (intro session_init.equality) (simp_all add: binding_fields_inject)
qed

section \<open>Frames\<close>

lemma counter_bytes_Inr:
  "counter_bytes c = Inr b \<longleftrightarrow> 0 \<le> c \<and> c < 2 ^ 64 \<and> b = be_bytes 8 (nat c)"
  by (auto simp: counter_bytes_def)

lemma be_value_counter: "0 \<le> c \<Longrightarrow> c < 2 ^ 64 \<Longrightarrow> int (be_value (be_bytes 8 (nat c))) = c"
  by (subst be_value_be_bytes) auto

lemma counter_bytes_inject: "counter_bytes c = Inr b \<Longrightarrow> counter_bytes d = Inr b \<Longrightarrow> c = d"
  by (metis counter_bytes_Inr be_value_counter)

lemma direction_text_inject: "utf8 (direction_text d) = utf8 (direction_text d') \<longleftrightarrow> d = d'"
  by (cases d; cases d') auto

lemma frame_aad_inject:
  "frame_aad d sid c = Inr a \<Longrightarrow> frame_aad d' sid' c' = Inr a \<Longrightarrow> d = d' \<and> sid = sid' \<and> c = c'"
proof -
  assume "frame_aad d sid c = Inr a" "frame_aad d' sid' c' = Inr a"
  then obtain b b' where b: "counter_bytes c = Inr b" "counter_bytes c' = Inr b'"
    and e: "encode_fields [utf8 (label @ ''/frame''), utf8 (direction_text d), sid, b] = Inr a"
      "encode_fields [utf8 (label @ ''/frame''), utf8 (direction_text d'), sid', b'] = Inr a"
    unfolding frame_aad_def by (auto elim!: and_then_InrE simp del: encode_fields.simps)
  from encode_fields_inject [OF e] have "utf8 (direction_text d) = utf8 (direction_text d')" "sid = sid'" "b = b'"
    by (simp_all del: utf8_inject)
  with b show ?thesis using counter_bytes_inject direction_text_inject by blast
qed

text \<open>
  What AES-256-GCM documents: opening succeeds exactly on what sealing with the same key, nonce and
  associated data gives, and the tag has 16 bytes.
\<close>

definition gcm_laws :: "primitives \<Rightarrow> bool" where
  "gcm_laws pr \<longleftrightarrow>
     (\<forall>key nonce aad body tag plaintext.
        gcm_open pr key nonce aad body tag = Some plaintext \<longleftrightarrow> gcm_seal pr key nonce aad plaintext = (body, tag)) \<and>
     (\<forall>key nonce aad plaintext. length (snd (gcm_seal pr key nonce aad plaintext)) = 16)"

lemma gcm_open_iff: "gcm_laws pr \<Longrightarrow>
    gcm_open pr key nonce aad body tag = Some p \<longleftrightarrow> gcm_seal pr key nonce aad p = (body, tag)"
  by (simp add: gcm_laws_def)

lemma gcm_tag_length: "gcm_laws pr \<Longrightarrow> gcm_seal pr key nonce aad p = (body, tag) \<Longrightarrow> length tag = 16"
  unfolding gcm_laws_def by (metis snd_conv)

lemma open_frame_iff_lemma:
  assumes "gcm_laws pr"
  shows "open_frame pr key d sid c sealed = Inr p \<longleftrightarrow> seal_frame pr key d sid c p = Inr sealed"
proof
  assume "open_frame pr key d sid c sealed = Inr p"
  then show "seal_frame pr key d sid c p = Inr sealed"
    by (auto simp: open_frame_def seal_frame_def and_then_Inr gcm_open_iff [OF assms]
        split: if_splits option.splits)
next
  assume "seal_frame pr key d sid c p = Inr sealed"
  then obtain nonce aad body tag where n: "frame_nonce c = Inr nonce" "frame_aad d sid c = Inr aad"
    and s: "gcm_seal pr key nonce aad p = (body, tag)" "sealed = body @ tag"
    unfolding seal_frame_def by (fastforce elim!: and_then_InrE split: prod.splits)
  from s(1) assms have "length tag = 16" by (intro gcm_tag_length)
  moreover from s(1) have "gcm_open pr key nonce aad body tag = Some p" by (simp add: gcm_open_iff [OF assms])
  ultimately show "open_frame pr key d sid c sealed = Inr p"
    using n s(2) by (simp add: open_frame_def tag_bytes_def)
qed

lemma unwrap_wrap_lemma:
  assumes "gcm_laws pr" "length nonce = 12"
  shows "unwrap_secret pr kek (wrap_secret pr nonce kek p ctx) ctx = Inr p"
proof -
  define aad where "aad = utf8 (label @ ''/wrap/'' @ ctx)"
  obtain body tag where s: "gcm_seal pr kek nonce aad p = (body, tag)"
    by (cases "gcm_seal pr kek nonce aad p")
  then have "length tag = 16" using assms(1) by (rule gcm_tag_length [rotated])
  moreover have "gcm_open pr kek nonce aad body tag = Some p"
    using s by (simp add: gcm_open_iff [OF assms(1)])
  ultimately show ?thesis
    using assms(2) unfolding unwrap_secret_def wrap_secret_def aad_def [symmetric] s
    by (simp add: crypto_consts)
qed

lemma decode_encode_request_lemma:
  assumes "encode_request sid c sealed = Inr body" "length sid = 16" "16 \<le> length sealed"
  shows "decode_request body = Some \<lparr>req_sid = sid, req_counter = c, req_sealed = sealed\<rparr>"
  using assms by (auto simp: encode_request_def and_then_Inr decode_request_def counter_bytes_Inr
      request_header_bytes_def crypto_consts be_value_counter)

section \<open>The replay window\<close>

text \<open>
  The contract: a counter is accepted when it is not negative, was never accepted before and lies
  inside the window below the largest one accepted. The history grows without bound; the window
  keeps at most twice its size.
\<close>

definition fresh_counter :: "int \<Rightarrow> int set \<Rightarrow> int \<Rightarrow> bool" where
  "fresh_counter n history c \<longleftrightarrow>
     0 \<le> c \<and> c \<notin> history \<and> (\<forall>h \<in> history. h - n < c)"

definition window_abs :: "replay_window \<Rightarrow> int set \<Rightarrow> bool" where
  "window_abs w history \<longleftrightarrow>
     finite history \<and> (\<forall>h \<in> history. 0 \<le> h) \<and>
     highest w = (if history = {} then -1 else Max history) \<and>
     set (seen w) \<subseteq> history \<and>
     (\<forall>h \<in> history. h \<notin> set (seen w) \<longrightarrow> h \<le> highest w - win_size w) \<and>
     distinct (seen w) \<and> 0 < win_size w \<and> int (length (seen w)) \<le> 2 * win_size w"

lemma window_abs_new: "0 < n \<Longrightarrow> window_abs (new_window n) {}"
  by (simp add: window_abs_def new_window_def)

lemma window_abs_highest:
  assumes "window_abs w history" "h \<in> history"
  shows "h \<le> highest w" "0 \<le> highest w"
  using assms by (auto simp: window_abs_def split: if_splits intro: order_trans)

lemma window_verdict:
  assumes abs: "window_abs w history"
  shows "fst (accept_counter w c) \<longleftrightarrow> fresh_counter (win_size w) history c"
proof (cases "history = {}")
  case True
  with abs have "highest w = -1" "seen w = []" by (auto simp: window_abs_def)
  with True show ?thesis by (simp add: accept_counter_def fresh_counter_def Let_def)
next
  case False
  with abs have high: "highest w \<in> history" by (simp add: window_abs_def)
  note above = window_abs_highest [OF abs]
  have "fresh_counter (win_size w) history c \<longleftrightarrow>
      0 \<le> c \<and> \<not> c \<le> highest w - win_size w \<and> c \<notin> set (seen w)"
  proof
    assume f: "fresh_counter (win_size w) history c"
    with high have "highest w - win_size w < c" by (simp add: fresh_counter_def)
    with f abs show "0 \<le> c \<and> \<not> c \<le> highest w - win_size w \<and> c \<notin> set (seen w)"
      by (auto simp: fresh_counter_def window_abs_def)
  next
    assume c: "0 \<le> c \<and> \<not> c \<le> highest w - win_size w \<and> c \<notin> set (seen w)"
    then have "c \<notin> history" using abs by (auto simp: window_abs_def)
    moreover have "h - win_size w < c" if "h \<in> history" for h using above(1) [OF that] c by linarith
    ultimately show "fresh_counter (win_size w) history c" using c by (simp add: fresh_counter_def)
  qed
  then show ?thesis using above(2) [OF high] by (auto simp: accept_counter_def Let_def)
qed

lemma length_window:
  fixes xs :: "int list"
  assumes "distinct xs" "\<forall>x \<in> set xs. l < x \<and> x \<le> l + n" "0 \<le> n"
  shows "int (length xs) \<le> n"
proof -
  have "card (set xs) \<le> card {l<..l + n}" using assms(2) by (intro card_mono) auto
  with assms(1, 3) show ?thesis by (simp add: distinct_card)
qed

lemma window_step:
  assumes abs: "window_abs w history" and ok: "fst (accept_counter w c)"
  shows "window_abs (snd (accept_counter w c)) (insert c history)"
proof -
  let ?h = "if c > highest w then c else highest w"
  let ?s = "seen w @ [c]"
  let ?s' = "if int (length ?s) > win_size w * 2 then filter (\<lambda>v. \<not> v \<le> ?h - win_size w) ?s else ?s"
  from ok have c: "0 \<le> c" "c \<notin> set (seen w)"
    and w': "snd (accept_counter w c) = w\<lparr>highest := ?h, seen := ?s'\<rparr>"
    by (auto simp: accept_counter_def Let_def split: if_splits)
  from abs have fin: "finite history" and pos: "0 < win_size w" by (simp_all add: window_abs_def)
  have max: "?h = Max (insert c history)"
  proof (cases "history = {}")
    case True
    with abs c(1) show ?thesis by (simp add: window_abs_def)
  next
    case False
    with fin have "Max (insert c history) = max c (Max history)" by simp
    moreover have "highest w = Max history" using abs False by (simp add: window_abs_def)
    ultimately show ?thesis by (simp add: max_def)
  qed
  have upper: "v \<le> ?h" if "v \<in> insert c history" for v
    unfolding max using that fin by (intro Max_ge) auto
  have sub: "set (seen w) \<subseteq> history" using abs by (simp add: window_abs_def)
  have gone: "h \<le> ?h - win_size w" if "h \<in> insert c history" "h \<notin> set ?s'" for h
  proof (cases "h \<in> set ?s")
    case True
    with that(2) show ?thesis by (auto split: if_splits)
  next
    case False
    with that(1) have "h \<in> history" "h \<notin> set (seen w)" by auto
    moreover have "\<forall>h \<in> history. h \<notin> set (seen w) \<longrightarrow> h \<le> highest w - win_size w"
      using abs unfolding window_abs_def by blast
    ultimately have "h \<le> highest w - win_size w" by blast
    then show ?thesis by simp
  qed
  have "distinct ?s'" using abs c(2) by (auto simp: window_abs_def)
  moreover have "int (length ?s') \<le> 2 * win_size w"
  proof (cases "int (length ?s) > win_size w * 2")
    case True
    have "\<forall>x \<in> set ?s'. ?h - win_size w < x \<and> x \<le> ?h - win_size w + win_size w"
      using upper sub True pos by auto
    from length_window [OF \<open>distinct ?s'\<close> this] pos show ?thesis by simp
  qed simp
  moreover have "set ?s' \<subseteq> insert c history" using sub by auto
  moreover have "\<forall>h \<in> insert c history. 0 \<le> h" using abs c(1) by (auto simp: window_abs_def)
  ultimately show ?thesis unfolding w' window_abs_def using fin max gone pos by simp
qed

lemma window_reject: "\<not> fst (accept_counter w c) \<Longrightarrow> snd (accept_counter w c) = w"
  by (auto simp: accept_counter_def Let_def)

lemma accept_counter_size [simp]: "win_size (snd (accept_counter w c)) = win_size w"
  by (simp add: accept_counter_def Let_def)

text \<open>The contract over a whole sequence of counters.\<close>

fun fresh_all :: "int \<Rightarrow> int set \<Rightarrow> int list \<Rightarrow> bool list" where
  "fresh_all n history [] = []"
| "fresh_all n history (c # cs) =
     (let ok = fresh_counter n history c in ok # fresh_all n (if ok then insert c history else history) cs)"

lemma accept_all_fresh:
  "window_abs w history \<Longrightarrow>
    fst (accept_all w cs) = fresh_all (win_size w) history cs \<and>
    int (length (seen (snd (accept_all w cs)))) \<le> 2 * win_size w"
proof (induction cs arbitrary: w history)
  case Nil
  then show ?case by (simp add: window_abs_def)
next
  case (Cons c cs)
  note verdict = window_verdict [OF Cons.prems, of c]
  have next_abs: "window_abs (snd (accept_counter w c))
      (if fresh_counter (win_size w) history c then insert c history else history)"
    using window_step [OF Cons.prems] window_reject [of w c] verdict Cons.prems by auto
  from Cons.IH [OF next_abs] verdict show ?case by (auto simp: Let_def split: prod.splits)
qed

lemma fresh_all_once:
  assumes "c \<in> history"
  shows "\<forall>i < length cs. cs ! i = c \<longrightarrow> \<not> fresh_all n history cs ! i"
  using assms
proof (induction cs arbitrary: history)
  case Nil
  then show ?case by simp
next
  case (Cons d ds)
  then show ?case by (auto simp: Let_def fresh_counter_def nth_Cons split: nat.split)
qed

lemma fresh_all_once2:
  "i < j \<Longrightarrow> j < length cs \<Longrightarrow> cs ! i = cs ! j \<Longrightarrow> fresh_all n history cs ! i \<Longrightarrow> \<not> fresh_all n history cs ! j"
proof (induction cs arbitrary: history i j)
  case Nil
  then show ?case by simp
next
  case (Cons c cs)
  then obtain j' where j: "j = Suc j'" by (cases j) auto
  show ?case
  proof (cases i)
    case 0
    with Cons.prems j show ?thesis
      using fresh_all_once [of c "insert c history" cs n] by (auto simp: Let_def)
  next
    case (Suc i')
    with Cons.prems j show ?thesis
      using Cons.IH [of i' j'] by (auto simp: Let_def)
  qed
qed

end
