(* ===== verification/Health.thy ===== *)
theory Health
  imports Preference Crypto
begin

text \<open>
  \<^verbatim>\<open>src/cluster/health.ts\<close>: when a peer counts as suspect or offline, which node owns a piece of
  work, and how far a peer's clock is away. The hash of a piece of work is SHA-256, a field of
  \<open>primitives\<close>.
\<close>

datatype health = UNKNOWN | ONLINE | SUSPECT | OFFLINE

record health_thresholds =
  suspect_after :: int
  offline_after :: int

definition health_after :: "int \<Rightarrow> health_thresholds \<Rightarrow> health" where
  "health_after failures t =
     (if failures \<le> 0 then ONLINE
      else if failures \<ge> max (offline_after t) (suspect_after t + 1) then OFFLINE
      else if failures \<ge> suspect_after t then SUSPECT
      else ONLINE)"

definition rendezvous_score :: "primitives \<Rightarrow> string \<Rightarrow> string \<Rightarrow> int" where
  "rendezvous_score pr key node_id =
     int (be_value (take 8 (sha256_of pr (utf8 (key @ '' '' @ node_id)))))"

definition owner_step :: "primitives \<Rightarrow> string \<Rightarrow> string \<Rightarrow> string option \<times> int \<Rightarrow> string option \<times> int" where
  "owner_step pr key nid acc =
     (case acc of (best, best_score) \<Rightarrow>
       let score = rendezvous_score pr key nid
       in if score > best_score \<or> (score = best_score \<and> (case best of None \<Rightarrow> False | Some b \<Rightarrow> str_less nid b))
          then (Some nid, score) else (best, best_score))"

definition rendezvous_owner :: "primitives \<Rightarrow> string \<Rightarrow> string list \<Rightarrow> string option" where
  "rendezvous_owner pr key node_ids = fst (fold (owner_step pr key) node_ids (None, -1))"

text \<open>\<open>Math.round\<close>: the nearest integer, halves towards plus infinity.\<close>

definition js_round :: "rat \<Rightarrow> int" where
  "js_round x = \<lfloor>x + 1 / 2\<rfloor>"

definition estimate_skew_ms :: "millis \<Rightarrow> millis \<Rightarrow> millis \<Rightarrow> millis" where
  "estimate_skew_ms sent_at received_at peer_time =
     js_round (of_int peer_time - (of_int sent_at + of_int (received_at - sent_at) / 2))"

section \<open>Failure detection\<close>

fun severity :: "health \<Rightarrow> nat" where
  "severity UNKNOWN = 0"
| "severity ONLINE = 0"
| "severity SUSPECT = 1"
| "severity OFFLINE = 2"

lemma health_after_mono: "m \<le> n \<Longrightarrow> severity (health_after m t) \<le> severity (health_after n t)"
  by (auto simp: health_after_def)

text \<open>No peer is declared offline without having been suspect after an earlier failure.\<close>

lemma offline_after_suspect:
  "health_after n t = OFFLINE \<Longrightarrow> 0 < suspect_after t \<Longrightarrow>
    \<exists>m. 0 < m \<and> m < n \<and> health_after m t = SUSPECT"
  by (rule exI [of _ "suspect_after t"]) (auto simp: health_after_def split: if_splits)

section \<open>Ownership\<close>

lemma rendezvous_score_nonneg [simp]: "0 \<le> rendezvous_score pr key nid"
  by (simp add: rendezvous_score_def)

text \<open>The better of two candidates: the higher score, the smaller id where the scores are equal.\<close>

definition better :: "primitives \<Rightarrow> string \<Rightarrow> string \<Rightarrow> string \<Rightarrow> bool" where
  "better pr key a b \<longleftrightarrow>
     rendezvous_score pr key a > rendezvous_score pr key b \<or>
     (rendezvous_score pr key a = rendezvous_score pr key b \<and> str_less a b)"

lemma better_total: "a \<noteq> b \<Longrightarrow> better pr key a b \<or> better pr key b a"
  using str_less_total [of a b] by (auto simp: better_def)

lemma better_asym: "better pr key a b \<Longrightarrow> \<not> better pr key b a"
  using str_less_asym [of a b] by (auto simp: better_def)

lemma better_trans: "better pr key a b \<Longrightarrow> better pr key b c \<Longrightarrow> better pr key a c"
  using str_less_trans [of a b c] by (auto simp: better_def)

interpretation rank: preference "better pr key" for pr key
proof unfold_locales
  fix a b c
  show "\<not> better pr key a a" by (simp add: better_def)
  show "better pr key a b \<Longrightarrow> better pr key b c \<Longrightarrow> better pr key a c" by (rule better_trans)
  show "a \<noteq> b \<Longrightarrow> better pr key a b \<or> better pr key b a" by (rule better_total)
qed

lemma owner_step_merge:
  assumes "s = (case b of None \<Rightarrow> -1 | Some x \<Rightarrow> rendezvous_score pr key x)"
  shows "fst (owner_step pr key nid (b, s)) = rank.merge pr key nid b"
    and "snd (owner_step pr key nid (b, s)) =
      (case rank.merge pr key nid b of None \<Rightarrow> -1 | Some x \<Rightarrow> rendezvous_score pr key x)"
  using assms rendezvous_score_nonneg [of pr key nid]
  by (auto simp: owner_step_def rank.merge_def better_def Let_def simp del: rendezvous_score_nonneg split: option.splits)

lemma owner_fold:
  "s = (case b of None \<Rightarrow> -1 | Some x \<Rightarrow> rendezvous_score pr key x) \<Longrightarrow>
    fst (fold (owner_step pr key) ids (b, s)) = fold (rank.merge pr key) ids b"
proof (induction ids arbitrary: b s)
  case (Cons nid ids)
  have "owner_step pr key nid (b, s) = (rank.merge pr key nid b, snd (owner_step pr key nid (b, s)))"
    by (simp add: prod_eq_iff owner_step_merge(1) [OF Cons.prems])
  with Cons.IH [OF owner_step_merge(2) [OF Cons.prems, of nid]]
  show ?case by (metis fold_simps(2))
qed simp

lemma rendezvous_owner_fold: "rendezvous_owner pr key ids = fold (rank.merge pr key) ids None"
  unfolding rendezvous_owner_def by (rule owner_fold) simp

lemma owner_same_view: "set xs = set ys \<Longrightarrow> rendezvous_owner pr key xs = rendezvous_owner pr key ys"
  unfolding rendezvous_owner_fold by (rule rank.fold_merge_set)

lemma owner_member: "rendezvous_owner pr key xs = Some z \<Longrightarrow> z \<in> set xs"
  unfolding rendezvous_owner_fold using rank.fold_merge_member [of pr key xs None z] by simp

lemma owner_exists: "xs \<noteq> [] \<Longrightarrow> \<exists>z. rendezvous_owner pr key xs = Some z"
  unfolding rendezvous_owner_fold using rank.fold_merge_Some [of None xs pr key] by simp

lemma owner_remove:
  "rendezvous_owner pr key xs \<noteq> Some x \<Longrightarrow>
    rendezvous_owner pr key (filter (\<lambda>y. y \<noteq> x) xs) = rendezvous_owner pr key xs"
  unfolding rendezvous_owner_fold by (rule rank.fold_merge_remove)

section \<open>Clock skew\<close>

lemma js_round_near: "\<bar>of_int (js_round x) - x\<bar> \<le> 1 / 2"
  unfolding js_round_def using floor_correct [of "x + 1 / 2"] by linarith

lemma estimate_skew_error:
  assumes "sent_at \<le> asked_at" "asked_at \<le> received_at"
  shows "\<bar>estimate_skew_ms sent_at received_at (asked_at + skew) - skew\<bar> \<le> (received_at - sent_at + 1) div 2"
proof -
  define x :: rat where "x = of_int (asked_at + skew) - (of_int sent_at + of_int (received_at - sent_at) / 2)"
  have "\<bar>x - of_int skew\<bar> \<le> of_int (received_at - sent_at) / 2"
    using assms unfolding x_def by (simp add: abs_le_iff field_simps)
  then have "\<bar>of_int (js_round x) - (of_int skew :: rat)\<bar> \<le> of_int (received_at - sent_at + 1) / 2"
    using js_round_near [of x] abs_triangle_ineq [of "of_int (js_round x) - x" "x - of_int skew"]
    by (simp add: field_simps)
  then have "of_int (2 * \<bar>js_round x - skew\<bar>) \<le> (of_int (received_at - sent_at + 1) :: rat)"
    by (simp add: field_simps)
  then have "2 * \<bar>js_round x - skew\<bar> \<le> received_at - sent_at + 1" by (simp only: of_int_le_iff)
  then have "2 * \<bar>js_round x - skew\<bar> div 2 \<le> (received_at - sent_at + 1) div 2"
    by (rule zdiv_mono1) simp
  then show ?thesis by (simp add: estimate_skew_ms_def x_def)
qed

end
