(* ===== verification/Rollout.thy ===== *)
theory Rollout
  imports Crypto
begin

text \<open>
  \<^verbatim>\<open>src/cluster/rollout.ts\<close>: in which order the nodes update, what each does now, and what the
  answer of the checks of a commit means. SHA-256 is a field of \<open>primitives\<close>.
\<close>

section \<open>Branches\<close>

definition branch_char :: "char \<Rightarrow> bool" where
  "branch_char c \<longleftrightarrow> is_letter c \<or> is_digit c \<or> c \<in> {CHR ''.'', CHR ''_'', CHR ''/'', CHR ''-''}"

definition contains :: "string \<Rightarrow> string \<Rightarrow> bool" where
  "contains p s \<longleftrightarrow> (\<exists>i \<in> {0..length s}. starts_with p (drop i s))"

definition ends_with :: "string \<Rightarrow> string \<Rightarrow> bool" where
  "ends_with p s \<longleftrightarrow> starts_with (rev p) (rev s)"

definition valid_branch :: "string \<Rightarrow> bool" where
  "valid_branch v \<longleftrightarrow>
     \<not> starts_with ''/'' v \<and> \<not> contains ''//'' v \<and> \<not> contains ''..'' v \<and> \<not> ends_with ''/'' v \<and>
     list_all branch_char v \<and> 1 \<le> length v \<and> length v \<le> 200 \<and> \<not> ends_with ''.lock'' v"

section \<open>Checks of a commit\<close>

datatype ci_state = Success | Pending | Failure | NoChecks

record check_run =
  run_name :: "string option"
  run_status :: "string option"
  run_conclusion :: "string option"

text \<open>
  The JSON answer, as far as it is looked at: \<open>total_count\<close> when it is a number, \<open>check_runs\<close> when it
  is an array, and of each entry the fields that are strings.
\<close>

record check_answer =
  total_count :: "int option"
  check_runs :: "check_run list option"

definition malformed_checks :: string where
  "malformed_checks = ''GitHub's answer about the checks is malformed''"

definition run_label :: "check_run \<Rightarrow> string" where
  "run_label r = (case run_name r of None \<Rightarrow> ''check'' | Some n \<Rightarrow> take 100 n)"

definition run_completed :: "check_run \<Rightarrow> bool" where
  "run_completed r \<longleftrightarrow> run_status r = Some ''completed''"

definition run_passed :: "check_run \<Rightarrow> bool" where
  "run_passed r \<longleftrightarrow> run_conclusion r \<in> Some ` {''success'', ''neutral'', ''skipped''}"

definition ci_from_check_runs :: "check_answer option \<Rightarrow> string + ci_state \<times> string" where
  "ci_from_check_runs body =
     (case body of
        None \<Rightarrow> Inl malformed_checks
      | Some v \<Rightarrow>
         (case (total_count v, check_runs v) of
            (Some counted, Some all_runs) \<Rightarrow>
              (let runs = take 100 all_runs;
                   failed = filter (\<lambda>r. run_completed r \<and> \<not> run_passed r) runs;
                   open = filter (\<lambda>r. \<not> run_completed r) runs
               in if counted = 0 \<or> runs = [] then Inr (NoChecks, ''no checks ran for this commit'')
                  else if failed \<noteq> []
                  then Inr (Failure, join_with '', '' (take 3 (map run_label failed)) @ '': '' @
                              (case run_conclusion (hd failed) of None \<Rightarrow> ''failed'' | Some c \<Rightarrow> c))
                  else if open \<noteq> [] \<or> counted > int (length runs)
                  then Inr (Pending, (if open \<noteq> [] then dec_string (length open) else ''some'') @
                              '' check(s) still running'')
                  else Inr (Success, dec_string (length runs) @ '' check(s) passed''))
          | _ \<Rightarrow> Inl malformed_checks))"

section \<open>The order and the decision\<close>

record rollout_node =
  node_id :: string
  node_name :: string
  node_commit :: string
  self_updating :: bool
  node_online :: bool
  offline_for :: millis
  node_failed :: "string option"
  node_updating :: bool

datatype node_state = Done | Updating | Failed | Manual | Skipped | Waiting | Next

datatype action = NoAction | Update | Wait | Blocked | ManualAction | FailedAction

record decision =
  act :: action
  reason :: string
  listing :: "(string \<times> string \<times> node_state) list"

definition rollout_rank :: "primitives \<Rightarrow> string \<Rightarrow> string \<Rightarrow> string" where
  "rollout_rank pr target nid = hex_encode (sha256_of pr (utf8 (target @ '':'' @ nid)))"

definition rollout_order :: "primitives \<Rightarrow> string \<Rightarrow> string list \<Rightarrow> string list" where
  "rollout_order pr target ids = sort_key (\<lambda>nid. (rollout_rank pr target nid, nid)) ids"

datatype blocking = BlockFailed rollout_node | BlockWait rollout_node

fun blocking_node :: "blocking \<Rightarrow> rollout_node" where
  "blocking_node (BlockFailed n) = n"
| "blocking_node (BlockWait n) = n"

definition node_state_of :: "string \<Rightarrow> millis \<Rightarrow> blocking option \<Rightarrow> rollout_node \<Rightarrow> node_state" where
  "node_state_of target skip_offline blk n =
     (if node_commit n = target then Done
      else if \<not> self_updating n then Manual
      else if node_failed n = Some target then Failed
      else if node_updating n then Updating
      else if \<not> node_online n \<and> offline_for n \<ge> skip_offline then Skipped
      else if blk \<noteq> None then Waiting else Next)"

definition next_blocking :: "blocking option \<Rightarrow> rollout_node \<Rightarrow> node_state \<Rightarrow> blocking option" where
  "next_blocking blk n st =
     (if blk = None \<and> st = Failed then Some (BlockFailed n)
      else if blk = None \<and> (st = Updating \<or> st = Next) then Some (BlockWait n)
      else blk)"

text \<open>One pass over the nodes in order: each one's state, and what blocks the ones after it.\<close>

fun scan_nodes :: "string \<Rightarrow> millis \<Rightarrow> blocking option \<Rightarrow> rollout_node list \<Rightarrow>
    (rollout_node \<times> node_state) list \<times> blocking option" where
  "scan_nodes target skip_offline blk [] = ([], blk)"
| "scan_nodes target skip_offline blk (n # ns) =
     (let st = node_state_of target skip_offline blk n;
          (rest, blk') = scan_nodes target skip_offline (next_blocking blk n st) ns
      in ((n, st) # rest, blk'))"

definition node_label :: "rollout_node \<Rightarrow> string" where
  "node_label n = (if node_name n \<noteq> [] then node_name n else take 8 (node_id n))"

definition nodes_by_id :: "rollout_node list \<Rightarrow> (string \<times> rollout_node) list" where
  "nodes_by_id nodes = al_put_all (map (\<lambda>n. (node_id n, n)) nodes) []"

definition ordered_nodes :: "primitives \<Rightarrow> string \<Rightarrow> rollout_node list \<Rightarrow> rollout_node list" where
  "ordered_nodes pr target nodes =
     map (\<lambda>nid. the (map_of (nodes_by_id nodes) nid)) (rollout_order pr target (map fst (nodes_by_id nodes)))"

definition decide_rollout ::
    "primitives \<Rightarrow> string \<Rightarrow> string \<Rightarrow> rollout_node list \<Rightarrow> millis \<Rightarrow> decision" where
  "decide_rollout pr target self_id nodes skip_offline =
     (let (scanned, blk) = scan_nodes target skip_offline None (ordered_nodes pr target nodes);
          order = map (\<lambda>(n, st). (node_id n, node_name n, st)) scanned
      in case find (\<lambda>(n, st). node_id n = self_id) scanned of
           None \<Rightarrow> \<lparr>act = NoAction, reason = ''this node is not part of the rollout'', listing = order\<rparr>
         | Some (self, own) \<Rightarrow>
             if own = Done then \<lparr>act = NoAction, reason = ''this node runs the newest version'', listing = order\<rparr>
             else if own = Manual then \<lparr>act = ManualAction, reason =
               ''this node is not updated by Pokyh '' @ em_dash @ '' deploy the new version where it runs'', listing = order\<rparr>
             else if own = Failed then \<lparr>act = FailedAction, reason =
               ''the update failed on this node; the rollout waits for an administrator'', listing = order\<rparr>
             else if own = Updating then \<lparr>act = NoAction, reason = ''this node is updating'', listing = order\<rparr>
             else case blk of
               None \<Rightarrow> \<lparr>act = Update, reason = ''this node is next'', listing = order\<rparr>
             | Some b \<Rightarrow>
                 if node_id (blocking_node b) = self_id
                 then \<lparr>act = Update, reason = ''this node is next'', listing = order\<rparr>
                 else (case b of
                     BlockFailed n \<Rightarrow> \<lparr>act = Blocked, reason =
                       ''the update failed on '' @ node_label n @ ''; the rollout stopped there'', listing = order\<rparr>
                   | BlockWait n \<Rightarrow> \<lparr>act = Wait, reason = ''waiting for '' @ node_label n, listing = order\<rparr>))"

section \<open>One canonical order\<close>

lemma rollout_order_set [simp]: "set (rollout_order pr target ids) = set ids"
  by (simp add: rollout_order_def)

lemma rollout_order_canonical:
  assumes "set xs = set ys" "distinct xs" "distinct ys"
  shows "rollout_order pr target xs = rollout_order pr target ys"
proof -
  let ?k = "\<lambda>nid. (rollout_rank pr target nid, nid)"
  have "mset ys = mset (sort_key ?k xs)" using assms by (simp add: set_eq_iff_mset_eq_distinct)
  moreover have "inj_on ?k (set ys)" by (rule inj_onI) simp
  moreover have "sorted (map ?k (sort_key ?k xs))" by (rule sorted_sort_key)
  ultimately have "sort_key ?k ys = sort_key ?k xs" by (rule sort_key_inj_key_eq)
  then show ?thesis by (simp add: rollout_order_def)
qed

lemma nodes_by_id_keys: "set (map fst (nodes_by_id nodes)) = node_id ` set nodes"
  unfolding nodes_by_id_def keys_al_put_all by force

lemma nodes_by_id_distinct_keys: "distinct (map fst (nodes_by_id nodes))"
  by (simp add: nodes_by_id_def distinct_al_put_all)

lemma nodes_by_id_distinct:
  assumes "distinct (map node_id nodes)"
  shows "nodes_by_id nodes = map (\<lambda>n. (node_id n, n)) nodes"
  using al_put_all_distinct [of "[]" "map (\<lambda>n. (node_id n, n)) nodes"] assms
  by (simp add: nodes_by_id_def comp_def)

lemma nodes_by_id_lookup:
  assumes "distinct (map node_id nodes)" "n \<in> set nodes"
  shows "map_of (nodes_by_id nodes) (node_id n) = Some n"
  using assms by (intro map_of_is_SomeI) (auto simp: nodes_by_id_distinct comp_def)

lemma ordered_nodes_canonical:
  assumes "set xs = set ys" "distinct (map node_id xs)" "distinct (map node_id ys)"
  shows "ordered_nodes pr target xs = ordered_nodes pr target ys"
proof -
  have "rollout_order pr target (map fst (nodes_by_id xs)) = rollout_order pr target (map fst (nodes_by_id ys))"
    using assms(1) nodes_by_id_keys [of xs] nodes_by_id_keys [of ys]
    by (intro rollout_order_canonical nodes_by_id_distinct_keys) simp
  moreover have "map_of (nodes_by_id xs) nid = map_of (nodes_by_id ys) nid"
    if "nid \<in> node_id ` set ys" for nid
    using that assms nodes_by_id_lookup by force
  ultimately show ?thesis
    using nodes_by_id_keys [of ys] by (simp add: ordered_nodes_def)
qed

lemma ordered_nodes_set:
  assumes "distinct (map node_id nodes)"
  shows "set (ordered_nodes pr target nodes) = set nodes"
proof -
  have "set (ordered_nodes pr target nodes) = (\<lambda>nid. the (map_of (nodes_by_id nodes) nid)) ` node_id ` set nodes"
    using nodes_by_id_keys [of nodes] by (simp add: ordered_nodes_def)
  also have "\<dots> = set nodes"
    using nodes_by_id_lookup [OF assms] by (simp add: image_image)
  finally show ?thesis .
qed

lemma ordered_nodes_distinct:
  assumes "distinct (map node_id nodes)"
  shows "distinct (map node_id (ordered_nodes pr target nodes))"
proof -
  have "map node_id (ordered_nodes pr target nodes) = rollout_order pr target (map fst (nodes_by_id nodes))"
    unfolding ordered_nodes_def map_map comp_def
    by (rule map_idI) (use nodes_by_id_lookup [OF assms] nodes_by_id_keys [of nodes] in auto)
  then show ?thesis using nodes_by_id_distinct_keys [of nodes] by (simp add: rollout_order_def)
qed

section \<open>At most one node updates\<close>

definition passed :: "node_state \<Rightarrow> bool" where
  "passed st \<longleftrightarrow> st \<in> {Done, Manual, Skipped}"

definition stops :: "node_state \<Rightarrow> bool" where
  "stops st \<longleftrightarrow> st \<in> {Failed, Updating, Next}"

lemma scan_blocked: "snd (scan_nodes target skip (Some b) ns) = Some b"
  by (induction ns) (auto simp: next_blocking_def Let_def split: prod.splits)

lemma scan_blocked_state:
  "(n, st) \<in> set (fst (scan_nodes target skip (Some b) ns)) \<Longrightarrow> st \<noteq> Next"
  by (induction ns) (auto simp: next_blocking_def node_state_of_def Let_def split: prod.splits if_splits)

lemma scan_nodes_fst: "map fst (fst (scan_nodes target skip blk ns)) = ns"
  by (induction ns arbitrary: blk) (auto simp: Let_def split: prod.splits, metis fst_conv)

lemma scan_keys:
  assumes "scan_nodes target skip blk ns = (scanned, blk')"
  shows "map (\<lambda>(n, st). node_id n) scanned = map node_id ns"
proof -
  have "map node_id (map fst scanned) = map node_id ns"
    using scan_nodes_fst [of target skip blk ns] assms by simp
  then show ?thesis by (simp add: case_prod_unfold comp_def)
qed

lemma scan_member:
  assumes "scan_nodes target skip blk ns = (scanned, blk')" "(n, st) \<in> set scanned"
  shows "n \<in> set ns"
  using scan_nodes_fst [of target skip blk ns] assms by (metis fst_conv image_eqI list.set_map)

text \<open>The scan passes over nodes that need nothing and stops at the first that does.\<close>

lemma scan_split:
  assumes "scan_nodes target skip None ns = (scanned, blk)"
  shows "(blk = None \<and> (\<forall>(n, st) \<in> set scanned. passed st)) \<or>
    (\<exists>pre n st post. scanned = pre @ (n, st) # post \<and> (\<forall>(m, s) \<in> set pre. passed s) \<and> stops st \<and>
       (\<forall>(m, s) \<in> set post. s \<noteq> Next) \<and>
       blk = Some (if st = Failed then BlockFailed n else BlockWait n))"
  using assms
proof (induction ns arbitrary: scanned)
  case Nil
  then show ?case by simp
next
  case (Cons n ns)
  define st where "st = node_state_of target skip None n"
  obtain rest blk' where rest: "scan_nodes target skip (next_blocking None n st) ns = (rest, blk')"
    by (cases "scan_nodes target skip (next_blocking None n st) ns")
  with Cons.prems have sc: "scanned = (n, st) # rest" "blk' = blk" by (simp_all add: st_def)
  have cases: "passed st \<or> stops st" unfolding st_def node_state_of_def passed_def stops_def by simp
  show ?case
  proof (cases "stops st")
    case True
    define b where "b = (if st = Failed then BlockFailed n else BlockWait n)"
    from True have b: "next_blocking None n st = Some b" by (auto simp: next_blocking_def stops_def b_def)
    then have "blk = Some b" "\<forall>(m, s) \<in> set rest. s \<noteq> Next"
      using rest sc(2) scan_blocked [of target skip b ns] scan_blocked_state [of _ _ target skip b ns] by auto
    with True sc(1) show ?thesis unfolding b_def by (intro disjI2 exI [of _ "[]"]) simp
  next
    case False
    with cases have "passed st" "next_blocking None n st = None"
      by (auto simp: next_blocking_def passed_def)
    with rest sc(2) Cons.IH [of rest] have
      "(blk = None \<and> (\<forall>(n, st) \<in> set rest. passed st)) \<or>
       (\<exists>pre n st post. rest = pre @ (n, st) # post \<and> (\<forall>(m, s) \<in> set pre. passed s) \<and> stops st \<and>
         (\<forall>(m, s) \<in> set post. s \<noteq> Next) \<and>
         blk = Some (if st = Failed then BlockFailed n else BlockWait n))" by simp
    then show ?thesis
    proof (elim disjE exE conjE)
      assume "blk = None" "\<forall>(n, st) \<in> set rest. passed st"
      with \<open>passed st\<close> sc(1) show ?thesis by simp
    next
      fix pre m s post
      assume "rest = pre @ (m, s) # post" "\<forall>(m, s) \<in> set pre. passed s" "stops s"
        "\<forall>(m, s) \<in> set post. s \<noteq> Next" "blk = Some (if s = Failed then BlockFailed m else BlockWait m)"
      with \<open>passed st\<close> sc(1) show ?thesis by (intro disjI2 exI [of _ "(n, st) # pre"]) auto
    qed
  qed
qed

lemma scan_state_aux:
  "(n, st) \<in> set (fst (scan_nodes target skip blk ns)) \<Longrightarrow> \<exists>blk'. st = node_state_of target skip blk' n"
  by (induction ns arbitrary: blk) (auto simp: Let_def split: prod.splits, metis fst_conv)

lemma scan_state:
  assumes "scan_nodes target skip blk ns = (scanned, blk')" "(n, st) \<in> set scanned"
  obtains blk'' where "st = node_state_of target skip blk'' n"
  using assms scan_state_aux [of n st target skip blk ns] by auto

lemma skipped_offline: "node_state_of target skip blk n = Skipped \<Longrightarrow> \<not> node_online n"
  by (auto simp: node_state_of_def split: if_splits)

lemma find_unique:
  assumes "distinct (map f xs)" "x \<in> set xs" "f x = k"
  shows "find (\<lambda>y. f y = k) xs = Some x"
  using assms by (induction xs) auto

lemma scan_find:
  assumes "scan_nodes target skip blk ns = (scanned, blk')" "distinct (map node_id ns)" "(n, st) \<in> set scanned"
  shows "find (\<lambda>(m, s). node_id m = node_id n) scanned = Some (n, st)"
  using find_unique [of "\<lambda>(m, s). node_id m" scanned "(n, st)" "node_id n"] assms scan_keys [OF assms(1)]
  by (simp add: case_prod_unfold)

text \<open>
  A node that updates now either is the one the pass stops at, every node before it needing nothing,
  or counts as skipped itself while no node at all needs anything.
\<close>

lemma decide_update:
  assumes distinct: "distinct (map node_id (ordered_nodes pr target nodes))"
    and scan: "scan_nodes target skip None (ordered_nodes pr target nodes) = (scanned, blk)"
    and upd: "act (decide_rollout pr target s nodes skip) = Update"
  shows "(\<exists>pre n post. scanned = pre @ (n, Next) # post \<and> node_id n = s \<and>
            (\<forall>(m, st) \<in> set pre. passed st) \<and> (\<forall>(m, st) \<in> set post. st \<noteq> Next)) \<or>
         (\<exists>n. (n, Skipped) \<in> set scanned \<and> node_id n = s \<and> \<not> node_online n)"
proof -
  let ?is = "\<lambda>(n, st). node_id n = s"
  from upd scan obtain n st where found: "find ?is scanned = Some (n, st)"
    and st: "st \<notin> {Done, Manual, Failed, Updating}"
    and blk: "\<forall>b. blk = Some b \<longrightarrow> node_id (blocking_node b) = s"
    by (auto simp: decide_rollout_def Let_def split: option.splits if_splits blocking.splits prod.splits)
  from find_SomeD [OF found] have mem: "(n, st) \<in> set scanned" and ids: "node_id n = s" by auto
  from scan_split [OF scan] show ?thesis
  proof (elim disjE exE conjE)
    assume "\<forall>(n, st) \<in> set scanned. passed st"
    with mem st have "st = Skipped" by (auto simp: passed_def)
    moreover have "\<not> node_online n"
      using scan_state [OF scan mem] \<open>st = Skipped\<close> skipped_offline by metis
    ultimately show ?thesis using mem ids by blast
  next
    fix pre m s' post
    assume split: "scanned = pre @ (m, s') # post" "\<forall>(m, s) \<in> set pre. passed s" "stops s'"
      "\<forall>(m, s) \<in> set post. s \<noteq> Next" "blk = Some (if s' = Failed then BlockFailed m else BlockWait m)"
    from blk split(5) have "node_id m = s" by (simp split: if_splits)
    with split(1) have "find ?is scanned = Some (m, s')"
      using scan_find [OF scan distinct, of m s'] by simp
    with found st split(3) have "s' = Next" by (auto simp: stops_def)
    with split \<open>node_id m = s\<close> show ?thesis by blast
  qed
qed

lemma one_updater_lemma:
  assumes distinct: "distinct (map node_id xs)" "distinct (map node_id ys)" and same: "set xs = set ys"
    and upd: "act (decide_rollout pr target a xs skip) = Update" "act (decide_rollout pr target b ys skip) = Update"
    and online: "\<forall>n \<in> set xs. node_id n \<in> {a, b} \<longrightarrow> node_online n"
  shows "a = b"
proof -
  have order: "ordered_nodes pr target xs = ordered_nodes pr target ys"
    using same distinct by (rule ordered_nodes_canonical)
  obtain scanned blk where scan: "scan_nodes target skip None (ordered_nodes pr target xs) = (scanned, blk)"
    by (cases "scan_nodes target skip None (ordered_nodes pr target xs)")
  then have nodes: "\<forall>(n, st) \<in> set scanned. n \<in> set xs"
    using scan_member [OF scan] ordered_nodes_set [OF distinct(1), of pr target] by auto
  have "decide_rollout pr target b ys skip = decide_rollout pr target b xs skip"
    by (simp add: decide_rollout_def order)
  with upd have updates: "act (decide_rollout pr target s xs skip) = Update" if "s \<in> {a, b}" for s
    using that by auto
  have shape: "\<exists>pre n post. scanned = pre @ (n, Next) # post \<and> node_id n = s \<and>
      (\<forall>(m, st) \<in> set pre. passed st) \<and> (\<forall>(m, st) \<in> set post. st \<noteq> Next)"
    if s: "s \<in> {a, b}" for s
    using decide_update [OF ordered_nodes_distinct [OF distinct(1)] scan updates [OF s]]
  proof
    assume "\<exists>n. (n, Skipped) \<in> set scanned \<and> node_id n = s \<and> \<not> node_online n"
    with nodes online s show ?thesis by blast
  qed
  from shape [of a] obtain pre n post where A: "scanned = pre @ (n, Next) # post" "node_id n = a"
    "\<forall>(m, st) \<in> set pre. passed st" "\<forall>(m, st) \<in> set post. st \<noteq> Next" by auto
  have "\<exists>m. (m, Next) \<in> set scanned \<and> node_id m = b" using shape [of b] by force
  then obtain m where B: "(m, Next) \<in> set scanned" "node_id m = b" by blast
  with A have "(m, Next) = (n, Next)" by (auto simp: passed_def)
  with A(2) B(2) show ?thesis by simp
qed

text \<open>Where a node is ready and none before it in the way, somebody updates.\<close>

lemma somebody_updates:
  assumes distinct: "distinct (map node_id nodes)"
    and quiet: "\<forall>n \<in> set nodes. node_commit n \<noteq> target \<and> self_updating n \<longrightarrow>
      node_failed n \<noteq> Some target \<and> \<not> node_updating n"
    and ready: "r \<in> set nodes" "node_commit r \<noteq> target" "self_updating r" "node_online r"
  shows "\<exists>n \<in> set nodes. act (decide_rollout pr target (node_id n) nodes skip) = Update"
proof -
  let ?ns = "ordered_nodes pr target nodes"
  obtain scanned blk where scan: "scan_nodes target skip None ?ns = (scanned, blk)"
    by (cases "scan_nodes target skip None ?ns")
  then have fsts: "map fst scanned = ?ns" using scan_nodes_fst [of target skip None ?ns] by simp
  note set_ns = ordered_nodes_set [OF distinct, of pr target]
  from ready(1) set_ns fsts obtain st where r: "(r, st) \<in> set scanned"
    by (metis fst_conv imageE list.set_map prod.collapse)
  obtain blk' where "st = node_state_of target skip blk' r" using scan_state [OF scan r] .
  with ready have "\<not> passed st" by (auto simp: node_state_of_def passed_def split: if_splits)
  with scan_split [OF scan] r obtain pre n s post where split: "scanned = pre @ (n, s) # post" "stops s"
    "blk = Some (if s = Failed then BlockFailed n else BlockWait n)" by blast
  have mem: "(n, s) \<in> set scanned" using split(1) by simp
  then have n: "n \<in> set nodes" using scan_member [OF scan] set_ns by blast
  obtain blk'' where "s = node_state_of target skip blk'' n" using scan_state [OF scan mem] .
  with quiet n split(2) have "s = Next" by (auto simp: node_state_of_def stops_def split: if_splits)
  have "find (\<lambda>(m, st). node_id m = node_id n) scanned = Some (n, s)"
    by (rule scan_find [OF scan ordered_nodes_distinct [OF distinct] mem])
  with scan split(3) \<open>s = Next\<close> have "act (decide_rollout pr target (node_id n) nodes skip) = Update"
    by (simp add: decide_rollout_def)
  with n show ?thesis by blast
qed

end
