(* ===== verification/Catalog.thy ===== *)
theory Catalog
  imports Codec Crypto
begin

text \<open>
  \<^verbatim>\<open>src/cluster/catalog.ts\<close>: what a node knows of a replicated table, and which tables are replicated
  at all. \<^verbatim>\<open>src/cluster/sqlgen.ts\<close>: safe identifiers, the statements that move a row, and the hash
  of its key.
\<close>

section \<open>Tables\<close>

record sql_column =
  col_name :: string
  data_type :: string

record unique_index =
  ui_name :: string
  ui_columns :: "string list"

record table_info =
  tname :: string
  columns :: "sql_column list"
  pk :: "string list"
  codec :: "codec_column list"
  uniques :: "unique_index list"
  table_rank :: int
  created_at_column :: "string option"
  fk_columns :: "string list"
  max_length :: "(string \<times> int) list"

record catalog =
  tables :: "table_info list" \<comment> \<open>a \<^verbatim>\<open>Map\<close> under each table's name\<close>
  ordered :: "table_info list"
  fingerprint :: string

definition find_table :: "catalog \<Rightarrow> string \<Rightarrow> table_info option" where
  "find_table cat t = find (\<lambda>ti. tname ti = t) (tables cat)"

lemma find_table_name: "find_table cat t = Some ti \<Longrightarrow> tname ti = t"
  by (simp add: find_table_def find_Some_iff) blast

definition identifier_char :: "char \<Rightarrow> bool" where
  "identifier_char c \<longleftrightarrow> is_letter c \<or> is_digit c \<or> c = CHR ''_''"

definition is_safe_identifier :: "string \<Rightarrow> bool" where
  "is_safe_identifier name \<longleftrightarrow> name \<noteq> [] \<and> list_all identifier_char name \<and> length name \<le> 64"

definition node_local_tables :: "string list" where
  "node_local_tables = [''request_logs'', ''frontend_activity_logs'', ''client_error_logs'',
     ''request_account_days'', ''backup_config'', ''_prisma_migrations'']"

definition is_replicated :: "string list \<Rightarrow> string \<Rightarrow> bool" where
  "is_replicated exclude_tables table =
     (let name = to_lower table
      in if \<not> is_safe_identifier table then False
         else if starts_with ''cluster_'' name then False
         else if starts_with ''learn_'' name then False
         else if name \<in> set node_local_tables then False
         else if name \<in> set exclude_tables then False
         else True)"

section \<open>Statements\<close>

definition quote_id :: "string \<Rightarrow> string + string" where
  "quote_id identifier =
     (if \<not> is_safe_identifier identifier then Inl (''unsafe SQL identifier: '' @ identifier)
      else Inr (''`'' @ identifier @ ''`''))"

definition quote_all :: "string list \<Rightarrow> string + string list" where
  "quote_all names = sequence_results (map quote_id names)"

definition column_list :: "table_info \<Rightarrow> string + string" where
  "column_list t = and_then (quote_all (map col_name (columns t))) (\<lambda>qs. Inr (join_with '', '' qs))"

definition equals_list :: "string \<Rightarrow> string list \<Rightarrow> string + string" where
  "equals_list sep names = and_then (quote_all names) (\<lambda>qs. Inr (join_with sep (map (\<lambda>x. x @ '' = ?'') qs)))"

definition pk_where :: "table_info \<Rightarrow> string + string" where
  "pk_where t = equals_list '' AND '' (pk t)"

definition select_by_pk_sql :: "table_info \<Rightarrow> bool \<Rightarrow> string + string" where
  "select_by_pk_sql t for_update =
     and_then (column_list t) (\<lambda>cols. and_then (quote_id (tname t)) (\<lambda>name. and_then (pk_where t) (\<lambda>w.
       Inr (''SELECT '' @ cols @ '' FROM '' @ name @ '' WHERE '' @ w @ (if for_update then '' FOR UPDATE'' else [])))))"

definition select_many_by_pk_sql :: "table_info \<Rightarrow> nat \<Rightarrow> string + string" where
  "select_many_by_pk_sql t n =
     and_then (pk_where t) (\<lambda>w. and_then (column_list t) (\<lambda>cols. and_then (quote_id (tname t)) (\<lambda>name.
       Inr (''SELECT '' @ cols @ '' FROM '' @ name @ '' WHERE '' @
            join_with '' OR '' (replicate n (''('' @ w @ '')''))))))"

definition insert_sql :: "table_info \<Rightarrow> string + string" where
  "insert_sql t =
     and_then (quote_id (tname t)) (\<lambda>name. and_then (column_list t) (\<lambda>cols.
       Inr (''INSERT INTO '' @ name @ '' ('' @ cols @ '') VALUES ('' @
            join_with '', '' (map (\<lambda>_. ''?'') (columns t)) @ '')'')))"

definition non_key_columns :: "table_info \<Rightarrow> string list" where
  "non_key_columns t = filter (\<lambda>c. c \<notin> set (pk t)) (map col_name (columns t))"

definition update_sql :: "table_info \<Rightarrow> string + string option" where
  "update_sql t =
     and_then (equals_list '', '' (non_key_columns t)) (\<lambda>assigns.
       if non_key_columns t = [] then Inr None
       else and_then (quote_id (tname t)) (\<lambda>name. and_then (pk_where t) (\<lambda>w.
         Inr (Some (''UPDATE '' @ name @ '' SET '' @ assigns @ '' WHERE '' @ w)))))"

definition delete_sql :: "table_info \<Rightarrow> string + string" where
  "delete_sql t =
     and_then (quote_id (tname t)) (\<lambda>name. and_then (pk_where t) (\<lambda>w.
       Inr (''DELETE FROM '' @ name @ '' WHERE '' @ w)))"

definition compute_pk_hash :: "primitives \<Rightarrow> string list \<Rightarrow> string" where
  "compute_pk_hash pr pk_values = hex_encode (sha256_of pr (utf8 (join_with [CHR 0x1F] pk_values)))"

section \<open>Placeholders\<close>

definition placeholders :: "string \<Rightarrow> nat" where
  "placeholders s = length (filter (\<lambda>c. c = CHR ''?'') s)"

lemma placeholders_append [simp]: "placeholders (a @ b) = placeholders a + placeholders b"
  by (simp add: placeholders_def)

lemma placeholders_Nil [simp]: "placeholders [] = 0"
  by (simp add: placeholders_def)

lemma placeholders_Cons [simp]: "placeholders (c # s) = (if c = CHR ''?'' then 1 else 0) + placeholders s"
  by (simp add: placeholders_def)

lemma placeholders_join: "placeholders sep = 0 \<Longrightarrow> placeholders (join_with sep xs) = sum_list (map placeholders xs)"
  by (induction sep xs rule: join_with.induct) simp_all

lemma identifier_no_placeholder: "list_all identifier_char s \<Longrightarrow> placeholders s = 0"
proof (induction s)
  case (Cons c s)
  have "\<not> identifier_char CHR ''?''" by code_simp
  with Cons show ?case by auto
qed simp

lemma quote_id_Inr: "quote_id n = Inr s \<Longrightarrow> placeholders s = 0"
  by (auto simp: quote_id_def is_safe_identifier_def identifier_no_placeholder split: if_splits)

lemma quote_all_Inr: "quote_all names = Inr qs \<Longrightarrow> length qs = length names \<and> (\<forall>x \<in> set qs. placeholders x = 0)"
proof -
  assume "quote_all names = Inr qs"
  then have eq: "map quote_id names = map Inr qs" by (simp add: quote_all_def sequence_results_Inr)
  then have "length qs = length names" by (metis length_map)
  moreover have "placeholders x = 0" if "x \<in> set qs" for x
  proof -
    from that have "(Inr x :: string + string) \<in> set (map quote_id names)" unfolding eq by simp
    then show ?thesis by (auto dest!: sym [of "Inr x"] quote_id_Inr)
  qed
  ultimately show ?thesis by blast
qed

lemma sum_list_zero: "\<forall>x \<in> set xs. f x = (0::nat) \<Longrightarrow> sum_list (map f xs) = 0"
  by (induction xs) auto

lemma sum_list_ones: "\<forall>x \<in> set xs. f x = (0::nat) \<Longrightarrow> sum_list (map (\<lambda>x. Suc (f x)) xs) = length xs"
  by (induction xs) auto

lemma column_list_placeholders: "column_list t = Inr s \<Longrightarrow> placeholders s = 0"
  by (auto simp: column_list_def and_then_Inr placeholders_join dest!: quote_all_Inr intro: sum_list_zero)

lemma equals_list_placeholders:
  "equals_list sep names = Inr s \<Longrightarrow> placeholders sep = 0 \<Longrightarrow> placeholders s = length names"
  by (auto simp: equals_list_def and_then_Inr placeholders_join comp_def dest!: quote_all_Inr
      intro!: trans [OF sum_list_ones])

lemma pk_where_placeholders: "pk_where t = Inr s \<Longrightarrow> placeholders s = length (pk t)"
  unfolding pk_where_def by (erule equals_list_placeholders) simp

lemma insert_placeholders: "insert_sql t = Inr s \<Longrightarrow> placeholders s = length (columns t)"
  by (auto simp: insert_sql_def and_then_Inr placeholders_join comp_def sum_list_triv
      dest!: quote_id_Inr column_list_placeholders)

lemma update_placeholders:
  "update_sql t = Inr (Some s) \<Longrightarrow> placeholders s = length (non_key_columns t) + length (pk t)"
  by (auto simp: update_sql_def and_then_Inr dest!: quote_id_Inr pk_where_placeholders
      equals_list_placeholders split: if_splits)

lemma select_placeholders: "select_by_pk_sql t b = Inr s \<Longrightarrow> placeholders s = length (pk t)"
  by (auto simp: select_by_pk_sql_def and_then_Inr dest!: quote_id_Inr pk_where_placeholders column_list_placeholders)

lemma delete_placeholders: "delete_sql t = Inr s \<Longrightarrow> placeholders s = length (pk t)"
  by (auto simp: delete_sql_def and_then_Inr dest!: quote_id_Inr pk_where_placeholders)

end
