(* ===== verification/Node_Db.thy ===== *)
theory Node_Db
  imports Catalog
begin

text \<open>
  The database of a node as the cluster uses it: the replicated rows, the registry of row versions
  (\<^verbatim>\<open>cluster_row_state\<close>) and the changes set aside (\<^verbatim>\<open>cluster_deferred\<close>), with the statements the
  code of \<^verbatim>\<open>src/cluster/applier.ts\<close> and the triggers of \<^verbatim>\<open>src/cluster/sqlgen.ts\<close> run on them.

  What MySQL decides is a parameter (\<open>sql_env\<close>): when two values are equal under a column's collation,
  which error a statement reports, what a deletion takes along (\<open>ON DELETE\<close>). A transaction that fails
  leaves the database as it was; \<open>tick\<close> counts transactions, so that an error (a lock, a race) may be gone
  at the next try. The sequence \<open>UUID_SHORT()\<close> is the counter \<open>next_seq\<close>.
\<close>

section \<open>State\<close>

record wire_item =
  wi_h :: string
  wi_k :: "string list"
  wi_v :: int
  wi_o :: string
  wi_d :: bool
  wi_r :: "wire_value list option"

record version_entry =
  ve_pk :: "string list"
  ve_version :: row_version
  ve_via :: "string option"
  ve_deleted :: bool
  ve_changed_at :: millis
  ve_seq :: int

record deferred_entry =
  de_from :: string
  de_version :: row_version
  de_cols :: "string list"
  de_item :: wire_item
  de_reason :: string
  de_detail :: string
  de_attempts :: int
  de_first_seen :: millis
  de_last_tried :: millis

type_synonym row_id = "string \<times> string" \<comment> \<open>table name and key hash\<close>
type_synonym stored_row = "string \<times> js_value list" \<comment> \<open>table name and values in column order\<close>

record node_db =
  rows :: "stored_row list"
  registry :: "(row_id \<times> version_entry) list"
  set_aside :: "(row_id \<times> deferred_entry) list"
  next_seq :: int
  clock :: millis
  tick :: nat

record db_error =
  err_code :: "nat option" \<comment> \<open>the MySQL error number, when the error carries one\<close>
  err_message :: string

datatype stmt =
    LockRow bool string "string list" \<comment> \<open>SELECT ... FOR UPDATE, with or without NOWAIT\<close>
  | ReadVersion row_id
  | FindOther string "string list" "js_value list"
  | InsertRow string "js_value list"
  | UpdateRow string "string list" "js_value list"
  | DeleteRow string "string list"
  | ParkRow string "string list" string js_value
  | PutVersion row_id row_version
  | BeginTx nat \<comment> \<open>seconds a statement may wait for a lock\<close>
  | CommitTx

record sql_env =
  same_value :: "js_value \<Rightarrow> js_value \<Rightarrow> bool"
  key_matches :: "js_value \<Rightarrow> string \<Rightarrow> bool"
  sql_text :: "js_value \<Rightarrow> string"
  on_delete :: "string \<Rightarrow> string list \<Rightarrow> stored_row list \<Rightarrow> stored_row list"
  stmt_error :: "node_db \<Rightarrow> stmt \<Rightarrow> db_error option"

section \<open>Statements\<close>

definition run_stmt :: "sql_env \<Rightarrow> node_db \<Rightarrow> stmt \<Rightarrow> 'a \<Rightarrow> db_error + 'a" where
  "run_stmt env db st result = (case stmt_error env db st of Some e \<Rightarrow> Inl e | None \<Rightarrow> Inr result)"

lemma run_stmt_Inr [simp]: "run_stmt env db st r = Inr r' \<longleftrightarrow> stmt_error env db st = None \<and> r' = r"
  by (auto simp: run_stmt_def split: option.splits)

definition column_index :: "table_info \<Rightarrow> string \<Rightarrow> nat option" where
  "column_index t column = find_index (\<lambda>c. col_name c = column) (columns t)"

definition column_value :: "table_info \<Rightarrow> js_value list \<Rightarrow> string \<Rightarrow> js_value" where
  "column_value t vs column =
     (case column_index t column of
        None \<Rightarrow> JUndefined | Some i \<Rightarrow> if i < length vs then vs ! i else JUndefined)"

definition pk_matches :: "sql_env \<Rightarrow> table_info \<Rightarrow> string list \<Rightarrow> js_value list \<Rightarrow> bool" where
  "pk_matches env t key vs = list_all2 (\<lambda>c k. key_matches env (column_value t vs c) k) (pk t) key"

definition is_row :: "sql_env \<Rightarrow> table_info \<Rightarrow> string list \<Rightarrow> stored_row \<Rightarrow> bool" where
  "is_row env t key r \<longleftrightarrow> fst r = tname t \<and> pk_matches env t key (snd r)"

definition select_row :: "sql_env \<Rightarrow> table_info \<Rightarrow> string list \<Rightarrow> node_db \<Rightarrow> js_value list option" where
  "select_row env t key db = map_option snd (find (is_row env t key) (rows db))"

definition select_for_update ::
    "sql_env \<Rightarrow> bool \<Rightarrow> table_info \<Rightarrow> string list \<Rightarrow> node_db \<Rightarrow> db_error + js_value list option" where
  "select_for_update env nowait t key db =
     run_stmt env db (LockRow nowait (tname t) key) (select_row env t key db)"

text \<open>\<open>SELECT ... WHERE column = ? AND ... AND NOT (key) LIMIT 1\<close>: another row with these values.\<close>

definition find_other ::
    "sql_env \<Rightarrow> table_info \<Rightarrow> string list \<Rightarrow> js_value list \<Rightarrow> string list \<Rightarrow> node_db \<Rightarrow> string list option" where
  "find_other env t cols vals key db =
     map_option (\<lambda>r. map (\<lambda>c. sql_text env (column_value t (snd r) c)) (pk t))
       (find (\<lambda>r. fst r = tname t \<and> list_all2 (\<lambda>c v. same_value env (column_value t (snd r) c) v) cols vals \<and>
          \<not> pk_matches env t key (snd r)) (rows db))"

definition insert_row :: "sql_env \<Rightarrow> table_info \<Rightarrow> js_value list \<Rightarrow> node_db \<Rightarrow> db_error + node_db" where
  "insert_row env t vs db =
     run_stmt env db (InsertRow (tname t) vs) (db\<lparr>rows := rows db @ [(tname t, vs)]\<rparr>)"

fun keep_keys :: "table_info \<Rightarrow> sql_column list \<Rightarrow> js_value list \<Rightarrow> js_value list \<Rightarrow> js_value list" where
  "keep_keys t (c # cs) (old # olds) (new # news) =
     (if col_name c \<in> set (pk t) then old else new) # keep_keys t cs olds news"
| "keep_keys t _ olds _ = olds"

definition update_row :: "sql_env \<Rightarrow> table_info \<Rightarrow> string list \<Rightarrow> js_value list \<Rightarrow> node_db \<Rightarrow> db_error + node_db" where
  "update_row env t key vs db =
     run_stmt env db (UpdateRow (tname t) key vs)
       (db\<lparr>rows := map (\<lambda>r. if is_row env t key r then (fst r, keep_keys t (columns t) (snd r) vs) else r) (rows db)\<rparr>)"

definition delete_row :: "sql_env \<Rightarrow> table_info \<Rightarrow> string list \<Rightarrow> node_db \<Rightarrow> db_error + node_db" where
  "delete_row env t key db =
     run_stmt env db (DeleteRow (tname t) key)
       (db\<lparr>rows := on_delete env (tname t) key (filter (\<lambda>r. \<not> is_row env t key r) (rows db))\<rparr>)"

definition set_column :: "table_info \<Rightarrow> string \<Rightarrow> js_value \<Rightarrow> js_value list \<Rightarrow> js_value list" where
  "set_column t column v vs = (case column_index t column of None \<Rightarrow> vs | Some i \<Rightarrow> vs[i := v])"

definition park_row ::
    "sql_env \<Rightarrow> table_info \<Rightarrow> string list \<Rightarrow> string \<Rightarrow> js_value \<Rightarrow> node_db \<Rightarrow> db_error + node_db" where
  "park_row env t key column v db =
     run_stmt env db (ParkRow (tname t) key column v)
       (db\<lparr>rows := map (\<lambda>r. if is_row env t key r then (fst r, set_column t column v (snd r)) else r) (rows db)\<rparr>)"

section \<open>The registry\<close>

definition local_version :: "node_db \<Rightarrow> row_id \<Rightarrow> row_version option" where
  "local_version db rid = map_option ve_version (map_of (registry db) rid)"

definition read_version :: "sql_env \<Rightarrow> row_id \<Rightarrow> node_db \<Rightarrow> db_error + row_version option" where
  "read_version env rid db = run_stmt env db (ReadVersion rid) (local_version db rid)"

definition put_entry :: "row_id \<Rightarrow> string list \<Rightarrow> row_version \<Rightarrow> bool \<Rightarrow> string option \<Rightarrow> node_db \<Rightarrow> node_db" where
  "put_entry rid key v deleted via db =
     db\<lparr>registry := al_put rid \<lparr>ve_pk = key, ve_version = v, ve_via = via, ve_deleted = deleted,
          ve_changed_at = clock db, ve_seq = next_seq db\<rparr> (registry db),
        next_seq := next_seq db + 1\<rparr>"

definition write_version ::
    "sql_env \<Rightarrow> row_id \<Rightarrow> string list \<Rightarrow> row_version \<Rightarrow> bool \<Rightarrow> string option \<Rightarrow> node_db \<Rightarrow> db_error + node_db" where
  "write_version env rid key v deleted via db =
     run_stmt env db (PutVersion rid v) (put_entry rid key v deleted via db)"

lemma local_version_put [simp]:
  "local_version (put_entry rid key v deleted via db) = (local_version db)(rid \<mapsto> v)"
  by (auto simp: local_version_def put_entry_def fun_eq_iff)

lemma put_entry_sel [simp]:
  "rows (put_entry rid key v d via db) = rows db"
  "set_aside (put_entry rid key v d via db) = set_aside db"
  "next_seq (put_entry rid key v d via db) = next_seq db + 1"
  "tick (put_entry rid key v d via db) = tick db"
  by (simp_all add: put_entry_def)

section \<open>Capturing local changes\<close>

text \<open>
  \<open>recordStatements\<close> of \<^verbatim>\<open>src/cluster/sqlgen.ts\<close>, run inside the transaction of a local write:
  \<open>GREATEST(version + 1, now)\<close> on an existing record, \<open>now\<close> on a new one, at the end of the feed.
\<close>

definition record_change :: "string \<Rightarrow> int \<Rightarrow> row_id \<Rightarrow> string list \<Rightarrow> bool \<Rightarrow> node_db \<Rightarrow> node_db" where
  "record_change node_id now rid key deleted db =
     (let v = (case local_version db rid of None \<Rightarrow> now | Some l \<Rightarrow> max (version l + 1) now)
      in put_entry rid key \<lparr>version = v, origin = node_id\<rparr> deleted None db)"

datatype local_write =
    LocalInsert "string list"
  | LocalUpdate "string list" "string list" bool bool \<comment> \<open>old key, new key, key unchanged, row unchanged\<close>
  | LocalDelete "string list"

text \<open>The three triggers of a table; they stay silent on the connection that applies changes.\<close>

definition capture ::
    "primitives \<Rightarrow> string \<Rightarrow> bool \<Rightarrow> int \<Rightarrow> string \<Rightarrow> local_write \<Rightarrow> node_db \<Rightarrow> node_db" where
  "capture pr node_id apply_flag now table w db =
     (if apply_flag then db
      else case w of
        LocalInsert key \<Rightarrow> record_change node_id now (table, compute_pk_hash pr key) key False db
      | LocalUpdate old new key_same row_same \<Rightarrow>
          if row_same then db
          else record_change node_id now (table, compute_pk_hash pr new) new False
                 (if key_same then db else record_change node_id now (table, compute_pk_hash pr old) old True db)
      | LocalDelete key \<Rightarrow> record_change node_id now (table, compute_pk_hash pr key) key True db)"

section \<open>The order of versions\<close>

text \<open>One node's record of a row is at least as new as another version: no change of it would be taken.\<close>

definition holds :: "node_db \<Rightarrow> row_id \<Rightarrow> row_version \<Rightarrow> bool" where
  "holds db rid v \<longleftrightarrow> (\<exists>l. local_version db rid = Some l \<and> \<not> compare_versions v l > 0)"

definition newer_registry :: "node_db \<Rightarrow> node_db \<Rightarrow> bool" where
  "newer_registry db db' \<longleftrightarrow> (\<forall>rid v. holds db rid v \<longrightarrow> holds db' rid v)"

lemma newer_registry_refl [simp, intro]: "newer_registry db db"
  by (simp add: newer_registry_def)

lemma newer_registry_trans: "newer_registry a b \<Longrightarrow> newer_registry b c \<Longrightarrow> newer_registry a c"
  by (simp add: newer_registry_def)

lemma newer_registry_same: "registry db' = registry db \<Longrightarrow> newer_registry db db'"
  by (simp add: newer_registry_def holds_def local_version_def)

lemma not_newer_trans:
  "\<not> compare_versions v l > 0 \<Longrightarrow> compare_versions w l > 0 \<Longrightarrow> \<not> compare_versions v w > 0"
  using lww.newer_trans [of v w l] by blast

lemma newer_registry_put:
  assumes "is_newer v (local_version db rid)"
  shows "newer_registry db (put_entry rid key v d via db)"
proof -
  have "holds (put_entry rid key v d via db) r w" if "holds db r w" for r w
    using that assms not_newer_trans [of w _ v]
    by (cases "r = rid") (auto simp: holds_def is_newer_def)
  then show ?thesis by (simp add: newer_registry_def)
qed

lemma holds_put: "holds (put_entry rid key v d via db) rid v"
  by (simp add: holds_def compare_versions_def)

lemma stale_holds: "\<not> is_newer v (local_version db rid) \<longleftrightarrow> holds db rid v"
  by (auto simp: is_newer_def holds_def split: option.splits)

lemma newer_registry_holds: "newer_registry db db' \<Longrightarrow> holds db rid v \<Longrightarrow> holds db' rid v"
  by (cases rid) (simp add: newer_registry_def)

text \<open>A captured change is newer than what it replaces, whatever the clock shows.\<close>

lemma record_change_newer:
  "is_newer \<lparr>version = (case local_version db rid of None \<Rightarrow> now | Some l \<Rightarrow> max (version l + 1) now),
     origin = node_id\<rparr> (local_version db rid)"
  by (auto simp: is_newer_def compare_versions_pos split: option.splits)

lemma record_change_monotone: "newer_registry db (record_change node_id now rid key d db)"
  unfolding record_change_def Let_def by (rule newer_registry_put [OF record_change_newer])

lemma capture_monotone_lemma: "newer_registry db (capture pr node_id flag now table w db)"
  unfolding capture_def using record_change_monotone newer_registry_trans
  by (cases w) (auto intro: record_change_monotone newer_registry_trans)

section \<open>The change feed\<close>

text \<open>Every record has its own place in the feed, below the counter.\<close>

definition feed_ok :: "node_db \<Rightarrow> bool" where
  "feed_ok db \<longleftrightarrow>
     distinct (map fst (registry db)) \<and>
     inj_on (\<lambda>rid. ve_seq (the (map_of (registry db) rid))) (dom (map_of (registry db))) \<and>
     (\<forall>rid e. map_of (registry db) rid = Some e \<longrightarrow> ve_seq e < next_seq db)"

lemma feed_ok_put:
  assumes "feed_ok db"
  shows "feed_ok (put_entry rid key v d via db)"
  using assms
  by (auto simp: feed_ok_def put_entry_def inj_on_def distinct_al_put dest!: less_imp_neq)
    (smt (verit) domI option.sel)+

lemma feed_ok_cong:
  "registry db' = registry db \<Longrightarrow> next_seq db' = next_seq db \<Longrightarrow> feed_ok db' = feed_ok db"
  by (simp add: feed_ok_def)

lemma feed_ok_record: "feed_ok db \<Longrightarrow> feed_ok (record_change node_id now rid key d db)"
  unfolding record_change_def Let_def by (rule feed_ok_put)

lemma feed_ok_capture: "feed_ok db \<Longrightarrow> feed_ok (capture pr node_id flag now table w db)"
  unfolding capture_def by (cases w) (auto intro: feed_ok_record)

section \<open>Transactions\<close>

datatype defer_reason = ByParent | ByRace | ByError

datatype outcome =
    Applied
  | Stale
  | Conflict unique_index "string list"
  | Defer defer_reason string
  | Reject string

text \<open>Why a transaction is rolled back: \<open>Abort\<close>, \<open>Fallback\<close>, or an error of the database itself.\<close>

datatype rollback = Aborted outcome | Fallback | DbFailed db_error

type_synonym 'a tx = "node_db \<Rightarrow> rollback + 'a \<times> node_db"

definition db_call :: "db_error + 'a \<Rightarrow> rollback + 'a" where
  "db_call r = (case r of Inl e \<Rightarrow> Inl (DbFailed e) | Inr a \<Rightarrow> Inr a)"

lemma db_call_Inr [simp]: "db_call r = Inr a \<longleftrightarrow> r = Inr a"
  by (cases r) (auto simp: db_call_def)

definition apply_tx :: "sql_env \<Rightarrow> 'a tx \<Rightarrow> nat \<Rightarrow> node_db \<Rightarrow> (rollback + 'a) \<times> node_db" where
  "apply_tx env fn lock_wait_seconds db =
     (let rolled_back = db\<lparr>tick := tick db + 1\<rparr>
      in case stmt_error env db (BeginTx (max 1 lock_wait_seconds)) of
           Some e \<Rightarrow> (Inl (DbFailed e), rolled_back)
         | None \<Rightarrow>
             (case fn db of
                Inl e \<Rightarrow> (Inl e, rolled_back)
              | Inr (a, db') \<Rightarrow>
                  (case stmt_error env db' CommitTx of
                     Some e \<Rightarrow> (Inl (DbFailed e), rolled_back)
                   | None \<Rightarrow> (Inr a, db'\<lparr>tick := tick db + 1\<rparr>))))"

lemma apply_tx_cases:
  assumes "apply_tx env fn secs db = (r, db')"
  obtains (rolled_back) e where "r = Inl e" "db' = db\<lparr>tick := tick db + 1\<rparr>"
  | (committed) a db1 where "r = Inr a" "fn db = Inr (a, db1)" "db' = db1\<lparr>tick := tick db + 1\<rparr>"
  using assms by (auto simp: apply_tx_def Let_def split: option.splits sum.splits prod.splits)

lemma newer_registry_tick [simp]:
  "newer_registry (db\<lparr>tick := n\<rparr>) db' = newer_registry db db'"
  "newer_registry db (db'\<lparr>tick := n\<rparr>) = newer_registry db db'"
  by (simp_all add: newer_registry_def holds_def local_version_def)

lemma holds_tick [simp]: "holds (db\<lparr>tick := n\<rparr>) rid v = holds db rid v"
  by (simp add: holds_def local_version_def)

lemma local_version_tick [simp]: "local_version (db\<lparr>tick := n\<rparr>) = local_version db"
  by (simp add: local_version_def fun_eq_iff)

lemma feed_ok_tick [simp]: "feed_ok (db\<lparr>tick := n\<rparr>) = feed_ok db"
  by (simp add: feed_ok_def)

end
