(* ===== verification/Applier.thy ===== *)
theory Applier
  imports Node_Db
begin

text \<open>
  \<^verbatim>\<open>src/cluster/applier.ts\<close>: changes received from a peer are applied to the local database. A package
  is tried as a whole in one transaction; when that is not possible its changes go one by one, rows that
  collide only with each other are swapped together, and a real duplicate is resolved by a rule every node
  evaluates identically. What cannot be applied yet is set aside.

  A work item carries \<open>wid\<close>, its identity as an object (the code's \<open>Map\<close>s are keyed by it). Queries outside
  a transaction (the table of changes set aside, the search for a colliding group) do not fail here; one that
  does makes the whole call reject in the code, after which the peer sends the package again. Logging and the
  list of recent events are not modelled.
\<close>

section \<open>Work items\<close>

record deferral =
  df_attempts :: int
  df_first_seen :: millis

record work_item =
  wid :: nat
  w_table :: table_info
  w_hash :: string
  w_key :: "string list"
  w_version :: row_version
  w_deleted :: bool
  w_values :: "js_value list option"
  w_from :: string
  w_cols :: "string list"
  w_wire :: wire_item
  w_deferral :: "deferral option"
  w_slot :: "nat option"

record effect =
  ef_table :: string
  ef_before :: "js_value list option"
  ef_after :: "js_value list option"

datatype item_result = A | S | D | R

definition row_id_of :: "work_item \<Rightarrow> row_id" where
  "row_id_of item = (tname (w_table item), w_hash item)"

definition value_of :: "work_item \<Rightarrow> string \<Rightarrow> js_value" where
  "value_of item column =
     (case w_values item of None \<Rightarrow> JUndefined | Some vs \<Rightarrow> column_value (w_table item) vs column)"

definition build_work_item ::
    "primitives \<Rightarrow> js_host \<Rightarrow> nat \<Rightarrow> table_info \<Rightarrow> string list \<Rightarrow> wire_item \<Rightarrow> string \<Rightarrow> string + work_item" where
  "build_work_item pr h n t cols w peer =
     (let item = (\<lambda>vs. \<lparr>wid = n, w_table = t, w_hash = wi_h w, w_key = wi_k w,
                        w_version = \<lparr>version = wi_v w, origin = wi_o w\<rparr>, w_deleted = wi_d w, w_values = vs,
                        w_from = peer, w_cols = cols, w_wire = w, w_deferral = None, w_slot = None\<rparr>)
      in if length (wi_k w) \<noteq> length (pk t) then Inl ''key does not match the table''
         else if compute_pk_hash pr (wi_k w) \<noteq> wi_h w then Inl ''key hash mismatch''
         else if wi_d w then Inr (item None)
         else case wi_r w of
           None \<Rightarrow> Inl ''row is missing''
         | Some r \<Rightarrow>
             if cols \<noteq> map col_name (columns t) then Inl ''column list differs''
             else case decode_row h (codec t) r of
               Inl err \<Rightarrow> Inl (''row could not be decoded ('' @ err @ '')'')
             | Inr vs \<Rightarrow> Inr (item (Some vs)))"

section \<open>Errors of a write\<close>

definition first_line :: "db_error \<Rightarrow> string" where
  "first_line e = take 300 (rev (takeWhile (\<lambda>c. c \<noteq> CHR 0x0A) (rev (err_message e))))"

definition classify_write_error :: "db_error \<Rightarrow> outcome" where
  "classify_write_error e =
     (case err_code e of
        None \<Rightarrow> Defer ByError (first_line e)
      | Some code \<Rightarrow>
          if code \<in> {1452, 1216} then Defer ByParent (first_line e)
          else if code \<in> {1062, 1213, 1205} then Defer ByRace (first_line e)
          else if code \<in> {1406, 1264, 1265, 1366, 1292, 1054, 1146} then Reject (first_line e)
          else Defer ByError (first_line e))"

section \<open>One change\<close>

definition index_values :: "work_item \<Rightarrow> unique_index \<Rightarrow> js_value list" where
  "index_values item ix = map (value_of item) (ui_columns ix)"

definition unset :: "js_value \<Rightarrow> bool" where
  "unset v \<longleftrightarrow> v = JNull \<or> v = JUndefined"

fun collision_in ::
    "sql_env \<Rightarrow> work_item \<Rightarrow> unique_index list \<Rightarrow> node_db \<Rightarrow> db_error + (unique_index \<times> string list) option" where
  "collision_in env item [] db = Inr None"
| "collision_in env item (ix # ixs) db =
     (if list_ex unset (index_values item ix) then collision_in env item ixs db
      else and_then (run_stmt env db (FindOther (tname (w_table item)) (ui_columns ix) (index_values item ix))
                      (find_other env (w_table item) (ui_columns ix) (index_values item ix) (w_key item) db))
             (\<lambda>found. case found of Some other \<Rightarrow> Inr (Some (ix, other)) | None \<Rightarrow> collision_in env item ixs db))"

definition find_collision ::
    "sql_env \<Rightarrow> work_item \<Rightarrow> node_db \<Rightarrow> db_error + (unique_index \<times> string list) option" where
  "find_collision env item db =
     (if w_values item = None then Inr None else collision_in env item (uniques (w_table item)) db)"

definition write_row :: "sql_env \<Rightarrow> work_item \<Rightarrow> bool \<Rightarrow> node_db \<Rightarrow> db_error + node_db" where
  "write_row env item present db =
     (case w_values item of
        None \<Rightarrow> if present then delete_row env (w_table item) (w_key item) db else Inr db
      | Some vs \<Rightarrow>
          if \<not> present then insert_row env (w_table item) vs db
          else if non_key_columns (w_table item) = [] then Inr db
          else update_row env (w_table item) (w_key item) vs db)"

definition write_item_version :: "sql_env \<Rightarrow> work_item \<Rightarrow> bool \<Rightarrow> node_db \<Rightarrow> db_error + node_db" where
  "write_item_version env item del db =
     write_version env (row_id_of item) (w_key item) (w_version item) del (Some (w_from item)) db"

definition item_effect :: "work_item \<Rightarrow> js_value list option \<Rightarrow> effect" where
  "item_effect item existing = \<lparr>ef_table = tname (w_table item), ef_before = existing, ef_after = w_values item\<rparr>"

definition abort_on :: "db_error + 'a \<Rightarrow> rollback + 'a" where
  "abort_on r = (case r of Inl e \<Rightarrow> Inl (Aborted (classify_write_error e)) | Inr a \<Rightarrow> Inr a)"

definition store_item :: "sql_env \<Rightarrow> work_item \<Rightarrow> js_value list option \<Rightarrow> (outcome \<times> effect option) tx" where
  "store_item env item existing db =
     and_then (abort_on (write_row env item (existing \<noteq> None) db)) (\<lambda>db1.
     and_then (db_call (write_item_version env item (w_deleted item) db1)) (\<lambda>db2.
       Inr ((Applied, Some (item_effect item existing)), db2)))"

definition seek_collision ::
    "sql_env \<Rightarrow> work_item \<Rightarrow> node_db \<Rightarrow> rollback + (unique_index \<times> string list) option" where
  "seek_collision env item db = (if w_deleted item then Inr None else db_call (find_collision env item db))"

definition attempt_within :: "sql_env \<Rightarrow> work_item \<Rightarrow> (outcome \<times> effect option) tx" where
  "attempt_within env item db =
     and_then (db_call (select_for_update env False (w_table item) (w_key item) db)) (\<lambda>existing.
     and_then (db_call (read_version env (row_id_of item) db)) (\<lambda>local.
       if \<not> is_newer (w_version item) local then Inr ((Stale, None), db)
       else and_then (seek_collision env item db) (\<lambda>collision.
         case collision of
           Some (ix, other) \<Rightarrow> Inr ((Conflict ix other, None), db)
         | None \<Rightarrow> store_item env item existing db)))"

definition attempt :: "sql_env \<Rightarrow> work_item \<Rightarrow> node_db \<Rightarrow> (outcome \<times> effect option) \<times> node_db" where
  "attempt env item db =
     (case apply_tx env (attempt_within env item) 50 db of
        (Inr r, db') \<Rightarrow> (r, db')
      | (Inl (Aborted out), db') \<Rightarrow> ((out, None), db')
      | (Inl Fallback, db') \<Rightarrow> ((classify_write_error \<lparr>err_code = None, err_message = ''package needs the careful path''\<rparr>, None), db')
      | (Inl (DbFailed e), db') \<Rightarrow> ((classify_write_error e, None), db'))"

section \<open>A whole package at once\<close>

definition lock_nowait :: nat where "lock_nowait = 3572"

fun lock_all ::
    "sql_env \<Rightarrow> work_item list \<Rightarrow> node_db \<Rightarrow> rollback + (nat \<times> js_value list option) list" where
  "lock_all env [] db = Inr []"
| "lock_all env (item # items) db =
     (case select_for_update env True (w_table item) (w_key item) db of
        Inl e \<Rightarrow> Inl (if err_code e = Some lock_nowait then Fallback else DbFailed e)
      | Inr existing \<Rightarrow> and_then (lock_all env items db) (\<lambda>rest. Inr ((wid item, existing) # rest)))"

definition fallback_on :: "db_error + 'a \<Rightarrow> rollback + 'a" where
  "fallback_on r = (case r of Inl e \<Rightarrow> Inl Fallback | Inr a \<Rightarrow> Inr a)"

fun package_items ::
    "sql_env \<Rightarrow> (nat \<times> js_value list option) list \<Rightarrow> work_item list \<Rightarrow>
     ((nat \<times> item_result) list \<times> effect list) tx" where
  "package_items env existing [] db = Inr (([], []), db)"
| "package_items env existing (item # items) db =
     and_then (db_call (read_version env (row_id_of item) db)) (\<lambda>local.
       if \<not> is_newer (w_version item) local
       then and_then (package_items env existing items db) (\<lambda>((res, effs), db').
              Inr (((wid item, S) # res, effs), db'))
       else and_then (seek_collision env item db) (\<lambda>collision.
         if collision \<noteq> None then Inl Fallback
         else let old = (case map_of existing (wid item) of None \<Rightarrow> None | Some r \<Rightarrow> r)
              in and_then (fallback_on (write_row env item (old \<noteq> None) db)) (\<lambda>db1.
                 and_then (db_call (write_item_version env item (w_deleted item) db1)) (\<lambda>db2.
                 and_then (package_items env existing items db2) (\<lambda>((res, effs), db').
                   Inr (((wid item, A) # res, item_effect item old # effs), db'))))))"

definition package_body :: "sql_env \<Rightarrow> work_item list \<Rightarrow> ((nat \<times> item_result) list \<times> effect list) tx" where
  "package_body env items db =
     and_then (lock_all env items db) (\<lambda>existing. package_items env existing items db)"

text \<open>\<open>Inl\<close>: the error is none of the database's own and leaves the function; \<open>Inr None\<close>: the careful path.\<close>

definition apply_package ::
    "sql_env \<Rightarrow> work_item list \<Rightarrow> node_db \<Rightarrow>
     (string + ((nat \<times> item_result) list \<times> effect list) option) \<times> node_db" where
  "apply_package env items db =
     (case apply_tx env (package_body env items) 1 db of
        (Inr r, db') \<Rightarrow> (Inr (Some r), db')
      | (Inl Fallback, db') \<Rightarrow> (Inr None, db')
      | (Inl (DbFailed e), db') \<Rightarrow> ((if err_code e \<noteq> None then Inr None else Inl (err_message e)), db')
      | (Inl (Aborted out), db') \<Rightarrow> (Inl ''apply aborted'', db'))"

section \<open>Changes that collide with each other\<close>

definition codec_kind :: "table_info \<Rightarrow> string \<Rightarrow> column_kind option" where
  "codec_kind t column = map_option cc_kind (find (\<lambda>c. cc_name c = column) (codec t))"

definition parking_alphabet :: string where
  "parking_alphabet = ''abcdefghijklmnopqrstuvwxyz0123456789''"

text \<open>A throw-away value; \<open>draw i\<close> is the \<open>i\<close>-th random number of the call.\<close>

definition parking_value :: "(nat \<Rightarrow> nat) \<Rightarrow> table_info \<Rightarrow> string \<Rightarrow> js_value option" where
  "parking_value draw t column =
     (case codec_kind t column of
        Some KNumber \<Rightarrow> Some (JNum (- (100000000 + of_nat (draw 0 mod 1900000000))))
      | Some KBigint \<Rightarrow> Some (JBig (- (100000000 + int (draw 0 mod 1900000000))))
      | Some KString \<Rightarrow>
          (let max = (case map_of (max_length t) column of None \<Rightarrow> 0 | Some m \<Rightarrow> m)
           in if max < 6 then None
              else Some (JStr (CHR ''~'' # map (\<lambda>i. parking_alphabet ! (draw i mod 36)) [0..<nat (min max 24) - 1])))
      | _ \<Rightarrow> None)"

definition parking_column :: "(nat \<Rightarrow> nat) \<Rightarrow> table_info \<Rightarrow> unique_index \<Rightarrow> string option" where
  "parking_column draw t ix =
     find (\<lambda>c. c \<notin> set (pk t) \<and> c \<notin> set (fk_columns t) \<and> parking_value draw t c \<noteq> None) (ui_columns ix)"

text \<open>\<open>Inr None\<close>: a member is no longer current.\<close>

fun group_existing ::
    "sql_env \<Rightarrow> work_item list \<Rightarrow> node_db \<Rightarrow> rollback + (string \<times> js_value list option) list option" where
  "group_existing env [] db = Inr (Some [])"
| "group_existing env (item # items) db =
     and_then (db_call (select_for_update env False (w_table item) (w_key item) db)) (\<lambda>existing.
     and_then (db_call (read_version env (row_id_of item) db)) (\<lambda>local.
       if \<not> is_newer (w_version item) local then Inr None
       else and_then (group_existing env items db) (\<lambda>rest.
              Inr (map_option (\<lambda>l. (w_hash item, existing) # l) rest))))"

definition existing_row :: "(string \<times> js_value list option) list \<Rightarrow> work_item \<Rightarrow> js_value list option" where
  "existing_row existing item = (case map_of (rev existing) (w_hash item) of None \<Rightarrow> None | Some r \<Rightarrow> r)"

text \<open>Moves one row out of the way on each of its unique indexes; \<open>False\<close> where one has no column to park.\<close>

fun park_indexes ::
    "sql_env \<Rightarrow> (nat \<Rightarrow> nat \<Rightarrow> nat) \<Rightarrow> work_item \<Rightarrow> nat \<Rightarrow> unique_index list \<Rightarrow> bool tx" where
  "park_indexes env rnd item n [] db = Inr (True, db)"
| "park_indexes env rnd item n (ix # ixs) db =
     (case parking_column (rnd n) (w_table item) ix of
        None \<Rightarrow> Inr (False, db)
      | Some column \<Rightarrow>
          and_then (db_call (park_row env (w_table item) (w_key item) column
                      (the (parking_value (rnd n) (w_table item) column)) db))
            (\<lambda>db1. park_indexes env rnd item (Suc n) ixs db1))"

fun park_group ::
    "sql_env \<Rightarrow> (nat \<Rightarrow> nat \<Rightarrow> nat) \<Rightarrow> (string \<times> js_value list option) list \<Rightarrow> nat \<Rightarrow> work_item list \<Rightarrow> bool tx" where
  "park_group env rnd existing n [] db = Inr (True, db)"
| "park_group env rnd existing n (item # items) db =
     (if existing_row existing item = None then park_group env rnd existing n items db
      else and_then (park_indexes env rnd item n (uniques (w_table item)) db) (\<lambda>(ok, db1).
             if ok then park_group env rnd existing (n + length (uniques (w_table item))) items db1
             else Inr (False, db1)))"

fun write_group ::
    "sql_env \<Rightarrow> (string \<times> js_value list option) list \<Rightarrow> work_item list \<Rightarrow> effect list tx" where
  "write_group env existing [] db = Inr ([], db)"
| "write_group env existing (item # items) db =
     and_then (db_call (write_row env item (existing_row existing item \<noteq> None) db)) (\<lambda>db1.
     and_then (db_call (write_item_version env item (w_deleted item) db1)) (\<lambda>db2.
     and_then (write_group env existing items db2) (\<lambda>(effs, db3).
       Inr (item_effect item (existing_row existing item) # effs, db3))))"

definition group_body :: "sql_env \<Rightarrow> (nat \<Rightarrow> nat \<Rightarrow> nat) \<Rightarrow> work_item list \<Rightarrow> (bool \<times> effect list) tx" where
  "group_body env rnd grp db =
     and_then (group_existing env grp db) (\<lambda>found.
       case found of
         None \<Rightarrow> Inr ((False, []), db)
       | Some existing \<Rightarrow>
           and_then (park_group env rnd existing 0 grp db) (\<lambda>(ok, db1).
             if \<not> ok then Inr ((False, []), db1)
             else and_then (write_group env existing grp db1) (\<lambda>(effs, db2). Inr ((True, effs), db2))))"

definition apply_group ::
    "sql_env \<Rightarrow> (nat \<Rightarrow> nat \<Rightarrow> nat) \<Rightarrow> work_item list \<Rightarrow> node_db \<Rightarrow> (bool \<times> effect list) \<times> node_db" where
  "apply_group env rnd grp db =
     (case apply_tx env (group_body env rnd grp) 50 db of
        (Inr (applied, effs), db') \<Rightarrow> ((applied, if applied then effs else []), db')
      | (Inl _, db') \<Rightarrow> ((False, []), db'))"

section \<open>A real duplicate\<close>

text \<open>The table of repairs of the code is empty, so the losing row is always removed.\<close>

definition created_wins :: "js_value \<Rightarrow> js_value \<Rightarrow> bool option" where
  "created_wins local_created incoming_created =
     (case (local_created, incoming_created) of
        (JDate (Some l), JDate (Some i)) \<Rightarrow> if l \<noteq> i then Some (i < l) else None
      | (JDate _, JDate _) \<Rightarrow> Some False
      | _ \<Rightarrow> None)"

definition incoming_wins :: "sql_env \<Rightarrow> work_item \<Rightarrow> string list \<Rightarrow> string \<Rightarrow> node_db \<Rightarrow> bool" where
  "incoming_wins env item other_key other_hash db =
     (case created_at_column (w_table item) of
        None \<Rightarrow> str_less (w_hash item) other_hash
      | Some column \<Rightarrow>
          (let local_created = (case select_row env (w_table item) other_key db of
                 None \<Rightarrow> JUndefined | Some vs \<Rightarrow> column_value (w_table item) vs column)
           in case created_wins local_created (value_of item column) of
                Some verdict \<Rightarrow> verdict
              | None \<Rightarrow> str_less (w_hash item) other_hash))"

definition bump :: "string \<Rightarrow> row_version option \<Rightarrow> row_version" where
  "bump self_id v = \<lparr>version = (case v of None \<Rightarrow> 0 | Some l \<Rightarrow> version l) + 1, origin = self_id\<rparr>"

definition delete_present ::
    "sql_env \<Rightarrow> table_info \<Rightarrow> string list \<Rightarrow> js_value list option \<Rightarrow> node_db \<Rightarrow> db_error + node_db" where
  "delete_present env t k existing db = (if existing \<noteq> None then delete_row env t k db else Inr db)"

definition resolve_body ::
    "sql_env \<Rightarrow> string \<Rightarrow> work_item \<Rightarrow> string list \<Rightarrow> string \<Rightarrow> bool \<Rightarrow> (bool \<times> effect list) tx" where
  "resolve_body env self_id item other_key other_hash wins db =
     (let t = w_table item; other_id = (tname t, other_hash) in
      and_then (db_call (select_for_update env False t (w_key item) db)) (\<lambda>existing.
      and_then (db_call (read_version env (row_id_of item) db)) (\<lambda>local.
        if \<not> is_newer (w_version item) local then Inr ((False, []), db)
        else if \<not> wins then
          and_then (db_call (delete_present env t (w_key item) existing db)) (\<lambda>db1.
          and_then (db_call (write_version env (row_id_of item) (w_key item)
                      (bump self_id (Some (w_version item))) True None db1)) (\<lambda>db2.
            Inr ((True, [\<lparr>ef_table = tname t, ef_before = existing, ef_after = None\<rparr>]), db2)))
        else
          and_then (db_call (select_for_update env False t other_key db)) (\<lambda>other.
          and_then (db_call (read_version env other_id db)) (\<lambda>other_version.
          and_then (db_call (delete_present env t other_key other db)) (\<lambda>db1.
          and_then (db_call (write_version env other_id other_key (bump self_id other_version) True None db1)) (\<lambda>db2.
          and_then (db_call (write_row env item (existing \<noteq> None) db2)) (\<lambda>db3.
          and_then (db_call (write_item_version env item False db3)) (\<lambda>db4.
            Inr ((True, [\<lparr>ef_table = tname t, ef_before = other, ef_after = None\<rparr>, item_effect item existing]), db4)))))))))
      )"

definition resolve_duplicate ::
    "sql_env \<Rightarrow> primitives \<Rightarrow> string \<Rightarrow> work_item \<Rightarrow> string list \<Rightarrow> node_db \<Rightarrow> (bool \<times> effect list) \<times> node_db" where
  "resolve_duplicate env pr self_id item other_key db =
     (let other_hash = compute_pk_hash pr other_key;
          wins = incoming_wins env item other_key other_hash db
      in case apply_tx env (resolve_body env self_id item other_key other_hash wins) 50 db of
           (Inr (applied, effs), db') \<Rightarrow> ((applied, if applied then effs else []), db')
         | (Inl _, db') \<Rightarrow> ((False, []), db'))"

section \<open>Changes set aside\<close>

definition save_deferred :: "millis \<Rightarrow> work_item \<Rightarrow> string \<Rightarrow> string \<Rightarrow> node_db \<Rightarrow> node_db" where
  "save_deferred now item why detail db =
     (let rid = row_id_of item; found = map_of (set_aside db) rid in
      if (case found of None \<Rightarrow> False | Some e \<Rightarrow>
            \<not> is_newer (w_version item) (Some (de_version e)) \<and> de_version e \<noteq> w_version item)
      then db
      else db\<lparr>set_aside := al_put rid
        \<lparr>de_from = w_from item, de_version = w_version item, de_cols = w_cols item, de_item = w_wire item,
          de_reason = why, de_detail = take 500 detail,
          de_attempts = (case found of None \<Rightarrow> 1 | Some e \<Rightarrow> de_attempts e + 1),
          de_first_seen = (case found of None \<Rightarrow> now | Some e \<Rightarrow> de_first_seen e),
          de_last_tried = now\<rparr> (set_aside db)\<rparr>)"

definition clear_deferred :: "work_item \<Rightarrow> node_db \<Rightarrow> node_db" where
  "clear_deferred item db =
     db\<lparr>set_aside := filter (\<lambda>(rid, e). \<not> (rid = row_id_of item \<and> version (de_version e) \<le> version (w_version item)))
        (set_aside db)\<rparr>"

record peer_state =
  ps_node_id :: string
  ps_drained_at :: "millis option"
  ps_rows_received :: nat

record apply_ctx =
  cx_env :: sql_env
  cx_pr :: primitives
  cx_host :: js_host
  cx_rnd :: "nat \<Rightarrow> nat \<Rightarrow> nat"
  cx_self :: string
  cx_now :: millis
  cx_max_age :: millis
  cx_peers :: "peer_state list"
  cx_catalog :: "catalog option"

definition sender_has_nothing_more :: "apply_ctx \<Rightarrow> work_item \<Rightarrow> bool" where
  "sender_has_nothing_more cx item =
     (case w_deferral item of
        None \<Rightarrow> False
      | Some df \<Rightarrow>
          if df_attempts df < 2 then False
          else if cx_now cx - df_first_seen df > cx_max_age cx then True
          else case find (\<lambda>p. ps_node_id p = w_from item) (cx_peers cx) of
                 Some p \<Rightarrow> (case ps_drained_at p of None \<Rightarrow> False | Some t \<Rightarrow> t > df_first_seen df)
               | None \<Rightarrow> True)"

section \<open>Processing a set of changes\<close>

text \<open>Deletions first, children before parents; then rows, parents before children.\<close>

definition process_order :: "work_item list \<Rightarrow> work_item list" where
  "process_order items =
     sort_key (\<lambda>i. - table_rank (w_table i)) (filter w_deleted items) @
     sort_key (\<lambda>i. table_rank (w_table i)) (filter (\<lambda>i. \<not> w_deleted i) items)"

record colliding =
  co_item :: work_item
  co_index :: unique_index
  co_other :: "string list"

datatype wait_reason = WaitParent | WaitRace | WaitError | WaitUnique

record waiting =
  wt_item :: work_item
  wt_reason :: wait_reason
  wt_detail :: string

fun wait_of :: "defer_reason \<Rightarrow> wait_reason" where
  "wait_of ByParent = WaitParent"
| "wait_of ByRace = WaitRace"
| "wait_of ByError = WaitError"

fun reason_text :: "wait_reason \<Rightarrow> string" where
  "reason_text WaitParent = ''fk''"
| "reason_text WaitRace = ''race''"
| "reason_text WaitError = ''error''"
| "reason_text WaitUnique = ''unique''"

record progress =
  pg_results :: "(nat \<times> item_result) list"
  pg_effects :: "effect list"
  pg_colliding :: "colliding list"
  pg_waiting :: "waiting list"
  pg_db :: node_db

definition add_result :: "nat \<Rightarrow> item_result \<Rightarrow> progress \<Rightarrow> progress" where
  "add_result w r pg = pg\<lparr>pg_results := al_put w r (pg_results pg)\<rparr>"

definition add_effect :: "effect option \<Rightarrow> progress \<Rightarrow> progress" where
  "add_effect ef pg = (case ef of None \<Rightarrow> pg | Some e \<Rightarrow> pg\<lparr>pg_effects := pg_effects pg @ [e]\<rparr>)"

definition add_colliding :: "work_item \<Rightarrow> unique_index \<Rightarrow> string list \<Rightarrow> progress \<Rightarrow> progress" where
  "add_colliding item ix other pg =
     pg\<lparr>pg_colliding := pg_colliding pg @ [\<lparr>co_item = item, co_index = ix, co_other = other\<rparr>]\<rparr>"

definition add_waiting :: "work_item \<Rightarrow> wait_reason \<Rightarrow> string \<Rightarrow> progress \<Rightarrow> progress" where
  "add_waiting item why detail pg =
     pg\<lparr>pg_waiting := pg_waiting pg @ [\<lparr>wt_item = item, wt_reason = why, wt_detail = detail\<rparr>]\<rparr>"

definition first_try :: "sql_env \<Rightarrow> work_item \<Rightarrow> progress \<Rightarrow> progress" where
  "first_try env item pg =
     (let ((out, ef), db') = attempt env item (pg_db pg); pg1 = pg\<lparr>pg_db := db'\<rparr>
      in case out of
           Applied \<Rightarrow> add_effect ef (add_result (wid item) A pg1)
         | Stale \<Rightarrow> add_result (wid item) S pg1
         | Conflict ix other \<Rightarrow> add_colliding item ix other pg1
         | Defer why detail \<Rightarrow> add_waiting item (wait_of why) detail pg1
         | Reject detail \<Rightarrow> add_result (wid item) R pg1)"

text \<open>A waiting change is tried once more, after everything else of the set.\<close>

definition second_try :: "sql_env \<Rightarrow> waiting \<Rightarrow> progress \<Rightarrow> progress" where
  "second_try env entry pg =
     (if wt_reason entry \<noteq> WaitParent \<and> wt_reason entry \<noteq> WaitRace then pg
      else let item = wt_item entry;
               ((out, ef), db') = attempt env item (pg_db pg);
               pg1 = pg\<lparr>pg_db := db'\<rparr>;
               unqueued = pg1\<lparr>pg_waiting := remove1 entry (pg_waiting pg1)\<rparr>
           in case out of
                Applied \<Rightarrow> add_effect ef (add_result (wid item) A unqueued)
              | Stale \<Rightarrow> add_result (wid item) S unqueued
              | Conflict ix other \<Rightarrow> add_colliding item ix other unqueued
              | _ \<Rightarrow> pg1)"

text \<open>
  The rows that collide only with each other: each member's other holders of its unique values join the
  group when their own change is pending; a holder without a pending change is the blocker.
\<close>

record group_search =
  gs_group :: "work_item list"
  gs_closed :: bool
  gs_blocker :: "unique_index \<times> string list"

fun grow_indexes ::
    "sql_env \<Rightarrow> primitives \<Rightarrow> (row_id \<times> work_item) list \<Rightarrow> nat list \<Rightarrow> node_db \<Rightarrow> work_item \<Rightarrow>
     unique_index list \<Rightarrow> group_search \<Rightarrow> group_search" where
  "grow_indexes env pr pending handled db m [] gs = gs"
| "grow_indexes env pr pending handled db m (ix # ixs) gs =
     (if list_ex unset (index_values m ix) then grow_indexes env pr pending handled db m ixs gs
      else case find_other env (w_table m) (ui_columns ix) (index_values m ix) (w_key m) db of
             None \<Rightarrow> grow_indexes env pr pending handled db m ixs gs
           | Some other \<Rightarrow>
               (let other_id = (tname (w_table m), compute_pk_hash pr other)
                in if list_ex (\<lambda>c. row_id_of c = other_id) (gs_group gs)
                   then grow_indexes env pr pending handled db m ixs gs
                   else case map_of pending other_id of
                          Some partner \<Rightarrow>
                            if wid partner \<notin> set handled \<and> \<not> w_deleted partner
                            then grow_indexes env pr pending handled db m ixs (gs\<lparr>gs_group := gs_group gs @ [partner]\<rparr>)
                            else gs\<lparr>gs_closed := False, gs_blocker := (ix, other)\<rparr>
                        | None \<Rightarrow> gs\<lparr>gs_closed := False, gs_blocker := (ix, other)\<rparr>))"

text \<open>The loop over the group as it grows; every member is a pending row, so the fuel is their number.\<close>

fun grow_group ::
    "nat \<Rightarrow> sql_env \<Rightarrow> primitives \<Rightarrow> (row_id \<times> work_item) list \<Rightarrow> nat list \<Rightarrow> node_db \<Rightarrow> nat \<Rightarrow>
     group_search \<Rightarrow> group_search" where
  "grow_group 0 env pr pending handled db cursor gs = gs"
| "grow_group (Suc fuel) env pr pending handled db cursor gs =
     (if cursor < length (gs_group gs) \<and> gs_closed gs
      then let m = gs_group gs ! cursor
           in grow_group fuel env pr pending handled db (Suc cursor)
                (grow_indexes env pr pending handled db m (uniques (w_table m)) gs)
      else gs)"

definition collect_group ::
    "sql_env \<Rightarrow> primitives \<Rightarrow> (row_id \<times> work_item) list \<Rightarrow> nat list \<Rightarrow> node_db \<Rightarrow> work_item \<Rightarrow>
     unique_index \<Rightarrow> string list \<Rightarrow> group_search" where
  "collect_group env pr pending handled db item ix other =
     grow_group (Suc (length pending)) env pr pending handled db 0
       \<lparr>gs_group = [item], gs_closed = True, gs_blocker = (ix, other)\<rparr>"

text \<open>A closed group of several rows is applied as a whole, when that is possible.\<close>

definition try_group :: "apply_ctx \<Rightarrow> group_search \<Rightarrow> progress \<Rightarrow> bool \<times> progress" where
  "try_group cx gs pg =
     (if gs_closed gs \<and> 1 < length (gs_group gs)
      then let ((applied, effs), db2) = apply_group (cx_env cx) (cx_rnd cx) (gs_group gs) (pg_db pg)
           in (applied, if applied
               then (fold (\<lambda>m. add_result (wid m) A) (gs_group gs) (pg\<lparr>pg_db := db2\<rparr>))
                      \<lparr>pg_effects := pg_effects pg @ effs\<rparr>
               else pg\<lparr>pg_db := db2\<rparr>)
      else (False, pg))"

text \<open>Otherwise the item waits, or, once nothing more can come, the duplicate is resolved.\<close>

definition try_resolve :: "apply_ctx \<Rightarrow> work_item \<Rightarrow> unique_index \<times> string list \<Rightarrow> progress \<Rightarrow> progress" where
  "try_resolve cx item blocker pg =
     (let wait = add_waiting item WaitUnique
                   (''collides on ('' @ join_with '', '' (ui_columns (fst blocker)) @ '')'')
      in if sender_has_nothing_more cx item
         then let ((applied, effs), db2) =
                    resolve_duplicate (cx_env cx) (cx_pr cx) (cx_self cx) item (snd blocker) (pg_db pg)
              in if applied
                 then (add_result (wid item) A (pg\<lparr>pg_db := db2\<rparr>))\<lparr>pg_effects := pg_effects pg @ effs\<rparr>
                 else wait (pg\<lparr>pg_db := db2\<rparr>)
         else wait pg)"

text \<open>One entry of the colliding pass; the first component is the list of handled items.\<close>

definition colliding_step ::
    "apply_ctx \<Rightarrow> (row_id \<times> work_item) list \<Rightarrow> colliding \<Rightarrow> nat list \<times> progress \<Rightarrow> nat list \<times> progress" where
  "colliding_step cx pending entry acc =
     (case acc of (handled, pg) \<Rightarrow>
       let item = co_item entry in
       if wid item \<in> set handled then acc
       else let ((out, ef), db') = attempt (cx_env cx) item (pg_db pg); pg1 = pg\<lparr>pg_db := db'\<rparr> in
         (case out of
            Applied \<Rightarrow> (wid item # handled, add_effect ef (add_result (wid item) A pg1))
          | Stale \<Rightarrow> (wid item # handled, add_result (wid item) S pg1)
          | Reject detail \<Rightarrow> (wid item # handled, add_result (wid item) R pg1)
          | Defer why detail \<Rightarrow> (wid item # handled, add_waiting item (wait_of why) detail pg1)
          | Conflict ix other \<Rightarrow>
              (let gs = collect_group (cx_env cx) (cx_pr cx) pending handled db' item ix other;
                   (grouped, pg2) = try_group cx gs pg1
               in if grouped then (rev (map wid (gs_group gs)) @ handled, pg2)
                  else (wid item # handled, try_resolve cx item (gs_blocker gs) pg2))))"

definition pending_of :: "colliding list \<Rightarrow> (row_id \<times> work_item) list" where
  "pending_of entries = al_put_all (map (\<lambda>e. (row_id_of (co_item e), co_item e)) entries) []"

definition colliding_pass :: "apply_ctx \<Rightarrow> progress \<Rightarrow> progress" where
  "colliding_pass cx pg =
     snd (fold (colliding_step cx (pending_of (pg_colliding pg))) (pg_colliding pg) ([], pg))"

definition waiting_step :: "apply_ctx \<Rightarrow> waiting \<Rightarrow> progress \<Rightarrow> progress" where
  "waiting_step cx entry pg =
     (let item = wt_item entry in
      if wt_reason entry = WaitParent \<and> sender_has_nothing_more cx item then add_result (wid item) S pg
      else (add_result (wid item) D pg)
             \<lparr>pg_db := save_deferred (cx_now cx) item (reason_text (wt_reason entry)) (wt_detail entry) (pg_db pg)\<rparr>)"

definition clear_settled :: "work_item list \<Rightarrow> (nat \<times> item_result) list \<Rightarrow> node_db \<Rightarrow> node_db" where
  "clear_settled items results db =
     fold (\<lambda>(w, r) d. if r = A \<or> r = S
             then (case find (\<lambda>i. wid i = w) items of None \<Rightarrow> d | Some i \<Rightarrow> clear_deferred i d) else d)
       results db"

definition careful_path :: "apply_ctx \<Rightarrow> work_item list \<Rightarrow> node_db \<Rightarrow> progress" where
  "careful_path cx ordered_items db =
     (let env = cx_env cx;
          pg1 = fold (first_try env) ordered_items
                  \<lparr>pg_results = [], pg_effects = [], pg_colliding = [], pg_waiting = [], pg_db = db\<rparr>;
          pg2 = fold (second_try env) (pg_waiting pg1) pg1;
          pg3 = colliding_pass cx pg2
      in fold (waiting_step cx) (pg_waiting pg3) pg3)"

text \<open>The results by item, the effects to announce, and the database afterwards.\<close>

definition process_items ::
    "apply_ctx \<Rightarrow> work_item list \<Rightarrow> node_db \<Rightarrow> (string + (nat \<times> item_result) list \<times> effect list) \<times> node_db" where
  "process_items cx items db =
     (let any_set_aside = list_ex (\<lambda>i. w_deferral i \<noteq> None) items \<or> set_aside db \<noteq> [];
          sorted_items = process_order items;
          careful = (\<lambda>db1. let pg = careful_path cx sorted_items db1
                          in (Inr (pg_results pg, pg_effects pg),
                              if any_set_aside then clear_settled items (pg_results pg) (pg_db pg) else pg_db pg))
      in if sorted_items \<noteq> [] \<and> \<not> list_ex (\<lambda>i. w_deferral i \<noteq> None) sorted_items
         then (case apply_package (cx_env cx) sorted_items db of
                 (Inl err, db1) \<Rightarrow> (Inl err, db1)
               | (Inr (Some (results, effs)), db1) \<Rightarrow>
                   (Inr (results, effs), if any_set_aside then clear_settled items results db1 else db1)
               | (Inr None, db1) \<Rightarrow> careful db1)
         else careful db)"

record wire_batch =
  wb_table :: string
  wb_cols :: "string list"
  wb_items :: "wire_item list"

text \<open>Every item of a push gets a slot, \<open>R\<close> until something better is known.\<close>

fun build_slots ::
    "apply_ctx \<Rightarrow> string \<Rightarrow> nat \<Rightarrow> (table_info option \<times> string list \<times> wire_item) list \<Rightarrow> work_item list" where
  "build_slots cx peer n [] = []"
| "build_slots cx peer n ((t, cols, w) # ws) =
     (let rest = build_slots cx peer (Suc n) ws in
      case t of
        None \<Rightarrow> rest
      | Some ti \<Rightarrow>
          (case build_work_item (cx_pr cx) (cx_host cx) n ti cols w peer of
             Inl _ \<Rightarrow> rest
           | Inr item \<Rightarrow> item\<lparr>w_slot := Some n\<rparr> # rest))"

definition push_entries :: "apply_ctx \<Rightarrow> wire_batch list \<Rightarrow> (table_info option \<times> string list \<times> wire_item) list" where
  "push_entries cx batches =
     concat (map (\<lambda>b. let t = (case cx_catalog cx of None \<Rightarrow> None | Some cat \<Rightarrow> find_table cat (wb_table b))
                      in map (\<lambda>w. (t, wb_cols b, w)) (wb_items b)) batches)"

definition fill_slots :: "work_item list \<Rightarrow> (nat \<times> item_result) list \<Rightarrow> item_result list \<Rightarrow> item_result list" where
  "fill_slots items results slots =
     fold (\<lambda>(w, r) s. case find (\<lambda>i. wid i = w) items of
              Some i \<Rightarrow> (case w_slot i of Some n \<Rightarrow> s[n := r] | None \<Rightarrow> s)
            | None \<Rightarrow> s) results slots"

definition apply_push ::
    "apply_ctx \<Rightarrow> string \<Rightarrow> wire_batch list \<Rightarrow> node_db \<Rightarrow> (string + item_result list \<times> nat) \<times> node_db" where
  "apply_push cx peer batches db =
     (let entries = push_entries cx batches;
          items = build_slots cx peer 0 entries
      in case process_items cx items db of
           (Inl err, db') \<Rightarrow> (Inl err, db')
         | (Inr (results, effs), db') \<Rightarrow>
             (Inr (fill_slots items results (replicate (length entries) R),
                   length (filter (\<lambda>(w, r). r = A) results)), db'))"

section \<open>Offers and retries\<close>

record offer_item =
  of_table :: string
  of_hash :: string
  of_version :: row_version
  of_deleted :: bool

text \<open>
  The versions of the offered rows are read once, in chunks, before any is compared; a row whose table is
  not replicated here is never wanted.
\<close>

definition wanted_from_offer :: "apply_ctx \<Rightarrow> offer_item list \<Rightarrow> node_db \<Rightarrow> nat list" where
  "wanted_from_offer cx items db =
     (let replicated = (\<lambda>t. case cx_catalog cx of None \<Rightarrow> False | Some cat \<Rightarrow> find_table cat t \<noteq> None)
      in map fst (filter (\<lambda>(n, it). replicated (of_table it) \<and>
                     is_newer (of_version it) (local_version db (of_table it, of_hash it)))
           (enumerate 0 items)))"

text \<open>A stored change is rebuilt, dropped when it cannot be or is too old, or tried again.\<close>

definition drop_deferred :: "row_id \<Rightarrow> node_db \<Rightarrow> node_db" where
  "drop_deferred rid db = db\<lparr>set_aside := filter (\<lambda>(r, e). r \<noteq> rid) (set_aside db)\<rparr>"

definition rebuild_one :: "apply_ctx \<Rightarrow> catalog \<Rightarrow> nat \<Rightarrow> row_id \<Rightarrow> deferred_entry \<Rightarrow> work_item option" where
  "rebuild_one cx cat n rid e =
     (let built = (case find_table cat (fst rid) of
                     None \<Rightarrow> Inl ''table is not replicated''
                   | Some t \<Rightarrow> build_work_item (cx_pr cx) (cx_host cx) n t (de_cols e) (de_item e) (de_from e));
          expired = cx_now cx - de_first_seen e > cx_max_age cx
      in case built of
           Inl _ \<Rightarrow> None
         | Inr item \<Rightarrow>
             if expired \<and> de_reason e \<noteq> ''unique'' then None
             else Some (item\<lparr>w_deferral := Some \<lparr>df_attempts = de_attempts e, df_first_seen = de_first_seen e\<rparr>\<rparr>))"

fun rebuild_deferred ::
    "apply_ctx \<Rightarrow> catalog \<Rightarrow> nat \<Rightarrow> (row_id \<times> deferred_entry) list \<Rightarrow> node_db \<Rightarrow> work_item list \<times> node_db" where
  "rebuild_deferred cx cat n [] db = ([], db)"
| "rebuild_deferred cx cat n ((rid, e) # es) db =
     (case rebuild_one cx cat n rid e of
        None \<Rightarrow> rebuild_deferred cx cat (Suc n) es (drop_deferred rid db)
      | Some item \<Rightarrow> let (items, db') = rebuild_deferred cx cat (Suc n) es db in (item # items, db'))"

definition retry_deferred :: "apply_ctx \<Rightarrow> nat \<Rightarrow> node_db \<Rightarrow> (string + nat) \<times> node_db" where
  "retry_deferred cx limit db =
     (case cx_catalog cx of
        None \<Rightarrow> (Inr 0, db)
      | Some cat \<Rightarrow>
          (let due = take limit (sort_key (\<lambda>(rid, e). de_last_tried e) (set_aside db))
           in if due = [] then (Inr 0, db)
              else let (items, db1) = rebuild_deferred cx cat 0 due db
                   in case process_items cx items db1 of
                        (Inl err, db2) \<Rightarrow> (Inl err, db2)
                      | (Inr (results, effs), db2) \<Rightarrow> (Inr (length (filter (\<lambda>(w, r). r = A) results)), db2)))"

end
