(* ===== verification/Sample.thy ===== *)
theory Sample
  imports Applier
begin

text \<open>
  A small concrete node for the witnesses: a table with a text key, a position that is unique and a title, a
  database that compares values exactly and reports no errors, and a hash that is the identity.
\<close>

definition sample_env :: sql_env where
  "sample_env = \<lparr>same_value = (=), key_matches = (\<lambda>v k. v = JStr k),
     sql_text = (\<lambda>v. case v of JStr s \<Rightarrow> s | _ \<Rightarrow> []),
     on_delete = (\<lambda>_ _ rs. rs), stmt_error = (\<lambda>_ _. None)\<rparr>"

definition sample_primitives :: primitives where
  "sample_primitives = \<lparr>sha256_of = (\<lambda>b. b), hmac_sha256 = (\<lambda>k d. d), hkdf_sha256 = (\<lambda>i s n l. i),
     scrypt_of = (\<lambda>p s n. p), nfkc = (\<lambda>s. s), gcm_seal = (\<lambda>k n a p. (p, replicate 16 0)),
     gcm_open = (\<lambda>k n a b t. if t = replicate 16 0 then Some b else None), x25519 = (\<lambda>a b. b)\<rparr>"

definition sample_host :: js_host where
  "sample_host = \<lparr>host_date_parse = (\<lambda>_. None), host_date_text = (\<lambda>_. []),
     host_number_parse = (\<lambda>_. None), host_number_text = (\<lambda>_. [])\<rparr>"

definition sample_table :: table_info where
  "sample_table = \<lparr>tname = ''t'', columns = [\<lparr>col_name = ''id'', data_type = ''varchar''\<rparr>,
       \<lparr>col_name = ''pos'', data_type = ''varchar''\<rparr>],
     pk = [''id''], codec = [\<lparr>cc_name = ''id'', cc_kind = KString\<rparr>, \<lparr>cc_name = ''pos'', cc_kind = KString\<rparr>],
     uniques = [\<lparr>ui_name = ''u'', ui_columns = [''pos'']\<rparr>], table_rank = 0, created_at_column = None,
     fk_columns = [], max_length = [(''pos'', 40)]\<rparr>"

definition sample_ctx :: apply_ctx where
  "sample_ctx = \<lparr>cx_env = sample_env, cx_pr = sample_primitives, cx_host = sample_host, cx_rnd = (\<lambda>_ _. 0),
     cx_self = ''n1'', cx_now = 0, cx_max_age = 1000, cx_peers = [],
     cx_catalog = Some \<lparr>tables = [sample_table], ordered = [sample_table], fingerprint = []\<rparr>\<rparr>"

definition sample_db :: node_db where
  "sample_db = \<lparr>rows = [], registry = [], set_aside = [], next_seq = 1, clock = 0, tick = 0\<rparr>"

definition sample_change :: "string \<Rightarrow> string \<Rightarrow> int \<Rightarrow> wire_item" where
  "sample_change k p v = \<lparr>wi_h = compute_pk_hash sample_primitives [k], wi_k = [k], wi_v = v, wi_o = ''n2'',
     wi_d = False, wi_r = Some [WStr k, WStr p]\<rparr>"

definition sample_push :: "wire_item list \<Rightarrow> wire_batch list" where
  "sample_push items = [\<lparr>wb_table = ''t'', wb_cols = [''id'', ''pos''], wb_items = items\<rparr>]"

text \<open>Work items made of the changes above, numbered in the order they came.\<close>

definition sample_items :: "wire_item list \<Rightarrow> work_item list" where
  "sample_items ws = build_slots sample_ctx ''n2'' 0 (push_entries sample_ctx (sample_push ws))"

text \<open>The same table with a second unique index, on a foreign key: no column of it can be parked.\<close>

definition sample_two_indexes :: table_info where
  "sample_two_indexes = sample_table\<lparr>columns := columns sample_table @ [\<lparr>col_name = ''ref'', data_type = ''varchar''\<rparr>],
     codec := codec sample_table @ [\<lparr>cc_name = ''ref'', cc_kind = KString\<rparr>],
     uniques := uniques sample_table @ [\<lparr>ui_name = ''r'', ui_columns = [''ref'']\<rparr>],
     fk_columns := [''ref'']\<rparr>"

definition sample_swap :: "nat \<Rightarrow> string \<Rightarrow> string \<Rightarrow> string \<Rightarrow> work_item" where
  "sample_swap n k p r = \<lparr>wid = n, w_table = sample_two_indexes, w_hash = k, w_key = [k],
     w_version = \<lparr>version = 9, origin = ''n2''\<rparr>, w_deleted = False,
     w_values = Some [JStr k, JStr p, JStr r], w_from = ''n2'', w_cols = [''id'', ''pos'', ''ref''],
     w_wire = sample_change k p 9, w_deferral = None, w_slot = Some n\<rparr>"

definition sample_rows_db :: node_db where
  "sample_rows_db = sample_db\<lparr>rows := [(''t'', [JStr ''a'', JStr ''1'', JStr ''p'']), (''t'', [JStr ''b'', JStr ''2'', JStr ''q''])]\<rparr>"

end
