(* ===== verification/Core_Theorems.thy ===== *)
theory Core_Theorems
  imports Framing Health Rollout Sample
begin

text \<open>
  The properties of the parts of the cluster that need no database: the wire form of rows, the framing of
  calls, the channel's transcripts, frames and replay window, the ownership of work, and the rollout.
\<close>

section \<open>The wire form of rows\<close>

text \<open>C25: A row whose values have the types the database driver hands out for its columns (dates with a
  four-digit year, 64-bit integers, binary data, text, numbers, NULL) is encoded without an error, and the
  receiver decodes exactly the values that were sent, column by column.\<close>

theorem row_round_trip:
  assumes "\<And>c. c \<in> set cols \<Longrightarrow> \<exists>v. row (cc_name c) = Some v \<and> well_typed (cc_kind c) v"
  shows "\<exists>ws. encode_row h cols row = Inr ws \<and>
    decode_row h cols ws = Inr (map (\<lambda>c. the (row (cc_name c))) cols)"
  using assms by (rule decode_encode_row)

lemma row_round_trip_witness:
  "\<exists>ws. encode_row sample_host [\<lparr>cc_name = ''n'', cc_kind = KBigint\<rparr>, \<lparr>cc_name = ''d'', cc_kind = KDate\<rparr>]
      [''n'' \<mapsto> JBig (- 9007199254740993), ''d'' \<mapsto> JDate (Some 86400000)] = Inr ws \<and>
    decode_row sample_host [\<lparr>cc_name = ''n'', cc_kind = KBigint\<rparr>, \<lparr>cc_name = ''d'', cc_kind = KDate\<rparr>] ws =
      Inr [JBig (- 9007199254740993), JDate (Some 86400000)]"
proof -
  let ?cols = "[\<lparr>cc_name = ''n'', cc_kind = KBigint\<rparr>, \<lparr>cc_name = ''d'', cc_kind = KDate\<rparr>]"
  let ?row = "[''n'' \<mapsto> JBig (- 9007199254740993), ''d'' \<mapsto> JDate (Some 86400000)]"
  have year: "four_digit_year 86400000" by code_simp
  have "\<exists>v. ?row (cc_name c) = Some v \<and> well_typed (cc_kind c) v" if "c \<in> set ?cols" for c
    using that by (auto simp: well_typed_def year)
  from row_round_trip [of ?cols ?row, OF this] show ?thesis by simp
qed

section \<open>Framing\<close>

text \<open>Whatever the compressor does, as long as decompressing undoes it within the limit, a payload that is
  packed and unpacked is the payload that was packed, and the packed size is one of the fixed steps (powers of
  two from 1 KiB to 64 KiB, then multiples of 64 KiB).\<close>

theorem payload_round_trip:
  assumes "pack_payload compress plaintext = Inr packed" "length plaintext \<le> max_bytes"
    and "decompress (compress plaintext) max_bytes = Inr plaintext"
  shows "unpack_payload decompress packed max_bytes = Inr plaintext \<and> is_step (length packed)"
  using unpack_pack_lemma [of compress plaintext packed max_bytes decompress] length_pack_payload [OF assms(1)]
    padded_size_is_step assms by auto

lemma payload_round_trip_witness:
  "\<exists>packed. pack_payload (\<lambda>b. b) [1, 2] = Inr packed \<and>
    unpack_payload (\<lambda>b m. Inr b) packed 10 = Inr [1, 2] \<and> is_step (length packed)"
proof -
  obtain packed where packed: "pack_payload (\<lambda>b. b) [1, 2] = Inr packed"
    by (simp add: pack_payload_def Let_def)
  from payload_round_trip [OF packed, of 10 "\<lambda>b m. Inr b"] packed show ?thesis by auto
qed

text \<open>The padded size is the smallest step that fits, so a package is never larger than it must be and two
  contents between the same two steps look alike.\<close>

theorem padding_is_least_step:
  "is_step (padded_size bytes) \<and> bytes \<le> padded_size bytes \<and>
    (\<forall>n. is_step n \<longrightarrow> bytes \<le> n \<longrightarrow> padded_size bytes \<le> n)"
  using padded_size_is_step padded_size_ge padded_size_least by blast

lemma padding_is_least_step_witness: "padded_size 1500 \<le> 2048"
  using padding_is_least_step [of 1500] by (simp add: is_step_def)

text \<open>Whatever a peer sends, what unpacking hands out stays within the limit, provided decompression
  honours its own limit; a package with a wrong length or an unknown encoding is refused.\<close>

theorem unpacking_is_bounded:
  assumes "\<And>body out. decompress body max_bytes = Inr out \<Longrightarrow> length out \<le> max_bytes"
    and "unpack_payload decompress packed max_bytes = Inr out"
  shows "length out \<le> max_bytes \<and> 5 \<le> length packed \<and>
    be_value (take 4 (drop 1 packed)) \<le> length packed - 5 \<and> unat (hd packed) \<in> {0, 1}"
proof (intro conjI)
  show "length out \<le> max_bytes" using assms by (rule unpack_bounded_lemma)
  show long: "5 \<le> length packed"
    using assms(2) by (cases "length packed < 5") (simp_all add: unpack_payload_def header_bytes_def)
  show "be_value (take 4 (drop 1 packed)) \<le> length packed - 5"
    using assms(2) long by (cases "length packed - 5 < be_value (take 4 (drop 1 packed))")
      (simp_all add: unpack_payload_def header_bytes_def)
  show "unat (hd packed) \<in> {0, 1}"
    using assms(2) by (simp add: unpack_payload_def Let_def codec_raw_def codec_brotli_def split: if_splits)
qed

lemma unpacking_is_bounded_witness:
  "unpack_payload (\<lambda>b m. Inl ''none'') [0, 0, 0, 0, 1, 7] 10 = Inr [7] \<and> length [7 :: byte] \<le> 10"
proof -
  have run: "unpack_payload (\<lambda>b m. Inl ''none'') [0, 0, 0, 0, 1, 7] 10 = Inr [7]"
    by (simp add: unpack_payload_def framing_consts)
  from unpacking_is_bounded [OF _ run] run show ?thesis by simp
qed

section \<open>The channel\<close>

text \<open>What the handshakes authenticate is unambiguous: two pairing requests with the same transcript are the
  same request in every field, certificate pins included, and so are two session requests; no pairing
  transcript is a session transcript.\<close>

theorem transcripts_unambiguous:
  "(pair_init_transcript i = Inr b \<and> pair_init_transcript j = Inr b \<longrightarrow> i = j) \<and>
   (session_init_transcript s = Inr b \<and> session_init_transcript t = Inr b \<longrightarrow> s = t) \<and>
   \<not> (pair_init_transcript i = Inr b \<and> session_init_transcript s = Inr b)"
proof (intro conjI impI notI)
  assume "pair_init_transcript i = Inr b \<and> pair_init_transcript j = Inr b"
  then have "pair_init_fields i = pair_init_fields j"
    unfolding pair_init_transcript_def by (elim conjE) (rule encode_fields_inject)
  then show "i = j" by (rule pair_init_fields_inject)
next
  assume "session_init_transcript s = Inr b \<and> session_init_transcript t = Inr b"
  then have "session_init_fields s = session_init_fields t"
    unfolding session_init_transcript_def by (elim conjE) (rule encode_fields_inject)
  then show "s = t" by (rule session_init_fields_inject)
next
  assume "pair_init_transcript i = Inr b \<and> session_init_transcript s = Inr b"
  then have "pair_init_fields i = session_init_fields s"
    unfolding pair_init_transcript_def session_init_transcript_def by (elim conjE) (rule encode_fields_inject)
  then have "hd (pair_init_fields i) = hd (session_init_fields s)" by simp
  then have "utf8 ''pair-init'' = utf8 ''session-init''"
    unfolding pair_init_fields_def session_init_fields_def append_Cons list.sel .
  then show False by simp
qed

definition sample_session :: session_init where
  "sample_session = \<lparr>si_from = ''n1'', si_to = ''n2'', si_e = [1], si_n = [2], si_tls = None\<rparr>"

lemma transcripts_unambiguous_witness:
  "\<exists>b. session_init_transcript sample_session = Inr b \<and>
    session_init_transcript (sample_session\<lparr>si_to := ''n3''\<rparr>) \<noteq> Inr b"
proof -
  have "\<exists>b. session_init_transcript sample_session = Inr b"
    by (simp add: session_init_transcript_def session_init_fields_def sample_session_def binding_fields_def
        handshake_version_def protocol_version_def dec_string.simps)
  then obtain b where b: "session_init_transcript sample_session = Inr b" ..
  have "sample_session \<noteq> sample_session\<lparr>si_to := ''n3''\<rparr>" by (simp add: sample_session_def)
  then have "session_init_transcript (sample_session\<lparr>si_to := ''n3''\<rparr>) \<noteq> Inr b"
    using b transcripts_unambiguous [of undefined b undefined sample_session "sample_session\<lparr>si_to := ''n3''\<rparr>"] by auto
  with b show ?thesis by (intro exI conjI)
qed

lemma sample_gcm_laws: "gcm_laws sample_primitives"
  by (auto simp: gcm_laws_def sample_primitives_def)

text \<open>
  What the tag of GCM is for, stated of one sealed frame: its body and tag open under one nonce and one
  associated data only.
\<close>

definition authenticated :: "primitives \<Rightarrow> buffer \<Rightarrow> buffer \<Rightarrow> bool" where
  "authenticated pr key sealed \<longleftrightarrow>
     (let body = take (length sealed - tag_bytes) sealed; tag = drop (length sealed - tag_bytes) sealed
      in \<forall>n a p n' a' p'. gcm_open pr key n a body tag = Some p \<longrightarrow> gcm_open pr key n' a' body tag = Some p' \<longrightarrow>
           n = n' \<and> a = a')"

lemma open_frame_opens:
  assumes "open_frame pr key d sid c sealed = Inr p"
  obtains n a where "frame_aad d sid c = Inr a"
    "gcm_open pr key n a (take (length sealed - tag_bytes) sealed) (drop (length sealed - tag_bytes) sealed) = Some p"
  using assms by (auto simp: open_frame_def split: if_splits option.splits elim!: and_then_InrE)

text \<open>C23: A frame opens exactly when it is what the holder of the key sealed for this session, this direction
  and this counter, and then it gives the plaintext that was sealed; and a frame whose tag authenticates its
  nonce and its associated data opens in no other direction, no other session and with no other counter.\<close>

theorem frame_opens_iff_sealed:
  assumes "gcm_laws pr"
  shows "(open_frame pr key d sid c sealed = Inr p \<longleftrightarrow> seal_frame pr key d sid c p = Inr sealed) \<and>
    (authenticated pr key sealed \<longrightarrow> seal_frame pr key d sid c p = Inr sealed \<longrightarrow>
       open_frame pr key d' sid' c' sealed = Inr p' \<longrightarrow> d' = d \<and> sid' = sid \<and> c' = c \<and> p' = p)"
proof -
  have opens: "open_frame pr key d sid c sealed = Inr p \<longleftrightarrow> seal_frame pr key d sid c p = Inr sealed" for d sid c p
    using assms by (rule open_frame_iff_lemma)
  have "d' = d \<and> sid' = sid \<and> c' = c \<and> p' = p"
    if auth: "authenticated pr key sealed" and sealed: "seal_frame pr key d sid c p = Inr sealed"
      and other: "open_frame pr key d' sid' c' sealed = Inr p'"
  proof -
    from sealed have first: "open_frame pr key d sid c sealed = Inr p" by (simp only: opens)
    from first obtain n a where a: "frame_aad d sid c = Inr a"
      "gcm_open pr key n a (take (length sealed - tag_bytes) sealed) (drop (length sealed - tag_bytes) sealed) = Some p"
      by (rule open_frame_opens)
    from other obtain n' a' where a': "frame_aad d' sid' c' = Inr a'"
      "gcm_open pr key n' a' (take (length sealed - tag_bytes) sealed) (drop (length sealed - tag_bytes) sealed) = Some p'"
      by (rule open_frame_opens)
    from auth a(2) a'(2) have "a = a'" unfolding authenticated_def Let_def by blast
    with frame_aad_inject a(1) a'(1) have "d' = d \<and> sid' = sid \<and> c' = c" by blast
    with first other show ?thesis by simp
  qed
  with opens show ?thesis by blast
qed

text \<open>A sealing that keeps nonce and associated data with the text.\<close>

definition sealed_header :: "buffer \<Rightarrow> buffer \<Rightarrow> buffer" where
  "sealed_header n a = replicate (length n) 0 @ 1 # replicate (length a) 0 @ 1 # n @ a"

definition binding_primitives :: primitives where
  "binding_primitives = sample_primitives\<lparr>
     gcm_seal := (\<lambda>k n a p. (sealed_header n a @ p, replicate 16 0)),
     gcm_open := (\<lambda>k n a b t. if t = replicate 16 0 \<and> take (length (sealed_header n a)) b = sealed_header n a
       then Some (drop (length (sealed_header n a)) b) else None)\<rparr>"

lemma zeros_then_one:
  "replicate m 0 @ 1 # xs = replicate n (0 :: 'a :: zero_neq_one) @ 1 # ys \<longleftrightarrow> m = n \<and> xs = ys"
proof (induction m arbitrary: n)
  case 0
  then show ?case by (cases n) auto
next
  case (Suc m)
  then show ?case by (cases n) auto
qed

lemma sealed_header_inject: "sealed_header n a @ p = sealed_header n' a' @ p' \<Longrightarrow> n = n' \<and> a = a'"
  by (auto simp: sealed_header_def zeros_then_one)

lemma split_header: "take (length h) b = h \<Longrightarrow> h @ drop (length h) b = b"
  by (metis append_take_drop_id)

lemma binding_gcm_laws: "gcm_laws binding_primitives"
  by (auto simp: gcm_laws_def binding_primitives_def split_header)

lemma one_header:
  assumes "take (length (sealed_header n a)) b = sealed_header n a" "take (length (sealed_header n' a')) b = sealed_header n' a'"
  shows "n = n' \<and> a = a'"
proof -
  have "sealed_header n a @ drop (length (sealed_header n a)) b = sealed_header n' a' @ drop (length (sealed_header n' a')) b"
    by (simp only: split_header [OF assms(1)] split_header [OF assms(2)])
  then show ?thesis by (rule sealed_header_inject)
qed

lemma binding_opened:
  "gcm_open binding_primitives k n a b t = Some p \<Longrightarrow> take (length (sealed_header n a)) b = sealed_header n a"
  by (simp add: binding_primitives_def split: if_splits)

lemma binding_authenticated: "authenticated binding_primitives key sealed"
  unfolding authenticated_def Let_def by (intro allI impI) (rule one_header [OF binding_opened binding_opened])

lemma frame_opens_iff_sealed_witness:
  "\<exists>sealed. open_frame binding_primitives [] C2S [9] 4 sealed = Inr [7] \<and>
     open_frame binding_primitives [] S2C [9] 4 sealed \<noteq> Inr [7]"
proof -
  have "\<exists>sealed. seal_frame binding_primitives [] C2S [9] 4 [7] = Inr sealed"
    by (simp add: seal_frame_def frame_nonce_def frame_aad_def counter_bytes_def label_def split: prod.splits)
  then obtain sealed where sealed: "seal_frame binding_primitives [] C2S [9] 4 [7] = Inr sealed" ..
  have "open_frame binding_primitives [] C2S [9] 4 sealed = Inr [7]"
    using sealed frame_opens_iff_sealed [OF binding_gcm_laws] by blast
  moreover have "open_frame binding_primitives [] S2C [9] 4 sealed \<noteq> Inr [7]"
    using sealed frame_opens_iff_sealed [OF binding_gcm_laws] binding_authenticated by blast
  ultimately show ?thesis by blast
qed

text \<open>No two frames of a session share an encryption nonce, and what is authenticated along with a frame
  names its direction, session and counter: equal nonces mean equal counters, equal associated data mean equal
  direction, session and counter.\<close>

theorem frame_contexts_distinct:
  "(frame_nonce c = Inr n \<and> frame_nonce c' = Inr n \<longrightarrow> c = c') \<and>
   (frame_aad d sid c = Inr a \<and> frame_aad d' sid' c' = Inr a \<longrightarrow> d = d' \<and> sid = sid' \<and> c = c')"
proof (intro conjI impI)
  assume "frame_nonce c = Inr n \<and> frame_nonce c' = Inr n"
  then obtain b b' where "counter_bytes c = Inr b" "counter_bytes c' = Inr b'" "b = b'"
    unfolding frame_nonce_def by (auto elim!: and_then_InrE)
  then show "c = c'" using counter_bytes_inject by blast
qed (use frame_aad_inject in blast)+

lemma frame_contexts_distinct_witness: "frame_nonce 1 \<noteq> frame_nonce 2"
proof -
  have "\<exists>n. frame_nonce 1 = Inr n" by (simp add: frame_nonce_def counter_bytes_def)
  with frame_contexts_distinct [of 1 _ 2] show ?thesis by force
qed

text \<open>A request that is encoded arrives as it was sent: session id, counter and sealed content.\<close>

theorem request_round_trip:
  assumes "encode_request sid c sealed = Inr body" "length sid = 16" "16 \<le> length sealed"
  shows "decode_request body = Some \<lparr>req_sid = sid, req_counter = c, req_sealed = sealed\<rparr>"
  using assms by (rule decode_encode_request_lemma)

lemma request_round_trip_witness:
  "\<exists>body. encode_request (replicate 16 1) 5 (replicate 16 2) = Inr body \<and>
    decode_request body = Some \<lparr>req_sid = replicate 16 1, req_counter = 5, req_sealed = replicate 16 2\<rparr>"
proof -
  obtain body where body: "encode_request (replicate 16 1) 5 (replicate 16 2) = Inr body"
    by (simp add: encode_request_def counter_bytes_def)
  from request_round_trip [OF body] body show ?thesis by simp
qed

text \<open>C22: Over any sequence of counters the replay window answers as the contract over the whole history does:
  a counter passes exactly when it is not negative, was never accepted before, and lies inside the window below
  the largest accepted one; no counter passes twice; and the window never keeps more than twice its size.\<close>

theorem replay_window_refines_history:
  assumes "0 < n"
  shows "fst (accept_all (new_window n) cs) = fresh_all n {} cs \<and>
    int (length (seen (snd (accept_all (new_window n) cs)))) \<le> 2 * n \<and>
    (\<forall>i j. i < j \<longrightarrow> j < length cs \<longrightarrow> cs ! i = cs ! j \<longrightarrow>
      \<not> (fst (accept_all (new_window n) cs) ! i \<and> fst (accept_all (new_window n) cs) ! j))"
proof -
  from accept_all_fresh [OF window_abs_new [OF assms], of cs]
  have fresh: "fst (accept_all (new_window n) cs) = fresh_all n {} cs"
    and size: "int (length (seen (snd (accept_all (new_window n) cs)))) \<le> 2 * n"
    by (simp_all add: new_window_def)
  have "\<not> (fresh_all n {} cs ! i \<and> fresh_all n {} cs ! j)" if "i < j" "j < length cs" "cs ! i = cs ! j" for i j
    using fresh_all_once2 [OF that] by auto
  with fresh size show ?thesis by simp
qed

lemma replay_window_refines_history_witness:
  "fst (accept_all (new_window 2) [5, 4, 5, 2, 9]) = fresh_all 2 {} [5, 4, 5, 2, 9]"
  using replay_window_refines_history [of 2 "[5, 4, 5, 2, 9]"] by simp

text \<open>A secret that is wrapped for a context can be unwrapped with the same key and context.\<close>

theorem secret_round_trip:
  assumes "gcm_laws pr" "length nonce = 12"
  shows "unwrap_secret pr kek (wrap_secret pr nonce kek p ctx) ctx = Inr p"
  using assms by (rule unwrap_wrap_lemma)

lemma secret_round_trip_witness:
  "unwrap_secret sample_primitives [1] (wrap_secret sample_primitives (replicate 12 3) [1] [4, 5] ''c'') ''c'' = Inr [4, 5]"
  by (rule secret_round_trip [OF sample_gcm_laws]) simp

section \<open>Work, clocks and updates\<close>

text \<open>Every piece of work has one owner, and every node names the same one: the owner is a reachable node,
  depends only on which nodes are reachable (not on the order they are listed in), and when a node that does
  not own a piece of work goes away the owner stays.\<close>

theorem work_has_one_owner:
  assumes "xs \<noteq> []"
  shows "\<exists>z \<in> set xs. rendezvous_owner pr key xs = Some z \<and>
    (\<forall>ys. set ys = set xs \<longrightarrow> rendezvous_owner pr key ys = Some z) \<and>
    (\<forall>x. x \<noteq> z \<longrightarrow> rendezvous_owner pr key (filter (\<lambda>y. y \<noteq> x) xs) = Some z)"
proof -
  from owner_exists [OF assms] obtain z where z: "rendezvous_owner pr key xs = Some z" by blast
  moreover from z have "z \<in> set xs" by (rule owner_member)
  moreover have "rendezvous_owner pr key ys = Some z" if "set ys = set xs" for ys
    using owner_same_view [OF that] z by simp
  moreover have "rendezvous_owner pr key (filter (\<lambda>y. y \<noteq> x) xs) = Some z" if "x \<noteq> z" for x
    using owner_remove [of pr key xs x] z that by simp
  ultimately show ?thesis by blast
qed

lemma work_has_one_owner_witness:
  "rendezvous_owner sample_primitives ''job'' [''a'', ''b''] = rendezvous_owner sample_primitives ''job'' [''b'', ''a'']"
proof -
  have "set [''b'', ''a''] = set [''a'', ''b'']" by auto
  with work_has_one_owner [of "[''a'', ''b'']" sample_primitives "''job''"] show ?thesis by fastforce
qed

text \<open>The estimate of how far a peer's clock is ahead errs by at most half the round trip (rounded up),
  whenever within it the peer read its clock.\<close>

theorem skew_within_half_round_trip:
  assumes "sent_at \<le> asked_at" "asked_at \<le> received_at"
  shows "\<bar>estimate_skew_ms sent_at received_at (asked_at + skew) - skew\<bar> \<le> (received_at - sent_at + 1) div 2"
  using assms by (rule estimate_skew_error)

lemma skew_within_half_round_trip_witness: "\<bar>estimate_skew_ms 100 150 (110 + 5000) - 5000\<bar> \<le> 25"
  using skew_within_half_round_trip [of 100 110 150 5000] by simp

text \<open>The more heartbeats in a row fail, the worse a peer's health; one success makes it online; and no peer
  is taken for offline that was not suspect before.\<close>

theorem failure_detection_is_gradual:
  assumes "0 < suspect_after t"
  shows "health_after 0 t = ONLINE \<and>
    (\<forall>m n. m \<le> n \<longrightarrow> severity (health_after m t) \<le> severity (health_after n t)) \<and>
    (\<forall>n. health_after n t = OFFLINE \<longrightarrow> (\<exists>m. 0 < m \<and> m < n \<and> health_after m t = SUSPECT))"
  using health_after_mono offline_after_suspect [OF _ assms] by (auto simp: health_after_def)

lemma failure_detection_is_gradual_witness:
  "\<exists>m. 0 < m \<and> m < 6 \<and> health_after m \<lparr>suspect_after = 2, offline_after = 5\<rparr> = SUSPECT"
proof -
  have "health_after 6 \<lparr>suspect_after = 2, offline_after = 5\<rparr> = OFFLINE" by (simp add: health_after_def)
  with failure_detection_is_gradual [of "\<lparr>suspect_after = 2, offline_after = 5\<rparr>"] show ?thesis by simp
qed

definition sample_node :: "string \<Rightarrow> string \<Rightarrow> rollout_node" where
  "sample_node i c = \<lparr>node_id = i, node_name = [], node_commit = c, self_updating = True, node_online = True,
     offline_for = 0, node_failed = None, node_updating = False\<rparr>"

text \<open>C20: Of all the nodes that know the same of each other (in whatever order) and know themselves to be online,
  at most one decides to update now.\<close>

theorem one_node_updates_at_a_time:
  assumes "distinct (map node_id xs)" "distinct (map node_id ys)" "set xs = set ys"
    and "act (decide_rollout pr target a xs skip) = Update" "act (decide_rollout pr target b ys skip) = Update"
    and "\<forall>n \<in> set xs. node_id n \<in> {a, b} \<longrightarrow> node_online n"
  shows "a = b"
  using assms by (rule one_updater_lemma)

lemma one_node_updates_at_a_time_witness:
  "\<not> (act (decide_rollout sample_primitives ''t'' ''a'' [sample_node ''a'' ''x'', sample_node ''b'' ''x''] 5) = Update \<and>
      act (decide_rollout sample_primitives ''t'' ''b'' [sample_node ''b'' ''x'', sample_node ''a'' ''x''] 5) = Update)"
proof
  assume "act (decide_rollout sample_primitives ''t'' ''a'' [sample_node ''a'' ''x'', sample_node ''b'' ''x''] 5) = Update \<and>
      act (decide_rollout sample_primitives ''t'' ''b'' [sample_node ''b'' ''x'', sample_node ''a'' ''x''] 5) = Update"
  then have "''a'' = ''b''"
    by (intro one_node_updates_at_a_time
        [of "[sample_node ''a'' ''x'', sample_node ''b'' ''x'']" "[sample_node ''b'' ''x'', sample_node ''a'' ''x'']"])
      (auto simp: sample_node_def)
  then show False by simp
qed

text \<open>C26: A rollout does not stand still: where no update failed or is under way and some node that is online
  lacks the new version, one of the nodes decides to update.\<close>

theorem rollout_makes_progress:
  assumes "distinct (map node_id nodes)"
    and "\<forall>n \<in> set nodes. node_commit n \<noteq> target \<and> self_updating n \<longrightarrow>
      node_failed n \<noteq> Some target \<and> \<not> node_updating n"
    and "r \<in> set nodes" "node_commit r \<noteq> target" "self_updating r" "node_online r"
  shows "\<exists>n \<in> set nodes. act (decide_rollout pr target (node_id n) nodes skip) = Update"
  using assms by (rule somebody_updates)

lemma rollout_makes_progress_witness:
  "\<exists>n \<in> {sample_node ''a'' ''t'', sample_node ''b'' ''x''}.
     act (decide_rollout sample_primitives ''t'' (node_id n) [sample_node ''a'' ''t'', sample_node ''b'' ''x''] 5) = Update"
  using rollout_makes_progress [of "[sample_node ''a'' ''t'', sample_node ''b'' ''x'']" "''t''" "sample_node ''b'' ''x''"
      sample_primitives 5] by (simp add: sample_node_def)

section \<open>Statements\<close>

text \<open>Every statement that moves a row has as many placeholders as values are bound to it: an insert one per
  column, an update one per non-key column and one per key column, a lookup or deletion one per key column.\<close>

theorem statements_match_their_parameters:
  "(insert_sql t = Inr s \<longrightarrow> placeholders s = length (columns t)) \<and>
   (update_sql t = Inr (Some s) \<longrightarrow> placeholders s = length (non_key_columns t) + length (pk t)) \<and>
   (select_by_pk_sql t b = Inr s \<longrightarrow> placeholders s = length (pk t)) \<and>
   (delete_sql t = Inr s \<longrightarrow> placeholders s = length (pk t))"
  using insert_placeholders update_placeholders select_placeholders delete_placeholders by blast

lemma statements_match_their_parameters_witness:
  "\<exists>s. insert_sql sample_table = Inr s \<and> placeholders s = 2"
proof -
  have "case insert_sql sample_table of Inr _ \<Rightarrow> True | Inl _ \<Rightarrow> False" by code_simp
  then obtain s where s: "insert_sql sample_table = Inr s" by (cases "insert_sql sample_table") auto
  with statements_match_their_parameters [of sample_table s] show ?thesis by (simp add: sample_table_def)
qed

end
