(* ===== verification/Applier_Facts.thy ===== *)
theory Applier_Facts
  imports Applier
begin

text \<open>
  What applying changes does to the registry of versions: no record ever becomes older, every record keeps
  its own place in the feed, and an answer "applied" or "stale" means the node holds the change or a newer one.
\<close>

section \<open>Records only advance\<close>

definition advances :: "node_db \<Rightarrow> node_db \<Rightarrow> bool" where
  "advances db db' \<longleftrightarrow>
     (\<forall>rid. local_version db' rid = local_version db rid \<or>
        (\<exists>v. local_version db' rid = Some v \<and> is_newer v (local_version db rid))) \<and>
     (feed_ok db \<longrightarrow> feed_ok db')"

lemma is_newer_trans: "is_newer v (Some w) \<Longrightarrow> is_newer w l \<Longrightarrow> is_newer v l"
  using lww.newer_trans by (auto simp: is_newer_def split: option.splits)

lemma advances_refl [simp, intro]: "advances db db"
  by (simp add: advances_def)

lemma advances_trans:
  assumes "advances a b" "advances b c"
  shows "advances a c"
proof -
  have "local_version c rid = local_version a rid \<or>
      (\<exists>v. local_version c rid = Some v \<and> is_newer v (local_version a rid))" for rid
  proof -
    have "local_version b rid = local_version a rid \<or>
        (\<exists>v. local_version b rid = Some v \<and> is_newer v (local_version a rid))"
      using assms(1) by (simp only: advances_def)
    moreover have "local_version c rid = local_version b rid \<or>
        (\<exists>v. local_version c rid = Some v \<and> is_newer v (local_version b rid))"
      using assms(2) by (simp only: advances_def)
    ultimately show ?thesis using is_newer_trans by fastforce
  qed
  then show ?thesis using assms unfolding advances_def by blast
qed

lemma advances_same:
  "registry db' = registry db \<Longrightarrow> next_seq db' = next_seq db \<Longrightarrow> advances db db'"
  using feed_ok_cong [of db' db] by (simp add: advances_def local_version_def)

lemma advances_put:
  assumes "advances db0 db" "is_newer v (local_version db0 rid)"
  shows "advances db0 (put_entry rid k v d via db)"
  using assms feed_ok_put by (auto simp: advances_def)

lemma advances_holds:
  assumes "advances db db'" "holds db rid v"
  shows "holds db' rid v"
proof -
  from assms(2) obtain l where l: "local_version db rid = Some l" "\<not> compare_versions v l > 0"
    by (auto simp: holds_def)
  from assms(1) consider "local_version db' rid = Some l"
    | w where "local_version db' rid = Some w" "compare_versions w l > 0"
    using l(1) unfolding advances_def is_newer_def by (metis option.simps(5))
  then show ?thesis
  proof cases
    case 1
    with l(2) show ?thesis by (simp add: holds_def)
  next
    case 2
    with l(2) not_newer_trans [of v l w] show ?thesis by (simp add: holds_def)
  qed
qed

lemma advances_tick [simp]:
  "advances (db\<lparr>tick := n\<rparr>) db' = advances db db'" "advances db (db'\<lparr>tick := n\<rparr>) = advances db db'"
  by (simp_all add: advances_def)

lemma advances_set_aside [simp]: "advances db (db'\<lparr>set_aside := l\<rparr>) = advances db db'"
  by (simp add: advances_def local_version_def feed_ok_def)

section \<open>Row statements leave the registry alone\<close>

definition same_registry :: "node_db \<Rightarrow> node_db \<Rightarrow> bool" where
  "same_registry db db' \<longleftrightarrow> registry db' = registry db \<and> next_seq db' = next_seq db \<and> set_aside db' = set_aside db"

lemma same_registry_refl [simp, intro]: "same_registry db db"
  by (simp add: same_registry_def)

lemma same_registry_trans: "same_registry a b \<Longrightarrow> same_registry b c \<Longrightarrow> same_registry a c"
  by (simp add: same_registry_def)

lemma same_registry_advances: "same_registry db db' \<Longrightarrow> advances db db'"
  by (simp add: same_registry_def advances_same)

lemma same_registry_local: "same_registry db db' \<Longrightarrow> local_version db' = local_version db"
  by (simp add: same_registry_def local_version_def fun_eq_iff)

lemma row_statements:
  "insert_row env t vs db = Inr db' \<Longrightarrow> same_registry db db'"
  "update_row env t k vs db = Inr db' \<Longrightarrow> same_registry db db'"
  "delete_row env t k db = Inr db' \<Longrightarrow> same_registry db db'"
  "park_row env t k c v db = Inr db' \<Longrightarrow> same_registry db db'"
  by (auto simp: insert_row_def update_row_def delete_row_def park_row_def same_registry_def)

lemma write_row_same: "write_row env item present db = Inr db' \<Longrightarrow> same_registry db db'"
  by (auto simp: write_row_def split: option.splits if_splits dest: row_statements)

lemma park_indexes_same: "park_indexes env rnd item n ixs db = Inr (ok, db') \<Longrightarrow> same_registry db db'"
proof (induction ixs arbitrary: n db)
  case (Cons ix ixs)
  then show ?case
    by (auto split: option.splits elim!: and_then_InrE dest!: row_statements(4) intro: same_registry_trans)
qed simp

lemma park_group_same: "park_group env rnd ex n items db = Inr (ok, db') \<Longrightarrow> same_registry db db'"
proof (induction items arbitrary: n db)
  case (Cons item items)
  then show ?case
    by (auto split: if_splits elim!: and_then_InrE dest!: park_indexes_same intro: same_registry_trans)
qed simp

lemma select_for_update_Inr [simp]:
  "select_for_update env nw t k db = Inr r \<longleftrightarrow> stmt_error env db (LockRow nw (tname t) k) = None \<and> r = select_row env t k db"
  by (auto simp: select_for_update_def)

lemma read_version_Inr [simp]:
  "read_version env rid db = Inr v \<longleftrightarrow> stmt_error env db (ReadVersion rid) = None \<and> v = local_version db rid"
  by (auto simp: read_version_def)

lemma write_version_Inr [simp]:
  "write_version env rid k v d via db = Inr db' \<longleftrightarrow>
     stmt_error env db (PutVersion rid v) = None \<and> db' = put_entry rid k v d via db"
  by (auto simp: write_version_def)

lemma write_item_version_Inr [simp]:
  "write_item_version env item d db = Inr db' \<longleftrightarrow>
     stmt_error env db (PutVersion (row_id_of item) (w_version item)) = None \<and>
     db' = put_entry (row_id_of item) (w_key item) (w_version item) d (Some (w_from item)) db"
  by (simp add: write_item_version_def)

lemma abort_on_Inr [simp]: "abort_on r = Inr a \<longleftrightarrow> r = Inr a"
  by (cases r) (auto simp: abort_on_def)

lemma fallback_on_Inr [simp]: "fallback_on r = Inr a \<longleftrightarrow> r = Inr a"
  by (cases r) (auto simp: fallback_on_def)

section \<open>One change\<close>

lemma store_item_Inr:
  "store_item env item existing db = Inr ((out, ef), db') \<longleftrightarrow>
     (\<exists>db1. write_row env item (existing \<noteq> None) db = Inr db1 \<and>
       stmt_error env db1 (PutVersion (row_id_of item) (w_version item)) = None \<and> out = Applied \<and>
       ef = Some (item_effect item existing) \<and>
       db' = put_entry (row_id_of item) (w_key item) (w_version item) (w_deleted item) (Some (w_from item)) db1)"
  unfolding store_item_def by (auto simp: and_then_Inr simp del: not_None_eq)

text \<open>What one attempt does, branch by branch.\<close>

lemma attempt_within_cases:
  assumes "attempt_within env item db = Inr ((out, ef), db')"
  obtains (stale) "out = Stale" "ef = None" "db' = db" "holds db (row_id_of item) (w_version item)"
  | (conflict) ix other where "out = Conflict ix other" "ef = None" "db' = db"
      "seek_collision env item db = Inr (Some (ix, other))"
      "is_newer (w_version item) (local_version db (row_id_of item))"
  | (applied) "seek_collision env item db = Inr None"
      "is_newer (w_version item) (local_version db (row_id_of item))"
      "store_item env item (select_row env (w_table item) (w_key item) db) db = Inr ((out, ef), db')"
proof (cases "is_newer (w_version item) (local_version db (row_id_of item))")
  case False
  with assms show ?thesis
    using stale by (auto simp: attempt_within_def stale_holds elim!: and_then_InrE)
next
  case newer: True
  with assms obtain found where
    found: "seek_collision env item db = Inr found"
    and rest: "(case found of Some (ix, other) \<Rightarrow> Inr ((Conflict ix other, None), db)
       | None \<Rightarrow> store_item env item (select_row env (w_table item) (w_key item) db) db) = Inr ((out, ef), db')"
    unfolding attempt_within_def by (fastforce elim!: and_then_InrE)
  show ?thesis
  proof (cases found)
    case (Some hit)
    obtain ix other where "hit = (ix, other)" by (cases hit)
    with Some found rest newer show ?thesis using conflict [of ix other] by auto
  next
    case None
    with found rest newer show ?thesis using applied by simp
  qed
qed

lemma classify_not_settled:
  "classify_write_error e \<noteq> Applied" "classify_write_error e \<noteq> Stale" "classify_write_error e \<noteq> Conflict ix other"
  by (auto simp: classify_write_error_def split: option.splits)

lemma abort_on_Inl: "abort_on r = Inl (Aborted x) \<Longrightarrow> \<exists>e. x = classify_write_error e"
  by (cases r) (auto simp: abort_on_def)

lemma db_call_not_aborted [simp]: "db_call r \<noteq> Inl (Aborted x)" "db_call r \<noteq> Inl Fallback"
  by (cases r; simp add: db_call_def)+

lemma and_then_Inl: "and_then r k = Inl e \<longleftrightarrow> r = Inl e \<or> (\<exists>a. r = Inr a \<and> k a = Inl e)"
  by (cases r) auto

lemma attempt_within_aborted:
  "attempt_within env item db = Inl (Aborted x) \<Longrightarrow> \<exists>e. x = classify_write_error e"
  by (auto simp: attempt_within_def and_then_Inl seek_collision_def store_item_def
      split: if_splits option.splits dest: abort_on_Inl)

text \<open>An attempt keeps the registry or takes the item's version, and says which.\<close>

lemma attempt_cases:
  assumes "attempt env item db = ((out, ef), db')"
  obtains (kept) n where "db' = db\<lparr>tick := n\<rparr>" "out \<noteq> Applied"
      "out = Stale \<Longrightarrow> holds db (row_id_of item) (w_version item)"
  | (taken) n where "out = Applied" "is_newer (w_version item) (local_version db (row_id_of item))"
      "seek_collision env item db = Inr None"
      "store_item env item (select_row env (w_table item) (w_key item) db) db = Inr ((out, ef), db'\<lparr>tick := n\<rparr>)"
proof -
  obtain r db2 where tx: "apply_tx env (attempt_within env item) 50 db = (r, db2)"
    by (cases "apply_tx env (attempt_within env item) 50 db")
  from tx show ?thesis
  proof (cases rule: apply_tx_cases)
    case (rolled_back e)
    have "\<exists>e. out = classify_write_error e"
    proof (cases e)
      case (Aborted x)
      with tx rolled_back(1) have "attempt_within env item db = Inl (Aborted x)"
        by (auto simp: apply_tx_def Let_def split: option.splits sum.splits prod.splits)
      with assms tx rolled_back Aborted attempt_within_aborted show ?thesis by (auto simp: attempt_def)
    qed (use assms tx rolled_back in \<open>auto simp: attempt_def\<close>)
    moreover have "db' = db2"
      using assms tx rolled_back by (cases e) (auto simp: attempt_def)
    ultimately show ?thesis
      using kept rolled_back classify_not_settled by metis
  next
    case (committed a db1)
    with assms tx have within: "attempt_within env item db = Inr ((out, ef), db1)"
      and db': "db' = db1\<lparr>tick := tick db + 1\<rparr>" by (auto simp: attempt_def)
    from within show ?thesis
    proof (cases rule: attempt_within_cases)
      case stale
      with db' show ?thesis using kept by simp
    next
      case (conflict ix other)
      with db' show ?thesis using kept by simp
    next
      case applied
      then have "out = Applied" by (auto simp: store_item_Inr)
      moreover have "db'\<lparr>tick := tick db1\<rparr> = db1" using db' by simp
      ultimately show ?thesis using applied taken [of "tick db1"] by simp
    qed
  qed
qed

lemma store_item_registry:
  assumes "store_item env item existing db = Inr ((out, ef), db')"
  obtains db1 where "same_registry db db1"
    "db' = put_entry (row_id_of item) (w_key item) (w_version item) (w_deleted item) (Some (w_from item)) db1"
  using assms write_row_same unfolding store_item_Inr by blast

lemma store_item_advances:
  assumes "store_item env item existing db = Inr ((out, ef), db')"
    and "advances db0 db" "is_newer (w_version item) (local_version db0 (row_id_of item))"
  shows "advances db0 db'" "holds db' (row_id_of item) (w_version item)"
proof -
  from assms(1) obtain db1 where db1: "same_registry db db1"
    "db' = put_entry (row_id_of item) (w_key item) (w_version item) (w_deleted item) (Some (w_from item)) db1"
    by (rule store_item_registry)
  have "advances db0 db1" using assms(2) same_registry_advances [OF db1(1)] by (rule advances_trans)
  with db1(2) assms(3) show "advances db0 db'" by (simp add: advances_put)
  show "holds db' (row_id_of item) (w_version item)" unfolding db1(2) by (rule holds_put)
qed

lemma attempt_advances:
  assumes "attempt env item db = ((out, ef), db')"
  shows "advances db db'"
    and "out = Applied \<or> out = Stale \<Longrightarrow> holds db' (row_id_of item) (w_version item)"
  using assms
proof (atomize (full), cases rule: attempt_cases)
  case (kept n)
  then show "advances db db' \<and> (out = Applied \<or> out = Stale \<longrightarrow> holds db' (row_id_of item) (w_version item))"
    by auto
next
  case (taken n)
  from store_item_advances [OF taken(4) advances_refl taken(2)]
  show "advances db db' \<and> (out = Applied \<or> out = Stale \<longrightarrow> holds db' (row_id_of item) (w_version item))"
    by simp
qed

text \<open>Without an error of the database, what is settled is exactly the last-writer-wins merge.\<close>

lemma attempt_merges:
  assumes "attempt env item db = ((out, ef), db')" "out = Applied \<or> out = Stale"
  shows "local_version db' = (local_version db)
    (row_id_of item := lww.merge (w_version item) (local_version db (row_id_of item)))"
  using assms(1)
proof (cases rule: attempt_cases)
  case (kept n)
  with assms(2) have "holds db (row_id_of item) (w_version item)" by auto
  then have "\<not> is_newer (w_version item) (local_version db (row_id_of item))" by (simp add: stale_holds)
  with kept show ?thesis by (simp add: merge_is_newer)
next
  case (taken n)
  from taken(4) obtain db1 where db1: "same_registry db db1" "db'\<lparr>tick := n\<rparr> =
    put_entry (row_id_of item) (w_key item) (w_version item) (w_deleted item) (Some (w_from item)) db1"
    by (rule store_item_registry)
  have "local_version db' = local_version (db'\<lparr>tick := n\<rparr>)" by simp
  also have "\<dots> = (local_version db)(row_id_of item \<mapsto> w_version item)"
    unfolding db1(2) using same_registry_local [OF db1(1)] by simp
  finally show ?thesis using taken(2) by (simp add: merge_is_newer)
qed

section \<open>A package\<close>

definition merge_item :: "work_item \<Rightarrow> (row_id \<Rightarrow> row_version option) \<Rightarrow> row_id \<Rightarrow> row_version option" where
  "merge_item i m = m(row_id_of i := lww.merge (w_version i) (m (row_id_of i)))"

lemma merge_items_at:
  "fold merge_item items m rid = fold lww.merge (map w_version (filter (\<lambda>i. row_id_of i = rid) items)) (m rid)"
  by (induction items arbitrary: m) (auto simp: merge_item_def)

lemma store_item_merges:
  assumes "store_item env item existing db = Inr ((out, ef), db')" "is_newer (w_version item) (local_version db (row_id_of item))"
  shows "local_version db' = merge_item item (local_version db)"
proof -
  from assms(1) obtain db1 where "same_registry db db1"
    "db' = put_entry (row_id_of item) (w_key item) (w_version item) (w_deleted item) (Some (w_from item)) db1"
    by (rule store_item_registry)
  then show ?thesis
    using assms(2) same_registry_local [of db db1] by (simp add: merge_item_def merge_is_newer)
qed

lemma package_items_cases:
  assumes "package_items env ex (item # items) db = Inr ((res, effs), db')"
  obtains (stale) res' where "holds db (row_id_of item) (w_version item)" "res = (wid item, S) # res'"
      "package_items env ex items db = Inr ((res', effs), db')"
  | (applied) old db1 res' effs' out ef where "is_newer (w_version item) (local_version db (row_id_of item))"
      "store_item env item old db = Inr ((out, ef), db1)"
      "res = (wid item, A) # res'" "package_items env ex items db1 = Inr ((res', effs'), db')"
      "effs = item_effect item old # effs'"
proof (cases "is_newer (w_version item) (local_version db (row_id_of item))")
  case False
  with assms show ?thesis using stale by (auto simp: stale_holds elim!: and_then_InrE)
next
  case True
  define old where "old = (case map_of ex (wid item) of None \<Rightarrow> None | Some r \<Rightarrow> r)"
  from assms True obtain db1 db2 where "write_row env item (old \<noteq> None) db = Inr db1"
    "write_item_version env item (w_deleted item) db1 = Inr db2"
    "and_then (package_items env ex items db2) (\<lambda>((res, effs), db').
       Inr (((wid item, A) # res, item_effect item old # effs), db')) = Inr ((res, effs), db')"
    by (auto simp: old_def Let_def split: if_splits elim!: and_then_InrE simp del: not_None_eq write_item_version_Inr)
  moreover then have "store_item env item old db = Inr ((Applied, Some (item_effect item old)), db2)"
    by (auto simp: store_item_Inr simp del: not_None_eq)
  ultimately show ?thesis using applied True by (auto elim!: and_then_InrE)
qed

lemma package_items_ok:
  "package_items env ex items db = Inr ((res, effs), db') \<Longrightarrow>
    local_version db' = fold merge_item items (local_version db) \<and> advances db db' \<and>
    map fst res = map wid items \<and> snd ` set res \<subseteq> {A, S} \<and>
    (\<forall>i \<in> set items. holds db' (row_id_of i) (w_version i))"
proof (induction items arbitrary: db res effs)
  case Nil
  then show ?case by simp
next
  case (Cons item items)
  from Cons.prems show ?case
  proof (cases rule: package_items_cases)
    case (stale res')
    note IH = Cons.IH [OF stale(3)]
    from stale(1) have "merge_item item (local_version db) = local_version db"
      unfolding stale_holds [symmetric] by (simp add: merge_item_def merge_is_newer fun_eq_iff)
    moreover have "holds db' (row_id_of item) (w_version item)" using IH stale(1) advances_holds by blast
    ultimately show ?thesis using IH stale(2) by simp
  next
    case (applied old db1 res' effs' out ef)
    note IH = Cons.IH [OF applied(4)]
    note adv = store_item_advances [OF applied(2) advances_refl applied(1)]
    have "holds db' (row_id_of item) (w_version item)" using IH adv(2) advances_holds by blast
    moreover have "advances db db'" using adv(1) IH advances_trans by blast
    ultimately show ?thesis
      using IH applied(3) store_item_merges [OF applied(2, 1)] by simp
  qed
qed

lemma package_body_Inr:
  "package_body env items db = Inr (r, db') \<Longrightarrow> \<exists>ex. package_items env ex items db = Inr (r, db')"
  by (auto simp: package_body_def elim!: and_then_InrE)

lemma apply_package_cases:
  assumes "apply_package env items db = (r, db')"
  obtains (untouched) n where "db' = db\<lparr>tick := n\<rparr>" "\<forall>x. r \<noteq> Inr (Some x)"
  | (complete) ex res effs n db1 where "r = Inr (Some (res, effs))" "package_items env ex items db = Inr ((res, effs), db1)"
      "db' = db1\<lparr>tick := n\<rparr>"
proof -
  obtain q db2 where tx: "apply_tx env (package_body env items) 1 db = (q, db2)"
    by (cases "apply_tx env (package_body env items) 1 db")
  from tx show ?thesis
  proof (cases rule: apply_tx_cases)
    case (rolled_back e)
    with assms tx have "db' = db\<lparr>tick := tick db + 1\<rparr> \<and> (\<forall>x. r \<noteq> Inr (Some x))"
      by (cases e) (auto simp: apply_package_def split: if_splits)
    then show ?thesis using untouched by blast
  next
    case (committed a db1)
    obtain res effs where a: "a = (res, effs)" by (cases a)
    from committed(2) package_body_Inr obtain ex where "package_items env ex items db = Inr (a, db1)" by blast
    with assms tx committed a show ?thesis using complete [of res effs ex db1] by (auto simp: apply_package_def)
  qed
qed

section \<open>A group\<close>

lemma group_existing_newer:
  "group_existing env grp db = Inr (Some ex) \<Longrightarrow>
    \<forall>i \<in> set grp. is_newer (w_version i) (local_version db (row_id_of i))"
proof (induction grp arbitrary: ex)
  case (Cons item items)
  then show ?case by (auto split: if_splits elim!: and_then_InrE)
qed simp

lemma write_group_ok:
  assumes "write_group env ex grp db = Inr (effs, db')" "advances db0 db"
    and "\<forall>i \<in> set grp. is_newer (w_version i) (local_version db0 (row_id_of i))" "distinct (map row_id_of grp)"
  shows "advances db0 db' \<and> (\<forall>i \<in> set grp. local_version db' (row_id_of i) = Some (w_version i)) \<and>
    (\<forall>rid. rid \<notin> row_id_of ` set grp \<longrightarrow> local_version db' rid = local_version db rid)"
  using assms
proof (induction grp arbitrary: db effs)
  case Nil
  then show ?case by simp
next
  case (Cons item items)
  from Cons.prems(1) obtain db1 db2 effs' where steps:
    "write_row env item (existing_row ex item \<noteq> None) db = Inr db1"
    "db2 = put_entry (row_id_of item) (w_key item) (w_version item) (w_deleted item) (Some (w_from item)) db1"
    "write_group env ex items db2 = Inr (effs', db')"
    by (auto elim!: and_then_InrE simp del: not_None_eq)
  have "advances db0 db1"
    using Cons.prems(2) same_registry_advances [OF write_row_same [OF steps(1)]] by (rule advances_trans)
  then have "advances db0 db2" unfolding steps(2) using Cons.prems(3) by (intro advances_put) auto
  note IH = Cons.IH [OF steps(3) this]
  have db2: "local_version db2 = (local_version db)(row_id_of item \<mapsto> w_version item)"
    using same_registry_local [OF write_row_same [OF steps(1)]] by (simp add: steps(2))
  have rest: "local_version db' rid = local_version db2 rid" if "rid \<notin> row_id_of ` set items" for rid
    using IH Cons.prems(3, 4) that by (cases rid) auto
  have "local_version db' (row_id_of item) = Some (w_version item)"
    using rest [of "row_id_of item"] Cons.prems(4) by (auto simp: db2)
  then show ?case using IH Cons.prems(3, 4) rest by (simp add: db2)
qed

lemma apply_group_ok:
  assumes "apply_group env rnd grp db = ((applied, effs), db')" "distinct (map row_id_of grp)"
  shows "advances db db'" and "applied \<Longrightarrow> \<forall>i \<in> set grp. holds db' (row_id_of i) (w_version i)"
proof -
  obtain q db2 where tx: "apply_tx env (group_body env rnd grp) 50 db = (q, db2)"
    by (cases "apply_tx env (group_body env rnd grp) 50 db")
  from tx have "advances db db' \<and> (applied \<longrightarrow> (\<forall>i \<in> set grp. holds db' (row_id_of i) (w_version i)))"
  proof (cases rule: apply_tx_cases)
    case (rolled_back e)
    with assms(1) tx show ?thesis by (auto simp: apply_group_def)
  next
    case (committed a db1)
    from committed(2) obtain found where found: "group_existing env grp db = Inr found"
      and rest: "(case found of None \<Rightarrow> Inr ((False, []), db)
       | Some existing \<Rightarrow> and_then (park_group env rnd existing 0 grp db) (\<lambda>(ok, db1).
             if \<not> ok then Inr ((False, []), db1)
             else and_then (write_group env existing grp db1) (\<lambda>(effs, db2). Inr ((True, effs), db2)))) = Inr (a, db1)"
      unfolding group_body_def by (auto elim!: and_then_InrE)
    have outcome: "applied = fst a" "db' = db1\<lparr>tick := tick db + 1\<rparr>"
      using assms(1) tx committed by (auto simp: apply_group_def split: prod.splits)
    show ?thesis
    proof (cases found)
      case None
      with rest outcome show ?thesis by auto
    next
      case (Some ex)
      with rest obtain ok dbp where park: "park_group env rnd ex 0 grp db = Inr (ok, dbp)"
        and rest': "(if \<not> ok then Inr ((False, []), dbp)
          else and_then (write_group env ex grp dbp) (\<lambda>(effs, db2). Inr ((True, effs), db2))) = Inr (a, db1)"
        by (auto elim!: and_then_InrE)
      note parked = same_registry_advances [OF park_group_same [OF park]]
      show ?thesis
      proof (cases ok)
        case False
        with rest' outcome parked show ?thesis by auto
      next
        case True
        with rest' obtain effs' where wr: "write_group env ex grp dbp = Inr (effs', db1)" "a = (True, effs')"
          by (auto elim!: and_then_InrE)
        from write_group_ok [OF wr(1) parked group_existing_newer assms(2)] found Some outcome wr(2) show ?thesis
          by (auto simp: holds_def compare_versions_def)
      qed
    qed
  qed
  then show "advances db db'" "applied \<Longrightarrow> \<forall>i \<in> set grp. holds db' (row_id_of i) (w_version i)" by auto
qed

section \<open>A real duplicate\<close>

lemma bump_newer: "is_newer (bump self v) v"
  by (auto simp: bump_def is_newer_def compare_versions_pos split: option.splits)

lemma delete_present_same: "delete_present env t k existing db = Inr db' \<Longrightarrow> same_registry db db'"
  by (auto simp: delete_present_def split: if_splits dest: row_statements(3))

lemma resolve_body_ok:
  assumes "resolve_body env self item other_key other_hash wins db = Inr ((applied, effs), db')"
  shows "advances db db' \<and> (applied \<longrightarrow> holds db' (row_id_of item) (w_version item))"
proof (cases "is_newer (w_version item) (local_version db (row_id_of item))")
  case False
  with assms show ?thesis by (auto simp: resolve_body_def Let_def elim!: and_then_InrE)
next
  case newer: True
  show ?thesis
  proof (cases wins)
    case False
    with assms newer obtain db1 where
      "delete_present env (w_table item) (w_key item) (select_row env (w_table item) (w_key item) db) db = Inr db1"
      and db': "db' = put_entry (row_id_of item) (w_key item) (bump self (Some (w_version item))) True None db1"
      by (auto simp: resolve_body_def Let_def elim!: and_then_InrE)
    then have db1: "same_registry db db1"
      "db' = put_entry (row_id_of item) (w_key item) (bump self (Some (w_version item))) True None db1"
      using delete_present_same by auto
    have "is_newer (bump self (Some (w_version item))) (local_version db (row_id_of item))"
      using is_newer_trans [OF bump_newer newer] .
    then have "advances db db'"
      unfolding db1(2) by (intro advances_put same_registry_advances [OF db1(1)])
    moreover have "holds db' (row_id_of item) (w_version item)"
      using bump_newer [of self "Some (w_version item)"] lww.newer_asym
      by (auto simp: db1(2) holds_def is_newer_Some)
    ultimately show ?thesis by simp
  next
    case True
    let ?other = "(tname (w_table item), other_hash)"
    let ?existing = "select_row env (w_table item) (w_key item) db"
    let ?held = "select_row env (w_table item) other_key db"
    from assms newer True obtain db1 db2 db3 where "delete_present env (w_table item) other_key ?held db = Inr db1"
      and db2: "db2 = put_entry ?other other_key (bump self (local_version db ?other)) True None db1"
      and db3: "write_row env item (?existing \<noteq> None) db2 = Inr db3"
      and db': "db' = put_entry (row_id_of item) (w_key item) (w_version item) False (Some (w_from item)) db3"
      by (auto simp: resolve_body_def Let_def elim!: and_then_InrE simp del: not_None_eq)
    then have steps: "same_registry db db1"
      "db2 = put_entry ?other other_key (bump self (local_version db ?other)) True None db1"
      "write_row env item (?existing \<noteq> None) db2 = Inr db3"
      "db' = put_entry (row_id_of item) (w_key item) (w_version item) False (Some (w_from item)) db3"
      using delete_present_same by auto
    have "advances db db2"
      unfolding steps(2) by (intro advances_put same_registry_advances [OF steps(1)] bump_newer)
    then have "advances db db3" using same_registry_advances [OF write_row_same [OF steps(3)]] by (rule advances_trans)
    then have "advances db db'" unfolding steps(4) using newer by (rule advances_put)
    then show ?thesis unfolding steps(4) by (simp add: holds_put)
  qed
qed

lemma resolve_duplicate_ok:
  assumes "resolve_duplicate env pr self item other_key db = ((applied, effs), db')"
  shows "advances db db'" and "applied \<Longrightarrow> holds db' (row_id_of item) (w_version item)"
proof -
  let ?body = "resolve_body env self item other_key (compute_pk_hash pr other_key)
    (incoming_wins env item other_key (compute_pk_hash pr other_key) db)"
  obtain q db2 where tx: "apply_tx env ?body 50 db = (q, db2)" by (cases "apply_tx env ?body 50 db")
  from tx have "advances db db' \<and> (applied \<longrightarrow> holds db' (row_id_of item) (w_version item))"
  proof (cases rule: apply_tx_cases)
    case (rolled_back e)
    with assms tx show ?thesis by (auto simp: resolve_duplicate_def Let_def)
  next
    case (committed a db1)
    obtain ok effs' where a: "a = (ok, effs')" by (cases a)
    with assms tx committed have "applied = ok" "db' = db1\<lparr>tick := tick db + 1\<rparr>"
      by (auto simp: resolve_duplicate_def Let_def)
    with resolve_body_ok [OF committed(2) [unfolded a]] show ?thesis by simp
  qed
  then show "advances db db'" "applied \<Longrightarrow> holds db' (row_id_of item) (w_version item)" by auto
qed

section \<open>The colliding rows of a group are different rows\<close>

definition pending_ok :: "(row_id \<times> work_item) list \<Rightarrow> bool" where
  "pending_ok pending \<longleftrightarrow> (\<forall>(rid, i) \<in> set pending. row_id_of i = rid)"

definition group_ok :: "(row_id \<times> work_item) list \<Rightarrow> work_item \<Rightarrow> group_search \<Rightarrow> bool" where
  "group_ok pending item gs \<longleftrightarrow>
     distinct (map row_id_of (gs_group gs)) \<and> item \<in> set (gs_group gs) \<and>
     set (gs_group gs) \<subseteq> insert item (snd ` set pending)"

lemma grow_indexes_ok:
  "pending_ok pending \<Longrightarrow> group_ok pending item gs \<Longrightarrow>
    group_ok pending item (grow_indexes env pr pending handled db m ixs gs)"
proof (induction ixs arbitrary: gs)
  case (Cons ix ixs)
  have join: "group_ok pending item (gs\<lparr>gs_group := gs_group gs @ [partner]\<rparr>)"
    if "map_of pending rid = Some partner" "\<not> list_ex (\<lambda>c. row_id_of c = rid) (gs_group gs)" for rid partner
  proof -
    from that(1) have mem: "(rid, partner) \<in> set pending" by (rule map_of_SomeD)
    with Cons.prems(1) have "row_id_of partner = rid" by (auto simp: pending_ok_def)
    with that(2) mem Cons.prems(2) show ?thesis by (force simp: group_ok_def list_ex_iff)
  qed
  have stop: "group_ok pending item (gs\<lparr>gs_closed := False, gs_blocker := b\<rparr>)" for b
    using Cons.prems(2) by (simp add: group_ok_def)
  show ?case
    using Cons.IH [OF Cons.prems(1)] Cons.prems join stop
    by (auto simp: Let_def split: option.splits)
qed simp

lemma grow_group_ok:
  "pending_ok pending \<Longrightarrow> group_ok pending item gs \<Longrightarrow>
    group_ok pending item (grow_group fuel env pr pending handled db cursor gs)"
  by (induction fuel arbitrary: cursor gs) (simp_all add: Let_def grow_indexes_ok)

lemma collect_group_ok:
  "pending_ok pending \<Longrightarrow> group_ok pending item (collect_group env pr pending handled db item ix other)"
  unfolding collect_group_def by (rule grow_group_ok) (simp_all add: group_ok_def)

lemma pending_of_set: "set (pending_of entries) \<subseteq> (\<lambda>e. (row_id_of (co_item e), co_item e)) ` set entries"
  using set_al_put_all [of "map (\<lambda>e. (row_id_of (co_item e), co_item e)) entries" "[]"]
  by (simp add: pending_of_def)

lemma pending_of_ok: "pending_ok (pending_of entries)"
  using pending_of_set [of entries] by (auto simp: pending_ok_def)

lemma pending_of_items: "snd ` set (pending_of entries) \<subseteq> co_item ` set entries"
  using pending_of_set [of entries] by auto

section \<open>The careful path\<close>

text \<open>
  What holds at every point of the careful path: records only advanced, and every answer \<open>A\<close> or \<open>S\<close> given so
  far is true of the database now. An orphan dropped with \<open>S\<close> was set aside before, so its item carries a
  deferral.
\<close>

definition answer_true :: "node_db \<Rightarrow> work_item \<Rightarrow> item_result \<Rightarrow> bool" where
  "answer_true db i r \<longleftrightarrow>
     (r = A \<or> (r = S \<and> w_deferral i = None)) \<longrightarrow> holds db (row_id_of i) (w_version i)"

definition results_true :: "work_item list \<Rightarrow> (nat \<times> item_result) list \<Rightarrow> node_db \<Rightarrow> bool" where
  "results_true items results db \<longleftrightarrow>
     (\<forall>w r i. (w, r) \<in> set results \<longrightarrow> i \<in> set items \<longrightarrow> wid i = w \<longrightarrow> answer_true db i r)"

definition progress_ok :: "work_item list \<Rightarrow> node_db \<Rightarrow> progress \<Rightarrow> bool" where
  "progress_ok items db0 pg \<longleftrightarrow>
     advances db0 (pg_db pg) \<and> results_true items (pg_results pg) (pg_db pg) \<and>
     co_item ` set (pg_colliding pg) \<subseteq> set items \<and> wt_item ` set (pg_waiting pg) \<subseteq> set items"

lemma answer_true_mono: "answer_true db i r \<Longrightarrow> advances db db' \<Longrightarrow> answer_true db' i r"
  using advances_holds by (auto simp: answer_true_def)

lemma results_true_mono: "results_true items res db \<Longrightarrow> advances db db' \<Longrightarrow> results_true items res db'"
  unfolding results_true_def using answer_true_mono by blast

lemma results_true_put:
  assumes "results_true items res db" "item \<in> set items" "distinct (map wid items)" "answer_true db item r"
  shows "results_true items (al_put (wid item) r res) db"
  unfolding results_true_def
proof (intro allI impI)
  fix w r' i
  assume mem: "(w, r') \<in> set (al_put (wid item) r res)" and i: "i \<in> set items" "wid i = w"
  from mem set_al_put [of "wid item" r res] consider "w = wid item" "r' = r" | "(w, r') \<in> set res" by auto
  then show "answer_true db i r'"
  proof cases
    case 1
    with i assms(2, 3) have "i = item" by (auto simp: distinct_map dest: inj_onD)
    with 1 assms(4) show ?thesis by simp
  next
    case 2
    with i assms(1) show ?thesis by (simp add: results_true_def)
  qed
qed

lemma progress_ok_db:
  assumes "progress_ok items db0 pg" "advances (pg_db pg) db'"
  shows "progress_ok items db0 (pg\<lparr>pg_db := db'\<rparr>)"
proof -
  have "advances db0 db'" using assms unfolding progress_ok_def by (blast intro: advances_trans)
  moreover have "results_true items (pg_results pg) db'"
    using assms unfolding progress_ok_def by (blast intro: results_true_mono)
  ultimately show ?thesis using assms(1) by (simp add: progress_ok_def)
qed

lemma progress_ok_result:
  assumes "progress_ok items db0 pg" "item \<in> set items" "distinct (map wid items)" "answer_true (pg_db pg) item r"
  shows "progress_ok items db0 (add_result (wid item) r pg)"
  using assms by (simp add: progress_ok_def add_result_def results_true_put)

lemma progress_ok_effect [simp]: "progress_ok items db0 (add_effect ef pg) = progress_ok items db0 pg"
  by (auto simp: progress_ok_def add_effect_def split: option.splits)

lemma progress_ok_effects [simp]: "progress_ok items db0 (pg\<lparr>pg_effects := l\<rparr>) = progress_ok items db0 pg"
  by (simp add: progress_ok_def)

lemma progress_ok_colliding:
  "progress_ok items db0 pg \<Longrightarrow> item \<in> set items \<Longrightarrow> progress_ok items db0 (add_colliding item ix other pg)"
  by (simp add: progress_ok_def add_colliding_def)

lemma progress_ok_waiting:
  "progress_ok items db0 pg \<Longrightarrow> item \<in> set items \<Longrightarrow> progress_ok items db0 (add_waiting item why detail pg)"
  by (simp add: progress_ok_def add_waiting_def)

lemma progress_ok_unqueued:
  assumes "progress_ok items db0 pg"
  shows "progress_ok items db0 (pg\<lparr>pg_waiting := remove1 e (pg_waiting pg)\<rparr>)"
proof -
  have "wt_item ` set (remove1 e (pg_waiting pg)) \<subseteq> wt_item ` set (pg_waiting pg)"
    by (intro image_mono set_remove1_subset)
  also have "\<dots> \<subseteq> set items" using assms by (simp add: progress_ok_def)
  finally show ?thesis using assms by (simp add: progress_ok_def)
qed

lemma add_sel [simp]:
  "pg_db (add_result w r pg) = pg_db pg" "pg_db (add_effect ef pg) = pg_db pg"
  "pg_db (add_colliding i ix ot pg) = pg_db pg" "pg_db (add_waiting i why de pg) = pg_db pg"
  by (simp_all add: add_result_def add_effect_def add_colliding_def add_waiting_def split: option.splits)

lemma first_try_ok:
  assumes pg: "progress_ok items db0 pg" and item: "item \<in> set items" and distinct: "distinct (map wid items)"
  shows "progress_ok items db0 (first_try env item pg)"
proof -
  obtain out ef db' where att: "attempt env item (pg_db pg) = ((out, ef), db')"
    by (metis prod.collapse)
  note adv = attempt_advances [OF att]
  have pg1: "progress_ok items db0 (pg\<lparr>pg_db := db'\<rparr>)" using pg adv(1) by (rule progress_ok_db)
  note result = progress_ok_result [OF pg1 item distinct]
  show ?thesis
  proof (cases out)
    case Applied
    with adv(2) result [of A] att show ?thesis by (simp add: first_try_def Let_def answer_true_def)
  next
    case Stale
    with adv(2) result [of S] att show ?thesis by (simp add: first_try_def Let_def answer_true_def)
  next
    case (Conflict ix other)
    with progress_ok_colliding [OF pg1 item] att show ?thesis by (simp add: first_try_def Let_def)
  next
    case (Defer why detail)
    with progress_ok_waiting [OF pg1 item] att show ?thesis by (simp add: first_try_def Let_def)
  next
    case (Reject detail)
    with result [of R] att show ?thesis by (simp add: first_try_def Let_def answer_true_def)
  qed
qed

lemma second_try_ok:
  assumes pg: "progress_ok items db0 pg" and item: "wt_item entry \<in> set items" and distinct: "distinct (map wid items)"
  shows "progress_ok items db0 (second_try env entry pg)"
proof (cases "wt_reason entry \<noteq> WaitParent \<and> wt_reason entry \<noteq> WaitRace")
  case True
  with pg show ?thesis by (simp add: second_try_def)
next
  case False
  obtain out ef db' where att: "attempt env (wt_item entry) (pg_db pg) = ((out, ef), db')"
    by (metis prod.collapse)
  note adv = attempt_advances [OF att]
  have pg1: "progress_ok items db0 (pg\<lparr>pg_db := db'\<rparr>)" using pg adv(1) by (rule progress_ok_db)
  have pg2: "progress_ok items db0 (pg\<lparr>pg_db := db', pg_waiting := remove1 entry (pg_waiting pg)\<rparr>)"
    using progress_ok_unqueued [OF pg1, of entry] by simp
  note result = progress_ok_result [OF pg2 item distinct]
  note unfold = second_try_def Let_def
  show ?thesis
  proof (cases out)
    case Applied
    with False adv(2) result [of A] att show ?thesis by (auto simp: unfold answer_true_def)
  next
    case Stale
    with False adv(2) result [of S] att show ?thesis by (auto simp: unfold answer_true_def)
  next
    case (Conflict ix other)
    with False progress_ok_colliding [OF pg2 item] att show ?thesis by (auto simp: unfold)
  qed (use False pg1 att in \<open>auto simp: unfold\<close>)
qed

lemma group_results_ok:
  "progress_ok items db0 pg \<Longrightarrow> set grp \<subseteq> set items \<Longrightarrow> distinct (map wid items) \<Longrightarrow>
    \<forall>i \<in> set grp. holds (pg_db pg) (row_id_of i) (w_version i) \<Longrightarrow>
    progress_ok items db0 (fold (\<lambda>m. add_result (wid m) A) grp pg)"
  by (induction grp arbitrary: pg) (simp_all add: progress_ok_result answer_true_def)

lemma try_group_ok:
  assumes pg: "progress_ok items db0 pg" and distinct: "distinct (map wid items)"
    and grp: "set (gs_group gs) \<subseteq> set items" "distinct (map row_id_of (gs_group gs))"
    and tried: "try_group cx gs pg = (grouped, pg')"
  shows "progress_ok items db0 pg'"
proof (cases "gs_closed gs \<and> 1 < length (gs_group gs)")
  case True
  obtain applied effs db2 where app: "apply_group (cx_env cx) (cx_rnd cx) (gs_group gs) (pg_db pg) = ((applied, effs), db2)"
    by (metis prod.collapse)
  note ok = apply_group_ok [OF app grp(2)]
  have pg2: "progress_ok items db0 (pg\<lparr>pg_db := db2\<rparr>)" using pg ok(1) by (rule progress_ok_db)
  show ?thesis
  proof (cases applied)
    case True
    from group_results_ok [OF pg2 grp(1) distinct] ok(2) [OF True]
    have "progress_ok items db0 (fold (\<lambda>m. add_result (wid m) A) (gs_group gs) (pg\<lparr>pg_db := db2\<rparr>))" by simp
    with tried app \<open>gs_closed gs \<and> 1 < length (gs_group gs)\<close> True show ?thesis by (auto simp: try_group_def)
  next
    case False
    with tried app \<open>gs_closed gs \<and> 1 < length (gs_group gs)\<close> pg2 show ?thesis by (auto simp: try_group_def)
  qed
next
  case False
  with tried pg show ?thesis by (auto simp: try_group_def)
qed

lemma try_resolve_ok:
  assumes pg: "progress_ok items db0 pg" and item: "item \<in> set items" and distinct: "distinct (map wid items)"
  shows "progress_ok items db0 (try_resolve cx item blocker pg)"
proof (cases "sender_has_nothing_more cx item")
  case True
  obtain applied effs db2 where res: "resolve_duplicate (cx_env cx) (cx_pr cx) (cx_self cx) item (snd blocker) (pg_db pg) =
      ((applied, effs), db2)" by (metis prod.collapse)
  note ok = resolve_duplicate_ok [OF res]
  have pg2: "progress_ok items db0 (pg\<lparr>pg_db := db2\<rparr>)" using pg ok(1) by (rule progress_ok_db)
  show ?thesis
  proof (cases applied)
    case applied: True
    with ok(2) have "progress_ok items db0 (add_result (wid item) A (pg\<lparr>pg_db := db2\<rparr>))"
      by (intro progress_ok_result pg2 item distinct) (simp add: answer_true_def)
    with True res applied show ?thesis by (simp add: try_resolve_def)
  next
    case False
    with True res progress_ok_waiting [OF pg2 item] show ?thesis by (simp add: try_resolve_def)
  qed
next
  case False
  with progress_ok_waiting [OF pg item] show ?thesis by (simp add: try_resolve_def)
qed

lemma colliding_step_ok:
  assumes pg: "progress_ok items db0 pg" and item: "co_item entry \<in> set items" and distinct: "distinct (map wid items)"
    and pending: "pending_ok pending" "snd ` set pending \<subseteq> set items"
  shows "progress_ok items db0 (snd (colliding_step cx pending entry (handled, pg)))"
proof (cases "wid (co_item entry) \<in> set handled")
  case True
  with pg show ?thesis by (simp add: colliding_step_def Let_def)
next
  case False
  let ?item = "co_item entry"
  obtain out ef db' where att: "attempt (cx_env cx) ?item (pg_db pg) = ((out, ef), db')" by (metis prod.collapse)
  note adv = attempt_advances [OF att]
  have pg1: "progress_ok items db0 (pg\<lparr>pg_db := db'\<rparr>)" using pg adv(1) by (rule progress_ok_db)
  note result = progress_ok_result [OF pg1 item distinct]
  show ?thesis
  proof (cases out)
    case Applied
    with False adv(2) result [of A] att show ?thesis by (simp add: colliding_step_def Let_def answer_true_def)
  next
    case Stale
    with False adv(2) result [of S] att show ?thesis by (simp add: colliding_step_def Let_def answer_true_def)
  next
    case (Conflict ix other)
    define gs where "gs = collect_group (cx_env cx) (cx_pr cx) pending handled db' ?item ix other"
    have gs: "group_ok pending ?item gs" unfolding gs_def using pending(1) by (rule collect_group_ok)
    then have grp: "set (gs_group gs) \<subseteq> set items" "distinct (map row_id_of (gs_group gs))"
      using pending(2) item unfolding group_ok_def by blast+
    obtain grouped pg2 where tg: "try_group cx gs (pg\<lparr>pg_db := db'\<rparr>) = (grouped, pg2)"
      by (cases "try_group cx gs (pg\<lparr>pg_db := db'\<rparr>)")
    from try_group_ok [OF pg1 distinct grp tg] have pg2: "progress_ok items db0 pg2" .
    from False att Conflict tg have "colliding_step cx pending entry (handled, pg) =
        (if grouped then (rev (map wid (gs_group gs)) @ handled, pg2)
         else (wid ?item # handled, try_resolve cx ?item (gs_blocker gs) pg2))"
      by (simp add: colliding_step_def gs_def Let_def)
    with pg2 try_resolve_ok [OF pg2 item distinct] show ?thesis by simp
  next
    case (Defer why detail)
    with False progress_ok_waiting [OF pg1 item] att show ?thesis by (simp add: colliding_step_def Let_def)
  next
    case (Reject detail)
    with False result [of R] att show ?thesis by (simp add: colliding_step_def Let_def answer_true_def)
  qed
qed

lemma fold_invariant:
  assumes "P a" "\<And>x a. x \<in> set xs \<Longrightarrow> P a \<Longrightarrow> P (f x a)"
  shows "P (fold f xs a)"
  using assms by (induction xs arbitrary: a) auto

lemma progress_fold:
  assumes "progress_ok items db0 pg"
    and "\<And>x pg. x \<in> set xs \<Longrightarrow> progress_ok items db0 pg \<Longrightarrow> progress_ok items db0 (f x pg)"
  shows "progress_ok items db0 (fold f xs pg)"
  using assms by (rule fold_invariant [where P = "progress_ok items db0"])

lemma colliding_pass_ok:
  assumes pg: "progress_ok items db0 pg" and distinct: "distinct (map wid items)"
  shows "progress_ok items db0 (colliding_pass cx pg)"
proof -
  let ?pending = "pending_of (pg_colliding pg)"
  have coll: "co_item ` set (pg_colliding pg) \<subseteq> set items" using pg by (simp add: progress_ok_def)
  have "snd ` set ?pending \<subseteq> set items" using pending_of_items coll by (rule subset_trans)
  then have "progress_ok items db0 (snd (fold (colliding_step cx ?pending) (pg_colliding pg) ([], pg)))"
    using pg colliding_step_ok [OF _ _ distinct pending_of_ok] coll
    by (intro fold_invariant [where P = "\<lambda>a. progress_ok items db0 (snd a)"]) (auto simp: image_subset_iff)
  then show ?thesis by (simp add: colliding_pass_def)
qed

lemma save_deferred_advances: "advances db (save_deferred now item why detail db)"
  by (simp add: save_deferred_def Let_def)

lemma waiting_step_ok:
  assumes pg: "progress_ok items db0 pg" and item: "wt_item entry \<in> set items" and distinct: "distinct (map wid items)"
  shows "progress_ok items db0 (waiting_step cx entry pg)"
proof (cases "wt_reason entry = WaitParent \<and> sender_has_nothing_more cx (wt_item entry)")
  case True
  then have "w_deferral (wt_item entry) \<noteq> None" by (auto simp: sender_has_nothing_more_def split: option.splits)
  with True progress_ok_result [OF pg item distinct, of S] show ?thesis
    by (auto simp: waiting_step_def Let_def answer_true_def)
next
  case False
  have "progress_ok items db0 (add_result (wid (wt_item entry)) D pg)"
    by (rule progress_ok_result [OF pg item distinct]) (simp add: answer_true_def)
  from progress_ok_db [OF this, of "save_deferred (cx_now cx) (wt_item entry)
      (reason_text (wt_reason entry)) (wt_detail entry) (pg_db pg)"] False
  show ?thesis by (auto simp: waiting_step_def Let_def save_deferred_advances)
qed

lemma careful_path_ok:
  assumes "distinct (map wid items)"
  shows "progress_ok items db (careful_path cx items db)"
proof -
  let ?pg0 = "\<lparr>pg_results = [], pg_effects = [], pg_colliding = [], pg_waiting = [], pg_db = db\<rparr>"
  define pg1 where "pg1 = fold (first_try (cx_env cx)) items ?pg0"
  define pg2 where "pg2 = fold (second_try (cx_env cx)) (pg_waiting pg1) pg1"
  define pg3 where "pg3 = colliding_pass cx pg2"
  have pg0: "progress_ok items db ?pg0" by (simp add: progress_ok_def results_true_def)
  have pg1: "progress_ok items db pg1"
    unfolding pg1_def by (rule progress_fold [OF pg0]) (rule first_try_ok [OF _ _ assms])
  have pg2: "progress_ok items db pg2"
    unfolding pg2_def using pg1
    by (intro progress_fold [OF pg1] second_try_ok [OF _ _ assms]) (auto simp: progress_ok_def)
  have pg3: "progress_ok items db pg3" unfolding pg3_def using pg2 assms by (rule colliding_pass_ok)
  have "progress_ok items db (fold (waiting_step cx) (pg_waiting pg3) pg3)"
    using pg3 by (intro progress_fold [OF pg3] waiting_step_ok [OF _ _ assms]) (auto simp: progress_ok_def)
  then show ?thesis by (simp add: careful_path_def pg1_def pg2_def pg3_def Let_def)
qed

section \<open>Processing and pushes\<close>

lemma set_process_order [simp]: "set (process_order items) = set items"
  by (auto simp: process_order_def)

lemma mset_process_order: "mset (process_order items) = mset items"
  unfolding process_order_def by (simp add: mset_filter)

lemma distinct_process_order: "distinct (map f (process_order items)) = distinct (map f items)"
  using mset_process_order [of items] by (metis mset_eq_imp_distinct_iff mset_map)

lemma clear_deferred_advances: "advances db (clear_deferred i db)"
  by (simp add: clear_deferred_def)

lemma clear_settled_advances: "advances db (clear_settled items results db)"
  unfolding clear_settled_def
proof (rule fold_invariant [where P = "advances db"])
  fix x d
  assume d: "advances db d"
  have "advances db (clear_deferred i d)" for i by (rule advances_trans [OF d clear_deferred_advances])
  with d show "advances db ((\<lambda>(w, r) d. if r = A \<or> r = S
      then (case find (\<lambda>i. wid i = w) items of None \<Rightarrow> d | Some i \<Rightarrow> clear_deferred i d) else d) x d)"
    by (auto split: option.splits prod.splits)
qed simp

lemma process_items_ok:
  assumes run: "process_items cx items db = (Inr (results, effs), db')" and distinct: "distinct (map wid items)"
  shows "advances db db' \<and> results_true items results db'"
proof -
  let ?items = "process_order items"
  have d: "distinct (map wid ?items)" using distinct by (simp add: distinct_process_order)
  have careful: "advances db1 pdb \<and> results_true items (pg_results (careful_path cx ?items db1)) pdb"
    if "pdb = pg_db (careful_path cx ?items db1) \<or>
      pdb = clear_settled items (pg_results (careful_path cx ?items db1)) (pg_db (careful_path cx ?items db1))" for db1 pdb
  proof -
    have "advances db1 (pg_db (careful_path cx ?items db1))"
      "results_true items (pg_results (careful_path cx ?items db1)) (pg_db (careful_path cx ?items db1))"
      using careful_path_ok [OF d, of db1 cx] by (simp_all add: progress_ok_def results_true_def)
    with that clear_settled_advances show ?thesis using advances_trans results_true_mono by blast
  qed
  show ?thesis
  proof (cases "?items \<noteq> [] \<and> \<not> list_ex (\<lambda>i. w_deferral i \<noteq> None) ?items")
    case False
    with run careful [of db' db] show ?thesis by (auto simp: process_items_def Let_def split: if_splits)
  next
    case True
    obtain r db1 where pkg: "apply_package (cx_env cx) ?items db = (r, db1)" by (metis prod.collapse)
    from pkg show ?thesis
    proof (cases rule: apply_package_cases)
      case (untouched n)
      then have db1: "advances db db1" by simp
      from untouched(2) True run pkg have "r = Inr None" by (auto simp: process_items_def Let_def split: sum.splits option.splits)
      with True run pkg careful [of db' db1] have "advances db1 db' \<and> results_true items results db'"
        by (auto simp: process_items_def Let_def split: if_splits)
      with db1 show ?thesis using advances_trans by blast
    next
      case (complete ex res effs' n dbn)
      note ok = package_items_ok [OF complete(2)]
      from True run pkg complete(1) have res: "results = res" "db' = db1 \<or> db' = clear_settled items results db1"
        by (auto simp: process_items_def Let_def split: if_splits)
      have "results_true items res dbn"
        using ok d by (fastforce simp: results_true_def answer_true_def)
      then have true: "results_true items res db1"
        unfolding complete(3) by (rule results_true_mono) simp
      have adv: "advances db db1" using ok by (simp add: complete(3))
      from res(2) show ?thesis
      proof
        assume "db' = db1"
        with adv true res(1) show ?thesis by simp
      next
        assume db': "db' = clear_settled items results db1"
        have "advances db1 db'" unfolding db' by (rule clear_settled_advances)
        with adv true res(1) show ?thesis using advances_trans results_true_mono by blast
      qed
    qed
  qed
qed

text \<open>The items of a push know their slot.\<close>

lemma build_work_item_sel:
  "build_work_item pr h n t cols w peer = Inr i \<Longrightarrow>
    wid i = n \<and> w_deferral i = None \<and> row_id_of i = (tname t, wi_h w) \<and>
    w_version i = \<lparr>version = wi_v w, origin = wi_o w\<rparr> \<and> w_deleted i = wi_d w \<and> w_table i = t \<and>
    compute_pk_hash pr (w_key i) = w_hash i"
  by (auto simp: build_work_item_def Let_def row_id_of_def split: if_splits option.splits sum.splits)

lemma row_id_of_slot [simp]: "row_id_of (i\<lparr>w_slot := s\<rparr>) = row_id_of i"
  by (simp add: row_id_of_def)

lemma build_slots_items:
  "i \<in> set (build_slots cx peer n ws) \<Longrightarrow>
    w_slot i = Some (wid i) \<and> w_deferral i = None \<and> n \<le> wid i \<and> wid i < n + length ws \<and>
    (\<exists>t cols w. ws ! (wid i - n) = (Some t, cols, w) \<and> row_id_of i = (tname t, wi_h w) \<and>
       w_version i = \<lparr>version = wi_v w, origin = wi_o w\<rparr>)"
proof (induction cx peer n ws rule: build_slots.induct)
  case (2 cx peer n t cols w ws)
  consider "i \<in> set (build_slots cx peer (Suc n) ws)"
    | ti item where "t = Some ti" "build_work_item (cx_pr cx) (cx_host cx) n ti cols w peer = Inr item"
        "i = item\<lparr>w_slot := Some n\<rparr>"
    using 2(2) by (auto simp: Let_def split: option.splits sum.splits)
  then show ?case
  proof cases
    case 1
    note IH = 2(1) [OF 1]
    then have "wid i - n = Suc (wid i - Suc n)" by auto
    then have "((t, cols, w) # ws) ! (wid i - n) = ws ! (wid i - Suc n)" by simp
    with IH show ?thesis by auto
  next
    case 2
    from build_work_item_sel [OF 2(2)] 2 show ?thesis by auto
  qed
qed simp

lemma build_slots_distinct: "distinct (map wid (build_slots cx peer n ws))"
proof (induction cx peer n ws rule: build_slots.induct)
  case (2 cx peer n t cols w ws)
  have "wid i \<noteq> n" if "i \<in> set (build_slots cx peer (Suc n) ws)" for i
    using build_slots_items [OF that] by auto
  with 2 show ?case by (auto simp: Let_def build_work_item_sel split: option.splits sum.splits)
qed simp

lemma fill_slots_length [simp]: "length (fill_slots items results slots) = length slots"
  unfolding fill_slots_def by (rule fold_invariant) (auto split: option.splits)

lemma fill_slots_nth:
  assumes "\<forall>i \<in> set items. w_slot i = Some (wid i)" "n < length slots"
  shows "fill_slots items results slots ! n = slots ! n \<or>
    (n, fill_slots items results slots ! n) \<in> set results \<and> (\<exists>i \<in> set items. wid i = n)"
  using assms(2)
proof (induction results arbitrary: slots)
  case Nil
  then show ?case by (simp add: fill_slots_def)
next
  case (Cons p results)
  obtain w r where p: "p = (w, r)" by (cases p)
  define slots' where "slots' = (case find (\<lambda>i. wid i = w) items of
    Some i \<Rightarrow> (case w_slot i of Some n \<Rightarrow> slots[n := r] | None \<Rightarrow> slots) | None \<Rightarrow> slots)"
  have step: "fill_slots items (p # results) slots = fill_slots items results slots'"
    by (simp add: fill_slots_def p slots'_def)
  have "slots' ! n = slots ! n \<or> (slots' ! n = r \<and> n = w \<and> (\<exists>i \<in> set items. wid i = n))"
  proof (cases "find (\<lambda>i. wid i = w) items")
    case None
    then show ?thesis by (simp add: slots'_def)
  next
    case (Some i)
    with find_SomeD have "i \<in> set items" "wid i = w" by fast+
    with assms(1) Some have "slots' = slots[w := r]" by (simp add: slots'_def)
    with Cons.prems \<open>i \<in> set items\<close> \<open>wid i = w\<close> show ?thesis by (cases "n = w") auto
  qed
  moreover have "n < length slots'" using Cons.prems by (auto simp: slots'_def split: option.splits)
  ultimately show ?case using Cons.IH [of slots'] unfolding p step [unfolded p] by auto
qed

lemma apply_push_ok:
  assumes "apply_push cx peer batches db = (Inr (slots, applied), db')"
  shows "advances db db'" and "length slots = length (push_entries cx batches)"
    and "\<And>n. n < length slots \<Longrightarrow> slots ! n = A \<or> slots ! n = S \<Longrightarrow>
      \<exists>t cols w. push_entries cx batches ! n = (Some t, cols, w) \<and>
        holds db' (tname t, wi_h w) \<lparr>version = wi_v w, origin = wi_o w\<rparr>"
proof -
  let ?entries = "push_entries cx batches"
  let ?items = "build_slots cx peer 0 ?entries"
  from assms obtain results effs where run: "process_items cx ?items db = (Inr (results, effs), db')"
    and slots: "slots = fill_slots ?items results (replicate (length ?entries) R)"
    by (auto simp: apply_push_def Let_def split: sum.splits prod.splits)
  note ok = process_items_ok [OF run build_slots_distinct]
  from ok show "advances db db'" by simp
  show "length slots = length ?entries" by (simp add: slots)
  fix n
  assume n: "n < length slots" "slots ! n = A \<or> slots ! n = S"
  have slot: "\<forall>i \<in> set ?items. w_slot i = Some (wid i)" using build_slots_items by blast
  from fill_slots_nth [OF slot, of n "replicate (length ?entries) R" results] n
  obtain i where i: "(n, slots ! n) \<in> set results" "i \<in> set ?items" "wid i = n" by (auto simp: slots)
  from build_slots_items [OF i(2)] i(3) obtain t cols w where e: "w_deferral i = None"
    "?entries ! n = (Some t, cols, w)" "row_id_of i = (tname t, wi_h w)"
    "w_version i = \<lparr>version = wi_v w, origin = wi_o w\<rparr>" by auto
  from ok i have "answer_true db' i (slots ! n)" by (auto simp: results_true_def)
  with n(2) e show "\<exists>t cols w. ?entries ! n = (Some t, cols, w) \<and>
      holds db' (tname t, wi_h w) \<lparr>version = wi_v w, origin = wi_o w\<rparr>"
    by (auto simp: answer_true_def)
qed

lemma process_items_advances:
  assumes "process_items cx items db = (r, db')" "distinct (map wid items)"
  shows "advances db db'"
proof (cases r)
  case (Inr p)
  with assms process_items_ok show ?thesis by (cases p) blast
next
  case (Inl err)
  obtain q db1 where pkg: "apply_package (cx_env cx) (process_order items) db = (q, db1)" by (metis prod.collapse)
  with assms(1) Inl have "q = Inl err" "db' = db1"
    by (auto simp: process_items_def Let_def split: if_splits sum.splits option.splits)
  with pkg show ?thesis by (cases rule: apply_package_cases) auto
qed

lemma apply_push_advances: "advances db (snd (apply_push cx peer batches db))"
proof -
  let ?items = "build_slots cx peer 0 (push_entries cx batches)"
  obtain r db' where run: "process_items cx ?items db = (r, db')" by (metis prod.collapse)
  from process_items_advances [OF run build_slots_distinct] run show ?thesis
    by (auto simp: apply_push_def Let_def split: sum.splits)
qed

end
