(* ===== verification/Applier_Theorems.thy ===== *)
theory Applier_Theorems
  imports Applier_Facts Sample
begin

text \<open>The properties of applying changes, with a concrete run for each that has hypotheses.\<close>

section \<open>Every step of a node\<close>

lemma drop_deferred_advances: "advances db db' \<Longrightarrow> advances db (drop_deferred rid db')"
  by (simp add: drop_deferred_def)

lemma rebuild_one_wid: "rebuild_one cx cat n rid e = Some item \<Longrightarrow> wid item = n"
  by (auto simp: rebuild_one_def Let_def dest: build_work_item_sel split: sum.splits option.splits if_splits)

lemma rebuild_deferred_ok:
  "rebuild_deferred cx cat n es db = (items, db') \<Longrightarrow>
    advances db db' \<and> distinct (map wid items) \<and> (\<forall>i \<in> set items. n \<le> wid i)"
proof (induction es arbitrary: n db items db')
  case (Cons p es)
  obtain rid e where p: "p = (rid, e)" by (cases p)
  show ?case
  proof (cases "rebuild_one cx cat n rid e")
    case None
    with Cons.prems p have "rebuild_deferred cx cat (Suc n) es (drop_deferred rid db) = (items, db')" by simp
    note IH = Cons.IH [OF this]
    have "advances db (drop_deferred rid db)" by (rule drop_deferred_advances) simp
    with IH have "advances db db'" using advances_trans by blast
    with IH show ?thesis by auto
  next
    case (Some item)
    obtain rest db1 where rest: "rebuild_deferred cx cat (Suc n) es db = (rest, db1)" by (metis prod.collapse)
    with Some Cons.prems p have "items = item # rest" "db' = db1" by auto
    with Cons.IH [OF rest] rebuild_one_wid [OF Some] show ?thesis by fastforce
  qed
qed simp

lemma retry_deferred_advances: "advances db (snd (retry_deferred cx limit db))"
proof (cases "cx_catalog cx")
  case None
  then show ?thesis by (simp add: retry_deferred_def)
next
  case (Some cat)
  let ?due = "take limit (sort_key (\<lambda>(rid, e). de_last_tried e) (set_aside db))"
  obtain items db1 where built: "rebuild_deferred cx cat 0 ?due db = (items, db1)" by (metis prod.collapse)
  obtain r db2 where run: "process_items cx items db1 = (r, db2)" by (metis prod.collapse)
  from rebuild_deferred_ok [OF built] have "advances db db1" "distinct (map wid items)" by auto
  with process_items_advances [OF run] advances_trans have "advances db db2" by blast
  with Some built run show ?thesis by (auto simp: retry_deferred_def Let_def split: sum.splits)
qed

lemma capture_advances: "advances db (capture pr node_id flag now table w db)"
proof -
  have one: "advances db (record_change node_id now rid key d db)" for db rid key d
    unfolding record_change_def Let_def by (rule advances_put [OF advances_refl record_change_newer])
  show ?thesis
  proof (cases w)
    case (LocalUpdate old new key_same row_same)
    have "advances db (record_change node_id now rid k d (record_change node_id now rid' k' d' db))" for rid k d rid' k' d'
      by (rule advances_trans [OF one one])
    then show ?thesis by (simp add: capture_def LocalUpdate one)
  qed (simp_all add: capture_def one)
qed

text \<open>What can happen to the registry of a node: a local write, a push, a retry of what was set aside.\<close>

inductive node_step :: "node_db \<Rightarrow> node_db \<Rightarrow> bool" where
  local_write: "node_step db (capture pr node_id flag now table w db)"
| received: "node_step db (snd (apply_push cx peer batches db))"
| retried: "node_step db (snd (retry_deferred cx limit db))"

inductive_cases node_stepE: "node_step db db'"

lemma node_step_advances: "node_step db db' \<Longrightarrow> advances db db'"
  by (erule node_stepE) (simp_all add: capture_advances apply_push_advances retry_deferred_advances)

text \<open>
  What the clients of the registry (the feed, the offers, the data checks) rely on: whatever happens to a
  node, its records only move forward and every record keeps a place of its own in the feed.
\<close>

locale registry_history =
  fixes step :: "'s \<Rightarrow> 's \<Rightarrow> bool"
    and held :: "'s \<Rightarrow> 'r \<Rightarrow> 'v \<Rightarrow> bool"
    and sound :: "'s \<Rightarrow> bool"
  assumes step_held: "step a b \<Longrightarrow> held a r v \<Longrightarrow> held b r v"
    and step_sound: "step a b \<Longrightarrow> sound a \<Longrightarrow> sound b"
begin

lemma history_held: "rtranclp step a b \<Longrightarrow> held a r v \<Longrightarrow> held b r v"
  by (induction rule: rtranclp_induct) (auto intro: step_held)

lemma history_sound: "rtranclp step a b \<Longrightarrow> sound a \<Longrightarrow> sound b"
  by (induction rule: rtranclp_induct) (auto intro: step_sound)

end

interpretation node: registry_history node_step holds feed_ok
proof unfold_locales
  show "node_step a b \<Longrightarrow> holds a r v \<Longrightarrow> holds b r v" for a b r v
    using node_step_advances advances_holds by blast
  show "node_step a b \<Longrightarrow> feed_ok a \<Longrightarrow> feed_ok b" for a b
    using node_step_advances by (auto simp: advances_def)
qed

section \<open>Properties\<close>

text \<open>C6: Whatever happens to a node - local writes captured by the triggers, pushes from peers on the fast
  or the careful path, retries of what was set aside, in any order and with any errors of the database - a
  row version it holds (or one newer than it) is held ever after: no step takes a record back.\<close>

theorem history_never_goes_back:
  assumes "rtranclp node_step db db'" "holds db rid v"
  shows "holds db' rid v"
  using assms by (rule node.history_held)

lemma history_never_goes_back_witness:
  defines "db0 \<equiv> put_entry (''t'', ''h'') [''k''] \<lparr>version = 7, origin = ''n1''\<rparr> False None sample_db"
  shows "holds (snd (apply_push sample_ctx ''n2'' (sample_push []) db0)) (''t'', ''h'') \<lparr>version = 7, origin = ''n1''\<rparr>"
  by (rule history_never_goes_back [of db0]) (auto intro: node_step.received simp: db0_def holds_put)

text \<open>In every state a node can reach, each record of the registry has a place in the change feed that no
  other record shares and that lies below the next place to be given out, so a reader that follows the feed by
  position misses no record and meets none twice.\<close>

theorem history_keeps_feed:
  assumes "rtranclp node_step db db'" "feed_ok db"
  shows "feed_ok db'"
  using assms by (rule node.history_sound)

lemma history_keeps_feed_witness:
  "feed_ok (snd (apply_push sample_ctx ''n2'' (sample_push [sample_change ''a'' ''x'' 5]) sample_db))"
  by (rule history_keeps_feed [of sample_db])
    (auto intro: node_step.received simp: feed_ok_def sample_db_def inj_on_def)

text \<open>C11: A push is answered with exactly one letter per item sent, and an answer "applied" or "stale" is true:
  the receiver then holds the version sent, or a newer one, of that very row.\<close>

theorem push_answers_are_true:
  assumes "apply_push cx peer batches db = (Inr (slots, applied), db')"
  shows "length slots = length (concat (map wb_items batches)) \<and>
    (\<forall>n < length slots. slots ! n = A \<or> slots ! n = S \<longrightarrow>
      (\<exists>t cols w. push_entries cx batches ! n = (Some t, cols, w) \<and>
        w = concat (map wb_items batches) ! n \<and>
        holds db' (tname t, wi_h w) \<lparr>version = wi_v w, origin = wi_o w\<rparr>))"
proof -
  have entries: "map (snd \<circ> snd) (push_entries cx batches) = concat (map wb_items batches)"
    by (simp add: push_entries_def Let_def map_concat comp_def)
  then have len: "length (push_entries cx batches) = length (concat (map wb_items batches))"
    by (metis length_map)
  have nth: "snd (snd (push_entries cx batches ! n)) = concat (map wb_items batches) ! n"
    if "n < length (push_entries cx batches)" for n
    using that by (simp flip: entries)
  show ?thesis
    using apply_push_ok(2, 3) [OF assms] nth by (fastforce simp: len)
qed

lemma push_answers_are_true_witness:
  "\<exists>db'. apply_push sample_ctx ''n2'' (sample_push [sample_change ''a'' ''x'' 5]) sample_db = (Inr ([A], 1), db') \<and>
    holds db' (''t'', compute_pk_hash sample_primitives [''a'']) \<lparr>version = 5, origin = ''n2''\<rparr>"
proof -
  let ?push = "sample_push [sample_change ''a'' ''x'' 5]"
  have "fst (apply_push sample_ctx ''n2'' ?push sample_db) = Inr ([A], 1)" by code_simp
  then obtain db' where run: "apply_push sample_ctx ''n2'' ?push sample_db = (Inr ([A], 1), db')"
    by (metis prod.collapse)
  from push_answers_are_true [OF run] obtain t cols where
    "push_entries sample_ctx ?push ! 0 = (Some t, cols, sample_change ''a'' ''x'' 5)"
    "holds db' (tname t, wi_h (sample_change ''a'' ''x'' 5)) \<lparr>version = 5, origin = ''n2''\<rparr>"
    by (auto simp: sample_push_def sample_change_def)
  then have "holds db' (''t'', compute_pk_hash sample_primitives [''a'']) \<lparr>version = 5, origin = ''n2''\<rparr>"
    by (auto simp: sample_push_def sample_change_def push_entries_def sample_ctx_def find_table_def sample_table_def)
  with run show ?thesis by blast
qed

text \<open>C12: Two nodes that take in the same changes as whole packages, each in whatever order they arrived, end
  with the same version record for every row: the registry converges to the last writer whatever the order,
  the duplicates and the database errors in between.\<close>

theorem packages_converge:
  assumes "apply_package env1 xs db1 = (Inr (Some r1), db1')" "apply_package env2 ys db2 = (Inr (Some r2), db2')"
    and "(\<lambda>i. (row_id_of i, w_version i)) ` set xs = (\<lambda>i. (row_id_of i, w_version i)) ` set ys"
    and "local_version db1 = local_version db2"
  shows "local_version db1' = local_version db2'"
proof
  fix rid
  have merged: "local_version db' rid = fold lww.merge (map w_version (filter (\<lambda>i. row_id_of i = rid) items)) (local_version db rid)"
    if run: "apply_package env items db = (Inr (Some r), db')" for env items db r db'
    using run by (cases rule: apply_package_cases) (auto simp: package_items_ok merge_items_at)
  have versions: "set (map w_version (filter (\<lambda>i. row_id_of i = rid) items)) =
      {v. (rid, v) \<in> (\<lambda>i. (row_id_of i, w_version i)) ` set items}" for items by auto
  have "set (map w_version (filter (\<lambda>i. row_id_of i = rid) xs)) = set (map w_version (filter (\<lambda>i. row_id_of i = rid) ys))"
    unfolding versions assms(3) ..
  then show "local_version db1' rid = local_version db2' rid"
    using merged [OF assms(1)] merged [OF assms(2)] assms(4) lww.fold_merge_set by metis
qed

lemma packages_converge_witness:
  "\<exists>r1 d1 r2 d2.
    apply_package sample_env (sample_items [sample_change ''a'' ''x'' 5, sample_change ''a'' ''y'' 9]) sample_db = (Inr (Some r1), d1) \<and>
    apply_package sample_env (sample_items [sample_change ''a'' ''y'' 9, sample_change ''a'' ''x'' 5]) sample_db = (Inr (Some r2), d2) \<and>
    local_version d1 = local_version d2"
proof -
  let ?xs = "sample_items [sample_change ''a'' ''x'' 5, sample_change ''a'' ''y'' 9]"
  let ?ys = "sample_items [sample_change ''a'' ''y'' 9, sample_change ''a'' ''x'' 5]"
  have succeeds: "\<exists>r d. p = (Inr (Some r), d)" if "case fst p of Inr (Some _) \<Rightarrow> True | _ \<Rightarrow> False"
    for p :: "(string + ((nat \<times> item_result) list \<times> effect list) option) \<times> node_db"
    using that by (cases p) (auto split: sum.splits option.splits)
  have "case fst (apply_package sample_env ?xs sample_db) of Inr (Some _) \<Rightarrow> True | _ \<Rightarrow> False" by code_simp
  from succeeds [OF this] obtain r1 d1 where run1: "apply_package sample_env ?xs sample_db = (Inr (Some r1), d1)" by blast
  have "case fst (apply_package sample_env ?ys sample_db) of Inr (Some _) \<Rightarrow> True | _ \<Rightarrow> False" by code_simp
  from succeeds [OF this] obtain r2 d2 where run2: "apply_package sample_env ?ys sample_db = (Inr (Some r2), d2)" by blast
  have "map (\<lambda>i. (row_id_of i, w_version i)) ?ys = rev (map (\<lambda>i. (row_id_of i, w_version i)) ?xs)" by code_simp
  then have "set (map (\<lambda>i. (row_id_of i, w_version i)) ?ys) = set (map (\<lambda>i. (row_id_of i, w_version i)) ?xs)"
    by (simp only: set_rev)
  then have "(\<lambda>i. (row_id_of i, w_version i)) ` set ?xs = (\<lambda>i. (row_id_of i, w_version i)) ` set ?ys"
    by (simp only: set_map)
  from packages_converge [OF run1 run2 this refl] run1 run2 show ?thesis by blast
qed



text \<open>Two nodes that hold two different rows with the same unique value reach opposite verdicts about them
  without talking: the row that stays at one node is the row that wins at the other.\<close>

theorem duplicate_verdicts_agree:
  assumes "w_table x = w_table y" "w_hash x \<noteq> w_hash y"
    and "select_row env_a (w_table x) (w_key x) db_a = w_values x"
    and "select_row env_b (w_table y) (w_key y) db_b = w_values y"
    and "\<forall>column. created_at_column (w_table x) = Some column \<longrightarrow>
      value_of x column \<noteq> JDate None \<and> value_of y column \<noteq> JDate None"
  shows "incoming_wins env_a y (w_key x) (w_hash x) db_a \<longleftrightarrow> \<not> incoming_wins env_b x (w_key y) (w_hash y) db_b"
proof -
  have less: "str_less (w_hash y) (w_hash x) \<longleftrightarrow> \<not> str_less (w_hash x) (w_hash y)"
    using assms(2) str_less_total str_less_asym by metis
  show ?thesis
  proof (cases "created_at_column (w_table x)")
    case None
    with less assms(1) show ?thesis by (simp add: incoming_wins_def)
  next
    case (Some column)
    have local_x: "(case select_row env_a (w_table x) (w_key x) db_a of None \<Rightarrow> JUndefined
        | Some vs \<Rightarrow> column_value (w_table x) vs column) = value_of x column"
      by (simp add: assms(3) value_of_def)
    have local_y: "(case select_row env_b (w_table x) (w_key y) db_b of None \<Rightarrow> JUndefined
        | Some vs \<Rightarrow> column_value (w_table x) vs column) = value_of y column"
      unfolding assms(1) assms(4) value_of_def ..
    have mirrored: "(case created_wins (value_of x column) (value_of y column) of Some verdict \<Rightarrow> verdict
        | None \<Rightarrow> str_less (w_hash y) (w_hash x)) \<longleftrightarrow>
      \<not> (case created_wins (value_of y column) (value_of x column) of Some verdict \<Rightarrow> verdict
        | None \<Rightarrow> str_less (w_hash x) (w_hash y))"
      using assms(5) Some less
      by (auto simp: created_wins_def split: js_value.splits option.splits if_splits)
    then show ?thesis
      unfolding incoming_wins_def Let_def assms(1) [symmetric] by (simp add: Some local_x local_y)
  qed
qed

lemma duplicate_verdicts_agree_witness:
  "let x = sample_swap 0 ''a'' ''1'' ''p''; y = sample_swap 1 ''b'' ''1'' ''q'';
       db_a = sample_db\<lparr>rows := [(''t'', [JStr ''a'', JStr ''1'', JStr ''p''])]\<rparr>;
       db_b = sample_db\<lparr>rows := [(''t'', [JStr ''b'', JStr ''1'', JStr ''q''])]\<rparr>
   in incoming_wins sample_env y (w_key x) (w_hash x) db_a \<longleftrightarrow> \<not> incoming_wins sample_env x (w_key y) (w_hash y) db_b"
proof -
  let ?x = "sample_swap 0 ''a'' ''1'' ''p''" and ?y = "sample_swap 1 ''b'' ''1'' ''q''"
  let ?db_a = "sample_db\<lparr>rows := [(''t'', [JStr ''a'', JStr ''1'', JStr ''p''])]\<rparr>"
  let ?db_b = "sample_db\<lparr>rows := [(''t'', [JStr ''b'', JStr ''1'', JStr ''q''])]\<rparr>"
  have "w_table ?x = w_table ?y" by (simp add: sample_swap_def)
  moreover have "w_hash ?x \<noteq> w_hash ?y" by (simp add: sample_swap_def)
  moreover have "select_row sample_env (w_table ?x) (w_key ?x) ?db_a = w_values ?x" by code_simp
  moreover have "select_row sample_env (w_table ?y) (w_key ?y) ?db_b = w_values ?y" by code_simp
  moreover have "\<forall>column. created_at_column (w_table ?x) = Some column \<longrightarrow>
      value_of ?x column \<noteq> JDate None \<and> value_of ?y column \<noteq> JDate None"
    by (simp add: sample_swap_def sample_two_indexes_def sample_table_def)
  ultimately have "incoming_wins sample_env ?y (w_key ?x) (w_hash ?x) ?db_a \<longleftrightarrow>
      \<not> incoming_wins sample_env ?x (w_key ?y) (w_hash ?y) ?db_b"
    by (rule duplicate_verdicts_agree)
  then show ?thesis by (simp only: Let_def)
qed

lemma group_existing_current:
  assumes "\<And>db st. stmt_error env db st = None" "\<forall>i \<in> set grp. is_newer (w_version i) (local_version db (row_id_of i))"
  shows "group_existing env grp db = Inr (Some (map (\<lambda>i. (w_hash i, select_row env (w_table i) (w_key i) db)) grp))"
  using assms(2)
  by (induction grp) (simp_all add: select_for_update_def read_version_def run_stmt_def assms(1) db_call_def)

lemma existing_row_first:
  assumes "w_hash i \<notin> w_hash ` set grp"
  shows "existing_row (map (\<lambda>i. (w_hash i, select_row env (w_table i) (w_key i) db)) (i # grp)) i =
    select_row env (w_table i) (w_key i) db"
proof -
  have "map_of (rev (map (\<lambda>i. (w_hash i, select_row env (w_table i) (w_key i) db)) grp)) (w_hash i) = None"
    using assms by (auto simp: map_of_eq_None_iff)
  then show ?thesis by (simp add: existing_row_def map_add_def)
qed

text \<open>C36: The set of colliding rows is meant to be applied as a whole or not at all, but a group whose first row is
  there, and whose table has a unique index that can be parked followed by one that cannot, is neither, whatever
  the rest of the group: with every member current and without any error of the database the attempt reports
  failure, no version changes, and yet the transaction commits with the throw-away value in the row's unique
  column.\<close>

theorem group_can_leave_a_parked_row:
  assumes healthy: "\<And>db st. stmt_error env db st = None"
    and current: "\<forall>i \<in> set (item # grp). is_newer (w_version i) (local_version db (row_id_of i))"
    and different: "w_hash item \<notin> w_hash ` set grp"
    and present: "select_row env (w_table item) (w_key item) db \<noteq> None"
    and indexes: "uniques (w_table item) = ix # stuck # others"
      "parking_column (rnd 0) (w_table item) ix = Some column" "parking_value (rnd 0) (w_table item) column = Some parked"
      "parking_column (rnd 1) (w_table item) stuck = None"
  shows "apply_group env rnd (item # grp) db =
    ((False, []), db\<lparr>tick := tick db + 1,
       rows := map (\<lambda>r. if is_row env (w_table item) (w_key item) r
         then (fst r, set_column (w_table item) column parked (snd r)) else r) (rows db)\<rparr>)"
proof -
  let ?ex = "map (\<lambda>i. (w_hash i, select_row env (w_table i) (w_key i) db)) (item # grp)"
  let ?parked = "db\<lparr>rows := map (\<lambda>r. if is_row env (w_table item) (w_key item) r
    then (fst r, set_column (w_table item) column parked (snd r)) else r) (rows db)\<rparr>"
  have "park_indexes env rnd item 0 (uniques (w_table item)) db = Inr (False, ?parked)"
    by (simp add: indexes indexes(4) [unfolded One_nat_def] park_row_def run_stmt_def healthy db_call_def)
  then have "park_group env rnd ?ex 0 (item # grp) db = Inr (False, ?parked)"
    using existing_row_first [OF different, of env db] present by (auto simp del: list.map)
  then have "group_body env rnd (item # grp) db = Inr ((False, []), ?parked)"
    unfolding group_body_def group_existing_current [OF healthy current] by (simp del: list.map)
  then show ?thesis by (simp add: apply_group_def apply_tx_def healthy)
qed

lemma group_can_leave_a_parked_row_witness:
  "rows (snd (apply_group sample_env (\<lambda>_ _. 0) [sample_swap 0 ''a'' ''2'' ''p'', sample_swap 1 ''b'' ''1'' ''q''] sample_rows_db)) =
     [(''t'', [JStr ''a'', JStr ''~aaaaaaaaaaaaaaaaaaaaaaa'', JStr ''p'']), (''t'', [JStr ''b'', JStr ''2'', JStr ''q''])]"
proof -
  let ?item = "sample_swap 0 ''a'' ''2'' ''p''" and ?other = "sample_swap 1 ''b'' ''1'' ''q''"
  let ?parked = "JStr ''~aaaaaaaaaaaaaaaaaaaaaaa''"
  have newer: "list_all (\<lambda>i. is_newer (w_version i) (local_version sample_rows_db (row_id_of i))) [?item, ?other]" by code_simp
  have present: "select_row sample_env (w_table ?item) (w_key ?item) sample_rows_db = Some [JStr ''a'', JStr ''1'', JStr ''p'']"
    by code_simp
  have indexes: "uniques (w_table ?item) = [uniques sample_two_indexes ! 0, uniques sample_two_indexes ! 1]" by code_simp
  have column: "parking_column (\<lambda>_. 0) (w_table ?item) (uniques sample_two_indexes ! 0) = Some ''pos''" by code_simp
  have parked: "parking_value (\<lambda>_. 0) (w_table ?item) ''pos'' = Some ?parked" by code_simp
  have stuck: "parking_column (\<lambda>_. 0) (w_table ?item) (uniques sample_two_indexes ! 1) = None" by code_simp
  have "apply_group sample_env (\<lambda>_ _. 0) [?item, ?other] sample_rows_db =
      ((False, []), sample_rows_db\<lparr>tick := tick sample_rows_db + 1,
         rows := map (\<lambda>r. if is_row sample_env (w_table ?item) (w_key ?item) r
           then (fst r, set_column (w_table ?item) ''pos'' ?parked (snd r)) else r) (rows sample_rows_db)\<rparr>)"
    by (rule group_can_leave_a_parked_row [OF _ _ _ _ indexes column parked stuck])
      (use newer present in \<open>simp_all add: sample_env_def sample_swap_def\<close>)
  moreover have "map (\<lambda>r. if is_row sample_env (w_table ?item) (w_key ?item) r
      then (fst r, set_column (w_table ?item) ''pos'' ?parked (snd r)) else r) (rows sample_rows_db) =
    [(''t'', [JStr ''a'', ?parked, JStr ''p'']), (''t'', [JStr ''b'', JStr ''2'', JStr ''q''])]" by code_simp
  ultimately show ?thesis by simp
qed

text \<open>C37: Settling a change forgets every change of the row set aside with a version number up to its own. The
  order of versions also looks at the origin: of two changes with the same number the one set aside can be
  the newer one, and it is forgotten all the same.\<close>

theorem clearing_forgets_a_newer_change:
  assumes "version (de_version e) = version (w_version item)" "str_less (origin (w_version item)) (origin (de_version e))"
    and "(row_id_of item, e) \<in> set (set_aside db)"
  shows "is_newer (de_version e) (Some (w_version item)) \<and>
    (row_id_of item, e) \<notin> set (set_aside (clear_deferred item db))"
  using assms by (auto simp: is_newer_Some compare_versions_pos clear_deferred_def)

definition sample_deferred :: deferred_entry where
  "sample_deferred = \<lparr>de_from = ''n3'', de_version = \<lparr>version = 9, origin = ''n3''\<rparr>, de_cols = [],
     de_item = sample_change ''a'' ''3'' 9, de_reason = ''fk'', de_detail = [], de_attempts = 1,
     de_first_seen = 0, de_last_tried = 0\<rparr>"

lemma clearing_forgets_a_newer_change_witness:
  "is_newer (de_version sample_deferred) (Some (w_version (sample_swap 0 ''a'' ''2'' ''p''))) \<and>
    (row_id_of (sample_swap 0 ''a'' ''2'' ''p''), sample_deferred) \<notin> set (set_aside (clear_deferred (sample_swap 0 ''a'' ''2'' ''p'')
      (sample_db\<lparr>set_aside := [(row_id_of (sample_swap 0 ''a'' ''2'' ''p''), sample_deferred)]\<rparr>)))"
proof (rule clearing_forgets_a_newer_change)
  show "version (de_version sample_deferred) = version (w_version (sample_swap 0 ''a'' ''2'' ''p''))"
    by (simp add: sample_deferred_def sample_swap_def)
  show "str_less (origin (w_version (sample_swap 0 ''a'' ''2'' ''p''))) (origin (de_version sample_deferred))"
    by code_simp
  show "(row_id_of (sample_swap 0 ''a'' ''2'' ''p''), sample_deferred) \<in>
      set (set_aside (sample_db\<lparr>set_aside := [(row_id_of (sample_swap 0 ''a'' ''2'' ''p''), sample_deferred)]\<rparr>))"
    by simp
qed

end
