(* ===== verification/Permissions.thy ===== *)
theory Permissions
  imports Prelude
begin

text \<open>
  \<^verbatim>\<open>src/security/permissions.ts\<close> and \<^verbatim>\<open>permissionUpgrades.ts\<close>: the catalog of rights of the admin
  panel, what an administrator may do in which school, who may give which rights to whom, the presets
  of the grant editor and the one-off upgrades of stored grants.

  A right is its key. A JavaScript \<open>Set\<close> is the list of its members in insertion order, a \<open>Map\<close> an
  association list. A value of type \<open>unknown\<close> is \<open>Some\<close> string, or \<open>None\<close> when it is not a string. The
  German labels and descriptions of the catalog are shown to people only and left out; a refusal is a value of
  \<open>refusal\<close>, one constructor per message, with the HTTP status beside it where the code returns one.
\<close>

section \<open>The catalog\<close>

datatype permission_scope = SchoolScope | GlobalScope

datatype permission_action = ReadAction | CreateAction | UpdateAction | DeleteAction | AdminAction

datatype permission_group = OverviewGroup | UsersGroup | ClassesGroup | ModerationGroup | MensaGroup
  | CommunicationGroup | LogsGroup | SchoolGroup | GlobalGroup | SystemGroup

record permission_def =
  spec_key :: string
  spec_group :: permission_group
  spec_scope :: permission_scope
  spec_action :: permission_action

abbreviation spec :: "string \<Rightarrow> permission_group \<Rightarrow> permission_scope \<Rightarrow> permission_action \<Rightarrow> permission_def" where
  "spec k g s a \<equiv> \<lparr>spec_key = k, spec_group = g, spec_scope = s, spec_action = a\<rparr>"

definition permission_specs :: "permission_def list" where
  "permission_specs =
    [spec ''dashboard.view'' OverviewGroup SchoolScope ReadAction,
     spec ''analytics.view'' OverviewGroup SchoolScope ReadAction,
     spec ''users.view'' UsersGroup SchoolScope ReadAction,
     spec ''users.create'' UsersGroup SchoolScope CreateAction,
     spec ''users.update'' UsersGroup SchoolScope UpdateAction,
     spec ''users.delete'' UsersGroup SchoolScope DeleteAction,
     spec ''sessions.view'' UsersGroup SchoolScope ReadAction,
     spec ''sessions.revoke'' UsersGroup SchoolScope DeleteAction,
     spec ''classes.view'' ClassesGroup SchoolScope ReadAction,
     spec ''classes.manage'' ClassesGroup SchoolScope UpdateAction,
     spec ''todos.view'' ClassesGroup SchoolScope ReadAction,
     spec ''todos.manage'' ClassesGroup SchoolScope UpdateAction,
     spec ''comments.view'' ModerationGroup SchoolScope ReadAction,
     spec ''comments.moderate'' ModerationGroup SchoolScope DeleteAction,
     spec ''mensa.view'' MensaGroup SchoolScope ReadAction,
     spec ''mensa.manage'' MensaGroup SchoolScope UpdateAction,
     spec ''popups.view'' CommunicationGroup SchoolScope ReadAction,
     spec ''popups.manage'' CommunicationGroup SchoolScope UpdateAction,
     spec ''recaps.view'' CommunicationGroup SchoolScope ReadAction,
     spec ''recaps.manage'' CommunicationGroup SchoolScope UpdateAction,
     spec ''requests.view'' LogsGroup SchoolScope ReadAction,
     spec ''logs.frontend.view'' LogsGroup SchoolScope ReadAction,
     spec ''school.settings.view'' SchoolGroup SchoolScope ReadAction,
     spec ''school.settings.manage'' SchoolGroup SchoolScope UpdateAction,
     spec ''admins.view'' SchoolGroup SchoolScope ReadAction,
     spec ''admins.manage'' SchoolGroup SchoolScope AdminAction,
     spec ''audit.view'' SchoolGroup SchoolScope ReadAction,
     spec ''global.dashboard'' GlobalGroup GlobalScope ReadAction,
     spec ''schools.view'' GlobalGroup GlobalScope ReadAction,
     spec ''schools.manage'' GlobalGroup GlobalScope AdminAction,
     spec ''admins.global.manage'' GlobalGroup GlobalScope AdminAction,
     spec ''privacy.view'' GlobalGroup GlobalScope ReadAction,
     spec ''subjectimages.manage'' GlobalGroup GlobalScope UpdateAction,
     spec ''system.logs.view'' SystemGroup GlobalScope ReadAction,
     spec ''system.monitoring.view'' SystemGroup GlobalScope ReadAction,
     spec ''apikeys.manage'' SystemGroup GlobalScope AdminAction,
     spec ''backups.manage'' SystemGroup GlobalScope AdminAction,
     spec ''cluster.manage'' SystemGroup GlobalScope AdminAction,
     spec ''schoolyears.manage'' SystemGroup GlobalScope AdminAction]"

definition spec_by_key :: "string \<Rightarrow> permission_def option" where
  "spec_by_key k = find (\<lambda>p. spec_key p = k) permission_specs"

definition school_permissions :: "string list" where
  "school_permissions = map spec_key (filter (\<lambda>p. spec_scope p = SchoolScope) permission_specs)"

definition global_only_permissions :: "string list" where
  "global_only_permissions = map spec_key (filter (\<lambda>p. spec_scope p = GlobalScope) permission_specs)"

definition all_permissions :: "string list" where
  "all_permissions = map spec_key permission_specs"

definition is_permission :: "string option \<Rightarrow> bool" where
  "is_permission v = (case v of None \<Rightarrow> False | Some s \<Rightarrow> spec_by_key s \<noteq> None)"

definition is_global_only :: "string \<Rightarrow> bool" where
  "is_global_only p = (case spec_by_key p of None \<Rightarrow> False | Some d \<Rightarrow> spec_scope d = GlobalScope)"

section \<open>Sets in insertion order\<close>

definition set_add :: "'a \<Rightarrow> 'a list \<Rightarrow> 'a list" where
  "set_add x xs = (if x \<in> set xs then xs else xs @ [x])"

definition set_of :: "'a list \<Rightarrow> 'a list" where
  "set_of xs = fold set_add xs []"

lemma set_set_add [simp]: "set (set_add x xs) = insert x (set xs)"
  by (auto simp: set_add_def)

lemma distinct_set_add [simp]: "distinct (set_add x xs) = distinct xs"
  by (simp add: set_add_def)

lemma set_fold_set_add [simp]: "set (fold set_add xs acc) = set acc \<union> set xs"
  by (induction xs arbitrary: acc) auto

lemma distinct_fold_set_add [simp]: "distinct (fold set_add xs acc) = distinct acc"
  by (induction xs arbitrary: acc) auto

lemma set_set_of [simp]: "set (set_of xs) = set xs"
  by (simp add: set_of_def)

lemma distinct_set_of [simp]: "distinct (set_of xs)"
  by (simp add: set_of_def)

section \<open>Presets\<close>

definition global_scope :: string where "global_scope = ''global''"

record preset =
  preset_key :: string
  preset_label :: string
  preset_description :: string
  preset_scope :: permission_scope
  preset_permissions :: "string list"
  preset_custom :: bool
  preset_created_by :: "string option"

abbreviation built_in :: "string \<Rightarrow> string \<Rightarrow> string \<Rightarrow> permission_scope \<Rightarrow> string list \<Rightarrow> preset" where
  "built_in k l d s ps \<equiv> \<lparr>preset_key = k, preset_label = l, preset_description = d, preset_scope = s,
     preset_permissions = ps, preset_custom = False, preset_created_by = None\<rparr>"

definition presets :: "preset list" where
  "presets =
    [built_in ''viewer'' ''Viewer''
       (''Nur lesen: Dashboard, Analytics, Nutzer, Klassen, Kommentare und Speiseplan.'')
       SchoolScope [''dashboard.view'', ''analytics.view'', ''users.view'', ''classes.view'', ''todos.view'',
          ''comments.view'', ''mensa.view'', ''popups.view'', ''recaps.view''],
     built_in ''moderator'' ''Moderator''
       (''Kommentare und Bewertungen lesen und moderieren.'')
       SchoolScope [''dashboard.view'', ''users.view'', ''comments.view'', ''comments.moderate''],
     built_in ''mensa_manager'' ''Mensa-Manager''
       (''Speiseplan pflegen, R'' @ [CHR 0xC3, CHR 0xBC] @ ''ckmeldungen dazu lesen.'')
       SchoolScope [''dashboard.view'', ''mensa.view'', ''mensa.manage'', ''comments.view''],
     built_in ''school_admin'' ''School-Admin''
       (''Alles innerhalb der Schule, einschlie'' @ [CHR 0xC3, CHR 0x9F] @ ''lich ihrer Admins.'')
       SchoolScope school_permissions,
     built_in ''global_admin'' ''Global-Admin''
       (''Alle Rechte in allen Schulen und im System.'')
       GlobalScope all_permissions]"

definition preset_by_key :: "string \<Rightarrow> preset list \<Rightarrow> preset option" where
  "preset_by_key k ps = find (\<lambda>p. preset_key p = k) ps"

definition is_built_in_preset :: "string \<Rightarrow> bool" where
  "is_built_in_preset k = (\<exists>p \<in> set presets. preset_key p = k)"

definition preset_for :: "string \<Rightarrow> string list \<Rightarrow> preset list \<Rightarrow> string" where
  "preset_for scope permissions ps =
     (let held = set_of permissions in
      case find (\<lambda>p. (preset_scope p = GlobalScope) = (scope = global_scope) \<and>
                     length (preset_permissions p) = length held \<and>
                     (\<forall>q \<in> set (preset_permissions p). q \<in> set held)) ps of
        None \<Rightarrow> ''custom'' | Some p \<Rightarrow> preset_key p)"

section \<open>Access\<close>

record grant_input =
  gi_scope :: string
  gi_permissions :: "string list"

record access =
  acc_owner :: bool
  acc_global :: "string list"
  acc_schools :: "(string \<times> string list) list"

definition no_access :: access where
  "no_access = \<lparr>acc_owner = False, acc_global = [], acc_schools = []\<rparr>"

definition school_set :: "access \<Rightarrow> string \<Rightarrow> string list" where
  "school_set a s = (case map_of (acc_schools a) s of None \<Rightarrow> [] | Some ps \<Rightarrow> ps)"

definition access_add :: "string \<Rightarrow> string \<Rightarrow> access \<Rightarrow> access" where
  "access_add scope raw a =
     (if \<not> is_permission (Some raw) then a
      else if scope = global_scope then a\<lparr>acc_global := set_add raw (acc_global a)\<rparr>
      else if is_global_only raw then a
      else a\<lparr>acc_schools := al_put scope (set_add raw (school_set a scope)) (acc_schools a)\<rparr>)"

definition access_from :: "bool \<Rightarrow> grant_input list \<Rightarrow> access" where
  "access_from owner gs =
     fold (\<lambda>g a. fold (access_add (gi_scope g)) (gi_permissions g) a) gs (no_access\<lparr>acc_owner := owner\<rparr>)"

definition can :: "access \<Rightarrow> string \<Rightarrow> string option \<Rightarrow> bool" where
  "can a permission school =
     (if acc_owner a then True
      else if permission \<in> set (acc_global a) then True
      else case school of
        None \<Rightarrow> False
      | Some s \<Rightarrow> if is_global_only permission then False else permission \<in> set (school_set a s))"

definition permissions_in :: "access \<Rightarrow> string \<Rightarrow> string list" where
  "permissions_in a scope =
     (if acc_owner a then (if scope = global_scope then all_permissions else school_permissions)
      else if scope = global_scope then acc_global a
      else filter (\<lambda>p. can a p (Some scope)) school_permissions)"

text \<open>\<open>None\<close> is the answer \<open>'all'\<close>.\<close>

definition accessible_schools :: "access \<Rightarrow> string list option" where
  "accessible_schools a =
     (if acc_owner a then None
      else if \<exists>p \<in> set school_permissions. p \<in> set (acc_global a) then None
      else Some (map fst (filter (\<lambda>(s, ps). ps \<noteq> []) (acc_schools a))))"

definition has_any_permission :: "access \<Rightarrow> bool" where
  "has_any_permission a \<longleftrightarrow> acc_owner a \<or> acc_global a \<noteq> [] \<or> (\<exists>(s, ps) \<in> set (acc_schools a). ps \<noteq> [])"

section \<open>Granting\<close>

datatype refusal =
    UnknownPermission "string option"
  | OnlyGlobally string
  | NotGlobalManager
  | NotSchoolManager
  | BeyondOwn "string list"
  | OwnerInEnvironment
  | NotManagerHere
  | TargetHoldsMore
  | PresetNeedsName
  | PresetNameTooLong
  | PresetDescriptionTooLong
  | PresetScopeUnknown
  | PresetEmpty

type_synonym grant_check = "(nat \<times> refusal) + string list"

fun normalize_loop :: "bool \<Rightarrow> string option list \<Rightarrow> string list \<Rightarrow> grant_check" where
  "normalize_loop is_global [] out = Inr out"
| "normalize_loop is_global (raw # rest) out =
     (case raw of
        None \<Rightarrow> Inl (400, UnknownPermission raw)
      | Some p \<Rightarrow>
          if \<not> is_permission raw then Inl (400, UnknownPermission raw)
          else if \<not> is_global \<and> is_global_only p then Inl (400, OnlyGlobally p)
          else normalize_loop is_global rest (set_add p out))"

definition normalize_grant :: "string \<Rightarrow> string option list \<Rightarrow> grant_check" where
  "normalize_grant scope requested =
     and_then (normalize_loop (scope = global_scope) requested [])
       (\<lambda>out. Inr (filter (\<lambda>p. p \<in> set out) all_permissions))"

definition manages_admins_in :: "access \<Rightarrow> string \<Rightarrow> bool" where
  "manages_admins_in a scope =
     (if scope = global_scope then can a ''admins.global.manage'' None else can a ''admins.manage'' (Some scope))"

definition may_grant :: "access \<Rightarrow> string \<Rightarrow> string list \<Rightarrow> grant_check" where
  "may_grant actor scope permissions =
     (if \<not> manages_admins_in actor scope
      then Inl (403, if scope = global_scope then NotGlobalManager else NotSchoolManager)
      else let own = permissions_in actor scope;
               beyond = filter (\<lambda>p. p \<notin> set own) permissions
           in if beyond \<noteq> [] then Inl (403, BeyondOwn beyond) else Inr permissions)"

definition may_manage_target :: "access \<Rightarrow> access \<Rightarrow> string \<Rightarrow> refusal + unit" where
  "may_manage_target actor target scope =
     (if acc_owner target then Inl OwnerInEnvironment
      else if \<not> manages_admins_in actor scope then Inl NotManagerHere
      else let own = permissions_in actor scope;
               theirs = (if scope = global_scope then acc_global target else school_set target scope)
           in if \<exists>p \<in> set theirs. p \<notin> set own then Inl TargetHoldsMore else Inr ())"

fun manage_all :: "access \<Rightarrow> access \<Rightarrow> string list \<Rightarrow> refusal + unit" where
  "manage_all actor target [] = Inr ()"
| "manage_all actor target (s # ss) =
     and_then (may_manage_target actor target s) (\<lambda>u. manage_all actor target ss)"

definition may_remove_admin :: "access \<Rightarrow> access \<Rightarrow> string list \<Rightarrow> refusal + unit" where
  "may_remove_admin actor target scopes =
     (if acc_owner target then Inl OwnerInEnvironment else manage_all actor target scopes)"

section \<open>Presets made in the panel\<close>

definition preset_label_max :: nat where "preset_label_max = 60"
definition preset_description_max :: nat where "preset_description_max = 300"
definition preset_key_max :: nat where "preset_key_max = 40"
definition custom_prefix :: string where "custom_prefix = ''custom_''"

text \<open>\<open>replace(/\\s+/g, ' ')\<close>: every run of blanks becomes one space.\<close>

fun squeeze :: "string \<Rightarrow> string" where
  "squeeze [] = []"
| "squeeze [c] = [if is_space c then CHR '' '' else c]"
| "squeeze (c # d # s) =
     (if is_space c then (if is_space d then squeeze (d # s) else CHR '' '' # squeeze (d # s))
      else c # squeeze (d # s))"

definition tidy_text :: "string option \<Rightarrow> string" where
  "tidy_text v = (case v of None \<Rightarrow> [] | Some s \<Rightarrow> trim (squeeze s))"

record preset_input =
  pi_label :: "string option"
  pi_description :: "string option"
  pi_scope :: "string option"
  pi_permissions :: "string option list"

record preset_checked =
  pc_label :: string
  pc_description :: string
  pc_scope :: string
  pc_permissions :: "string list"

definition normalize_preset :: "preset_input \<Rightarrow> string list \<Rightarrow> (nat \<times> refusal) + preset_checked" where
  "normalize_preset input own =
     (let label = tidy_text (pi_label input); description = tidy_text (pi_description input)
      in if label = [] then Inl (400, PresetNeedsName)
         else if preset_label_max < length label then Inl (400, PresetNameTooLong)
         else if preset_description_max < length description then Inl (400, PresetDescriptionTooLong)
         else if pi_scope input \<noteq> Some ''school'' \<and> pi_scope input \<noteq> Some ''global'' then Inl (400, PresetScopeUnknown)
         else and_then (normalize_grant (if pi_scope input = Some ''global'' then global_scope else ''school'') (pi_permissions input))
           (\<lambda>permissions.
              if permissions = [] then Inl (400, PresetEmpty)
              else let beyond = filter (\<lambda>p. p \<notin> set own) permissions
                   in if beyond \<noteq> [] then Inl (403, BeyondOwn beyond)
                      else Inr \<lparr>pc_label = label, pc_description = description,
                                pc_scope = the (pi_scope input), pc_permissions = permissions\<rparr>))"

text \<open>
  \<open>customPresetKey\<close>: accents are removed by Unicode decomposition (\<open>plain\<close>), every run of other
  characters becomes one underscore, and the first free numbered key is taken; \<open>now36\<close> is the time in
  base 36 used after a thousand attempts.
\<close>

definition slug_char :: "char \<Rightarrow> bool" where
  "slug_char c \<longleftrightarrow> is_digit c \<or> (let n = of_char c :: nat in 97 \<le> n \<and> n \<le> 122)"

fun underscore_runs :: "string \<Rightarrow> string" where
  "underscore_runs [] = []"
| "underscore_runs [c] = [if slug_char c then c else CHR ''_'']"
| "underscore_runs (c # d # s) =
     (if slug_char c then c # underscore_runs (d # s)
      else if slug_char d then CHR ''_'' # underscore_runs (d # s)
      else underscore_runs (d # s))"

definition strip_underscores :: "string \<Rightarrow> string" where
  "strip_underscores s = rev (dropWhile ((=) CHR ''_'') (rev (dropWhile ((=) CHR ''_'') s)))"

definition preset_slug :: "(string \<Rightarrow> string) \<Rightarrow> string \<Rightarrow> string" where
  "preset_slug plain lbl =
     (let s = take (preset_key_max - length custom_prefix - 4)
                (strip_underscores (underscore_runs (to_lower (plain lbl))))
      in if s = [] then ''vorlage'' else s)"

definition numbered_key :: "string \<Rightarrow> nat \<Rightarrow> string" where
  "numbered_key base n = (if n = 1 then base else base @ ''_'' @ dec_string n)"

definition custom_preset_key :: "(string \<Rightarrow> string) \<Rightarrow> string \<Rightarrow> string \<Rightarrow> string list \<Rightarrow> string" where
  "custom_preset_key plain now36 lbl taken =
     (let base = custom_prefix @ preset_slug plain lbl
      in case find (\<lambda>k. k \<notin> set taken \<and> \<not> is_built_in_preset k) (map (numbered_key base) [1..<1000]) of
           Some k \<Rightarrow> k
         | None \<Rightarrow> take preset_key_max (custom_prefix @ now36))"

section \<open>Upgrades of stored grants\<close>

record permission_upgrade =
  up_id :: string
  up_added :: "string list"
  up_follows :: "(string \<times> string) list"

definition permission_upgrades :: "permission_upgrade list" where
  "permission_upgrades =
    [\<lparr>up_id = ''admin-grants-recaps-v1'', up_added = [''recaps.view'', ''recaps.manage''],
      up_follows = [(''popups.view'', ''recaps.view''), (''popups.manage'', ''recaps.view''),
                    (''popups.manage'', ''recaps.manage'')]\<rparr>]"

definition everything_presets :: "string list" where
  "everything_presets = [''global_admin'', ''school_admin'']"

definition upgrade_fits :: "string \<Rightarrow> string \<Rightarrow> bool" where
  "upgrade_fits scope p \<longleftrightarrow> scope = global_scope \<or> \<not> is_global_only p"

definition upgrade_missing :: "string \<Rightarrow> string \<Rightarrow> string list \<Rightarrow> permission_upgrade \<Rightarrow> string list" where
  "upgrade_missing scope preset_name held up =
     (let every = (if preset_name \<in> set everything_presets then filter (upgrade_fits scope) (up_added up) else []);
          after = map snd (filter (\<lambda>(from, to). from \<in> set held \<and> upgrade_fits scope to) (up_follows up))
      in filter (\<lambda>p. is_permission (Some p) \<and> p \<notin> set held) (set_of (every @ after)))"

definition upgrade_grant :: "string \<Rightarrow> string \<Rightarrow> string list \<Rightarrow> permission_upgrade \<Rightarrow> string list option" where
  "upgrade_grant scope preset_name held up =
     (let missing = upgrade_missing scope preset_name held up
      in if missing \<noteq> [] then Some (held @ missing) else None)"

section \<open>The catalog is consistent\<close>

lemma distinct_catalog: "distinct all_permissions"
  by code_simp

lemma is_permission_iff: "is_permission (Some p) \<longleftrightarrow> p \<in> set all_permissions"
  by (auto simp: is_permission_def spec_by_key_def all_permissions_def find_None_iff)

lemma find_distinct:
  "distinct (map f xs) \<Longrightarrow> x \<in> set xs \<Longrightarrow> find (\<lambda>y. f y = f x) xs = Some x"
  by (induction xs) force+

lemma spec_by_key_mem: "d \<in> set permission_specs \<Longrightarrow> spec_by_key (spec_key d) = Some d"
  using distinct_catalog by (simp add: spec_by_key_def all_permissions_def find_distinct)

lemma school_permission_iff: "p \<in> set school_permissions \<longleftrightarrow> is_permission (Some p) \<and> \<not> is_global_only p"
proof
  assume "p \<in> set school_permissions"
  then obtain d where "d \<in> set permission_specs" "spec_scope d = SchoolScope" "p = spec_key d"
    by (auto simp: school_permissions_def)
  then show "is_permission (Some p) \<and> \<not> is_global_only p"
    by (simp add: spec_by_key_mem is_permission_def is_global_only_def)
next
  assume p: "is_permission (Some p) \<and> \<not> is_global_only p"
  then obtain d where d: "d \<in> set permission_specs" "p = spec_key d"
    by (auto simp: is_permission_iff all_permissions_def)
  with p have "spec_scope d = SchoolScope"
    by (cases "spec_scope d") (auto simp: is_global_only_def spec_by_key_mem)
  with d show "p \<in> set school_permissions" by (auto simp: school_permissions_def)
qed

section \<open>What a list of grants gives\<close>

lemma acc_owner_access_add [simp]: "acc_owner (access_add s p a) = acc_owner a"
  by (simp add: access_add_def)

lemma school_set_no_access [simp]: "school_set (no_access\<lparr>acc_owner := b\<rparr>) s = []"
  by (simp add: school_set_def no_access_def)

lemma global_access_add:
  "p \<in> set (acc_global (access_add s raw a)) \<longleftrightarrow>
     p \<in> set (acc_global a) \<or> (p = raw \<and> is_permission (Some raw) \<and> s = global_scope)"
  by (auto simp: access_add_def)

lemma school_access_add:
  "p \<in> set (school_set (access_add s raw a) t) \<longleftrightarrow>
     p \<in> set (school_set a t) \<or>
     (p = raw \<and> s = t \<and> is_permission (Some raw) \<and> s \<noteq> global_scope \<and> \<not> is_global_only raw)"
  by (auto simp: access_add_def school_set_def split: option.splits)

lemma access_add_list:
  "acc_owner (fold (access_add s) ps a) = acc_owner a"
  "p \<in> set (acc_global (fold (access_add s) ps a)) \<longleftrightarrow>
     p \<in> set (acc_global a) \<or> (p \<in> set ps \<and> is_permission (Some p) \<and> s = global_scope)"
  "p \<in> set (school_set (fold (access_add s) ps a) t) \<longleftrightarrow>
     p \<in> set (school_set a t) \<or>
     (p \<in> set ps \<and> s = t \<and> is_permission (Some p) \<and> s \<noteq> global_scope \<and> \<not> is_global_only p)"
  by (induction ps arbitrary: a) (auto simp: global_access_add school_access_add)

lemma access_add_grants:
  "acc_owner (fold (\<lambda>g. fold (access_add (gi_scope g)) (gi_permissions g)) gs a) = acc_owner a"
  "p \<in> set (acc_global (fold (\<lambda>g. fold (access_add (gi_scope g)) (gi_permissions g)) gs a)) \<longleftrightarrow>
     p \<in> set (acc_global a) \<or>
     (\<exists>g \<in> set gs. p \<in> set (gi_permissions g) \<and> is_permission (Some p) \<and> gi_scope g = global_scope)"
  "p \<in> set (school_set (fold (\<lambda>g. fold (access_add (gi_scope g)) (gi_permissions g)) gs a) t) \<longleftrightarrow>
     p \<in> set (school_set a t) \<or>
     (\<exists>g \<in> set gs. p \<in> set (gi_permissions g) \<and> gi_scope g = t \<and> is_permission (Some p) \<and> t \<noteq> global_scope \<and>
        \<not> is_global_only p)"
  by (induction gs arbitrary: a) (auto simp: access_add_list)

lemma owner_access_from [simp]: "acc_owner (access_from b gs) = b"
  by (simp add: access_from_def access_add_grants no_access_def)

lemma global_access_from:
  "p \<in> set (acc_global (access_from b gs)) \<longleftrightarrow>
     (\<exists>g \<in> set gs. p \<in> set (gi_permissions g) \<and> is_permission (Some p) \<and> gi_scope g = global_scope)"
  by (simp add: access_from_def access_add_grants no_access_def)

lemma school_access_from:
  "p \<in> set (school_set (access_from b gs) t) \<longleftrightarrow>
     (\<exists>g \<in> set gs. p \<in> set (gi_permissions g) \<and> gi_scope g = t \<and> is_permission (Some p) \<and> t \<noteq> global_scope \<and>
        \<not> is_global_only p)"
  by (simp add: access_from_def access_add_grants)

lemmas access_from_iff = owner_access_from global_access_from school_access_from

text \<open>What a holder may use in a scope is what the scope's permission list says.\<close>

lemma permissions_in_iff:
  "\<not> acc_owner a \<Longrightarrow> p \<in> set (permissions_in a s) \<longleftrightarrow>
     (if s = global_scope then p \<in> set (acc_global a)
      else p \<in> set school_permissions \<and> (p \<in> set (acc_global a) \<or> p \<in> set (school_set a s)))"
  by (auto simp: permissions_in_def can_def school_permission_iff)

lemma may_grant_Inr:
  "may_grant a s ps = Inr qs \<longleftrightarrow> manages_admins_in a s \<and> set ps \<subseteq> set (permissions_in a s) \<and> qs = ps"
  by (auto simp: may_grant_def Let_def filter_empty_conv)

lemma may_manage_target_Inr:
  "may_manage_target a t s = Inr u \<longleftrightarrow> \<not> acc_owner t \<and> manages_admins_in a s \<and>
     set (if s = global_scope then acc_global t else school_set t s) \<subseteq> set (permissions_in a s)"
  by (auto simp: may_manage_target_def Let_def)

lemma manage_all_Inr: "manage_all a t ss = Inr u \<longleftrightarrow> (\<forall>s \<in> set ss. may_manage_target a t s = Inr ())"
proof (induction ss)
  case (Cons s ss)
  then show ?case by (cases "may_manage_target a t s") auto
qed simp

section \<open>Requested lists\<close>

lemma normalize_loop_Inr:
  "normalize_loop g rs out = Inr out' \<Longrightarrow>
     set out' = set out \<union> {p. Some p \<in> set rs} \<and> None \<notin> set rs \<and>
     (\<forall>p. Some p \<in> set rs \<longrightarrow> is_permission (Some p) \<and> (g \<or> \<not> is_global_only p))"
  by (induction g rs out rule: normalize_loop.induct) (auto split: option.splits if_splits)

lemma normalize_grant_Inr:
  assumes "normalize_grant s rs = Inr ps"
  shows "set ps = {p. Some p \<in> set rs}" "distinct ps"
    "s \<noteq> global_scope \<Longrightarrow> set ps \<subseteq> set school_permissions" "None \<notin> set rs"
proof -
  from assms obtain out where loop: "normalize_loop (s = global_scope) rs [] = Inr out"
    and ps: "ps = filter (\<lambda>p. p \<in> set out) all_permissions"
    by (auto simp: normalize_grant_def elim: and_then_InrE)
  from normalize_loop_Inr [OF loop] have out: "set out = {p. Some p \<in> set rs}"
    and ok: "\<forall>p. Some p \<in> set rs \<longrightarrow> is_permission (Some p) \<and> (s = global_scope \<or> \<not> is_global_only p)"
    and none: "None \<notin> set rs" by auto
  show "set ps = {p. Some p \<in> set rs}" using ps out ok by (auto simp: is_permission_iff)
  then show "s \<noteq> global_scope \<Longrightarrow> set ps \<subseteq> set school_permissions"
    using ok by (auto simp: school_permission_iff)
  show "distinct ps" using ps distinct_catalog by simp
  show "None \<notin> set rs" by fact
qed

lemma normalize_loop_accepts:
  "\<forall>r \<in> set rs. is_permission r \<and> (g \<or> \<not> is_global_only (the r)) \<Longrightarrow> \<exists>out'. normalize_loop g rs out = Inr out'"
  by (induction g rs out rule: normalize_loop.induct) (auto split: option.splits simp: is_permission_def)

section \<open>Upgrades\<close>

lemma upgrade_missing_iff:
  "p \<in> set (upgrade_missing s pn held up) \<longleftrightarrow>
     is_permission (Some p) \<and> p \<notin> set held \<and> upgrade_fits s p \<and>
     (pn \<in> set everything_presets \<and> p \<in> set (up_added up) \<or> (\<exists>q \<in> set held. (q, p) \<in> set (up_follows up)))"
  by (force simp: upgrade_missing_def Let_def)

end
