(* ===== verification/Admin_Policy.thy ===== *)
theory Admin_Policy
  imports Prelude
begin

text \<open>
  The decisions of the admin login that need no database: \<^verbatim>\<open>src/security/adminLogin.ts\<close> (which password
  counts, one-time passwords, environment admins), \<^verbatim>\<open>adminSecondFactorPolicy.ts\<close> (which second factors are
  required and what confirms a login) and \<^verbatim>\<open>apiKeyPolicy.ts\<close> (what an issued key may call). \<open>null\<close> and
  \<open>undefined\<close> are \<open>None\<close>. \<open>passkeyRelyingParty\<close> rests on the URL parser: the parsed parts are its
  argument.
\<close>

section \<open>Passwords\<close>

text \<open>A value that is a string and not empty counts as true.\<close>

definition truthy :: "string option \<Rightarrow> bool" where
  "truthy v = (case v of None \<Rightarrow> False | Some s \<Rightarrow> s \<noteq> [])"

definition admin_password_hashes :: "string option \<Rightarrow> string option \<Rightarrow> string option \<Rightarrow> string list" where
  "admin_password_hashes admin_hash user_hash shared_hash =
     (if truthy admin_hash then [the admin_hash]
      else map the (filter truthy [user_hash, shared_hash]))"

definition admin_setup_window_ms :: millis where "admin_setup_window_ms = 15 * 60 * 1000"

definition grant_needs_one_time_password :: "bool \<Rightarrow> bool \<Rightarrow> bool" where
  "grant_needs_one_time_password is_untis_user has_password \<longleftrightarrow> is_untis_user \<or> \<not> has_password"

definition admin_can_sign_in :: "string option \<Rightarrow> bool \<Rightarrow> bool \<Rightarrow> bool" where
  "admin_can_sign_in admin_hash must_change needs_one_time =
     (if must_change then False else truthy admin_hash \<or> \<not> needs_one_time)"

definition valid_one_time_password :: "string option \<Rightarrow> bool" where
  "valid_one_time_password v = (case v of None \<Rightarrow> False | Some p \<Rightarrow> 8 \<le> length p \<and> length p \<le> 100)"

definition may_view_one_time_password ::
  "bool \<Rightarrow> millis option \<Rightarrow> string option \<Rightarrow> string option \<Rightarrow> string \<Rightarrow> millis \<Rightarrow> bool" where
  "may_view_one_time_password must_change expires enc granted_by viewer now \<longleftrightarrow>
     must_change \<and> enc \<noteq> None \<and> granted_by \<noteq> None \<and> granted_by = Some viewer \<and>
     expires \<noteq> None \<and> now < the expires"

definition admin_setup_lapsed :: "bool \<Rightarrow> millis option \<Rightarrow> millis \<Rightarrow> bool" where
  "admin_setup_lapsed must_change expires now \<longleftrightarrow> must_change \<and> expires \<noteq> None \<and> the expires \<le> now"

datatype password_kind = AdminPassword | AccountPassword | ConfigPassword

definition admin_password_kind :: "bool \<Rightarrow> bool \<Rightarrow> string option \<Rightarrow> bool option \<Rightarrow> password_kind" where
  "admin_password_kind has_account has_record admin_hash is_untis =
     (if truthy admin_hash then AdminPassword
      else if \<not> has_account then ConfigPassword
      else if is_untis \<noteq> Some True then AccountPassword
      else if has_record then AdminPassword else ConfigPassword)"

definition match_env_admin :: "string \<Rightarrow> string list \<Rightarrow> string option" where
  "match_env_admin username env_admins =
     (let wanted = to_lower (trim username) in find (\<lambda>n. to_lower n = wanted) env_admins)"

text \<open>What \<open>new URL(origin)\<close> answers, or \<open>None\<close> when it throws.\<close>

record parsed_origin =
  po_origin :: string
  po_protocol :: string
  po_hostname :: string

text \<open>\<open>/^\\d+\\.\\d+\\.\\d+\\.\\d+$/\<close>\<close>

fun dotted :: "nat \<Rightarrow> bool \<Rightarrow> string \<Rightarrow> bool" where
  "dotted n seen [] \<longleftrightarrow> n = 0 \<and> seen"
| "dotted n seen (c # cs) =
     (if is_digit c then dotted n True cs
      else if c = CHR ''.'' \<and> seen \<and> 0 < n then dotted (n - 1) False cs else False)"

definition passkey_relying_party :: "(string \<Rightarrow> parsed_origin option) \<Rightarrow> string option \<Rightarrow> string list \<Rightarrow> (string \<times> string) option" where
  "passkey_relying_party parse_url origin allowed =
     (if \<not> truthy origin then None
      else case parse_url (the origin) of
        None \<Rightarrow> None
      | Some u \<Rightarrow>
          if po_origin u \<noteq> the origin then None
          else if po_protocol u \<noteq> ''https:'' \<and> \<not> (po_protocol u = ''http:'' \<and> po_hostname u = ''localhost'') then None
          else if dotted 3 False (po_hostname u) \<or> starts_with ''['' (po_hostname u) then None
          else if allowed \<noteq> [] \<and> po_origin u \<notin> set allowed then None
          else Some (po_origin u, po_hostname u))"

section \<open>Second factors\<close>

datatype factor_kind = TotpFactor | PasskeyFactor

text \<open>\<open>FactorState\<close>, \<open>Requirements\<close> and \<open>ServerRequirements\<close>: one flag per kind.\<close>

record factors =
  for_totp :: bool
  for_passkey :: bool

fun factor_of :: "factors \<Rightarrow> factor_kind \<Rightarrow> bool" where
  "factor_of f TotpFactor = for_totp f"
| "factor_of f PasskeyFactor = for_passkey f"

definition requirements_for :: "bool option \<Rightarrow> bool \<Rightarrow> factors \<Rightarrow> factors" where
  "requirements_for setting owner server =
     \<lparr>for_totp = for_totp server,
      for_passkey = (if owner \<or> setting = None then for_passkey server else the setting)\<rparr>"

definition missing_factors :: "factors \<Rightarrow> factors \<Rightarrow> factor_kind list" where
  "missing_factors required have =
     filter (\<lambda>k. factor_of required k \<and> \<not> factor_of have k) [TotpFactor, PasskeyFactor]"

definition setup_pending :: "factors \<Rightarrow> factors \<Rightarrow> bool" where
  "setup_pending required have \<longleftrightarrow> 0 < length (missing_factors required have)"

definition may_remove_factor :: "factor_kind \<Rightarrow> factors \<Rightarrow> factors \<Rightarrow> bool" where
  "may_remove_factor k required remaining \<longleftrightarrow> \<not> factor_of required k \<or> factor_of remaining k"

definition login_steps :: "factors \<Rightarrow> factors \<Rightarrow> factors" where
  "login_steps required have =
     (if for_passkey required \<and> for_passkey have then \<lparr>for_totp = False, for_passkey = True\<rparr> else have)"

datatype requirement_change = ChangeOk | ChangeOwner | ChangeSelfLower

definition requirement_change_of :: "bool \<Rightarrow> bool \<Rightarrow> bool option \<Rightarrow> bool \<Rightarrow> requirement_change" where
  "requirement_change_of self target_owner required server_default =
     (if target_owner then ChangeOwner
      else let effective = (case required of None \<Rightarrow> server_default | Some r \<Rightarrow> r)
           in if self \<and> \<not> effective then ChangeSelfLower else ChangeOk)"

section \<open>Integration keys\<close>

definition issued_api_key_scopes :: "string list" where
  "issued_api_key_scopes = [''core:read'', ''core:write'', ''auth:session'']"

definition parse_api_key_scopes :: "string option \<Rightarrow> string list" where
  "parse_api_key_scopes v =
     (let requested = filter (\<lambda>s. s \<noteq> []) (map trim (split_on CHR '','' (case v of None \<Rightarrow> ''*'' | Some s \<Rightarrow> s)))
      in if requested \<noteq> [] then requested else [''*''])"

definition serialize_api_key_scopes :: "string list \<Rightarrow> string" where
  "serialize_api_key_scopes scopes = join_with '','' (sort (remdups scopes))"

definition required_api_key_scope :: "string \<Rightarrow> string \<Rightarrow> string" where
  "required_api_key_scope req_method path =
     (let read_only = req_method \<in> {''GET'', ''HEAD'', ''OPTIONS''}
      in if starts_with ''/auth/'' path then ''auth:session''
         else if read_only then ''core:read'' else ''core:write'')"

definition has_api_key_scope :: "string option \<Rightarrow> string \<Rightarrow> bool" where
  "has_api_key_scope stored required =
     (let scopes = parse_api_key_scopes stored in ''*'' \<in> set scopes \<or> required \<in> set scopes)"

end
