(* ===== verification/Totp.thy ===== *)
theory Totp
  imports Crypto
begin

unbundle bit_operations_syntax

text \<open>
  \<^verbatim>\<open>src/security/totp.ts\<close>: base 32, the six digits of a step, which step a typed code belongs to, recovery
  codes, and the sealed secret. The shift registers are 32-bit words, as JavaScript's \<open><<\<close>, \<open>>>>\<close> and
  \<open>|\<close> compute. HMAC-SHA1 is a parameter, the other primitives are those of \<open>Crypto\<close>; random bytes are
  arguments. The theorems at the end: what is encoded is decoded to itself, and each step of \<open>verify_totp\<close>
  and \<open>consume_recovery_code\<close> accepts.
\<close>

section \<open>Base 32\<close>

definition totp_alphabet :: string where
  "totp_alphabet = ''ABCDEFGHIJKLMNOPQRSTUVWXYZ234567''"

text \<open>The inner loop: five bits at a time from the top of the register.\<close>

fun emit32 :: "nat \<Rightarrow> 32 word \<Rightarrow> string" where
  "emit32 bits v =
     (if 5 \<le> bits then totp_alphabet ! unat (drop_bit (bits - 5) v AND 31) # emit32 (bits - 5) v else [])"

declare emit32.simps [simp del]

fun base32_loop :: "nat \<Rightarrow> 32 word \<Rightarrow> buffer \<Rightarrow> string" where
  "base32_loop bits v [] =
     (if 0 < bits then [totp_alphabet ! unat (push_bit (5 - bits) v AND 31)] else [])"
| "base32_loop bits v (b # bs) =
     (let v' = push_bit 8 v OR ucast b in emit32 (bits + 8) v' @ base32_loop ((bits + 8) mod 5) v' bs)"

definition base32_encode :: "buffer \<Rightarrow> string" where
  "base32_encode bs = base32_loop 0 0 bs"

definition upper_char :: "char \<Rightarrow> char" where
  "upper_char c = (let n = of_char c :: nat in if 97 \<le> n \<and> n \<le> 122 then char_of (n - 32) else c)"

definition to_upper :: "string \<Rightarrow> string" where
  "to_upper s = map upper_char s"

fun unbase32_loop :: "nat \<Rightarrow> 32 word \<Rightarrow> string \<Rightarrow> string + buffer" where
  "unbase32_loop bits v [] = Inr []"
| "unbase32_loop bits v (c # cs) =
     (case find_index ((=) c) totp_alphabet of
        None \<Rightarrow> Inl ''invalid base32''
      | Some i \<Rightarrow>
          (let v' = push_bit 5 v OR of_nat i; bits' = bits + 5
           in if 8 \<le> bits'
              then and_then (unbase32_loop (bits' - 8) v' cs)
                     (\<lambda>rest. Inr (ucast (drop_bit (bits' - 8) v' AND 255) # rest))
              else unbase32_loop bits' v' cs))"

definition base32_decode :: "string \<Rightarrow> string + buffer" where
  "base32_decode text =
     unbase32_loop 0 0 (filter (\<lambda>c. \<not> is_space c \<and> c \<noteq> CHR ''='' \<and> c \<noteq> CHR ''-'') (to_upper text))"

definition generate_totp_secret :: "buffer \<Rightarrow> string" where
  "generate_totp_secret random20 = base32_encode random20"

section \<open>Codes\<close>

definition step_seconds :: int where "step_seconds = 30"
definition totp_digits :: nat where "totp_digits = 6"

text \<open>\<open>Math.floor(nowMs / 1000 / STEP_SECONDS)\<close>: exact for whole milliseconds.\<close>

definition totp_step :: "millis \<Rightarrow> int" where
  "totp_step now = now div (1000 * step_seconds)"

definition totp_code :: "(buffer \<Rightarrow> buffer \<Rightarrow> buffer) \<Rightarrow> string \<Rightarrow> int \<Rightarrow> string + string" where
  "totp_code hmac_sha1 secret step =
     and_then (counter_bytes step)
       (\<lambda>counter. and_then (base32_decode secret)
         (\<lambda>key.
            let digest = hmac_sha1 key counter;
                offset = unat (last digest AND 15)
            in if digest = [] \<or> length digest < offset + 4 then Inl out_of_range
               else Inr (pad_zero totp_digits
                      (dec_string (be_value (take 4 (drop offset digest)) mod 2 ^ 31 mod 10 ^ totp_digits)))))"

fun first_step :: "(int \<Rightarrow> string + string) \<Rightarrow> string \<Rightarrow> int \<Rightarrow> int list \<Rightarrow> string + int option" where
  "first_step code digits last_used [] = Inr None"
| "first_step code digits last_used (s # ss) =
     (if s \<le> last_used then first_step code digits last_used ss
      else and_then (code s)
        (\<lambda>c. if c = digits then Inr (Some s) else first_step code digits last_used ss))"

definition verify_totp :: "(buffer \<Rightarrow> buffer \<Rightarrow> buffer) \<Rightarrow> string \<Rightarrow> string \<Rightarrow> millis \<Rightarrow> int \<Rightarrow> string + int option" where
  "verify_totp hmac_sha1 secret code now last_used =
     (let digits = filter (\<lambda>c. \<not> is_space c) code
      in if length digits \<noteq> 6 \<or> \<not> list_all is_digit digits then Inr None
         else let current = totp_step now
              in first_step (totp_code hmac_sha1 secret) digits last_used [current - 1, current, current + 1])"

section \<open>Recovery codes\<close>

definition recovery_code_count :: nat where "recovery_code_count = 10"

definition base32_char :: "char \<Rightarrow> bool" where
  "base32_char c = (let n = of_char c :: nat in (65 \<le> n \<and> n \<le> 90) \<or> (50 \<le> n \<and> n \<le> 55))"

definition normalize_recovery_code :: "string \<Rightarrow> string" where
  "normalize_recovery_code code = filter base32_char (to_upper code)"

definition hash_recovery_code :: "primitives \<Rightarrow> string \<Rightarrow> string" where
  "hash_recovery_code pr code = hex_encode (sha256_of pr (utf8 (normalize_recovery_code code)))"

text \<open>One code from seven random bytes.\<close>

definition recovery_code :: "buffer \<Rightarrow> string" where
  "recovery_code random7 =
     (let raw = to_lower (take 10 (base32_encode random7)) in take 5 raw @ ''-'' @ drop 5 raw)"

definition generate_recovery_codes :: "(nat \<Rightarrow> buffer) \<Rightarrow> string list" where
  "generate_recovery_codes random7 = map (\<lambda>i. recovery_code (random7 i)) [0..<recovery_code_count]"

text \<open>The last position that matches, as \<open>forEach\<close> leaves it.\<close>

definition last_match :: "string list \<Rightarrow> string \<Rightarrow> nat option" where
  "last_match hashes wanted =
     fold (\<lambda>i m. if hashes ! i = wanted then Some i else m) [0..<length hashes] None"

definition consume_recovery_code :: "primitives \<Rightarrow> string list \<Rightarrow> string \<Rightarrow> string list option" where
  "consume_recovery_code pr hashes code =
     (if length (normalize_recovery_code code) \<noteq> 10 then None
      else case last_match hashes (hash_recovery_code pr code) of
        None \<Rightarrow> None
      | Some i \<Rightarrow> Some (take i hashes @ drop (Suc i) hashes))"

section \<open>The secret at rest\<close>

definition seal_key :: "primitives \<Rightarrow> string \<Rightarrow> buffer" where
  "seal_key pr master = hmac pr (utf8 master) (utf8 ''pokyh-admin-totp-secret-v1'')"

definition seal_secret :: "primitives \<Rightarrow> buffer \<Rightarrow> string \<Rightarrow> string \<Rightarrow> string" where
  "seal_secret pr nonce plain master =
     (let (body, tag) = gcm_seal pr (seal_key pr master) nonce [] (utf8 plain)
      in join_with ''.'' [''v1'', b64url_encode nonce, b64url_encode body, b64url_encode tag])"

definition open_secret :: "primitives \<Rightarrow> string \<Rightarrow> string \<Rightarrow> string + string" where
  "open_secret pr sealed master =
     (let parts = split_on CHR ''.'' sealed; part = (\<lambda>i. if i < length parts then parts ! i else [])
      in if part 0 \<noteq> ''v1'' \<or> part 1 = [] \<or> part 2 = [] \<or> part 3 = [] then Inl ''unreadable sealed secret''
         else case gcm_open pr (seal_key pr master) (b64_decode (part 1)) [] (b64_decode (part 2)) (b64_decode (part 3)) of
                None \<Rightarrow> Inl ''Unsupported state or unable to authenticate data''
              | Some plain \<Rightarrow> Inr (of_utf8 plain))"

section \<open>Encoding and decoding\<close>

text \<open>The number a list of digits of width \<open>w\<close> stands for, most significant first.\<close>

fun digits_value :: "nat \<Rightarrow> nat list \<Rightarrow> nat" where
  "digits_value w [] = 0"
| "digits_value w (d # ds) = d * 2 ^ (w * length ds) + digits_value w ds"

lemma digits_value_append:
  "digits_value w (xs @ ys) = digits_value w xs * 2 ^ (w * length ys) + digits_value w ys"
  by (induction xs) (simp_all add: algebra_simps power_add)

lemma digits_value_less: "\<forall>d \<in> set ds. d < 2 ^ w \<Longrightarrow> digits_value w ds < 2 ^ (w * length ds)"
proof (induction ds)
  case (Cons d ds)
  then have "d * 2 ^ (w * length ds) + digits_value w ds < d * 2 ^ (w * length ds) + 2 ^ (w * length ds)" by simp
  also have "\<dots> = (d + 1) * 2 ^ (w * length ds)" by simp
  also have "\<dots> \<le> 2 ^ w * 2 ^ (w * length ds)" using Cons.prems by (intro mult_le_mono1) simp
  finally show ?case by (simp add: power_add)
qed simp

lemma digits_value_inject:
  "length xs = length ys \<Longrightarrow> \<forall>d \<in> set xs. d < 2 ^ w \<Longrightarrow> \<forall>d \<in> set ys. d < 2 ^ w \<Longrightarrow>
   digits_value w xs = digits_value w ys \<Longrightarrow> xs = ys"
proof (induction xs ys rule: list_induct2)
  case (Cons x xs y ys)
  let ?B = "2 ^ (w * length xs) :: nat"
  have less: "digits_value w xs < ?B" "digits_value w ys < ?B"
    using digits_value_less [of xs w] digits_value_less [of ys w] Cons.prems Cons.hyps by auto
  from Cons.prems Cons.hyps have eq: "x * ?B + digits_value w xs = y * ?B + digits_value w ys" by simp
  have "x = (x * ?B + digits_value w xs) div ?B" "y = (y * ?B + digits_value w ys) div ?B" using less by simp_all
  with eq have "x = y" by simp
  with eq Cons show ?case by simp
qed simp

text \<open>One step of a shift register: the low \<open>n\<close> bits move up and the digit comes in below.\<close>

lemma shift_in:
  assumes "n + k \<le> 32" "d < 2 ^ k"
  shows "unat (push_bit k (v :: 32 word) OR of_nat d) mod 2 ^ (n + k) = (unat v mod 2 ^ n) * 2 ^ k + d"
proof -
  have d32: "d < 2 ^ 32" using assms by (metis le_add2 le_trans less_le_trans one_le_numeral power_increasing)
  have tb: "take_bit k d = d" using assms(2) by (simp add: take_bit_nat_eq_self_iff)
  have du: "unat (of_nat d :: 32 word) = d" using d32 by (simp add: unsigned_of_nat take_bit_eq_mod)
  have "take_bit (n + k) (unat (push_bit k v OR of_nat d)) = push_bit k (take_bit n (unat v)) OR d"
  proof (rule bit_eqI)
    fix i
    have "bit (unat (push_bit k v OR of_nat d)) i \<longleftrightarrow> i < 32 \<and> (k \<le> i \<and> bit v (i - k) \<or> bit d i)" 
      using d32 du by (auto simp: bit_unsigned_iff bit_or_iff bit_push_bit_iff bit_of_nat_iff possible_bit_def)
    moreover have "bit d i \<Longrightarrow> i < k" using tb by (metis bit_take_bit_iff)
    ultimately show "bit (take_bit (n + k) (unat (push_bit k v OR of_nat d))) i = bit (push_bit k (take_bit n (unat v)) OR d) i"
      using assms by (auto simp: bit_take_bit_iff bit_or_iff bit_push_bit_iff bit_unsigned_iff possible_bit_def)
  qed
  moreover have "push_bit k (take_bit n (unat v)) OR d = push_bit k (take_bit n (unat v)) + d"
  proof -
    have "push_bit k (take_bit n (unat v)) AND d = 0"
    proof (rule bit_eqI)
      fix i
      have "bit d i \<Longrightarrow> i < k" using tb by (metis bit_take_bit_iff)
      then show "bit (push_bit k (take_bit n (unat v)) AND d) i = bit (0::nat) i"
        by (auto simp: bit_and_iff bit_push_bit_iff)
    qed
    then show ?thesis by (simp add: disjunctive_add_eq_or)
  qed
  ultimately show ?thesis by (simp add: take_bit_eq_mod push_bit_eq_mult)
qed


lemma top_digit:
  "unat (drop_bit k v AND 31) = unat v div 2 ^ k mod 2 ^ 5"
  "unat (drop_bit k v AND 255) = unat v div 2 ^ k mod 2 ^ 8" for v :: "32 word"
proof -
  have m: "(31 :: 32 word) = mask 5" "(255 :: 32 word) = mask 8" by (simp_all add: mask_eq_exp_minus_1)
  show "unat (drop_bit k v AND 31) = unat v div 2 ^ k mod 2 ^ 5"
    "unat (drop_bit k v AND 255) = unat v div 2 ^ k mod 2 ^ 8"
    by (simp_all only: m take_bit_eq_mask [symmetric] unsigned_take_bit_eq unsigned_drop_bit_eq)
      (use unsigned_less [of v, where ?'a = nat] in \<open>simp_all add: take_bit_eq_mod drop_bit_eq_div\<close>)
qed

definition low :: "nat \<Rightarrow> 32 word \<Rightarrow> nat" where
  "low n v = unat v mod 2 ^ n"

lemma low_split: "low (k + w) v = (unat v div 2 ^ k mod 2 ^ w) * 2 ^ k + low k v"
  by (simp add: low_def power_add mod_mult2_eq)

lemma low_less [simp]: "low n v < 2 ^ n"
  by (simp add: low_def)

lemma low_shift: "n + k \<le> 32 \<Longrightarrow> d < 2 ^ k \<Longrightarrow> low (n + k) (push_bit k v OR of_nat d) = low n v * 2 ^ k + d"
  by (simp add: low_def shift_in)

section \<open>The digits that are emitted\<close>

definition index32 :: "char \<Rightarrow> nat" where
  "index32 c = the (find_index ((=) c) totp_alphabet)"

lemma index32_letter: "i < 32 \<Longrightarrow> find_index ((=) (totp_alphabet ! i)) totp_alphabet = Some i"
proof -
  have "\<forall>i \<in> set [0..<32]. find_index ((=) (totp_alphabet ! i)) totp_alphabet = Some i" by code_simp
  then show "i < 32 \<Longrightarrow> find_index ((=) (totp_alphabet ! i)) totp_alphabet = Some i" by simp
qed

lemma emit32_digits:
  "\<exists>ds. emit32 n v = map ((!) totp_alphabet) ds \<and> (\<forall>d \<in> set ds. d < 32) \<and> length ds = n div 5 \<and>
     low n v = digits_value 5 ds * 2 ^ (n mod 5) + low (n mod 5) v"
proof (induction n v rule: emit32.induct)
  case (1 n v)
  show ?case
  proof (cases "5 \<le> n")
    case True
    from "1.IH" [OF this] obtain ds where ds: "emit32 (n - 5) v = map ((!) totp_alphabet) ds" "\<forall>d \<in> set ds. d < 32"
      "length ds = (n - 5) div 5" "low (n - 5) v = digits_value 5 ds * 2 ^ ((n - 5) mod 5) + low ((n - 5) mod 5) v" by auto
    let ?d = "unat v div 2 ^ (n - 5) mod 2 ^ 5"
    have n: "(n - 5) mod 5 = n mod 5" "n div 5 = Suc ((n - 5) div 5)" "n - 5 = 5 * ((n - 5) div 5) + n mod 5"
      using True mult_div_mod_eq [of 5 "n - 5"] by (simp_all add: le_mod_geq [symmetric] le_div_geq)
    have "low n v = ?d * 2 ^ (n - 5) + low (n - 5) v" using low_split [of "n - 5" 5 v] True by simp
    also have "\<dots> = ?d * 2 ^ (5 * length ds + n mod 5) + (digits_value 5 ds * 2 ^ (n mod 5) + low (n mod 5) v)"
      using ds n by simp
    also have "\<dots> = digits_value 5 (?d # ds) * 2 ^ (n mod 5) + low (n mod 5) v"
      by (simp add: power_add algebra_simps)
    finally have "low n v = digits_value 5 (?d # ds) * 2 ^ (n mod 5) + low (n mod 5) v" .
    moreover have "emit32 n v = map ((!) totp_alphabet) (?d # ds)"
      using True ds(1) by (subst emit32.simps) (simp add: top_digit del: One_nat_def)
    moreover have "length (?d # ds) = n div 5" using ds n by simp
    moreover have "\<forall>d \<in> set (?d # ds). d < 32" using ds by simp
    ultimately show ?thesis by blast
  next
    case False
    then have "emit32 n v = []" by (subst emit32.simps) simp
    with False show ?thesis by (intro exI [of _ "[]"]) simp
  qed
qed


lemma low_zero [simp]: "low n 0 = 0" "low 0 v = 0"
  by (simp_all add: low_def)

lemma base32_loop_digits:
  "bits < 5 \<Longrightarrow> \<exists>ds e. base32_loop bits v bs = map ((!) totp_alphabet) ds \<and> (\<forall>d \<in> set ds. d < 32) \<and>
     5 * length ds = bits + 8 * length bs + e \<and> e < 5 \<and>
     digits_value 5 ds = (low bits v * 2 ^ (8 * length bs) + digits_value 8 (map unat bs)) * 2 ^ e"
proof (induction bits v bs rule: base32_loop.induct)
  case (1 bits v)
  show ?case
  proof (cases "0 < bits")
    case True
    with 1 have "low (bits + (5 - bits)) (push_bit (5 - bits) v OR of_nat 0) = low bits v * 2 ^ (5 - bits) + 0"
      by (intro low_shift) simp_all
    with 1 have "unat (push_bit (5 - bits) v AND 31) = low bits v * 2 ^ (5 - bits)"
      using top_digit(1) [of 0 "push_bit (5 - bits) v"] by (simp add: low_def)
    moreover have "unat (push_bit (5 - bits) v AND 31) < 32"
      using top_digit(1) [of 0 "push_bit (5 - bits) v"] by simp
    ultimately show ?thesis using True 1
      by (intro exI [of _ "[unat (push_bit (5 - bits) v AND 31)]"] exI [of _ "5 - bits"]) simp
  next
    case False
    then show ?thesis by (intro exI [of _ "[]"] exI [of _ 0]) simp
  qed
next
  case (2 bits v b bs)
  define v' where "v' = push_bit 8 v OR ucast b"
  let ?r = "(bits + 8) mod 5"
  have b: "(ucast b :: 32 word) = of_nat (unat b)" by simp
  have "unat b < 2 ^ 8" using unsigned_less [of b, where ?'a = nat] by simp
  with "2.prems" have low: "low (bits + 8) v' = low bits v * 2 ^ 8 + unat b"
    unfolding v'_def b by (intro low_shift) simp_all
  obtain ds1 where ds1: "emit32 (bits + 8) v' = map ((!) totp_alphabet) ds1" "\<forall>d \<in> set ds1. d < 32"
    "length ds1 = (bits + 8) div 5" "low (bits + 8) v' = digits_value 5 ds1 * 2 ^ ?r + low ?r v'"
    using emit32_digits by blast
  obtain ds2 e where ds2: "base32_loop ?r v' bs = map ((!) totp_alphabet) ds2" "\<forall>d \<in> set ds2. d < 32"
    "5 * length ds2 = ?r + 8 * length bs + e" "e < 5"
    "digits_value 5 ds2 = (low ?r v' * 2 ^ (8 * length bs) + digits_value 8 (map unat bs)) * 2 ^ e"
    using "2.IH" [OF v'_def] by auto
  have "5 * length (ds1 @ ds2) = bits + 8 * length (b # bs) + e"
    using ds1(3) ds2(3) mult_div_mod_eq [of 5 "bits + 8"] by simp
  moreover have "digits_value 5 (ds1 @ ds2) = (low bits v * 2 ^ (8 * length (b # bs)) + digits_value 8 (map unat (b # bs))) * 2 ^ e"
  proof -
    have "digits_value 5 (ds1 @ ds2) = digits_value 5 ds1 * 2 ^ (?r + 8 * length bs + e) +
        (low ?r v' * 2 ^ (8 * length bs) + digits_value 8 (map unat bs)) * 2 ^ e"
      by (simp only: digits_value_append ds2)
    also have "\<dots> = ((digits_value 5 ds1 * 2 ^ ?r + low ?r v') * 2 ^ (8 * length bs) + digits_value 8 (map unat bs)) * 2 ^ e"
      by (simp only: power_add algebra_simps)
    also have "\<dots> = ((low bits v * 2 ^ 8 + unat b) * 2 ^ (8 * length bs) + digits_value 8 (map unat bs)) * 2 ^ e"
      using ds1(4) low by simp
    also have "\<dots> = (low bits v * 2 ^ (8 * length (b # bs)) + digits_value 8 (map unat (b # bs))) * 2 ^ e"
      by (simp add: power_add algebra_simps)
    finally show ?thesis .
  qed
  ultimately show ?case using ds1(1,2) ds2(1,2,4)
    by (intro exI [of _ "ds1 @ ds2"] exI [of _ e]) (auto simp: Let_def v'_def)
qed

lemma shift_div: "(a * 2 ^ (k + m) + r) div 2 ^ m = a * 2 ^ k + r div (2 ^ m :: nat)"
  by (simp add: power_add mult.assoc [symmetric])

lemma unbase32_loop_digits:
  "bits < 8 \<Longrightarrow> \<forall>d \<in> set ds. d < 32 \<Longrightarrow> \<exists>out. unbase32_loop bits v (map ((!) totp_alphabet) ds) = Inr out \<and>
     length out = (bits + 5 * length ds) div 8 \<and>
     digits_value 8 (map unat out) = (low bits v * 2 ^ (5 * length ds) + digits_value 5 ds) div 2 ^ ((bits + 5 * length ds) mod 8)"
proof (induction ds arbitrary: bits v)
  case Nil
  then show ?case by simp
next
  case (Cons d ds)
  define v' where "v' = push_bit 5 v OR of_nat d"
  from Cons.prems have low: "low (bits + 5) v' = low bits v * 2 ^ 5 + d" by (simp add: v'_def low_shift)
  have step: "find_index ((=) (totp_alphabet ! d)) totp_alphabet = Some d" using Cons.prems by (simp add: index32_letter)
  show ?case
  proof (cases "8 \<le> bits + 5")
    case True
    let ?n = "bits + 5 - 8" and ?L = "5 * length ds"
    let ?b = "ucast (drop_bit ?n v' AND 255) :: byte"
    have "?n < 8" using Cons.prems by simp
    with Cons.IH [of ?n v'] Cons.prems obtain out where out: "unbase32_loop ?n v' (map ((!) totp_alphabet) ds) = Inr out"
      "length out = (?n + ?L) div 8"
      "digits_value 8 (map unat out) = (low ?n v' * 2 ^ ?L + digits_value 5 ds) div 2 ^ ((?n + ?L) mod 8)" by auto
    have "unat ?b = unat (drop_bit ?n v' AND 255)"
      using top_digit(2) [of ?n v'] by (simp add: unsigned_ucast_eq take_bit_eq_mod)
    then have b: "unat ?b = unat v' div 2 ^ ?n mod 2 ^ 8" by (simp add: top_digit)
    have n: "bits + 5 = ?n + 8" using True by simp
    have mods: "(bits + 5 * length (d # ds)) mod 8 = (?n + ?L) mod 8" "(bits + 5 * length (d # ds)) div 8 = Suc ((?n + ?L) div 8)"
    proof -
      have "bits + 5 * length (d # ds) = (?n + ?L) + 8" using True by simp
      then show "(bits + 5 * length (d # ds)) mod 8 = (?n + ?L) mod 8" "(bits + 5 * length (d # ds)) div 8 = Suc ((?n + ?L) div 8)"
        by (simp_all only: mod_add_self2 div_add_self2)
    qed
    have top: "low (bits + 5) v' = unat ?b * 2 ^ ?n + low ?n v'"
      using low_split [of ?n 8 v'] n [symmetric] b by metis
    let ?m = "(?n + ?L) mod 8"
    have split: "?n + ?L = 8 * length out + ?m" using out(2) by simp
    have "low bits v * 2 ^ (5 * length (d # ds)) + digits_value 5 (d # ds) = low (bits + 5) v' * 2 ^ ?L + digits_value 5 ds"
      by (simp add: low power_add algebra_simps)
    then have sum: "low bits v * 2 ^ (5 * length (d # ds)) + digits_value 5 (d # ds) =
        unat ?b * 2 ^ (?n + ?L) + (low ?n v' * 2 ^ ?L + digits_value 5 ds)"
      unfolding top by (simp add: power_add algebra_simps)
    have "(unat ?b * 2 ^ (?n + ?L) + (low ?n v' * 2 ^ ?L + digits_value 5 ds)) div 2 ^ ?m =
        unat ?b * 2 ^ (8 * length out) + digits_value 8 (map unat out)"
      unfolding out(3) by (subst split) (rule shift_div)
    with sum have "(low bits v * 2 ^ (5 * length (d # ds)) + digits_value 5 (d # ds)) div 2 ^ ?m =
        unat ?b * 2 ^ (8 * length out) + digits_value 8 (map unat out)" by (rule ssubst [where P = "\<lambda>x. x div 2 ^ ?m = _"])
    then show ?thesis using out step True mods
      by (intro exI [of _ "?b # out"]) (simp add: Let_def v'_def [symmetric])
  next
    case False
    from Cons.IH [of "bits + 5" v'] Cons.prems False obtain out where out:
      "unbase32_loop (bits + 5) v' (map ((!) totp_alphabet) ds) = Inr out"
      "length out = (bits + 5 + 5 * length ds) div 8"
      "digits_value 8 (map unat out) =
         (low (bits + 5) v' * 2 ^ (5 * length ds) + digits_value 5 ds) div 2 ^ ((bits + 5 + 5 * length ds) mod 8)" by auto
    then show ?thesis using step False low
      by (intro exI [of _ out]) (simp add: Let_def v'_def [symmetric] power_add algebra_simps)
  qed
qed

lemma letter32_clean: "i < 32 \<Longrightarrow> upper_char (totp_alphabet ! i) = totp_alphabet ! i \<and> \<not> is_space (totp_alphabet ! i) \<and>
    totp_alphabet ! i \<noteq> CHR ''='' \<and> totp_alphabet ! i \<noteq> CHR ''-''"
proof -
  have "\<forall>i \<in> set [0..<32]. upper_char (totp_alphabet ! i) = totp_alphabet ! i \<and> \<not> is_space (totp_alphabet ! i) \<and>
    totp_alphabet ! i \<noteq> CHR ''='' \<and> totp_alphabet ! i \<noteq> CHR ''-''" by code_simp
  then show "i < 32 \<Longrightarrow> upper_char (totp_alphabet ! i) = totp_alphabet ! i \<and> \<not> is_space (totp_alphabet ! i) \<and>
    totp_alphabet ! i \<noteq> CHR ''='' \<and> totp_alphabet ! i \<noteq> CHR ''-''" by simp
qed

lemma map_unat_inject: "map unat xs = map unat (ys :: buffer) \<Longrightarrow> xs = ys"
  by (metis inj_on_def list.inj_map_strong unsigned_word_eqI)

lemma base32_decode_encode: "base32_decode (base32_encode bs) = Inr bs"
proof -
  obtain ds e where ds: "base32_encode bs = map ((!) totp_alphabet) ds" "\<forall>d \<in> set ds. d < 32"
    "5 * length ds = 8 * length bs + e" "e < 5" "digits_value 5 ds = digits_value 8 (map unat bs) * 2 ^ e"
    using base32_loop_digits [of 0 0 bs] by (auto simp: base32_encode_def)
  then have clean: "filter (\<lambda>c. \<not> is_space c \<and> c \<noteq> CHR ''='' \<and> c \<noteq> CHR ''-'') (to_upper (map ((!) totp_alphabet) ds)) =
      map ((!) totp_alphabet) ds"
    by (induction ds) (simp_all add: to_upper_def letter32_clean)
  obtain out where out: "unbase32_loop 0 0 (map ((!) totp_alphabet) ds) = Inr out"
    "length out = (5 * length ds) div 8" "digits_value 8 (map unat out) = digits_value 5 ds div 2 ^ ((5 * length ds) mod 8)"
    using unbase32_loop_digits [of 0 ds 0] ds(2) by auto
  from ds have "length out = length bs" "digits_value 8 (map unat out) = digits_value 8 (map unat bs)"
    using out by simp_all
  then have "map unat out = map unat bs"
    by (intro digits_value_inject [of _ _ 8]) (use unsigned_less [where ?'a = nat and ?'b = 8] in auto)
  then have "out = bs" by (rule map_unat_inject)
  with out ds clean show ?thesis by (simp add: base32_decode_def)
qed


section \<open>Which step a code belongs to\<close>

lemma first_step_Some:
  "first_step code digits last_used ss = Inr (Some s) \<Longrightarrow> s \<in> set ss \<and> last_used < s \<and> code s = Inr digits"
  by (induction ss) (auto split: if_splits simp: and_then_Inr)

lemma first_step_finds:
  "s \<in> set ss \<Longrightarrow> last_used < s \<Longrightarrow> code s = Inr digits \<Longrightarrow> \<forall>t \<in> set ss. \<exists>c. code t = Inr c \<Longrightarrow>
     \<exists>t. first_step code digits last_used ss = Inr (Some t)"
  by (induction ss) (auto split: if_splits)

lemma verify_totp_Some:
  assumes "verify_totp h secret code now last_used = Inr (Some s)"
  shows "s \<in> {totp_step now - 1 .. totp_step now + 1}" "last_used < s"
    "totp_code h secret s = Inr (filter (\<lambda>c. \<not> is_space c) code)"
  using assms by (auto simp: verify_totp_def Let_def simp del: first_step.simps dest!: first_step_Some split: if_splits)

section \<open>Using up a recovery code\<close>

lemma last_match_Some: "last_match hashes w = Some i \<Longrightarrow> i < length hashes \<and> hashes ! i = w"
proof -
  have "fold (\<lambda>i m. if hashes ! i = w then Some i else m) ns m = Some i \<Longrightarrow>
      (i \<in> set ns \<and> hashes ! i = w) \<or> m = Some i" for ns m
    by (induction ns arbitrary: m) (auto split: if_splits)
  then show "last_match hashes w = Some i \<Longrightarrow> i < length hashes \<and> hashes ! i = w"
    by (fastforce simp: last_match_def)
qed

lemma last_match_None: "last_match hashes w = None \<longleftrightarrow> w \<notin> set hashes"
proof -
  have "fold (\<lambda>i m. if hashes ! i = w then Some i else m) ns m = None \<longleftrightarrow> m = None \<and> (\<forall>i \<in> set ns. hashes ! i \<noteq> w)" for ns m
    by (induction ns arbitrary: m) auto
  then show ?thesis by (auto simp: last_match_def in_set_conv_nth)
qed

lemma consume_recovery_code_Some:
  assumes "consume_recovery_code pr hashes code = Some rest"
  shows "\<exists>xs ys. hashes = xs @ hash_recovery_code pr code # ys \<and> rest = xs @ ys"
proof -
  from assms obtain i where i: "last_match hashes (hash_recovery_code pr code) = Some i"
    and rest: "rest = take i hashes @ drop (Suc i) hashes"
    by (auto simp: consume_recovery_code_def split: if_splits option.splits)
  from last_match_Some [OF i] have "hashes = take i hashes @ hash_recovery_code pr code # drop (Suc i) hashes"
    using id_take_nth_drop by force
  with rest show ?thesis by blast
qed

lemma consume_recovery_code_mset:
  "consume_recovery_code pr hashes code = Some rest \<Longrightarrow>
     mset hashes = add_mset (hash_recovery_code pr code) (mset rest)"
  by (drule consume_recovery_code_Some) auto

section \<open>Sealing\<close>

lemma b64_sextets_Nil: "b64_sextets xs = [] \<longleftrightarrow> xs = []"
  by (cases xs rule: b64_sextets.cases) auto

lemma b64url_encode_Nil: "b64url_encode bs = [] \<longleftrightarrow> bs = []"
  by (simp add: b64url_encode_def b64_sextets_Nil)

lemma b64url_no_dot: "CHR ''.'' \<notin> set (b64url_encode bs)"
proof -
  have less: "\<forall>s \<in> set (b64_sextets (map unat bs)). s < 64"
    using unsigned_less [where ?'a = nat and ?'b = 8] by (intro b64_sextets_less) auto
  have "\<forall>n \<in> set [0..<64]. b64url_char n \<noteq> CHR ''.''" by code_simp
  with less show ?thesis by (auto simp: b64url_encode_def)
qed

lemma open_seal_lemma:
  assumes laws: "gcm_laws pr" and nonce: "nonce \<noteq> []"
    and body: "fst (gcm_seal pr (seal_key pr master) nonce [] (utf8 plain)) \<noteq> []"
  shows "open_secret pr (seal_secret pr nonce plain master) master = Inr plain"
proof -
  obtain b t where s: "gcm_seal pr (seal_key pr master) nonce [] (utf8 plain) = (b, t)" by (metis prod.collapse)
  have "t \<noteq> []" using gcm_tag_length [OF laws s] by auto
  let ?parts = "[''v1'', b64url_encode nonce, b64url_encode b, b64url_encode t]"
  have "split_on CHR ''.'' (join_with ''.'' ?parts) = ?parts"
    by (rule split_on_join) (simp_all add: b64url_no_dot)
  moreover have "gcm_open pr (seal_key pr master) nonce [] b t = Some (utf8 plain)"
    using s by (simp add: gcm_open_iff [OF laws])
  ultimately show ?thesis using s body nonce \<open>t \<noteq> []\<close>
    by (simp add: open_secret_def seal_secret_def Let_def b64url_encode_Nil del: join_with.simps)
qed

end
