(* ===== verification/Requests.thy ===== *)
theory Requests
  imports Prelude
begin

text \<open>
  A handler of the web server as a function of the state: it answers or throws, and what it wrote before
  throwing stays written. \<open>op_bind\<close> runs one call after another, as \<open>await\<close> does; the second runs only
  when the first did not throw.
\<close>

type_synonym ('s, 'e, 'a) request = "'s \<Rightarrow> ('e + 'a) \<times> 's"

definition op_ok :: "'a \<Rightarrow> ('s, 'e, 'a) request" where
  "op_ok a s = (Inr a, s)"

definition op_fail :: "'e \<Rightarrow> ('s, 'e, 'a) request" where
  "op_fail e s = (Inl e, s)"

definition op_bind :: "('s, 'e, 'a) request \<Rightarrow> ('a \<Rightarrow> ('s, 'e, 'b) request) \<Rightarrow> ('s, 'e, 'b) request" where
  "op_bind m k s = (case m s of (Inl e, s') \<Rightarrow> (Inl e, s') | (Inr a, s') \<Rightarrow> k a s')"

text \<open>\<open>if (!ok) throw e\<close>, a value or an error computed elsewhere, a read, a write.\<close>

definition op_check :: "bool \<Rightarrow> 'e \<Rightarrow> ('s, 'e, unit) request" where
  "op_check ok e = (if ok then op_ok () else op_fail e)"

definition op_lift :: "'e + 'a \<Rightarrow> ('s, 'e, 'a) request" where
  "op_lift r s = (r, s)"

definition op_read :: "('s \<Rightarrow> 'a) \<Rightarrow> ('s, 'e, 'a) request" where
  "op_read f s = (Inr (f s), s)"

definition op_write :: "('s \<Rightarrow> 's) \<Rightarrow> ('s, 'e, unit) request" where
  "op_write f s = (Inr (), f s)"

text \<open>A loop whose body may throw; the first failure ends it.\<close>

fun op_each :: "'a list \<Rightarrow> ('a \<Rightarrow> ('s, 'e, unit) request) \<Rightarrow> ('s, 'e, unit) request" where
  "op_each [] body = op_ok ()"
| "op_each (x # xs) body = op_bind (body x) (\<lambda>u. op_each xs body)"

definition map_error :: "('e \<Rightarrow> 'f) \<Rightarrow> 'e + 'a \<Rightarrow> 'f + 'a" where
  "map_error f r = (case r of Inl e \<Rightarrow> Inl (f e) | Inr a \<Rightarrow> Inr a)"

lemmas op_defs = op_ok_def op_fail_def op_check_def op_lift_def op_read_def op_write_def

lemma map_error_Inr [simp]: "map_error f r = Inr a \<longleftrightarrow> r = Inr a"
  by (cases r) (auto simp: map_error_def)

lemma Inr_map_error [simp]: "Inr a = map_error f r \<longleftrightarrow> r = Inr a"
  by (metis map_error_Inr)

lemma op_bind_Inr:
  "op_bind m k s = (Inr b, s'') \<longleftrightarrow> (\<exists>a s'. m s = (Inr a, s') \<and> k a s' = (Inr b, s''))"
  by (auto simp: op_bind_def split: prod.splits sum.splits)

lemma op_bind_InrE:
  assumes "op_bind m k s = (Inr b, s'')"
  obtains a s' where "m s = (Inr a, s')" "k a s' = (Inr b, s'')"
  using assms by (auto simp: op_bind_Inr)

lemma op_bind_cases:
  assumes "op_bind m k s = (r, s'')"
  obtains (throws) e where "m s = (Inl e, s'')" "r = Inl e"
  | (goes_on) a s' where "m s = (Inr a, s')" "k a s' = (r, s'')"
  using assms by (auto simp: op_bind_def split: prod.splits sum.splits)

lemma op_ok_iff [simp]: "op_ok a s = (r, s') \<longleftrightarrow> r = Inr a \<and> s' = s"
  by (auto simp: op_ok_def)

lemma op_fail_iff [simp]: "op_fail e s = (r, s') \<longleftrightarrow> r = Inl e \<and> s' = s"
  by (auto simp: op_fail_def)

lemma op_check_iff [simp]: "op_check b e s = (r, s') \<longleftrightarrow> r = (if b then Inr () else Inl e) \<and> s' = s"
  by (auto simp: op_check_def)

lemma op_lift_iff [simp]: "op_lift q s = (r, s') \<longleftrightarrow> r = q \<and> s' = s"
  by (auto simp: op_lift_def)

lemma op_read_iff [simp]: "op_read f s = (r, s') \<longleftrightarrow> r = Inr (f s) \<and> s' = s"
  by (auto simp: op_read_def)

lemma op_write_iff [simp]: "op_write f s = (r, s') \<longleftrightarrow> r = Inr () \<and> s' = f s"
  by (auto simp: op_write_def)

text \<open>
  The state a request leaves, whether it answers or throws: a relation that is kept by every call is kept
  by the sequence.
\<close>

definition keeps :: "('s \<Rightarrow> 's \<Rightarrow> bool) \<Rightarrow> ('s, 'e, 'a) request \<Rightarrow> bool" where
  "keeps R m \<longleftrightarrow> (\<forall>s. R s (snd (m s)))"

lemma keepsD: "keeps R m \<Longrightarrow> m s = (r, s') \<Longrightarrow> R s s'"
  unfolding keeps_def by (metis snd_conv)

lemma keepsI: "(\<And>s r s'. m s = (r, s') \<Longrightarrow> R s s') \<Longrightarrow> keeps R m"
  unfolding keeps_def by (metis prod.collapse)

locale kept =
  fixes R :: "'s \<Rightarrow> 's \<Rightarrow> bool"
  assumes R_refl: "R s s" and R_trans: "R s t \<Longrightarrow> R t u \<Longrightarrow> R s u"
begin

lemma keeps_ok [intro, simp]: "keeps R (op_ok a)"
  by (rule keepsI) (simp add: R_refl)

lemma keeps_fail [intro, simp]: "keeps R (op_fail e)"
  by (rule keepsI) (simp add: R_refl)

lemma keeps_check [intro, simp]: "keeps R (op_check b e)"
  by (rule keepsI) (simp add: R_refl)

lemma keeps_lift [intro, simp]: "keeps R (op_lift r)"
  by (rule keepsI) (simp add: R_refl)

lemma keeps_read [intro, simp]: "keeps R (op_read f)"
  by (rule keepsI) (simp add: R_refl)

lemma keeps_write: "(\<And>s. R s (f s)) \<Longrightarrow> keeps R (op_write f)"
  by (rule keepsI) simp

lemma keeps_bind: "keeps R m \<Longrightarrow> (\<And>a. keeps R (k a)) \<Longrightarrow> keeps R (op_bind m k)"
  by (rule keepsI, erule op_bind_cases) (auto dest: keepsD intro: R_trans)

lemma keeps_each: "(\<And>x. keeps R (body x)) \<Longrightarrow> keeps R (op_each xs body)"
  by (induction xs) (auto intro: keeps_bind)

end

end
