(* ===== verification/Ttl_Cache.thy ===== *)
theory Ttl_Cache
  imports Prelude
begin

text \<open>
  \<^verbatim>\<open>src/utils/cache.ts\<close>, the in-memory cache with a lifetime per entry and a bound on the number of entries:
  a JavaScript \<open>Map\<close> in the order of the last write, oldest first. The clock is an argument. What a client
  may rely on is the locale \<open>bounded_cache\<close> below.
\<close>

record 'v ttl_entry =
  te_value :: 'v
  te_expires :: millis

type_synonym 'v ttl_store = "(string \<times> 'v ttl_entry) list"

definition ttl_max_entries :: nat where "ttl_max_entries = 5000"

definition ttl_get :: "millis \<Rightarrow> string \<Rightarrow> 'v ttl_store \<Rightarrow> 'v option" where
  "ttl_get now k st =
     (case map_of st k of None \<Rightarrow> None | Some en \<Rightarrow> if te_expires en < now then None else Some (te_value en))"

definition ttl_stale :: "string \<Rightarrow> 'v ttl_store \<Rightarrow> 'v option" where
  "ttl_stale k st = map_option te_value (map_of st k)"

definition ttl_delete :: "string \<Rightarrow> 'v ttl_store \<Rightarrow> 'v ttl_store" where
  "ttl_delete k st = filter (\<lambda>(k', en). k' \<noteq> k) st"

text \<open>The loop of \<open>set\<close>: while too many, delete the first key.\<close>

fun ttl_evict :: "nat \<Rightarrow> 'v ttl_store \<Rightarrow> 'v ttl_store" where
  "ttl_evict limit [] = []"
| "ttl_evict limit (x # xs) = (if limit < length (x # xs) then ttl_evict limit xs else x # xs)"

definition ttl_set :: "millis \<Rightarrow> nat \<Rightarrow> millis \<Rightarrow> string \<Rightarrow> 'v \<Rightarrow> 'v ttl_store \<Rightarrow> 'v ttl_store" where
  "ttl_set ttl limit now k v st =
     ttl_evict limit (ttl_delete k st @ [(k, \<lparr>te_value = v, te_expires = now + ttl\<rparr>)])"

definition ttl_clear :: "'v ttl_store" where "ttl_clear = []"

section \<open>Facts\<close>

lemma ttl_evict_drop: "ttl_evict limit xs = drop (length xs - limit) xs"
proof (induction xs)
  case (Cons x xs)
  show ?case
  proof (cases "limit < length (x # xs)")
    case True
    then have "length (x # xs) - limit = Suc (length xs - limit)" by simp
    with True Cons show ?thesis by simp
  qed simp
qed simp

lemma ttl_evict_length: "length (ttl_evict limit xs) \<le> limit"
  by (simp add: ttl_evict_drop)

lemma ttl_set_length: "length (ttl_set ttl limit now k v st) \<le> limit"
  by (simp add: ttl_set_def ttl_evict_length)

lemma map_of_ttl_delete: "map_of (ttl_delete k st) = (map_of st)(k := None)"
  by (induction st) (auto simp: ttl_delete_def fun_eq_iff)

lemma distinct_ttl_delete: "distinct (map fst st) \<Longrightarrow> distinct (map fst (ttl_delete k st)) \<and> k \<notin> fst ` set (ttl_delete k st)"
proof -
  have "map fst (ttl_delete k st) = filter (\<lambda>k'. k' \<noteq> k) (map fst st)"
    by (induction st) (auto simp: ttl_delete_def)
  then have "distinct (map fst st) \<Longrightarrow> distinct (map fst (ttl_delete k st))" "k \<notin> set (map fst (ttl_delete k st))"
    by simp_all
  then show "distinct (map fst st) \<Longrightarrow> distinct (map fst (ttl_delete k st)) \<and> k \<notin> fst ` set (ttl_delete k st)" by simp
qed

lemma distinct_ttl_set: "distinct (map fst st) \<Longrightarrow> distinct (map fst (ttl_set ttl limit now k v st))"
proof -
  assume "distinct (map fst st)"
  with distinct_ttl_delete [of st k] have "distinct (map fst (ttl_delete k st @ [(k, \<lparr>te_value = v, te_expires = now + ttl\<rparr>)]))" by simp
  then show ?thesis unfolding ttl_set_def ttl_evict_drop drop_map [symmetric] by (rule distinct_drop)
qed

lemma length_ttl_delete: "length (ttl_delete k st) \<le> length st"
  by (simp add: ttl_delete_def)

lemma map_of_ttl_set_same:
  assumes "0 < limit" "distinct (map fst st)"
  shows "map_of (ttl_set ttl limit now k v st) k = Some \<lparr>te_value = v, te_expires = now + ttl\<rparr>"
proof -
  let ?l = "ttl_delete k st @ [(k, \<lparr>te_value = v, te_expires = now + ttl\<rparr>)]"
  have "drop (length ?l - limit) ?l = drop (length ?l - limit) (ttl_delete k st) @ [(k, \<lparr>te_value = v, te_expires = now + ttl\<rparr>)]"
    using assms(1) by simp
  moreover have "k \<notin> fst ` set (drop (length ?l - limit) (ttl_delete k st))"
    using distinct_ttl_delete [OF assms(2)] by (meson image_mono set_drop_subset subsetD)
  ultimately show ?thesis by (simp add: ttl_set_def ttl_evict_drop map_add_def map_of_eq_None_iff [THEN iffD2])
qed

lemma map_of_drop_other: "distinct (map fst xs) \<Longrightarrow> map_of (drop n xs) k = Some en \<Longrightarrow> map_of xs k = Some en"
  by (metis drop_map distinct_drop in_set_dropD map_of_eq_Some_iff)

lemma map_of_ttl_set_other:
  assumes "distinct (map fst st)" "j \<noteq> k" "map_of (ttl_set ttl limit now k v st) j = Some en"
  shows "map_of st j = Some en"
proof -
  let ?l = "ttl_delete k st @ [(k, \<lparr>te_value = v, te_expires = now + ttl\<rparr>)]"
  from distinct_ttl_delete [OF assms(1)] have "distinct (map fst ?l)" by auto
  with assms(3) have "map_of ?l j = Some en" by (simp only: ttl_set_def ttl_evict_drop map_of_drop_other)
  with assms(2) show ?thesis by (auto simp: map_of_ttl_delete map_add_def split: if_splits option.splits)
qed

text \<open>
  What the clients of a cache rely on: it never answers anything but the last value written for the key,
  it answers that while it is fresh and not pushed out, and it holds at most so many entries.
\<close>

locale bounded_cache =
  fixes get :: "millis \<Rightarrow> string \<Rightarrow> 'c \<Rightarrow> 'v option"
    and put :: "millis \<Rightarrow> string \<Rightarrow> 'v \<Rightarrow> 'c \<Rightarrow> 'c"
    and sound :: "'c \<Rightarrow> bool"
    and entries :: "'c \<Rightarrow> nat"
    and lifetime :: millis
    and bound :: nat
  assumes put_sound: "sound c \<Longrightarrow> sound (put now k v c)"
    and get_put: "sound c \<Longrightarrow> t \<le> now + lifetime \<Longrightarrow> get t k (put now k v c) = Some v"
    and get_put_expired: "sound c \<Longrightarrow> now + lifetime < t \<Longrightarrow> get t k (put now k v c) = None"
    and get_other: "sound c \<Longrightarrow> j \<noteq> k \<Longrightarrow> get t j (put now k v c) = Some w \<Longrightarrow> get t j c = Some w"
    and put_bound: "entries (put now k v c) \<le> bound"
begin

definition put_all :: "(millis \<times> string \<times> 'v) list \<Rightarrow> 'c \<Rightarrow> 'c" where
  "put_all ws c = fold (\<lambda>(now, k, v). put now k v) ws c"

lemma put_all_sound: "sound c \<Longrightarrow> sound (put_all ws c)"
  unfolding put_all_def by (induction ws arbitrary: c) (auto intro: put_sound)

lemma get_put_all:
  "sound c \<Longrightarrow> get t k (put_all ws c) = Some v \<Longrightarrow>
     get t k c = Some v \<or> (\<exists>now. (now, k, v) \<in> set ws \<and> t \<le> now + lifetime)"
proof (induction ws rule: rev_induct)
  case (snoc w ws)
  obtain now j u where w: "w = (now, j, u)" by (metis prod_cases3)
  with snoc.prems have g: "get t k (put now j u (put_all ws c)) = Some v" by (simp add: put_all_def)
  have s: "sound (put_all ws c)" using snoc.prems(1) by (rule put_all_sound)
  show ?case
  proof (cases "j = k")
    case True
    with g s have "t \<le> now + lifetime" using get_put_expired [of "put_all ws c" now t k u] by fastforce
    moreover from this True g s have "u = v" using get_put [of "put_all ws c" t now k u] by simp
    ultimately show ?thesis using w True by auto
  next
    case False
    with g s have "get t k (put_all ws c) = Some v" using get_other by metis
    with snoc.IH snoc.prems(1) show ?thesis by auto
  qed
qed (simp add: put_all_def)

end

lemma ttl_cache_is_bounded:
  "0 < limit \<Longrightarrow> bounded_cache ttl_get (ttl_set ttl limit) (\<lambda>st. distinct (map fst st)) length ttl limit"
proof unfold_locales
  fix c :: "'a ttl_store" and j k and t now :: millis and v w :: 'a
  assume "distinct (map fst c)" "j \<noteq> k" "ttl_get t j (ttl_set ttl limit now k v c) = Some w"
  then show "ttl_get t j c = Some w"
    using map_of_ttl_set_other [of c j k ttl limit now v] by (auto simp: ttl_get_def simp del: map_of_eq_Some_iff split: option.splits if_splits)
qed (simp_all add: ttl_get_def map_of_ttl_set_same distinct_ttl_set ttl_set_length)

interpretation default_cache: bounded_cache ttl_get "ttl_set ttl ttl_max_entries" "\<lambda>st. distinct (map fst st)" length ttl ttl_max_entries
  for ttl
  by (rule ttl_cache_is_bounded) (simp add: ttl_max_entries_def)

end
