(* ===== verification/Admin_State.thy ===== *)
theory Admin_State
  imports Permissions Admin_Policy Totp Requests Ttl_Cache
begin

text \<open>
  The tables behind the admin panel (\<^verbatim>\<open>prisma/schema.prisma\<close>) as one state, what the handlers take from
  the configuration and from third parties, and the errors they answer with.

  A table is the list of its rows. The columns no handler of the model reads are left out. Text compares
  in the database under its collation, which is the parameter \<open>ae_same\<close>; ids and hashes compare exactly. A
  column that holds JSON holds what \<open>JSON.parse\<close> makes of it: \<open>None\<close> when it is not an array, otherwise
  its elements, \<open>None\<close> for one that is not a string.
\<close>

type_synonym stored_list = "string option list option"

definition stored :: "string list \<Rightarrow> stored_list" where
  "stored xs = Some (map Some xs)"

record user_row =
  us_uid :: string
  us_name :: string
  us_school :: "string option"
  us_hash :: "string option"
  us_untis :: bool

record admin_row =
  ad_uid :: string
  ad_create_class :: bool
  ad_hash :: "string option"
  ad_must_change :: bool
  ad_expires :: "millis option"
  ad_one_time :: "string option"
  ad_granted_by :: "string option"

record grant_row =
  gr_id :: string
  gr_user :: string
  gr_scope :: string
  gr_preset :: string
  gr_permissions :: stored_list
  gr_by :: "string option"
  gr_updated :: millis

record preset_row =
  pr_key :: string
  pr_label :: string
  pr_description :: string
  pr_scope :: string
  pr_permissions :: stored_list
  pr_created_by :: string
  pr_updated_by :: string

record totp_row =
  tr_user :: string
  tr_secret :: string
  tr_pending :: "string option"
  tr_enabled :: "millis option"
  tr_last_step :: int
  tr_codes :: stored_list

record security_row =
  sr_user :: string
  sr_require_passkey :: "bool option"
  sr_changed_by :: "string option"
  sr_last_login :: "millis option"
  sr_login_method :: "string option"
  sr_valid_from :: "millis option"

record passkey_row =
  pk_id :: string
  pk_user :: string
  pk_credential :: string
  pk_public_key :: string
  pk_counter :: int
  pk_rp :: string
  pk_name :: string
  pk_backed_up :: bool
  pk_last_used :: "millis option"

record audit_entry =
  au_actor :: string
  au_action :: string
  au_target :: string
  au_school :: "string option"
  au_added :: "string list"
  au_removed :: "string list"

text \<open>
  The last fields are the memory of the process: the answer of \<open>listPresets\<close> and \<open>listSchools\<close> kept for
  a while, and the caches of tries per ticket and of challenges already used.
\<close>

record admin_state =
  as_users :: "user_row list"
  as_admins :: "admin_row list"
  as_grants :: "grant_row list"
  as_presets :: "preset_row list"
  as_totps :: "totp_row list"
  as_security :: "security_row list"
  as_passkeys :: "passkey_row list"
  as_schools :: "string list"
  as_classes :: "(string \<times> string option) list"
  as_marks :: "string list"
  as_audit :: "audit_entry list"
  as_announced :: "string list list"
  as_preset_cache :: "(millis \<times> preset list) option"
  as_school_cache :: "(millis \<times> string list) option"
  as_attempts :: "nat ttl_store"
  as_used :: "unit ttl_store"

text \<open>Claims of the tokens; \<open>fc_purpose\<close> is the claim \<open>purpose\<close>, or \<open>role\<close> in a token of the panel.\<close>

record flow_claims =
  fc_purpose :: string
  fc_user :: "string option"
  fc_challenge :: "string option"
  fc_rp :: "string option"
  fc_origin :: "string option"
  fc_ticket :: "string option"
  fc_fingerprint :: "string option"
  fc_jti :: "string option"
  fc_issued :: "int option"

text \<open>
  What comes from outside the repository's code: the configuration, the database's collation and sort
  order, bcrypt, HMAC-SHA1, the signed tokens of \<open>jsonwebtoken\<close> (sign with key, claims, audience, seconds
  and time; verify with key, audience and time), and what \<open>@simplewebauthn\<close> answers for a response.
  \<open>ae_verify_any\<close> verifies without an audience and answers it. The library's answer depends on the
  challenge, origin, domain (and for a login the stored key and whether the user must be verified);
  \<open>None\<close> where it throws. \<open>ae_by_label\<close> sorts presets as the database does, \<open>ae_plain\<close> strips accents.
\<close>

record webauthn_answer =
  wa_verified :: bool
  wa_credential :: string
  wa_public_key :: string
  wa_counter :: int
  wa_backed_up :: bool

record admin_env =
  ae_same :: "string \<Rightarrow> string \<Rightarrow> bool"
  ae_by_label :: "preset_row list \<Rightarrow> preset_row list"
  ae_owners :: "string list"
  ae_pr :: primitives
  ae_school_name :: string
  ae_server :: factors
  ae_jwt_secret :: string
  ae_shared_hash :: "string option"
  ae_bcrypt :: "string \<Rightarrow> string"
  ae_compare :: "string \<Rightarrow> string \<Rightarrow> bool"
  ae_hmac_sha1 :: "buffer \<Rightarrow> buffer \<Rightarrow> buffer"
  ae_sign :: "string \<Rightarrow> flow_claims \<Rightarrow> string \<Rightarrow> int \<Rightarrow> millis \<Rightarrow> string"
  ae_verify :: "string \<Rightarrow> string \<Rightarrow> string \<Rightarrow> millis \<Rightarrow> flow_claims option"
  ae_verify_any :: "string \<Rightarrow> string \<Rightarrow> millis \<Rightarrow> (flow_claims \<times> string option) option"
  ae_token_seconds :: int
  ae_plain :: "string \<Rightarrow> string"
  ae_response_id :: "string \<Rightarrow> string option"
  ae_register :: "string \<Rightarrow> string \<Rightarrow> string \<Rightarrow> string \<Rightarrow> webauthn_answer option"
  ae_authenticate :: "string \<Rightarrow> string \<Rightarrow> string \<Rightarrow> string \<Rightarrow> passkey_row \<Rightarrow> bool \<Rightarrow> webauthn_answer option"

section \<open>Errors\<close>

datatype denial =
    Rules refusal
  | OwnRights
  | OwnStanding
  | OtherSchool
  | UnknownSchool
  | NoSuchAdmin
  | BadGrantRequest
  | TooManyRights
  | NotSchoolAdmins
  | MayNotAppoint
  | PresetManagersOnly
  | PresetNameTaken
  | PresetBuiltIn
  | PresetMissing
  | UniqueViolation
  | OwnersFollowEnvironment
  | OwnPasskeyRequirement
  | SetupExpired
  | SamePassword
  | AlreadyEnabled
  | StartSetupFirst
  | WrongCode
  | SecretUnreadable
  | FlowExpired
  | TooManyTries
  | ChallengeUsed
  | MoveRestarted
  | PasskeyRejected
  | PasskeyUnknown
  | PasskeyTaken
  | NameMissing
  | PasswordNotHere
  | UserNotFound
  | OneTimePasswordNeeded
  | OneTimePasswordGone
  | InvalidCredentials
  | NotConfigured
  | TokenMissing
  | TokenInvalid
  | AdminRoleRequired
  | AdminRevoked
  | SessionRevoked
  | SecondFactorSetupRequired
  | BadSchool
  | NoPermission string
  | UserExists
  | LastTotp
  | LastPasskey
  | WrongPassword

type_synonym admin_error = "nat \<times> denial"

abbreviation forbidden :: "denial \<Rightarrow> admin_error" where "forbidden d \<equiv> (403, d)"
abbreviation validation :: "denial \<Rightarrow> admin_error" where "validation d \<equiv> (422, d)"
abbreviation not_found :: "denial \<Rightarrow> admin_error" where "not_found d \<equiv> (404, d)"
abbreviation conflict :: "denial \<Rightarrow> admin_error" where "conflict d \<equiv> (409, d)"
abbreviation unauthorized :: "denial \<Rightarrow> admin_error" where "unauthorized d \<equiv> (401, d)"

type_synonym 'a admin_request = "(admin_state, admin_error, 'a) request"

text \<open>\<open>normalized.status === 400 ? new ValidationError(...) : new ForbiddenError(...)\<close>\<close>

definition rules_error :: "nat \<times> refusal \<Rightarrow> admin_error" where
  "rules_error e = (if fst e = 400 then validation (Rules (snd e)) else forbidden (Rules (snd e)))"

section \<open>Audit trail and announcements\<close>

definition audit :: "string \<Rightarrow> string \<Rightarrow> string \<Rightarrow> string option \<Rightarrow> string list \<Rightarrow> string list \<Rightarrow> unit admin_request" where
  "audit actor action target school added removed =
     op_write (\<lambda>s. s\<lparr>as_audit := as_audit s @
       [\<lparr>au_actor = take 191 actor, au_action = take 60 action, au_target = take 191 target,
         au_school = school, au_added = added, au_removed = removed\<rparr>]\<rparr>)"

definition announce_change :: "string list \<Rightarrow> unit admin_request" where
  "announce_change topics = op_write (\<lambda>s. s\<lparr>as_announced := as_announced s @ [topics]\<rparr>)"

section \<open>Schools\<close>

definition deterministic_id :: "primitives \<Rightarrow> string \<Rightarrow> string" where
  "deterministic_id pr seed =
     (let h = hex_encode (sha256_of pr (utf8 seed)); slice = (\<lambda>a b. take (b - a) (drop a h))
      in join_with ''-'' [slice 0 8, slice 8 12, slice 12 16, slice 16 20, slice 20 32])"

definition default_school_id :: "admin_env \<Rightarrow> string" where
  "default_school_id e =
     deterministic_id (ae_pr e)
       (''pokyh:school:'' @ to_lower (trim (if ae_school_name e = [] then ''default'' else ae_school_name e)))"

definition hex_char :: "char \<Rightarrow> bool" where
  "hex_char c \<longleftrightarrow> is_digit c \<or> (let n = of_char c :: nat in 97 \<le> n \<and> n \<le> 102)"

definition school_id_pattern :: "string \<Rightarrow> bool" where
  "school_id_pattern s \<longleftrightarrow>
     map length (split_on CHR ''-'' s) = [8, 4, 4, 4, 12] \<and> (\<forall>part \<in> set (split_on CHR ''-'' s). list_all hex_char part)"

definition school_ttl_ms :: millis where "school_ttl_ms = 30000"

definition list_schools :: "millis \<Rightarrow> string list admin_request" where
  "list_schools now s =
     (case as_school_cache s of
        Some (since, rows) \<Rightarrow> if now - since < school_ttl_ms then (Inr rows, s)
          else (Inr (as_schools s), s\<lparr>as_school_cache := Some (now, as_schools s)\<rparr>)
      | None \<Rightarrow> (Inr (as_schools s), s\<lparr>as_school_cache := Some (now, as_schools s)\<rparr>))"

definition invalidate_schools :: "unit admin_request" where
  "invalidate_schools = op_write (\<lambda>s. s\<lparr>as_school_cache := None\<rparr>)"

definition school_by_id :: "millis \<Rightarrow> string \<Rightarrow> string option admin_request" where
  "school_by_id now nid =
     (if \<not> school_id_pattern nid then op_ok None
      else op_bind (list_schools now) (\<lambda>rows. op_ok (find ((=) nid) rows)))"

end
