(* ===== verification/Admin_Access.thy ===== *)
theory Admin_Access
  imports Admin_State
begin

text \<open>
  \<^verbatim>\<open>src/services/adminAccess.ts\<close>, \<^verbatim>\<open>adminPresets.ts\<close> and the grant migrations of \<^verbatim>\<open>multiSchool.ts\<close>: reading an
  administrator's rights, giving and taking them, presets made in the panel, and the upgrades of stored
  grants. The rules are those of \<open>Permissions\<close>; here they meet the database.
\<close>

section \<open>Reading rights\<close>

definition grant_id :: "admin_env \<Rightarrow> string \<Rightarrow> string \<Rightarrow> string" where
  "grant_id e username scope =
     hex_encode (sha256_of (ae_pr e) (utf8 (''pokyh:admin-grant:'' @ to_lower (trim username) @ ''|'' @ scope)))"

definition is_owner :: "admin_env \<Rightarrow> string \<Rightarrow> bool" where
  "is_owner e username \<longleftrightarrow> match_env_admin username (ae_owners e) \<noteq> None"

definition parse_permission_list :: "stored_list \<Rightarrow> string list" where
  "parse_permission_list v = (case v of None \<Rightarrow> [] | Some xs \<Rightarrow> map the (filter is_permission xs))"

definition grants_where_user :: "admin_env \<Rightarrow> string \<Rightarrow> admin_state \<Rightarrow> grant_row list" where
  "grants_where_user e username s = filter (\<lambda>g. ae_same e (gr_user g) username) (as_grants s)"

definition load_access :: "admin_env \<Rightarrow> string \<Rightarrow> admin_state \<Rightarrow> access" where
  "load_access e username s =
     (if is_owner e username then access_from True []
      else access_from False
        (map (\<lambda>g. \<lparr>gi_scope = gr_scope g, gi_permissions = parse_permission_list (gr_permissions g)\<rparr>)
          (grants_where_user e username s)))"

record grant_view =
  gv_user :: string
  gv_scope :: string
  gv_preset :: string
  gv_permissions :: "string list"
  gv_by :: "string option"
  gv_updated :: millis

definition view_of :: "grant_row \<Rightarrow> grant_view" where
  "view_of g = \<lparr>gv_user = gr_user g, gv_scope = gr_scope g, gv_preset = gr_preset g,
     gv_permissions = parse_permission_list (gr_permissions g), gv_by = gr_by g, gv_updated = gr_updated g\<rparr>"

definition grants_of :: "admin_env \<Rightarrow> string \<Rightarrow> admin_state \<Rightarrow> grant_view list" where
  "grants_of e username s = map view_of (sort_key gr_scope (grants_where_user e username s))"

definition find_user :: "admin_env \<Rightarrow> string \<Rightarrow> admin_state \<Rightarrow> user_row option" where
  "find_user e username s = find (\<lambda>u. ae_same e (us_name u) username) (as_users s)"

definition find_admin :: "string \<Rightarrow> admin_state \<Rightarrow> admin_row option" where
  "find_admin uid s = find (\<lambda>a. ad_uid a = uid) (as_admins s)"

definition admin_target :: "admin_env \<Rightarrow> string \<Rightarrow> user_row admin_request" where
  "admin_target e username =
     op_bind (op_check (\<not> is_owner e username) (forbidden (Rules OwnerInEnvironment)))
       (\<lambda>u. op_bind (op_read (find_user e username))
         (\<lambda>user. op_bind (op_read (\<lambda>s. case user of None \<Rightarrow> None | Some u \<Rightarrow> find_admin (us_uid u) s))
           (\<lambda>admin. case user of
              None \<Rightarrow> op_fail (not_found NoSuchAdmin)
            | Some u \<Rightarrow> if admin = None then op_fail (not_found NoSuchAdmin) else op_ok u)))"

definition check_scope :: "millis \<Rightarrow> string \<Rightarrow> unit admin_request" where
  "check_scope now scope =
     (if scope = global_scope then op_ok ()
      else op_bind (school_by_id now scope) (\<lambda>s. op_check (s \<noteq> None) (validation UnknownSchool)))"

definition same_name :: "string \<Rightarrow> string \<Rightarrow> bool" where
  "same_name a b \<longleftrightarrow> to_lower (trim a) = to_lower (trim b)"

record actor =
  ac_name :: string
  ac_access :: access

definition may_reach :: "actor \<Rightarrow> string \<Rightarrow> string option \<Rightarrow> bool" where
  "may_reach actor scope account_school =
     (if scope = global_scope then True
      else if manages_admins_in (ac_access actor) global_scope then True
      else account_school = Some scope)"

section \<open>Requests for a grant\<close>

text \<open>
  A request body: \<open>None\<close> is no object at all, otherwise its scope (if a string), its permission list (if an
  array) and its preset (if a string).
\<close>

record grant_body =
  gb_scope :: "string option"
  gb_permissions :: "string option list option"
  gb_preset :: "string option"

record grant_request =
  rq_scope :: string
  rq_permissions :: "string option list"
  rq_preset :: "string option"

definition parse_grant_request :: "grant_body option \<Rightarrow> admin_error + grant_request option" where
  "parse_grant_request v =
     (case v of
        None \<Rightarrow> Inr None
      | Some b \<Rightarrow>
          (case (gb_scope b, gb_permissions b) of
             (Some scope, Some permissions) \<Rightarrow>
               if 100 < length permissions then Inl (validation TooManyRights)
               else Inr (Some \<lparr>rq_scope = to_lower (trim scope), rq_permissions = permissions, rq_preset = gb_preset b\<rparr>)
           | _ \<Rightarrow> Inl (validation BadGrantRequest)))"

definition check_grant_request :: "millis \<Rightarrow> actor \<Rightarrow> grant_request \<Rightarrow> string option \<Rightarrow> unit admin_request" where
  "check_grant_request now actor grant account_school =
     op_bind (check_scope now (rq_scope grant))
       (\<lambda>u. op_bind (op_check (may_reach actor (rq_scope grant) account_school) (forbidden OtherSchool))
         (\<lambda>u. op_bind (op_lift (map_error rules_error (normalize_grant (rq_scope grant) (rq_permissions grant))))
           (\<lambda>normalized. op_bind (op_lift (map_error (\<lambda>x. forbidden (Rules (snd x))) (may_grant (ac_access actor) (rq_scope grant) normalized)))
             (\<lambda>allowed. op_ok ()))))"

section \<open>Presets made in the panel\<close>

definition to_preset :: "preset_row \<Rightarrow> preset option" where
  "to_preset r =
     (if pr_scope r \<noteq> ''school'' \<and> pr_scope r \<noteq> ''global'' then None
      else Some \<lparr>preset_key = pr_key r, preset_label = pr_label r, preset_description = pr_description r,
        preset_scope = (if pr_scope r = ''global'' then GlobalScope else SchoolScope),
        preset_permissions = parse_permission_list (pr_permissions r), preset_custom = True,
        preset_created_by = Some (pr_created_by r)\<rparr>)"

definition preset_cache_ms :: millis where "preset_cache_ms = 15000"

definition read_presets :: "admin_env \<Rightarrow> admin_state \<Rightarrow> preset list" where
  "read_presets e s = presets @ List.map_filter to_preset (ae_by_label e (as_presets s))"

definition list_presets :: "admin_env \<Rightarrow> millis \<Rightarrow> preset list admin_request" where
  "list_presets e now s =
     (let fresh = (Inr (read_presets e s), s\<lparr>as_preset_cache := Some (now, read_presets e s)\<rparr>)
      in case as_preset_cache s of
           Some (since, ps) \<Rightarrow> if now - since < preset_cache_ms then (Inr ps, s) else fresh
         | None \<Rightarrow> fresh)"

definition forget_presets :: "unit admin_request" where
  "forget_presets = op_write (\<lambda>s. s\<lparr>as_preset_cache := None\<rparr>)"

definition assert_may_manage_presets :: "actor \<Rightarrow> unit admin_request" where
  "assert_may_manage_presets actor =
     op_check (manages_admins_in (ac_access actor) global_scope) (forbidden PresetManagersOnly)"

definition checked_preset :: "actor \<Rightarrow> preset_input \<Rightarrow> preset_checked admin_request" where
  "checked_preset actor input =
     op_lift (map_error rules_error (normalize_preset input (permissions_in (ac_access actor) global_scope)))"

definition relabel_one :: "preset list \<Rightarrow> string \<Rightarrow> string list option \<Rightarrow> grant_row \<Rightarrow> grant_row" where
  "relabel_one ps key keep_if g =
     (let permissions = parse_permission_list (gr_permissions g);
          keep = (case keep_if of None \<Rightarrow> False
                  | Some k \<Rightarrow> length k = length permissions \<and> (\<forall>p \<in> set k. p \<in> set permissions))
      in if keep then g else g\<lparr>gr_preset := preset_for (gr_scope g) permissions (filter (\<lambda>p. preset_key p \<noteq> key) ps)\<rparr>)"

definition relabel_grants :: "admin_env \<Rightarrow> string \<Rightarrow> preset list \<Rightarrow> string list option \<Rightarrow> unit admin_request" where
  "relabel_grants e key ps keep_if =
     op_write (\<lambda>s. s\<lparr>as_grants :=
       map (\<lambda>g. if ae_same e (gr_preset g) key then relabel_one ps key keep_if g else g) (as_grants s)\<rparr>)"

definition preset_row_of :: "string \<Rightarrow> preset_checked \<Rightarrow> string \<Rightarrow> string \<Rightarrow> preset_row" where
  "preset_row_of key v created updated =
     \<lparr>pr_key = key, pr_label = pc_label v, pr_description = pc_description v, pr_scope = pc_scope v,
      pr_permissions = stored (pc_permissions v), pr_created_by = created, pr_updated_by = updated\<rparr>"

definition create_preset :: "admin_env \<Rightarrow> millis \<Rightarrow> string \<Rightarrow> actor \<Rightarrow> preset_input \<Rightarrow> preset admin_request" where
  "create_preset e now now36 actor input =
     op_bind (assert_may_manage_presets actor)
       (\<lambda>u. op_bind (checked_preset actor input)
         (\<lambda>v. op_bind (list_presets e now)
           (\<lambda>ps. op_bind (op_check (\<not> (\<exists>p \<in> set ps. to_lower (preset_label p) = to_lower (pc_label v))) (conflict PresetNameTaken))
             (\<lambda>u. let key = custom_preset_key (ae_plain e) now36 (pc_label v) (map preset_key ps);
                      row = preset_row_of key v (ac_name actor) (ac_name actor)
                  in op_bind (op_read (\<lambda>s. \<exists>r \<in> set (as_presets s). ae_same e (pr_key r) key))
                       (\<lambda>taken. if taken then op_fail (500, UniqueViolation)
                          else op_bind (op_write (\<lambda>s. s\<lparr>as_presets := as_presets s @ [row]\<rparr>))
                            (\<lambda>u. op_bind forget_presets
                              (\<lambda>u. op_bind (audit (ac_name actor) ''admin.preset.create'' key None (pc_permissions v) [])
                                (\<lambda>u. op_bind (announce_change [''access''])
                                  (\<lambda>u. op_ok (the (to_preset row)))))))))))"

definition find_preset_row :: "admin_env \<Rightarrow> string \<Rightarrow> admin_state \<Rightarrow> preset_row option" where
  "find_preset_row e key s = find (\<lambda>r. ae_same e (pr_key r) key) (as_presets s)"

definition update_preset :: "admin_env \<Rightarrow> millis \<Rightarrow> actor \<Rightarrow> string \<Rightarrow> preset_input \<Rightarrow> preset admin_request" where
  "update_preset e now actor key input =
     op_bind (assert_may_manage_presets actor)
       (\<lambda>u. op_bind (op_check (\<not> is_built_in_preset key) (forbidden PresetBuiltIn))
         (\<lambda>u. op_bind (op_read (find_preset_row e key))
           (\<lambda>before. case before of
              None \<Rightarrow> op_fail (not_found PresetMissing)
            | Some b \<Rightarrow>
                op_bind (checked_preset actor input)
                 (\<lambda>v. op_bind (list_presets e now)
                   (\<lambda>ps. op_bind (op_check (\<not> (\<exists>p \<in> set ps. preset_key p \<noteq> key \<and> to_lower (preset_label p) = to_lower (pc_label v)))
                                    (conflict PresetNameTaken))
                     (\<lambda>u. let row = preset_row_of (pr_key b) v (pr_created_by b) (ac_name actor)
                          in op_bind (op_write (\<lambda>s. s\<lparr>as_presets := map (\<lambda>r. if pr_key r = pr_key b then row else r) (as_presets s)\<rparr>))
                            (\<lambda>u. op_bind forget_presets
                              (\<lambda>u. op_bind (list_presets e now)
                                (\<lambda>ps'. op_bind (relabel_grants e key ps'
                                          (Some (if pr_scope b = pc_scope v then pc_permissions v else [])))
                                  (\<lambda>u. let old = parse_permission_list (pr_permissions b)
                                       in op_bind (audit (ac_name actor) ''admin.preset.update'' key None
                                            (filter (\<lambda>p. p \<notin> set old) (pc_permissions v))
                                            (filter (\<lambda>p. p \<notin> set (pc_permissions v)) old))
                                         (\<lambda>u. op_bind (announce_change [''access''])
                                           (\<lambda>u. op_ok (the (to_preset row))))))))))))))"

definition delete_preset :: "admin_env \<Rightarrow> millis \<Rightarrow> actor \<Rightarrow> string \<Rightarrow> unit admin_request" where
  "delete_preset e now actor key =
     op_bind (assert_may_manage_presets actor)
       (\<lambda>u. op_bind (op_check (\<not> is_built_in_preset key) (forbidden PresetBuiltIn))
         (\<lambda>u. op_bind (op_read (find_preset_row e key))
           (\<lambda>row. op_bind (op_check (row \<noteq> None) (not_found PresetMissing))
             (\<lambda>u. op_bind (op_write (\<lambda>s. s\<lparr>as_presets := filter (\<lambda>r. \<not> ae_same e (pr_key r) key) (as_presets s)\<rparr>))
               (\<lambda>u. op_bind forget_presets
                 (\<lambda>u. op_bind (list_presets e now)
                   (\<lambda>ps. op_bind (relabel_grants e key ps None)
                     (\<lambda>u. op_bind (audit (ac_name actor) ''admin.preset.delete'' key None [] [])
                       (\<lambda>u. announce_change [''access''])))))))))"

section \<open>Giving and taking rights\<close>

definition find_grant :: "string \<Rightarrow> admin_state \<Rightarrow> grant_row option" where
  "find_grant nid s = find (\<lambda>g. gr_id g = nid) (as_grants s)"

text \<open>Which preset name a grant is stored with.\<close>

definition chosen_preset :: "string \<Rightarrow> string list \<Rightarrow> string option \<Rightarrow> preset list \<Rightarrow> string" where
  "chosen_preset scope permissions preset_name ps =
     (let matched = preset_for scope permissions ps;
          chosen = (if truthy preset_name then preset_by_key (the preset_name) ps else None)
      in case chosen of
           None \<Rightarrow> matched
         | Some c \<Rightarrow>
             if (preset_scope c = GlobalScope) = (scope = global_scope) \<and>
                length (preset_permissions c) = length permissions \<and>
                (\<forall>p \<in> set (preset_permissions c). p \<in> set permissions)
             then preset_key c else matched)"

text \<open>\<open>adminGrant.upsert\<close>: by id; a new row may not repeat a name and scope another row has.\<close>

definition upsert_grant :: "admin_env \<Rightarrow> grant_row \<Rightarrow> grant_row admin_request" where
  "upsert_grant e row s =
     (case find_grant (gr_id row) s of
        Some g \<Rightarrow>
          (let g' = g\<lparr>gr_preset := gr_preset row, gr_permissions := gr_permissions row, gr_by := gr_by row,
                      gr_updated := gr_updated row\<rparr>
           in (Inr g', s\<lparr>as_grants := map (\<lambda>h. if gr_id h = gr_id row then g' else h) (as_grants s)\<rparr>))
      | None \<Rightarrow>
          if \<exists>g \<in> set (as_grants s). ae_same e (gr_user g) (gr_user row) \<and> ae_same e (gr_scope g) (gr_scope row)
          then (Inl (500, UniqueViolation), s)
          else (Inr row, s\<lparr>as_grants := as_grants s @ [row]\<rparr>))"

definition write_grant ::
  "admin_env \<Rightarrow> millis \<Rightarrow> actor \<Rightarrow> string \<Rightarrow> string \<Rightarrow> string list \<Rightarrow> string option \<Rightarrow> grant_view option admin_request" where
  "write_grant e now actor username scope permissions preset_name =
     (let nid = grant_id e username scope
      in if permissions = []
         then op_bind (op_write (\<lambda>s. s\<lparr>as_grants := filter (\<lambda>g. gr_id g \<noteq> nid) (as_grants s)\<rparr>)) (\<lambda>u. op_ok None)
         else op_bind (list_presets e now)
           (\<lambda>ps. op_bind (upsert_grant e \<lparr>gr_id = nid, gr_user = username, gr_scope = scope,
                              gr_preset = chosen_preset scope permissions preset_name ps,
                              gr_permissions = stored permissions, gr_by = Some (ac_name actor), gr_updated = now\<rparr>)
             (\<lambda>row. op_ok (Some \<lparr>gv_user = gr_user row, gv_scope = gr_scope row, gv_preset = gr_preset row,
                              gv_permissions = permissions, gv_by = gr_by row, gv_updated = gr_updated row\<rparr>))))"

text \<open>Every check of \<open>setGrant\<close>, in its order: the account, and the rights it will hold in the scope.\<close>

definition grant_checks ::
  "admin_env \<Rightarrow> millis \<Rightarrow> actor \<Rightarrow> string \<Rightarrow> string \<Rightarrow> string option list \<Rightarrow> (user_row \<times> string list) admin_request" where
  "grant_checks e now actor target_name scope requested =
     op_bind (op_check (\<not> same_name (ac_name actor) target_name) (forbidden OwnRights))
     (\<lambda>u. op_bind (check_scope now scope)
     (\<lambda>u. op_bind (admin_target e target_name)
     (\<lambda>target. op_bind (op_check (may_reach actor scope (us_school target)) (forbidden OtherSchool))
     (\<lambda>u. op_bind (op_lift (map_error rules_error (normalize_grant scope requested)))
     (\<lambda>normalized. op_bind (op_lift (map_error (\<lambda>x. forbidden (Rules (snd x))) (may_grant (ac_access actor) scope normalized)))
     (\<lambda>permissions. op_bind (op_read (load_access e (us_name target)))
     (\<lambda>target_access. op_bind (op_lift (map_error (\<lambda>x. forbidden (Rules x)) (may_manage_target (ac_access actor) target_access scope)))
     (\<lambda>u. op_ok (target, permissions)))))))))"

text \<open>What \<open>setGrant\<close> does once every check has passed.\<close>

definition commit_grant ::
  "admin_env \<Rightarrow> millis \<Rightarrow> actor \<Rightarrow> string \<Rightarrow> string option \<Rightarrow> user_row \<times> string list \<Rightarrow> grant_view option admin_request" where
  "commit_grant e now actor scope preset_name checked =
     (let target = fst checked; permissions = snd checked
      in op_bind (op_read (find_grant (grant_id e (us_name target) scope)))
        (\<lambda>before. let before_list = (case before of None \<Rightarrow> [] | Some g \<Rightarrow> parse_permission_list (gr_permissions g));
                   added = filter (\<lambda>p. p \<notin> set before_list) permissions;
                   removed = filter (\<lambda>p. p \<notin> set permissions) before_list
           in op_bind (write_grant e now actor (us_name target) scope permissions preset_name)
             (\<lambda>view. if added \<noteq> [] \<or> removed \<noteq> []
                then op_bind (audit (ac_name actor) (if permissions = [] then ''admin.grant.remove'' else ''admin.grant.set'')
                                (us_name target) (if scope = global_scope then None else Some scope) added removed)
                       (\<lambda>u. op_bind (announce_change [''access'', ''users'']) (\<lambda>u. op_ok view))
                else op_ok view)))"

definition set_grant ::
  "admin_env \<Rightarrow> millis \<Rightarrow> actor \<Rightarrow> string \<Rightarrow> string \<Rightarrow> string option list \<Rightarrow> string option \<Rightarrow> grant_view option admin_request" where
  "set_grant e now actor target_name scope requested preset_name =
     op_bind (grant_checks e now actor target_name scope requested) (commit_grant e now actor scope preset_name)"

definition clear_grants :: "admin_env \<Rightarrow> string \<Rightarrow> nat admin_request" where
  "clear_grants e username =
     op_bind (op_read (\<lambda>s. length (grants_where_user e username s)))
       (\<lambda>n. op_bind (op_write (\<lambda>s. s\<lparr>as_grants := filter (\<lambda>g. \<not> ae_same e (gr_user g) username) (as_grants s)\<rparr>))
         (\<lambda>u. if 0 < n then op_bind (announce_change [''access'']) (\<lambda>u. op_ok n) else op_ok n))"

section \<open>Who may manage or appoint whom\<close>

definition manage_scopes :: "access \<Rightarrow> string list" where
  "manage_scopes a = (if acc_global a \<noteq> [] then [global_scope] else []) @ map fst (acc_schools a)"

definition assert_may_manage_admin :: "admin_env \<Rightarrow> actor \<Rightarrow> string \<Rightarrow> string option \<Rightarrow> unit admin_request" where
  "assert_may_manage_admin e actor target_name target_school =
     op_bind (op_check (\<not> is_owner e target_name) (forbidden (Rules OwnerInEnvironment)))
       (\<lambda>u. op_bind (op_read (load_access e target_name))
         (\<lambda>target. let scopes = manage_scopes target
            in op_bind (op_lift (map_error (\<lambda>x. forbidden (Rules x)) (manage_all (ac_access actor) target scopes)))
                 (\<lambda>u. if scopes = []
                    then (let scope = (case target_school of None \<Rightarrow> global_scope | Some s \<Rightarrow> s)
                          in op_check (manages_admins_in (ac_access actor) scope \<or> manages_admins_in (ac_access actor) global_scope)
                               (forbidden NotSchoolAdmins))
                    else op_ok ())))"

definition assert_may_remove_admin :: "admin_env \<Rightarrow> actor \<Rightarrow> string \<Rightarrow> string option \<Rightarrow> unit admin_request" where
  "assert_may_remove_admin e actor target_name target_school =
     op_bind (op_check (\<not> same_name (ac_name actor) target_name) (forbidden OwnStanding))
       (\<lambda>u. assert_may_manage_admin e actor target_name target_school)"

definition assert_may_appoint_admin :: "actor \<Rightarrow> string option \<Rightarrow> unit admin_request" where
  "assert_may_appoint_admin actor account_school =
     (if manages_admins_in (ac_access actor) global_scope then op_ok ()
      else if truthy account_school \<and> manages_admins_in (ac_access actor) (the account_school) then op_ok ()
      else op_fail (forbidden MayNotAppoint))"

definition moderates_class :: "admin_env \<Rightarrow> string \<Rightarrow> string \<Rightarrow> string \<Rightarrow> string \<Rightarrow> admin_state \<Rightarrow> bool" where
  "moderates_class e uid username class_id permission s =
     (if is_owner e username then True
      else case (find_admin uid s, map_of (as_classes s) class_id) of
        (Some a, Some school) \<Rightarrow>
          if ad_must_change a then False
          else can (load_access e username s) permission
                 (Some (case school of None \<Rightarrow> default_school_id e | Some sc \<Rightarrow> sc))
      | _ \<Rightarrow> False)"

section \<open>Migrations\<close>

definition mark_migration :: "string \<Rightarrow> unit admin_request" where
  "mark_migration nid = op_write (\<lambda>s. s\<lparr>as_marks := set_add nid (as_marks s)\<rparr>)"

definition legacy_grant :: "admin_env \<Rightarrow> millis \<Rightarrow> string \<Rightarrow> grant_row" where
  "legacy_grant e now username =
     \<lparr>gr_id = grant_id e username global_scope, gr_user = username, gr_scope = global_scope, gr_preset = ''global_admin'',
      gr_permissions = stored all_permissions, gr_by = Some ''migration'', gr_updated = now\<rparr>"

text \<open>\<open>upsert\<close> with an empty update: a row that exists stays as it is.\<close>

definition insert_missing_grant :: "admin_env \<Rightarrow> grant_row \<Rightarrow> unit admin_request" where
  "insert_missing_grant e row =
     op_bind (op_read (find_grant (gr_id row)))
       (\<lambda>g. if g \<noteq> None then op_ok () else op_bind (upsert_grant e row) (\<lambda>r. op_ok ()))"

text \<open>\<open>$transaction\<close>: all or nothing.\<close>

definition admin_transaction :: "'a admin_request \<Rightarrow> 'a admin_request" where
  "admin_transaction m s = (case m s of (Inl err, s') \<Rightarrow> (Inl err, s) | (Inr a, s') \<Rightarrow> (Inr a, s'))"

definition migrate_legacy_admins :: "admin_env \<Rightarrow> millis \<Rightarrow> nat admin_request" where
  "migrate_legacy_admins e now =
     (let nid = ''admin-grants-v1''
      in op_bind (op_read (\<lambda>s. nid \<in> set (as_marks s)))
        (\<lambda>marked. if marked then op_ok 0
           else op_bind (op_read (\<lambda>s. 0 < length (as_grants s)))
             (\<lambda>present. if present then op_bind (mark_migration nid) (\<lambda>u. op_ok 0)
                else op_bind (op_read (\<lambda>s. filter (\<lambda>u. us_uid u \<in> set (map ad_uid (as_admins s))) (as_users s)))
                  (\<lambda>users. op_bind (admin_transaction
                       (op_bind (op_each users (\<lambda>u. insert_missing_grant e (legacy_grant e now (us_name u))))
                         (\<lambda>u. mark_migration nid)))
                    (\<lambda>u. op_ok (length users))))))"

definition upgraded_row :: "permission_upgrade \<Rightarrow> millis \<Rightarrow> grant_row \<Rightarrow> grant_row" where
  "upgraded_row up now g =
     (case upgrade_grant (gr_scope g) (gr_preset g) (parse_permission_list (gr_permissions g)) up of
        None \<Rightarrow> g
      | Some ps \<Rightarrow> g\<lparr>gr_permissions := stored ps, gr_updated := now\<rparr>)"

definition upgraded_count :: "permission_upgrade \<Rightarrow> admin_state \<Rightarrow> nat" where
  "upgraded_count up s = length (filter (\<lambda>g. upgrade_grant (gr_scope g) (gr_preset g)
     (parse_permission_list (gr_permissions g)) up \<noteq> None) (as_grants s))"

fun migrate_upgrades :: "millis \<Rightarrow> permission_upgrade list \<Rightarrow> nat \<Rightarrow> nat admin_request" where
  "migrate_upgrades now [] changed = op_ok changed"
| "migrate_upgrades now (up # ups) changed =
     op_bind (op_read (\<lambda>s. up_id up \<in> set (as_marks s)))
       (\<lambda>marked. if marked then migrate_upgrades now ups changed
          else op_bind (op_read (upgraded_count up))
            (\<lambda>n. op_bind (op_write (\<lambda>s. s\<lparr>as_grants := map (upgraded_row up now) (as_grants s),
                               as_marks := set_add (up_id up) (as_marks s)\<rparr>))
              (\<lambda>u. migrate_upgrades now ups (changed + n))))"

definition migrate_new_permissions :: "millis \<Rightarrow> nat admin_request" where
  "migrate_new_permissions now = migrate_upgrades now permission_upgrades 0"

end
