(* ===== verification/Admin_Accounts.thy ===== *)
theory Admin_Accounts
  imports Admin_Access
begin

text \<open>
  \<^verbatim>\<open>src/services/adminLogin.ts\<close>, \<^verbatim>\<open>adminSecurity.ts\<close> and \<^verbatim>\<open>adminSecondFactor.ts\<close>: admin accounts, one-time
  passwords, the requirement of a passkey, the authenticator app with its recovery codes, and passkeys.
  Times are arguments, as are random secrets and nonces. A call that reads the state and later writes only
  if it is still as read (\<open>updateMany\<close> with a condition) is modelled as the two steps it is where a
  theorem depends on what happens in between.
\<close>

section \<open>Second factors of an account\<close>

definition find_totp :: "admin_env \<Rightarrow> string \<Rightarrow> admin_state \<Rightarrow> totp_row option" where
  "find_totp e username s = find (\<lambda>r. ae_same e (tr_user r) username) (as_totps s)"

definition passkeys_of :: "admin_env \<Rightarrow> string \<Rightarrow> admin_state \<Rightarrow> passkey_row list" where
  "passkeys_of e username s = filter (\<lambda>k. ae_same e (pk_user k) username) (as_passkeys s)"

definition totp_enabled :: "totp_row option \<Rightarrow> bool" where
  "totp_enabled r = (case r of None \<Rightarrow> False | Some t \<Rightarrow> tr_enabled t \<noteq> None)"

definition second_factor_methods :: "admin_env \<Rightarrow> string \<Rightarrow> admin_state \<Rightarrow> factors" where
  "second_factor_methods e username s =
     \<lparr>for_totp = totp_enabled (find_totp e username s), for_passkey = 0 < length (passkeys_of e username s)\<rparr>"

definition clear_second_factors :: "admin_env \<Rightarrow> string \<Rightarrow> unit admin_request" where
  "clear_second_factors e username =
     op_write (\<lambda>s. s\<lparr>as_totps := filter (\<lambda>r. \<not> ae_same e (tr_user r) username) (as_totps s),
                     as_passkeys := filter (\<lambda>k. \<not> ae_same e (pk_user k) username) (as_passkeys s)\<rparr>)"

definition parse_hashes :: "stored_list \<Rightarrow> string list" where
  "parse_hashes v = (case v of None \<Rightarrow> [] | Some xs \<Rightarrow> map the (filter (\<lambda>x. x \<noteq> None) xs))"

definition update_totp :: "admin_env \<Rightarrow> string \<Rightarrow> (totp_row \<Rightarrow> bool) \<Rightarrow> (totp_row \<Rightarrow> totp_row) \<Rightarrow> nat admin_request" where
  "update_totp e username cond f s =
     (let hit = (\<lambda>r. ae_same e (tr_user r) username \<and> cond r)
      in (Inr (length (filter hit (as_totps s))), s\<lparr>as_totps := map (\<lambda>r. if hit r then f r else r) (as_totps s)\<rparr>))"

section \<open>The authenticator app\<close>

definition start_totp_setup :: "admin_env \<Rightarrow> string \<Rightarrow> buffer \<Rightarrow> buffer \<Rightarrow> string admin_request" where
  "start_totp_setup e username random20 nonce =
     op_bind (op_read (find_totp e username))
       (\<lambda>existing. if totp_enabled existing then op_fail (conflict AlreadyEnabled)
          else let secret = generate_totp_secret random20;
                   sealed = seal_secret (ae_pr e) nonce secret (ae_jwt_secret e)
               in if existing = None
                  then op_bind (op_write (\<lambda>s. s\<lparr>as_totps := as_totps s @ [\<lparr>tr_user = username, tr_secret = sealed,
                           tr_pending = None, tr_enabled = None, tr_last_step = 0, tr_codes = stored []\<rparr>]\<rparr>))
                         (\<lambda>u. op_ok secret)
                  else op_bind (update_totp e username (\<lambda>r. True)
                           (\<lambda>r. r\<lparr>tr_secret := sealed, tr_enabled := None, tr_last_step := 0, tr_codes := stored []\<rparr>))
                         (\<lambda>n. op_ok secret))"

definition read_secret :: "admin_env \<Rightarrow> string \<Rightarrow> admin_error + string" where
  "read_secret e sealed = map_error (\<lambda>m. validation SecretUnreadable) (open_secret (ae_pr e) sealed (ae_jwt_secret e))"

text \<open>An error of the code itself (an unreadable base 32 secret) is the internal error 500.\<close>

definition check_totp :: "admin_env \<Rightarrow> string \<Rightarrow> string \<Rightarrow> millis \<Rightarrow> int \<Rightarrow> admin_error + int option" where
  "check_totp e sealed code now last_used =
     and_then (read_secret e sealed)
       (\<lambda>secret. map_error (\<lambda>m. (500, SecretUnreadable)) (verify_totp (ae_hmac_sha1 e) secret code now last_used))"

definition accept_totp_step :: "admin_env \<Rightarrow> string \<Rightarrow> int \<Rightarrow> bool admin_request" where
  "accept_totp_step e username step =
     op_bind (update_totp e username (\<lambda>r. tr_last_step r < step) (\<lambda>r. r\<lparr>tr_last_step := step\<rparr>)) (\<lambda>n. op_ok (n = 1))"

definition fresh_codes :: "admin_env \<Rightarrow> string list \<Rightarrow> stored_list" where
  "fresh_codes e codes = stored (map (hash_recovery_code (ae_pr e)) codes)"

definition enable_totp :: "admin_env \<Rightarrow> millis \<Rightarrow> (nat \<Rightarrow> buffer) \<Rightarrow> string \<Rightarrow> string \<Rightarrow> string list admin_request" where
  "enable_totp e now random7 username code =
     op_bind (op_read (find_totp e username))
       (\<lambda>row. case row of
          None \<Rightarrow> op_fail (validation StartSetupFirst)
        | Some r \<Rightarrow>
            if tr_enabled r \<noteq> None then op_fail (conflict AlreadyEnabled)
            else op_bind (op_lift (check_totp e (tr_secret r) code now (tr_last_step r)))
              (\<lambda>step. case step of
                 None \<Rightarrow> op_fail (validation WrongCode)
               | Some st \<Rightarrow>
                   (let codes = generate_recovery_codes random7
                    in op_bind (update_totp e username (\<lambda>r. True)
                         (\<lambda>r. r\<lparr>tr_enabled := Some now, tr_last_step := st, tr_codes := fresh_codes e codes\<rparr>))
                       (\<lambda>n. op_ok codes))))"

datatype code_kind = TotpCode | RecoveryCode

text \<open>
  \<open>useSecondFactorCode\<close> in two halves: what it decides from the row it read, and the conditional write
  that makes it good, which other requests may precede.
\<close>

datatype code_use = UseNothing | UseStep int | UseRecovery stored_list "string list"

definition decide_code :: "admin_env \<Rightarrow> millis \<Rightarrow> string \<Rightarrow> bool \<Rightarrow> totp_row option \<Rightarrow> admin_error + code_use" where
  "decide_code e now code allow_totp row =
     (case row of
        None \<Rightarrow> Inr UseNothing
      | Some r \<Rightarrow>
          if tr_enabled r = None then Inr UseNothing
          else and_then (if allow_totp then check_totp e (tr_secret r) code now (tr_last_step r) else Inr None)
            (\<lambda>step. case step of
               Some st \<Rightarrow> Inr (UseStep st)
             | None \<Rightarrow>
                 (case consume_recovery_code (ae_pr e) (parse_hashes (tr_codes r)) code of
                    None \<Rightarrow> Inr UseNothing
                  | Some remaining \<Rightarrow> Inr (UseRecovery (tr_codes r) remaining))))"

definition commit_code :: "admin_env \<Rightarrow> string \<Rightarrow> code_use \<Rightarrow> code_kind option admin_request" where
  "commit_code e username use_up =
     (case use_up of
        UseNothing \<Rightarrow> op_ok None
      | UseStep st \<Rightarrow> op_bind (accept_totp_step e username st) (\<lambda>ok. op_ok (if ok then Some TotpCode else None))
      | UseRecovery old remaining \<Rightarrow>
          op_bind (update_totp e username (\<lambda>r. tr_codes r = old) (\<lambda>r. r\<lparr>tr_codes := stored remaining\<rparr>))
            (\<lambda>n. op_ok (if n = 1 then Some RecoveryCode else None)))"

definition use_second_factor_code :: "admin_env \<Rightarrow> millis \<Rightarrow> string \<Rightarrow> string \<Rightarrow> bool \<Rightarrow> code_kind option admin_request" where
  "use_second_factor_code e now username code allow_totp =
     op_bind (op_read (find_totp e username))
       (\<lambda>row. op_bind (op_lift (decide_code e now code allow_totp row)) (commit_code e username))"

definition start_totp_move :: "admin_env \<Rightarrow> millis \<Rightarrow> string \<Rightarrow> string \<Rightarrow> buffer \<Rightarrow> buffer \<Rightarrow> string admin_request" where
  "start_totp_move e now username code random20 nonce =
     op_bind (op_read (find_totp e username))
       (\<lambda>row. if \<not> totp_enabled row then op_fail (validation StartSetupFirst)
          else op_bind (use_second_factor_code e now username code True)
            (\<lambda>used. if used = None then op_fail (validation WrongCode)
               else let secret = generate_totp_secret random20
                    in op_bind (update_totp e username (\<lambda>r. True)
                         (\<lambda>r. r\<lparr>tr_pending := Some (seal_secret (ae_pr e) nonce secret (ae_jwt_secret e))\<rparr>))
                       (\<lambda>n. op_ok secret)))"

definition finish_totp_move :: "admin_env \<Rightarrow> millis \<Rightarrow> string \<Rightarrow> string \<Rightarrow> unit admin_request" where
  "finish_totp_move e now username code =
     op_bind (op_read (find_totp e username))
       (\<lambda>row. case row of
          None \<Rightarrow> op_fail (validation StartSetupFirst)
        | Some r \<Rightarrow>
            if tr_enabled r = None \<or> \<not> truthy (tr_pending r) then op_fail (validation StartSetupFirst)
            else op_bind (op_lift (check_totp e (the (tr_pending r)) code now 0))
              (\<lambda>step. case step of
                 None \<Rightarrow> op_fail (validation WrongCode)
               | Some st \<Rightarrow>
                   op_bind (update_totp e username (\<lambda>q. tr_pending q = tr_pending r)
                       (\<lambda>q. q\<lparr>tr_secret := the (tr_pending r), tr_pending := None, tr_last_step := st\<rparr>))
                     (\<lambda>n. op_check (n \<noteq> 0) (validation MoveRestarted))))"

definition disable_totp :: "admin_env \<Rightarrow> millis \<Rightarrow> string \<Rightarrow> string \<Rightarrow> unit admin_request" where
  "disable_totp e now username code =
     op_bind (use_second_factor_code e now username code True)
       (\<lambda>used. if used = None then op_fail (validation WrongCode)
          else op_write (\<lambda>s. s\<lparr>as_totps := filter (\<lambda>r. \<not> ae_same e (tr_user r) username) (as_totps s)\<rparr>))"

definition regenerate_recovery_codes :: "admin_env \<Rightarrow> millis \<Rightarrow> (nat \<Rightarrow> buffer) \<Rightarrow> string \<Rightarrow> string \<Rightarrow> string list admin_request" where
  "regenerate_recovery_codes e now random7 username code =
     op_bind (use_second_factor_code e now username code True)
       (\<lambda>used. if used = None then op_fail (validation WrongCode)
          else let codes = generate_recovery_codes random7
               in op_bind (update_totp e username (\<lambda>r. True) (\<lambda>r. r\<lparr>tr_codes := fresh_codes e codes\<rparr>))
                    (\<lambda>n. op_ok codes))"

section \<open>Tokens between two requests of a login\<close>

definition flow_ttl_seconds :: int where "flow_ttl_seconds = 5 * 60"
definition max_ticket_attempts :: nat where "max_ticket_attempts = 6"

definition no_claims :: flow_claims where
  "no_claims = \<lparr>fc_purpose = [], fc_user = None, fc_challenge = None, fc_rp = None, fc_origin = None,
     fc_ticket = None, fc_fingerprint = None, fc_jti = None, fc_issued = None\<rparr>"

definition flow_key :: "admin_env \<Rightarrow> string" where
  "flow_key e = hex_encode (hmac (ae_pr e) (utf8 (ae_jwt_secret e)) (utf8 ''pokyh-admin-login-flow-v1''))"

definition sign_flow :: "admin_env \<Rightarrow> millis \<Rightarrow> string \<Rightarrow> flow_claims \<Rightarrow> string" where
  "sign_flow e now uuid c = ae_sign e (flow_key e) (c\<lparr>fc_jti := Some uuid\<rparr>) (fc_purpose c) flow_ttl_seconds now"

definition flow_error :: "string \<Rightarrow> denial \<Rightarrow> admin_error" where
  "flow_error purpose d = (if purpose = ''passkey-register'' then validation d else unauthorized d)"

definition read_flow :: "admin_env \<Rightarrow> millis \<Rightarrow> string option \<Rightarrow> string \<Rightarrow> admin_error + flow_claims" where
  "read_flow e now token purpose =
     (if \<not> truthy token then Inl (flow_error purpose FlowExpired)
      else case ae_verify e (flow_key e) (the token) purpose now of
             None \<Rightarrow> Inl (flow_error purpose FlowExpired)
           | Some c \<Rightarrow> if fc_purpose c \<noteq> purpose \<or> \<not> truthy (fc_jti c)
                       then Inl (flow_error purpose FlowExpired) else Inr c)"

text \<open>\<open>ticketAttempts\<close> and \<open>usedChallenges\<close>: caches with the lifetime of a flow.\<close>

definition flow_put :: "millis \<Rightarrow> string \<Rightarrow> 'v \<Rightarrow> 'v ttl_store \<Rightarrow> 'v ttl_store" where
  "flow_put = ttl_set (flow_ttl_seconds * 1000) ttl_max_entries"

definition use_challenge :: "millis \<Rightarrow> string \<Rightarrow> string \<Rightarrow> unit admin_request" where
  "use_challenge now purpose challenge =
     op_bind (op_read (\<lambda>s. ttl_get now challenge (as_used s) \<noteq> None))
       (\<lambda>used. if used then op_fail (flow_error purpose ChallengeUsed)
          else op_write (\<lambda>s. s\<lparr>as_used := flow_put now challenge () (as_used s)\<rparr>))"

definition issue_second_factor_ticket :: "admin_env \<Rightarrow> millis \<Rightarrow> string \<Rightarrow> string \<Rightarrow> string" where
  "issue_second_factor_ticket e now uuid username =
     sign_flow e now uuid (no_claims\<lparr>fc_purpose := ''second-factor'', fc_user := Some username\<rparr>)"

definition ticket_tries :: "millis \<Rightarrow> string \<Rightarrow> admin_state \<Rightarrow> nat" where
  "ticket_tries now jti s =
     (case ttl_get now jti (as_attempts s) of None \<Rightarrow> 0 | Some n \<Rightarrow> n)"

definition read_second_factor_ticket :: "admin_env \<Rightarrow> millis \<Rightarrow> string option \<Rightarrow> (string \<times> string) admin_request" where
  "read_second_factor_ticket e now ticket =
     op_bind (op_lift (read_flow e now ticket ''second-factor''))
       (\<lambda>c. if \<not> truthy (fc_user c) then op_fail (unauthorized FlowExpired)
          else let jti = the (fc_jti c)
               in op_bind (op_read (\<lambda>s. ticket_tries now jti s + 1))
                    (\<lambda>tries. if max_ticket_attempts < tries then op_fail (unauthorized TooManyTries)
                       else op_bind (op_write (\<lambda>s. s\<lparr>as_attempts := flow_put now jti tries (as_attempts s)\<rparr>))
                              (\<lambda>u. op_ok (the (fc_user c), jti))))"

section \<open>Passkeys\<close>

record relying_party =
  rp_origin :: string
  rp_id :: string

definition passkey_registration_token :: "admin_env \<Rightarrow> millis \<Rightarrow> string \<Rightarrow> string \<Rightarrow> relying_party \<Rightarrow> string \<Rightarrow> string" where
  "passkey_registration_token e now uuid username rp challenge =
     sign_flow e now uuid (no_claims\<lparr>fc_purpose := ''passkey-register'', fc_user := Some username,
       fc_challenge := Some challenge, fc_rp := Some (rp_id rp), fc_origin := Some (rp_origin rp)\<rparr>)"

definition finish_passkey_registration ::
  "admin_env \<Rightarrow> millis \<Rightarrow> string \<Rightarrow> string \<Rightarrow> string option \<Rightarrow> string \<Rightarrow> string \<Rightarrow> passkey_row admin_request" where
  "finish_passkey_registration e now uuid username token response name =
     op_bind (op_lift (read_flow e now token ''passkey-register''))
     (\<lambda>c. op_bind (op_check (fc_user c = Some username \<and> truthy (fc_challenge c) \<and> truthy (fc_rp c) \<and> truthy (fc_origin c))
                     (validation PasskeyRejected))
     (\<lambda>u. op_bind (use_challenge now ''passkey-register'' (the (fc_challenge c)))
     (\<lambda>u. case ae_register e response (the (fc_challenge c)) (the (fc_origin c)) (the (fc_rp c)) of
            None \<Rightarrow> op_fail (validation PasskeyRejected)
          | Some a \<Rightarrow>
              if \<not> wa_verified a \<or> 512 < length (wa_credential a) then op_fail (validation PasskeyRejected)
              else op_bind (op_read (\<lambda>s. \<exists>k \<in> set (as_passkeys s). ae_same e (pk_credential k) (wa_credential a)))
                (\<lambda>taken. if taken then op_fail (conflict PasskeyTaken)
                   else let label = take 100 (trim name);
                            row = \<lparr>pk_id = uuid, pk_user = username, pk_credential = wa_credential a,
                              pk_public_key = wa_public_key a, pk_counter = wa_counter a, pk_rp = the (fc_rp c),
                              pk_name = (if label = [] then ''Passkey'' else label), pk_backed_up = wa_backed_up a,
                              pk_last_used = None\<rparr>
                        in op_bind (op_write (\<lambda>s. s\<lparr>as_passkeys := as_passkeys s @ [row]\<rparr>)) (\<lambda>u. op_ok row)))))"

text \<open>A ticket is a login name and the ticket's id.\<close>

definition passkey_login_token ::
  "admin_env \<Rightarrow> millis \<Rightarrow> string \<Rightarrow> relying_party \<Rightarrow> (string \<times> string) option \<Rightarrow> string \<Rightarrow> string admin_request" where
  "passkey_login_token e now uuid rp ticket challenge =
     op_bind (op_read (\<lambda>s. case ticket of None \<Rightarrow> []
                | Some (username, tid) \<Rightarrow> filter (\<lambda>k. ae_same e (pk_rp k) (rp_id rp)) (passkeys_of e username s)))
       (\<lambda>allow. if ticket \<noteq> None \<and> allow = [] then op_fail (validation PasskeyUnknown)
          else op_ok (sign_flow e now uuid (no_claims\<lparr>fc_purpose := ''passkey-login'', fc_challenge := Some challenge,
                 fc_rp := Some (rp_id rp), fc_origin := Some (rp_origin rp),
                 fc_user := map_option fst ticket, fc_ticket := map_option snd ticket\<rparr>)))"

definition find_passkey :: "admin_env \<Rightarrow> string option \<Rightarrow> admin_state \<Rightarrow> passkey_row option" where
  "find_passkey e credential s =
     (case credential of None \<Rightarrow> None | Some c \<Rightarrow> find (\<lambda>k. ae_same e (pk_credential k) c) (as_passkeys s))"

definition finish_passkey_login ::
  "admin_env \<Rightarrow> millis \<Rightarrow> string option \<Rightarrow> string \<Rightarrow> (string \<times> string) option \<Rightarrow> string admin_request" where
  "finish_passkey_login e now token response ticket =
     op_bind (op_lift (read_flow e now token ''passkey-login''))
     (\<lambda>c. op_bind (op_check (truthy (fc_challenge c) \<and> truthy (fc_rp c) \<and> truthy (fc_origin c)) (unauthorized PasskeyRejected))
     (\<lambda>u. op_bind (op_check (fc_ticket c = map_option snd ticket) (unauthorized PasskeyRejected))
     (\<lambda>u. op_bind (op_read (find_passkey e (ae_response_id e response)))
     (\<lambda>found. case found of
        None \<Rightarrow> op_fail (unauthorized PasskeyUnknown)
      | Some key \<Rightarrow>
          if Some (pk_rp key) \<noteq> fc_rp c \<or> (ticket \<noteq> None \<and> Some (pk_user key) \<noteq> map_option fst ticket)
          then op_fail (unauthorized PasskeyUnknown)
          else op_bind (use_challenge now ''passkey-login'' (the (fc_challenge c)))
            (\<lambda>u. case ae_authenticate e response (the (fc_challenge c)) (the (fc_origin c)) (the (fc_rp c)) key (ticket = None) of
               None \<Rightarrow> op_fail (unauthorized PasskeyRejected)
             | Some a \<Rightarrow>
                 if \<not> wa_verified a then op_fail (unauthorized PasskeyRejected)
                 else op_bind (op_write (\<lambda>s. s\<lparr>as_passkeys := map (\<lambda>k. if pk_id k = pk_id key
                            then k\<lparr>pk_counter := wa_counter a, pk_backed_up := wa_backed_up a, pk_last_used := Some now\<rparr> else k)
                            (as_passkeys s)\<rparr>))
                        (\<lambda>u. op_ok (pk_user key)))))))"

definition rename_passkey :: "admin_env \<Rightarrow> string \<Rightarrow> string \<Rightarrow> string \<Rightarrow> unit admin_request" where
  "rename_passkey e username nid name =
     (let trimmed = take 100 (trim name); hit = (\<lambda>k. pk_id k = nid \<and> ae_same e (pk_user k) username)
      in if trimmed = [] then op_fail (validation NameMissing)
         else op_bind (op_read (\<lambda>s. length (filter hit (as_passkeys s))))
           (\<lambda>n. op_bind (op_write (\<lambda>s. s\<lparr>as_passkeys := map (\<lambda>k. if hit k then k\<lparr>pk_name := trimmed\<rparr> else k) (as_passkeys s)\<rparr>))
             (\<lambda>u. op_check (n \<noteq> 0) (not_found PasskeyUnknown))))"

definition delete_passkey :: "admin_env \<Rightarrow> string \<Rightarrow> string \<Rightarrow> unit admin_request" where
  "delete_passkey e username nid =
     (let hit = (\<lambda>k. pk_id k = nid \<and> ae_same e (pk_user k) username)
      in op_bind (op_read (\<lambda>s. length (filter hit (as_passkeys s))))
           (\<lambda>n. op_bind (op_write (\<lambda>s. s\<lparr>as_passkeys := filter (\<lambda>k. \<not> hit k) (as_passkeys s)\<rparr>))
             (\<lambda>u. op_check (n \<noteq> 0) (not_found PasskeyUnknown))))"

end
