(* ===== verification/Admin_Login.thy ===== *)
theory Admin_Login
  imports Admin_Accounts
begin

text \<open>
  \<^verbatim>\<open>src/services/adminLogin.ts\<close>, \<^verbatim>\<open>adminSecurity.ts\<close>, \<^verbatim>\<open>src/middleware/requireAdmin.ts\<close> and the handlers of
  \<^verbatim>\<open>src/routes/admin.ts\<close> and \<^verbatim>\<open>adminSecurity.ts\<close> that make, end and protect admin accounts: one-time passwords,
  the login, the password setup, appointing and revoking an admin, deleting an account, setting a password.
  Logging and rate limits are left out; a handler that answers an error status throws it.
\<close>

section \<open>Login security of an account\<close>

definition find_security :: "admin_env \<Rightarrow> string \<Rightarrow> admin_state \<Rightarrow> security_row option" where
  "find_security e username s = find (\<lambda>r. ae_same e (sr_user r) username) (as_security s)"

definition new_security :: "string \<Rightarrow> security_row" where
  "new_security username = \<lparr>sr_user = username, sr_require_passkey = None, sr_changed_by = None,
     sr_last_login = None, sr_login_method = None, sr_valid_from = None\<rparr>"

definition upsert_security :: "admin_env \<Rightarrow> string \<Rightarrow> (security_row \<Rightarrow> security_row) \<Rightarrow> unit admin_request" where
  "upsert_security e username f =
     op_write (\<lambda>s. if find_security e username s = None
                   then s\<lparr>as_security := as_security s @ [f (new_security username)]\<rparr>
                   else s\<lparr>as_security := map (\<lambda>r. if ae_same e (sr_user r) username then f r else r) (as_security s)\<rparr>)"

definition passkey_setting_of :: "admin_env \<Rightarrow> string \<Rightarrow> admin_state \<Rightarrow> bool option" where
  "passkey_setting_of e username s = Option.bind (find_security e username s) sr_require_passkey"

record second_factor_state =
  sf_required :: factors
  sf_from_account :: bool
  sf_factors :: factors
  sf_missing :: "factor_kind list"
  sf_pending :: bool

definition state_from :: "admin_env \<Rightarrow> string \<Rightarrow> bool option \<Rightarrow> factors \<Rightarrow> second_factor_state" where
  "state_from e username setting have =
     (let owner = is_owner e username; required = requirements_for setting owner (ae_server e)
      in \<lparr>sf_required = required, sf_from_account = (\<not> (owner \<or> setting = None)), sf_factors = have,
          sf_missing = missing_factors required have, sf_pending = setup_pending required have\<rparr>)"

definition second_factor_state_of :: "admin_env \<Rightarrow> string \<Rightarrow> admin_state \<Rightarrow> second_factor_state" where
  "second_factor_state_of e username s =
     state_from e username (passkey_setting_of e username s) (second_factor_methods e username s)"

definition second_factor_setup_needed :: "admin_env \<Rightarrow> string \<Rightarrow> admin_state \<Rightarrow> bool" where
  "second_factor_setup_needed e username s =
     (let required = requirements_for (passkey_setting_of e username s) (is_owner e username) (ae_server e)
      in if \<not> for_totp required \<and> \<not> for_passkey required then False
         else setup_pending required (second_factor_methods e username s))"

definition login_steps_for :: "admin_env \<Rightarrow> string \<Rightarrow> admin_state \<Rightarrow> factors" where
  "login_steps_for e username s =
     (let st = second_factor_state_of e username s in login_steps (sf_required st) (sf_factors st))"

definition record_admin_login :: "admin_env \<Rightarrow> millis \<Rightarrow> string \<Rightarrow> string \<Rightarrow> unit admin_request" where
  "record_admin_login e now username how =
     upsert_security e username (\<lambda>r. r\<lparr>sr_last_login := Some now, sr_login_method := Some (take 40 how)\<rparr>)"

definition set_passkey_requirement :: "admin_env \<Rightarrow> string \<Rightarrow> bool option \<Rightarrow> string \<Rightarrow> unit admin_request" where
  "set_passkey_requirement e username required changed_by =
     upsert_security e username (\<lambda>r. r\<lparr>sr_require_passkey := required, sr_changed_by := Some changed_by\<rparr>)"

definition change_passkey_requirement ::
  "admin_env \<Rightarrow> actor \<Rightarrow> string \<Rightarrow> bool option \<Rightarrow> second_factor_state admin_request" where
  "change_passkey_requirement e actor target_name required =
     (let self = same_name (ac_name actor) target_name;
          check = requirement_change_of self (is_owner e target_name) required (for_passkey (ae_server e))
      in if check = ChangeOwner then op_fail (forbidden OwnersFollowEnvironment)
         else if check = ChangeSelfLower then op_fail (forbidden OwnPasskeyRequirement)
         else op_bind (if self then op_ok (ac_name actor, None)
                       else op_bind (admin_target e target_name) (\<lambda>u. op_ok (us_name u, us_school u)))
           (\<lambda>(target, school). op_bind (if self then op_ok () else assert_may_manage_admin e actor target school)
             (\<lambda>u. op_bind (op_read (second_factor_state_of e target))
               (\<lambda>before. op_bind (set_passkey_requirement e target required (ac_name actor))
                 (\<lambda>u. op_bind (op_read (second_factor_state_of e target))
                   (\<lambda>after. if for_passkey (sf_required before) \<noteq> for_passkey (sf_required after) \<or>
                              sf_from_account before \<noteq> sf_from_account after
                      then op_bind (audit (ac_name actor) ''admin.passkey.requirement'' target None [] [])
                             (\<lambda>u. op_bind (announce_change [''users'', ''access'']) (\<lambda>u. op_ok after))
                      else op_ok after))))))"

definition clear_admin_security :: "admin_env \<Rightarrow> string \<Rightarrow> unit admin_request" where
  "clear_admin_security e username =
     op_write (\<lambda>s. s\<lparr>as_security := filter (\<lambda>r. \<not> ae_same e (sr_user r) username) (as_security s)\<rparr>)"

section \<open>Finding an admin account\<close>

definition login_user :: "admin_env \<Rightarrow> string \<Rightarrow> admin_state \<Rightarrow> user_row option" where
  "login_user e username s =
     (case find_user e username s of
        Some u \<Rightarrow> Some u
      | None \<Rightarrow> (let lower = to_lower username in if lower = username then None else find_user e lower s))"

definition lapsed :: "millis \<Rightarrow> admin_row \<Rightarrow> bool" where
  "lapsed now a \<longleftrightarrow> ad_must_change a \<and> (case ad_expires a of None \<Rightarrow> False | Some t \<Rightarrow> t \<le> now)"

text \<open>The loop of \<open>expireLapsedAdminSetups\<close>: one pending grant past its deadline; the count of those removed.\<close>

definition expire_one :: "admin_env \<Rightarrow> millis \<Rightarrow> string \<Rightarrow> nat \<Rightarrow> nat admin_request" where
  "expire_one e now uid removed =
     (let hit = (\<lambda>a. ad_uid a = uid \<and> lapsed now a)
      in op_bind (op_read (\<lambda>s. length (filter hit (as_admins s))))
        (\<lambda>n. op_bind (op_write (\<lambda>s. s\<lparr>as_admins := filter (\<lambda>a. \<not> hit a) (as_admins s)\<rparr>))
          (\<lambda>u. if n = 0 then op_ok removed
             else op_bind (op_read (\<lambda>s. find (\<lambda>u. us_uid u = uid) (as_users s)))
               (\<lambda>user. case user of
                  None \<Rightarrow> op_ok (removed + 1)
                | Some us \<Rightarrow>
                    op_bind (clear_second_factors e (us_name us))
                      (\<lambda>u. op_bind (clear_admin_security e (us_name us))
                        (\<lambda>u. op_bind (op_write (\<lambda>s. s\<lparr>as_grants := filter (\<lambda>g. \<not> ae_same e (gr_user g) (us_name us)) (as_grants s)\<rparr>))
                          (\<lambda>u. op_ok (removed + 1))))))))"

fun expire_all :: "admin_env \<Rightarrow> millis \<Rightarrow> string list \<Rightarrow> nat \<Rightarrow> nat admin_request" where
  "expire_all e now [] removed = op_ok removed"
| "expire_all e now (uid # uids) removed = op_bind (expire_one e now uid removed) (expire_all e now uids)"

definition expire_lapsed_admin_setups :: "admin_env \<Rightarrow> millis \<Rightarrow> nat admin_request" where
  "expire_lapsed_admin_setups e now =
     op_bind (op_read (\<lambda>s. map ad_uid (filter (lapsed now) (as_admins s))))
       (\<lambda>uids. op_bind (expire_all e now uids 0)
         (\<lambda>removed. if 0 < removed then op_bind (announce_change [''users'']) (\<lambda>u. op_ok removed) else op_ok removed))"

record admin_account =
  aa_name :: string
  aa_user :: "user_row option"
  aa_record :: "admin_row option"
  aa_env :: bool

datatype admin_lookup = Found admin_account | NoAccount | NotAdmin

definition find_admin_account :: "admin_env \<Rightarrow> millis \<Rightarrow> string \<Rightarrow> admin_lookup admin_request" where
  "find_admin_account e now input =
     (let typed = trim input
      in if typed = [] then op_ok NoAccount
         else op_bind (op_read (login_user e typed))
           (\<lambda>user. op_bind (op_read (\<lambda>s. Option.bind user (\<lambda>u. find_admin (us_uid u) s)))
             (\<lambda>rec. op_bind (case rec of
                  None \<Rightarrow> op_ok None
                | Some a \<Rightarrow> if admin_setup_lapsed (ad_must_change a) (ad_expires a) now
                            then op_bind (expire_lapsed_admin_setups e now) (\<lambda>n. op_ok None) else op_ok (Some a))
               (\<lambda>rec. let env = match_env_admin (case user of None \<Rightarrow> typed | Some u \<Rightarrow> us_name u) (ae_owners e)
                  in op_ok (case rec of
                       Some a \<Rightarrow> Found \<lparr>aa_name = us_name (the user), aa_user = user, aa_record = rec, aa_env = (env \<noteq> None)\<rparr>
                     | None \<Rightarrow>
                         if truthy env then Found \<lparr>aa_name = the env, aa_user = user, aa_record = None, aa_env = True\<rparr>
                         else if user \<noteq> None then NotAdmin else NoAccount)))))"

section \<open>Passwords\<close>

datatype password_check = PasswordOk | PasswordWrong | NoPassword

definition check_admin_password :: "admin_env \<Rightarrow> admin_account \<Rightarrow> string \<Rightarrow> password_check" where
  "check_admin_password e acc password =
     (let hashes = admin_password_hashes (Option.bind (aa_record acc) ad_hash) (Option.bind (aa_user acc) us_hash) (ae_shared_hash e)
      in if hashes = [] then NoPassword
         else if \<exists>h \<in> set hashes. ae_compare e password h then PasswordOk else PasswordWrong)"

definition admin_password_kind_of :: "admin_account \<Rightarrow> password_kind" where
  "admin_password_kind_of acc =
     admin_password_kind (aa_user acc \<noteq> None) (aa_record acc \<noteq> None) (Option.bind (aa_record acc) ad_hash)
       (map_option us_untis (aa_user acc))"

definition change_admin_password :: "admin_env \<Rightarrow> admin_account \<Rightarrow> string \<Rightarrow> unit admin_request" where
  "change_admin_password e acc password =
     (let kind = admin_password_kind_of acc; h = ae_bcrypt e password
      in case (kind, aa_record acc, aa_user acc) of
           (AdminPassword, Some r, _) \<Rightarrow>
             op_write (\<lambda>s. s\<lparr>as_admins := map (\<lambda>a. if ad_uid a = ad_uid r then a\<lparr>ad_hash := Some h\<rparr> else a) (as_admins s)\<rparr>)
         | (AccountPassword, _, Some us) \<Rightarrow>
             op_write (\<lambda>s. s\<lparr>as_users := map (\<lambda>u. if us_uid u = us_uid us then u\<lparr>us_hash := Some h\<rparr> else u) (as_users s)\<rparr>)
         | _ \<Rightarrow> op_fail (500, PasswordNotHere))"

definition admin_audience :: string where "admin_audience = ''pokyh-admin''"

definition issue_admin_token :: "admin_env \<Rightarrow> millis \<Rightarrow> string \<Rightarrow> string" where
  "issue_admin_token e now username =
     ae_sign e (ae_jwt_secret e) (no_claims\<lparr>fc_purpose := ''admin'', fc_user := Some username\<rparr>)
       admin_audience (ae_token_seconds e) now"

definition renew_admin_tokens :: "admin_env \<Rightarrow> millis \<Rightarrow> string \<Rightarrow> string admin_request" where
  "renew_admin_tokens e now username =
     op_bind (upsert_security e username (\<lambda>r. r\<lparr>sr_valid_from := Some (now div 1000 * 1000)\<rparr>))
       (\<lambda>u. op_ok (issue_admin_token e now username))"

definition admin_tokens_valid_from :: "admin_env \<Rightarrow> string \<Rightarrow> admin_state \<Rightarrow> millis option" where
  "admin_tokens_valid_from e username s = Option.bind (find_security e username s) sr_valid_from"

section \<open>One-time passwords\<close>

definition pending_admin :: "admin_env \<Rightarrow> millis \<Rightarrow> buffer \<Rightarrow> string \<Rightarrow> string \<Rightarrow> string \<Rightarrow> admin_row" where
  "pending_admin e now nonce uid one_time granted_by =
     \<lparr>ad_uid = uid, ad_create_class = True, ad_hash = Some (ae_bcrypt e one_time), ad_must_change = True,
      ad_expires = Some (now + admin_setup_window_ms),
      ad_one_time = Some (seal_secret (ae_pr e) nonce one_time (ae_jwt_secret e)), ad_granted_by = Some granted_by\<rparr>"

definition upsert_admin :: "admin_row \<Rightarrow> (admin_row \<Rightarrow> admin_row) \<Rightarrow> unit admin_request" where
  "upsert_admin created f =
     op_write (\<lambda>s. if find_admin (ad_uid created) s = None then s\<lparr>as_admins := as_admins s @ [created]\<rparr>
                   else s\<lparr>as_admins := map (\<lambda>a. if ad_uid a = ad_uid created then f a else a) (as_admins s)\<rparr>)"

definition grant_admin_with_one_time_password ::
  "admin_env \<Rightarrow> millis \<Rightarrow> buffer \<Rightarrow> string \<Rightarrow> string \<Rightarrow> string \<Rightarrow> millis admin_request" where
  "grant_admin_with_one_time_password e now nonce uid one_time granted_by =
     (let row = pending_admin e now nonce uid one_time granted_by
      in op_bind (upsert_admin row (\<lambda>a. row)) (\<lambda>u. op_ok (the (ad_expires row))))"

definition view_one_time_password :: "admin_env \<Rightarrow> millis \<Rightarrow> string \<Rightarrow> string \<Rightarrow> admin_state \<Rightarrow> (string \<times> millis) option" where
  "view_one_time_password e now uid viewer s =
     (case find_admin uid s of
        None \<Rightarrow> None
      | Some a \<Rightarrow>
          if \<not> may_view_one_time_password (ad_must_change a) (ad_expires a) (ad_one_time a) (ad_granted_by a) viewer now then None
          else case open_secret (ae_pr e) (the (ad_one_time a)) (ae_jwt_secret e) of
                 Inl err \<Rightarrow> None
               | Inr password \<Rightarrow> Some (password, the (ad_expires a)))"

definition setup_ticket_seconds :: int where "setup_ticket_seconds = 10 * 60"

definition setup_ticket_key :: "admin_env \<Rightarrow> string" where
  "setup_ticket_key e = hex_encode (hmac (ae_pr e) (utf8 (ae_jwt_secret e)) (utf8 ''pokyh-admin-password-setup-v1''))"

definition hash_fingerprint :: "admin_env \<Rightarrow> string \<Rightarrow> string" where
  "hash_fingerprint e h = take 32 (hex_encode (sha256_of (ae_pr e) (utf8 h)))"

definition begin_password_setup :: "admin_env \<Rightarrow> millis \<Rightarrow> admin_account \<Rightarrow> string admin_request" where
  "begin_password_setup e now acc =
     (let r = the (aa_record acc); ticket_end = now + setup_ticket_seconds * 1000;
          hit = (\<lambda>a. ad_uid a = ad_uid r \<and> ad_must_change a \<and> ad_hash a = ad_hash r)
      in op_bind (if ad_expires r = None \<or> the (ad_expires r) < ticket_end
                  then op_write (\<lambda>s. s\<lparr>as_admins := map (\<lambda>a. if hit a then a\<lparr>ad_expires := Some ticket_end\<rparr> else a) (as_admins s)\<rparr>)
                  else op_ok ())
           (\<lambda>u. op_ok (ae_sign e (setup_ticket_key e)
              (no_claims\<lparr>fc_purpose := ''admin-password-setup'', fc_user := Some (aa_name acc),
                 fc_fingerprint := Some (hash_fingerprint e (the (ad_hash r)))\<rparr>)
              ''admin-password-setup'' setup_ticket_seconds now)))"

definition finish_password_setup :: "admin_env \<Rightarrow> millis \<Rightarrow> string \<Rightarrow> string \<Rightarrow> string admin_request" where
  "finish_password_setup e now ticket new_password =
     (case ae_verify e (setup_ticket_key e) ticket ''admin-password-setup'' now of
        None \<Rightarrow> op_fail (unauthorized SetupExpired)
      | Some c \<Rightarrow>
          if fc_purpose c \<noteq> ''admin-password-setup'' \<or> \<not> truthy (fc_user c) \<or> \<not> truthy (fc_fingerprint c)
          then op_fail (unauthorized SetupExpired)
          else op_bind (find_admin_account e now (the (fc_user c)))
            (\<lambda>lookup. case lookup of
               Found acc \<Rightarrow>
                 (case aa_record acc of
                    None \<Rightarrow> op_fail (unauthorized SetupExpired)
                  | Some r \<Rightarrow>
                      if \<not> ad_must_change r \<or> \<not> truthy (ad_hash r) \<or> Some (hash_fingerprint e (the (ad_hash r))) \<noteq> fc_fingerprint c
                      then op_fail (unauthorized SetupExpired)
                      else if ae_compare e new_password (the (ad_hash r)) then op_fail (validation SamePassword)
                      else let hit = (\<lambda>a. ad_uid a = ad_uid r \<and> ad_must_change a \<and> ad_hash a = ad_hash r)
                           in op_bind (op_read (\<lambda>s. length (filter hit (as_admins s))))
                             (\<lambda>n. op_bind (op_write (\<lambda>s. s\<lparr>as_admins := map (\<lambda>a. if hit a
                                       then a\<lparr>ad_hash := Some (ae_bcrypt e new_password), ad_must_change := False,
                                              ad_expires := None, ad_one_time := None\<rparr> else a) (as_admins s)\<rparr>))
                               (\<lambda>u. if n = 0 then op_fail (unauthorized SetupExpired)
                                  else op_bind (announce_change [''users'']) (\<lambda>u. op_ok (aa_name acc)))))
             | _ \<Rightarrow> op_fail (unauthorized SetupExpired)))"

end
