(* ===== verification/Admin_Routes.thy ===== *)
theory Admin_Routes
  imports Admin_Login
begin

text \<open>
  The handlers of \<^verbatim>\<open>src/middleware/requireAdmin.ts\<close>, \<^verbatim>\<open>src/routes/admin.ts\<close> and \<^verbatim>\<open>src/routes/adminSecurity.ts\<close>
  that open the panel and that make, end and protect admin accounts. Logging and rate limits are left out;
  a handler that answers an error status throws it.
\<close>

section \<open>Who is asking\<close>

definition is_currently_admin :: "admin_env \<Rightarrow> string \<Rightarrow> admin_state \<Rightarrow> bool" where
  "is_currently_admin e username s =
     (if username \<in> set (ae_owners e) then True
      else case find_user e username s of
        None \<Rightarrow> False
      | Some u \<Rightarrow> (case find_admin (us_uid u) s of None \<Rightarrow> False | Some a \<Rightarrow> \<not> ad_must_change a))"

definition verify_admin_token :: "admin_env \<Rightarrow> millis \<Rightarrow> string \<Rightarrow> flow_claims option" where
  "verify_admin_token e now token =
     (case ae_verify_any e (ae_jwt_secret e) token now of
        None \<Rightarrow> None
      | Some (c, aud) \<Rightarrow> if aud \<noteq> None \<and> aud \<noteq> Some admin_audience then None else Some c)"

definition extract_token :: "string option \<Rightarrow> string option" where
  "extract_token header =
     (case header of None \<Rightarrow> None
      | Some h \<Rightarrow> if h \<noteq> [] \<and> starts_with ''Bearer '' h then Some (drop 7 h) else None)"

text \<open>Besides the actor: whether this session still has to set up its second factor.\<close>

definition require_admin :: "admin_env \<Rightarrow> millis \<Rightarrow> string option \<Rightarrow> bool \<Rightarrow> (actor \<times> bool) admin_request" where
  "require_admin e now header allow_setup =
     (case extract_token header of
        None \<Rightarrow> op_fail (unauthorized TokenMissing)
      | Some token \<Rightarrow>
          if token = [] then op_fail (unauthorized TokenMissing)
          else case verify_admin_token e now token of
             None \<Rightarrow> op_fail (unauthorized TokenInvalid)
           | Some c \<Rightarrow>
               if fc_purpose c \<noteq> ''admin'' \<or> \<not> truthy (fc_user c) then op_fail (forbidden AdminRoleRequired)
               else let name = the (fc_user c)
                    in op_bind (op_read (is_currently_admin e name))
                      (\<lambda>still. op_bind (op_read (second_factor_setup_needed e name))
                      (\<lambda>pending. op_bind (op_read (load_access e name))
                      (\<lambda>acc. op_bind (op_read (admin_tokens_valid_from e name))
                      (\<lambda>valid_from.
                         if \<not> still then op_fail (forbidden AdminRevoked)
                         else if valid_from \<noteq> None \<and> (case fc_issued c of None \<Rightarrow> 0 | Some i \<Rightarrow> i) < the valid_from div 1000
                         then op_fail (unauthorized SessionRevoked)
                         else if pending \<and> \<not> allow_setup then op_fail (forbidden SecondFactorSetupRequired)
                         else op_ok (\<lparr>ac_name = name, ac_access = acc\<rparr>, pending))))))"

text \<open>The school the panel names, in a header or else in the query.\<close>

definition requested_school :: "string option \<Rightarrow> string option \<Rightarrow> string option" where
  "requested_school header query =
     (let v = (case header of Some h \<Rightarrow> h | None \<Rightarrow> (case query of Some q \<Rightarrow> q | None \<Rightarrow> []))
      in if trim v = [] then None else Some (to_lower (trim v)))"

definition require_permission :: "millis \<Rightarrow> access \<Rightarrow> string \<Rightarrow> bool \<Rightarrow> string option \<Rightarrow> string option admin_request" where
  "require_permission now acc permission global_view requested =
     (let wanted = (if is_global_only permission \<or> global_view then None else requested)
      in op_bind (case wanted of
            None \<Rightarrow> op_ok None
          | Some w \<Rightarrow>
              if \<not> school_id_pattern w then op_fail (400, BadSchool)
              else op_bind (school_by_id now w) (\<lambda>s. if s = None then op_fail (not_found UnknownSchool) else op_ok s))
        (\<lambda>school. if can acc permission school then op_ok school else op_fail (forbidden (NoPermission permission))))"

definition in_scope :: "string option \<Rightarrow> string option \<Rightarrow> bool" where
  "in_scope scope record_school \<longleftrightarrow> scope = None \<or> record_school = scope"

definition user_in_scope :: "string option \<Rightarrow> string \<Rightarrow> admin_state \<Rightarrow> user_row option" where
  "user_in_scope scope uid s =
     (case find (\<lambda>u. us_uid u = uid) (as_users s) of
        None \<Rightarrow> None | Some u \<Rightarrow> if in_scope scope (us_school u) then Some u else None)"

section \<open>Signing in\<close>

text \<open>What the login answers: a session (and whether it must set up a second factor), or one more step.\<close>

datatype login_answer =
    Session string bool
  | SecondFactor string factors bool
  | ChangePassword string

definition answer_password_accepted :: "admin_env \<Rightarrow> millis \<Rightarrow> string \<Rightarrow> string \<Rightarrow> string \<Rightarrow> login_answer admin_request" where
  "answer_password_accepted e now uuid username how =
     op_bind (op_read (login_steps_for e username))
     (\<lambda>steps. op_bind (op_read (second_factor_methods e username))
     (\<lambda>have. if for_totp steps \<or> for_passkey steps
        then op_ok (SecondFactor (issue_second_factor_ticket e now uuid username) steps (for_totp have))
        else op_bind (op_read (second_factor_setup_needed e username))
          (\<lambda>needed. op_bind (audit username ''admin.login'' username None [] [])
            (\<lambda>u. op_bind (record_admin_login e now username how)
              (\<lambda>u. op_ok (Session (issue_admin_token e now username) needed))))))"

definition login :: "admin_env \<Rightarrow> millis \<Rightarrow> string \<Rightarrow> string option \<Rightarrow> string option \<Rightarrow> login_answer admin_request" where
  "login e now uuid username password =
     (if username = None \<or> trim (the username) = [] \<or> \<not> truthy password then op_fail (400, InvalidCredentials)
      else op_bind (find_admin_account e now (the username))
        (\<lambda>lookup. case lookup of
           Found acc \<Rightarrow>
             (case check_admin_password e acc (the password) of
                NoPassword \<Rightarrow> op_fail (if aa_env acc then (500, NotConfigured) else unauthorized InvalidCredentials)
              | PasswordWrong \<Rightarrow> op_fail (unauthorized InvalidCredentials)
              | PasswordOk \<Rightarrow>
                  if aa_record acc \<noteq> None \<and> ad_must_change (the (aa_record acc))
                  then op_bind (begin_password_setup e now acc) (\<lambda>t. op_ok (ChangePassword t))
                  else answer_password_accepted e now uuid (aa_name acc) ''password'')
         | _ \<Rightarrow> op_fail (unauthorized InvalidCredentials)))"

definition password_setup :: "admin_env \<Rightarrow> millis \<Rightarrow> string \<Rightarrow> string \<Rightarrow> string \<Rightarrow> login_answer admin_request" where
  "password_setup e now uuid ticket new_password =
     (if ticket = [] \<or> 2000 < length ticket \<or> length new_password < 8 \<or> 200 < length new_password
      then op_fail (400, InvalidCredentials)
      else op_bind (finish_password_setup e now ticket new_password)
        (\<lambda>username. answer_password_accepted e now uuid username ''one-time-password''))"

section \<open>Appointing an admin\<close>

definition give_grant :: "admin_env \<Rightarrow> millis \<Rightarrow> actor \<Rightarrow> user_row \<Rightarrow> grant_request option \<Rightarrow> unit admin_request" where
  "give_grant e now actor user grant =
     (case grant of None \<Rightarrow> op_ok ()
      | Some g \<Rightarrow> op_bind (set_grant e now actor (us_name user) (rq_scope g) (rq_permissions g) (rq_preset g)) (\<lambda>v. op_ok ()))"

text \<open>
  \<open>POST /users/:stableUid/grant-admin\<close>, after \<open>requirePermission('users.view')\<close> found the scope. The
  answer is the end of the setup window, if one starts.
\<close>

definition grant_admin ::
  "admin_env \<Rightarrow> millis \<Rightarrow> buffer \<Rightarrow> actor \<Rightarrow> string option \<Rightarrow> string \<Rightarrow> grant_body option \<Rightarrow> string option \<Rightarrow> millis option admin_request" where
  "grant_admin e now nonce actor scope uid raw_grant password =
     op_bind (op_read (user_in_scope scope uid))
     (\<lambda>found. case found of
        None \<Rightarrow> op_fail (not_found UserNotFound)
      | Some user \<Rightarrow>
     op_bind (assert_may_appoint_admin actor (us_school user))
     (\<lambda>u. op_bind (op_lift (parse_grant_request raw_grant))
     (\<lambda>grant. op_bind (case grant of None \<Rightarrow> op_ok () | Some g \<Rightarrow> check_grant_request now actor g (us_school user))
     (\<lambda>u. let needs = grant_needs_one_time_password (us_untis user) (truthy (us_hash user))
          in if \<not> needs
             then op_bind (upsert_admin \<lparr>ad_uid = uid, ad_create_class = True, ad_hash = None, ad_must_change = False,
                             ad_expires = None, ad_one_time = None, ad_granted_by = None\<rparr> (\<lambda>a. a\<lparr>ad_create_class := True\<rparr>))
                    (\<lambda>u. op_bind (audit (ac_name actor) ''admin.appoint'' (us_name user) (us_school user) [] [])
                      (\<lambda>u. op_bind (give_grant e now actor user grant) (\<lambda>u. op_ok None)))
             else op_bind (op_read (find_admin uid))
               (\<lambda>existing. if existing \<noteq> None \<and>
                     admin_can_sign_in (ad_hash (the existing)) (ad_must_change (the existing)) needs
                  then op_bind (give_grant e now actor user grant) (\<lambda>u. op_ok None)
                  else if \<not> valid_one_time_password password then op_fail (validation OneTimePasswordNeeded)
                  else op_bind (grant_admin_with_one_time_password e now nonce uid (the password) (ac_name actor))
                    (\<lambda>expires. op_bind (audit (ac_name actor) ''admin.appoint'' (us_name user) (us_school user) [] [])
                      (\<lambda>u. op_bind (give_grant e now actor user grant) (\<lambda>u. op_ok (Some expires)))))))))"

definition show_one_time_password ::
  "admin_env \<Rightarrow> millis \<Rightarrow> actor \<Rightarrow> string option \<Rightarrow> string \<Rightarrow> (string \<times> millis) admin_request" where
  "show_one_time_password e now actor scope uid =
     op_bind (op_read (user_in_scope scope uid))
     (\<lambda>found. if found = None then op_fail (not_found UserNotFound)
        else op_bind (expire_lapsed_admin_setups e now)
          (\<lambda>n. op_bind (op_read (view_one_time_password e now uid (ac_name actor)))
            (\<lambda>v. case v of None \<Rightarrow> op_fail (not_found OneTimePasswordGone) | Some p \<Rightarrow> op_ok p)))"

section \<open>Ending admin standing, deleting accounts, setting passwords\<close>

definition clear_stale_second_factors :: "admin_env \<Rightarrow> millis \<Rightarrow> string \<Rightarrow> unit admin_request" where
  "clear_stale_second_factors e now username =
     op_bind (find_admin_account e now username)
       (\<lambda>still. case still of
          Found acc \<Rightarrow> op_ok ()
        | _ \<Rightarrow> op_bind (clear_second_factors e username) (\<lambda>u. clear_admin_security e username))"

definition revoke_admin :: "admin_env \<Rightarrow> millis \<Rightarrow> actor \<Rightarrow> string option \<Rightarrow> string \<Rightarrow> unit admin_request" where
  "revoke_admin e now actor scope uid =
     op_bind (op_read (user_in_scope scope uid))
     (\<lambda>found. case found of
        None \<Rightarrow> op_fail (not_found UserNotFound)
      | Some target \<Rightarrow>
          op_bind (assert_may_remove_admin e actor (us_name target) (us_school target))
          (\<lambda>u. op_bind (op_write (\<lambda>s. s\<lparr>as_admins := filter (\<lambda>a. ad_uid a \<noteq> uid) (as_admins s)\<rparr>))
          (\<lambda>u. op_bind (clear_grants e (us_name target))
          (\<lambda>n. op_bind (clear_stale_second_factors e now (us_name target))
          (\<lambda>u. audit (ac_name actor) ''admin.revoke'' (us_name target) (us_school target) [] [])))))"

definition target_is_admin :: "admin_env \<Rightarrow> user_row \<Rightarrow> admin_state \<Rightarrow> bool" where
  "target_is_admin e user s \<longleftrightarrow> is_owner e (us_name user) \<or> find_admin (us_uid user) s \<noteq> None"

definition delete_user :: "admin_env \<Rightarrow> millis \<Rightarrow> actor \<Rightarrow> string option \<Rightarrow> string \<Rightarrow> unit admin_request" where
  "delete_user e now actor scope uid =
     op_bind (op_read (user_in_scope scope uid))
     (\<lambda>found. case found of
        None \<Rightarrow> op_fail (not_found UserNotFound)
      | Some target \<Rightarrow>
          op_bind (op_read (target_is_admin e target))
          (\<lambda>is_admin. op_bind (if is_admin then assert_may_remove_admin e actor (us_name target) (us_school target) else op_ok ())
          (\<lambda>u. op_bind (op_write (\<lambda>s. s\<lparr>as_users := filter (\<lambda>u. us_uid u \<noteq> uid) (as_users s)\<rparr>))
          (\<lambda>u. op_bind (clear_stale_second_factors e now (us_name target))
          (\<lambda>u. op_bind (clear_grants e (us_name target))
          (\<lambda>n. audit (ac_name actor) ''user.delete'' uid (us_school target) [] []))))))"

definition set_user_password :: "admin_env \<Rightarrow> actor \<Rightarrow> string option \<Rightarrow> string \<Rightarrow> string option \<Rightarrow> unit admin_request" where
  "set_user_password e actor scope uid password =
     (if uid = [] then op_fail (400, UserNotFound)
      else if password = None \<or> length (the password) < 8 then op_fail (400, InvalidCredentials)
      else op_bind (op_read (user_in_scope scope uid))
       (\<lambda>found. case found of
          None \<Rightarrow> op_fail (not_found UserNotFound)
        | Some user \<Rightarrow>
            op_bind (op_read (target_is_admin e user))
            (\<lambda>is_admin. op_bind (if is_admin then assert_may_remove_admin e actor (us_name user) (us_school user) else op_ok ())
            (\<lambda>u. op_bind (op_write (\<lambda>s. s\<lparr>as_users := map (\<lambda>u. if us_uid u = uid
                       then u\<lparr>us_hash := Some (ae_bcrypt e (the password)), us_untis := False\<rparr> else u) (as_users s)\<rparr>))
            (\<lambda>u. audit (ac_name actor) ''user.password'' uid (us_school user) [] [])))))"

section \<open>The account's own security settings\<close>

definition assert_may_remove :: "admin_env \<Rightarrow> string \<Rightarrow> factor_kind \<Rightarrow> bool \<Rightarrow> unit admin_request" where
  "assert_may_remove e username kind remaining =
     op_bind (op_read (second_factor_state_of e username))
       (\<lambda>st. let left = (case kind of TotpFactor \<Rightarrow> (sf_factors st)\<lparr>for_totp := remaining\<rparr>
                        | PasskeyFactor \<Rightarrow> (sf_factors st)\<lparr>for_passkey := remaining\<rparr>)
             in op_check (may_remove_factor kind (sf_required st) left)
                  (validation (case kind of TotpFactor \<Rightarrow> LastTotp | PasskeyFactor \<Rightarrow> LastPasskey)))"

definition change_own_password :: "admin_env \<Rightarrow> millis \<Rightarrow> string \<Rightarrow> string \<Rightarrow> string \<Rightarrow> string admin_request" where
  "change_own_password e now username current_password new_password =
     (if current_password = [] \<or> 200 < length current_password \<or> length new_password < 8 \<or> 200 < length new_password
      then op_fail (400, InvalidCredentials)
      else op_bind (find_admin_account e now username)
        (\<lambda>lookup. case lookup of
           Found acc \<Rightarrow>
             if admin_password_kind_of acc = ConfigPassword then op_fail (validation PasswordNotHere)
             else if check_admin_password e acc current_password \<noteq> PasswordOk then op_fail (validation WrongPassword)
             else op_bind (change_admin_password e acc new_password) (\<lambda>u. renew_admin_tokens e now username)
         | _ \<Rightarrow> op_fail (unauthorized AdminRevoked)))"

definition disable_own_totp :: "admin_env \<Rightarrow> millis \<Rightarrow> string \<Rightarrow> string \<Rightarrow> string admin_request" where
  "disable_own_totp e now username code =
     op_bind (assert_may_remove e username TotpFactor False)
       (\<lambda>u. op_bind (disable_totp e now username code) (\<lambda>u. renew_admin_tokens e now username))"

definition finish_own_totp_move :: "admin_env \<Rightarrow> millis \<Rightarrow> string \<Rightarrow> string \<Rightarrow> string admin_request" where
  "finish_own_totp_move e now username code =
     op_bind (finish_totp_move e now username code) (\<lambda>u. renew_admin_tokens e now username)"

definition delete_own_passkey :: "admin_env \<Rightarrow> millis \<Rightarrow> string \<Rightarrow> string \<Rightarrow> string admin_request" where
  "delete_own_passkey e now username nid =
     op_bind (op_read (\<lambda>s. length (filter (\<lambda>k. pk_id k \<noteq> nid) (passkeys_of e username s))))
       (\<lambda>others. op_bind (assert_may_remove e username PasskeyFactor (0 < others))
         (\<lambda>u. op_bind (delete_passkey e username nid) (\<lambda>u. renew_admin_tokens e now username)))"

end
