(* ===== verification/Admin_Facts.thy ===== *)
theory Admin_Facts
  imports Admin_Routes
begin

text \<open>
  What the handlers do to the tables: facts the properties of the admin panel rest on. First what a list of
  grant rows gives, then the effect of each request on the grants.
\<close>

section \<open>Rights in the database\<close>

lemma parse_permission_list_iff:
  "p \<in> set (parse_permission_list v) \<longleftrightarrow> is_permission (Some p) \<and> (\<exists>xs. v = Some xs \<and> Some p \<in> set xs)"
  by (auto simp: parse_permission_list_def is_permission_def split: option.splits) force

lemma parse_stored [simp]: "set (parse_permission_list (stored ps)) = {p \<in> set ps. is_permission (Some p)}"
  by (auto simp: parse_permission_list_iff stored_def)

lemma load_access_owner [simp]: "acc_owner (load_access e u s) = is_owner e u"
  by (simp add: load_access_def)

lemma load_access_global:
  "\<not> is_owner e u \<Longrightarrow> p \<in> set (acc_global (load_access e u s)) \<longleftrightarrow>
     (\<exists>g \<in> set (as_grants s). ae_same e (gr_user g) u \<and> gr_scope g = global_scope \<and> p \<in> set (parse_permission_list (gr_permissions g)))"
  by (auto simp: load_access_def global_access_from grants_where_user_def parse_permission_list_iff)

lemma load_access_school:
  "\<not> is_owner e u \<Longrightarrow> p \<in> set (school_set (load_access e u s) sc) \<longleftrightarrow>
     (\<exists>g \<in> set (as_grants s). ae_same e (gr_user g) u \<and> gr_scope g = sc \<and> p \<in> set (parse_permission_list (gr_permissions g)) \<and>
        sc \<noteq> global_scope \<and> \<not> is_global_only p)"
  by (auto simp: load_access_def school_access_from grants_where_user_def parse_permission_list_iff)

text \<open>A grant row gives a right in a scope when it is for that scope, or global.\<close>

definition row_gives :: "grant_row \<Rightarrow> string \<Rightarrow> string \<Rightarrow> bool" where
  "row_gives g sc p \<longleftrightarrow> p \<in> set (parse_permission_list (gr_permissions g)) \<and>
     (if sc = global_scope then gr_scope g = global_scope
      else p \<in> set school_permissions \<and> (gr_scope g = global_scope \<or> gr_scope g = sc))"

lemma permissions_in_load_access:
  "\<not> is_owner e u \<Longrightarrow> p \<in> set (permissions_in (load_access e u s) sc) \<longleftrightarrow>
     (\<exists>g \<in> set (as_grants s). ae_same e (gr_user g) u \<and> row_gives g sc p)"
  by (auto simp: permissions_in_iff load_access_global load_access_school row_gives_def school_permission_iff)

lemma load_access_cong: "as_grants s = as_grants t \<Longrightarrow> load_access e u s = load_access e u t"
  by (simp add: load_access_def grants_where_user_def)

section \<open>Requests that leave grants and accounts alone\<close>

definition same_accounts :: "admin_state \<Rightarrow> admin_state \<Rightarrow> bool" where
  "same_accounts s t \<longleftrightarrow> as_grants t = as_grants s \<and> as_users t = as_users s \<and> as_admins t = as_admins s"

lemma same_accounts_refl [simp]: "same_accounts s s"
  by (simp add: same_accounts_def)

lemma same_accounts_trans: "same_accounts s t \<Longrightarrow> same_accounts t u \<Longrightarrow> same_accounts s u"
  by (simp add: same_accounts_def)

interpretation accounts: kept same_accounts
  by unfold_locales (simp, erule (1) same_accounts_trans)

lemma keeps_audit [intro, simp]: "keeps same_accounts (audit a b c d f g)"
  unfolding audit_def by (rule accounts.keeps_write) (simp add: same_accounts_def)

lemma keeps_announce [intro, simp]: "keeps same_accounts (announce_change ts)"
  unfolding announce_change_def by (rule accounts.keeps_write) (simp add: same_accounts_def)

lemma keeps_list_schools [intro, simp]: "keeps same_accounts (list_schools now)"
  by (rule keepsI) (auto simp: list_schools_def same_accounts_def split: option.splits if_splits prod.splits)

lemma keeps_school_by_id [intro, simp]: "keeps same_accounts (school_by_id now i)"
  unfolding school_by_id_def by (auto intro: accounts.keeps_bind)

lemma keeps_check_scope [intro, simp]: "keeps same_accounts (check_scope now sc)"
  unfolding check_scope_def by (auto intro: accounts.keeps_bind)

lemma keeps_list_presets [intro, simp]: "keeps same_accounts (list_presets e now)"
  by (rule keepsI) (auto simp: list_presets_def same_accounts_def Let_def split: option.splits if_splits prod.splits)

lemma keeps_admin_target [intro, simp]: "keeps same_accounts (admin_target e u)"
  unfolding admin_target_def by (intro accounts.keeps_bind) (auto split: option.splits)

lemma keeps_forget [intro, simp]: "keeps same_accounts forget_presets"
  unfolding forget_presets_def by (rule accounts.keeps_write) (simp add: same_accounts_def)

lemma admin_target_Inr:
  "admin_target e name s = (Inr u, s') \<Longrightarrow> s' = s \<and> \<not> is_owner e name \<and> find_user e name s = Some u \<and> find_admin (us_uid u) s \<noteq> None"
  by (auto simp: admin_target_def elim!: op_bind_InrE split: option.splits if_splits)

definition valid_scope :: "string \<Rightarrow> bool" where
  "valid_scope sc \<longleftrightarrow> sc = global_scope \<or> school_id_pattern sc"

lemma check_scope_Inr: "check_scope now sc s = (Inr u, s') \<Longrightarrow> valid_scope sc"
  by (auto simp: check_scope_def school_by_id_def valid_scope_def elim!: op_bind_InrE split: if_splits)

section \<open>The rows a grant writes\<close>

lemma find_grant_Some: "find_grant i s = Some g \<Longrightarrow> g \<in> set (as_grants s) \<and> gr_id g = i"
  by (auto simp: find_grant_def dest: find_SomeD)

text \<open>A row written for a name and scope: new, or the row with that id with its rights replaced.\<close>

definition written_row :: "admin_env \<Rightarrow> string \<Rightarrow> string \<Rightarrow> string list \<Rightarrow> grant_row list \<Rightarrow> grant_row \<Rightarrow> bool" where
  "written_row e username scope permissions old g \<longleftrightarrow>
     gr_id g = grant_id e username scope \<and> gr_permissions g = stored permissions \<and>
     (gr_user g = username \<and> gr_scope g = scope \<or>
      (\<exists>h \<in> set old. gr_id h = gr_id g \<and> gr_user g = gr_user h \<and> gr_scope g = gr_scope h))"

lemma upsert_grant_rows:
  assumes run: "upsert_grant e row s = (r, s')" and row: "gr_id row = grant_id e (gr_user row) (gr_scope row)"
    "gr_permissions row = stored ps" and g: "g \<in> set (as_grants s')"
  shows "g \<in> set (as_grants s) \<or> written_row e (gr_user row) (gr_scope row) ps (as_grants s) g"
proof (cases "find_grant (gr_id row) s")
  case None
  with run row g show ?thesis by (auto simp: upsert_grant_def written_row_def split: if_splits)
next
  case (Some h)
  let ?h = "h\<lparr>gr_preset := gr_preset row, gr_permissions := gr_permissions row, gr_by := gr_by row, gr_updated := gr_updated row\<rparr>"
  from Some run g have "g \<in> set (as_grants s) \<or> g = ?h" by (auto simp: upsert_grant_def Let_def split: if_splits)
  moreover from find_grant_Some [OF Some] row have "written_row e (gr_user row) (gr_scope row) ps (as_grants s) ?h"
    by (auto simp: written_row_def)
  ultimately show ?thesis by blast
qed

lemma write_grant_run:
  assumes "ps \<noteq> []" "write_grant e now actor username scope ps pn s = (r, s')"
  obtains row q s1 where "as_grants s1 = as_grants s" "gr_id row = grant_id e username scope" "gr_user row = username"
    "gr_scope row = scope" "gr_permissions row = stored ps" "upsert_grant e row s1 = (q, s')" "\<And>err. r = Inl err \<longleftrightarrow> q = Inl err"
proof -
  have "\<exists>pl. fst (list_presets e now s) = Inr pl"
    by (cases "as_preset_cache s") (auto simp: list_presets_def Let_def)
  then obtain pl s1 where l: "list_presets e now s = (Inr pl, s1)" by (metis prod.collapse)
  from keepsD [OF keeps_list_presets l] have same: "as_grants s1 = as_grants s" by (simp add: same_accounts_def)
  define row where "row = \<lparr>gr_id = grant_id e username scope, gr_user = username, gr_scope = scope,
    gr_preset = chosen_preset scope ps pn pl, gr_permissions = stored ps, gr_by = Some (ac_name actor), gr_updated = now\<rparr>"
  obtain q s2 where u: "upsert_grant e row s1 = (q, s2)" by (metis prod.collapse)
  with assms l have "s2 = s'" "\<And>err. r = Inl err \<longleftrightarrow> q = Inl err"
    by (auto simp: write_grant_def Let_def row_def op_bind_def op_ok_def split: sum.splits)
  with that [of s1 row q] same u show thesis by (simp add: row_def)
qed

lemma write_grant_rows:
  assumes "write_grant e now actor username scope ps pn s = (r, s')" "g \<in> set (as_grants s')"
  shows "g \<in> set (as_grants s) \<or> written_row e username scope ps (as_grants s) g"
proof (cases "ps = []")
  case True
  with assms show ?thesis by (auto simp: write_grant_def Let_def elim!: op_bind_cases)
next
  case False
  then obtain row q s1 where "as_grants s1 = as_grants s" "gr_id row = grant_id e username scope" "gr_user row = username"
    "gr_scope row = scope" "gr_permissions row = stored ps" "upsert_grant e row s1 = (q, s')"
    using assms(1) by (rule write_grant_run)
  with upsert_grant_rows [of e row s1 q s' ps g] assms(2) show ?thesis by simp
qed

lemma upsert_keeps_others:
  "upsert_grant e row s = (r, s') \<Longrightarrow> g \<in> set (as_grants s) \<Longrightarrow> gr_id g \<noteq> gr_id row \<Longrightarrow> g \<in> set (as_grants s')"
  by (force simp: upsert_grant_def Let_def split: option.splits if_splits)

lemma write_grant_keeps_others:
  assumes "write_grant e now actor u scope ps pn s = (r, s')" "g \<in> set (as_grants s)" "gr_id g \<noteq> grant_id e u scope"
  shows "g \<in> set (as_grants s')"
proof (cases "ps = []")
  case True
  with assms show ?thesis by (auto simp: write_grant_def Let_def elim!: op_bind_cases)
next
  case False
  then show ?thesis using assms(1)
    by (rule write_grant_run) (use assms(2,3) upsert_keeps_others in metis)
qed

lemma write_grant_error:
  assumes "write_grant e now actor u scope ps pn s = (Inl err, s')"
  shows "as_grants s' = as_grants s"
proof (cases "ps = []")
  case True
  with assms show ?thesis by (auto simp: write_grant_def Let_def elim!: op_bind_cases)
next
  case False
  then obtain row q s1 where "as_grants s1 = as_grants s" "upsert_grant e row s1 = (q, s')" "q = Inl err"
    using assms by (rule write_grant_run) blast
  then show ?thesis by (auto simp: upsert_grant_def Let_def split: option.splits if_splits)
qed

text \<open>A write that goes through leaves exactly the row asked for under the id of the name and scope, or none.\<close>

lemma upsert_grant_exact:
  assumes "upsert_grant e row s = (Inr r, s')"
  shows "filter (\<lambda>g. gr_id g \<noteq> gr_id row) (as_grants s') = filter (\<lambda>g. gr_id g \<noteq> gr_id row) (as_grants s)"
    and "\<exists>g \<in> set (as_grants s'). gr_id g = gr_id row"
    and "\<forall>g \<in> set (as_grants s'). gr_id g = gr_id row \<longrightarrow> gr_permissions g = gr_permissions row"
proof -
  let ?other = "\<lambda>g. gr_id g \<noteq> gr_id row"
  have "filter ?other (as_grants s') = filter ?other (as_grants s) \<and> (\<exists>g \<in> set (as_grants s'). gr_id g = gr_id row) \<and>
    (\<forall>g \<in> set (as_grants s'). gr_id g = gr_id row \<longrightarrow> gr_permissions g = gr_permissions row)"
  proof (cases "find_grant (gr_id row) s")
    case None
    then have "\<forall>g \<in> set (as_grants s). ?other g" by (simp add: find_grant_def find_None_iff)
    moreover from None assms have "as_grants s' = as_grants s @ [row]" by (auto simp: upsert_grant_def split: if_splits)
    ultimately show ?thesis by auto
  next
    case (Some h)
    let ?h = "h\<lparr>gr_preset := gr_preset row, gr_permissions := gr_permissions row, gr_by := gr_by row, gr_updated := gr_updated row\<rparr>"
    note h = find_grant_Some [OF Some]
    have "filter ?other (map (\<lambda>g. if gr_id g = gr_id row then ?h else g) xs) = filter ?other xs" for xs
      using h by (induction xs) auto
    moreover from Some assms have "as_grants s' = map (\<lambda>g. if gr_id g = gr_id row then ?h else g) (as_grants s)"
      by (auto simp: upsert_grant_def Let_def)
    moreover from this h have "?h \<in> set (as_grants s')" by force
    ultimately show ?thesis using h by (auto intro: bexI [of _ ?h])
  qed
  then show "filter ?other (as_grants s') = filter ?other (as_grants s)" "\<exists>g \<in> set (as_grants s'). gr_id g = gr_id row"
    "\<forall>g \<in> set (as_grants s'). gr_id g = gr_id row \<longrightarrow> gr_permissions g = gr_permissions row" by blast+
qed

lemma write_grant_exact:
  assumes "write_grant e now actor u scope ps pn s = (Inr view, s')"
  shows "filter (\<lambda>g. gr_id g \<noteq> grant_id e u scope) (as_grants s') = filter (\<lambda>g. gr_id g \<noteq> grant_id e u scope) (as_grants s)"
    and "(\<exists>g \<in> set (as_grants s'). gr_id g = grant_id e u scope) \<longleftrightarrow> ps \<noteq> []"
    and "\<forall>g \<in> set (as_grants s'). gr_id g = grant_id e u scope \<longrightarrow> gr_permissions g = stored ps"
proof -
  have "filter (\<lambda>g. gr_id g \<noteq> grant_id e u scope) (as_grants s') = filter (\<lambda>g. gr_id g \<noteq> grant_id e u scope) (as_grants s) \<and>
    ((\<exists>g \<in> set (as_grants s'). gr_id g = grant_id e u scope) \<longleftrightarrow> ps \<noteq> []) \<and>
    (\<forall>g \<in> set (as_grants s'). gr_id g = grant_id e u scope \<longrightarrow> gr_permissions g = stored ps)"
  proof (cases "ps = []")
    case True
    with assms show ?thesis by (auto simp: write_grant_def Let_def elim!: op_bind_cases)
  next
    case False
    then obtain row q s1 where "as_grants s1 = as_grants s" "gr_id row = grant_id e u scope" "gr_permissions row = stored ps"
      "upsert_grant e row s1 = (q, s')" "\<forall>err. q \<noteq> Inl err"
      using assms by (rule write_grant_run) auto
    moreover then obtain r where "q = Inr r" by (cases q) auto
    ultimately show ?thesis using upsert_grant_exact [of e row s1 r s'] False by auto
  qed
  then show "filter (\<lambda>g. gr_id g \<noteq> grant_id e u scope) (as_grants s') = filter (\<lambda>g. gr_id g \<noteq> grant_id e u scope) (as_grants s)"
    "(\<exists>g \<in> set (as_grants s'). gr_id g = grant_id e u scope) \<longleftrightarrow> ps \<noteq> []"
    "\<forall>g \<in> set (as_grants s'). gr_id g = grant_id e u scope \<longrightarrow> gr_permissions g = stored ps" by blast+
qed

lemma keeps_grant_checks [intro, simp]: "keeps same_accounts (grant_checks e now actor name scope requested)"
  unfolding grant_checks_def by (intro accounts.keeps_bind) auto

lemma grant_checks_Inr:
  assumes "grant_checks e now actor name scope requested s = (Inr (target, ps), s')"
  shows "\<not> same_name (ac_name actor) name" "valid_scope scope" "\<not> is_owner e name"
    "find_user e name s = Some target" "find_admin (us_uid target) s \<noteq> None"
    "may_reach actor scope (us_school target)" "normalize_grant scope requested = Inr ps"
    "may_grant (ac_access actor) scope ps = Inr ps"
    "may_manage_target (ac_access actor) (load_access e (us_name target) s) scope = Inr ()"
proof -
  from assms obtain s1 s2 u where run: "\<not> same_name (ac_name actor) name" "check_scope now scope s = (Inr u, s1)"
    "admin_target e name s1 = (Inr target, s2)" "may_reach actor scope (us_school target)"
    "normalize_grant scope requested = Inr ps" "may_grant (ac_access actor) scope ps = Inr ps"
    "may_manage_target (ac_access actor) (load_access e (us_name target) s2) scope = Inr ()"
    by (auto simp: grant_checks_def elim!: op_bind_InrE split: if_splits) (auto simp: may_grant_Inr)
  from keepsD [OF keeps_check_scope run(2)] have same: "same_accounts s s1" .
  from admin_target_Inr [OF run(3)] have t: "s2 = s1" "\<not> is_owner e name" "find_user e name s1 = Some target"
    "find_admin (us_uid target) s1 \<noteq> None" by auto
  show "\<not> same_name (ac_name actor) name" "may_reach actor scope (us_school target)"
    "normalize_grant scope requested = Inr ps" "may_grant (ac_access actor) scope ps = Inr ps" "\<not> is_owner e name"
    by (fact run t)+
  show "valid_scope scope" using run(2) by (rule check_scope_Inr)
  show "find_user e name s = Some target" "find_admin (us_uid target) s \<noteq> None"
    "may_manage_target (ac_access actor) (load_access e (us_name target) s) scope = Inr ()"
    using t run(7) same load_access_cong [of s1 s] by (simp_all add: same_accounts_def find_user_def find_admin_def)
qed

lemma commit_grant_run:
  assumes "commit_grant e now actor scope pn (target, ps) s = (r, s')"
  obtains q s1 where "write_grant e now actor (us_name target) scope ps pn s = (q, s1)" "same_accounts s1 s'"
    "q = r"
proof -
  obtain q s1 where w: "write_grant e now actor (us_name target) scope ps pn s = (q, s1)" by (metis prod.collapse)
  have tail: "same_accounts s1 s' \<and> r = Inr v" if
    "(if b then op_bind (audit n a t sc x y) (\<lambda>u. op_bind (announce_change tp) (\<lambda>u. op_ok v)) else op_ok v) s1 = (r, s')" for b n a t sc x y tp v
    using that
    by (auto simp: audit_def announce_change_def same_accounts_def elim!: op_bind_cases split: if_splits)
  from assms w have "same_accounts s1 s' \<and> q = r"
    by (auto simp: commit_grant_def Let_def elim!: op_bind_cases dest!: tail)
  with w that show thesis by blast
qed

text \<open>The grants after a request: as before, or as one write that all checks allowed left them.\<close>

lemma set_grant_cases:
  assumes "set_grant e now actor name scope requested pn s = (r, s')"
  obtains (refused) err where "r = Inl err" "same_accounts s s'"
  | (allowed) target ps s1 s2 where "grant_checks e now actor name scope requested s = (Inr (target, ps), s1)"
      "same_accounts s s1" "write_grant e now actor (us_name target) scope ps pn s1 = (r, s2)" "same_accounts s2 s'"
proof (cases rule: op_bind_cases [OF assms [unfolded set_grant_def]])
  case (1 err)
  with refused show thesis using keepsD [OF keeps_grant_checks] by blast
next
  case (2 checked s1)
  obtain target ps where c: "checked = (target, ps)" by (cases checked)
  from 2 c have "commit_grant e now actor scope pn (target, ps) s1 = (r, s')" by simp
  then obtain s2 where "write_grant e now actor (us_name target) scope ps pn s1 = (r, s2)" "same_accounts s2 s'"
    by (metis commit_grant_run)
  with 2 c allowed show thesis using keepsD [OF keeps_grant_checks] by blast
qed

section \<open>What a request of an administrator can do to the grants\<close>

text \<open>
  The shape every grant row keeps: its scope exists and its id is that of its name and scope. Ids of
  different scopes differ because the hash behind them separates them (\<open>hash_separates\<close>, what SHA-256 is
  used for).
\<close>

definition rows_ok :: "admin_env \<Rightarrow> admin_state \<Rightarrow> bool" where
  "rows_ok e s \<longleftrightarrow> (\<forall>g \<in> set (as_grants s). valid_scope (gr_scope g) \<and> gr_id g = grant_id e (gr_user g) (gr_scope g))"

definition hash_separates :: "admin_env \<Rightarrow> bool" where
  "hash_separates e \<longleftrightarrow> (\<forall>u v sc sc'. valid_scope sc \<longrightarrow> valid_scope sc' \<longrightarrow> grant_id e u sc = grant_id e v sc' \<longrightarrow> sc = sc')"

definition kept_row :: "admin_state \<Rightarrow> grant_row \<Rightarrow> bool" where
  "kept_row s g \<longleftrightarrow> (\<exists>h \<in> set (as_grants s). gr_id h = gr_id g \<and> gr_user h = gr_user g \<and> gr_scope h = gr_scope g \<and>
     gr_permissions h = gr_permissions g)"

definition own_row :: "access \<Rightarrow> grant_row \<Rightarrow> bool" where
  "own_row a g \<longleftrightarrow> set (parse_permission_list (gr_permissions g)) \<subseteq> set (permissions_in a (gr_scope g))"

text \<open>Afterwards every row is one that was there, or gives no more than \<open>a\<close> holds in its scope.\<close>

definition allowed_change :: "admin_env \<Rightarrow> access \<Rightarrow> admin_state \<Rightarrow> admin_state \<Rightarrow> bool" where
  "allowed_change e a s t \<longleftrightarrow> (rows_ok e s \<longrightarrow> rows_ok e t \<and> (\<forall>g \<in> set (as_grants t). kept_row s g \<or> own_row a g))"

lemma kept_row_refl: "g \<in> set (as_grants s) \<Longrightarrow> kept_row s g"
  by (auto simp: kept_row_def)

lemma kept_row_trans: "kept_row t g \<Longrightarrow> \<forall>h \<in> set (as_grants t). kept_row s h \<or> own_row a h \<Longrightarrow> kept_row s g \<or> own_row a g"
  unfolding kept_row_def own_row_def by metis

lemma allowed_change_refl [simp]: "allowed_change e a s s"
  by (auto simp: allowed_change_def kept_row_refl)

lemma allowed_change_trans: "allowed_change e a s t \<Longrightarrow> allowed_change e a t u \<Longrightarrow> allowed_change e a s u"
  unfolding allowed_change_def using kept_row_trans by meson

lemma allowed_changeI:
  assumes "\<And>g. g \<in> set (as_grants t) \<Longrightarrow> kept_row s g"
  shows "allowed_change e a s t"
proof -
  have "rows_ok e t" if "rows_ok e s"
    using that assms unfolding rows_ok_def kept_row_def by metis
  with assms show ?thesis by (simp add: allowed_change_def)
qed

lemma allowed_change_subset: "set (as_grants t) \<subseteq> set (as_grants s) \<Longrightarrow> allowed_change e a s t"
  by (rule allowed_changeI) (auto intro: kept_row_refl)

lemma allowed_change_same: "same_accounts s t \<Longrightarrow> allowed_change e a s t"
  by (rule allowed_change_subset) (simp add: same_accounts_def)

interpretation allowed: kept "allowed_change e a" for e a
  by unfold_locales (simp, erule (1) allowed_change_trans)

lemma keeps_same_allowed: "keeps same_accounts m \<Longrightarrow> keeps (allowed_change e a) m"
  unfolding keeps_def using allowed_change_same by blast

lemma keeps_filter_grants: "(\<And>s. set (as_grants (f s)) \<subseteq> set (as_grants s)) \<Longrightarrow> keeps (allowed_change e a) (op_write f)"
  by (rule allowed.keeps_write) (rule allowed_change_subset)

lemmas allowed_intros = allowed.keeps_bind allowed.keeps_ok allowed.keeps_fail allowed.keeps_check allowed.keeps_lift
  allowed.keeps_read keeps_audit [THEN keeps_same_allowed] keeps_announce [THEN keeps_same_allowed]
  keeps_list_presets [THEN keeps_same_allowed] keeps_check_scope [THEN keeps_same_allowed]
  keeps_school_by_id [THEN keeps_same_allowed] keeps_admin_target [THEN keeps_same_allowed]
  keeps_forget [THEN keeps_same_allowed] keeps_grant_checks [THEN keeps_same_allowed]

lemma relabel_one_kept: "gr_id (relabel_one ps key k g) = gr_id g" "gr_user (relabel_one ps key k g) = gr_user g"
  "gr_scope (relabel_one ps key k g) = gr_scope g" "gr_permissions (relabel_one ps key k g) = gr_permissions g"
  by (auto simp: relabel_one_def Let_def)

lemma keeps_relabel: "keeps (allowed_change e a) (relabel_grants e key ps k)"
  unfolding relabel_grants_def
  by (rule allowed.keeps_write, rule allowed_changeI) (auto simp: kept_row_def relabel_one_kept)

lemma keeps_set_grant:
  assumes sep: "hash_separates e"
  shows "keeps (allowed_change e (ac_access actor)) (set_grant e now actor name scope requested pn)"
proof (rule keepsI)
  fix s r s'
  assume "set_grant e now actor name scope requested pn s = (r, s')"
  then show "allowed_change e (ac_access actor) s s'"
  proof (cases rule: set_grant_cases)
    case (refused err)
    then show ?thesis by (simp add: allowed_change_same)
  next
    case (allowed target ps s1 s2)
    note c = grant_checks_Inr [OF allowed(1)]
    from c(8) have own: "set ps \<subseteq> set (permissions_in (ac_access actor) scope)" by (simp add: may_grant_Inr)
    have "allowed_change e (ac_access actor) s1 s2"
      unfolding allowed_change_def rows_ok_def
    proof (intro impI conjI ballI)
      fix g
      assume ok: "\<forall>g \<in> set (as_grants s1). valid_scope (gr_scope g) \<and> gr_id g = grant_id e (gr_user g) (gr_scope g)"
        and g: "g \<in> set (as_grants s2)"
      have "g \<in> set (as_grants s1) \<or>
          (valid_scope (gr_scope g) \<and> gr_id g = grant_id e (gr_user g) (gr_scope g) \<and> gr_scope g = scope \<and> gr_permissions g = stored ps)"
        using write_grant_rows [OF allowed(3) g] ok c(2) sep unfolding written_row_def hash_separates_def by metis
      then show "valid_scope (gr_scope g)" "gr_id g = grant_id e (gr_user g) (gr_scope g)"
        "kept_row s1 g \<or> own_row (ac_access actor) g"
        using ok own kept_row_refl by (auto simp: own_row_def)
    qed
    with allowed(2,4) show ?thesis using allowed_change_same allowed_change_trans by metis
  qed
qed

lemma keeps_checked_preset: "keeps (allowed_change e a) (checked_preset actor input)"
  unfolding checked_preset_def by (intro allowed_intros)

lemma keeps_assert_presets: "keeps (allowed_change e a) (assert_may_manage_presets actor)"
  unfolding assert_may_manage_presets_def by (intro allowed_intros)

lemma keeps_create_preset: "keeps (allowed_change e a) (create_preset e now now36 actor input)"
  unfolding create_preset_def Let_def
  by (intro allowed_intros keeps_checked_preset keeps_assert_presets) (auto intro!: allowed_intros keeps_filter_grants)

lemma keeps_update_preset: "keeps (allowed_change e a) (update_preset e now actor key input)"
  unfolding update_preset_def Let_def
  by (intro allowed_intros keeps_assert_presets)
    (auto intro!: allowed_intros keeps_checked_preset keeps_filter_grants keeps_relabel split: option.splits)

lemma keeps_delete_preset: "keeps (allowed_change e a) (delete_preset e now actor key)"
  unfolding delete_preset_def
  by (intro allowed_intros keeps_assert_presets keeps_filter_grants keeps_relabel) simp

lemma keeps_clear_grants: "keeps (allowed_change e a) (clear_grants e u)"
  unfolding clear_grants_def by (intro allowed_intros keeps_filter_grants) (auto intro!: allowed_intros)

lemma keeps_clear_factors: "keeps (allowed_change e a) (clear_second_factors e u)"
  unfolding clear_second_factors_def by (rule keeps_filter_grants) simp

lemma keeps_clear_security: "keeps (allowed_change e a) (clear_admin_security e u)"
  unfolding clear_admin_security_def by (rule keeps_filter_grants) simp

lemma keeps_expire_one: "keeps (allowed_change e a) (expire_one e now uid n)"
  unfolding expire_one_def Let_def
  by (intro allowed_intros keeps_filter_grants)
    (auto intro!: allowed_intros keeps_filter_grants keeps_clear_factors keeps_clear_security split: option.splits)

lemma keeps_expire_all: "keeps (allowed_change e a) (expire_all e now uids n)"
  by (induction uids arbitrary: n) (auto intro!: allowed_intros keeps_expire_one)

lemma keeps_expire: "keeps (allowed_change e a) (expire_lapsed_admin_setups e now)"
  unfolding expire_lapsed_admin_setups_def by (intro allowed_intros keeps_expire_all) (auto intro!: allowed_intros)

lemma keeps_find_admin_account: "keeps (allowed_change e a) (find_admin_account e now input)"
  unfolding find_admin_account_def Let_def
  by (auto intro!: allowed_intros keeps_expire split: option.splits)

lemma keeps_stale_factors: "keeps (allowed_change e a) (clear_stale_second_factors e now u)"
  unfolding clear_stale_second_factors_def
  by (intro allowed_intros keeps_find_admin_account)
    (auto intro!: allowed_intros keeps_clear_factors keeps_clear_security split: admin_lookup.splits)

lemma keeps_assert_manage: "keeps (allowed_change e a) (assert_may_manage_admin e actor u sc)"
  unfolding assert_may_manage_admin_def Let_def by (intro allowed_intros) (auto intro!: allowed_intros)

lemma keeps_assert_remove: "keeps (allowed_change e a) (assert_may_remove_admin e actor u sc)"
  unfolding assert_may_remove_admin_def by (intro allowed_intros keeps_assert_manage)

lemma keeps_assert_appoint: "keeps (allowed_change e a) (assert_may_appoint_admin actor sc)"
  unfolding assert_may_appoint_admin_def by (auto intro!: allowed_intros)

lemma keeps_upsert_admin: "keeps (allowed_change e a) (upsert_admin row f)"
  unfolding upsert_admin_def by (rule keeps_filter_grants) simp

lemma keeps_one_time: "keeps (allowed_change e a) (grant_admin_with_one_time_password e now nonce uid p by_whom)"
  unfolding grant_admin_with_one_time_password_def Let_def by (intro allowed_intros keeps_upsert_admin)

lemma keeps_check_request: "keeps (allowed_change e a) (check_grant_request now actor g sc)"
  unfolding check_grant_request_def by (intro allowed_intros)

lemma keeps_give_grant:
  "hash_separates e \<Longrightarrow> keeps (allowed_change e (ac_access actor)) (give_grant e now actor user g)"
  unfolding give_grant_def by (auto intro!: allowed_intros keeps_set_grant split: option.splits)

lemma keeps_grant_admin:
  "hash_separates e \<Longrightarrow> keeps (allowed_change e (ac_access actor)) (grant_admin e now nonce actor scope uid raw p)"
  unfolding grant_admin_def Let_def
  by (auto intro!: allowed_intros keeps_assert_appoint keeps_check_request keeps_upsert_admin keeps_give_grant keeps_one_time
      split: option.splits)

lemma keeps_revoke_admin: "keeps (allowed_change e a) (revoke_admin e now actor scope uid)"
  unfolding revoke_admin_def
  by (auto intro!: allowed_intros keeps_assert_remove keeps_filter_grants keeps_clear_grants keeps_stale_factors split: option.splits)

lemma keeps_delete_user: "keeps (allowed_change e a) (delete_user e now actor scope uid)"
  unfolding delete_user_def
  by (auto intro!: allowed_intros keeps_assert_remove keeps_filter_grants keeps_clear_grants keeps_stale_factors split: option.splits)

lemma keeps_set_user_password: "keeps (allowed_change e a) (set_user_password e actor scope uid p)"
  unfolding set_user_password_def
  by (auto intro!: allowed_intros keeps_assert_remove keeps_filter_grants split: option.splits)

lemma keeps_upsert_security: "keeps (allowed_change e a) (upsert_security e u f)"
  unfolding upsert_security_def by (rule keeps_filter_grants) simp

lemma keeps_begin_setup: "keeps (allowed_change e a) (begin_password_setup e now acc)"
  unfolding begin_password_setup_def Let_def by (auto intro!: allowed_intros keeps_filter_grants)

lemma keeps_answer: "keeps (allowed_change e a) (answer_password_accepted e now uuid u how)"
  unfolding answer_password_accepted_def record_admin_login_def
  by (auto intro!: allowed_intros keeps_upsert_security)

lemma keeps_login: "keeps (allowed_change e a) (login e now uuid u p)"
  unfolding login_def
  by (auto intro!: allowed_intros keeps_find_admin_account keeps_begin_setup keeps_answer
      split: admin_lookup.splits password_check.splits)

lemma keeps_finish_setup: "keeps (allowed_change e a) (finish_password_setup e now t p)"
  unfolding finish_password_setup_def Let_def
  by (auto intro!: allowed_intros keeps_find_admin_account keeps_filter_grants split: option.splits admin_lookup.splits)

lemma keeps_password_setup: "keeps (allowed_change e a) (password_setup e now uuid t p)"
  unfolding password_setup_def by (auto intro!: allowed_intros keeps_finish_setup keeps_answer)

lemma keeps_passkey_requirement: "keeps (allowed_change e a) (change_passkey_requirement e actor u req)"
  unfolding change_passkey_requirement_def set_passkey_requirement_def Let_def
  by (auto intro!: allowed_intros keeps_assert_manage keeps_upsert_security)

end
