(* ===== verification/Admin_Theorems.thy ===== *)
theory Admin_Theorems
  imports Admin_Facts Sample
begin

text \<open>The properties of the admin panel's rights and accounts, with a concrete run for each that has hypotheses.\<close>

section \<open>A small installation\<close>

text \<open>
  One school, a school administrator \<open>eve\<close> and a global administrator \<open>root\<close> of the same school whose
  first login is still to come. The hash is the identity.
\<close>

definition sample_school :: string where
  "sample_school = ''11111111-1111-1111-1111-111111111111''"

definition sample_admin_env :: admin_env where
  "sample_admin_env = \<lparr>ae_same = (=), ae_by_label = (\<lambda>rs. rs), ae_owners = [''boss''],
     ae_pr = sample_primitives, ae_school_name = [],
     ae_server = \<lparr>for_totp = True, for_passkey = False\<rparr>, ae_jwt_secret = ''k'', ae_shared_hash = None,
     ae_bcrypt = (\<lambda>p. ''#'' @ p), ae_compare = (\<lambda>p h. h = ''#'' @ p), ae_hmac_sha1 = (\<lambda>k d. replicate 20 0),
     ae_sign = (\<lambda>k c a n t. k), ae_verify = (\<lambda>k t a n. None), ae_verify_any = (\<lambda>k t n. None),
     ae_token_seconds = 60, ae_plain = (\<lambda>s. s), ae_response_id = (\<lambda>r. None),
     ae_register = (\<lambda>r c q d. None), ae_authenticate = (\<lambda>r c q d k v. None)\<rparr>"

definition sample_grant :: "string \<Rightarrow> string \<Rightarrow> string list \<Rightarrow> grant_row" where
  "sample_grant u sc ps = \<lparr>gr_id = grant_id sample_admin_env u sc, gr_user = u, gr_scope = sc, gr_preset = ''custom'',
     gr_permissions = stored ps, gr_by = None, gr_updated = 0\<rparr>"

definition sample_user :: "string \<Rightarrow> string \<Rightarrow> user_row" where
  "sample_user uid u = \<lparr>us_uid = uid, us_name = u, us_school = Some sample_school, us_hash = None, us_untis = True\<rparr>"

definition sample_admin :: "string \<Rightarrow> bool \<Rightarrow> admin_row" where
  "sample_admin uid pending = \<lparr>ad_uid = uid, ad_create_class = True, ad_hash = Some ''#first'', ad_must_change = pending,
     ad_expires = (if pending then Some 900000 else None), ad_one_time = None, ad_granted_by = None\<rparr>"

definition sample_admin_state :: admin_state where
  "sample_admin_state = \<lparr>as_users = [sample_user ''u1'' ''eve'', sample_user ''u2'' ''root'', sample_user ''u3'' ''tim''],
     as_admins = [sample_admin ''u1'' False, sample_admin ''u2'' True, sample_admin ''u3'' False],
     as_grants = [sample_grant ''eve'' sample_school [''users.view'', ''admins.manage''],
                  sample_grant ''root'' global_scope [''cluster.manage'']],
     as_presets = [], as_totps = [], as_security = [], as_passkeys = [], as_schools = [sample_school], as_classes = [],
     as_marks = [], as_audit = [], as_announced = [], as_preset_cache = None, as_school_cache = None,
     as_attempts = [], as_used = []\<rparr>"

definition sample_actor :: actor where
  "sample_actor = \<lparr>ac_name = ''eve'', ac_access = load_access sample_admin_env ''eve'' sample_admin_state\<rparr>"

lemma hex_digit_inject: "a < 16 \<Longrightarrow> b < 16 \<Longrightarrow> hex_digit a = hex_digit b \<longleftrightarrow> a = b"
proof -
  have "\<forall>a \<in> set [0..<16]. \<forall>b \<in> set [0..<16]. hex_digit a = hex_digit b \<longleftrightarrow> a = b" by code_simp
  then show "a < 16 \<Longrightarrow> b < 16 \<Longrightarrow> hex_digit a = hex_digit b \<longleftrightarrow> a = b" by simp
qed

lemma hex_encode_inject: "hex_encode xs = hex_encode ys \<longleftrightarrow> xs = ys"
proof
  assume "hex_encode xs = hex_encode ys"
  then show "xs = ys"
  proof (induction xs arbitrary: ys)
    case Nil
    then show ?case by (cases ys) (simp_all add: hex_encode_def)
  next
    case (Cons x xs)
    then obtain y ys' where ys: "ys = y # ys'" by (cases ys) (simp_all add: hex_encode_def)
    have less: "unat z div 16 < 16" for z :: byte
      using unsigned_less [of z, where ?'a = nat] by simp
    from Cons.prems ys have "unat x div 16 = unat y div 16" "unat x mod 16 = unat y mod 16" "hex_encode xs = hex_encode ys'"
      by (simp_all add: hex_encode_def hex_digit_inject less)
    with Cons.IH ys show ?case by (metis div_mult_mod_eq word_unat_eq_iff)
  qed
qed simp

lemma valid_scope_no_bar: "valid_scope sc \<Longrightarrow> CHR ''|'' \<notin> set sc"
proof (cases "sc = global_scope")
  case True
  then show ?thesis by (simp add: global_scope_def)
next
  case False
  assume "valid_scope sc"
  with False have p: "\<forall>part \<in> set (split_on CHR ''-'' sc). list_all hex_char part"
    by (simp add: valid_scope_def school_id_pattern_def)
  have bar: "\<not> hex_char CHR ''|''" by code_simp
  show ?thesis
  proof
    assume "CHR ''|'' \<in> set sc"
    then obtain part where "part \<in> set (split_on CHR ''-'' sc)" "CHR ''|'' \<in> set part"
      using split_on_covers [of sc "CHR ''-''"] by auto
    with p bar show False by (auto simp: list_all_iff)
  qed
qed

lemma after_last_bar: "CHR ''|'' \<notin> set sc \<Longrightarrow> takeWhile (\<lambda>c. c \<noteq> CHR ''|'') (rev (a @ ''|'' @ sc)) = rev sc"
  by (simp add: takeWhile_append2) (subst takeWhile_append2, auto)

lemma sample_hash_separates: "hash_separates sample_admin_env"
proof -
  have "sc = sc'" if v: "valid_scope sc" "valid_scope sc'" and eq: "grant_id sample_admin_env u sc = grant_id sample_admin_env w sc'"
    for u w sc sc'
  proof -
    from eq have "(''pokyh:admin-grant:'' @ to_lower (trim u)) @ ''|'' @ sc = (''pokyh:admin-grant:'' @ to_lower (trim w)) @ ''|'' @ sc'"
      by (simp add: grant_id_def sample_admin_env_def sample_primitives_def hex_encode_inject)
    then have "rev sc = rev sc'" using after_last_bar valid_scope_no_bar v by metis
    then show ?thesis by simp
  qed
  then show ?thesis by (auto simp: hash_separates_def)
qed

lemma sample_rows_ok: "rows_ok sample_admin_env sample_admin_state"
proof -
  have "school_id_pattern sample_school" by code_simp
  then show ?thesis
    by (simp add: rows_ok_def sample_admin_state_def sample_grant_def valid_scope_def)
qed

section \<open>Rights never grow\<close>

text \<open>Everything administrators (the server's owners apart) and time can do to the accounts and grants.\<close>

inductive admin_step :: "admin_env \<Rightarrow> admin_state \<Rightarrow> admin_state \<Rightarrow> bool" for e where
  granted: "\<not> is_owner e n \<Longrightarrow> admin_step e s (snd (set_grant e now \<lparr>ac_name = n, ac_access = load_access e n s\<rparr> t sc rq pn s))"
| appointed: "\<not> is_owner e n \<Longrightarrow>
    admin_step e s (snd (grant_admin e now nonce \<lparr>ac_name = n, ac_access = load_access e n s\<rparr> scope uid raw p s))"
| revoked: "\<not> is_owner e n \<Longrightarrow> admin_step e s (snd (revoke_admin e now \<lparr>ac_name = n, ac_access = load_access e n s\<rparr> scope uid s))"
| deleted: "\<not> is_owner e n \<Longrightarrow> admin_step e s (snd (delete_user e now \<lparr>ac_name = n, ac_access = load_access e n s\<rparr> scope uid s))"
| password: "\<not> is_owner e n \<Longrightarrow>
    admin_step e s (snd (set_user_password e \<lparr>ac_name = n, ac_access = load_access e n s\<rparr> scope uid p s))"
| preset_created: "\<not> is_owner e n \<Longrightarrow>
    admin_step e s (snd (create_preset e now now36 \<lparr>ac_name = n, ac_access = load_access e n s\<rparr> inp s))"
| preset_updated: "\<not> is_owner e n \<Longrightarrow>
    admin_step e s (snd (update_preset e now \<lparr>ac_name = n, ac_access = load_access e n s\<rparr> key inp s))"
| preset_deleted: "\<not> is_owner e n \<Longrightarrow>
    admin_step e s (snd (delete_preset e now \<lparr>ac_name = n, ac_access = load_access e n s\<rparr> key s))"
| requirement: "\<not> is_owner e n \<Longrightarrow>
    admin_step e s (snd (change_passkey_requirement e \<lparr>ac_name = n, ac_access = load_access e n s\<rparr> t req s))"
| signed_in: "admin_step e s (snd (login e now uuid u pw s))"
| set_up: "admin_step e s (snd (password_setup e now uuid ticket pw s))"
| expired: "admin_step e s (snd (expire_lapsed_admin_setups e now s))"

text \<open>Some administrator who is not an owner of the server holds the right in the scope.\<close>

definition held :: "admin_env \<Rightarrow> admin_state \<Rightarrow> string \<Rightarrow> string \<Rightarrow> bool" where
  "held e s sc p \<longleftrightarrow> (\<exists>u. \<not> is_owner e u \<and> p \<in> set (permissions_in (load_access e u s) sc))"

lemma own_row_gives:
  assumes own: "own_row a g" and gives: "row_gives g sc p" and not_owner: "\<not> acc_owner a"
  shows "p \<in> set (permissions_in a sc)"
proof -
  from own gives have p: "p \<in> set (permissions_in a (gr_scope g))" by (auto simp: own_row_def row_gives_def)
  show ?thesis
  proof (cases "gr_scope g = sc")
    case False
    with gives have "gr_scope g = global_scope" "sc \<noteq> global_scope" "p \<in> set school_permissions"
      by (auto simp: row_gives_def split: if_splits)
    with p not_owner show ?thesis by (simp add: permissions_in_iff)
  qed (use p in simp)
qed

lemma held_back:
  assumes change: "allowed_change e (load_access e n s) s t" and n: "\<not> is_owner e n" and ok: "rows_ok e s"
    and held: "held e t sc p"
  shows "held e s sc p"
proof -
  from held obtain u g where u: "\<not> is_owner e u" and g: "g \<in> set (as_grants t)" "ae_same e (gr_user g) u" "row_gives g sc p"
    by (auto simp: held_def permissions_in_load_access)
  from change ok g(1) consider "kept_row s g" | "own_row (load_access e n s) g" by (auto simp: allowed_change_def)
  then show ?thesis
  proof cases
    case 1
    then obtain h where "h \<in> set (as_grants s)" "ae_same e (gr_user h) u" "row_gives h sc p"
      using g(2,3) unfolding kept_row_def row_gives_def by metis
    with permissions_in_load_access [OF u] have "p \<in> set (permissions_in (load_access e u s) sc)" by blast
    with u show ?thesis by (auto simp: held_def)
  next
    case 2
    from own_row_gives [OF this g(3)] n show ?thesis by (auto simp: held_def)
  qed
qed

lemma admin_step_allowed:
  assumes sep: "hash_separates e" and step: "admin_step e s t" and ok: "rows_ok e s"
  shows "rows_ok e t \<and> (\<forall>sc p. held e t sc p \<longrightarrow> held e s sc p)"
proof -
  have one: "rows_ok e t \<and> (\<forall>sc p. held e t sc p \<longrightarrow> held e s sc p)"
    if "allowed_change e (load_access e n s) s t" "\<not> is_owner e n" for n
    using that ok held_back [OF that(1,2) ok] by (simp add: allowed_change_def)
  have anyone: "rows_ok e t \<and> (\<forall>sc p. held e t sc p \<longrightarrow> held e s sc p)"
    if all: "\<And>a. allowed_change e a s t"
  proof -
    from all [of no_access] ok have "rows_ok e t" by (simp add: allowed_change_def)
    moreover have "held e s sc p" if "held e t sc p" for sc p
    proof -
      from that obtain u where "\<not> is_owner e u" by (auto simp: held_def)
      from held_back [OF all this ok that] show ?thesis .
    qed
    ultimately show ?thesis by blast
  qed
  from step show ?thesis
  proof cases
    case (granted n now t2 sc2 rq pn)
    have "allowed_change e (load_access e n s) s t"
      unfolding granted(1) using keeps_set_grant [OF sep, of "\<lparr>ac_name = n, ac_access = load_access e n s\<rparr>"] by (simp add: keeps_def)
    then show ?thesis using granted(2) by (rule one)
  next
    case (appointed n now nonce scope uid raw p)
    have "allowed_change e (load_access e n s) s t"
      unfolding appointed(1) using keeps_grant_admin [OF sep, of "\<lparr>ac_name = n, ac_access = load_access e n s\<rparr>"] by (simp add: keeps_def)
    then show ?thesis using appointed(2) by (rule one)
  next
    case (revoked n now scope uid)
    have "allowed_change e (load_access e n s) s t"
      unfolding revoked(1) using keeps_revoke_admin by (simp add: keeps_def)
    then show ?thesis using revoked(2) by (rule one)
  next
    case (deleted n now scope uid)
    have "allowed_change e (load_access e n s) s t"
      unfolding deleted(1) using keeps_delete_user by (simp add: keeps_def)
    then show ?thesis using deleted(2) by (rule one)
  next
    case (password n scope uid p)
    have "allowed_change e (load_access e n s) s t"
      unfolding password(1) using keeps_set_user_password by (simp add: keeps_def)
    then show ?thesis using password(2) by (rule one)
  next
    case (preset_created n now now36 inp)
    have "allowed_change e (load_access e n s) s t"
      unfolding preset_created(1) using keeps_create_preset by (simp add: keeps_def)
    then show ?thesis using preset_created(2) by (rule one)
  next
    case (preset_updated n now key inp)
    have "allowed_change e (load_access e n s) s t"
      unfolding preset_updated(1) using keeps_update_preset by (simp add: keeps_def)
    then show ?thesis using preset_updated(2) by (rule one)
  next
    case (preset_deleted n now key)
    have "allowed_change e (load_access e n s) s t"
      unfolding preset_deleted(1) using keeps_delete_preset by (simp add: keeps_def)
    then show ?thesis using preset_deleted(2) by (rule one)
  next
    case (requirement n t2 req)
    have "allowed_change e (load_access e n s) s t"
      unfolding requirement(1) using keeps_passkey_requirement by (simp add: keeps_def)
    then show ?thesis using requirement(2) by (rule one)
  next
    case (signed_in now uuid u pw)
    show ?thesis unfolding signed_in by (rule anyone [unfolded signed_in]) (use keeps_login in \<open>simp add: keeps_def\<close>)
  next
    case (set_up now uuid ticket pw)
    show ?thesis unfolding set_up by (rule anyone [unfolded set_up]) (use keeps_password_setup in \<open>simp add: keeps_def\<close>)
  next
    case (expired now)
    show ?thesis unfolding expired by (rule anyone [unfolded expired]) (use keeps_expire in \<open>simp add: keeps_def\<close>)
  qed
qed

lemma admin_steps_allowed:
  assumes "hash_separates e" "rtranclp (admin_step e) s t" "rows_ok e s"
  shows "rows_ok e t \<and> (\<forall>sc p. held e t sc p \<longrightarrow> held e s sc p)"
  using assms(2)
proof (induction rule: rtranclp_induct)
  case (step t u)
  with admin_step_allowed [OF assms(1) step(2)] show ?case by blast
qed (use assms(3) in simp)

text \<open>C7: Whatever administrators who are not owners of the server do - give and take rights, appoint, revoke
  and delete accounts, set passwords, change presets, sign in - and whatever lapses: a right that none of
  them held in a scope is held by none of them afterwards.\<close>

theorem rights_never_grow:
  assumes "hash_separates e" "rows_ok e s" "rtranclp (admin_step e) s t" "held e t sc p"
  shows "held e s sc p"
  using admin_steps_allowed [OF assms(1,3,2)] assms(4) by blast

definition sample_given :: admin_state where
  "sample_given = snd (set_grant sample_admin_env 5 sample_actor ''tim'' sample_school [Some ''users.view''] None sample_admin_state)"

lemma sample_given_holds: "''users.view'' \<in> set (permissions_in (load_access sample_admin_env ''tim'' sample_given) sample_school)"
  by code_simp

lemma rights_never_grow_witness: "held sample_admin_env sample_admin_state sample_school ''users.view''"
proof (rule rights_never_grow [OF sample_hash_separates sample_rows_ok])
  have "\<not> is_owner sample_admin_env ''eve''" "\<not> is_owner sample_admin_env ''tim''" by code_simp+
  then show "rtranclp (admin_step sample_admin_env) sample_admin_state sample_given"
    using admin_step.granted [of sample_admin_env "''eve''"] unfolding sample_given_def sample_actor_def by blast
  show "held sample_admin_env sample_given sample_school ''users.view''"
    using sample_given_holds \<open>\<not> is_owner sample_admin_env ''tim''\<close> by (auto simp: held_def)
qed

section \<open>Giving and taking rights\<close>

text \<open>C16: setGrant either throws and leaves every grant as it was, or the other administrator's account has
  afterwards exactly the requested rights in that scope: a grant with those and no others, or none when no
  right was requested. All of them are the giver's own there, and the rights they replace are ones the giver
  holds as well; the grants of every other account and scope are the same, in the same order.\<close>

theorem grants_within_own_rights:
  assumes "set_grant e now actor name scope requested pn s = (r, s')"
  shows "(\<exists>err. r = Inl err \<and> as_grants s' = as_grants s) \<or>
    (\<exists>view target. r = Inr view \<and> \<not> same_name (ac_name actor) name \<and> \<not> is_owner e name \<and>
       find_user e name s = Some target \<and> find_admin (us_uid target) s \<noteq> None \<and>
       manages_admins_in (ac_access actor) scope \<and>
       {p. Some p \<in> set requested} \<subseteq> set (permissions_in (ac_access actor) scope) \<and>
       set (if scope = global_scope then acc_global (load_access e (us_name target) s)
            else school_set (load_access e (us_name target) s) scope) \<subseteq> set (permissions_in (ac_access actor) scope) \<and>
       ((\<exists>g \<in> set (as_grants s'). gr_id g = grant_id e (us_name target) scope) \<longleftrightarrow> {p. Some p \<in> set requested} \<noteq> {}) \<and>
       (\<forall>g \<in> set (as_grants s'). gr_id g = grant_id e (us_name target) scope \<longrightarrow>
          set (parse_permission_list (gr_permissions g)) = {p. Some p \<in> set requested} \<and>
          (gr_user g = us_name target \<and> gr_scope g = scope \<or>
             (\<exists>h \<in> set (as_grants s). gr_id h = gr_id g \<and> gr_user g = gr_user h \<and> gr_scope g = gr_scope h))) \<and>
       filter (\<lambda>g. gr_id g \<noteq> grant_id e (us_name target) scope) (as_grants s') =
         filter (\<lambda>g. gr_id g \<noteq> grant_id e (us_name target) scope) (as_grants s))"
  using assms
proof (cases rule: set_grant_cases)
  case (refused err)
  then show ?thesis by (simp add: same_accounts_def)
next
  case (allowed target ps s1 s2)
  note c = grant_checks_Inr [OF allowed(1)]
  have same: "as_grants s1 = as_grants s" "as_grants s' = as_grants s2" using allowed(2,4) by (simp_all add: same_accounts_def)
  let ?id = "grant_id e (us_name target) scope" and ?asked = "{p. Some p \<in> set requested}"
  show ?thesis
  proof (cases r)
    case (Inl err)
    with allowed(3) write_grant_error same show ?thesis by metis
  next
    case (Inr view)
    note req = normalize_grant_Inr [OF c(7)]
    from c(8) have own: "manages_admins_in (ac_access actor) scope" "set ps \<subseteq> set (permissions_in (ac_access actor) scope)"
      by (simp_all add: may_grant_Inr)
    have known: "\<forall>p \<in> set ps. is_permission (Some p)"
      using c(7) by (auto simp: normalize_grant_def is_permission_iff elim!: and_then_InrE)
    note exact = write_grant_exact [OF allowed(3) [unfolded Inr], folded same(2), unfolded same(1)]
    have there: "(\<exists>g \<in> set (as_grants s'). gr_id g = ?id) \<longleftrightarrow> ?asked \<noteq> {}"
      using exact(2) unfolding req(1) [symmetric] by simp
    have row: "set (parse_permission_list (gr_permissions g)) = ?asked \<and> (gr_user g = us_name target \<and> gr_scope g = scope \<or>
        (\<exists>h \<in> set (as_grants s). gr_id h = gr_id g \<and> gr_user g = gr_user h \<and> gr_scope g = gr_scope h))"
      if "g \<in> set (as_grants s')" "gr_id g = ?id" for g
      using write_grant_rows [OF allowed(3), of g] exact(3) that same known req(1) by (auto simp: written_row_def)
    from c own req there row exact(1) Inr show ?thesis
      unfolding may_manage_target_Inr by (intro disjI2 exI [of _ view] exI [of _ target]) auto
  qed
qed

definition sample_held :: admin_state where
  "sample_held = sample_admin_state\<lparr>as_grants := as_grants sample_admin_state @ [sample_grant ''tim'' sample_school [''users.view'']]\<rparr>"

text \<open>A right is given to an account, and all its rights there are taken from an account.\<close>

lemma grants_within_own_rights_witness:
  "(\<exists>g \<in> set (as_grants sample_given). gr_id g = grant_id sample_admin_env ''tim'' sample_school \<and>
      set (parse_permission_list (gr_permissions g)) = {''users.view''}) \<and>
   \<not> (\<exists>g \<in> set (as_grants (snd (set_grant sample_admin_env 6 sample_actor ''tim'' sample_school [] None sample_held))).
      gr_id g = grant_id sample_admin_env ''tim'' sample_school)"
proof -
  let ?id = "grant_id sample_admin_env ''tim'' sample_school"
  let ?give = "set_grant sample_admin_env 5 sample_actor ''tim'' sample_school [Some ''users.view''] None sample_admin_state"
  let ?take = "set_grant sample_admin_env 6 sample_actor ''tim'' sample_school [] None sample_held"
  have tim: "map_option us_name (find_user sample_admin_env ''tim'' sample_admin_state) = Some ''tim''"
    "map_option us_name (find_user sample_admin_env ''tim'' sample_held) = Some ''tim''" by code_simp+
  have ok: "\<not> isl (fst ?give)" "\<not> isl (fst ?take)" by code_simp+
  from ok(1) grants_within_own_rights [of sample_admin_env 5 sample_actor "''tim''" sample_school "[Some ''users.view'']" None
      sample_admin_state "fst ?give" "snd ?give", OF prod.collapse [symmetric]]
  obtain target where given: "find_user sample_admin_env ''tim'' sample_admin_state = Some target"
    "(\<exists>g \<in> set (as_grants (snd ?give)). gr_id g = grant_id sample_admin_env (us_name target) sample_school) \<longleftrightarrow>
      {p. Some p \<in> set [Some ''users.view'']} \<noteq> {}"
    "\<forall>g \<in> set (as_grants (snd ?give)). gr_id g = grant_id sample_admin_env (us_name target) sample_school \<longrightarrow>
      set (parse_permission_list (gr_permissions g)) = {p. Some p \<in> set [Some ''users.view'']}"
    by (elim disjE exE conjE) (metis sum.disc(1), blast)
  from ok(2) grants_within_own_rights [of sample_admin_env 6 sample_actor "''tim''" sample_school "[]" None
      sample_held "fst ?take" "snd ?take", OF prod.collapse [symmetric]]
  obtain target' where taken: "find_user sample_admin_env ''tim'' sample_held = Some target'"
    "(\<exists>g \<in> set (as_grants (snd ?take)). gr_id g = grant_id sample_admin_env (us_name target') sample_school) \<longleftrightarrow>
      {p. Some p \<in> set ([] :: string option list)} \<noteq> {}"
    by (elim disjE exE conjE) (metis sum.disc(1), blast)
  have "us_name target = ''tim''" "us_name target' = ''tim''" using given(1) taken(1) tim by simp_all
  with given(2, 3) taken(2) have found: "(\<exists>g \<in> set (as_grants (snd ?give)). gr_id g = ?id) \<and>
      (\<forall>g \<in> set (as_grants (snd ?give)). gr_id g = ?id \<longrightarrow> set (parse_permission_list (gr_permissions g)) = {''users.view''})"
    and gone: "\<not> (\<exists>g \<in> set (as_grants (snd ?take)). gr_id g = ?id)" by simp_all
  from found obtain g where "g \<in> set (as_grants (snd ?give))" "gr_id g = ?id" by blast
  with found have "\<exists>g \<in> set (as_grants sample_given). gr_id g = ?id \<and> set (parse_permission_list (gr_permissions g)) = {''users.view''}"
    unfolding sample_given_def by (intro bexI [of _ g]) simp_all
  with gone show ?thesis by (rule conjI [rotated])
qed

section \<open>Appointing someone who already is an administrator\<close>

text \<open>C35: Appointing an administrator whose first login is still to come sets their password: whoever may
  appoint in the account's school chooses it, the rights the account already holds stay, and the password
  opens the account - also where the account holds rights the appointer lacks, so that setting its password
  is refused to them.\<close>

theorem appointing_takes_over_a_pending_admin:
  assumes user: "user_in_scope scope uid s = Some user" "us_uid user = uid"
    and names: "find_user e (us_name user) s = Some user" "trim (us_name user) = us_name user" "us_name user \<noteq> []"
    and appoint: "us_school user = Some school" "school \<noteq> []" "manages_admins_in (ac_access actor) school"
    and untis: "us_untis user"
    and pending: "find_admin uid s = Some a" "ad_must_change a"
    and password: "valid_one_time_password (Some p)" "ae_compare e p (ae_bcrypt e p)" "ae_bcrypt e p \<noteq> []"
  shows "\<exists>t acc. grant_admin e now nonce actor scope uid None (Some p) s = (Inr (Some (now + admin_setup_window_ms)), t) \<and>
    find_admin_account e now (us_name user) t = (Inr (Found acc), t) \<and> check_admin_password e acc p = PasswordOk \<and>
    load_access e (us_name user) t = load_access e (us_name user) s"
proof -
  define row where "row = pending_admin e now nonce uid p (ac_name actor)"
  define t0 where "t0 = s\<lparr>as_admins := map (\<lambda>b. if ad_uid b = uid then row else b) (as_admins s)\<rparr>"
  define t where "t = snd (audit (ac_name actor) ''admin.appoint'' (us_name user) (Some school) [] [] t0)"
  have row: "ad_uid row = uid" "ad_must_change row" "ad_expires row = Some (now + admin_setup_window_ms)" "ad_hash row = Some (ae_bcrypt e p)"
    by (simp_all add: row_def pending_admin_def)
  have "find_admin uid t = Some row"
  proof -
    have "find (\<lambda>b. ad_uid b = uid) (map (\<lambda>b. if ad_uid b = uid then row else b) xs) = Some row"
      if "find (\<lambda>b. ad_uid b = uid) xs = Some a" for xs
      using that row(1) by (induction xs) auto
    with pending(1) show ?thesis by (simp add: t_def t0_def audit_def op_write_def find_admin_def)
  qed
  moreover have same: "as_users t = as_users s" "as_grants t = as_grants s"
    by (simp_all add: t_def t0_def audit_def op_write_def)
  ultimately have found: "find_admin_account e now (us_name user) t =
      (Inr (Found \<lparr>aa_name = us_name user, aa_user = Some user, aa_record = Some row,
         aa_env = (match_env_admin (us_name user) (ae_owners e) \<noteq> None)\<rparr>), t)"
    using names user(2) row
    by (simp add: find_admin_account_def login_user_def find_user_def op_bind_def op_read_def op_ok_def admin_setup_lapsed_def
        admin_setup_window_ms_def Let_def)
  have opens: "check_admin_password e \<lparr>aa_name = us_name user, aa_user = Some user, aa_record = Some row, aa_env = b\<rparr> p = PasswordOk" for b
    using row password by (simp add: check_admin_password_def admin_password_hashes_def truthy_def)
  have "grant_admin e now nonce actor scope uid None (Some p) s = (Inr (Some (now + admin_setup_window_ms)), t)"
    using user appoint untis pending password(1) row
    by (simp add: grant_admin_def assert_may_appoint_admin_def parse_grant_request_def give_grant_def grant_needs_one_time_password_def
        admin_can_sign_in_def grant_admin_with_one_time_password_def upsert_admin_def row_def [symmetric] truthy_def
        op_bind_def op_read_def op_ok_def op_lift_def op_write_def audit_def t_def t0_def Let_def)
  with found opens load_access_cong [OF same(2)] show ?thesis by blast
qed

lemma appointing_takes_over_a_pending_admin_witness:
  "fst (set_user_password sample_admin_env sample_actor (Some sample_school) ''u2'' (Some ''evepassword'') sample_admin_state)
      = Inl (forbidden (Rules NotManagerHere)) \<and>
   can (load_access sample_admin_env ''root'' sample_admin_state) ''cluster.manage'' None \<and>
   \<not> can (ac_access sample_actor) ''cluster.manage'' None \<and>
   (\<exists>t acc. find_admin_account sample_admin_env 0 ''root'' t = (Inr (Found acc), t) \<and>
      check_admin_password sample_admin_env acc ''evepassword'' = PasswordOk \<and>
      load_access sample_admin_env ''root'' t = load_access sample_admin_env ''root'' sample_admin_state)"
proof -
  let ?u = "sample_user ''u2'' ''root''"
  have h: "user_in_scope (Some sample_school) ''u2'' sample_admin_state = Some ?u" "us_uid ?u = ''u2''"
    "find_user sample_admin_env (us_name ?u) sample_admin_state = Some ?u" "trim (us_name ?u) = us_name ?u" "us_name ?u \<noteq> []"
    "us_school ?u = Some sample_school" "sample_school \<noteq> []" "manages_admins_in (ac_access sample_actor) sample_school"
    "us_untis ?u" "find_admin ''u2'' sample_admin_state = Some (sample_admin ''u2'' True)" "ad_must_change (sample_admin ''u2'' True)"
    "valid_one_time_password (Some ''evepassword'')" "ae_compare sample_admin_env ''evepassword'' (ae_bcrypt sample_admin_env ''evepassword'')"
    "ae_bcrypt sample_admin_env ''evepassword'' \<noteq> []"
    by code_simp+
  have n: "us_name ?u = ''root''" by (simp add: sample_user_def)
  have "fst (set_user_password sample_admin_env sample_actor (Some sample_school) ''u2'' (Some ''evepassword'') sample_admin_state)
      = Inl (forbidden (Rules NotManagerHere))"
    "can (load_access sample_admin_env ''root'' sample_admin_state) ''cluster.manage'' None"
    "\<not> can (ac_access sample_actor) ''cluster.manage'' None"
    by code_simp+
  then show ?thesis
    using appointing_takes_over_a_pending_admin [OF h, of 0 "[]"] unfolding n by blast
qed

section \<open>One-time codes\<close>

text \<open>
  Requests with a code for one account, in the order their conditional writes reach the database. Each
  carries the decision it made from a row it read at some earlier moment, which others may have overtaken.
\<close>

record code_attempt =
  at_use :: code_use
  at_hash :: string

fun commit_all :: "admin_env \<Rightarrow> string \<Rightarrow> code_attempt list \<Rightarrow> admin_state \<Rightarrow> (code_attempt list \<times> admin_state)" where
  "commit_all e u [] s = ([], s)"
| "commit_all e u (x # xs) s =
     (let (r, s') = commit_code e u (at_use x) s; (accepted, s'') = commit_all e u xs s'
      in ((case r of Inr (Some k) \<Rightarrow> [x] | _ \<Rightarrow> []) @ accepted, s''))"

definition decided :: "admin_env \<Rightarrow> code_attempt \<Rightarrow> bool" where
  "decided e x \<longleftrightarrow> (\<exists>now code allow row. decide_code e now code allow row = Inr (at_use x) \<and>
     at_hash x = hash_recovery_code (ae_pr e) code)"

definition accepted_steps :: "code_attempt list \<Rightarrow> int list" where
  "accepted_steps xs = concat (map (\<lambda>x. case at_use x of UseStep st \<Rightarrow> [st] | _ \<Rightarrow> []) xs)"

definition accepted_hashes :: "code_attempt list \<Rightarrow> string list" where
  "accepted_hashes xs = concat (map (\<lambda>x. case at_use x of UseRecovery old left \<Rightarrow> [at_hash x] | _ \<Rightarrow> []) xs)"

text \<open>\<open>username\<close> is the key of the table: one row per account.\<close>

definition the_totp :: "admin_env \<Rightarrow> string \<Rightarrow> admin_state \<Rightarrow> totp_row \<Rightarrow> bool" where
  "the_totp e u s r \<longleftrightarrow> filter (\<lambda>r. ae_same e (tr_user r) u) (as_totps s) = [r]"

lemma parse_hashes_stored [simp]: "parse_hashes (stored xs) = xs"
proof -
  have "map the (filter (\<lambda>x. x \<noteq> None) (map Some xs)) = xs" by (induction xs) simp_all
  then show ?thesis by (simp add: parse_hashes_def stored_def)
qed

lemma update_totp_row:
  assumes row: "the_totp e u s r" and run: "update_totp e u cond f s = (Inr n, s')" and f: "tr_user (f r) = tr_user r"
  shows "n = (if cond r then 1 else 0)" "the_totp e u s' (if cond r then f r else r)"
proof -
  let ?m = "\<lambda>r. ae_same e (tr_user r) u"
  have "length (filter (\<lambda>q. ?m q \<and> cond q) xs) = (if cond r then 1 else 0) \<and>
      filter ?m (map (\<lambda>q. if ?m q \<and> cond q then f q else q) xs) = [if cond r then f r else r]"
    if "filter ?m xs = [r]" for xs
    using that
  proof (induction xs)
    case (Cons x xs)
    show ?case
    proof (cases "?m x")
      case True
      with Cons.prems have x: "x = r" "filter ?m xs = []" by auto
      then have "filter (\<lambda>q. ?m q \<and> cond q) xs = []" "map (\<lambda>q. if ?m q \<and> cond q then f q else q) xs = xs"
        by (auto simp: filter_empty_conv intro: map_idI)
      with x True f show ?thesis by simp
    next
      case False
      with Cons show ?thesis by simp
    qed
  qed simp
  with row run show "n = (if cond r then 1 else 0)" "the_totp e u s' (if cond r then f r else r)"
    by (auto simp: the_totp_def update_totp_def Let_def)
qed

lemma commit_code_row:
  assumes row: "the_totp e u s r" and x: "decided e x" and run: "commit_code e u (at_use x) s = (q, s')"
  obtains r' where "the_totp e u s' r'" "tr_last_step r \<le> tr_last_step r'"
    "(case at_use x of UseStep st \<Rightarrow> if q = Inr (Some TotpCode) then tr_last_step r < st \<and> tr_last_step r' = st \<and> tr_codes r' = tr_codes r
                         else q = Inr None \<and> r' = r
     | UseRecovery old left \<Rightarrow> if q = Inr (Some RecoveryCode)
         then mset (parse_hashes (tr_codes r)) = add_mset (at_hash x) (mset (parse_hashes (tr_codes r'))) else q = Inr None \<and> r' = r
     | UseNothing \<Rightarrow> q = Inr None \<and> r' = r)"
proof (cases "at_use x")
  case UseNothing
  with run row that show thesis by (auto simp: commit_code_def)
next
  case (UseStep st)
  let ?c = "\<lambda>r. tr_last_step r < st" and ?f = "\<lambda>r. r\<lparr>tr_last_step := st\<rparr>"
  obtain n s1 where u: "update_totp e u ?c ?f s = (Inr n, s1)" by (simp add: update_totp_def Let_def)
  from update_totp_row [OF row u] have "n = (if ?c r then 1 else 0)" "the_totp e u s1 (if ?c r then ?f r else r)" by simp_all
  moreover have "q = Inr (if n = 1 then Some TotpCode else None)" "s' = s1"
    using run UseStep u by (auto simp: commit_code_def accept_totp_step_def op_bind_def op_ok_def)
  ultimately show thesis using UseStep that [of "if ?c r then ?f r else r"] by (auto split: if_splits)
next
  case (UseRecovery old left)
  let ?c = "\<lambda>r. tr_codes r = old" and ?f = "\<lambda>r. r\<lparr>tr_codes := stored left\<rparr>"
  obtain n s1 where u: "update_totp e u ?c ?f s = (Inr n, s1)" by (simp add: update_totp_def Let_def)
  from update_totp_row [OF row u] have "n = (if ?c r then 1 else 0)" "the_totp e u s1 (if ?c r then ?f r else r)" by simp_all
  moreover have "q = Inr (if n = 1 then Some RecoveryCode else None)" "s' = s1"
    using run UseRecovery u by (auto simp: commit_code_def op_bind_def op_ok_def)
  moreover have "mset (parse_hashes old) = add_mset (at_hash x) (mset left)"
  proof -
    from x UseRecovery obtain now code allow row where
      d: "decide_code e now code allow row = Inr (UseRecovery old left)" "at_hash x = hash_recovery_code (ae_pr e) code"
      by (auto simp: decided_def)
    then have "consume_recovery_code (ae_pr e) (parse_hashes old) code = Some left"
      by (auto simp: decide_code_def and_then_Inr split: option.splits if_splits)
    with consume_recovery_code_mset d(2) show ?thesis by metis
  qed
  ultimately show thesis using UseRecovery that [of "if ?c r then ?f r else r"] by (auto split: if_splits)
qed

lemma commit_all_row:
  assumes "the_totp e u s r" "list_all (decided e) xs" "commit_all e u xs s = (ok, t)"
  shows "\<exists>r'. the_totp e u t r' \<and> sorted_wrt (<) (tr_last_step r # accepted_steps ok) \<and>
    mset (parse_hashes (tr_codes r)) = mset (parse_hashes (tr_codes r')) + mset (accepted_hashes ok)"
  using assms
proof (induction xs arbitrary: s r ok)
  case Nil
  then show ?case by (auto simp: accepted_steps_def accepted_hashes_def)
next
  case (Cons x xs)
  obtain q s1 where run: "commit_code e u (at_use x) s = (q, s1)" by (metis prod.collapse)
  obtain ok1 where rest: "commit_all e u xs s1 = (ok1, t)" "ok = (case q of Inr (Some k) \<Rightarrow> [x] | _ \<Rightarrow> []) @ ok1"
    using Cons.prems(3) run by (auto split: prod.splits)
  from Cons.prems(2) have d: "decided e x" "list_all (decided e) xs" by auto
  obtain r1 where r1: "the_totp e u s1 r1" "tr_last_step r \<le> tr_last_step r1" and
    c: "(case at_use x of UseStep st \<Rightarrow> if q = Inr (Some TotpCode) then tr_last_step r < st \<and> tr_last_step r1 = st \<and> tr_codes r1 = tr_codes r
                         else q = Inr None \<and> r1 = r
     | UseRecovery old left \<Rightarrow> if q = Inr (Some RecoveryCode)
         then mset (parse_hashes (tr_codes r)) = add_mset (at_hash x) (mset (parse_hashes (tr_codes r1))) else q = Inr None \<and> r1 = r
     | UseNothing \<Rightarrow> q = Inr None \<and> r1 = r)" by (rule commit_code_row [OF Cons.prems(1) d(1) run])
  from Cons.IH [OF r1(1) d(2) rest(1)] obtain r' where r': "the_totp e u t r'"
    "sorted_wrt (<) (tr_last_step r1 # accepted_steps ok1)"
    "mset (parse_hashes (tr_codes r1)) = mset (parse_hashes (tr_codes r')) + mset (accepted_hashes ok1)" by auto
  show ?case
  proof (cases "at_use x")
    case UseNothing
    with c rest r' show ?thesis by auto
  next
    case (UseStep st)
    with c rest r' r1(2) show ?thesis
      by (auto simp: accepted_steps_def accepted_hashes_def split: if_splits) fastforce+
  next
    case (UseRecovery old left)
    with c rest r' r1(2) show ?thesis
      by (auto simp: accepted_steps_def accepted_hashes_def split: if_splits) fastforce+
  qed
qed

text \<open>C19: However requests with codes for one account overtake each other between reading the row and writing
  it, the steps accepted from the authenticator app strictly increase (no code counts twice), and a
  recovery code is accepted at most as often as its hash was stored.\<close>

theorem codes_are_used_once:
  assumes "the_totp e u s r" "list_all (decided e) xs" "commit_all e u xs s = (ok, t)"
  shows "sorted_wrt (<) (accepted_steps ok) \<and> (\<forall>st \<in> set (accepted_steps ok). tr_last_step r < st) \<and>
    mset (accepted_hashes ok) \<subseteq># mset (parse_hashes (tr_codes r))"
  using commit_all_row [OF assms] by auto

definition sample_totp :: totp_row where
  "sample_totp = \<lparr>tr_user = ''eve'', tr_secret = [], tr_pending = None, tr_enabled = Some 1, tr_last_step = 0,
     tr_codes = stored [hash_recovery_code sample_primitives ''aaaaa-aaaaa'']\<rparr>"

definition sample_attempt :: code_attempt where
  "sample_attempt = \<lparr>at_use = UseRecovery (tr_codes sample_totp) [], at_hash = hash_recovery_code sample_primitives ''aaaaa-aaaaa''\<rparr>"

lemma sample_attempt_decided: "decided sample_admin_env sample_attempt"
proof -
  have "decide_code sample_admin_env 0 ''aaaaa-aaaaa'' False (Some sample_totp) = Inr (at_use sample_attempt)" by code_simp
  moreover have "ae_pr sample_admin_env = sample_primitives" by (simp add: sample_admin_env_def)
  ultimately show ?thesis by (auto simp: decided_def sample_attempt_def)
qed

lemma codes_are_used_once_witness:
  "mset (accepted_hashes (fst (commit_all sample_admin_env ''eve'' [sample_attempt, sample_attempt]
     (sample_admin_state\<lparr>as_totps := [sample_totp]\<rparr>)))) \<subseteq># {#hash_recovery_code sample_primitives ''aaaaa-aaaaa''#}"
proof -
  let ?s = "sample_admin_state\<lparr>as_totps := [sample_totp]\<rparr>"
  have row: "the_totp sample_admin_env ''eve'' ?s sample_totp" by (simp add: the_totp_def sample_admin_env_def sample_totp_def)
  have "list_all (decided sample_admin_env) [sample_attempt, sample_attempt]" by (simp add: sample_attempt_decided)
  from codes_are_used_once [OF row this prod.collapse [symmetric]]
  show ?thesis by (simp add: sample_totp_def)
qed

section \<open>The authenticator app\<close>

text \<open>A typed code is accepted only for the current 30 seconds or the one before or after, only for a step
  later than the last one used, and only when it is the code of that step.\<close>

theorem accepted_step_is_current:
  assumes "verify_totp h secret code now last_used = Inr (Some st)"
  shows "totp_step now - 1 \<le> st \<and> st \<le> totp_step now + 1 \<and> last_used < st \<and>
    totp_code h secret st = Inr (filter (\<lambda>c. \<not> is_space c) code)"
  using verify_totp_Some [OF assms] by simp

lemma accepted_step_is_current_witness:
  "totp_step 60000 - 1 \<le> (1 :: int) \<and> (1 :: int) \<le> totp_step 60000 + 1 \<and> (0 :: int) < 1 \<and>
     totp_code (\<lambda>k d. replicate 20 0) [] 1 = Inr (filter (\<lambda>c. \<not> is_space c) ''000000'')"
proof (rule accepted_step_is_current)
  have code: "totp_code (\<lambda>k d. replicate 20 0) [] 1 = Inr ''000000''"
  proof -
    have zero: "be_value (replicate n 0) = 0" for n by (induction n) simp_all
    have last: "last (replicate 20 (0 :: byte)) = 0" by (simp add: last_replicate)
    have "pad_zero totp_digits (dec_string 0) = ''000000''" by code_simp
    then show ?thesis
      by (simp add: totp_code_def counter_bytes_def base32_decode_def to_upper_def Let_def last zero)
  qed
  have "filter (\<lambda>c. \<not> is_space c) ''000000'' = ''000000''" "list_all is_digit ''000000''" by code_simp+
  with code show "verify_totp (\<lambda>k d. replicate 20 0) [] ''000000'' 60000 0 = Inr (Some 1)"
    by (simp add: verify_totp_def totp_step_def step_seconds_def)
qed

text \<open>The base 32 text of a secret reads back as the same bytes.\<close>

theorem base32_round_trip: "base32_decode (base32_encode bs) = Inr bs"
  by (rule base32_decode_encode)

section \<open>Upgrades of stored grants\<close>

text \<open>An upgrade keeps every right a grant has, adds only rights of the catalog that exist in the grant's
  scope, and has nothing left to add when it runs again unless what it added brings more along.\<close>

theorem upgrades_fit_their_scope:
  assumes "upgrade_grant scope name_of_preset rights up = Some rights'"
  shows "set rights \<subseteq> set rights' \<and>
    (\<forall>p \<in> set rights'. p \<in> set rights \<or> (is_permission (Some p) \<and> (scope = global_scope \<or> p \<in> set school_permissions))) \<and>
    ((\<forall>(q, p) \<in> set (up_follows up). q \<notin> set (up_added up) \<and> q \<notin> snd ` set (up_follows up)) \<longrightarrow>
       upgrade_grant scope name_of_preset rights' up = None)"
proof -
  from assms have r: "rights' = rights @ upgrade_missing scope name_of_preset rights up"
    by (auto simp: upgrade_grant_def Let_def split: if_splits)
  have "upgrade_missing scope name_of_preset rights' up = []"
    if "\<forall>(q, p) \<in> set (up_follows up). q \<notin> set (up_added up) \<and> q \<notin> snd ` set (up_follows up)"
  proof (rule ccontr)
    assume "upgrade_missing scope name_of_preset rights' up \<noteq> []"
    then obtain p where "p \<in> set (upgrade_missing scope name_of_preset rights' up)" by (meson hd_in_set)
    then have p: "is_permission (Some p)" "p \<notin> set rights'" "upgrade_fits scope p"
      "name_of_preset \<in> set everything_presets \<and> p \<in> set (up_added up) \<or> (\<exists>q \<in> set rights'. (q, p) \<in> set (up_follows up))"
      by (auto simp: upgrade_missing_iff)
    from p(1-3) r have none: "\<not> (name_of_preset \<in> set everything_presets \<and> p \<in> set (up_added up))"
      "\<not> (\<exists>q \<in> set rights. (q, p) \<in> set (up_follows up))"
      by (auto simp: upgrade_missing_iff)
    with p(4) r obtain q where q: "q \<in> set (upgrade_missing scope name_of_preset rights up)" "(q, p) \<in> set (up_follows up)" by auto
    from q(1) have "q \<in> set (up_added up) \<or> q \<in> snd ` set (up_follows up)" by (force simp: upgrade_missing_iff)
    with q(2) that show False by auto
  qed
  then show ?thesis
    using r by (auto simp: upgrade_missing_iff upgrade_fits_def school_permission_iff upgrade_grant_def Let_def)
qed

lemma upgrades_fit_their_scope_witness:
  "upgrade_grant sample_school ''custom'' [''popups.manage'', ''recaps.view'', ''recaps.manage''] (hd permission_upgrades) = None"
proof -
  have "upgrade_grant sample_school ''custom'' [''popups.manage''] (hd permission_upgrades) =
      Some [''popups.manage'', ''recaps.view'', ''recaps.manage'']" by code_simp
  from upgrades_fit_their_scope [OF this] show ?thesis by (simp add: permission_upgrades_def)
qed

section \<open>What is required stays\<close>

lemma assert_may_remove_Inr:
  "assert_may_remove e u k left s = (Inr x, s') \<Longrightarrow> s' = s \<and> (factor_of (sf_required (second_factor_state_of e u s)) k \<longrightarrow> left)"
  by (cases k) (auto simp: assert_may_remove_def may_remove_factor_def Let_def elim!: op_bind_InrE split: if_splits)

text \<open>C24: An administrator cannot take off what the server or another administrator requires: removing the
  authenticator app succeeds only where it is not required, removing a passkey only where none is required
  or another one of the account is left.\<close>

theorem required_factors_stay:
  "(disable_own_totp e now u code s = (Inr t1, s1) \<longrightarrow> \<not> for_totp (ae_server e)) \<and>
   (delete_own_passkey e now u i s = (Inr t2, s2) \<longrightarrow>
      \<not> for_passkey (sf_required (second_factor_state_of e u s)) \<or> (\<exists>k \<in> set (passkeys_of e u s). pk_id k \<noteq> i))"
proof (intro conjI impI)
  assume "disable_own_totp e now u code s = (Inr t1, s1)"
  then obtain x s' where "assert_may_remove e u TotpFactor False s = (Inr x, s')"
    by (auto simp: disable_own_totp_def elim!: op_bind_InrE)
  from assert_may_remove_Inr [OF this] show "\<not> for_totp (ae_server e)"
    by (simp add: second_factor_state_of_def state_from_def Let_def requirements_for_def)
next
  assume "delete_own_passkey e now u i s = (Inr t2, s2)"
  then obtain x s' where "assert_may_remove e u PasskeyFactor (0 < length (filter (\<lambda>k. pk_id k \<noteq> i) (passkeys_of e u s))) s = (Inr x, s')"
    by (auto simp: delete_own_passkey_def elim!: op_bind_InrE)
  from assert_may_remove_Inr [OF this]
  show "\<not> for_passkey (sf_required (second_factor_state_of e u s)) \<or> (\<exists>k \<in> set (passkeys_of e u s). pk_id k \<noteq> i)"
    by (auto simp: filter_empty_conv)
qed

definition sample_passkey :: "string \<Rightarrow> passkey_row" where
  "sample_passkey i = \<lparr>pk_id = i, pk_user = ''eve'', pk_credential = i, pk_public_key = [], pk_counter = 0,
     pk_rp = [], pk_name = ''key'', pk_backed_up = False, pk_last_used = None\<rparr>"

definition sample_free_env :: admin_env where
  "sample_free_env = sample_admin_env\<lparr>ae_server := \<lparr>for_totp = False, for_passkey = True\<rparr>\<rparr>"

definition sample_keyed_state :: admin_state where
  "sample_keyed_state = sample_admin_state\<lparr>as_totps := [sample_totp\<lparr>tr_secret :=
     seal_secret sample_primitives (replicate 12 0) ''AAAA'' ''k''\<rparr>], as_passkeys := [sample_passkey ''p1'', sample_passkey ''p2'']\<rparr>"

lemma required_factors_stay_witness:
  "(\<exists>t1 s1. disable_own_totp sample_free_env 0 ''eve'' ''aaaaa-aaaaa'' sample_keyed_state = (Inr t1, s1) \<and>
      \<not> for_totp (ae_server sample_free_env)) \<and>
   (\<exists>t2 s2. delete_own_passkey sample_free_env 0 ''eve'' ''p1'' sample_keyed_state = (Inr t2, s2) \<and>
      (\<not> for_passkey (sf_required (second_factor_state_of sample_free_env ''eve'' sample_keyed_state)) \<or>
       (\<exists>k \<in> set (passkeys_of sample_free_env ''eve'' sample_keyed_state). pk_id k \<noteq> ''p1'')))"
proof -
  have "\<not> isl (fst (disable_own_totp sample_free_env 0 ''eve'' ''aaaaa-aaaaa'' sample_keyed_state))"
    "\<not> isl (fst (delete_own_passkey sample_free_env 0 ''eve'' ''p1'' sample_keyed_state))"
    by code_simp+
  then obtain t1 s1 t2 s2 where runs:
    "disable_own_totp sample_free_env 0 ''eve'' ''aaaaa-aaaaa'' sample_keyed_state = (Inr t1, s1)"
    "delete_own_passkey sample_free_env 0 ''eve'' ''p1'' sample_keyed_state = (Inr t2, s2)"
    by (metis prod.collapse sum.collapse(2))
  from required_factors_stay [of sample_free_env 0 "''eve''" "''aaaaa-aaaaa''" sample_keyed_state t1 s1 "''p1''" t2 s2] runs
  show ?thesis by blast
qed

end
