(* ===== verification/Replicator.thy ===== *)
theory Replicator
  imports Applier Requests
begin

text \<open>
  \<^verbatim>\<open>src/cluster/replicator.ts\<close>: how a node delivers its data to one peer, from the change feed and in a
  complete transfer, with the part of \<^verbatim>\<open>src/cluster/runtime.ts\<close> that keeps where the peer stands
  (\<open>feed_progress\<close>) and the row of \<^verbatim>\<open>cluster_peers\<close> that survives a restart (\<open>peer_row\<close>).

  The other node is reached through two calls, \<open>le_offer\<close> and \<open>le_push\<close>; while a call is under way other
  writers go on, so a call also hands back the local database as it is when the answer arrives. The clock is
  the database's. \<open>lk_given\<close> is an auxiliary variable, written by \<open>remember\<close> and read by no operation: all
  that was ever noted as delivered. Queries outside a transaction do not fail.
\<close>

section \<open>State\<close>

record entry =
  en_table :: table_info
  en_hash :: string
  en_seq :: "int option" \<comment> \<open>\<open>None\<close> for a complete transfer\<close>
  en_offer_first :: bool
  en_key :: "string list"
  en_version :: row_version
  en_deleted :: bool

text \<open>A record as the queries return it; a key is \<open>None\<close> when it is null or no JSON array.\<close>

record registry_row =
  vr_hash :: string
  vr_pk :: "string list option"
  vr_version :: "int option"
  vr_origin :: "string option"
  vr_deleted :: bool

record feed_row = registry_row +
  fr_table :: string
  fr_via :: "string option"
  fr_seq :: int

record sent_mark =
  sm_version :: int
  sm_seq :: int

record sweep_state =
  sw_pos :: int
  sw_until :: int
  sw_stable :: int

record feed_progress =
  fp_cursor :: int
  fp_read_to :: int
  fp_sent :: "(string \<times> sent_mark) list"
  fp_pending_since :: "millis option"
  fp_last_new_at :: millis
  fp_last_head :: int
  fp_sweep :: "sweep_state option"
  fp_last_sweep_at :: millis
  fp_last_persist_at :: millis
  fp_drain_announced_at :: millis

record transfer_position =
  tp_table :: "string option"
  tp_hash :: "string option"

record peer_row =
  pr_sent_seq :: int
  pr_scan_active :: bool
  pr_scan :: transfer_position

record feed_sample =
  fs_at :: millis
  fs_seq :: int

record 'p link =
  lk_db :: node_db
  lk_peer :: 'p
  lk_row :: "peer_row option"
  lk_feed :: feed_progress
  lk_rows_sent :: nat
  lk_transfer_active :: bool
  lk_samples :: "feed_sample list"
  lk_given :: "(string \<times> int) list"

record 'p link_env =
  le_sql :: sql_env
  le_pr :: primitives
  le_host :: js_host
  le_catalog :: catalog
  le_self :: string
  le_peer_id :: string
  le_startup_seq :: int
  le_batch_size :: nat
  le_max_message :: nat
  le_horizon :: millis
  le_batch_idle :: millis
  le_batch_max_delay :: millis
  le_offer :: "offer_item list \<Rightarrow> node_db \<times> 'p \<Rightarrow> (string + int list) \<times> node_db \<times> 'p"
  le_push :: "wire_batch list \<Rightarrow> bool \<Rightarrow> node_db \<times> 'p \<Rightarrow> (string + string) \<times> node_db \<times> 'p"

type_synonym ('p, 'a) link_op = "('p link, string, 'a) request"

definition new_feed_progress :: "millis \<Rightarrow> int \<Rightarrow> feed_progress" where
  "new_feed_progress now cursor =
     \<lparr>fp_cursor = cursor, fp_read_to = cursor, fp_sent = [], fp_pending_since = None, fp_last_new_at = now,
      fp_last_head = 0, fp_sweep = None, fp_last_sweep_at = 0, fp_last_persist_at = 0,
      fp_drain_announced_at = 0\<rparr>"

definition lk_now :: "'p link \<Rightarrow> millis" where
  "lk_now l = clock (lk_db l)"

section \<open>Entries\<close>

definition to_entry :: "table_info \<Rightarrow> ('x) registry_row_scheme \<Rightarrow> int option \<Rightarrow> bool \<Rightarrow> entry option" where
  "to_entry t r seq offer_first =
     (case (vr_pk r, vr_version r, vr_origin r) of
        (Some key, Some v, Some org) \<Rightarrow>
          Some \<lparr>en_table = t, en_hash = vr_hash r, en_seq = seq, en_offer_first = offer_first, en_key = key,
            en_version = \<lparr>version = v, origin = org\<rparr>, en_deleted = vr_deleted r\<rparr>
      | _ \<Rightarrow> None)"

definition feed_key :: "string \<Rightarrow> string \<Rightarrow> string" where
  "feed_key table hash = table @ ''|'' @ hash"

definition registry_row_of :: "row_id \<Rightarrow> version_entry \<Rightarrow> registry_row" where
  "registry_row_of rid e = \<lparr>vr_hash = snd rid, vr_pk = Some (ve_pk e),
     vr_version = Some (version (ve_version e)), vr_origin = Some (origin (ve_version e)), vr_deleted = ve_deleted e\<rparr>"

definition feed_row_of :: "row_id \<times> version_entry \<Rightarrow> feed_row" where
  "feed_row_of = (\<lambda>(rid, e). registry_row.extend (registry_row_of rid e)
     (feed_row.fields (fst rid) (ve_via e) (ve_seq e)))"

section \<open>The commit horizon\<close>

fun drop_samples :: "millis \<Rightarrow> feed_sample list \<Rightarrow> feed_sample list" where
  "drop_samples keep_from (a # b # c # ss) =
     (if fs_at b < keep_from then drop_samples keep_from (b # c # ss) else a # b # c # ss)"
| "drop_samples keep_from ss = ss"

definition note_feed_head :: "millis \<Rightarrow> millis \<Rightarrow> int \<Rightarrow> feed_sample list \<Rightarrow> feed_sample list" where
  "note_feed_head horizon now seq samples =
     (if samples \<noteq> [] \<and> fs_seq (last samples) = seq \<and> now - fs_at (last samples) < 1000 then samples
      else drop_samples (now - horizon - 10000) (samples @ [\<lparr>fs_at = now, fs_seq = seq\<rparr>]))"

definition stable_feed_position :: "millis \<Rightarrow> int \<Rightarrow> millis \<Rightarrow> feed_sample list \<Rightarrow> int" where
  "stable_feed_position horizon startup now samples =
     (case rev (takeWhile (\<lambda>s. \<not> fs_at s > now - horizon) samples) of [] \<Rightarrow> startup | s # ss \<Rightarrow> fs_seq s)"

definition max_seq :: "node_db \<Rightarrow> int" where
  "max_seq db = (case registry db of [] \<Rightarrow> 0 | es \<Rightarrow> Max (set (map (\<lambda>(rid, e). ve_seq e) es)))"

definition read_feed_head :: "'p link_env \<Rightarrow> ('p, int) link_op" where
  "read_feed_head env =
     op_bind (op_read (\<lambda>l. max_seq (lk_db l))) (\<lambda>head.
     op_bind (op_write (\<lambda>l. l\<lparr>lk_samples := note_feed_head (le_horizon env) (lk_now l) head (lk_samples l)\<rparr>))
       (\<lambda>u. op_ok head))"

section \<open>Reading the feed\<close>

definition read_feed :: "node_db \<Rightarrow> int \<Rightarrow> nat \<Rightarrow> feed_row list \<times> bool" where
  "read_feed db from limit =
     (let rs = take (limit + 1) (sort_key fr_seq (filter (\<lambda>r. fr_seq r > from) (map feed_row_of (registry db))))
      in (take limit rs, length rs > limit))"

record feed_batch =
  fb_entries :: "entry list"
  fb_read_to :: int
  fb_truncated :: bool
  fb_skipped :: "(string \<times> sent_mark) list"

definition feed_row_step :: "'p link_env \<Rightarrow> feed_progress \<Rightarrow> feed_row \<Rightarrow> feed_batch \<Rightarrow> feed_batch" where
  "feed_row_step env feed r b0 =
     (let b = b0\<lparr>fb_read_to := (if fr_seq r > fb_read_to b0 then fr_seq r else fb_read_to b0)\<rparr>
      in case (find_table (le_catalog env) (fr_table r), vr_version r) of
           (Some t, Some v) \<Rightarrow>
             (let key = feed_key (fr_table r) (vr_hash r);
                  known = (case map_of (fp_sent feed) key of Some m \<Rightarrow> sm_version m = v | None \<Rightarrow> False)
              in if known then b
                 else if vr_origin r = Some (le_peer_id env) \<or> fr_via r = Some (le_peer_id env)
                 then b\<lparr>fb_skipped := fb_skipped b @ [(key, \<lparr>sm_version = v, sm_seq = fr_seq r\<rparr>)]\<rparr>
                 else case to_entry t r (Some (fr_seq r))
                             (vr_origin r \<noteq> Some (le_self env) \<or> fr_seq r \<le> le_startup_seq env) of
                        Some e \<Rightarrow> b\<lparr>fb_entries := fb_entries b @ [e]\<rparr>
                      | None \<Rightarrow> b)
         | _ \<Rightarrow> b)"

definition next_feed_batch :: "'p link_env \<Rightarrow> 'p link \<Rightarrow> int \<Rightarrow> feed_batch" where
  "next_feed_batch env l from =
     (let (rs, truncated) = read_feed (lk_db l) from (le_batch_size env)
      in fold (feed_row_step env (lk_feed l)) rs
           \<lparr>fb_entries = [], fb_read_to = from, fb_truncated = truncated, fb_skipped = []\<rparr>)"

section \<open>Reading for a complete transfer\<close>

definition transfer_rows :: "node_db \<Rightarrow> string \<Rightarrow> string \<Rightarrow> registry_row list" where
  "transfer_rows db table after =
     sort_key vr_hash (map (\<lambda>(rid, e). registry_row_of rid e)
       (filter (\<lambda>(rid, e). fst rid = table \<and> str_less after (snd rid)) (registry db)))"

definition transfer_entries :: "table_info \<Rightarrow> registry_row list \<Rightarrow> entry list" where
  "transfer_entries t rs = List.map_filter (\<lambda>r. to_entry t r None True) rs"

fun transfer_walk ::
    "node_db \<Rightarrow> nat \<Rightarrow> table_info list \<Rightarrow> string \<Rightarrow> entry list \<Rightarrow> transfer_position option \<Rightarrow>
     entry list \<times> transfer_position option" where
  "transfer_walk db limit [] after entries nxt = (entries, None)"
| "transfer_walk db limit (t # ts) after entries nxt =
     (let rs = take (limit - length entries) (transfer_rows db (tname t) after);
          entries1 = entries @ transfer_entries t rs;
          nxt1 = (if rs \<noteq> [] then Some \<lparr>tp_table = Some (tname t), tp_hash = Some (vr_hash (last rs))\<rparr> else nxt)
      in if length entries1 \<ge> limit then (entries1, nxt1)
         else transfer_walk db limit ts []
                entries1 (case ts of [] \<Rightarrow> nxt1 | t2 # _ \<Rightarrow> Some \<lparr>tp_table = Some (tname t2), tp_hash = None\<rparr>))"

text \<open>When the table at the saved position is gone, the walk continues with the next one.\<close>

definition transfer_start :: "table_info list \<Rightarrow> transfer_position \<Rightarrow> (nat \<times> string) option" where
  "transfer_start tabs p =
     (let name = (case tp_table p of None \<Rightarrow> [] | Some s \<Rightarrow> s)
      in if name = [] then Some (0, (case tp_hash p of None \<Rightarrow> [] | Some h \<Rightarrow> h))
         else case find_index (\<lambda>t. tname t = name) tabs of
                Some i \<Rightarrow> Some (i, (case tp_hash p of None \<Rightarrow> [] | Some h \<Rightarrow> h))
              | None \<Rightarrow> (case find_index (\<lambda>t. str_less name (tname t)) tabs of
                          Some i \<Rightarrow> Some (i, []) | None \<Rightarrow> None))"

definition read_transfer ::
    "'p link_env \<Rightarrow> node_db \<Rightarrow> transfer_position \<Rightarrow> nat \<Rightarrow> entry list \<times> transfer_position option" where
  "read_transfer env db p limit =
     (let tabs = ordered (le_catalog env)
      in case transfer_start tabs p of
           None \<Rightarrow> ([], None)
         | Some (i, after) \<Rightarrow> transfer_walk db limit (drop i tabs) after [] None)"

section \<open>Loading rows\<close>

fun chunks_of :: "nat \<Rightarrow> 'a list \<Rightarrow> 'a list list" where
  "chunks_of n [] = []"
| "chunks_of n (x # xs) = take (Suc (n - 1)) (x # xs) # chunks_of n (drop (n - 1) xs)"

definition load_chunk :: "'p link_env \<Rightarrow> node_db \<Rightarrow> table_info \<Rightarrow> entry list \<Rightarrow> (string \<times> js_value list) list" where
  "load_chunk env db t es =
     map (\<lambda>r. (compute_pk_hash (le_pr env) (map (\<lambda>c. sql_text (le_sql env) (column_value t (snd r) c)) (pk t)), snd r))
       (filter (\<lambda>r. fst r = tname t \<and> list_ex (\<lambda>e. pk_matches (le_sql env) t (en_key e) (snd r)) es) (rows db))"

definition load_rows :: "'p link_env \<Rightarrow> node_db \<Rightarrow> table_info \<Rightarrow> entry list \<Rightarrow> (string \<times> js_value list) list" where
  "load_rows env db t es = al_put_all (concat (map (load_chunk env db t) (chunks_of 100 es))) []"

text \<open>The rows of what is to be sent, grouped by table, deletions left out.\<close>

definition loaded_row :: "'p link_env \<Rightarrow> node_db \<Rightarrow> entry list \<Rightarrow> entry \<Rightarrow> js_value list option" where
  "loaded_row env db es e =
     map_of (load_rows env db (en_table e)
       (filter (\<lambda>e'. \<not> en_deleted e' \<and> en_table e' = en_table e) es)) (en_hash e)"

section \<open>Deletions the database made itself\<close>

text \<open>
  \<open>FOR UPDATE SKIP LOCKED\<close> returns no record when a writer holds it: when reading it without waiting
  would fail.
\<close>

definition record_implicit_deletion :: "'p link_env \<Rightarrow> entry \<Rightarrow> ('p, unit) link_op" where
  "record_implicit_deletion env e l =
     (let db = lk_db l; t = en_table e; rid = (tname t, en_hash e);
          current = (if stmt_error (le_sql env) db (LockRow True ''cluster_row_state'' [fst rid, snd rid]) \<noteq> None
                     then None else map_of (registry db) rid)
      in case current of
           None \<Rightarrow> (Inr (), l)
         | Some c \<Rightarrow>
             if ve_deleted c \<or> version (ve_version c) \<noteq> version (en_version e) then (Inr (), l)
             else if select_row (le_sql env) t (en_key e) db \<noteq> None then (Inr (), l)
             else let v = \<lparr>version = version (ve_version c) + 1, origin = le_self env\<rparr>
                  in case write_version (le_sql env) rid (ve_pk c) v True None db of
                       Inl err \<Rightarrow> (Inl (err_message err), l)
                     | Inr db' \<Rightarrow> (Inr (), l\<lparr>lk_db := db'\<rparr>))"

section \<open>Pushing\<close>

record outgoing =
  og_entry :: entry
  og_item :: wire_item
  og_size :: nat

text \<open>\<open>JSON.stringify(...).length\<close>, in UTF-16 units of the text whose bytes the model holds.\<close>

definition json_char_length :: "char \<Rightarrow> nat" where
  "json_char_length c =
     (let n = of_char c :: nat
      in if n = 34 \<or> n = 92 \<or> n = 8 \<or> n = 9 \<or> n = 10 \<or> n = 12 \<or> n = 13 then 2
         else if n < 32 then 6
         else if 128 \<le> n \<and> n < 192 then 0
         else if n \<ge> 240 then 2
         else 1)"

fun json_length :: "js_host \<Rightarrow> wire_value \<Rightarrow> nat" where
  "json_length h (WStr s) = 2 + sum_list (map json_char_length s)"
| "json_length h (WNum r) = length (host_number_text h r)"
| "json_length h WNaN = 4"
| "json_length h (WBool b) = (if b then 4 else 5)"
| "json_length h WNull = 4"

definition json_array_length :: "js_host \<Rightarrow> wire_value list \<Rightarrow> nat" where
  "json_array_length h ws = 2 + sum_list (map (json_length h) ws) + (length ws - 1)"

text \<open>Neighbouring items of one table travel as one batch.\<close>

fun add_to_batches :: "outgoing \<Rightarrow> wire_batch list \<Rightarrow> wire_batch list" where
  "add_to_batches og [] =
     [\<lparr>wb_table = tname (en_table (og_entry og)), wb_cols = map col_name (columns (en_table (og_entry og))),
       wb_items = [og_item og]\<rparr>]"
| "add_to_batches og [b] =
     (if wb_table b = tname (en_table (og_entry og)) then [b\<lparr>wb_items := wb_items b @ [og_item og]\<rparr>]
      else b # add_to_batches og [])"
| "add_to_batches og (b # bs) = b # add_to_batches og bs"

definition pushed_rows :: "wire_batch list \<Rightarrow> (row_id \<times> row_version) list" where
  "pushed_rows batches =
     concat (map (\<lambda>b. map (\<lambda>w. ((wb_table b, wi_h w), \<lparr>version = wi_v w, origin = wi_o w\<rparr>)) (wb_items b)) batches)"

definition group_batches :: "outgoing list \<Rightarrow> wire_batch list" where
  "group_batches chunk = fold add_to_batches chunk []"

definition call_push :: "'p link_env \<Rightarrow> wire_batch list \<Rightarrow> bool \<Rightarrow> ('p, string) link_op" where
  "call_push env batches drained l =
     (let (reply, db, p) = le_push env batches drained (lk_db l, lk_peer l)
      in (reply, l\<lparr>lk_db := db, lk_peer := p\<rparr>))"

definition push_chunk :: "'p link_env \<Rightarrow> outgoing list \<Rightarrow> bool \<Rightarrow> ('p, string) link_op" where
  "push_chunk env chunk drained =
     op_bind (call_push env (group_batches chunk) drained) (\<lambda>results.
     op_bind (op_check (length results = length chunk)
       ''peer acknowledged a different number of rows than were sent'') (\<lambda>u.
     op_ok results))"

section \<open>Delivering\<close>

definition offer_of :: "entry \<Rightarrow> offer_item" where
  "offer_of e = \<lparr>of_table = tname (en_table e), of_hash = en_hash e, of_version = en_version e,
     of_deleted = en_deleted e\<rparr>"

definition call_offer :: "'p link_env \<Rightarrow> offer_item list \<Rightarrow> ('p, int list) link_op" where
  "call_offer env items l =
     (let (reply, db, p) = le_offer env items (lk_db l, lk_peer l)
      in (reply, l\<lparr>lk_db := db, lk_peer := p\<rparr>))"

text \<open>What a chunk of offers comes to: the entries the peer wants and the ones it declines.\<close>

definition split_wanted :: "int list \<Rightarrow> (nat \<times> entry) list \<Rightarrow> (nat \<times> entry) list \<times> entry list" where
  "split_wanted want chunk =
     (map snd (filter (\<lambda>(i, e). int i \<in> set want) (enumerate 0 chunk)),
      map (snd \<circ> snd) (filter (\<lambda>(i, e). int i \<notin> set want) (enumerate 0 chunk)))"

fun offer_chunks :: "'p link_env \<Rightarrow> (nat \<times> entry) list list \<Rightarrow> ('p, (nat \<times> entry) list \<times> entry list) link_op" where
  "offer_chunks env [] = op_ok ([], [])"
| "offer_chunks env (chunk # chunks) =
     op_bind (call_offer env (map (offer_of \<circ> snd) chunk)) (\<lambda>want.
     op_bind (offer_chunks env chunks) (\<lambda>(wanted, declined).
     op_ok (fst (split_wanted want chunk) @ wanted, snd (split_wanted want chunk) @ declined)))"

record sorted_out =
  so_outgoing :: "outgoing list"
  so_settled :: "entry list"
  so_unsettled :: "entry list"

definition item_of :: "entry \<Rightarrow> wire_value list option \<Rightarrow> wire_item" where
  "item_of e r = \<lparr>wi_h = en_hash e, wi_k = en_key e, wi_v = version (en_version e), wi_o = origin (en_version e),
     wi_d = en_deleted e, wi_r = r\<rparr>"

definition encode_entry :: "'p link_env \<Rightarrow> entry \<Rightarrow> js_value list \<Rightarrow> outgoing option" where
  "encode_entry env e vs =
     (case encode_row (le_host env) (codec (en_table e)) (\<lambda>c. Some (column_value (en_table e) vs c)) of
        Inl err \<Rightarrow> None
      | Inr encoded \<Rightarrow>
          (let sz = json_array_length (le_host env) encoded + 200
           in if int sz > int (le_max_message env) - 65536 then None
              else Some \<lparr>og_entry = e, og_item = item_of e (Some encoded), og_size = sz\<rparr>))"

fun sort_out :: "'p link_env \<Rightarrow> (entry \<times> js_value list option) list \<Rightarrow> sorted_out \<Rightarrow> ('p, sorted_out) link_op" where
  "sort_out env [] so = op_ok so"
| "sort_out env ((e, row) # rest) so =
     (if en_deleted e
      then sort_out env rest (so\<lparr>so_outgoing := so_outgoing so @ [\<lparr>og_entry = e, og_item = item_of e None, og_size = 200\<rparr>]\<rparr>)
      else case row of
             None \<Rightarrow>
               op_bind (record_implicit_deletion env e) (\<lambda>u.
                 sort_out env rest (so\<lparr>so_settled := so_settled so @ [e]\<rparr>))
           | Some vs \<Rightarrow>
               (case encode_entry env e vs of
                  None \<Rightarrow> sort_out env rest (so\<lparr>so_unsettled := so_unsettled so @ [e]\<rparr>)
                | Some og \<Rightarrow> sort_out env rest (so\<lparr>so_outgoing := so_outgoing so @ [og]\<rparr>)))"

text \<open>A chunk takes at least one row, then as many as stay within the limit.\<close>

fun fill_chunk :: "nat \<Rightarrow> nat \<Rightarrow> outgoing list \<Rightarrow> outgoing list \<times> outgoing list" where
  "fill_chunk limit sz [] = ([], [])"
| "fill_chunk limit sz (o1 # os) =
     (if sz + og_size o1 \<le> limit
      then (let (c, rest) = fill_chunk limit (sz + og_size o1) os in (o1 # c, rest))
      else ([], o1 # os))"

lemma fill_chunk_append: "fill_chunk limit sz os = (c, rest) \<Longrightarrow> os = c @ rest"
  by (induction limit sz os arbitrary: c rest rule: fill_chunk.induct) (auto split: if_splits prod.splits)

function pack_chunks :: "nat \<Rightarrow> outgoing list \<Rightarrow> outgoing list list" where
  "pack_chunks limit [] = []"
| "pack_chunks limit (o1 # os) =
     (let (c, rest) = fill_chunk limit (og_size o1) os in (o1 # c) # pack_chunks limit rest)"
  by pat_completeness auto
termination
  by (relation "measure (length \<circ> snd)") (auto dest: fill_chunk_append [OF sym])

record delivery =
  dl_settled :: "entry list"
  dl_unsettled :: "entry list"
  dl_announced :: bool

definition take_answers :: "outgoing list \<Rightarrow> string \<Rightarrow> bool \<Rightarrow> delivery \<Rightarrow> delivery" where
  "take_answers chunk results drained d =
     d\<lparr>dl_settled := dl_settled d @ map (og_entry \<circ> fst) (filter (\<lambda>(og, r). r \<noteq> CHR ''r'') (zip chunk results)),
       dl_unsettled := dl_unsettled d @ map (og_entry \<circ> fst) (filter (\<lambda>(og, r). r = CHR ''r'') (zip chunk results)),
       dl_announced := drained\<rparr>"

fun push_chunks :: "'p link_env \<Rightarrow> bool \<Rightarrow> outgoing list list \<Rightarrow> delivery \<Rightarrow> ('p, delivery) link_op" where
  "push_chunks env drained_after [] d = op_ok d"
| "push_chunks env drained_after (chunk # chunks) d =
     (let drained = (drained_after \<and> chunks = [] \<and> dl_unsettled d = [])
      in op_bind (push_chunk env chunk drained) (\<lambda>results.
         op_bind (op_write (\<lambda>l. l\<lparr>lk_rows_sent := lk_rows_sent l + length (filter (\<lambda>r. r = CHR ''a'') results)\<rparr>)) (\<lambda>u.
         push_chunks env drained_after chunks (take_answers chunk results drained d))))"

definition send_entries :: "'p link_env \<Rightarrow> bool \<Rightarrow> entry list \<Rightarrow> entry list \<Rightarrow> ('p, delivery) link_op" where
  "send_entries env drained_after es declined =
     op_bind (op_read (\<lambda>l. map (\<lambda>e. (e, loaded_row env (lk_db l) es e)) es)) (\<lambda>loaded.
     op_bind (sort_out env loaded \<lparr>so_outgoing = [], so_settled = declined, so_unsettled = []\<rparr>) (\<lambda>so.
     push_chunks env drained_after (pack_chunks (le_max_message env div 2) (so_outgoing so))
       \<lparr>dl_settled = so_settled so, dl_unsettled = so_unsettled so, dl_announced = False\<rparr>))"

text \<open>The order the entries were read in is kept: they carry their position.\<close>

definition offer_entries :: "'p link_env \<Rightarrow> entry list \<Rightarrow> ('p, (nat \<times> entry) list \<times> entry list) link_op" where
  "offer_entries env entries =
     offer_chunks env (chunks_of 2000 (filter (\<lambda>(i, e). en_offer_first e) (enumerate 0 entries)))"

definition to_send :: "entry list \<Rightarrow> (nat \<times> entry) list \<Rightarrow> entry list" where
  "to_send entries wanted =
     map snd (sort_key fst (filter (\<lambda>(i, e). \<not> en_offer_first e) (enumerate 0 entries) @ wanted))"

definition deliver :: "'p link_env \<Rightarrow> entry list \<Rightarrow> bool \<Rightarrow> ('p, delivery) link_op" where
  "deliver env entries drained_after =
     op_bind (offer_entries env entries) (\<lambda>(wanted, declined).
       send_entries env drained_after (to_send entries wanted) declined)"

section \<open>The position in the feed\<close>

definition note_sent :: "(string \<times> sent_mark) list \<Rightarrow> 'p link \<Rightarrow> 'p link" where
  "note_sent marks l =
     l\<lparr>lk_feed := (lk_feed l)\<lparr>fp_sent := al_put_all marks (fp_sent (lk_feed l))\<rparr>,
       lk_given := map (\<lambda>(k, m). (k, sm_version m)) marks @ lk_given l\<rparr>"

definition entry_marks :: "entry list \<Rightarrow> (string \<times> sent_mark) list" where
  "entry_marks es = List.map_filter (\<lambda>e. map_option (\<lambda>seq.
     (feed_key (tname (en_table e)) (en_hash e), \<lparr>sm_version = version (en_version e), sm_seq = seq\<rparr>)) (en_seq e)) es"

fun first_seq :: "entry list \<Rightarrow> int option \<Rightarrow> int option" where
  "first_seq [] m = m"
| "first_seq (e # es) m =
     first_seq es (case (en_seq e, m) of
                     (Some s, None) \<Rightarrow> Some s
                   | (Some s, Some k) \<Rightarrow> if s < k then Some s else Some k
                   | (None, m) \<Rightarrow> m)"

definition remember :: "feed_batch \<Rightarrow> delivery option \<Rightarrow> ('p, int option) link_op" where
  "remember batch d =
     op_bind (op_write (note_sent (entry_marks (case d of None \<Rightarrow> [] | Some dl \<Rightarrow> dl_settled dl) @ fb_skipped batch)))
       (\<lambda>u. op_ok (first_seq (case d of None \<Rightarrow> [] | Some dl \<Rightarrow> dl_unsettled dl) None))"

definition move_cursor :: "int \<Rightarrow> ('p, unit) link_op" where
  "move_cursor target =
     op_write (\<lambda>l. let feed = lk_feed l in
       if target \<le> fp_cursor feed then l
       else l\<lparr>lk_feed := feed\<lparr>fp_cursor := target,
                fp_sent := filter (\<lambda>(k, m). \<not> sm_seq m \<le> target) (fp_sent feed),
                fp_last_persist_at := lk_now l\<rparr>,
              lk_row := map_option (\<lambda>r. if pr_sent_seq r < target then r\<lparr>pr_sent_seq := target\<rparr> else r) (lk_row l)\<rparr>)"

section \<open>One round\<close>

definition transfer_state :: "'p link \<Rightarrow> bool \<times> transfer_position" where
  "transfer_state l =
     (case lk_row l of
        None \<Rightarrow> (False, \<lparr>tp_table = None, tp_hash = None\<rparr>)
      | Some r \<Rightarrow> (pr_scan_active r, pr_scan r))"

definition set_feed :: "(feed_progress \<Rightarrow> feed_progress) \<Rightarrow> ('p, unit) link_op" where
  "set_feed f = op_write (\<lambda>l. l\<lparr>lk_feed := f (lk_feed l)\<rparr>)"

definition should_send_now :: "'p link_env \<Rightarrow> feed_batch \<Rightarrow> int \<Rightarrow> ('p, bool) link_op" where
  "should_send_now env batch head =
     (if fb_entries batch = []
      then op_bind (set_feed (\<lambda>f. f\<lparr>fp_pending_since := None\<rparr>)) (\<lambda>u. op_ok False)
      else if fb_truncated batch then op_ok True
      else op_bind (op_read lk_now) (\<lambda>now.
           op_bind (set_feed (\<lambda>f. if fp_pending_since f = None then f\<lparr>fp_pending_since := Some now\<rparr> else f)) (\<lambda>u.
           op_read (\<lambda>l. let f = lk_feed l in
             (head \<le> fb_read_to batch \<and> now - fp_last_new_at f \<ge> le_batch_idle env) \<or>
             now - the (fp_pending_since f) \<ge> le_batch_max_delay env))))"

definition rejected_rows :: "entry list \<Rightarrow> string" where
  "rejected_rows es = dec_string (length es) @
     '' row(s) were rejected by the peer (schema difference, or a row too large to send)''"

definition send_feed_batch :: "'p link_env \<Rightarrow> feed_batch \<Rightarrow> bool \<Rightarrow> ('p, delivery) link_op" where
  "send_feed_batch env batch drained_after =
     op_bind (deliver env (fb_entries batch) drained_after) (\<lambda>d.
     op_bind (remember batch (Some d)) (\<lambda>first_unsettled.
       case first_unsettled of
         None \<Rightarrow> op_ok d
       | Some s \<Rightarrow>
           op_bind (set_feed (\<lambda>f. if fp_read_to f \<ge> s then f\<lparr>fp_read_to := s - 1\<rparr> else f)) (\<lambda>u.
           op_fail (rejected_rows (dl_unsettled d)))))"

definition begin_sweep :: "'p link_env \<Rightarrow> ('p, sweep_state) link_op" where
  "begin_sweep env =
     op_bind (op_write (\<lambda>l. let f = lk_feed l in
       case fp_sweep f of
         Some sw \<Rightarrow> l
       | None \<Rightarrow> l\<lparr>lk_feed := f\<lparr>fp_sweep := Some \<lparr>sw_pos = fp_cursor f, sw_until = fp_read_to f,
           sw_stable = stable_feed_position (le_horizon env) (le_startup_seq env) (lk_now l) (lk_samples l)\<rparr>\<rparr>\<rparr>)) (\<lambda>u.
     op_read (\<lambda>l. the (fp_sweep (lk_feed l))))"

definition sweep_package :: "'p link_env \<Rightarrow> feed_batch \<Rightarrow> ('p, unit) link_op" where
  "sweep_package env batch =
     (if fb_entries batch \<noteq> [] then op_bind (send_feed_batch env batch False) (\<lambda>d. op_ok ())
      else op_bind (remember batch None) (\<lambda>f. op_ok ()))"

definition finish_sweep_step :: "sweep_state \<Rightarrow> feed_batch \<Rightarrow> ('p, bool) link_op" where
  "finish_sweep_step sw batch =
     (if fb_truncated batch \<and> fb_read_to batch < sw_until sw
      then op_bind (set_feed (\<lambda>f. f\<lparr>fp_sweep := Some (sw\<lparr>sw_pos := fb_read_to batch\<rparr>)\<rparr>)) (\<lambda>u. op_ok True)
      else op_bind (op_read lk_now) (\<lambda>now.
           op_bind (set_feed (\<lambda>f. f\<lparr>fp_sweep := None, fp_last_sweep_at := now\<rparr>)) (\<lambda>u.
           op_bind (move_cursor (if sw_stable sw < sw_until sw then sw_stable sw else sw_until sw)) (\<lambda>u.
           op_ok False))))"

definition sweep_step :: "'p link_env \<Rightarrow> ('p, bool) link_op" where
  "sweep_step env =
     op_bind (begin_sweep env) (\<lambda>sw.
     op_bind (op_read (\<lambda>l. next_feed_batch env l (sw_pos sw))) (\<lambda>batch.
     op_bind (sweep_package env batch) (\<lambda>u. finish_sweep_step sw batch)))"

definition sweep_every :: millis where
  "sweep_every = 30000"

text \<open>The three parts of a round: what is new in the feed, the sweep, the complete transfer.\<close>

definition advance_read :: "int \<Rightarrow> ('p, unit) link_op" where
  "advance_read pos = set_feed (\<lambda>f. if pos > fp_read_to f then f\<lparr>fp_read_to := pos\<rparr> else f)"

definition feed_part :: "'p link_env \<Rightarrow> int \<Rightarrow> bool \<Rightarrow> ('p, bool \<times> bool) link_op" where
  "feed_part env head transfer_active =
     op_bind (op_read (\<lambda>l. next_feed_batch env l (fp_read_to (lk_feed l)))) (\<lambda>batch.
     op_bind (should_send_now env batch head) (\<lambda>now.
       if now
       then op_bind (send_feed_batch env batch (\<not> fb_truncated batch \<and> \<not> transfer_active)) (\<lambda>d.
            op_bind (advance_read (fb_read_to batch)) (\<lambda>u.
            op_bind (set_feed (\<lambda>f. f\<lparr>fp_pending_since := None\<rparr>)) (\<lambda>u.
            op_ok (dl_announced d, fb_truncated batch))))
       else if fb_entries batch = []
       then op_bind (remember batch None) (\<lambda>f.
            op_bind (advance_read (fb_read_to batch)) (\<lambda>u.
            op_ok (False, fb_truncated batch)))
       else op_ok (False, False)))"

definition sweep_part :: "'p link_env \<Rightarrow> ('p, bool) link_op" where
  "sweep_part env =
     op_bind (op_read (\<lambda>l. fp_sweep (lk_feed l) \<noteq> None \<or> lk_now l - fp_last_sweep_at (lk_feed l) > sweep_every)) (\<lambda>due.
       if due then sweep_step env else op_ok False)"

definition move_scan :: "transfer_position option \<Rightarrow> peer_row \<Rightarrow> peer_row" where
  "move_scan nxt r =
     (if \<not> pr_scan_active r then r
      else case nxt of
             Some q \<Rightarrow> r\<lparr>pr_scan := q\<rparr>
           | None \<Rightarrow> r\<lparr>pr_scan_active := False, pr_scan := \<lparr>tp_table = None, tp_hash = None\<rparr>\<rparr>)"

definition transfer_part ::
    "'p link_env \<Rightarrow> int \<Rightarrow> transfer_position \<Rightarrow> ('p, bool \<times> bool) link_op" where
  "transfer_part env head p =
     op_bind (op_read (\<lambda>l. (read_transfer env (lk_db l) p (le_batch_size env), fp_read_to (lk_feed l)))) (\<lambda>((entries, nxt), read_to).
     op_bind (if entries \<noteq> [] then deliver env entries (nxt = None \<and> head \<le> read_to)
              else op_ok \<lparr>dl_settled = [], dl_unsettled = [], dl_announced = False\<rparr>) (\<lambda>d.
     op_bind (op_check (dl_unsettled d = []) (rejected_rows (dl_unsettled d))) (\<lambda>u.
     op_bind (op_write (\<lambda>l. l\<lparr>lk_row := map_option (move_scan nxt) (lk_row l)\<rparr>)) (\<lambda>u.
     op_bind (op_write (\<lambda>l. if nxt = None then l\<lparr>lk_transfer_active := False\<rparr> else l)) (\<lambda>u.
     op_ok (dl_announced d, nxt \<noteq> None))))))"

definition note_drained :: "'p link \<Rightarrow> 'p link" where
  "note_drained l = l\<lparr>lk_feed := (lk_feed l)\<lparr>fp_drain_announced_at := lk_now l\<rparr>\<rparr>"

definition announce_part :: "'p link_env \<Rightarrow> bool \<Rightarrow> bool \<Rightarrow> ('p, unit) link_op" where
  "announce_part env announced caught_up =
     (if announced then op_write note_drained
      else op_bind (op_read (\<lambda>l. fp_drain_announced_at (lk_feed l) < fp_last_new_at (lk_feed l))) (\<lambda>due.
           if caught_up \<and> due
           then op_bind (call_push env [] True) (\<lambda>r. op_write note_drained)
           else op_ok ()))"

definition feed_stage :: "'p link_env \<Rightarrow> int \<Rightarrow> ('p, bool \<times> transfer_position \<times> bool \<times> bool) link_op" where
  "feed_stage env head =
     op_bind (op_write (\<lambda>l. if head > fp_last_head (lk_feed l)
       then l\<lparr>lk_feed := (lk_feed l)\<lparr>fp_last_new_at := lk_now l, fp_last_head := head\<rparr>\<rparr> else l)) (\<lambda>u.
     op_bind (op_read transfer_state) (\<lambda>(active, p).
     op_bind (op_write (\<lambda>l. l\<lparr>lk_transfer_active := active\<rparr>)) (\<lambda>u.
     op_bind (feed_part env head active) (\<lambda>(announced, truncated).
     op_ok (active, p, announced, truncated)))))"

definition sync_peer :: "'p link_env \<Rightarrow> int \<Rightarrow> ('p, bool) link_op" where
  "sync_peer env head =
     op_bind (feed_stage env head) (\<lambda>(active, p, announced, truncated).
     op_bind (sweep_part env) (\<lambda>sweeping.
     op_bind (if active then transfer_part env head p else op_ok (announced, False)) (\<lambda>(announced2, continues).
     op_bind (op_read (\<lambda>l. \<not> (truncated \<or> sweeping) \<and> \<not> continues \<and> head \<le> fp_read_to (lk_feed l) \<and>
                fp_pending_since (lk_feed l) = None)) (\<lambda>caught_up.
     op_bind (announce_part env announced2 caught_up) (\<lambda>u.
     op_ok (truncated \<or> sweeping \<or> continues))))))"

section \<open>What the rest of the node asks\<close>

definition offer_rows :: "'p link_env \<Rightarrow> table_info \<Rightarrow> registry_row list \<Rightarrow> ('p, nat) link_op" where
  "offer_rows env t rs =
     (let entries = transfer_entries t rs
      in if entries = [] then op_ok 0
         else op_bind (op_read lk_rows_sent) (\<lambda>before.
              op_bind (deliver env entries False) (\<lambda>d.
              op_read (\<lambda>l. lk_rows_sent l - before))))"

definition has_pending_work :: "int \<Rightarrow> 'p link \<Rightarrow> bool" where
  "has_pending_work head l \<longleftrightarrow>
     lk_transfer_active l \<or> head > fp_read_to (lk_feed l) \<or> fp_pending_since (lk_feed l) \<noteq> None \<or>
     fp_sweep (lk_feed l) \<noteq> None"

definition pending_count :: "'p link \<Rightarrow> nat" where
  "pending_count l =
     min 100000 (length (filter (\<lambda>(rid, e). ve_seq e > fp_read_to (lk_feed l)) (registry (lk_db l))))"

end
