(* ===== verification/Receiver.thy ===== *)
theory Receiver
  imports Replicator
begin

text \<open>
  The other end of a link: the calls \<^verbatim>\<open>offer\<close> and \<^verbatim>\<open>push\<close> as \<open>handleCall\<close> of \<^verbatim>\<open>src/cluster/index.ts\<close>
  answers them, with the schemas of \<^verbatim>\<open>src/cluster/protocol.ts\<close> every call passes first, and the whole
  outside world of a sender (\<open>outside\<close>): the receiving node, and the transactions of the sender's own
  writers that have taken a position in the feed and not committed yet. One of them commits while a call is
  under way.

  The retry a push may start runs by itself (\<open>retry_deferred\<close> of Applier) and is not part of the answer.
\<close>

section \<open>Schemas\<close>

definition table_name_ok :: "string \<Rightarrow> bool" where
  "table_name_ok s \<longleftrightarrow> 1 \<le> length s \<and> length s \<le> 64 \<and> list_all identifier_char s"

definition lower_hex_char :: "char \<Rightarrow> bool" where
  "lower_hex_char c \<longleftrightarrow> is_digit c \<or> (let n = of_char c :: nat in 97 \<le> n \<and> n \<le> 102)"

definition pk_hash_ok :: "string \<Rightarrow> bool" where
  "pk_hash_ok s \<longleftrightarrow> length s = 64 \<and> list_all lower_hex_char s"

definition wire_version_ok :: "int \<Rightarrow> bool" where
  "wire_version_ok v \<longleftrightarrow> 0 \<le> v \<and> v < 10 ^ 20"

definition node_id_ok :: "string \<Rightarrow> bool" where
  "node_id_ok s \<longleftrightarrow> 8 \<le> length s \<and> length s \<le> 36 \<and> list_all (\<lambda>c. is_letter c \<or> is_digit c \<or> c = CHR ''-'') s"

text \<open>\<open>String.length\<close>, in UTF-16 units of the text whose bytes the model holds.\<close>

definition utf16_length :: "string \<Rightarrow> nat" where
  "utf16_length s = sum_list (map (\<lambda>c. let n = of_char c :: nat in
     if 128 \<le> n \<and> n < 192 then 0 else if n \<ge> 240 then 2 else 1) s)"

definition offer_schema_ok :: "offer_item list \<Rightarrow> bool" where
  "offer_schema_ok items \<longleftrightarrow> length items \<le> 2000 \<and>
     list_all (\<lambda>i. table_name_ok (of_table i) \<and> pk_hash_ok (of_hash i) \<and> wire_version_ok (version (of_version i)) \<and>
       node_id_ok (origin (of_version i))) items"

definition wire_item_ok :: "wire_item \<Rightarrow> bool" where
  "wire_item_ok w \<longleftrightarrow> pk_hash_ok (wi_h w) \<and>
     1 \<le> length (wi_k w) \<and> length (wi_k w) \<le> 16 \<and> list_all (\<lambda>k. utf16_length k \<le> 1024) (wi_k w) \<and>
     wire_version_ok (wi_v w) \<and> node_id_ok (wi_o w) \<and>
     (case wi_r w of None \<Rightarrow> True | Some r \<Rightarrow> length r \<le> 512)"

definition wire_batch_ok :: "wire_batch \<Rightarrow> bool" where
  "wire_batch_ok b \<longleftrightarrow> table_name_ok (wb_table b) \<and>
     length (wb_cols b) \<le> 512 \<and> list_all table_name_ok (wb_cols b) \<and>
     length (wb_items b) \<le> 2000 \<and> list_all wire_item_ok (wb_items b)"

definition push_schema_ok :: "wire_batch list \<Rightarrow> bool" where
  "push_schema_ok batches \<longleftrightarrow> length batches \<le> 256 \<and> list_all wire_batch_ok batches"

section \<open>The receiving node\<close>

text \<open>
  \<open>rv_may\<close> stands for \<open>mayReplicateWith\<close>; \<open>rv_pushed\<close> is an auxiliary variable: the rows and
  versions of every push this node answered.
\<close>

record receiver =
  rv_cx :: apply_ctx
  rv_db :: node_db
  rv_may :: bool
  rv_pushed :: "(row_id \<times> row_version) list"

fun letter_of :: "item_result \<Rightarrow> char" where
  "letter_of A = CHR ''a''"
| "letter_of S = CHR ''s''"
| "letter_of D = CHR ''d''"
| "letter_of R = CHR ''r''"

definition may_replicate_with :: "bool \<Rightarrow> bool \<Rightarrow> bool option \<Rightarrow> bool \<Rightarrow> bool" where
  "may_replicate_with paused capture_ready schema_match stale \<longleftrightarrow>
     \<not> paused \<and> capture_ready \<and> schema_match = Some True \<and> \<not> stale"

definition handle_offer :: "offer_item list \<Rightarrow> receiver \<Rightarrow> (string + int list) \<times> receiver" where
  "handle_offer items rv =
     (if \<not> rv_may rv then (Inl ''replication is paused on this node'', rv)
      else if \<not> offer_schema_ok items then (Inl ''bad request'', rv)
      else (Inr (map int (wanted_from_offer (rv_cx rv) items (rv_db rv))), rv))"

definition note_drained_at :: "string \<Rightarrow> apply_ctx \<Rightarrow> apply_ctx" where
  "note_drained_at peer cx =
     cx\<lparr>cx_peers := map (\<lambda>p. if ps_node_id p = peer then p\<lparr>ps_drained_at := Some (cx_now cx)\<rparr> else p) (cx_peers cx)\<rparr>"

definition count_received :: "string \<Rightarrow> nat \<Rightarrow> apply_ctx \<Rightarrow> apply_ctx" where
  "count_received peer n cx =
     cx\<lparr>cx_peers := map (\<lambda>p. if ps_node_id p = peer then p\<lparr>ps_rows_received := ps_rows_received p + n\<rparr> else p) (cx_peers cx)\<rparr>"

definition handle_push :: "string \<Rightarrow> wire_batch list \<Rightarrow> bool \<Rightarrow> receiver \<Rightarrow> (string + string) \<times> receiver" where
  "handle_push peer batches drained rv =
     (if \<not> rv_may rv then (Inl ''replication is paused on this node'', rv)
      else if \<not> push_schema_ok batches then (Inl ''bad request'', rv)
      else let (answer, db) = (if batches = [] then (Inr ([], 0), rv_db rv)
                               else apply_push (rv_cx rv) peer batches (rv_db rv))
           in case answer of
                Inl err \<Rightarrow> (Inl err, rv\<lparr>rv_db := db\<rparr>)
              | Inr (results, applied) \<Rightarrow>
                  (let cx = count_received peer applied (rv_cx rv)
                   in (Inr (map letter_of results),
                       rv\<lparr>rv_db := db, rv_cx := (if drained then note_drained_at peer cx else cx),
                          rv_pushed := pushed_rows batches @ rv_pushed rv\<rparr>)))"

text \<open>
  What the sender may rely on: the version, or a newer one, is held; or it waits in the table of the changes
  set aside, itself or a newer one. One change set aside can be forgotten for another: \<open>clearDeferred\<close>
  compares the number alone, so a pushed change of the row with the same number, from another node, that this
  node has taken may clear it.
\<close>

definition set_aside_as :: "node_db \<Rightarrow> row_id \<Rightarrow> row_version \<Rightarrow> bool" where
  "set_aside_as db rid v \<longleftrightarrow> (case map_of (set_aside db) rid of
       None \<Rightarrow> False
     | Some e \<Rightarrow> \<not> is_newer v (Some (de_version e)))"

definition overtaken :: "receiver \<Rightarrow> row_id \<Rightarrow> row_version \<Rightarrow> bool" where
  "overtaken rv rid v \<longleftrightarrow> list_ex (\<lambda>(r, w). r = rid \<and> version w = version v \<and> origin w \<noteq> origin v \<and>
     holds (rv_db rv) rid w) (rv_pushed rv)"

definition taken_over :: "receiver \<Rightarrow> row_id \<Rightarrow> row_version \<Rightarrow> bool" where
  "taken_over rv rid v \<longleftrightarrow> holds (rv_db rv) rid v \<or> set_aside_as (rv_db rv) rid v \<or> overtaken rv rid v"

definition replicates :: "receiver \<Rightarrow> string \<Rightarrow> bool" where
  "replicates rv t \<longleftrightarrow> (case cx_catalog (rv_cx rv) of None \<Rightarrow> False | Some cat \<Rightarrow> find_table cat t \<noteq> None)"

section \<open>The sender's other writers\<close>

text \<open>
  A writer that has taken a position and not committed: what its transaction will leave in the registry.
  Another transaction of the row waits for it, so a record only ever moves on in the feed.
\<close>

record open_write =
  ow_row :: row_id
  ow_entry :: version_entry

record outside =
  os_receiver :: receiver
  os_open :: "open_write list"

definition commit_write :: "open_write \<Rightarrow> node_db \<Rightarrow> node_db" where
  "commit_write w db = db\<lparr>registry := al_put (ow_row w) (ow_entry w) (registry db)\<rparr>"

definition commit_next :: "node_db \<times> outside \<Rightarrow> node_db \<times> outside" where
  "commit_next = (\<lambda>(db, os). case os_open os of
       [] \<Rightarrow> (db, os)
     | w # ws \<Rightarrow> (commit_write w db, os\<lparr>os_open := ws\<rparr>))"

definition outside_offer :: "offer_item list \<Rightarrow> node_db \<times> outside \<Rightarrow> (string + int list) \<times> node_db \<times> outside" where
  "outside_offer items = (\<lambda>(db, os).
     let (reply, rv) = handle_offer items (os_receiver os)
     in (reply, commit_next (db, os\<lparr>os_receiver := rv\<rparr>)))"

definition outside_push ::
    "string \<Rightarrow> wire_batch list \<Rightarrow> bool \<Rightarrow> node_db \<times> outside \<Rightarrow> (string + string) \<times> node_db \<times> outside" where
  "outside_push self batches drained = (\<lambda>(db, os).
     let (reply, rv) = handle_push self batches drained (os_receiver os)
     in (reply, commit_next (db, os\<lparr>os_receiver := rv\<rparr>)))"

text \<open>A sender's view of the world, from its settings.\<close>

definition joined :: "outside link_env \<Rightarrow> outside link_env" where
  "joined env = env\<lparr>le_offer := outside_offer, le_push := outside_push (le_self env)\<rparr>"

end
