(* ===== verification/Aside_Facts.thy ===== *)
theory Aside_Facts
  imports Applier_Facts Receiver
begin

text \<open>
  The changes set aside. The attempts at a change leave the table \<open>set_aside\<close> alone and never answer \<open>D\<close>;
  the last pass of the careful path answers \<open>D\<close> exactly where it has saved the change; what clearing removes
  afterwards has a settled change of the same row and at least the same number.
\<close>

section \<open>Attempts leave what is set aside alone\<close>

lemma same_registry_aside: "same_registry db db' \<Longrightarrow> set_aside db' = set_aside db"
  by (simp add: same_registry_def)

lemma store_item_aside:
  assumes "store_item env item old db = Inr ((out, ef), db')"
  shows "set_aside db' = set_aside db"
  using assms by (rule store_item_registry) (simp add: same_registry_aside)

lemma attempt_aside:
  assumes "attempt env item db = ((out, ef), db')"
  shows "set_aside db' = set_aside db"
  using assms
proof (cases rule: attempt_cases)
  case (taken n)
  from store_item_aside [OF taken(4)] show ?thesis by simp
qed simp

lemma package_items_aside:
  "package_items env ex items db = Inr ((res, effs), db') \<Longrightarrow> set_aside db' = set_aside db"
proof (induction items arbitrary: db res effs)
  case (Cons item items)
  from Cons.prems show ?case
    by (cases rule: package_items_cases) (use Cons.IH store_item_aside in auto)
qed simp

lemma apply_package_aside:
  assumes "apply_package env items db = (r, db')"
  shows "set_aside db' = set_aside db"
  using assms by (cases rule: apply_package_cases) (auto dest: package_items_aside)

lemma write_group_aside:
  "write_group env ex grp db = Inr (effs, db') \<Longrightarrow> set_aside db' = set_aside db"
proof (induction grp arbitrary: db effs)
  case (Cons item items)
  from Cons.prems obtain db1 effs' where
    "write_row env item (existing_row ex item \<noteq> None) db = Inr db1"
    "write_group env ex items (put_entry (row_id_of item) (w_key item) (w_version item) (w_deleted item)
       (Some (w_from item)) db1) = Inr (effs', db')"
    by (auto elim!: and_then_InrE simp del: not_None_eq)
  with Cons.IH write_row_same same_registry_aside show ?case by fastforce
qed simp

lemma apply_group_aside:
  assumes "apply_group env rnd grp db = ((applied, effs), db')"
  shows "set_aside db' = set_aside db"
proof -
  obtain q db2 where tx: "apply_tx env (group_body env rnd grp) 50 db = (q, db2)"
    by (cases "apply_tx env (group_body env rnd grp) 50 db")
  from tx show ?thesis
  proof (cases rule: apply_tx_cases)
    case (rolled_back e)
    with assms tx show ?thesis by (auto simp: apply_group_def)
  next
    case (committed a db1)
    have "set_aside db1 = set_aside db"
      using committed(2) unfolding group_body_def
      by (auto split: option.splits if_splits elim!: and_then_InrE
          dest!: park_group_same write_group_aside same_registry_aside)
    moreover have "db' = db1\<lparr>tick := tick db + 1\<rparr>"
      using assms tx committed by (auto simp: apply_group_def split: prod.splits)
    ultimately show ?thesis by simp
  qed
qed

lemma resolve_body_aside:
  assumes "resolve_body env self item other_key other_hash wins db = Inr ((applied, effs), db')"
  shows "set_aside db' = set_aside db"
  using assms unfolding resolve_body_def
  by (auto simp: Let_def split: if_splits elim!: and_then_InrE simp del: not_None_eq
      dest!: delete_present_same write_row_same same_registry_aside)

lemma resolve_duplicate_aside:
  assumes "resolve_duplicate env pr self item other_key db = ((applied, effs), db')"
  shows "set_aside db' = set_aside db"
proof -
  let ?body = "resolve_body env self item other_key (compute_pk_hash pr other_key)
    (incoming_wins env item other_key (compute_pk_hash pr other_key) db)"
  obtain q db2 where tx: "apply_tx env ?body 50 db = (q, db2)" by (cases "apply_tx env ?body 50 db")
  from tx show ?thesis
  proof (cases rule: apply_tx_cases)
    case (rolled_back e)
    with assms tx show ?thesis by (auto simp: resolve_duplicate_def Let_def)
  next
    case (committed a db1)
    obtain ok effs' where a: "a = (ok, effs')" by (cases a)
    with assms tx committed have "db' = db1\<lparr>tick := tick db + 1\<rparr>"
      by (auto simp: resolve_duplicate_def Let_def)
    with resolve_body_aside [OF committed(2) [unfolded a]] show ?thesis by simp
  qed
qed

section \<open>Nothing is set aside before the last pass\<close>

definition undecided :: "(row_id \<times> deferred_entry) list \<Rightarrow> progress \<Rightarrow> bool" where
  "undecided sa pg \<longleftrightarrow> set_aside (pg_db pg) = sa \<and> D \<notin> snd ` set (pg_results pg)"

lemma undecided_result: "undecided sa pg \<Longrightarrow> r \<noteq> D \<Longrightarrow> undecided sa (add_result w r pg)"
  using set_al_put [of w r "pg_results pg"] by (force simp: undecided_def add_result_def)

lemma undecided_more [simp]:
  "undecided sa (add_effect ef pg) = undecided sa pg" "undecided sa (add_colliding i ix ot pg) = undecided sa pg"
  "undecided sa (add_waiting i why de pg) = undecided sa pg" "undecided sa (pg\<lparr>pg_effects := l\<rparr>) = undecided sa pg"
  "undecided sa (pg\<lparr>pg_waiting := ws\<rparr>) = undecided sa pg"
  by (simp_all add: undecided_def add_effect_def add_colliding_def add_waiting_def split: option.splits)

lemma undecided_db: "undecided sa pg \<Longrightarrow> set_aside db' = set_aside (pg_db pg) \<Longrightarrow> undecided sa (pg\<lparr>pg_db := db'\<rparr>)"
  by (simp add: undecided_def)

lemma undecided_attempt:
  assumes "undecided sa pg" "attempt env item (pg_db pg) = ((out, ef), db')"
  shows "undecided sa (pg\<lparr>pg_db := db'\<rparr>)"
  using assms attempt_aside by (blast intro: undecided_db)

lemma first_try_undecided: "undecided sa pg \<Longrightarrow> undecided sa (first_try env item pg)"
proof -
  assume pg: "undecided sa pg"
  obtain out ef db' where att: "attempt env item (pg_db pg) = ((out, ef), db')" by (metis prod.collapse)
  from undecided_attempt [OF pg att] show ?thesis
    by (cases out) (simp_all add: first_try_def att undecided_result)
qed

lemma second_try_undecided: "undecided sa pg \<Longrightarrow> undecided sa (second_try env entry pg)"
proof (cases "wt_reason entry \<noteq> WaitParent \<and> wt_reason entry \<noteq> WaitRace")
  case False
  assume pg: "undecided sa pg"
  obtain out ef db' where att: "attempt env (wt_item entry) (pg_db pg) = ((out, ef), db')" by (metis prod.collapse)
  have "undecided sa (pg\<lparr>pg_db := db', pg_waiting := ws\<rparr>)" for ws
    using undecided_attempt [OF pg att] by (simp add: undecided_def)
  with undecided_attempt [OF pg att] False show ?thesis
    by (cases out) (auto simp: second_try_def att undecided_result Let_def)
qed (simp add: second_try_def)

lemma try_group_undecided:
  assumes "undecided sa pg" "try_group cx gs pg = (grouped, pg')"
  shows "undecided sa pg'"
proof (cases "gs_closed gs \<and> 1 < length (gs_group gs)")
  case True
  obtain applied effs db2 where run: "apply_group (cx_env cx) (cx_rnd cx) (gs_group gs) (pg_db pg) = ((applied, effs), db2)"
    by (metis prod.collapse)
  have 1: "undecided sa (pg\<lparr>pg_db := db2\<rparr>)" using assms(1) apply_group_aside [OF run] by (rule undecided_db)
  then have "undecided sa (fold (\<lambda>m. add_result (wid m) A) (gs_group gs) (pg\<lparr>pg_db := db2\<rparr>))"
    by (rule fold_invariant) (simp add: undecided_result)
  with 1 True assms(2) run show ?thesis by (auto simp: try_group_def)
qed (use assms in \<open>auto simp: try_group_def\<close>)

lemma try_resolve_undecided: "undecided sa pg \<Longrightarrow> undecided sa (try_resolve cx item blocker pg)"
proof -
  assume pg: "undecided sa pg"
  obtain applied effs db2 where
    run: "resolve_duplicate (cx_env cx) (cx_pr cx) (cx_self cx) item (snd blocker) (pg_db pg) = ((applied, effs), db2)"
    by (metis prod.collapse)
  have "undecided sa (pg\<lparr>pg_db := db2\<rparr>)" using pg resolve_duplicate_aside [OF run] by (rule undecided_db)
  with pg run show ?thesis by (simp add: try_resolve_def Let_def undecided_result)
qed

lemma colliding_step_undecided:
  assumes "undecided sa (snd acc)"
  shows "undecided sa (snd (colliding_step cx pending entry acc))"
proof -
  obtain handled pg where acc: "acc = (handled, pg)" by (cases acc)
  show ?thesis
  proof (cases "wid (co_item entry) \<in> set handled")
    case False
    obtain out ef db' where att: "attempt (cx_env cx) (co_item entry) (pg_db pg) = ((out, ef), db')"
      by (metis prod.collapse)
    have 1: "undecided sa (pg\<lparr>pg_db := db'\<rparr>)" using undecided_attempt [OF _ att] assms acc by simp
    show ?thesis
    proof (cases out)
      case (Conflict ix other)
      define gs where "gs = collect_group (cx_env cx) (cx_pr cx) pending handled db' (co_item entry) ix other"
      obtain grouped pg2 where tg: "try_group cx gs (pg\<lparr>pg_db := db'\<rparr>) = (grouped, pg2)" by fastforce
      from try_group_undecided [OF 1 tg] have "undecided sa pg2" .
      with False att Conflict tg acc show ?thesis
        by (simp add: colliding_step_def gs_def [symmetric] try_resolve_undecided Let_def)
    qed (use False att 1 acc in \<open>simp_all add: colliding_step_def undecided_result Let_def\<close>)
  qed (use assms acc in \<open>simp add: colliding_step_def\<close>)
qed

lemma colliding_pass_undecided: "undecided sa pg \<Longrightarrow> undecided sa (colliding_pass cx pg)"
  unfolding colliding_pass_def
  by (rule fold_invariant [where P = "\<lambda>a. undecided sa (snd a)"]) (simp_all add: colliding_step_undecided)

section \<open>What is answered D has been saved\<close>

lemma set_aside_as_cong: "set_aside db' = set_aside db \<Longrightarrow> set_aside_as db' = set_aside_as db"
  by (simp add: set_aside_as_def fun_eq_iff)

lemma set_aside_as_iff:
  "set_aside_as db rid v \<longleftrightarrow> (\<exists>e. map_of (set_aside db) rid = Some e \<and> \<not> compare_versions v (de_version e) > 0)"
  by (auto simp: set_aside_as_def is_newer_def split: option.splits)

lemma older_trans:
  "\<not> compare_versions u v > 0 \<Longrightarrow> \<not> compare_versions v w > 0 \<Longrightarrow> \<not> compare_versions u w > 0"
  using not_newer_trans [of u v w] lww.newer_total [of v w] by auto

lemma save_deferred_saves: "set_aside_as (save_deferred now item why detail db) (row_id_of item) (w_version item)"
  by (auto simp: save_deferred_def set_aside_as_def is_newer_def compare_versions_def Let_def split: option.splits)

lemma save_deferred_keeps:
  assumes "set_aside_as db rid v"
  shows "set_aside_as (save_deferred now item why detail db) rid v"
proof -
  from assms obtain e where e: "map_of (set_aside db) rid = Some e" "\<not> compare_versions v (de_version e) > 0"
    by (auto simp: set_aside_as_iff)
  consider "save_deferred now item why detail db = db" | "rid \<noteq> row_id_of item"
    | "rid = row_id_of item" "compare_versions (w_version item) (de_version e) > 0 \<or> de_version e = w_version item"
    using e(1) by (cases "rid = row_id_of item";
        cases "compare_versions (w_version item) (de_version e) > 0 \<or> de_version e = w_version item")
      (simp_all add: save_deferred_def is_newer_def Let_def)
  then show ?thesis
  proof cases
    case 2
    with e show ?thesis by (auto simp: save_deferred_def set_aside_as_iff Let_def)
  next
    case 3
    then have "\<not> compare_versions v (w_version item) > 0" using e(2) not_newer_trans by metis
    moreover obtain e' where "map_of (set_aside (save_deferred now item why detail db)) rid = Some e'"
      "\<not> compare_versions (w_version item) (de_version e') > 0"
      using save_deferred_saves [of now item why detail db] 3(1) by (auto simp: set_aside_as_iff)
    ultimately show ?thesis unfolding set_aside_as_iff using older_trans by blast
  qed (simp add: assms)
qed

definition held_back :: "work_item list \<Rightarrow> (nat \<times> item_result) list \<Rightarrow> node_db \<Rightarrow> bool" where
  "held_back items results db \<longleftrightarrow>
     (\<forall>i \<in> set items. (wid i, D) \<in> set results \<longrightarrow> set_aside_as db (row_id_of i) (w_version i))"

lemma held_back_put:
  assumes "held_back items res db" "item \<in> set items" "distinct (map wid items)"
    and "r = D \<Longrightarrow> set_aside_as db (row_id_of item) (w_version item)"
  shows "held_back items (al_put (wid item) r res) db"
  unfolding held_back_def
proof (intro ballI impI)
  fix i
  assume i: "i \<in> set items" "(wid i, D) \<in> set (al_put (wid item) r res)"
  with set_al_put [of "wid item" r res] consider "wid i = wid item" "r = D" | "(wid i, D) \<in> set res" by auto
  then show "set_aside_as db (row_id_of i) (w_version i)"
  proof cases
    case 1
    with i assms(2, 3) have "i = item" by (auto simp: distinct_map dest: inj_onD)
    with 1 assms(4) show ?thesis by simp
  qed (use i assms(1) in \<open>simp add: held_back_def\<close>)
qed

lemma waiting_step_aside:
  assumes "held_back items (pg_results pg) (pg_db pg)" "wt_item entry \<in> set items" "distinct (map wid items)"
  shows "held_back items (pg_results (waiting_step cx entry pg)) (pg_db (waiting_step cx entry pg))"
    and "set_aside_as (pg_db pg) rid v \<Longrightarrow> set_aside_as (pg_db (waiting_step cx entry pg)) rid v"
proof -
  let ?saved = "save_deferred (cx_now cx) (wt_item entry) (reason_text (wt_reason entry)) (wt_detail entry) (pg_db pg)"
  have "held_back items (pg_results pg) ?saved"
    using assms(1) save_deferred_keeps by (simp add: held_back_def)
  then have "held_back items (al_put (wid (wt_item entry)) D (pg_results pg)) ?saved"
    using assms(2, 3) save_deferred_saves by (rule held_back_put)
  moreover have "held_back items (al_put (wid (wt_item entry)) S (pg_results pg)) (pg_db pg)"
    using assms by (rule held_back_put) simp
  ultimately show "held_back items (pg_results (waiting_step cx entry pg)) (pg_db (waiting_step cx entry pg))"
    by (simp add: waiting_step_def add_result_def Let_def)
  show "set_aside_as (pg_db pg) rid v \<Longrightarrow> set_aside_as (pg_db (waiting_step cx entry pg)) rid v"
    by (simp add: waiting_step_def Let_def save_deferred_keeps)
qed

text \<open>The careful path up to its last pass.\<close>

lemma careful_path_parts:
  assumes "distinct (map wid items)"
  obtains pg where "careful_path cx items db = fold (waiting_step cx) (pg_waiting pg) pg"
    "progress_ok items db pg" "undecided (set_aside db) pg"
proof -
  let ?pg0 = "\<lparr>pg_results = [], pg_effects = [], pg_colliding = [], pg_waiting = [], pg_db = db\<rparr>"
  define pg1 where "pg1 = fold (first_try (cx_env cx)) items ?pg0"
  define pg2 where "pg2 = fold (second_try (cx_env cx)) (pg_waiting pg1) pg1"
  have 0: "progress_ok items db ?pg0" "undecided (set_aside db) ?pg0"
    by (simp_all add: progress_ok_def results_true_def undecided_def)
  have 1: "progress_ok items db pg1"
    unfolding pg1_def by (rule progress_fold [OF 0(1)]) (rule first_try_ok [OF _ _ assms])
  have 2: "progress_ok items db pg2"
    unfolding pg2_def using 1 by (intro progress_fold [OF 1] second_try_ok [OF _ _ assms]) (auto simp: progress_ok_def)
  have u1: "undecided (set_aside db) pg1"
    unfolding pg1_def using 0(2) by (rule fold_invariant) (rule first_try_undecided)
  have "undecided (set_aside db) pg2"
    unfolding pg2_def using u1 by (rule fold_invariant) (rule second_try_undecided)
  then have "undecided (set_aside db) (colliding_pass cx pg2)" by (rule colliding_pass_undecided)
  moreover have "careful_path cx items db = fold (waiting_step cx) (pg_waiting (colliding_pass cx pg2)) (colliding_pass cx pg2)"
    by (simp add: careful_path_def pg1_def pg2_def Let_def)
  ultimately show thesis using that colliding_pass_ok [OF 2 assms] by blast
qed

lemma careful_path_aside:
  assumes "distinct (map wid items)"
  shows "held_back items (pg_results (careful_path cx items db)) (pg_db (careful_path cx items db))"
    and "set_aside_as db rid v \<Longrightarrow> set_aside_as (pg_db (careful_path cx items db)) rid v"
proof -
  let ?P = "\<lambda>p :: progress. held_back items (pg_results p) (pg_db p) \<and> (set_aside_as db rid v \<longrightarrow> set_aside_as (pg_db p) rid v)"
  from assms obtain pg where pg: "careful_path cx items db = fold (waiting_step cx) (pg_waiting pg) pg"
    "progress_ok items db pg" "undecided (set_aside db) pg" by (rule careful_path_parts)
  have "?P pg" using pg(3) set_aside_as_cong [of "pg_db pg" db] by (force simp: undecided_def held_back_def)
  then have "?P (fold (waiting_step cx) (pg_waiting pg) pg)"
  proof (rule fold_invariant)
    fix w p assume "w \<in> set (pg_waiting pg)" "?P p"
    moreover then have "wt_item w \<in> set items" using pg(2) by (auto simp: progress_ok_def)
    ultimately show "?P (waiting_step cx w p)" using waiting_step_aside assms by blast
  qed
  then show "held_back items (pg_results (careful_path cx items db)) (pg_db (careful_path cx items db))"
    "set_aside_as db rid v \<Longrightarrow> set_aside_as (pg_db (careful_path cx items db)) rid v"
    by (simp_all add: pg(1))
qed

section \<open>What is cleared has been settled\<close>

lemma clear_deferred_aside:
  assumes "set_aside_as db rid v" "\<not> set_aside_as (clear_deferred i db) rid v"
  shows "row_id_of i = rid \<and> version v \<le> version (w_version i)"
proof -
  have kept: "map_of (filter P xs) k = Some e" if "map_of xs k = Some e" "P (k, e)"
    for P and xs :: "('k \<times> 'v) list" and k e
    using that by (induction xs) (auto split: if_splits)
  from assms(1) obtain e where e: "map_of (set_aside db) rid = Some e" "\<not> compare_versions v (de_version e) > 0"
    by (auto simp: set_aside_as_iff)
  with assms(2) kept [OF e(1), of "\<lambda>(r, e). \<not> (r = row_id_of i \<and> version (de_version e) \<le> version (w_version i))"]
  have "rid = row_id_of i \<and> version (de_version e) \<le> version (w_version i)"
    by (auto simp: set_aside_as_iff clear_deferred_def)
  with e(2) show ?thesis by (auto simp: compare_versions_pos)
qed

text \<open>A change set aside stays there, or a settled change of its row and at least its number is held.\<close>

definition aside_or_settled :: "work_item list \<Rightarrow> node_db \<Rightarrow> row_id \<Rightarrow> row_version \<Rightarrow> bool" where
  "aside_or_settled items db rid v \<longleftrightarrow> set_aside_as db rid v \<or>
     (\<exists>i \<in> set items. row_id_of i = rid \<and> version v \<le> version (w_version i) \<and> holds db rid (w_version i))"

lemma clear_settled_aside:
  assumes "set_aside_as db rid v" "results_true items results db" "\<forall>i \<in> set items. w_deferral i = None"
  shows "aside_or_settled items (clear_settled items results db) rid v"
proof -
  have reg: "holds (clear_deferred i d) = holds d" for i d
    by (simp add: clear_deferred_def holds_def local_version_def fun_eq_iff)
  have "aside_or_settled items (clear_settled items results db) rid v \<and> holds (clear_settled items results db) = holds db"
    unfolding clear_settled_def
  proof (rule fold_invariant)
    show "aside_or_settled items db rid v \<and> holds db = holds db" using assms(1) by (simp add: aside_or_settled_def)
  next
    fix x d
    assume x: "x \<in> set results" and d: "aside_or_settled items d rid v \<and> holds d = holds db"
    let ?d' = "(\<lambda>(w, r) d. if r = A \<or> r = S
      then (case find (\<lambda>i. wid i = w) items of None \<Rightarrow> d | Some i \<Rightarrow> clear_deferred i d) else d) x d"
    obtain w r where wr: "x = (w, r)" by (cases x)
    consider "?d' = d" | i where "find (\<lambda>i. wid i = w) items = Some i" "r = A \<or> r = S" "?d' = clear_deferred i d"
      by (cases "(r = A \<or> r = S) \<and> find (\<lambda>i. wid i = w) items \<noteq> None") (auto simp: wr split: option.splits)
    then show "aside_or_settled items ?d' rid v \<and> holds ?d' = holds db"
    proof cases
      case (2 i)
      from find_SomeD [OF 2(1)] have i: "i \<in> set items" "wid i = w" by simp_all
      with 2(2) x wr assms(2, 3) have held: "holds db (row_id_of i) (w_version i)"
        by (force simp: results_true_def answer_true_def)
      have "aside_or_settled items (clear_deferred i d) rid v"
        using d clear_deferred_aside [of d rid v i] held i(1) unfolding aside_or_settled_def reg by metis
      with d 2(3) reg show ?thesis by simp
    qed (use d in simp)
  qed
  then show ?thesis by simp
qed

section \<open>A whole push\<close>

lemma careful_end_aside:
  fixes items :: "work_item list"
  assumes distinct: "distinct (map wid items)" and new: "\<forall>i \<in> set items. w_deferral i = None"
    and pg: "pg = careful_path cx (process_order items) db"
    and db': "db' = pg_db pg \<or> db' = clear_settled items (pg_results pg) (pg_db pg)"
  shows "(\<forall>i \<in> set items. (wid i, D) \<in> set (pg_results pg) \<longrightarrow> aside_or_settled items db' (row_id_of i) (w_version i)) \<and>
    (set_aside_as db rid v \<longrightarrow> aside_or_settled items db' rid v)"
proof -
  have d: "distinct (map wid (process_order items))" using distinct by (simp add: distinct_process_order)
  have true: "results_true items (pg_results pg) (pg_db pg)"
    using careful_path_ok [OF d, of db cx] by (simp add: pg progress_ok_def results_true_def)
  have kept: "aside_or_settled items db' r w" if "set_aside_as (pg_db pg) r w" for r w
    using db' clear_settled_aside [OF that true new] that by (auto simp: aside_or_settled_def)
  from careful_path_aside [OF d, where cx = cx and db = db] kept show ?thesis by (simp add: held_back_def pg)
qed

lemma process_items_aside:
  fixes items :: "work_item list"
  assumes run: "process_items cx items db = (Inr (results, effs), db')" and distinct: "distinct (map wid items)"
    and new: "\<forall>i \<in> set items. w_deferral i = None"
  shows "(\<forall>i \<in> set items. (wid i, D) \<in> set results \<longrightarrow> aside_or_settled items db' (row_id_of i) (w_version i)) \<and>
    (set_aside_as db rid v \<longrightarrow> aside_or_settled items db' rid v)"
proof (cases "process_order items \<noteq> [] \<and> \<not> list_ex (\<lambda>i. w_deferral i \<noteq> None) (process_order items)")
  case False
  let ?pg = "careful_path cx (process_order items) db"
  from False run have "results = pg_results ?pg" "db' = pg_db ?pg \<or> db' = clear_settled items (pg_results ?pg) (pg_db ?pg)"
    by (auto simp: process_items_def Let_def split: if_splits)
  with careful_end_aside [OF distinct new refl this(2)] show ?thesis by simp
next
  case True
  obtain r db1 where pkg: "apply_package (cx_env cx) (process_order items) db = (r, db1)" by (metis prod.collapse)
  have aside: "set_aside_as db1 = set_aside_as db" using apply_package_aside [OF pkg] by (rule set_aside_as_cong)
  from pkg show ?thesis
  proof (cases rule: apply_package_cases)
    case (untouched n)
    then have "r = Inr None" using True run pkg by (auto simp: process_items_def Let_def split: sum.splits option.splits)
    let ?pg = "careful_path cx (process_order items) db1"
    from \<open>r = Inr None\<close> True run pkg have "results = pg_results ?pg"
      "db' = pg_db ?pg \<or> db' = clear_settled items (pg_results ?pg) (pg_db ?pg)"
      by (auto simp: process_items_def Let_def split: if_splits)
    with careful_end_aside [OF distinct new refl this(2), of rid v] show ?thesis unfolding aside by simp
  next
    case (complete ex res effs' n dbn)
    note ok = package_items_ok [OF complete(2)]
    have d: "distinct (map wid (process_order items))" using distinct by (simp add: distinct_process_order)
    from ok d have "results_true items res dbn" by (fastforce simp: results_true_def answer_true_def)
    then have true: "results_true items res db1" unfolding complete(3) by (rule results_true_mono) simp
    from True run pkg complete(1) have res: "results = res" "db' = db1 \<or> db' = clear_settled items res db1"
      by (auto simp: process_items_def Let_def split: if_splits)
    have "(w, D) \<notin> set results" for w using ok res(1) by force
    moreover have "aside_or_settled items db' rid v" if "set_aside_as db rid v"
      using res(2)
    proof
      assume "db' = db1"
      with that show ?thesis by (simp add: aside aside_or_settled_def)
    qed (use clear_settled_aside [OF _ true new] that in \<open>simp add: aside\<close>)
    ultimately show ?thesis by simp
  qed
qed

lemma process_items_failed:
  assumes "process_items cx items db = (Inl err, db')"
  shows "set_aside db' = set_aside db"
proof -
  obtain q db1 where pkg: "apply_package (cx_env cx) (process_order items) db = (q, db1)" by (metis prod.collapse)
  with assms have "db' = db1" by (auto simp: process_items_def Let_def split: if_splits sum.splits option.splits)
  with apply_package_aside [OF pkg] show ?thesis by simp
qed

text \<open>The rows of a push are those its items name.\<close>

lemma length_pushed_rows: "length (pushed_rows bs) = length (concat (map wb_items bs))"
  by (simp add: pushed_rows_def length_concat comp_def)

lemma length_push_entries: "length (push_entries cx bs) = length (concat (map wb_items bs))"
  by (simp add: push_entries_def Let_def length_concat comp_def)

lemma push_entries_rows:
  assumes "n < length (push_entries cx bs)" "push_entries cx bs ! n = (Some t, cols, w)"
  shows "pushed_rows bs ! n = ((tname t, wi_h w), \<lparr>version = wi_v w, origin = wi_o w\<rparr>)"
proof -
  have "(push_entries cx bs ! n, pushed_rows bs ! n) \<in> set (zip (push_entries cx bs) (pushed_rows bs))"
    using assms(1) length_pushed_rows [of bs] by (auto simp: set_zip push_entries_def Let_def length_concat comp_def)
  moreover have "set (zip (push_entries cx bs) (pushed_rows bs)) \<subseteq>
      {((ti, cols, w), ((b, wi_h w), \<lparr>version = wi_v w, origin = wi_o w\<rparr>)) | ti cols w b.
        \<forall>t. ti = Some t \<longrightarrow> tname t = b}"
  proof (induction bs)
    case (Cons b bs)
    have "zip (push_entries cx (b # bs)) (pushed_rows (b # bs)) =
        zip (push_entries cx [b]) (pushed_rows [b]) @ zip (push_entries cx bs) (pushed_rows bs)"
      by (simp add: push_entries_def pushed_rows_def Let_def)
    moreover have "set (zip (push_entries cx [b]) (pushed_rows [b])) \<subseteq>
      {((ti, cols, w), ((c, wi_h w), \<lparr>version = wi_v w, origin = wi_o w\<rparr>)) | ti cols w c.
        \<forall>t. ti = Some t \<longrightarrow> tname t = c}"
      by (auto simp: push_entries_def pushed_rows_def Let_def set_zip dest: find_table_name split: option.splits)
    ultimately show ?case using Cons.IH by simp
  qed (simp add: push_entries_def)
  ultimately show ?thesis using assms(2) by auto
qed

lemma push_item_row:
  assumes "i \<in> set (build_slots cx peer 0 (push_entries cx bs))"
  shows "wid i < length (push_entries cx bs)" "pushed_rows bs ! wid i = (row_id_of i, w_version i)"
proof -
  from build_slots_items [OF assms] obtain t cols w where i: "wid i < length (push_entries cx bs)"
    "push_entries cx bs ! wid i = (Some t, cols, w)" "row_id_of i = (tname t, wi_h w)"
    "w_version i = \<lparr>version = wi_v w, origin = wi_o w\<rparr>" by auto
  with push_entries_rows [OF i(1, 2)] show "wid i < length (push_entries cx bs)"
    "pushed_rows bs ! wid i = (row_id_of i, w_version i)" by simp_all
qed

text \<open>A change is set aside, or a pushed change of its row with at least its number is held.\<close>

definition aside_or_pushed :: "wire_batch list \<Rightarrow> node_db \<Rightarrow> row_id \<Rightarrow> row_version \<Rightarrow> bool" where
  "aside_or_pushed bs db rid v \<longleftrightarrow> set_aside_as db rid v \<or>
     (\<exists>w. (rid, w) \<in> set (pushed_rows bs) \<and> version v \<le> version w \<and> holds db rid w)"

lemma aside_or_settled_pushed:
  "aside_or_settled (build_slots cx peer 0 (push_entries cx bs)) db rid v \<Longrightarrow> aside_or_pushed bs db rid v"
  using push_item_row length_pushed_rows [of bs] length_push_entries [of cx bs]
  unfolding aside_or_settled_def aside_or_pushed_def by (metis nth_mem)

lemma apply_push_aside:
  assumes "apply_push cx peer bs db = (Inr (slots, applied), db')"
  shows "n < length slots \<Longrightarrow> slots ! n = D \<Longrightarrow> case_prod (aside_or_pushed bs db') (pushed_rows bs ! n)"
    and "set_aside_as db rid v \<Longrightarrow> aside_or_pushed bs db' rid v"
proof -
  let ?entries = "push_entries cx bs"
  let ?items = "build_slots cx peer 0 ?entries"
  from assms obtain results effs where run: "process_items cx ?items db = (Inr (results, effs), db')"
    and slots: "slots = fill_slots ?items results (replicate (length ?entries) R)"
    by (auto simp: apply_push_def Let_def split: sum.splits prod.splits)
  have new: "\<forall>i \<in> set ?items. w_deferral i = None" using build_slots_items by blast
  note ok = process_items_aside [OF run build_slots_distinct new]
  from ok aside_or_settled_pushed show "set_aside_as db rid v \<Longrightarrow> aside_or_pushed bs db' rid v" by blast
  assume n: "n < length slots" "slots ! n = D"
  have slot: "\<forall>i \<in> set ?items. w_slot i = Some (wid i)" using build_slots_items by blast
  from fill_slots_nth [OF slot, of n "replicate (length ?entries) R" results] n
  obtain i where i: "(n, D) \<in> set results" "i \<in> set ?items" "wid i = n" by (auto simp: slots)
  with ok have "aside_or_settled ?items db' (row_id_of i) (w_version i)" by blast
  then show "case_prod (aside_or_pushed bs db') (pushed_rows bs ! n)"
    using push_item_row(2) [OF i(2)] i(3) aside_or_settled_pushed by simp
qed

lemma apply_push_failed:
  "apply_push cx peer bs db = (Inl err, db') \<Longrightarrow> set_aside db' = set_aside db"
  by (auto simp: apply_push_def Let_def split: sum.splits prod.splits intro: process_items_failed)

end
