(* ===== verification/Replicator_Facts.thy ===== *)
theory Replicator_Facts
  imports Receiver Aside_Facts
begin

text \<open>
  The lemmas of the replicator. First the pure parts: chunks, batches and what a package of answers comes
  to. Then the two contracts a sender relies on, as locales: \<open>peer_contract\<close>, what the calls of the other
  node promise about rows, and \<open>feed_world\<close>, what the rest of the node does to the registry while a call is
  under way. Both are interpreted on the model of the receiving node.
\<close>

section \<open>Chunks\<close>

lemma concat_chunks_of [simp]: "concat (chunks_of n xs) = xs"
proof (induction n xs rule: chunks_of.induct)
  case (2 n x xs)
  then show ?case by (simp del: append_take_drop_id) (metis append_take_drop_id)
qed simp

lemma chunks_of_length: "c \<in> set (chunks_of n xs) \<Longrightarrow> length c \<le> Suc (n - 1) \<and> c \<noteq> []"
  by (induction n xs rule: chunks_of.induct) auto

lemma fill_chunk_size:
  "fill_chunk limit sz os = (c, rest) \<Longrightarrow> sz \<le> limit \<or> c = [] \<Longrightarrow>
     c = [] \<or> sz + sum_list (map og_size c) \<le> limit"
proof (induction limit sz os arbitrary: c rest rule: fill_chunk.induct)
  case (2 limit sz o1 os)
  then show ?case by (cases "fill_chunk limit (sz + og_size o1) os") (fastforce split: if_splits)
qed simp

lemma concat_pack_chunks [simp]: "concat (pack_chunks limit os) = os"
  by (induction limit os rule: pack_chunks.induct) (auto dest: fill_chunk_append split: prod.splits)

lemma pack_chunks_nonempty: "c \<in> set (pack_chunks limit os) \<Longrightarrow> c \<noteq> []"
  by (induction limit os rule: pack_chunks.induct) (auto split: prod.splits)

lemma pack_chunks_size:
  "c \<in> set (pack_chunks limit os) \<Longrightarrow> length c = 1 \<or> sum_list (map og_size c) \<le> limit"
proof (induction limit os rule: pack_chunks.induct)
  case (2 limit o1 os)
  obtain d rest where d: "fill_chunk limit (og_size o1) os = (d, rest)" by (cases "fill_chunk limit (og_size o1) os")
  from 2(2) d consider "c = o1 # d" | "c \<in> set (pack_chunks limit rest)" by auto
  then show ?case
  proof cases
    case 1
    have "d = [] \<or> og_size o1 \<le> limit" using d by (cases os) (auto split: if_splits)
    with 1 fill_chunk_size [OF d] show ?thesis by auto
  next
    case 2
    with "2.IH" d show ?thesis by simp
  qed
qed simp

section \<open>Batches\<close>

lemma add_to_batches_items:
  "concat (map wb_items (add_to_batches og bs)) = concat (map wb_items bs) @ [og_item og]"
  by (induction og bs rule: add_to_batches.induct) auto

lemma group_batches_items: "concat (map wb_items (group_batches chunk)) = map og_item chunk"
proof -
  have "concat (map wb_items (fold add_to_batches chunk bs)) = concat (map wb_items bs) @ map og_item chunk" for bs
    by (induction chunk arbitrary: bs) (simp_all add: add_to_batches_items)
  then show ?thesis by (simp add: group_batches_def)
qed

definition row_of :: "outgoing \<Rightarrow> row_id \<times> row_version" where
  "row_of og = ((tname (en_table (og_entry og)), wi_h (og_item og)),
     \<lparr>version = wi_v (og_item og), origin = wi_o (og_item og)\<rparr>)"

lemma pushed_rows_append [simp]: "pushed_rows (bs @ cs) = pushed_rows bs @ pushed_rows cs"
  by (simp add: pushed_rows_def)

lemma pushed_rows_Cons: "pushed_rows (b # bs) = pushed_rows [b] @ pushed_rows bs"
  by (simp add: pushed_rows_def)

lemma add_to_batches_rows: "pushed_rows (add_to_batches og bs) = pushed_rows bs @ [row_of og]"
  by (induction og bs rule: add_to_batches.induct) (auto simp: pushed_rows_def row_of_def)

lemma group_batches_rows: "pushed_rows (group_batches chunk) = map row_of chunk"
proof -
  have "pushed_rows (fold add_to_batches chunk bs) = pushed_rows bs @ map row_of chunk" for bs
    by (induction chunk arbitrary: bs) (simp_all add: add_to_batches_rows)
  from this [of "[]"] show ?thesis by (simp add: group_batches_def pushed_rows_def)
qed

section \<open>Every entry is accounted for\<close>

lemma split_wanted_mset:
  "image_mset snd (mset (fst (split_wanted want chunk))) + mset (snd (split_wanted want chunk)) = image_mset snd (mset chunk)"
proof -
  have "mset (map (snd \<circ> snd) (filter P xs)) + mset (map (snd \<circ> snd) (filter (\<lambda>x. \<not> P x) xs)) = mset (map (snd \<circ> snd) xs)"
    for P and xs :: "(nat \<times> nat \<times> entry) list"
    by (induction xs) auto
  from this [of "\<lambda>(i, e). int i \<in> set want" "enumerate 0 chunk"] show ?thesis
    by (simp add: split_wanted_def case_prod_unfold multiset.map_comp flip: map_map)
qed

lemma offer_chunks_mset:
  "offer_chunks env chunks l = (Inr (wanted, declined), l') \<Longrightarrow>
     image_mset snd (mset wanted) + mset declined = image_mset snd (mset (concat chunks))"
proof (induction chunks arbitrary: l wanted declined)
  case (Cons c cs)
  then obtain want w d l1 where rest: "offer_chunks env cs l1 = (Inr (w, d), l')"
    and eq: "wanted = fst (split_wanted want c) @ w" "declined = snd (split_wanted want c) @ d"
    by (auto elim!: op_bind_InrE)
  have "image_mset snd (mset wanted) + mset declined =
      (image_mset snd (mset (fst (split_wanted want c))) + mset (snd (split_wanted want c))) +
      (image_mset snd (mset w) + mset d)"
    by (simp add: eq ac_simps)
  then show ?case by (simp only: Cons.IH [OF rest] split_wanted_mset) simp
qed simp

lemma to_send_mset:
  "mset (to_send entries wanted) =
     mset (filter (\<lambda>e. \<not> en_offer_first e) entries) + image_mset snd (mset wanted)"
proof -
  have "map snd (filter (\<lambda>(i, e). \<not> en_offer_first e) (enumerate n entries)) = filter (\<lambda>e. \<not> en_offer_first e) entries" for n
    by (induction entries arbitrary: n) auto
  then have "image_mset snd (mset (filter (\<lambda>(i, e). \<not> en_offer_first e) (enumerate 0 entries))) =
      mset (filter (\<lambda>e. \<not> en_offer_first e) entries)"
    by (metis mset_map)
  then show ?thesis by (simp add: to_send_def)
qed

lemma offer_entries_mset:
  assumes "offer_entries env entries l = (Inr (wanted, declined), l')"
  shows "image_mset snd (mset wanted) + mset declined = mset (filter en_offer_first entries)"
proof -
  have "map snd (filter (\<lambda>(i, e). en_offer_first e) (enumerate n entries)) = filter en_offer_first entries" for n
    by (induction entries arbitrary: n) auto
  then have "image_mset snd (mset (filter (\<lambda>(i, e). en_offer_first e) (enumerate 0 entries))) =
      mset (filter en_offer_first entries)"
    by (metis mset_map)
  with offer_chunks_mset [OF assms [unfolded offer_entries_def]] show ?thesis by simp
qed

definition outgoing_ok :: "outgoing \<Rightarrow> bool" where
  "outgoing_ok og \<longleftrightarrow> row_of og = ((tname (en_table (og_entry og)), en_hash (og_entry og)), en_version (og_entry og))"

text \<open>One entry is sent, found gone, or left for another time.\<close>

lemma sort_out_ConsE:
  assumes "sort_out env ((e, row) # rest) so l = (Inr so', l')"
  obtains (sent) og where "og_entry og = e" "outgoing_ok og"
    "sort_out env rest (so\<lparr>so_outgoing := so_outgoing so @ [og]\<rparr>) l = (Inr so', l')"
  | (gone) l1 where "\<not> en_deleted e" "row = None" "record_implicit_deletion env e l = (Inr (), l1)"
    "sort_out env rest (so\<lparr>so_settled := so_settled so @ [e]\<rparr>) l1 = (Inr so', l')"
  | (left) "sort_out env rest (so\<lparr>so_unsettled := so_unsettled so @ [e]\<rparr>) l = (Inr so', l')"
proof (cases "en_deleted e")
  case True
  with assms sent [of "\<lparr>og_entry = e, og_item = item_of e None, og_size = 200\<rparr>"] show ?thesis
    by (simp add: outgoing_ok_def row_of_def item_of_def)
next
  case False
  show ?thesis
  proof (cases row)
    case None
    with assms False gone show ?thesis by (auto elim!: op_bind_InrE)
  next
    case (Some vs)
    show ?thesis
    proof (cases "encode_entry env e vs")
      case None
      with assms False Some left show ?thesis by simp
    next
      case (Some og)
      then have "og_entry og = e" "outgoing_ok og"
        by (auto simp: encode_entry_def outgoing_ok_def row_of_def item_of_def Let_def split: sum.splits if_splits)
      with assms False \<open>row = Some vs\<close> Some sent show ?thesis by simp
    qed
  qed
qed

lemma sort_out_mset:
  "sort_out env rest so l = (Inr so', l') \<Longrightarrow>
     mset (so_settled so') + mset (so_unsettled so') + image_mset og_entry (mset (so_outgoing so')) =
     mset (so_settled so) + mset (so_unsettled so) + image_mset og_entry (mset (so_outgoing so)) + mset (map fst rest)"
proof (induction rest arbitrary: so l)
  case (Cons er rest)
  obtain e row where er: "er = (e, row)" by (cases er)
  from Cons.prems [unfolded er] show ?case
    by (cases rule: sort_out_ConsE) (use Cons.IH in \<open>force simp: er\<close>)+
qed simp

lemma sort_out_outgoing_ok:
  "sort_out env rest so l = (Inr so', l') \<Longrightarrow> \<forall>og \<in> set (so_outgoing so). outgoing_ok og \<Longrightarrow>
     \<forall>og \<in> set (so_outgoing so'). outgoing_ok og"
proof (induction rest arbitrary: so l)
  case (Cons er rest)
  obtain e row where er: "er = (e, row)" by (cases er)
  from Cons.prems(1) [unfolded er] show ?case
  proof (cases rule: sort_out_ConsE)
    case (sent og)
    from Cons.IH [OF sent(3)] sent(2) Cons.prems(2) show ?thesis by simp
  next
    case (gone l1)
    from Cons.IH [OF gone(4)] Cons.prems(2) show ?thesis by simp
  next
    case left
    from Cons.IH [OF left] Cons.prems(2) show ?thesis by simp
  qed
qed simp

lemma sort_out_settled:
  "sort_out env rest so l = (Inr so', l') \<Longrightarrow> e \<in> set (so_settled so') \<Longrightarrow>
     e \<in> set (so_settled so) \<or> (\<not> en_deleted e \<and> (e, None) \<in> set rest)"
proof (induction rest arbitrary: so l)
  case (Cons er rest)
  obtain e' row where er: "er = (e', row)" by (cases er)
  from Cons.prems(1) [unfolded er] show ?case
  proof (cases rule: sort_out_ConsE)
    case (sent og)
    from Cons.IH [OF sent(3) Cons.prems(2)] show ?thesis by auto
  next
    case (gone l1)
    from Cons.IH [OF gone(4) Cons.prems(2)] gone(1, 2) er show ?thesis by auto
  next
    case left
    from Cons.IH [OF left Cons.prems(2)] show ?thesis by auto
  qed
qed simp

lemma take_answers_mset:
  assumes "length results = length chunk"
  shows "mset (dl_settled (take_answers chunk results dr d)) + mset (dl_unsettled (take_answers chunk results dr d)) =
     mset (dl_settled d) + mset (dl_unsettled d) + image_mset og_entry (mset chunk)"
  using assms
  by (induction results chunk arbitrary: d rule: list_induct2) (auto simp: take_answers_def)

lemma push_chunk_Inr:
  assumes "push_chunk env chunk dr l = (Inr results, l')"
  shows "call_push env (group_batches chunk) dr l = (Inr results, l') \<and> length results = length chunk"
  using assms by (auto simp: push_chunk_def elim!: op_bind_InrE split: if_splits)

lemma push_chunks_ConsE:
  assumes "push_chunks env da (c # cs) d l = (Inr d', l')"
  obtains results l1 l2 dr where "push_chunk env c dr l = (Inr results, l1)" "length results = length c"
    "l2 = l1\<lparr>lk_rows_sent := lk_rows_sent l1 + length (filter (\<lambda>r. r = CHR ''a'') results)\<rparr>"
    "push_chunks env da cs (take_answers c results dr d) l2 = (Inr d', l')"
    "dr = (da \<and> cs = [] \<and> dl_unsettled d = [])"
proof -
  from assms obtain results l1 where c: "push_chunk env c (da \<and> cs = [] \<and> dl_unsettled d = []) l = (Inr results, l1)"
    and rest: "push_chunks env da cs (take_answers c results (da \<and> cs = [] \<and> dl_unsettled d = []) d)
      (l1\<lparr>lk_rows_sent := lk_rows_sent l1 + length (filter (\<lambda>r. r = CHR ''a'') results)\<rparr>) = (Inr d', l')"
    by (auto simp: Let_def elim!: op_bind_InrE)
  from push_chunk_Inr [OF c] that [OF c _ refl rest refl] show thesis by simp
qed

lemma push_chunks_mset:
  "push_chunks env da chunks d l = (Inr d', l') \<Longrightarrow>
     mset (dl_settled d') + mset (dl_unsettled d') =
     mset (dl_settled d) + mset (dl_unsettled d) + image_mset og_entry (mset (concat chunks))"
proof (induction chunks arbitrary: d l)
  case (Cons c cs)
  from Cons.prems obtain results l2 dr where len: "length results = length c"
    and rest: "push_chunks env da cs (take_answers c results dr d) l2 = (Inr d', l')"
    by (rule push_chunks_ConsE)
  from Cons.IH [OF rest] take_answers_mset [OF len] show ?case by (simp add: add.assoc)
qed simp

lemma send_entries_mset:
  assumes "send_entries env da es declined l = (Inr d, l')"
  shows "mset (dl_settled d) + mset (dl_unsettled d) = mset declined + mset es"
  using assms
  by (auto simp: send_entries_def comp_def elim!: op_bind_InrE dest!: push_chunks_mset sort_out_mset)

lemma deliver_mset:
  assumes "deliver env entries da l = (Inr d, l')"
  shows "mset (dl_settled d) + mset (dl_unsettled d) = mset entries"
proof -
  from assms obtain wanted declined l1 where 1: "offer_entries env entries l = (Inr (wanted, declined), l1)"
    "send_entries env da (to_send entries wanted) declined l1 = (Inr d, l')"
    by (auto simp: deliver_def elim!: op_bind_InrE)
  have "mset (filter en_offer_first entries) + mset (filter (\<lambda>e. \<not> en_offer_first e) entries) = mset entries"
    by (induction entries) auto
  then have "mset entries = (image_mset snd (mset wanted) + mset declined) + mset (filter (\<lambda>e. \<not> en_offer_first e) entries)"
    by (simp add: offer_entries_mset [OF 1(1)])
  then show ?thesis by (simp add: send_entries_mset [OF 1(2)] to_send_mset ac_simps)
qed


section \<open>What the peer promises\<close>

text \<open>
  A peer that answers truthfully: a row offered and not asked for is known to it (or of a table it does not
  replicate), a row pushed and not rejected is known to it, and it never unlearns.
\<close>

locale peer_contract =
  fixes env :: "'p link_env" and knows :: "'p \<Rightarrow> row_id \<Rightarrow> row_version \<Rightarrow> bool" and foreign :: "'p \<Rightarrow> string \<Rightarrow> bool"
  assumes offer_true: "le_offer env items (db, p) = (Inr want, db', p') \<Longrightarrow> i < length items \<Longrightarrow> int i \<notin> set want \<Longrightarrow>
      knows p' (of_table (items ! i), of_hash (items ! i)) (of_version (items ! i)) \<or> foreign p' (of_table (items ! i))"
    and offer_keeps: "le_offer env items (db, p) = (a, db', p') \<Longrightarrow>
      (knows p rid v \<longrightarrow> knows p' rid v) \<and> (foreign p t \<longrightarrow> foreign p' t)"
    and push_true: "le_push env bs dr (db, p) = (Inr res, db', p') \<Longrightarrow> length res = length (pushed_rows bs) \<Longrightarrow>
      i < length res \<Longrightarrow> res ! i \<noteq> CHR ''r'' \<Longrightarrow> case_prod (knows p') (pushed_rows bs ! i)"
    and push_keeps: "le_push env bs dr (db, p) = (b, db', p') \<Longrightarrow>
      (knows p rid v \<longrightarrow> knows p' rid v) \<and> (foreign p t \<longrightarrow> foreign p' t)"
begin

lemma offer_split_known:
  assumes "call_offer env (map (offer_of \<circ> snd) chunk) l = (Inr want, l')" "e \<in> set (snd (split_wanted want chunk))"
  shows "knows (lk_peer l') (tname (en_table e), en_hash e) (en_version e) \<or> foreign (lk_peer l') (tname (en_table e))"
proof -
  from assms(2) obtain i where i: "i < length chunk" "e = snd (chunk ! i)" "int i \<notin> set want"
    by (auto simp: split_wanted_def in_set_enumerate_eq)
  from assms(1) obtain db where "le_offer env (map (offer_of \<circ> snd) chunk) (lk_db l, lk_peer l) = (Inr want, db, lk_peer l')"
    by (auto simp: call_offer_def split: prod.splits)
  from offer_true [OF this, of i] i show ?thesis by (simp add: offer_of_def)
qed

definition more_known :: "'p link \<Rightarrow> 'p link \<Rightarrow> bool" where
  "more_known l l' \<longleftrightarrow> (\<forall>rid v t. (knows (lk_peer l) rid v \<longrightarrow> knows (lk_peer l') rid v) \<and>
     (foreign (lk_peer l) t \<longrightarrow> foreign (lk_peer l') t))"

lemma more_known_refl [simp]: "more_known l l"
  by (simp add: more_known_def)

lemma more_known_trans: "more_known l m \<Longrightarrow> more_known m n \<Longrightarrow> more_known l n"
  by (simp add: more_known_def)

lemma call_offer_known: "call_offer env items l = (r, l') \<Longrightarrow> more_known l l'"
  unfolding more_known_def call_offer_def
  by (cases "le_offer env items (lk_db l, lk_peer l)") (use offer_keeps in fastforce)

lemma call_push_known: "call_push env bs dr l = (r, l') \<Longrightarrow> more_known l l'"
  unfolding more_known_def call_push_def
  by (cases "le_push env bs dr (lk_db l, lk_peer l)") (use push_keeps in fastforce)

lemma record_implicit_known: "record_implicit_deletion env e l = (r, l') \<Longrightarrow> more_known l l'"
  by (auto simp: record_implicit_deletion_def Let_def more_known_def split: option.splits if_splits sum.splits)

lemma sort_out_known: "sort_out env rest so l = (Inr so', l') \<Longrightarrow> more_known l l'"
proof (induction rest arbitrary: so l)
  case (Cons er rest)
  obtain e row where er: "er = (e, row)" by (cases er)
  from Cons.prems [unfolded er] show ?case
    by (cases rule: sort_out_ConsE) (use Cons.IH record_implicit_known more_known_trans in blast)+
qed simp

definition known_entry :: "'p link \<Rightarrow> entry \<Rightarrow> bool" where
  "known_entry l e \<longleftrightarrow> knows (lk_peer l) (tname (en_table e), en_hash e) (en_version e) \<or>
     foreign (lk_peer l) (tname (en_table e))"

lemma known_entry_mono: "more_known l l' \<Longrightarrow> known_entry l e \<Longrightarrow> known_entry l' e"
  by (auto simp: more_known_def known_entry_def)

lemma offer_chunks_known:
  "offer_chunks env chunks l = (Inr (wanted, declined), l') \<Longrightarrow>
     more_known l l' \<and> (\<forall>e \<in> set declined. known_entry l' e)"
proof (induction chunks arbitrary: l wanted declined)
  case (Cons c cs)
  then obtain want w d l1 where c: "call_offer env (map (offer_of \<circ> snd) c) l = (Inr want, l1)"
    and rest: "offer_chunks env cs l1 = (Inr (w, d), l')" and eq: "declined = snd (split_wanted want c) @ d"
    by (auto elim!: op_bind_InrE)
  from Cons.IH [OF rest] offer_split_known [OF c] call_offer_known [OF c] show ?case
    by (auto simp: eq known_entry_def intro: more_known_trans dest: known_entry_mono [unfolded known_entry_def])
qed simp

lemma push_chunk_known:
  assumes "push_chunk env chunk dr l = (Inr results, l')" "\<forall>og \<in> set chunk. outgoing_ok og"
    "(og, r) \<in> set (zip chunk results)" "r \<noteq> CHR ''r''"
  shows "known_entry l' (og_entry og)"
proof -
  from push_chunk_Inr [OF assms(1)] obtain db where
    call: "le_push env (group_batches chunk) dr (lk_db l, lk_peer l) = (Inr results, db, lk_peer l')"
    and len: "length results = length chunk"
    by (auto simp: call_push_def split: prod.splits)
  from assms(3) len obtain i where i: "i < length results" "og = chunk ! i" "r = results ! i"
    by (auto simp: set_zip)
  from push_true [OF call, of i] i len assms(2, 4) show ?thesis
    by (auto simp: group_batches_rows outgoing_ok_def known_entry_def)
qed

lemma push_chunks_known:
  "push_chunks env da chunks d l = (Inr d', l') \<Longrightarrow> \<forall>og \<in> set (concat chunks). outgoing_ok og \<Longrightarrow>
     more_known l l' \<and> (\<forall>e \<in> set (dl_settled d') - set (dl_settled d). known_entry l' e)"
proof (induction chunks arbitrary: d l)
  case (Cons c cs)
  from Cons.prems(1) obtain results l1 l2 dr where c: "push_chunk env c dr l = (Inr results, l1)"
    and l2: "l2 = l1\<lparr>lk_rows_sent := lk_rows_sent l1 + length (filter (\<lambda>r. r = CHR ''a'') results)\<rparr>"
    and rest: "push_chunks env da cs (take_answers c results dr d) l2 = (Inr d', l')"
    by (rule push_chunks_ConsE)
  have known: "known_entry l2 e"
    if "e \<in> set (dl_settled (take_answers c results dr d))" "e \<notin> set (dl_settled d)" for e
  proof -
    from that obtain og r where og: "e = og_entry og" "(og, r) \<in> set (zip c results)" "r \<noteq> CHR ''r''"
      by (auto simp: take_answers_def)
    from push_chunk_known [OF c _ og(2, 3)] Cons.prems(2) show ?thesis
      by (simp add: og(1) known_entry_def l2)
  qed
  have "more_known l l2"
    using call_push_known push_chunk_Inr [OF c] l2 by (fastforce simp: more_known_def)
  moreover from Cons.IH [OF rest] Cons.prems(2) have later: "more_known l2 l'"
    "\<forall>e \<in> set (dl_settled d') - set (dl_settled (take_answers c results dr d)). known_entry l' e"
    by simp_all
  moreover have "known_entry l' e" if "e \<in> set (dl_settled d') - set (dl_settled d)" for e
    using that later known known_entry_mono [of l2 l' e]
    by (cases "e \<in> set (dl_settled (take_answers c results dr d))") auto
  ultimately show ?case by (blast intro: more_known_trans)
qed simp

lemma send_entries_known:
  assumes send: "send_entries env da es declined l = (Inr d, l')"
    and e: "e \<in> set (dl_settled d)" and declined: "\<forall>e \<in> set declined. known_entry l e"
  shows "known_entry l' e \<or> (\<not> en_deleted e \<and> e \<in> set es \<and> loaded_row env (lk_db l) es e = None)"
proof -
  from send obtain so l1 where
    sort: "sort_out env (map (\<lambda>e. (e, loaded_row env (lk_db l) es e)) es)
      \<lparr>so_outgoing = [], so_settled = declined, so_unsettled = []\<rparr> l = (Inr so, l1)"
    and push: "push_chunks env da (pack_chunks (le_max_message env div 2) (so_outgoing so))
      \<lparr>dl_settled = so_settled so, dl_unsettled = so_unsettled so, dl_announced = False\<rparr> l1 = (Inr d, l')"
    by (auto simp: send_entries_def elim!: op_bind_InrE)
  have ok: "\<forall>og \<in> set (so_outgoing so). outgoing_ok og" using sort_out_outgoing_ok [OF sort] by simp
  from push_chunks_known [OF push] ok have p: "more_known l1 l'"
    "\<forall>e \<in> set (dl_settled d) - set (so_settled so). known_entry l' e" by simp_all
  have "known_entry l' e" if "e \<in> set declined"
    using that declined sort_out_known [OF sort] p(1) by (blast intro: known_entry_mono more_known_trans)
  with p(2) e sort_out_settled [OF sort, of e] show ?thesis by (cases "e \<in> set (so_settled so)") auto
qed

end


text \<open>A row that is not loaded is not there: no row has the key and its hash.\<close>

definition row_present :: "'p link_env \<Rightarrow> node_db \<Rightarrow> entry \<Rightarrow> bool" where
  "row_present env db e \<longleftrightarrow> (\<exists>r \<in> set (rows db). fst r = tname (en_table e) \<and>
     pk_matches (le_sql env) (en_table e) (en_key e) (snd r) \<and>
     compute_pk_hash (le_pr env)
       (map (\<lambda>c. sql_text (le_sql env) (column_value (en_table e) (snd r) c)) (pk (en_table e))) = en_hash e)"

lemma not_loaded:
  assumes "loaded_row env db es e = None" "e \<in> set es" "\<not> en_deleted e"
  shows "\<not> row_present env db e"
proof
  assume present: "row_present env db e"
  let ?es = "filter (\<lambda>e'. \<not> en_deleted e' \<and> en_table e' = en_table e) es"
  have "e \<in> set (concat (chunks_of 100 ?es))" using assms(2, 3) by simp
  then obtain c where c: "c \<in> set (chunks_of 100 ?es)" "e \<in> set c" unfolding set_concat by blast
  with present have "en_hash e \<in> fst ` set (concat (map (load_chunk env db (en_table e)) (chunks_of 100 ?es)))"
    unfolding row_present_def load_chunk_def by (force simp: list_ex_iff)
  with assms(1) show False
    by (simp add: loaded_row_def load_rows_def map_of_al_put_all map_of_eq_None_iff)
qed

section \<open>The receiving node keeps its promises\<close>

lemma letter_of_iff [simp]: "letter_of x = CHR ''r'' \<longleftrightarrow> x = R"
  by (cases x) auto

lemma handle_push_cases:
  assumes "handle_push peer bs dr rv = (r, rv')"
  obtains (refused) e where "r = Inl e" "rv' = rv"
  | (failed) e where "r = Inl e" "apply_push (rv_cx rv) peer bs (rv_db rv) = (Inl e, rv_db rv')"
      "rv_pushed rv' = rv_pushed rv" "rv_cx rv' = rv_cx rv"
  | (taken) results n where "r = Inr (map letter_of results)" "push_schema_ok bs"
      "bs = [] \<and> results = [] \<and> rv_db rv' = rv_db rv \<or> apply_push (rv_cx rv) peer bs (rv_db rv) = (Inr (results, n), rv_db rv')"
      "rv_pushed rv' = pushed_rows bs @ rv_pushed rv" "cx_catalog (rv_cx rv') = cx_catalog (rv_cx rv)"
proof -
  obtain x db where run: "apply_push (rv_cx rv) peer bs (rv_db rv) = (x, db)" by fastforce
  with assms refused failed taken show thesis
    by (auto simp: handle_push_def Let_def note_drained_at_def count_received_def
        split: if_splits prod.splits sum.splits)
qed

lemma handle_push_advances:
  assumes "handle_push peer bs dr rv = (r, rv')"
  shows "advances (rv_db rv) (rv_db rv')"
  using assms
proof (cases rule: handle_push_cases)
  case (failed e)
  with apply_push_advances [of "rv_db rv" "rv_cx rv" peer bs] show ?thesis by simp
qed (auto dest: apply_push_ok(1))

text \<open>A pushed change of at least the number is the change, or a newer one, or one of the same number.\<close>

lemma aside_or_pushed_taken:
  assumes "aside_or_pushed bs (rv_db rv) rid v" "set (pushed_rows bs) \<subseteq> set (rv_pushed rv)"
  shows "taken_over rv rid v"
proof (cases "set_aside_as (rv_db rv) rid v \<or> holds (rv_db rv) rid v")
  case False
  with assms(1) obtain w where w: "(rid, w) \<in> set (pushed_rows bs)" "version v \<le> version w" "holds (rv_db rv) rid w"
    by (auto simp: aside_or_pushed_def)
  from w(3) False have newer: "compare_versions v w > 0"
    using older_trans unfolding holds_def by blast
  then have "version w = version v \<and> origin w \<noteq> origin v"
    using w(2) by (auto simp: compare_versions_pos)
  then show ?thesis
    unfolding taken_over_def overtaken_def list_ex_iff using w(1, 3) assms(2) by auto
qed (auto simp: taken_over_def)

lemma overtaken_mono:
  assumes "overtaken rv rid v" "advances (rv_db rv) (rv_db rv')" "set (rv_pushed rv) \<subseteq> set (rv_pushed rv')"
  shows "overtaken rv' rid v"
  using assms(1, 3) advances_holds [OF assms(2)] unfolding overtaken_def list_ex_iff by blast

lemma handle_push_keeps:
  assumes "handle_push peer bs dr rv = (r, rv')"
  shows "taken_over rv rid v \<Longrightarrow> taken_over rv' rid v" and "replicates rv' = replicates rv"
proof -
  show "replicates rv' = replicates rv"
    using assms by (cases rule: handle_push_cases) (auto simp: replicates_def fun_eq_iff)
  note adv = handle_push_advances [OF assms]
  have pushed: "set (rv_pushed rv) \<subseteq> set (rv_pushed rv')"
    using assms by (cases rule: handle_push_cases) auto
  assume "taken_over rv rid v"
  then consider "holds (rv_db rv) rid v" | "overtaken rv rid v" | "set_aside_as (rv_db rv) rid v"
    by (auto simp: taken_over_def)
  then show "taken_over rv' rid v"
  proof cases
    case 3
    from assms show ?thesis
    proof (cases rule: handle_push_cases)
      case (failed e)
      with 3 set_aside_as_cong [OF apply_push_failed [OF failed(2)]] show ?thesis by (simp add: taken_over_def)
    next
      case (taken results n)
      from taken(3) show ?thesis
      proof (elim disjE conjE)
        assume "apply_push (rv_cx rv) peer bs (rv_db rv) = (Inr (results, n), rv_db rv')"
        from apply_push_aside(2) [OF this 3] taken(4) show ?thesis by (intro aside_or_pushed_taken) auto
      qed (use 3 in \<open>simp add: taken_over_def\<close>)
    qed (use 3 in \<open>simp add: taken_over_def\<close>)
  qed (use advances_holds [OF adv] overtaken_mono [OF _ adv pushed] in \<open>auto simp: taken_over_def\<close>)
qed

lemma handle_push_true:
  assumes run: "handle_push peer bs dr rv = (Inr res, rv')" and len: "length res = length (pushed_rows bs)"
    and i: "i < length res" "res ! i \<noteq> CHR ''r''"
  shows "case_prod (taken_over rv') (pushed_rows bs ! i)"
proof -
  from run obtain results n where r: "res = map letter_of results"
    and push: "apply_push (rv_cx rv) peer bs (rv_db rv) = (Inr (results, n), rv_db rv')"
    and pushed: "rv_pushed rv' = pushed_rows bs @ rv_pushed rv"
    by (cases rule: handle_push_cases) (use i(1) in auto)
  show ?thesis
  proof (cases "results ! i = D")
    case True
    with apply_push_aside(1) [OF push, of i] i(1) r pushed aside_or_pushed_taken [of bs rv'] show ?thesis
      by (auto split: prod.splits)
  next
    case False
    with i r have "results ! i = A \<or> results ! i = S" by (cases "results ! i") auto
    with apply_push_ok(3) [OF push, of i] i(1) r obtain t cols w where
      w: "push_entries (rv_cx rv) bs ! i = (Some t, cols, w)"
      "holds (rv_db rv') (tname t, wi_h w) \<lparr>version = wi_v w, origin = wi_o w\<rparr>" by auto
    from push_entries_rows [OF _ w(1)] apply_push_ok(2) [OF push] i(1) r w(2) show ?thesis
      by (simp add: taken_over_def)
  qed
qed

lemma handle_offer_true:
  assumes "handle_offer items rv = (Inr want, rv')" "i < length items" "int i \<notin> set want"
  shows "taken_over rv' (of_table (items ! i), of_hash (items ! i)) (of_version (items ! i)) \<or>
    \<not> replicates rv' (of_table (items ! i))"
proof -
  have mem: "(i, items ! i) \<in> set (enumerate 0 items)" using assms(2) by (simp add: in_set_enumerate_eq)
  with assms show ?thesis
    by (force simp: handle_offer_def wanted_from_offer_def replicates_def taken_over_def stale_holds [symmetric]
        split: if_splits)
qed

interpretation receiving: peer_contract "joined env" "\<lambda>os. taken_over (os_receiver os)"
  "\<lambda>os t. \<not> replicates (os_receiver os) t" for env
proof unfold_locales
  fix items db p want db' p' i
  assume call: "le_offer (joined env) items (db, p) = (Inr want, db', p')" and i: "i < length items" "int i \<notin> set want"
  from call have "handle_offer items (os_receiver p) = (Inr want, os_receiver p')"
    by (auto simp: joined_def outside_offer_def commit_next_def split: prod.splits list.splits)
  from handle_offer_true [OF this i] show "taken_over (os_receiver p') (of_table (items ! i), of_hash (items ! i)) (of_version (items ! i)) \<or>
      \<not> replicates (os_receiver p') (of_table (items ! i))" .
next
  fix items db p a db' p' rid v t
  assume "le_offer (joined env) items (db, p) = (a, db', p')"
  then have "os_receiver p' = os_receiver p"
    by (auto simp: joined_def outside_offer_def commit_next_def handle_offer_def split: prod.splits list.splits if_splits)
  then show "(taken_over (os_receiver p) rid v \<longrightarrow> taken_over (os_receiver p') rid v) \<and>
      (\<not> replicates (os_receiver p) t \<longrightarrow> \<not> replicates (os_receiver p') t)" by simp
next
  fix bs dr db p res db' p' i
  assume call: "le_push (joined env) bs dr (db, p) = (Inr res, db', p')"
    and res: "length res = length (pushed_rows bs)" "i < length res" "res ! i \<noteq> CHR ''r''"
  from call have "handle_push (le_self env) bs dr (os_receiver p) = (Inr res, os_receiver p')"
    by (auto simp: joined_def outside_push_def commit_next_def split: prod.splits list.splits)
  from handle_push_true [OF this res] show "case_prod (taken_over (os_receiver p')) (pushed_rows bs ! i)" .
next
  fix bs dr db p b db' p' rid v t
  assume "le_push (joined env) bs dr (db, p) = (b, db', p')"
  then obtain r rv where "handle_push (le_self env) bs dr (os_receiver p) = (r, rv)" "os_receiver p' = rv"
    by (auto simp: joined_def outside_push_def commit_next_def split: prod.splits list.splits)
  with handle_push_keeps show "(taken_over (os_receiver p) rid v \<longrightarrow> taken_over (os_receiver p') rid v) \<and>
      (\<not> replicates (os_receiver p) t \<longrightarrow> \<not> replicates (os_receiver p') t)" by metis
qed

end
