(* ===== verification/Feed_Facts.thy ===== *)
theory Feed_Facts
  imports Replicator_Facts
begin

text \<open>
  The stored position of a peer in the change feed. First what a read of the feed covers; then the contract
  with the rest of the node (\<open>feed_world\<close>): which records can appear in the registry while the replicator
  waits for a call, given that a transaction that was open long ago has ended by now. Under it, every record
  of a replicated table at or below the stored position has been noted as delivered.
\<close>

section \<open>What a read covers\<close>

lemma feed_row_of_sel [simp]:
  "fr_table (feed_row_of (rid, e)) = fst rid" "vr_hash (feed_row_of (rid, e)) = snd rid"
  "fr_seq (feed_row_of (rid, e)) = ve_seq e" "vr_version (feed_row_of (rid, e)) = Some (version (ve_version e))"
  "vr_pk (feed_row_of (rid, e)) = Some (ve_pk e)" "vr_origin (feed_row_of (rid, e)) = Some (origin (ve_version e))"
  "vr_deleted (feed_row_of (rid, e)) = ve_deleted e" "fr_via (feed_row_of (rid, e)) = ve_via e"
  by (simp_all add: feed_row_of_def registry_row_of_def registry_row.defs feed_row.defs)

text \<open>Of a list sorted by position, what is cut off lies beyond all that is kept.\<close>

lemma sort_take_covers:
  fixes f :: "'a \<Rightarrow> int"
  assumes "inj_on f (set xs)" "x \<in> set xs" "y \<in> set (take n (sort_key f xs))" "f x \<le> f y"
  shows "x \<in> set (take n (sort_key f xs))"
proof (rule ccontr)
  let ?s = "sort_key f xs"
  assume "x \<notin> set (take n ?s)"
  moreover have "x \<in> set (take n ?s @ drop n ?s)" using assms(2) by simp
  ultimately have x: "x \<in> set (drop n ?s)" unfolding set_append by blast
  have "sorted (map f (take n ?s @ drop n ?s))" by (simp del: map_append)
  then have "f y \<le> f x" using x assms(3) unfolding map_append sorted_append by fastforce
  with assms have "f x = f y" by simp
  moreover have "y \<in> set xs" using assms(3) by (metis in_set_takeD set_sort)
  ultimately have "x = y" using assms(1, 2) by (auto dest: inj_onD)
  with \<open>x \<notin> set (take n ?s)\<close> assms(3) show False by simp
qed

lemma feed_rows_inj:
  assumes "feed_ok db"
  shows "inj_on fr_seq (set (map feed_row_of (registry db)))"
proof (rule inj_onI)
  fix r s assume "r \<in> set (map feed_row_of (registry db))" "s \<in> set (map feed_row_of (registry db))" "fr_seq r = fr_seq s"
  then obtain rid e rid' e' where r: "r = feed_row_of (rid, e)" "s = feed_row_of (rid', e')"
    "(rid, e) \<in> set (registry db)" "(rid', e') \<in> set (registry db)" "ve_seq e = ve_seq e'" by auto
  have m: "map_of (registry db) rid = Some e" "map_of (registry db) rid' = Some e'"
    using assms r(3, 4) by (simp_all add: feed_ok_def)
  with assms r(5) have "rid = rid'" unfolding feed_ok_def by (auto dest!: inj_onD [of _ _ rid rid'] simp: domI)
  with m r show "r = s" by simp
qed

lemma read_feed_covers:
  assumes "feed_ok db" "read_feed db from limit = (rs, trunc)" "map_of (registry db) rid = Some e" "from < ve_seq e"
    and upto: "\<not> trunc \<or> (\<exists>r \<in> set rs. ve_seq e \<le> fr_seq r)"
  shows "feed_row_of (rid, e) \<in> set rs"
proof -
  let ?xs = "filter (\<lambda>r. fr_seq r > from) (map feed_row_of (registry db))"
  have rs: "rs = take limit (sort_key fr_seq ?xs)" and trunc: "trunc \<longleftrightarrow> limit < length (sort_key fr_seq ?xs)"
    using assms(2) by (auto simp: read_feed_def Let_def min_def split: if_splits)
  have mem: "feed_row_of (rid, e) \<in> set ?xs"
    using assms(3, 4) by (auto dest: map_of_SomeD)
  show ?thesis
  proof (cases trunc)
    case False
    with mem rs trunc show ?thesis by simp
  next
    case True
    with upto obtain r where r: "r \<in> set rs" "ve_seq e \<le> fr_seq r" by blast
    have "inj_on fr_seq (set ?xs)"
      using feed_rows_inj [OF assms(1)] by (rule inj_on_subset) auto
    from sort_take_covers [OF this mem, of r limit] r rs show ?thesis by simp
  qed
qed

text \<open>A row read is known, skipped or an entry of the package.\<close>

definition row_covered :: "'p link_env \<Rightarrow> feed_progress \<Rightarrow> feed_row \<Rightarrow> feed_batch \<Rightarrow> bool" where
  "row_covered env feed r b \<longleftrightarrow>
     (find_table (le_catalog env) (fr_table r) \<noteq> None \<longrightarrow>
      (\<exists>v. vr_version r = Some v \<and>
        ((\<exists>m. map_of (fp_sent feed) (feed_key (fr_table r) (vr_hash r)) = Some m \<and> sm_version m = v) \<or>
         (\<exists>s. (feed_key (fr_table r) (vr_hash r), \<lparr>sm_version = v, sm_seq = s\<rparr>) \<in> set (fb_skipped b)) \<or>
         (\<exists>e \<in> set (fb_entries b). tname (en_table e) = fr_table r \<and> en_hash e = vr_hash r \<and>
            version (en_version e) = v))))"

lemma feed_row_step_props:
  assumes "b' = feed_row_step env feed r b" "r = feed_row_of (rid, e)"
  shows "row_covered env feed r b'" and "fb_read_to b' = max (fb_read_to b) (fr_seq r)"
    and "set (fb_entries b) \<subseteq> set (fb_entries b')" and "set (fb_skipped b) \<subseteq> set (fb_skipped b')"
    and "fb_truncated b' = fb_truncated b"
    and "\<forall>e \<in> set (fb_entries b). en_seq e \<noteq> None \<Longrightarrow> \<forall>e \<in> set (fb_entries b'). en_seq e \<noteq> None"
  using assms
  by (auto simp: feed_row_step_def row_covered_def Let_def to_entry_def find_table_name
      split: option.splits)

lemma row_covered_mono:
  "row_covered env feed r b \<Longrightarrow> set (fb_entries b) \<subseteq> set (fb_entries b') \<Longrightarrow>
     set (fb_skipped b) \<subseteq> set (fb_skipped b') \<Longrightarrow> row_covered env feed r b'"
  unfolding row_covered_def by blast

lemma feed_fold_props:
  assumes "set rs \<subseteq> range feed_row_of" "\<forall>e \<in> set (fb_entries b). en_seq e \<noteq> None"
  shows "(\<forall>r \<in> set rs. row_covered env feed r (fold (feed_row_step env feed) rs b)) \<and>
    set (fb_entries b) \<subseteq> set (fb_entries (fold (feed_row_step env feed) rs b)) \<and>
    set (fb_skipped b) \<subseteq> set (fb_skipped (fold (feed_row_step env feed) rs b)) \<and>
    fb_truncated (fold (feed_row_step env feed) rs b) = fb_truncated b \<and>
    fb_read_to (fold (feed_row_step env feed) rs b) = fold max (map fr_seq rs) (fb_read_to b) \<and>
    (\<forall>e \<in> set (fb_entries (fold (feed_row_step env feed) rs b)). en_seq e \<noteq> None)"
  using assms
proof (induction rs arbitrary: b)
  case (Cons r rs)
  then obtain rid e where r: "r = feed_row_of (rid, e)" by auto
  let ?b = "feed_row_step env feed r b"
  note props = feed_row_step_props [where env = env and feed = feed and b = b, OF refl r]
  have some: "\<forall>e \<in> set (fb_entries ?b). en_seq e \<noteq> None" using props(6) Cons.prems(2) by simp
  from Cons.IH [OF _ some] Cons.prems(1) have IH:
    "\<forall>r \<in> set rs. row_covered env feed r (fold (feed_row_step env feed) rs ?b)"
    "set (fb_entries ?b) \<subseteq> set (fb_entries (fold (feed_row_step env feed) rs ?b))"
    "set (fb_skipped ?b) \<subseteq> set (fb_skipped (fold (feed_row_step env feed) rs ?b))"
    "fb_truncated (fold (feed_row_step env feed) rs ?b) = fb_truncated ?b"
    "fb_read_to (fold (feed_row_step env feed) rs ?b) = fold max (map fr_seq rs) (fb_read_to ?b)"
    "\<forall>e \<in> set (fb_entries (fold (feed_row_step env feed) rs ?b)). en_seq e \<noteq> None"
    by simp_all
  have "row_covered env feed r (fold (feed_row_step env feed) rs ?b)"
    by (rule row_covered_mono [OF props(1) IH(2, 3)])
  with IH props(2-5) show ?case by (simp add: max.commute) blast
qed simp

lemma fold_max_bounds:
  fixes m :: int
  shows "(\<forall>x \<in> set xs. x \<le> fold max xs m) \<and> (fold max xs m = m \<or> fold max xs m \<in> set xs) \<and> m \<le> fold max xs m"
proof (induction xs arbitrary: m)
  case (Cons x xs)
  from Cons.IH [of "max x m"] show ?case by (auto simp: max_def split: if_splits)
qed simp

lemma next_feed_batch_covers:
  assumes "feed_ok (lk_db l)" "b = next_feed_batch env l from" "map_of (registry (lk_db l)) rid = Some e"
    "from < ve_seq e" "\<not> fb_truncated b \<or> ve_seq e \<le> fb_read_to b"
  shows "row_covered env (lk_feed l) (feed_row_of (rid, e)) b"
proof -
  obtain rs trunc where read: "read_feed (lk_db l) from (le_batch_size env) = (rs, trunc)" by fastforce
  let ?b0 = "\<lparr>fb_entries = [], fb_read_to = from, fb_truncated = trunc, fb_skipped = []\<rparr>"
  have b: "b = fold (feed_row_step env (lk_feed l)) rs ?b0" using assms(2) read by (simp add: next_feed_batch_def)
  have "set rs \<subseteq> range feed_row_of"
    using read by (auto simp: read_feed_def Let_def dest!: in_set_takeD)
  from feed_fold_props [OF this, of ?b0 env "lk_feed l"] have props:
    "\<forall>r \<in> set rs. row_covered env (lk_feed l) r b" "fb_truncated b = trunc"
    "fb_read_to b = fold max (map fr_seq rs) from"
    by (simp_all add: b)
  have "\<not> trunc \<or> (\<exists>r \<in> set rs. ve_seq e \<le> fr_seq r)"
  proof (cases "ve_seq e \<le> fb_read_to b")
    case True
    with assms(4) have "fold max (map fr_seq rs) from \<noteq> from" by (simp add: props(3))
    with fold_max_bounds [of "map fr_seq rs" "from"] have "fb_read_to b \<in> fr_seq ` set rs" by (simp add: props(3))
    with True show ?thesis by auto
  next
    case False
    with assms(5) props(2) show ?thesis by simp
  qed
  from read_feed_covers [OF assms(1) read assms(3, 4) this] props(1) show ?thesis by blast
qed

lemma next_feed_batch_seqs: "e \<in> set (fb_entries (next_feed_batch env l from)) \<Longrightarrow> en_seq e \<noteq> None"
proof -
  assume e: "e \<in> set (fb_entries (next_feed_batch env l from))"
  obtain rs trunc where read: "read_feed (lk_db l) from (le_batch_size env) = (rs, trunc)" by fastforce
  have "set rs \<subseteq> range feed_row_of"
    using read by (auto simp: read_feed_def Let_def dest!: in_set_takeD)
  from feed_fold_props [OF this, of "\<lparr>fb_entries = [], fb_read_to = from, fb_truncated = trunc, fb_skipped = []\<rparr>" env "lk_feed l"] e
  show "en_seq e \<noteq> None" by (simp add: next_feed_batch_def read)
qed

section \<open>The rest of the node\<close>

text \<open>Every record that is new or changed lies at or beyond a position.\<close>

definition moved :: "int \<Rightarrow> node_db \<Rightarrow> node_db \<Rightarrow> bool" where
  "moved b db db' \<longleftrightarrow> (\<forall>rid e. map_of (registry db') rid = Some e \<longrightarrow>
     map_of (registry db) rid = Some e \<or> b \<le> ve_seq e)"

lemma moved_refl [simp]: "moved b db db"
  by (simp add: moved_def)

lemma moved_trans: "moved b db db1 \<Longrightarrow> b \<le> c \<Longrightarrow> moved c db1 db2 \<Longrightarrow> moved b db db2"
  unfolding moved_def by (meson order_trans)

definition given_upto :: "'p link_env \<Rightarrow> 'p link \<Rightarrow> int \<Rightarrow> bool" where
  "given_upto env l b \<longleftrightarrow> (\<forall>rid e. map_of (registry (lk_db l)) rid = Some e \<longrightarrow>
     find_table (le_catalog env) (fst rid) \<noteq> None \<longrightarrow> ve_seq e \<le> b \<longrightarrow>
     (feed_key (fst rid) (snd rid), version (ve_version e)) \<in> set (lk_given l))"

lemma given_upto_less: "given_upto env l b \<Longrightarrow> c \<le> b \<Longrightarrow> given_upto env l c"
  by (fastforce simp: given_upto_def)

lemma given_upto_moved:
  "given_upto env l b \<Longrightarrow> moved c (lk_db l) (lk_db l') \<Longrightarrow> b < c \<Longrightarrow> set (lk_given l) \<subseteq> set (lk_given l') \<Longrightarrow>
     given_upto env l' b"
  unfolding given_upto_def moved_def by fastforce

lemma move_scan_sel [simp]: "pr_sent_seq (move_scan nxt r) = pr_sent_seq r"
  by (simp add: move_scan_def split: option.split)

text \<open>Every row noted as sent was given to the peer.\<close>

definition sent_given :: "'p link \<Rightarrow> bool" where
  "sent_given l \<longleftrightarrow> (\<forall>(k, m) \<in> set (fp_sent (lk_feed l)). (k, sm_version m) \<in> set (lk_given l))"

lemma sent_given_note: "sent_given l \<Longrightarrow> sent_given (note_sent marks l)"
  using set_al_put_all [of marks "fp_sent (lk_feed l)"]
  by (fastforce simp: sent_given_def note_sent_def)

text \<open>
  The contract: \<open>floor\<close> is the smallest position a transaction that is still open may hold, \<open>wf\<close> what always
  holds of the database and the outside world.
\<close>

locale feed_world =
  fixes env :: "'p link_env" and floor :: "node_db \<times> 'p \<Rightarrow> int" and wf :: "node_db \<times> 'p \<Rightarrow> bool"
  assumes wf_feed: "wf (db, p) \<Longrightarrow> feed_ok db \<and> floor (db, p) \<le> next_seq db"
    and offer_moves: "wf (db, p) \<Longrightarrow> le_offer env items (db, p) = (a, db', p') \<Longrightarrow>
      wf (db', p') \<and> floor (db, p) \<le> floor (db', p') \<and> moved (floor (db, p)) db db'"
    and push_moves: "wf (db, p) \<Longrightarrow> le_push env bs dr (db, p) = (b, db', p') \<Longrightarrow>
      wf (db', p') \<and> floor (db, p) \<le> floor (db', p') \<and> moved (floor (db, p)) db db'"
    and put_moves: "wf (db, p) \<Longrightarrow> wf (put_entry rid key v d via db, p) \<and>
      floor (db, p) \<le> floor (put_entry rid key v d via db, p)"
begin

text \<open>What every part of a round but the sweep's own steps does to a link.\<close>

definition feed_moves :: "'p link \<Rightarrow> 'p link \<Rightarrow> bool" where
  "feed_moves l l' \<longleftrightarrow>
     fp_cursor (lk_feed l') = fp_cursor (lk_feed l) \<and> fp_sweep (lk_feed l') = fp_sweep (lk_feed l) \<and>
     set (lk_given l) \<subseteq> set (lk_given l') \<and> (sent_given l \<longrightarrow> sent_given l') \<and>
     map_option pr_sent_seq (lk_row l') = map_option pr_sent_seq (lk_row l) \<and>
     (wf (lk_db l, lk_peer l) \<longrightarrow> wf (lk_db l', lk_peer l') \<and>
        floor (lk_db l, lk_peer l) \<le> floor (lk_db l', lk_peer l') \<and>
        moved (floor (lk_db l, lk_peer l)) (lk_db l) (lk_db l'))"

lemma feed_moves_refl: "feed_moves l l"
  by (simp add: feed_moves_def)

lemma feed_moves_trans: "feed_moves l m \<Longrightarrow> feed_moves m n \<Longrightarrow> feed_moves l n"
proof -
  assume m: "feed_moves l m" and n: "feed_moves m n"
  have "moved (floor (lk_db l, lk_peer l)) (lk_db l) (lk_db n)" if "wf (lk_db l, lk_peer l)"
    using m n that moved_trans [of "floor (lk_db l, lk_peer l)" "lk_db l" "lk_db m" "floor (lk_db m, lk_peer m)" "lk_db n"]
    by (simp add: feed_moves_def)
  with m n show ?thesis by (fastforce simp: feed_moves_def)
qed

end

sublocale feed_world \<subseteq> moves: kept feed_moves
  by unfold_locales (rule feed_moves_refl, rule feed_moves_trans)

context feed_world begin

lemmas moves_intros = moves.keeps_bind moves.keeps_ok moves.keeps_fail moves.keeps_check moves.keeps_read

lemma keeps_set_feed:
  "(\<And>f. fp_cursor (g f) = fp_cursor f \<and> fp_sweep (g f) = fp_sweep f \<and> fp_sent (g f) = fp_sent f) \<Longrightarrow>
     keeps feed_moves (set_feed g)"
  unfolding set_feed_def by (rule moves.keeps_write) (simp add: feed_moves_def sent_given_def)

lemma keeps_plain_write:
  "(\<And>l. lk_feed (g l) = lk_feed l \<and> lk_db (g l) = lk_db l \<and> lk_peer (g l) = lk_peer l \<and> lk_given (g l) = lk_given l \<and>
      map_option pr_sent_seq (lk_row (g l)) = map_option pr_sent_seq (lk_row l)) \<Longrightarrow>
     keeps feed_moves (op_write g)"
  by (rule moves.keeps_write) (simp add: feed_moves_def sent_given_def)

lemma keeps_note_sent: "keeps feed_moves (op_write (note_sent marks))"
  by (rule moves.keeps_write) (use sent_given_note in \<open>auto simp: feed_moves_def note_sent_def\<close>)

lemma keeps_call_offer: "keeps feed_moves (call_offer env items)"
  by (rule keepsI)
    (use offer_moves in \<open>auto simp: call_offer_def feed_moves_def sent_given_def split: prod.splits\<close>)

lemma keeps_call_push: "keeps feed_moves (call_push env bs dr)"
  by (rule keepsI)
    (use push_moves in \<open>auto simp: call_push_def feed_moves_def sent_given_def split: prod.splits\<close>)

lemma moved_put: "b \<le> next_seq db \<Longrightarrow> moved b db (put_entry rid key v d via db)"
  by (auto simp: moved_def put_entry_def split: if_splits)

lemma keeps_implicit: "keeps feed_moves (record_implicit_deletion env e)"
proof (rule keepsI)
  fix l r l' assume "record_implicit_deletion env e l = (r, l')"
  then consider "l' = l" | rid key v d via where "l' = l\<lparr>lk_db := put_entry rid key v d via (lk_db l)\<rparr>"
    by (auto simp: record_implicit_deletion_def Let_def write_version_def split: option.splits if_splits sum.splits)
  then show "feed_moves l l'"
  proof cases
    case 2
    then show ?thesis using put_moves wf_feed moved_put by (auto simp: feed_moves_def sent_given_def)
  qed (simp add: feed_moves_refl)
qed

lemma keeps_offer_chunks: "keeps feed_moves (offer_chunks env chunks)"
  by (induction chunks) (auto intro!: moves_intros keeps_call_offer split: prod.splits)

lemma keeps_sort_out: "keeps feed_moves (sort_out env rest so)"
proof (induction rest arbitrary: so)
  case (Cons er rest)
  then show ?case by (cases er) (auto intro!: moves_intros keeps_implicit split: option.splits)
qed simp

lemma keeps_push_chunk: "keeps feed_moves (push_chunk env c dr)"
  unfolding push_chunk_def by (auto intro!: moves_intros keeps_call_push)

lemma keeps_push_chunks: "keeps feed_moves (push_chunks env da chunks d)"
  by (induction chunks arbitrary: d)
    (auto intro!: moves_intros keeps_push_chunk keeps_plain_write simp: Let_def)

lemma keeps_deliver: "keeps feed_moves (deliver env es da)"
  unfolding deliver_def offer_entries_def send_entries_def
  by (auto intro!: moves_intros keeps_offer_chunks keeps_sort_out keeps_push_chunks split: prod.splits)

lemma keeps_remember: "keeps feed_moves (remember batch d)"
  unfolding remember_def by (auto intro!: moves_intros keeps_note_sent)

lemma keeps_send_feed_batch: "keeps feed_moves (send_feed_batch env batch da)"
  unfolding send_feed_batch_def
  by (auto intro!: moves_intros keeps_deliver keeps_remember keeps_set_feed split: option.splits)

lemma keeps_feed_stage: "keeps feed_moves (feed_stage env head)"
  unfolding feed_stage_def feed_part_def should_send_now_def advance_read_def
  by (auto intro!: moves_intros keeps_send_feed_batch keeps_remember keeps_set_feed keeps_plain_write
        moves.keeps_write simp: feed_moves_def sent_given_def split: prod.splits)

lemma keeps_transfer_part: "keeps feed_moves (transfer_part env head p)"
  unfolding transfer_part_def
  by (auto intro!: moves_intros keeps_deliver keeps_plain_write simp: option.map_comp comp_def
      split: prod.splits)

lemma keeps_announce_part: "keeps feed_moves (announce_part env a c)"
  unfolding announce_part_def
  by (auto intro!: moves_intros keeps_call_push moves.keeps_write
      simp: note_drained_def feed_moves_def sent_given_def)

text \<open>The invariant of a link.\<close>

definition feed_inv :: "'p link \<Rightarrow> bool" where
  "feed_inv l \<longleftrightarrow> wf (lk_db l, lk_peer l) \<and> sent_given l \<and>
     fp_cursor (lk_feed l) < floor (lk_db l, lk_peer l) \<and> given_upto env l (fp_cursor (lk_feed l)) \<and>
     (\<forall>s. map_option pr_sent_seq (lk_row l) = Some s \<longrightarrow> s \<le> fp_cursor (lk_feed l)) \<and>
     (\<forall>sw. fp_sweep (lk_feed l) = Some sw \<longrightarrow> sw_stable sw < floor (lk_db l, lk_peer l) \<and>
        given_upto env l (min (sw_pos sw) (sw_stable sw)))"

lemma feed_inv_moves:
  assumes "feed_inv l" "feed_moves l l'"
  shows "feed_inv l'"
proof -
  have m: "moved (floor (lk_db l, lk_peer l)) (lk_db l) (lk_db l')" "set (lk_given l) \<subseteq> set (lk_given l')"
    "floor (lk_db l, lk_peer l) \<le> floor (lk_db l', lk_peer l')"
    using assms by (auto simp: feed_inv_def feed_moves_def)
  have upto: "given_upto env l' b" if "given_upto env l b" "b < floor (lk_db l, lk_peer l)" for b
    using given_upto_moved [OF that(1) m(1) that(2) m(2)] .
  show ?thesis
    using assms m upto by (auto simp: feed_inv_def feed_moves_def min_less_iff_disj)
qed

lemma feed_inv_keeps: "keeps feed_moves m \<Longrightarrow> m l = (r, l') \<Longrightarrow> feed_inv l \<Longrightarrow> feed_inv l'"
  by (erule feed_inv_moves) (rule keepsD)

text \<open>A package that went through, and one that needed no call, leave every row they read noted.\<close>

lemma first_seq_Some: "first_seq es (Some k) \<noteq> None"
proof (induction es arbitrary: k)
  case (Cons e es)
  then show ?case by (cases "en_seq e") simp_all
qed simp

lemma first_seq_None: "first_seq es None = None \<Longrightarrow> \<forall>e \<in> set es. en_seq e \<noteq> None \<Longrightarrow> es = []"
proof (cases es)
  case (Cons e rest)
  moreover assume "first_seq es None = None" "\<forall>e \<in> set es. en_seq e \<noteq> None"
  moreover from this Cons obtain q where "en_seq e = Some q" by (cases "en_seq e") simp_all
  ultimately show ?thesis using first_seq_Some [of rest q] by simp
qed simp

lemma entry_marks_mem:
  "e \<in> set es \<Longrightarrow> en_seq e = Some q \<Longrightarrow>
     (feed_key (tname (en_table e)) (en_hash e), version (en_version e)) \<in>
       set (map (\<lambda>(k, m). (k, sm_version m)) (entry_marks es))"
proof (induction es)
  case (Cons x es)
  then show ?case
    by (cases "x = e"; cases "en_seq x") (simp_all add: entry_marks_def map_filter_simps)
qed simp

lemma keeps_package:
  "keeps feed_moves (sweep_package env batch)"
  unfolding sweep_package_def by (auto intro!: moves_intros keeps_send_feed_batch keeps_remember)

lemma send_package_given:
  assumes run: "sweep_package env batch l = (Inr u, l')"
    and seqs: "\<forall>e \<in> set (fb_entries batch). en_seq e \<noteq> None"
    and covered: "row_covered env (lk_feed l) r batch" and sent: "sent_given l"
    and table: "find_table (le_catalog env) (fr_table r) \<noteq> None" "vr_version r = Some v"
  shows "(feed_key (fr_table r) (vr_hash r), v) \<in> set (lk_given l')"
proof -
  from keepsD [OF keeps_package run] have grow: "set (lk_given l) \<subseteq> set (lk_given l')" by (simp add: feed_moves_def)
  obtain es where es: "set (fb_entries batch) \<subseteq> set es"
    "set (map (\<lambda>(k, m). (k, sm_version m)) (entry_marks es @ fb_skipped batch)) \<subseteq> set (lk_given l')"
  proof (cases "fb_entries batch = []")
    case True
    with run that [of "[]"] show thesis
      by (auto simp: sweep_package_def remember_def note_sent_def entry_marks_def map_filter_def elim!: op_bind_InrE)
  next
    case False
    with run obtain d l1 where d: "deliver env (fb_entries batch) False l = (Inr d, l1)"
      and none: "first_seq (dl_unsettled d) None = None"
      and l': "l' = note_sent (entry_marks (dl_settled d) @ fb_skipped batch) l1"
      by (auto simp: sweep_package_def send_feed_batch_def remember_def elim!: op_bind_InrE split: option.splits)
    note parts = deliver_mset [OF d]
    have "set_mset (mset (dl_unsettled d)) \<subseteq> set_mset (mset (fb_entries batch))"
      unfolding parts [symmetric] by simp
    then have "set (dl_unsettled d) \<subseteq> set (fb_entries batch)" by simp
    with seqs have "\<forall>e \<in> set (dl_unsettled d). en_seq e \<noteq> None" by blast
    from first_seq_None [OF none this] have "dl_unsettled d = []" .
    with parts have "mset (dl_settled d) = mset (fb_entries batch)" by simp
    then have "set (dl_settled d) = set (fb_entries batch)" by (rule mset_eq_setD)
    with that [of "dl_settled d"] show thesis by (auto simp: l' note_sent_def)
  qed
  from covered table(1) obtain w where "vr_version r = Some w"
    "(\<exists>m. map_of (fp_sent (lk_feed l)) (feed_key (fr_table r) (vr_hash r)) = Some m \<and> sm_version m = w) \<or>
     (\<exists>s. (feed_key (fr_table r) (vr_hash r), \<lparr>sm_version = w, sm_seq = s\<rparr>) \<in> set (fb_skipped batch)) \<or>
     (\<exists>e \<in> set (fb_entries batch). tname (en_table e) = fr_table r \<and> en_hash e = vr_hash r \<and>
        version (en_version e) = w)"
    unfolding row_covered_def by (elim impE) auto
  with table(2) have "(\<exists>m. map_of (fp_sent (lk_feed l)) (feed_key (fr_table r) (vr_hash r)) = Some m \<and> sm_version m = v) \<or>
     (\<exists>s. (feed_key (fr_table r) (vr_hash r), \<lparr>sm_version = v, sm_seq = s\<rparr>) \<in> set (fb_skipped batch)) \<or>
     (\<exists>e \<in> set (fb_entries batch). tname (en_table e) = fr_table r \<and> en_hash e = vr_hash r \<and>
        version (en_version e) = v)" by simp
  then consider
    m where "map_of (fp_sent (lk_feed l)) (feed_key (fr_table r) (vr_hash r)) = Some m" "sm_version m = v"
    | s where "(feed_key (fr_table r) (vr_hash r), \<lparr>sm_version = v, sm_seq = s\<rparr>) \<in> set (fb_skipped batch)"
    | e where "e \<in> set (fb_entries batch)" "tname (en_table e) = fr_table r" "en_hash e = vr_hash r"
        "version (en_version e) = v"
    by blast
  then show ?thesis
  proof cases
    case 1
    with sent grow show ?thesis by (auto simp: sent_given_def dest: map_of_SomeD)
  next
    case 2
    with es(2) show ?thesis by force
  next
    case 3
    with seqs obtain q where "en_seq e = Some q" by auto
    from entry_marks_mem [OF _ this, of es] 3 es show ?thesis by auto
  qed
qed

lemma begin_sweep_inv:
  assumes inv: "feed_inv l" and run: "begin_sweep env l = (r, l')"
    and horizon: "stable_feed_position (le_horizon env) (le_startup_seq env) (lk_now l) (lk_samples l) <
      floor (lk_db l, lk_peer l)"
  obtains sw where "r = Inr sw" "fp_sweep (lk_feed l') = Some sw" "feed_inv l'"
proof (cases "fp_sweep (lk_feed l)")
  case None
  with inv horizon run that show thesis
    by (auto simp: begin_sweep_def op_bind_def op_write_def op_read_def Let_def feed_inv_def sent_given_def
        given_upto_def)
next
  case (Some sw)
  with inv run that show thesis by (auto simp: begin_sweep_def op_bind_def op_write_def op_read_def Let_def)
qed

text \<open>After the package of a sweep, everything it read and everything before it is noted.\<close>

lemma sweep_package_given:
  assumes inv: "feed_inv l" and sw: "fp_sweep (lk_feed l) = Some sw"
    and batch: "batch = next_feed_batch env l (sw_pos sw)"
    and run: "sweep_package env batch l = (Inr u, l')"
    and b: "b \<le> sw_stable sw" "\<not> fb_truncated batch \<or> b \<le> fb_read_to batch"
  shows "given_upto env l' b"
  unfolding given_upto_def
proof (intro allI impI)
  fix rid e
  assume e: "map_of (registry (lk_db l')) rid = Some e" "find_table (le_catalog env) (fst rid) \<noteq> None" "ve_seq e \<le> b"
  from keepsD [OF keeps_package run] inv have
    m: "moved (floor (lk_db l, lk_peer l)) (lk_db l) (lk_db l')" "set (lk_given l) \<subseteq> set (lk_given l')"
    by (simp_all add: feed_moves_def feed_inv_def)
  from inv sw have stable: "sw_stable sw < floor (lk_db l, lk_peer l)"
    and upto: "given_upto env l (min (sw_pos sw) (sw_stable sw))" and sent: "sent_given l"
    and ok: "feed_ok (lk_db l)" using wf_feed by (auto simp: feed_inv_def)
  from m(1) e(1, 3) b(1) stable have old: "map_of (registry (lk_db l)) rid = Some e"
    unfolding moved_def by fastforce
  show "(feed_key (fst rid) (snd rid), version (ve_version e)) \<in> set (lk_given l')"
  proof (cases "ve_seq e \<le> sw_pos sw")
    case True
    with e(2, 3) b(1) upto old m(2) show ?thesis by (fastforce simp: given_upto_def)
  next
    case False
    with b(2) e(3) have "row_covered env (lk_feed l) (feed_row_of (rid, e)) batch"
      by (intro next_feed_batch_covers [OF ok batch old]) auto
    from send_package_given [OF run _ this sent] next_feed_batch_seqs e(2) show ?thesis
      by (fastforce simp: batch)
  qed
qed

lemma finish_sweep_inv:
  assumes inv: "feed_inv l" and sw: "fp_sweep (lk_feed l) = Some sw"
    and given: "\<And>b. b \<le> sw_stable sw \<Longrightarrow> \<not> fb_truncated batch \<or> b \<le> fb_read_to batch \<Longrightarrow> given_upto env l b"
    and run: "finish_sweep_step sw batch l = (r, l')"
  shows "feed_inv l'"
proof (cases "fb_truncated batch \<and> fb_read_to batch < sw_until sw")
  case True
  with run have "l' = l\<lparr>lk_feed := (lk_feed l)\<lparr>fp_sweep := Some (sw\<lparr>sw_pos := fb_read_to batch\<rparr>)\<rparr>\<rparr>"
    by (simp add: finish_sweep_step_def op_bind_def op_write_def op_ok_def set_feed_def)
  with inv sw given [of "min (fb_read_to batch) (sw_stable sw)"] show ?thesis
    by (auto simp: feed_inv_def sent_given_def given_upto_def)
next
  case False
  define t where "t = (if sw_stable sw < sw_until sw then sw_stable sw else sw_until sw)"
  define l1 where "l1 = l\<lparr>lk_feed := (lk_feed l)\<lparr>fp_sweep := None, fp_last_sweep_at := lk_now l\<rparr>\<rparr>"
  from False run have l': "l' = snd (move_cursor t l1)"
    by (auto simp: finish_sweep_step_def op_bind_def op_read_def op_write_def op_ok_def set_feed_def
        move_cursor_def t_def l1_def)
  have "t \<le> sw_stable sw" "\<not> fb_truncated batch \<or> t \<le> fb_read_to batch"
    using False by (auto simp: t_def)
  from given [OF this] have upto: "given_upto env l t" .
  show ?thesis
  proof (cases "t \<le> fp_cursor (lk_feed l)")
    case True
    with inv show ?thesis
      by (simp add: l' l1_def move_cursor_def op_write_def Let_def feed_inv_def sent_given_def given_upto_def)
  next
    case False
    with inv sw upto \<open>t \<le> sw_stable sw\<close> show ?thesis
      by (auto simp: l' l1_def move_cursor_def op_write_def Let_def feed_inv_def sent_given_def given_upto_def)
  qed
qed

lemma sweep_step_inv:
  assumes inv: "feed_inv l" and run: "sweep_step env l = (r, l')"
    and horizon: "stable_feed_position (le_horizon env) (le_startup_seq env) (lk_now l) (lk_samples l) <
      floor (lk_db l, lk_peer l)"
  shows "feed_inv l'"
proof -
  obtain x l1 where "begin_sweep env l = (x, l1)" by fastforce
  moreover from begin_sweep_inv [OF inv this horizon] obtain sw where "x = Inr sw"
    and sw: "fp_sweep (lk_feed l1) = Some sw" and inv1: "feed_inv l1" .
  ultimately have start: "begin_sweep env l = (Inr sw, l1)" by simp
  define batch where "batch = next_feed_batch env l1 (sw_pos sw)"
  obtain y l2 where pack: "sweep_package env batch l1 = (y, l2)" by fastforce
  from feed_inv_keeps [OF keeps_package pack inv1] have inv2: "feed_inv l2" .
  from keepsD [OF keeps_package pack] sw have sw2: "fp_sweep (lk_feed l2) = Some sw" by (simp add: feed_moves_def)
  from run start pack have run2: "(r, l') = (case y of Inl err \<Rightarrow> (Inl err, l2) | Inr u \<Rightarrow> finish_sweep_step sw batch l2)"
    by (auto simp: sweep_step_def op_bind_def op_read_def batch_def split: sum.splits)
  show ?thesis
  proof (cases y)
    case (Inl err)
    with run2 inv2 show ?thesis by simp
  next
    case (Inr u)
    with run2 have fin: "finish_sweep_step sw batch l2 = (r, l')" by simp
    from finish_sweep_inv [OF inv2 sw2 sweep_package_given [OF inv1 sw batch_def pack [unfolded Inr]] fin]
    show ?thesis by blast
  qed
qed

lemma sync_peer_inv:
  assumes inv: "feed_inv l" and run: "sync_peer env head l = (r, l')"
    and horizon: "\<And>x l1. feed_stage env head l = (Inr x, l1) \<Longrightarrow>
      stable_feed_position (le_horizon env) (le_startup_seq env) (lk_now l1) (lk_samples l1) <
      floor (lk_db l1, lk_peer l1)"
  shows "feed_inv l'"
proof -
  have sweep: "feed_inv l2" if "feed_inv l1" "sweep_part env l1 = (x, l2)"
    "stable_feed_position (le_horizon env) (le_startup_seq env) (lk_now l1) (lk_samples l1) <
      floor (lk_db l1, lk_peer l1)" for l1 l2 x
    using that sweep_step_inv [OF that(1)]
    by (auto simp: sweep_part_def op_bind_def op_read_def op_ok_def split: if_splits)
  show ?thesis
    using run
    unfolding sync_peer_def
  proof (cases rule: op_bind_cases)
    case (throws e)
    from feed_inv_keeps [OF keeps_feed_stage throws(1) inv] show ?thesis .
  next
    case (goes_on a l1)
    obtain active p announced truncated where a: "a = (active, p, announced, truncated)" by (cases a)
    from feed_inv_keeps [OF keeps_feed_stage goes_on(1) inv] have inv1: "feed_inv l1" .
    from goes_on(2) show ?thesis
      unfolding a prod.case
    proof (cases rule: op_bind_cases)
      case (throws e)
      from sweep [OF inv1 throws(1) horizon [OF goes_on(1)]] show ?thesis .
    next
      case (goes_on sweeping l2)
      have "keeps feed_moves (op_bind (if active then transfer_part env head p else op_ok (announced, False))
          (\<lambda>(announced2, continues). op_bind (op_read (\<lambda>l. \<not> (truncated \<or> sweeping) \<and> \<not> continues \<and>
             head \<le> fp_read_to (lk_feed l) \<and> fp_pending_since (lk_feed l) = None)) (\<lambda>caught_up.
           op_bind (announce_part env announced2 caught_up) (\<lambda>u. op_ok (truncated \<or> sweeping \<or> continues)))))"
        by (auto intro!: moves_intros keeps_transfer_part keeps_announce_part split: prod.splits)
      from feed_inv_keeps [OF this goes_on(2)] sweep [OF inv1 goes_on(1) horizon [OF \<open>feed_stage env head l = (Inr a, l1)\<close>]]
      show ?thesis by simp
    qed
  qed
qed

end

end
