(* ===== verification/Feed_World.thy ===== *)
theory Feed_World
  imports Feed_Facts
begin

text \<open>
  The contract \<open>feed_world\<close> of Feed_Facts holds of the composed model: a sender (Replicator), its other writers
  and the receiving node (Receiver). Then everything that can happen to a link, as a step relation.
\<close>

section \<open>The composed world\<close>

definition open_floor :: "node_db \<times> outside \<Rightarrow> int" where
  "open_floor = (\<lambda>(db, os). fold min (map (ve_seq \<circ> ow_entry) (os_open os)) (next_seq db))"

definition world_ok :: "node_db \<times> outside \<Rightarrow> bool" where
  "world_ok = (\<lambda>(db, os). feed_ok db \<and> distinct (map (ve_seq \<circ> ow_entry) (os_open os)) \<and>
     (\<forall>w \<in> set (os_open os). ve_seq (ow_entry w) < next_seq db \<and>
        (\<forall>rid e. map_of (registry db) rid = Some e \<longrightarrow> ve_seq e \<noteq> ve_seq (ow_entry w))))"

lemma fold_min_le_iff: "b \<le> fold min xs (m :: int) \<longleftrightarrow> b \<le> m \<and> (\<forall>x \<in> set xs. b \<le> x)"
  by (induction xs arbitrary: m) auto

lemma open_floor_iff:
  "b \<le> open_floor (db, os) \<longleftrightarrow> b \<le> next_seq db \<and> (\<forall>w \<in> set (os_open os). b \<le> ve_seq (ow_entry w))"
  by (simp add: open_floor_def fold_min_le_iff)

lemma open_floor_le: "open_floor (db, os) \<le> next_seq db" "w \<in> set (os_open os) \<Longrightarrow> open_floor (db, os) \<le> ve_seq (ow_entry w)"
  using open_floor_iff [of "open_floor (db, os)" db os] by auto

lemma open_floor_receiver [simp]: "open_floor (db, os\<lparr>os_receiver := rv\<rparr>) = open_floor (db, os)"
  by (simp add: open_floor_def)

lemma world_ok_receiver [simp]: "world_ok (db, os\<lparr>os_receiver := rv\<rparr>) = world_ok (db, os)"
  by (simp add: world_ok_def)

lemma feed_ok_commit:
  assumes "feed_ok db" "ve_seq (ow_entry w) < next_seq db"
    "\<forall>rid e. map_of (registry db) rid = Some e \<longrightarrow> ve_seq e \<noteq> ve_seq (ow_entry w)"
  shows "feed_ok (commit_write w db)"
proof -
  have new: "map_of (registry (commit_write w db)) = (map_of (registry db))(ow_row w \<mapsto> ow_entry w)"
    by (simp add: commit_write_def)
  have "x = y" if "map_of (registry (commit_write w db)) x = Some e" "map_of (registry (commit_write w db)) y = Some e'"
    "ve_seq e = ve_seq e'" for x y e e'
  proof -
    from assms(1) have inj: "ve_seq e = ve_seq e' \<Longrightarrow> x = y"
      if "map_of (registry db) x = Some e" "map_of (registry db) y = Some e'"
      using that by (auto simp: feed_ok_def dest: inj_onD [of _ _ x y])
    have clash: "ve_seq e \<noteq> ve_seq (ow_entry w)" if "map_of (registry db) z = Some e" for z e
      using that assms(3) by (cases z) blast
    from that clash inj show ?thesis unfolding new by (fastforce split: if_splits)
  qed
  then have "inj_on (\<lambda>rid. ve_seq (the (map_of (registry (commit_write w db)) rid)))
      (dom (map_of (registry (commit_write w db))))"
    by (auto intro!: inj_onI)
  with assms(1, 2) show ?thesis
    by (auto simp: feed_ok_def commit_write_def distinct_al_put split: if_splits)
qed

lemma commit_ok:
  assumes ok: "world_ok (db, os)" and w: "w \<in> set (os_open os)"
  shows "world_ok (commit_write w db, os\<lparr>os_open := remove1 w (os_open os)\<rparr>)"
    and "open_floor (db, os) \<le> open_floor (commit_write w db, os\<lparr>os_open := remove1 w (os_open os)\<rparr>)"
    and "moved (open_floor (db, os)) db (commit_write w db)"
proof -
  from ok have d: "distinct (map (ve_seq \<circ> ow_entry) (os_open os))" and
    o: "\<And>v. v \<in> set (os_open os) \<Longrightarrow> ve_seq (ow_entry v) < next_seq db \<and>
        (\<forall>rid e. map_of (registry db) rid = Some e \<longrightarrow> ve_seq e \<noteq> ve_seq (ow_entry v))"
    and f: "feed_ok db" by (auto simp: world_ok_def)
  from d have dist: "distinct (os_open os)" by (simp add: distinct_map)
  have other: "ve_seq (ow_entry w) \<noteq> ve_seq (ow_entry v)" if "v \<in> set (remove1 w (os_open os))" for v
    using that d w dist by (auto simp: distinct_map dest!: inj_onD [of _ _ w v])
  have "feed_ok (commit_write w db)" using feed_ok_commit [OF f] o [OF w] by blast
  moreover have "distinct (map (ve_seq \<circ> ow_entry) (remove1 w (os_open os)))"
    using d w dist by (auto simp: distinct_map intro: inj_on_subset)
  ultimately show "world_ok (commit_write w db, os\<lparr>os_open := remove1 w (os_open os)\<rparr>)"
    using o other dist by (auto simp: world_ok_def commit_write_def)
  show "open_floor (db, os) \<le> open_floor (commit_write w db, os\<lparr>os_open := remove1 w (os_open os)\<rparr>)"
    using open_floor_le [where db = db and os = os] dist by (auto simp: open_floor_iff commit_write_def)
  show "moved (open_floor (db, os)) db (commit_write w db)"
    using open_floor_le(2) [OF w] by (auto simp: moved_def commit_write_def)
qed

lemma commit_next_ok:
  assumes "world_ok (db, os)" "commit_next (db, os) = (db', os')"
  shows "world_ok (db', os') \<and> open_floor (db, os) \<le> open_floor (db', os') \<and> moved (open_floor (db, os)) db db'"
proof (cases "os_open os")
  case Nil
  with assms show ?thesis by (auto simp: commit_next_def)
next
  case (Cons w ws)
  with assms(2) have "db' = commit_write w db" "os' = os\<lparr>os_open := remove1 w (os_open os)\<rparr>"
    by (auto simp: commit_next_def)
  with commit_ok [OF assms(1), of w] Cons show ?thesis by simp
qed

lemma put_ok:
  assumes "world_ok (db, os)"
  shows "world_ok (put_entry rid key v d via db, os)"
    and "open_floor (db, os) \<le> open_floor (put_entry rid key v d via db, os)"
proof -
  from assms have "feed_ok (put_entry rid key v d via db)" by (auto simp: world_ok_def intro: feed_ok_put)
  with assms show "world_ok (put_entry rid key v d via db, os)"
    by (force simp: world_ok_def put_entry_def)
  show "open_floor (db, os) \<le> open_floor (put_entry rid key v d via db, os)"
    using open_floor_le [where db = db and os = os] by (fastforce simp: open_floor_iff)
qed

lemma take_ok:
  assumes "world_ok (db, os)"
  shows "world_ok (db\<lparr>next_seq := next_seq db + 1\<rparr>,
      os\<lparr>os_open := os_open os @ [\<lparr>ow_row = rid, ow_entry = e\<lparr>ve_seq := next_seq db\<rparr>\<rparr>]\<rparr>)"
    and "open_floor (db, os) \<le> open_floor (db\<lparr>next_seq := next_seq db + 1\<rparr>,
      os\<lparr>os_open := os_open os @ [\<lparr>ow_row = rid, ow_entry = e\<lparr>ve_seq := next_seq db\<rparr>\<rparr>]\<rparr>)"
proof -
  from assms show "world_ok (db\<lparr>next_seq := next_seq db + 1\<rparr>,
      os\<lparr>os_open := os_open os @ [\<lparr>ow_row = rid, ow_entry = e\<lparr>ve_seq := next_seq db\<rparr>\<rparr>]\<rparr>)"
    by (fastforce simp: world_ok_def feed_ok_def)
  show "open_floor (db, os) \<le> open_floor (db\<lparr>next_seq := next_seq db + 1\<rparr>,
      os\<lparr>os_open := os_open os @ [\<lparr>ow_row = rid, ow_entry = e\<lparr>ve_seq := next_seq db\<rparr>\<rparr>]\<rparr>)"
    using open_floor_le [where db = db and os = os] by (fastforce simp: open_floor_iff)
qed

lemma fail_ok:
  assumes "world_ok (db, os)"
  shows "world_ok (db, os\<lparr>os_open := remove1 w (os_open os)\<rparr>)"
    and "open_floor (db, os) \<le> open_floor (db, os\<lparr>os_open := remove1 w (os_open os)\<rparr>)"
proof -
  note sub = set_remove1_subset [of w "os_open os"]
  from assms sub show "world_ok (db, os\<lparr>os_open := remove1 w (os_open os)\<rparr>)"
    by (auto simp: world_ok_def distinct_map intro: inj_on_subset dest!: subsetD)
  show "open_floor (db, os) \<le> open_floor (db, os\<lparr>os_open := remove1 w (os_open os)\<rparr>)"
    using open_floor_le [where db = db and os = os] sub by (auto simp: open_floor_iff)
qed

lemma rows_ok:
  assumes "registry db' = registry db" "next_seq db' = next_seq db"
  shows "world_ok (db', os) = world_ok (db, os)" and "open_floor (db', os) = open_floor (db, os)"
  using assms by (simp_all add: world_ok_def open_floor_def feed_ok_def)

interpretation world: feed_world "joined env" open_floor world_ok for env
proof unfold_locales
  fix db p show "world_ok (db, p) \<Longrightarrow> feed_ok db \<and> open_floor (db, p) \<le> next_seq db"
    using open_floor_le(1) by (simp add: world_ok_def)
next
  fix db p items a db' p'
  assume "world_ok (db, p)" "le_offer (joined env) items (db, p) = (a, db', p')"
  moreover from this(2) obtain rv where "commit_next (db, p\<lparr>os_receiver := rv\<rparr>) = (db', p')"
    by (auto simp: joined_def outside_offer_def split: prod.splits)
  ultimately show "world_ok (db', p') \<and> open_floor (db, p) \<le> open_floor (db', p') \<and> moved (open_floor (db, p)) db db'"
    using commit_next_ok [of db "p\<lparr>os_receiver := rv\<rparr>" db' p'] by simp
next
  fix db p bs dr b db' p'
  assume "world_ok (db, p)" "le_push (joined env) bs dr (db, p) = (b, db', p')"
  moreover from this(2) obtain rv where "commit_next (db, p\<lparr>os_receiver := rv\<rparr>) = (db', p')"
    by (auto simp: joined_def outside_push_def split: prod.splits)
  ultimately show "world_ok (db', p') \<and> open_floor (db, p) \<le> open_floor (db', p') \<and> moved (open_floor (db, p)) db db'"
    using commit_next_ok [of db "p\<lparr>os_receiver := rv\<rparr>" db' p'] by simp
next
  fix db p rid key v d via
  assume "world_ok (db, p)"
  then show "world_ok (put_entry rid key v d via db, p) \<and> open_floor (db, p) \<le> open_floor (put_entry rid key v d via db, p)"
    using put_ok by blast
qed


section \<open>What can happen to a link\<close>

text \<open>The stable position, as read now, lies below every position an open transaction holds: what
  CLUSTER_COMMIT_HORIZON_MS is for.\<close>

definition horizon_held :: "outside link_env \<Rightarrow> outside link \<Rightarrow> bool" where
  "horizon_held env l \<longleftrightarrow>
     stable_feed_position (le_horizon env) (le_startup_seq env) (lk_now l) (lk_samples l) < open_floor (lk_db l, lk_peer l)"

definition take_position :: "row_id \<Rightarrow> version_entry \<Rightarrow> outside link \<Rightarrow> outside link" where
  "take_position rid e l =
     l\<lparr>lk_db := (lk_db l)\<lparr>next_seq := next_seq (lk_db l) + 1\<rparr>,
       lk_peer := (lk_peer l)\<lparr>os_open := os_open (lk_peer l) @
         [\<lparr>ow_row = rid, ow_entry = e\<lparr>ve_seq := next_seq (lk_db l)\<rparr>\<rparr>]\<rparr>\<rparr>"

definition restart :: "int \<Rightarrow> outside link \<Rightarrow> outside link" where
  "restart cursor l = l\<lparr>lk_feed := new_feed_progress (lk_now l) cursor, lk_samples := []\<rparr>"

text \<open>
  A node that runs since a start at which the head of the feed was \<open>startup\<close> (\<open>state.startupSeq\<close>, 0 when the head
  could not be read). Beside the link stands that number: a restart replaces it by the head of then.
\<close>

definition started :: "int \<Rightarrow> outside link_env \<Rightarrow> outside link_env" where
  "started startup env = env\<lparr>le_startup_seq := startup\<rparr>"

inductive link_step :: "outside link_env \<Rightarrow> int \<times> outside link \<Rightarrow> int \<times> outside link \<Rightarrow> bool" for env where
  write_begins: "link_step env (s, l) (s, take_position rid e l)"
| write_commits: "w \<in> set (os_open (lk_peer l)) \<Longrightarrow> link_step env (s, l)
    (s, l\<lparr>lk_db := commit_write w (lk_db l), lk_peer := (lk_peer l)\<lparr>os_open := remove1 w (os_open (lk_peer l))\<rparr>\<rparr>)"
| write_fails: "w \<in> set (os_open (lk_peer l)) \<Longrightarrow> link_step env (s, l)
    (s, l\<lparr>lk_peer := (lk_peer l)\<lparr>os_open := remove1 w (os_open (lk_peer l))\<rparr>\<rparr>)"
| rows_change: "registry db' = registry (lk_db l) \<Longrightarrow> next_seq db' = next_seq (lk_db l) \<Longrightarrow>
    link_step env (s, l) (s, l\<lparr>lk_db := db'\<rparr>)"
| receiver_lives: "link_step env (s, l) (s, l\<lparr>lk_peer := (lk_peer l)\<lparr>os_receiver := rv\<rparr>\<rparr>)"
| head_read: "read_feed_head (joined (started s env)) l = (r, l') \<Longrightarrow> link_step env (s, l) (s, l')"
| restarted: "lk_row l = Some row \<Longrightarrow> startup = max_seq (lk_db l) \<or> startup = 0 \<Longrightarrow>
    link_step env (s, l) (startup, restart (pr_sent_seq row) l)"
| round: "sync_peer (joined (started s env)) head l = (r, l') \<Longrightarrow>
    (\<And>x l1. feed_stage (joined (started s env)) head l = (Inr x, l1) \<Longrightarrow> horizon_held (joined (started s env)) l1) \<Longrightarrow>
    link_step env (s, l) (s, l')"

lemma feed_inv_started: "world.feed_inv (started s env) l = world.feed_inv env l"
  unfolding world.feed_inv_def given_upto_def by (simp add: joined_def started_def)

lemma feed_inv_link_step:
  assumes "link_step env a b" "world.feed_inv env (snd a)"
  shows "world.feed_inv env (snd b)"
  using assms
proof induction
  case (write_begins s l rid e)
  then have inv: "world.feed_inv env l" by simp
  then have ok: "world_ok (lk_db l, lk_peer l)" by (simp add: world.feed_inv_def)
  have "world.feed_moves l (take_position rid e l)"
    using take_ok [OF ok] by (simp add: world.feed_moves_def take_position_def sent_given_def moved_def)
  with world.feed_inv_moves [OF inv] show ?case by simp
next
  case (write_commits w l s)
  then have inv: "world.feed_inv env l" by simp
  then have ok: "world_ok (lk_db l, lk_peer l)" by (simp add: world.feed_inv_def)
  have "world.feed_moves l (l\<lparr>lk_db := commit_write w (lk_db l), lk_peer := (lk_peer l)\<lparr>os_open := remove1 w (os_open (lk_peer l))\<rparr>\<rparr>)"
    using commit_ok [OF ok write_commits(1)] by (simp add: world.feed_moves_def sent_given_def)
  with world.feed_inv_moves [OF inv] show ?case by simp
next
  case (write_fails w l s)
  then have inv: "world.feed_inv env l" by simp
  have "world.feed_moves l (l\<lparr>lk_peer := (lk_peer l)\<lparr>os_open := remove1 w (os_open (lk_peer l))\<rparr>\<rparr>)"
    using fail_ok [of "lk_db l" "lk_peer l" w] by (simp add: world.feed_moves_def sent_given_def)
  with world.feed_inv_moves [OF inv] show ?case by simp
next
  case (rows_change db' l s)
  then have inv: "world.feed_inv env l" by simp
  have "world.feed_moves l (l\<lparr>lk_db := db'\<rparr>)"
    using rows_ok [OF rows_change(1, 2)] rows_change
    by (simp add: world.feed_moves_def sent_given_def moved_def)
  with world.feed_inv_moves [OF inv] show ?case by simp
next
  case (receiver_lives s l rv)
  then have inv: "world.feed_inv env l" by simp
  have "world.feed_moves l (l\<lparr>lk_peer := (lk_peer l)\<lparr>os_receiver := rv\<rparr>\<rparr>)" by (simp add: world.feed_moves_def sent_given_def)
  with world.feed_inv_moves [OF inv] show ?case by simp
next
  case (head_read s l r l')
  then have inv: "world.feed_inv env l" by simp
  have "world.feed_moves l l'"
    using head_read(1)
    by (auto simp: read_feed_head_def op_bind_def op_read_def op_write_def op_ok_def world.feed_moves_def sent_given_def)
  with world.feed_inv_moves [OF inv] show ?case by simp
next
  case (restarted l row startup s)
  then show ?case
    by (auto simp: world.feed_inv_def restart_def new_feed_progress_def sent_given_def given_upto_def)
next
  case (round s head l r l')
  then have "world.feed_inv (started s env) l" by (simp add: feed_inv_started)
  from world.sync_peer_inv [OF this round(1)] round(2) show ?case
    by (simp add: horizon_held_def feed_inv_started)
qed

end
