(* ===== verification/Link_Sample.thy ===== *)
theory Link_Sample
  imports Feed_World Sample "HOL-Library.Code_Target_Nat"
begin

text \<open>
  A small concrete link for the witnesses: this node (\<^verbatim>\<open>node-0001\<close>) with one replicated table, the receiving
  node of Sample (\<^verbatim>\<open>node-0002\<close>), and a hash that makes 64 digits of everything.
\<close>

definition link_primitives :: primitives where
  "link_primitives = sample_primitives\<lparr>sha256_of := (\<lambda>b. take 32 (b @ replicate 32 0))\<rparr>"

definition sample_cx :: apply_ctx where
  "sample_cx = sample_ctx\<lparr>cx_pr := link_primitives, cx_self := ''node-0002''\<rparr>"

definition sample_receiver :: receiver where
  "sample_receiver = \<lparr>rv_cx = sample_cx, rv_db = sample_db, rv_may = True, rv_pushed = []\<rparr>"

definition sample_link_env :: "outside link_env" where
  "sample_link_env = \<lparr>le_sql = sample_env, le_pr = link_primitives, le_host = sample_host,
     le_catalog = \<lparr>tables = [sample_table], ordered = [sample_table], fingerprint = []\<rparr>, le_self = ''node-0001'',
     le_peer_id = ''node-0002'', le_startup_seq = 0, le_batch_size = 10, le_max_message = 1000000,
     le_horizon = 60000, le_batch_idle = 500, le_batch_max_delay = 2000,
     le_offer = (\<lambda>items w. (Inr [], w)), le_push = (\<lambda>bs dr w. (Inr [], w))\<rparr>"

definition sample_key_hash :: string where
  "sample_key_hash = compute_pk_hash link_primitives [''a'']"

definition sample_record :: "bool \<Rightarrow> version_entry" where
  "sample_record deleted = \<lparr>ve_pk = [''a''], ve_version = \<lparr>version = 7, origin = ''node-0001''\<rparr>, ve_via = None,
     ve_deleted = deleted, ve_changed_at = 0, ve_seq = 1\<rparr>"

text \<open>One row, changed here; nothing has been sent.\<close>

definition sample_link :: "outside link" where
  "sample_link = \<lparr>lk_db = sample_db\<lparr>rows := [(''t'', [JStr ''a'', JStr ''1''])],
       registry := [((''t'', sample_key_hash), sample_record False)], next_seq := 2\<rparr>,
     lk_peer = \<lparr>os_receiver = sample_receiver, os_open = []\<rparr>,
     lk_row = Some \<lparr>pr_sent_seq = 0, pr_scan_active = False, pr_scan = \<lparr>tp_table = None, tp_hash = None\<rparr>\<rparr>,
     lk_feed = new_feed_progress 0 0, lk_rows_sent = 0, lk_transfer_active = False,
     lk_samples = [], lk_given = []\<rparr>"

end
