(* ===== verification/Transfer_Facts.thy ===== *)
theory Transfer_Facts
  imports Replicator
begin

text \<open>
  The complete transfer: reading in stretches, each starting where the last one ended, is the same as reading
  the registry once, table by table in dependency order. \<open>all_from\<close> is that reference, \<open>transfer_run\<close> the
  stretches put together.
\<close>

section \<open>The reference\<close>

definition entry_of :: "table_info \<Rightarrow> registry_row \<Rightarrow> entry" where
  "entry_of t r = \<lparr>en_table = t, en_hash = vr_hash r, en_seq = None, en_offer_first = True, en_key = the (vr_pk r),
     en_version = \<lparr>version = the (vr_version r), origin = the (vr_origin r)\<rparr>, en_deleted = vr_deleted r\<rparr>"

fun all_from :: "node_db \<Rightarrow> table_info list \<Rightarrow> string \<Rightarrow> entry list" where
  "all_from db [] after = []"
| "all_from db (t # ts) after = map (entry_of t) (transfer_rows db (tname t) after) @ all_from db ts []"

text \<open>Stretch after stretch, at most \<open>n\<close> of them.\<close>

fun transfer_run :: "'p link_env \<Rightarrow> node_db \<Rightarrow> nat \<Rightarrow> nat \<Rightarrow> transfer_position \<Rightarrow> entry list \<times> transfer_position option" where
  "transfer_run env db limit 0 p = ([], Some p)"
| "transfer_run env db limit (Suc n) p =
     (case read_transfer env db p limit of
        (es, None) \<Rightarrow> (es, None)
      | (es, Some q) \<Rightarrow> (let (more, r) = transfer_run env db limit n q in (es @ more, r)))"

section \<open>Rows of one table\<close>

lemma transfer_rows_complete: "r \<in> set (transfer_rows db t a) \<Longrightarrow> to_entry ti r None True = Some (entry_of ti r)"
  by (auto simp: transfer_rows_def registry_row_of_def to_entry_def entry_of_def)

lemma transfer_entries_map:
  "set rs \<subseteq> set (transfer_rows db t a) \<Longrightarrow> transfer_entries ti rs = map (entry_of ti) rs"
proof (induction rs)
  case (Cons r rs)
  then show ?case using transfer_rows_complete [of r db t a ti] by (simp add: transfer_entries_def map_filter_simps)
qed (simp add: transfer_entries_def map_filter_simps)

text \<open>Within a table the hashes are distinct, so the rows after the last one read are the rest.\<close>

lemma distinct_hashes:
  assumes "distinct (map fst (registry db))"
  shows "distinct (map vr_hash (transfer_rows db t a))"
proof -
  have "distinct (map (snd \<circ> fst) (filter (\<lambda>(rid, e). fst rid = t \<and> str_less a (snd rid)) es))"
    if "distinct (map fst es)" for es :: "(row_id \<times> version_entry) list"
    using that by (induction es) (auto simp: image_iff)
  from this [OF assms] have "distinct (map vr_hash (map (\<lambda>(rid, e). registry_row_of rid e)
      (filter (\<lambda>(rid, e). fst rid = t \<and> str_less a (snd rid)) (registry db))))"
    by (simp add: comp_def case_prod_unfold registry_row_of_def)
  then show ?thesis
    unfolding transfer_rows_def
    by (rule mset_eq_imp_distinct_iff [THEN iffD2, rotated]) (simp only: mset_map mset_sort)
qed

lemma filter_after_last:
  fixes f :: "'a \<Rightarrow> string"
  assumes "sorted (map f xs)" "distinct (map f xs)" "0 < k" "k \<le> length xs"
  shows "filter (\<lambda>x. str_less (f (xs ! (k - 1))) (f x)) xs = drop k xs"
proof -
  have strict: "i < j \<Longrightarrow> j < length xs \<Longrightarrow> f (xs ! i) < f (xs ! j)" for i j
    using assms(1, 2) sorted_nth_mono [of "map f xs" i j] nth_eq_iff_index_eq [of "map f xs" i j]
    by (auto simp: order.strict_iff_order)
  have low: "\<not> str_less (f (xs ! (k - 1))) (f x)" if "x \<in> set (take k xs)" for x
  proof -
    from that obtain i where "i < k" "i < length xs" "x = xs ! i" by (auto simp: in_set_conv_nth)
    with sorted_nth_mono [OF assms(1), of i "k - 1"] assms(3, 4) have "f x \<le> f (xs ! (k - 1))" by simp
    then show ?thesis by (simp add: str_less_def leD)
  qed
  have high: "str_less (f (xs ! (k - 1))) (f x)" if "x \<in> set (drop k xs)" for x
  proof -
    from that obtain i where "i < length xs - k" "x = xs ! (k + i)" by (auto simp: in_set_conv_nth)
    with strict [of "k - 1" "k + i"] assms(3, 4) show ?thesis by (auto simp: str_less_def)
  qed
  have "filter (\<lambda>x. str_less (f (xs ! (k - 1))) (f x)) (take k xs @ drop k xs) = drop k xs"
    unfolding filter_append using low high by (simp add: filter_id_conv filter_empty_conv del: append_take_drop_id)
  then show ?thesis by simp
qed

lemma transfer_rows_after:
  assumes "distinct (map fst (registry db))" "0 < k" "k \<le> length (transfer_rows db t a)"
  shows "transfer_rows db t (vr_hash (last (take k (transfer_rows db t a)))) = drop k (transfer_rows db t a)"
proof -
  let ?rs = "transfer_rows db t a" and ?h = "vr_hash (last (take k (transfer_rows db t a)))"
  have h: "?h = vr_hash (?rs ! (k - 1))"
    using assms(2, 3) by (subst last_conv_nth) (auto simp: min_def)
  have "?rs ! (k - 1) \<in> set ?rs" using assms(2, 3) by simp
  then have "str_less a ?h" unfolding h by (auto simp: transfer_rows_def registry_row_of_def)
  then have "filter (\<lambda>r. str_less ?h (vr_hash r)) ?rs = transfer_rows db t ?h"
    by (auto simp: transfer_rows_def filter_sort filter_map registry_row_of_def comp_def case_prod_unfold
        intro!: arg_cong [where f = "sort_key vr_hash"] arg_cong [where f = "map _"] filter_cong
        intro: str_less_trans)
  moreover have "filter (\<lambda>r. str_less ?h (vr_hash r)) ?rs = drop k ?rs"
    unfolding h using filter_after_last [of vr_hash ?rs k] distinct_hashes [OF assms(1)] assms(2, 3)
    by (simp add: transfer_rows_def)
  ultimately show ?thesis by simp
qed

section \<open>A stretch\<close>

definition rest_of :: "node_db \<Rightarrow> table_info list \<Rightarrow> transfer_position \<Rightarrow> entry list" where
  "rest_of db tabs p = (case transfer_start tabs p of None \<Rightarrow> [] | Some (i, a) \<Rightarrow> all_from db (drop i tabs) a)"

lemma find_index_mid: "distinct (map tname (ps @ t # ts)) \<Longrightarrow>
    find_index (\<lambda>x. tname x = tname t) (ps @ t # ts) = Some (length ps)"
  by (induction ps) auto

lemma rest_of_mid:
  assumes "distinct (map tname (ps @ t # ts))" "tname t \<noteq> []"
  shows "rest_of db (ps @ t # ts) \<lparr>tp_table = Some (tname t), tp_hash = h\<rparr> =
    all_from db (t # ts) (case h of None \<Rightarrow> [] | Some s \<Rightarrow> s)"
  using assms(2) find_index_mid [OF assms(1)] by (cases h) (simp_all add: rest_of_def transfer_start_def)

lemma transfer_walk_stretch:
  assumes "transfer_walk db limit ts a acc nxt = (es, r)" "length acc < limit" "tabs = ps @ ts"
    "distinct (map tname tabs)" "\<forall>t \<in> set tabs. tname t \<noteq> []" "distinct (map fst (registry db))"
  shows "case r of
      None \<Rightarrow> es = acc @ all_from db ts a
    | Some q \<Rightarrow> length es = limit \<and> es @ rest_of db tabs q = acc @ all_from db ts a"
  using assms
proof (induction ts arbitrary: ps a acc nxt)
  case Nil
  then show ?case by auto
next
  case (Cons t ts)
  define all where "all = transfer_rows db (tname t) a"
  define k where "k = limit - length acc"
  have k: "0 < k" using Cons.prems(2) by (simp add: k_def)
  have entries: "transfer_entries t (take k all) = map (entry_of t) (take k all)"
    by (rule transfer_entries_map [of _ db "tname t" a]) (auto simp: all_def dest: in_set_takeD)
  let ?acc = "acc @ map (entry_of t) (take k all)"
  let ?nxt = "if take k all \<noteq> [] then Some \<lparr>tp_table = Some (tname t), tp_hash = Some (vr_hash (last (take k all)))\<rparr> else nxt"
  have step: "transfer_walk db limit (t # ts) a acc nxt =
      (if limit \<le> length ?acc then (?acc, ?nxt)
       else transfer_walk db limit ts [] ?acc
              (case ts of [] \<Rightarrow> ?nxt | t2 # _ \<Rightarrow> Some \<lparr>tp_table = Some (tname t2), tp_hash = None\<rparr>))"
    by (simp only: transfer_walk.simps Let_def all_def [symmetric] k_def [symmetric] entries)
  show ?case
  proof (cases "limit \<le> length ?acc")
    case True
    then have len: "k \<le> length all" by (auto simp: k_def min_def split: if_splits)
    with True k Cons.prems(1) step have es: "es = ?acc"
      and r: "r = Some \<lparr>tp_table = Some (tname t), tp_hash = Some (vr_hash (last (take k all)))\<rparr>" by auto
    have "rest_of db tabs \<lparr>tp_table = Some (tname t), tp_hash = Some (vr_hash (last (take k all)))\<rparr> =
        map (entry_of t) (drop k all) @ all_from db ts []"
      using rest_of_mid [of ps t ts db] Cons.prems(3-5) transfer_rows_after [OF Cons.prems(6) k len [unfolded all_def]]
      by (simp add: all_def)
    then show ?thesis
      using len k by (simp add: r es all_def [symmetric] k_def flip: map_append)
  next
    case False
    then have "take k all = all" by (auto simp: k_def)
    from False Cons.prems(1) step obtain nx where walk: "transfer_walk db limit ts [] ?acc nx = (es, r)" by simp
    from Cons.IH [OF walk, of "ps @ [t]"] False Cons.prems(3-6) show ?thesis
      unfolding \<open>take k all = all\<close> by (simp add: all_def split: option.splits)
  qed
qed

lemma read_transfer_stretch:
  assumes "read_transfer env db p limit = (es, r)" "0 < limit" "distinct (map tname (ordered (le_catalog env)))"
    "\<forall>t \<in> set (ordered (le_catalog env)). tname t \<noteq> []" "distinct (map fst (registry db))"
  shows "case r of
      None \<Rightarrow> es = rest_of db (ordered (le_catalog env)) p
    | Some q \<Rightarrow> length es = limit \<and>
        es @ rest_of db (ordered (le_catalog env)) q = rest_of db (ordered (le_catalog env)) p"
proof (cases "transfer_start (ordered (le_catalog env)) p")
  case None
  with assms(1) show ?thesis by (auto simp: read_transfer_def rest_of_def Let_def)
next
  case (Some ia)
  obtain i a where ia: "ia = (i, a)" by (cases ia)
  with Some assms(1) have "transfer_walk db limit (drop i (ordered (le_catalog env))) a [] None = (es, r)"
    by (simp add: read_transfer_def Let_def)
  moreover have "rest_of db (ordered (le_catalog env)) p = all_from db (drop i (ordered (le_catalog env))) a"
    by (simp add: rest_of_def Some ia)
  ultimately show ?thesis
    using transfer_walk_stretch [of db limit _ a "[]" None es r "ordered (le_catalog env)" "take i (ordered (le_catalog env))"] assms
    by (cases r) simp_all
qed

lemma transfer_run_all:
  assumes "0 < limit" "distinct (map tname (ordered (le_catalog env)))"
    "\<forall>t \<in> set (ordered (le_catalog env)). tname t \<noteq> []" "distinct (map fst (registry db))"
  shows "length (rest_of db (ordered (le_catalog env)) p) < n * limit \<Longrightarrow>
    transfer_run env db limit n p = (rest_of db (ordered (le_catalog env)) p, None)"
proof (induction n arbitrary: p)
  case (Suc n)
  obtain es r where step: "read_transfer env db p limit = (es, r)" by fastforce
  note stretch = read_transfer_stretch [OF step assms]
  show ?case
  proof (cases r)
    case None
    with stretch step show ?thesis by simp
  next
    case (Some q)
    with stretch have s: "length es = limit" "es @ rest_of db (ordered (le_catalog env)) q = rest_of db (ordered (le_catalog env)) p"
      by simp_all
    from arg_cong [OF s(2), of length] s(1) Suc.prems
    have "length (rest_of db (ordered (le_catalog env)) q) < n * limit" by simp
    from Suc.IH [OF this] s(2) step Some show ?thesis by simp
  qed
qed simp

end
