(* ===== verification/Replicator_Theorems.thy ===== *)
theory Replicator_Theorems
  imports Link_Sample Transfer_Facts
begin

text \<open>
  The properties of the replicator, over the composed model: a sender (Replicator), its other writers and the
  receiving node (Receiver, with the applier behind it).
\<close>

section \<open>The stored position\<close>














section \<open>Deliveries\<close>

text \<open>C2: What a delivery reports as settled, the other node really has. Sender and receiver composed: for every
  settled entry the receiving node holds that version of the row or a newer one, or has it (or a newer one) in
  its table of the changes set aside, or does not replicate the table; the only other cases are a row that had
  disappeared here when it was to be read, and a change that was cleared from the table set aside because the
  receiving node took a pushed change of the same row with the same number from another node
  (the properties of the applier show the last to happen).\<close>

theorem settled_rows_are_taken_over:
  assumes "deliver (joined env) entries drained l = (Inr d, l')" "e \<in> set (dl_settled d)"
  shows "taken_over (os_receiver (lk_peer l')) (tname (en_table e), en_hash e) (en_version e) \<or>
    \<not> replicates (os_receiver (lk_peer l')) (tname (en_table e)) \<or>
    (\<exists>wanted declined l1. offer_entries (joined env) entries l = (Inr (wanted, declined), l1) \<and>
       \<not> en_deleted e \<and> \<not> row_present (joined env) (lk_db l1) e)"
proof -
  from assms(1) obtain wanted declined l1 where
    offer: "offer_entries (joined env) entries l = (Inr (wanted, declined), l1)" and
    send: "send_entries (joined env) drained (to_send entries wanted) declined l1 = (Inr d, l')"
    by (auto simp: deliver_def elim!: op_bind_InrE)
  from receiving.offer_chunks_known [OF offer [unfolded offer_entries_def]]
  have "\<forall>e \<in> set declined. receiving.known_entry l1 e" by simp
  from receiving.send_entries_known [OF send assms(2) this] not_loaded offer show ?thesis
    unfolding receiving.known_entry_def by blast
qed

definition sample_entry :: "bool \<Rightarrow> entry" where
  "sample_entry offer_first = \<lparr>en_table = sample_table, en_hash = sample_key_hash, en_seq = Some 1,
     en_offer_first = offer_first, en_key = [''a''], en_version = \<lparr>version = 7, origin = ''node-0001''\<rparr>,
     en_deleted = False\<rparr>"

definition sample_delivery :: "(string + delivery) \<times> outside link" where
  "sample_delivery = deliver (joined sample_link_env) [sample_entry True] True sample_link"

lemma sample_delivery_run:
  "sample_delivery = (Inr \<lparr>dl_settled = [sample_entry True], dl_unsettled = [], dl_announced = True\<rparr>, snd sample_delivery)"
proof -
  have "fst sample_delivery = Inr \<lparr>dl_settled = [sample_entry True], dl_unsettled = [], dl_announced = True\<rparr>"
    by code_simp
  then show ?thesis by (metis prod.collapse)
qed

lemma settled_rows_are_taken_over_witness:
  "taken_over (os_receiver (lk_peer (snd sample_delivery))) (''t'', sample_key_hash) \<lparr>version = 7, origin = ''node-0001''\<rparr>"
proof -
  have "sample_entry True \<in> set (dl_settled \<lparr>dl_settled = [sample_entry True], dl_unsettled = [], dl_announced = True\<rparr>)"
    by simp
  note this [THEN settled_rows_are_taken_over [OF sample_delivery_run [unfolded sample_delivery_def]]]
  moreover have "replicates (os_receiver (lk_peer (snd sample_delivery))) ''t''" by code_simp
  moreover have "\<not> (\<exists>wanted declined l1.
      offer_entries (joined sample_link_env) [sample_entry True] sample_link = (Inr (wanted, declined), l1) \<and>
      \<not> row_present (joined sample_link_env) (lk_db l1) (sample_entry True))"
  proof -
    have "row_present (joined sample_link_env)
        (lk_db (snd (offer_entries (joined sample_link_env) [sample_entry True] sample_link))) (sample_entry True)"
      by code_simp
    then show ?thesis by auto
  qed
  ultimately show ?thesis
    by (auto simp: sample_delivery_def sample_entry_def sample_table_def)
qed

text \<open>A delivery loses nothing and makes nothing up: settled and unsettled entries together are, with
  multiplicity, exactly the entries handed in.\<close>

theorem delivery_accounts_for_every_entry:
  assumes "deliver env entries drained l = (Inr d, l')"
  shows "mset (dl_settled d) + mset (dl_unsettled d) = mset entries"
  using assms by (rule deliver_mset)

lemma delivery_accounts_for_every_entry_witness:
  "mset [sample_entry True] + mset [] = mset [sample_entry True]"
  using delivery_accounts_for_every_entry [OF sample_delivery_run [unfolded sample_delivery_def]] by simp

text \<open>A package is cut into calls that keep the order and stay within half the message limit: the calls put
  together are the package, none is empty, and only a single row may be larger than the limit.\<close>

theorem calls_stay_within_the_limit:
  "concat (pack_chunks limit os) = os \<and>
   (\<forall>c \<in> set (pack_chunks limit os). c \<noteq> [] \<and> (length c = 1 \<or> sum_list (map og_size c) \<le> limit))"
  using pack_chunks_nonempty pack_chunks_size by auto

lemma calls_stay_within_the_limit_witness:
  "list_all (\<lambda>c. length c = 1 \<or> sum_list (map og_size c) \<le> 500) (pack_chunks 500 (replicate 3
     \<lparr>og_entry = sample_entry False, og_item = item_of (sample_entry False) None, og_size = 200\<rparr>))"
  unfolding list_all_iff using calls_stay_within_the_limit [of 500] by blast

section \<open>The complete transfer\<close>

text \<open>C21: A complete transfer ends and covers everything: read in stretches of any size, each from where the
  last one stopped, it hands out every record of every replicated table exactly once, in dependency order of
  the tables and key order within one, after at most one stretch more than the records fill.\<close>

theorem transfer_covers_everything:
  assumes "0 < limit" "distinct (map tname (ordered (le_catalog env)))"
    "\<forall>t \<in> set (ordered (le_catalog env)). tname t \<noteq> []" "distinct (map fst (registry db))"
    and "length (all_from db (ordered (le_catalog env)) []) < n * limit"
  shows "transfer_run env db limit n \<lparr>tp_table = None, tp_hash = None\<rparr> =
    (all_from db (ordered (le_catalog env)) [], None)"
proof -
  have "rest_of db (ordered (le_catalog env)) \<lparr>tp_table = None, tp_hash = None\<rparr> =
      all_from db (ordered (le_catalog env)) []"
    by (simp add: rest_of_def transfer_start_def)
  with transfer_run_all [OF assms(1-4), of "\<lparr>tp_table = None, tp_hash = None\<rparr>" n] assms(5) show ?thesis by simp
qed

lemma transfer_covers_everything_witness:
  "\<exists>e. transfer_run sample_link_env (lk_db sample_link) 1 2 \<lparr>tp_table = None, tp_hash = None\<rparr> = ([e], None)"
proof -
  have all: "length (all_from (lk_db sample_link) (ordered (le_catalog sample_link_env)) []) = 1" by code_simp
  have t: "distinct (map tname (ordered (le_catalog sample_link_env)))"
    "\<forall>t \<in> set (ordered (le_catalog sample_link_env)). tname t \<noteq> []"
    "distinct (map fst (registry (lk_db sample_link)))" by code_simp+
  from transfer_covers_everything [of 1, OF _ t, of 2] all show ?thesis by (simp add: length_Suc_conv)
qed

section \<open>Where the protocol gets in the way\<close>

fun alternating :: "entry list \<Rightarrow> bool" where
  "alternating (a # b # es) \<longleftrightarrow> tname (en_table a) \<noteq> tname (en_table b) \<and> alternating (b # es)"
| "alternating es \<longleftrightarrow> True"

lemma add_to_batches_new:
  "bs = [] \<or> wb_table (last bs) \<noteq> tname (en_table (og_entry og)) \<Longrightarrow> add_to_batches og bs = bs @ add_to_batches og []"
  by (induction og bs rule: add_to_batches.induct) (auto split: if_splits)

lemma group_batches_alternating:
  assumes "alternating (map og_entry chunk)"
  shows "length (group_batches chunk) = length chunk"
proof -
  have "length (fold add_to_batches chunk bs) = length bs + length chunk"
    if "alternating (map og_entry chunk)"
      "bs = [] \<or> chunk = [] \<or> wb_table (last bs) \<noteq> tname (en_table (og_entry (hd chunk)))" for bs
    using that
  proof (induction chunk arbitrary: bs)
    case (Cons og os)
    have new: "add_to_batches og bs = bs @ add_to_batches og []"
      using Cons.prems(2) by (intro add_to_batches_new) auto
    have "alternating (map og_entry os)" "os = [] \<or> tname (en_table (og_entry og)) \<noteq> tname (en_table (og_entry (hd os)))"
      using Cons.prems(1) by (cases os; simp)+
    then have "length (fold add_to_batches os (bs @ add_to_batches og [])) =
        length (bs @ add_to_batches og []) + length os"
      by (intro Cons.IH) auto
    then show ?case using new by simp
  qed simp
  from this [OF assms, of "[]"] show ?thesis by (simp add: group_batches_def)
qed

lemma push_refused:
  assumes "256 < length bs" "call_push (joined env) bs dr l = (r, l')"
  shows "(\<exists>msg. r = Inl msg) \<and> lk_feed l' = lk_feed l \<and> os_receiver (lk_peer l') = os_receiver (lk_peer l)"
  using assms
  by (auto simp: call_push_def joined_def outside_push_def handle_push_def push_schema_ok_def commit_next_def
      split: prod.splits if_splits list.splits)

lemma sort_out_deletions:
  "\<forall>e \<in> set es. en_deleted e \<Longrightarrow> sort_out env (map (\<lambda>e. (e, row e)) es) so l =
     (Inr (so\<lparr>so_outgoing := so_outgoing so @ map (\<lambda>e. \<lparr>og_entry = e, og_item = item_of e None, og_size = 200\<rparr>) es\<rparr>), l)"
  by (induction es arbitrary: so) (simp_all add: op_ok_def)

lemma fill_chunk_all:
  "sz + sum_list (map og_size os) \<le> limit \<Longrightarrow> fill_chunk limit sz os = (os, [])"
  by (induction limit sz os rule: fill_chunk.induct) (simp_all add: add.assoc)

lemma to_send_none_offered: "\<forall>e \<in> set es. \<not> en_offer_first e \<Longrightarrow> to_send es [] = es"
proof -
  assume none: "\<forall>e \<in> set es. \<not> en_offer_first e"
  then have "filter (\<lambda>(i, e). \<not> en_offer_first e) (enumerate 0 es) = enumerate 0 es"
    by (auto simp: filter_id_conv in_set_enumerate_eq)
  moreover have "sort_key fst (enumerate 0 es) = enumerate 0 es"
    by (rule sort_key_id_if_sorted) simp
  ultimately show ?thesis by (simp add: to_send_def)
qed

text \<open>C33: A package whose changes alternate between tables, more than 256 times, can never be delivered: the
  receiver's schema takes at most 256 batches in a call, and neighbouring rows of different tables are
  different batches. The call is refused whatever is in it, nothing is applied, and the position the feed is
  read from stays, so the next round reads the same package again. (Shown on deletions made here; a package
  holds up to CLUSTER_BATCH_SIZE changes, 500 unless set otherwise.)\<close>

theorem alternating_tables_block_the_feed:
  assumes "\<forall>e \<in> set (fb_entries batch). en_deleted e \<and> \<not> en_offer_first e" "alternating (fb_entries batch)"
    "256 < length (fb_entries batch)" "200 * length (fb_entries batch) \<le> le_max_message env div 2"
    and run: "send_feed_batch (joined env) batch drained l = (r, l')"
  shows "(\<exists>msg. r = Inl msg) \<and> lk_feed l' = lk_feed l \<and> os_receiver (lk_peer l') = os_receiver (lk_peer l)"
proof -
  let ?es = "fb_entries batch"
  let ?os = "map (\<lambda>e. \<lparr>og_entry = e, og_item = item_of e None, og_size = 200\<rparr>) ?es"
  let ?so = "\<lparr>so_outgoing = ?os, so_settled = [], so_unsettled = []\<rparr>"
  have none: "filter (\<lambda>(i, e). en_offer_first e) (enumerate 0 ?es) = []"
    using assms(1) by (auto simp: filter_empty_conv in_set_enumerate_eq)
  have offers: "offer_entries (joined env) ?es l = (Inr ([], []), l)"
    by (simp add: offer_entries_def none op_ok_def)
  obtain o1 os where os: "?os = o1 # os" using assms(3) by (cases ?es) auto
  have "og_size o1 + sum_list (map og_size os) \<le> le_max_message env div 2"
  proof -
    have "sum_list (map og_size ?os) = 200 * length ?es"
      by (simp add: comp_def sum_list_triv)
    with assms(4) show ?thesis by (simp add: os)
  qed
  from fill_chunk_all [OF this] os have chunks: "pack_chunks (le_max_message (joined env) div 2) ?os = [?os]"
    by (simp add: joined_def)
  obtain x l1 where push: "push_chunk (joined env) ?os drained l = (x, l1)" by fastforce
  have "length (group_batches ?os) > 256"
    using group_batches_alternating [of ?os] assms(2, 3) by (simp add: comp_def)
  obtain y l2 where call: "call_push (joined env) (group_batches ?os) drained l = (y, l2)" by fastforce
  from push_refused [OF \<open>length (group_batches ?os) > 256\<close> call] obtain msg where
    y: "y = Inl msg" and kept: "lk_feed l2 = lk_feed l" "os_receiver (lk_peer l2) = os_receiver (lk_peer l)" by blast
  with call push have x: "x = Inl msg" "l1 = l2" by (auto simp: push_chunk_def op_bind_def)
  have "deliver (joined env) ?es drained l = (Inl msg, l2)"
    using assms(1) push x
    by (simp add: deliver_def send_entries_def op_bind_def offers to_send_none_offered op_read_def
        sort_out_deletions chunks)
  with run kept show ?thesis by (auto simp: send_feed_batch_def op_bind_def)
qed

definition sample_deletion :: "string \<Rightarrow> entry" where
  "sample_deletion t = (sample_entry False)\<lparr>en_deleted := True, en_table := sample_table\<lparr>tname := t\<rparr>\<rparr>"

definition sample_mixed_batch :: feed_batch where
  "sample_mixed_batch = \<lparr>fb_entries = concat (replicate 129 [sample_deletion ''t'', sample_deletion ''u'']),
     fb_read_to = 258, fb_truncated = False, fb_skipped = []\<rparr>"

lemma alternating_pairs:
  "tname (en_table a) \<noteq> tname (en_table b) \<Longrightarrow> alternating (concat (replicate n [a, b]))"
proof (induction n)
  case (Suc n)
  then show ?case by (cases n) auto
qed simp

lemma alternating_tables_block_the_feed_witness:
  "\<exists>msg l'. send_feed_batch (joined sample_link_env) sample_mixed_batch True sample_link = (Inl msg, l') \<and>
     lk_feed l' = lk_feed sample_link"
proof -
  obtain r l' where run: "send_feed_batch (joined sample_link_env) sample_mixed_batch True sample_link = (r, l')"
    by fastforce
  have deleted: "\<forall>e \<in> set (fb_entries sample_mixed_batch). en_deleted e \<and> \<not> en_offer_first e"
    by (auto simp: sample_mixed_batch_def sample_deletion_def sample_entry_def)
  have mixed: "alternating (fb_entries sample_mixed_batch)"
    unfolding sample_mixed_batch_def feed_batch.simps by (rule alternating_pairs) (simp add: sample_deletion_def)
  have "length (concat (replicate n [a, b])) = 2 * n" for n :: nat and a b :: entry
    by (induction n) auto
  then have len: "length (fb_entries sample_mixed_batch) = 258" by (simp add: sample_mixed_batch_def)
  from alternating_tables_block_the_feed [OF deleted mixed _ _ run] len run show ?thesis
    by (fastforce simp: sample_link_env_def)
qed

text \<open>A change known by its version number is passed over.\<close>

definition known_mark :: "feed_progress \<Rightarrow> feed_row \<Rightarrow> bool" where
  "known_mark feed r \<longleftrightarrow> (\<exists>m. map_of (fp_sent feed) (feed_key (fr_table r) (vr_hash r)) = Some m \<and>
     vr_version r = Some (sm_version m))"

lemma feed_row_step_entries:
  "en \<in> set (fb_entries (feed_row_step env feed r b)) \<Longrightarrow>
     en \<in> set (fb_entries b) \<or>
     (\<not> known_mark feed r \<and> tname (en_table en) = fr_table r \<and> en_hash en = vr_hash r)"
  by (auto simp: feed_row_step_def known_mark_def Let_def to_entry_def find_table_name split: option.splits if_splits)

lemma feed_fold_entries:
  "en \<in> set (fb_entries (fold (feed_row_step env feed) rs b)) \<Longrightarrow>
     en \<in> set (fb_entries b) \<or>
     (\<exists>r \<in> set rs. \<not> known_mark feed r \<and> tname (en_table en) = fr_table r \<and> en_hash en = vr_hash r)"
proof (induction rs arbitrary: b)
  case (Cons r rs)
  from Cons.IH [of "feed_row_step env feed r b"] Cons.prems feed_row_step_entries [of en env feed r b]
  show ?case by auto
qed simp

text \<open>C34: A change that won a tie is not passed on. The feed compares the version number of a row with the one it
  sent last, and no origin: when the registry moved from one node's change to another's with the same version
  and the larger origin, which every node prefers, the row is not read for the peer again while the mark of
  the first is remembered.\<close>

theorem tied_change_is_not_passed_on:
  assumes "feed_ok (lk_db l)" "map_of (registry (lk_db l)) rid = Some e"
    and "map_of (fp_sent (lk_feed l)) (feed_key (fst rid) (snd rid)) = Some m" "sm_version m = version (ve_version e)"
    and "en \<in> set (fb_entries (next_feed_batch env l pos))"
  shows "(tname (en_table en), en_hash en) \<noteq> rid"
proof
  assume rid: "(tname (en_table en), en_hash en) = rid"
  obtain rs trunc where read: "read_feed (lk_db l) pos (le_batch_size env) = (rs, trunc)" by fastforce
  from assms(5) read have "en \<in> set (fb_entries (fold (feed_row_step env (lk_feed l)) rs
      \<lparr>fb_entries = [], fb_read_to = pos, fb_truncated = trunc, fb_skipped = []\<rparr>))"
    by (simp add: next_feed_batch_def)
  from feed_fold_entries [OF this] obtain r where r: "r \<in> set rs" "\<not> known_mark (lk_feed l) r"
    "tname (en_table en) = fr_table r" "en_hash en = vr_hash r" by auto
  from r(1) read obtain rid' e' where r': "(rid', e') \<in> set (registry (lk_db l))" "r = feed_row_of (rid', e')"
    by (auto simp: read_feed_def Let_def dest!: in_set_takeD)
  with r(3, 4) rid have "rid' = rid" by (cases rid') auto
  with r'(1) assms(1, 2) have "e' = e" by (auto simp: feed_ok_def)
  with r(2) r'(2) \<open>rid' = rid\<close> assms(3, 4) show False by (simp add: known_mark_def)
qed

text \<open>Two nodes changed the row at the same microsecond; the second change arrived here after the first was
  sent on.\<close>

definition sample_tied :: "outside link" where
  "sample_tied = sample_link\<lparr>lk_db := (lk_db sample_link)\<lparr>registry :=
       [((''t'', sample_key_hash), (sample_record False)\<lparr>ve_version := \<lparr>version = 7, origin = ''node-0009''\<rparr>, ve_seq := 1\<rparr>)]\<rparr>,
     lk_feed := (new_feed_progress 0 0)\<lparr>fp_sent := [(feed_key ''t'' sample_key_hash, \<lparr>sm_version = 7, sm_seq = 0\<rparr>)]\<rparr>\<rparr>"

lemma tied_change_is_not_passed_on_witness:
  "fb_read_to (next_feed_batch sample_link_env sample_tied 0) = 1 \<and>
   list_all (\<lambda>en. (tname (en_table en), en_hash en) \<noteq> (''t'', sample_key_hash))
     (fb_entries (next_feed_batch sample_link_env sample_tied 0))"
proof
  show "fb_read_to (next_feed_batch sample_link_env sample_tied 0) = 1" by code_simp
  have ok: "feed_ok (lk_db sample_tied)"
    by (auto simp: feed_ok_def sample_tied_def sample_link_def sample_db_def sample_record_def)
  have e: "map_of (registry (lk_db sample_tied)) (''t'', sample_key_hash) =
      Some ((sample_record False)\<lparr>ve_version := \<lparr>version = 7, origin = ''node-0009''\<rparr>, ve_seq := 1\<rparr>)"
    by (simp add: sample_tied_def)
  have m: "map_of (fp_sent (lk_feed sample_tied)) (feed_key (fst (''t'', sample_key_hash)) (snd (''t'', sample_key_hash))) =
      Some \<lparr>sm_version = 7, sm_seq = 0\<rparr>" by (simp add: sample_tied_def)
  show "list_all (\<lambda>en. (tname (en_table en), en_hash en) \<noteq> (''t'', sample_key_hash))
      (fb_entries (next_feed_batch sample_link_env sample_tied 0))"
    unfolding list_all_iff using tied_change_is_not_passed_on [OF ok e m] by (simp add: sample_record_def)
qed

text \<open>The last call of a package can say that nothing is left although a row of that very call comes back
  rejected: whether to say so is decided before the answer. The receiver then counts the sender as having
  nothing further while the rejected rows still wait to be sent again.\<close>

theorem drained_is_announced_with_rows_left:
  assumes "push_chunk env chunk True l = (Inr results, l1)" "CHR ''r'' \<in> set results" "dl_unsettled d0 = []"
  shows "\<exists>d l'. push_chunks env True [chunk] d0 l = (Inr d, l') \<and> dl_announced d \<and> dl_unsettled d \<noteq> []"
proof -
  from assms(2) push_chunk_Inr [OF assms(1)] obtain i where "i < length (zip chunk results)" "results ! i = CHR ''r''"
    by (auto simp: in_set_conv_nth)
  then have "(chunk ! i, CHR ''r'') \<in> set (zip chunk results)" by (auto simp: in_set_conv_nth intro!: exI [of _ i])
  then have "dl_unsettled (take_answers chunk results True d0) \<noteq> []"
    by (auto simp: take_answers_def filter_empty_conv)
  with assms(1, 3) show ?thesis
    by (auto simp: op_bind_def op_write_def op_ok_def take_answers_def)
qed

definition sample_unknown_table :: outgoing where
  "sample_unknown_table = \<lparr>og_entry = sample_deletion ''u'', og_item = item_of (sample_deletion ''u'') None, og_size = 200\<rparr>"

lemma drained_is_announced_with_rows_left_witness:
  "\<exists>d l'. push_chunks (joined sample_link_env) True [[sample_unknown_table]]
       \<lparr>dl_settled = [], dl_unsettled = [], dl_announced = False\<rparr> sample_link = (Inr d, l') \<and>
     dl_announced d \<and> dl_unsettled d \<noteq> []"
proof -
  have "fst (push_chunk (joined sample_link_env) [sample_unknown_table] True sample_link) = Inr ''r''" by code_simp
  then have "push_chunk (joined sample_link_env) [sample_unknown_table] True sample_link =
      (Inr ''r'', snd (push_chunk (joined sample_link_env) [sample_unknown_table] True sample_link))"
    by (metis prod.collapse)
  from drained_is_announced_with_rows_left [OF this] show ?thesis by simp
qed

end
