(* ===== verification/Net_Policy.thy ===== *)
theory Net_Policy
  imports Codec
begin

text \<open>
  \<^verbatim>\<open>src/cluster/netpolicy.ts\<close>: which addresses may reach the channel between nodes, with what it uses of
  Node's \<open>net\<close>: \<open>isIP\<close> (\<open>is_ip\<close>) and \<open>BlockList\<close>, whose rules are kept as prefixes of 128-bit addresses.
  An IPv4 address counts as the IPv6 address that embeds it (\<open>::ffff:a.b.c.d\<close>), in rules and in checks, as
  \<open>BlockList.check\<close> does.
\<close>

section \<open>Addresses\<close>

definition ipv4_segment :: "string \<Rightarrow> nat option" where
  "ipv4_segment s =
     (case parse_dec s of
        None \<Rightarrow> None
      | Some n \<Rightarrow> if length s \<le> 3 \<and> n \<le> 255 \<and> (s = ''0'' \<or> hd s \<noteq> CHR ''0'') then Some n else None)"

fun all_some :: "'a option list \<Rightarrow> 'a list option" where
  "all_some [] = Some []"
| "all_some (None # xs) = None"
| "all_some (Some x # xs) = map_option ((#) x) (all_some xs)"

definition ipv4_octets :: "string \<Rightarrow> nat list option" where
  "ipv4_octets s =
     (let parts = split_on CHR ''.'' s in if length parts = 4 then all_some (map ipv4_segment parts) else None)"

definition ipv6_segment :: "string \<Rightarrow> nat option" where
  "ipv6_segment s = (if s = [] \<or> 4 < length s then None else radix_value 16 0 s)"

text \<open>Groups between colons; where an IPv4 tail may stand, the last one may be written with dots.\<close>

fun ipv6_groups_of :: "bool \<Rightarrow> string list \<Rightarrow> nat list option" where
  "ipv6_groups_of tail [] = Some []"
| "ipv6_groups_of tail [p] =
     (case ipv6_segment p of
        Some g \<Rightarrow> Some [g]
      | None \<Rightarrow> if tail then map_option (\<lambda>o4. [o4 ! 0 * 256 + o4 ! 1, o4 ! 2 * 256 + o4 ! 3]) (ipv4_octets p) else None)"
| "ipv6_groups_of tail (p # q # ps) =
     (case ipv6_segment p of None \<Rightarrow> None | Some g \<Rightarrow> map_option ((#) g) (ipv6_groups_of tail (q # ps)))"

definition ipv6_side :: "bool \<Rightarrow> string \<Rightarrow> nat list option" where
  "ipv6_side tail s = (if s = [] then Some [] else ipv6_groups_of tail (split_on CHR '':'' s))"

fun split_at_gap :: "string \<Rightarrow> (string \<times> string) option" where
  "split_at_gap (c # d # cs) =
     (if c = CHR '':'' \<and> d = CHR '':'' then Some ([], cs)
      else map_option (\<lambda>(l, r). (c # l, r)) (split_at_gap (d # cs)))"
| "split_at_gap s = None"

definition zone_char :: "char \<Rightarrow> bool" where
  "zone_char c \<longleftrightarrow> is_letter c \<or> is_digit c \<or> c \<in> set ''-.:''"

definition ipv6_groups :: "string \<Rightarrow> nat list option" where
  "ipv6_groups s =
     (let body = takeWhile (\<lambda>c. c \<noteq> CHR ''%'') s; zone = drop (Suc (length body)) s
      in if body \<noteq> s \<and> (zone = [] \<or> \<not> list_all zone_char zone) then None
         else case split_at_gap body of
           None \<Rightarrow> (case ipv6_groups_of True (split_on CHR '':'' body) of
               Some gs \<Rightarrow> if length gs = 8 then Some gs else None
             | None \<Rightarrow> None)
         | Some (l, r) \<Rightarrow> (case (ipv6_side False l, ipv6_side True r) of
               (Some gl, Some gr) \<Rightarrow>
                 if length gl + length gr \<le> 7 then Some (gl @ replicate (8 - length gl - length gr) 0 @ gr) else None
             | _ \<Rightarrow> None))"

definition is_ip :: "string \<Rightarrow> nat" where
  "is_ip s = (if ipv4_octets s \<noteq> None then 4 else if ipv6_groups s \<noteq> None then 6 else 0)"

definition positional :: "nat \<Rightarrow> nat list \<Rightarrow> nat" where
  "positional base ds = fold (\<lambda>d acc. acc * base + d) ds 0"

definition mapped_prefix :: nat where
  "mapped_prefix = 0xffff * 2 ^ 32"

text \<open>The 128-bit value an address stands for in a \<open>BlockList\<close>, and how many of its bits a rule fixes.\<close>

definition address_value :: "string \<Rightarrow> nat option" where
  "address_value s =
     (case ipv4_octets s of
        Some o4 \<Rightarrow> Some (mapped_prefix + positional 256 o4)
      | None \<Rightarrow> map_option (positional 65536) (ipv6_groups s))"

record net_rule =
  nr_value :: nat
  nr_bits :: nat

definition in_network :: "net_rule \<Rightarrow> nat \<Rightarrow> bool" where
  "in_network r v \<longleftrightarrow> v div 2 ^ (128 - nr_bits r) = nr_value r div 2 ^ (128 - nr_bits r)"

section \<open>The allow list\<close>

record allowlist =
  al_list :: "net_rule list option"
  al_invalid :: "string list"
  al_size :: nat

text \<open>One entry: the rule it adds, or nothing when it is not understood.\<close>

definition parse_entry :: "string \<Rightarrow> net_rule option" where
  "parse_entry entry =
     (let parts = split_on CHR ''/'' entry; address = hd parts; family = is_ip address;
          rule = (\<lambda>bits. Some \<lparr>nr_value = the (address_value address), nr_bits = (if family = 6 then bits else 96 + bits)\<rparr>)
      in if family = 0 \<or> 2 < length parts then None
         else if length parts = 1 then rule (if family = 6 then 128 else 32)
         else let prefix = parts ! 1
              in if 1 \<le> length prefix \<and> length prefix \<le> 3 \<and> list_all is_digit prefix
                 then case parse_dec prefix of
                     Some bits \<Rightarrow> if bits > (if family = 6 then 128 else 32) then None else rule bits
                   | None \<Rightarrow> None
                 else None)"

definition parse_allowlist :: "string list \<Rightarrow> allowlist" where
  "parse_allowlist entries =
     (if entries = [] then \<lparr>al_list = None, al_invalid = [], al_size = 0\<rparr>
      else let rules = List.map_filter parse_entry entries;
               invalid = filter (\<lambda>e. parse_entry e = None) entries
           in \<lparr>al_list = (if 0 < length rules \<or> invalid \<noteq> [] then Some rules else None), al_invalid = invalid,
               al_size = length rules\<rparr>)"

text \<open>\<open>/^::ffff:(\\d{1,3}(?:\\.\\d{1,3}){3})$/i\<close>\<close>

definition dotted_quad :: "string \<Rightarrow> bool" where
  "dotted_quad s =
     (let parts = split_on CHR ''.'' s
      in length parts = 4 \<and> list_all (\<lambda>p. 1 \<le> length p \<and> length p \<le> 3 \<and> list_all is_digit p) parts)"

definition normalize_remote_address :: "string option \<Rightarrow> string option" where
  "normalize_remote_address address =
     (case address of
        None \<Rightarrow> None
      | Some a \<Rightarrow> if a = [] then None
                  else if to_lower (take 7 a) = ''::ffff:'' \<and> dotted_quad (drop 7 a) then Some (drop 7 a)
                  else Some a)"

definition is_allowed :: "allowlist \<Rightarrow> string option \<Rightarrow> bool" where
  "is_allowed allow address =
     (case al_list allow of
        None \<Rightarrow> True
      | Some rules \<Rightarrow>
          (case normalize_remote_address address of
             None \<Rightarrow> False
           | Some normalized \<Rightarrow>
               is_ip normalized \<noteq> 0 \<and> list_ex (\<lambda>r. in_network r (the (address_value normalized))) rules))"

section \<open>What the list lets in\<close>

lemma address_value_is_ip: "address_value s \<noteq> None \<longleftrightarrow> is_ip s \<noteq> 0"
  by (auto simp: address_value_def is_ip_def split: option.splits)

text \<open>A configured list is always a list of rules, however many entries are unusable.\<close>

lemma parse_allowlist_rules:
  "entries \<noteq> [] \<Longrightarrow> al_list (parse_allowlist entries) = Some (List.map_filter parse_entry entries)"
proof -
  assume "entries \<noteq> []"
  then obtain e es where e: "entries = e # es" by (cases entries) auto
  show ?thesis
  proof (cases "parse_entry e")
    case None
    with e show ?thesis by (simp add: parse_allowlist_def Let_def)
  next
    case (Some r)
    with e have "0 < length (List.map_filter parse_entry entries)" by (simp add: List.map_filter_simps)
    with e show ?thesis by (simp add: parse_allowlist_def Let_def)
  qed
qed

lemma is_allowed_iff:
  "is_allowed (parse_allowlist entries) address \<longleftrightarrow>
    entries = [] \<or>
    (\<exists>a v. normalize_remote_address address = Some a \<and> address_value a = Some v \<and>
       (\<exists>e \<in> set entries. \<exists>r. parse_entry e = Some r \<and> in_network r v))"
proof (cases "entries = []")
  case True
  then show ?thesis by (simp add: parse_allowlist_def is_allowed_def)
next
  case False
  show ?thesis
    unfolding is_allowed_def parse_allowlist_rules [OF False]
    using False address_value_is_ip
    by (cases "normalize_remote_address address")
      (force simp: list_ex_iff List.map_filter_def)+
qed

end
