(* ===== verification/Endpoints.thy ===== *)
theory Endpoints
  imports Net_Policy
begin

text \<open>
  \<^verbatim>\<open>src/cluster/endpoints.ts\<close>: the written form of the ways a node's channel can be reached, lists of them,
  and the ways through a web proxy. The WHATWG URL parser is a parameter: it gives the parts of a URL, or
  nothing where the constructor throws.
\<close>

record endpoint =
  ep_url :: string
  ep_sni :: "string option"

record url_parts =
  up_protocol :: string
  up_hostname :: string
  up_port :: string
  up_username :: string
  up_password :: string
  up_pathname :: string
  up_search :: string
  up_hash :: string
  up_origin :: string
  up_params :: "(string \<times> string) list"

type_synonym url_parser = "string \<Rightarrow> url_parts option"

definition max_endpoints :: nat where "max_endpoints = 8"
definition max_text :: nat where "max_text = 300"

section \<open>One endpoint\<close>

definition server_label :: "string \<Rightarrow> bool" where
  "server_label s \<longleftrightarrow> 1 \<le> length s \<and> length s \<le> 63 \<and>
     list_all (\<lambda>c. (is_letter c \<and> lower_char c = c) \<or> is_digit c \<or> c = CHR ''-'') s \<and>
     hd s \<noteq> CHR ''-'' \<and> last s \<noteq> CHR ''-''"

definition is_server_name :: "string \<Rightarrow> bool" where
  "is_server_name v \<longleftrightarrow>
     1 \<le> length v \<and> length v \<le> 253 \<and> list_all server_label (split_on CHR ''.'' v) \<and> is_ip v = 0"

definition strip_brackets :: "string \<Rightarrow> string" where
  "strip_brackets s =
     (let a = (if s \<noteq> [] \<and> hd s = CHR ''['' then tl s else s)
      in if a \<noteq> [] \<and> last a = CHR '']'' then butlast a else a)"

definition host_of :: "url_parts \<Rightarrow> string" where
  "host_of u = strip_brackets (up_hostname u)"

text \<open>What follows the host of the text, when it begins with \<open>https://\<close> and a host.\<close>

definition after_host :: "string \<Rightarrow> string option" where
  "after_host t =
     (if to_lower (take 8 t) \<noteq> ''https://'' then None
      else let s = drop 8 t
           in if s \<noteq> [] \<and> hd s = CHR ''[''
              then let rest = dropWhile (\<lambda>c. c \<noteq> CHR '']'') s in if rest = [] then None else Some (tl rest)
              else let host = takeWhile (\<lambda>c. c \<notin> set ''/:?#@[]'') s
                   in if host = [] then None else Some (drop (length host) s))"

definition written_port :: "string \<Rightarrow> nat option" where
  "written_port t =
     (case after_host (trim t) of
        None \<Rightarrow> None
      | Some rest \<Rightarrow>
          if rest = [] \<or> hd rest \<noteq> CHR '':'' then None
          else let digits = takeWhile is_digit (tl rest); tail = drop (length digits) (tl rest)
               in if 1 \<le> length digits \<and> length digits \<le> 5 \<and> (tail = [] \<or> hd tail \<in> set ''/?#'')
                  then case parse_dec digits of
                      Some port \<Rightarrow> if 1 \<le> port \<and> port \<le> 65535 then Some port else None
                    | None \<Rightarrow> None
                  else None)"

definition sni_of :: "url_parts \<Rightarrow> string option" where
  "sni_of u = map_option to_lower (map_of (up_params u) ''sni'')"

definition parse_endpoint :: "url_parser \<Rightarrow> string \<Rightarrow> endpoint option" where
  "parse_endpoint parse_url t =
     (if t = [] \<or> max_text < length t then None
      else case parse_url (trim t) of
        None \<Rightarrow> None
      | Some u \<Rightarrow>
          (case written_port t of
             None \<Rightarrow> None
           | Some port \<Rightarrow>
               if up_protocol u \<noteq> ''https:'' \<or> up_hostname u = [] \<or> up_username u \<noteq> [] \<or> up_password u \<noteq> [] then None
               else if (up_pathname u \<noteq> ''/'' \<and> up_pathname u \<noteq> []) \<or> up_hash u \<noteq> [] then None
               else if list_ex (\<lambda>(k, _). k \<noteq> ''sni'') (up_params u) \<or> 1 < length (up_params u) then None
               else let base = ''https://'' @ up_hostname u @ '':'' @ dec_string port
                    in case sni_of u of
                         None \<Rightarrow> Some \<lparr>ep_url = base, ep_sni = None\<rparr>
                       | Some sni \<Rightarrow>
                           if \<not> is_server_name sni then None
                           else if sni \<noteq> to_lower (host_of u) then Some \<lparr>ep_url = base, ep_sni = Some sni\<rparr>
                           else Some \<lparr>ep_url = base, ep_sni = None\<rparr>))"

definition format_endpoint :: "endpoint \<Rightarrow> string" where
  "format_endpoint e =
     (case ep_sni e of Some sni \<Rightarrow> if sni = [] then ep_url e else ep_url e @ ''?sni='' @ sni | None \<Rightarrow> ep_url e)"

definition endpoint_key :: "endpoint \<Rightarrow> string" where
  "endpoint_key e = format_endpoint e"

section \<open>Lists of endpoints\<close>

record endpoint_scan =
  sc_endpoints :: "endpoint list"
  sc_invalid :: "string list"
  sc_seen :: "string list"

definition scan_item :: "url_parser \<Rightarrow> string \<Rightarrow> endpoint_scan \<Rightarrow> endpoint_scan" where
  "scan_item parse_url raw s =
     (let item = trim raw
      in if item = [] then s
         else case parse_endpoint parse_url item of
           None \<Rightarrow> s\<lparr>sc_invalid := sc_invalid s @ [take 80 item]\<rparr>
         | Some e \<Rightarrow>
             if endpoint_key e \<in> set (sc_seen s) then s
             else s\<lparr>sc_seen := sc_seen s @ [endpoint_key e],
                    sc_endpoints := (if length (sc_endpoints s) < max_endpoints then sc_endpoints s @ [e] else sc_endpoints s)\<rparr>)"

definition parse_endpoint_list :: "url_parser \<Rightarrow> string list \<Rightarrow> endpoint list \<times> string list" where
  "parse_endpoint_list parse_url items =
     (let s = fold (scan_item parse_url) items \<lparr>sc_endpoints = [], sc_invalid = [], sc_seen = []\<rparr>
      in (sc_endpoints s, sc_invalid s))"

text \<open>\<open>text.split(/[\\s,]+/)\<close>\<close>

fun split_list_text :: "string \<Rightarrow> string list" where
  "split_list_text [] = [[]]"
| "split_list_text (c # cs) =
     (let rest = split_list_text cs; sep = (\<lambda>d. is_space d \<or> d = CHR '','')
      in if sep c then (if cs \<noteq> [] \<and> sep (hd cs) then rest else [] # rest)
         else case rest of [] \<Rightarrow> [[c]] | w # ws \<Rightarrow> (c # w) # ws)"

definition merge_step :: "endpoint \<Rightarrow> endpoint list \<Rightarrow> endpoint list" where
  "merge_step e out =
     (if endpoint_key e \<in> set (map endpoint_key out) \<or> max_endpoints \<le> length out then out else out @ [e])"

definition merge_endpoints :: "endpoint list list \<Rightarrow> endpoint list" where
  "merge_endpoints given = fold merge_step (concat given) []"

section \<open>Connecting\<close>

record connect_target =
  ct_host :: string
  ct_port :: nat
  ct_servername :: "string option"

text \<open>\<open>new URL\<close> of a malformed text throws.\<close>

definition connect_target :: "url_parser \<Rightarrow> endpoint \<Rightarrow> connect_target option" where
  "connect_target parse_url e =
     map_option (\<lambda>u. let host = host_of u in
       \<lparr>ct_host = host, ct_port = (case written_port (ep_url e) of Some p \<Rightarrow> p | None \<Rightarrow> 443),
        ct_servername = (case ep_sni e of Some sni \<Rightarrow> Some sni | None \<Rightarrow> if is_ip host = 0 then Some (to_lower host) else None)\<rparr>)
       (parse_url (ep_url e))"

definition ends_with :: "string \<Rightarrow> string \<Rightarrow> bool" where
  "ends_with suffix s \<longleftrightarrow> length suffix \<le> length s \<and> drop (length s - length suffix) s = suffix"

definition private_ipv4 :: "nat \<Rightarrow> nat \<Rightarrow> bool" where
  "private_ipv4 a b \<longleftrightarrow> a = 10 \<or> a = 127 \<or> a = 0 \<or> (a = 169 \<and> b = 254) \<or> (a = 172 \<and> 16 \<le> b \<and> b \<le> 31) \<or>
     (a = 192 \<and> b = 168) \<or> (a = 100 \<and> 64 \<le> b \<and> b \<le> 127)"

definition public_host :: "string \<Rightarrow> bool" where
  "public_host host =
     (let lower = to_lower host
      in if is_ip host = 0
         then \<not> (lower = ''localhost'' \<or> list_ex (\<lambda>s. ends_with s lower) [''.local'', ''.internal'', ''.lan'', ''.home.arpa''])
         else if is_ip host = 4 then \<not> private_ipv4 (the (ipv4_octets host) ! 0) (the (ipv4_octets host) ! 1)
         else \<not> (lower = ''::1'' \<or> starts_with ''fe80:'' lower \<or> starts_with ''fc'' lower \<or> starts_with ''fd'' lower))"

definition is_public_endpoint :: "url_parser \<Rightarrow> endpoint \<Rightarrow> bool option" where
  "is_public_endpoint parse_url e = map_option (\<lambda>t. public_host (ct_host t)) (connect_target parse_url e)"

section \<open>The panel's address and the ways through a web proxy\<close>

definition loopback_host :: "string \<Rightarrow> bool" where
  "loopback_host h \<longleftrightarrow> h \<in> {''localhost'', ''127.0.0.1'', ''[::1]''}"

definition web_protocol :: "url_parts \<Rightarrow> bool" where
  "web_protocol u \<longleftrightarrow> up_protocol u = ''https:'' \<or> (up_protocol u = ''http:'' \<and> loopback_host (up_hostname u))"

definition public_origin :: "url_parser \<Rightarrow> string \<Rightarrow> string option" where
  "public_origin parse_url v =
     (case parse_url (trim v) of
        None \<Rightarrow> None
      | Some u \<Rightarrow>
          if \<not> web_protocol u then None
          else if (up_pathname u \<noteq> ''/'' \<and> up_pathname u \<noteq> []) \<or> up_search u \<noteq> [] \<or> up_hash u \<noteq> [] \<or>
            up_username u \<noteq> [] \<or> up_password u \<noteq> [] then None
          else Some (up_origin u))"

definition path_segment_ok :: "string \<Rightarrow> bool" where
  "path_segment_ok s \<longleftrightarrow> 1 \<le> length s \<and> length s \<le> 64 \<and>
     list_all (\<lambda>c. is_letter c \<or> is_digit c \<or> c \<in> set ''._~-'') s"

text \<open>\<open>value.replace(/^[a-z]+:\\/\\/[^/]*/i, '')\<close> and \<open>/\\/\\.\\.?(\\/|$)/\<close>\<close>

definition without_origin :: "string \<Rightarrow> string" where
  "without_origin v =
     (let scheme = takeWhile is_letter v; rest = drop (length scheme) v
      in if scheme \<noteq> [] \<and> starts_with ''://'' rest then dropWhile (\<lambda>c. c \<noteq> CHR ''/'') (drop 3 rest) else v)"

fun dot_segment :: "string \<Rightarrow> bool" where
  "dot_segment [] = False"
| "dot_segment (c # cs) \<longleftrightarrow>
     (c = CHR ''/'' \<and> (cs = ''.'' \<or> starts_with ''./'' cs \<or> cs = ''..'' \<or> starts_with ''../'' cs)) \<or> dot_segment cs"

definition parse_path_way :: "url_parser \<Rightarrow> string \<Rightarrow> string option" where
  "parse_path_way parse_url v =
     (case parse_url (trim v) of
        None \<Rightarrow> None
      | Some u \<Rightarrow>
          if \<not> web_protocol u then None
          else if up_search u \<noteq> [] \<or> up_hash u \<noteq> [] \<or> up_username u \<noteq> [] \<or> up_password u \<noteq> [] \<or> 255 < length v then None
          else if dot_segment (without_origin (trim v)) then None
          else let segments = filter (\<lambda>p. p \<noteq> []) (split_on CHR ''/'' (up_pathname u))
               in if 4 < length segments \<or> \<not> list_all (\<lambda>p. path_segment_ok p \<and> p \<noteq> ''.'' \<and> p \<noteq> ''..'') segments then None
                  else Some (up_origin u @ (if segments = [] then [] else ''/'' @ join_with ''/'' segments)))"

definition curl_target :: "url_parser \<Rightarrow> endpoint \<Rightarrow> string \<Rightarrow> (string \<times> string option) option" where
  "curl_target parse_url e path =
     map_option (\<lambda>t. case ep_sni e of
         None \<Rightarrow> (ep_url e @ path, None)
       | Some sni \<Rightarrow>
           if sni = [] then (ep_url e @ path, None)
           else let connect_host = (if is_ip (ct_host t) = 6 then ''['' @ ct_host t @ '']'' else ct_host t);
                    port = dec_string (ct_port t)
                in (''https://'' @ sni @ '':'' @ port @ path,
                    Some (sni @ '':'' @ port @ '':'' @ connect_host @ '':'' @ port)))
       (connect_target parse_url e)"

end
