(* ===== verification/Edge.thy ===== *)
theory Edge
  imports Endpoints Crypto
begin

text \<open>
  What stands in front of a node: the PROXY line of a forwarder (\<^verbatim>\<open>src/cluster/proxyProtocol.ts\<close>), and the
  protocol between nodes and a relay (\<^verbatim>\<open>src/cluster/relayProtocol.ts\<close>): the relay key, the names of routes,
  the proof of a parked connection, and the server name a relay reads from a TLS ClientHello.
\<close>

section \<open>The PROXY line\<close>

definition max_header_bytes :: nat where "max_header_bytes = 107"

datatype proxy_header =
    ProxyMore
  | ProxyNone
  | ProxyInvalid
  | ProxyOk (proxy_address: "string option") (proxy_port: "nat option") (proxy_length: nat)

text \<open>\<open>data.indexOf('\\r\\n')\<close>\<close>

fun index_of_crlf :: "buffer \<Rightarrow> nat option" where
  "index_of_crlf (a # b # bs) = (if a = 13 \<and> b = 10 then Some 0 else map_option Suc (index_of_crlf (b # bs)))"
| "index_of_crlf bs = None"

definition ascii_text :: "buffer \<Rightarrow> string" where
  "ascii_text bs = map (\<lambda>b. char_of (unat b mod 128)) bs"

definition port_digits :: "string \<Rightarrow> nat option" where
  "port_digits s =
     (if 1 \<le> length s \<and> length s \<le> 5 \<and> list_all is_digit s
      then case parse_dec s of Some n \<Rightarrow> if n \<le> 65535 then Some n else None | None \<Rightarrow> None
      else None)"

definition proxy_line :: "string list \<Rightarrow> nat \<Rightarrow> proxy_header" where
  "proxy_line parts len =
     (if 1 < length parts \<and> parts ! 1 = ''UNKNOWN'' then ProxyOk None None len
      else if length parts \<noteq> 6 then ProxyInvalid
      else let expected = (if parts ! 1 = ''TCP4'' then 4 else if parts ! 1 = ''TCP6'' then 6 else 0)
           in if expected = 0 \<or> is_ip (parts ! 2) \<noteq> expected \<or> is_ip (parts ! 3) \<noteq> expected then ProxyInvalid
              else case (port_digits (parts ! 4), port_digits (parts ! 5)) of
                  (Some port, Some dport) \<Rightarrow> ProxyOk (Some (parts ! 2)) (Some port) len
                | _ \<Rightarrow> ProxyInvalid)"

definition parse_proxy_header :: "buffer \<Rightarrow> proxy_header" where
  "parse_proxy_header data =
     (let prefix = utf8 ''PROXY ''; compared = take (min (length data) (length prefix)) data
      in if take (length compared) prefix \<noteq> compared then ProxyNone
         else case index_of_crlf data of
           None \<Rightarrow> if max_header_bytes < length data then ProxyInvalid else ProxyMore
         | Some e \<Rightarrow>
             if max_header_bytes + 1 < e + 2 then ProxyInvalid
             else proxy_line (split_on CHR '' '' (ascii_text (take e data))) (e + 2))"

definition unmapped :: "string \<Rightarrow> string" where
  "unmapped address = (if starts_with ''::ffff:'' address then drop 7 address else address)"

definition crlf :: string where "crlf = [CHR 0x0D, CHR 0x0A]"

definition format_proxy_header :: "string \<times> nat \<Rightarrow> string \<times> nat \<Rightarrow> string" where
  "format_proxy_header source destination =
     (let src = unmapped (fst source); dst = unmapped (fst destination);
          family = (if is_ip src = 6 \<or> is_ip dst = 6 then ''TCP6'' else ''TCP4'')
      in if is_ip src = 0 \<or> is_ip dst = 0 \<or> (family = ''TCP6'' \<and> (is_ip src \<noteq> 6 \<or> is_ip dst \<noteq> 6))
         then ''PROXY UNKNOWN'' @ crlf
         else ''PROXY '' @ family @ '' '' @ src @ '' '' @ dst @ '' '' @ dec_string (snd source) @ '' '' @
           dec_string (snd destination) @ crlf)"

section \<open>Relay keys\<close>

definition relay_key_prefix :: string where "relay_key_prefix = ''pokyhrelay1.''"

record relay_key =
  rk_name :: string
  rk_pin :: string
  rk_secret :: buffer
  rk_control :: "endpoint list"
  rk_ports :: "endpoint list"
  rk_domain :: string

text \<open>
  The JSON object inside a key: \<open>JSON.stringify\<close> and \<open>JSON.parse\<close> are parameters between texts and
  its fields, where a field of another type than expected is \<open>None\<close>.
\<close>

record relay_body =
  rb_v :: "int option"
  rb_n :: "string option"
  rb_f :: "string option"
  rb_s :: "string option"
  rb_c :: "string list option"
  rb_p :: "string list option"
  rb_d :: "string option"

definition relay_body_of :: "relay_key \<Rightarrow> relay_body" where
  "relay_body_of key =
     \<lparr>rb_v = Some 1, rb_n = Some (rk_name key), rb_f = Some (rk_pin key), rb_s = Some (b64url_encode (rk_secret key)),
      rb_c = Some (map format_endpoint (rk_control key)), rb_p = Some (map format_endpoint (rk_ports key)),
      rb_d = Some (rk_domain key)\<rparr>"

definition encode_relay_key :: "(relay_body \<Rightarrow> string) \<Rightarrow> relay_key \<Rightarrow> string" where
  "encode_relay_key to_json key = relay_key_prefix @ b64url_encode (utf8 (to_json (relay_body_of key)))"

definition relay_damaged :: "string + 'a" where
  "relay_damaged = Inl ''Relay key is damaged or incomplete''"

definition b64_std_char :: "char \<Rightarrow> bool" where
  "b64_std_char c \<longleftrightarrow> is_letter c \<or> is_digit c \<or> c \<in> set ''+/''"

definition b64_url_char :: "char \<Rightarrow> bool" where
  "b64_url_char c \<longleftrightarrow> is_letter c \<or> is_digit c \<or> c \<in> set ''_-''"

definition pin_ok :: "string \<Rightarrow> bool" where
  "pin_ok f \<longleftrightarrow> length f = 44 \<and> list_all b64_std_char (take 43 f) \<and> last f = CHR ''=''"

definition control_char :: "char \<Rightarrow> bool" where
  "control_char c = (let n = of_char c :: nat in n \<le> 31 \<or> n = 127)"

definition relay_key_of :: "url_parser \<Rightarrow> string \<Rightarrow> string \<Rightarrow> string \<Rightarrow> string list \<Rightarrow> string list \<Rightarrow> string \<Rightarrow> string + relay_key" where
  "relay_key_of parse_url n f s c p d =
     (let (control, bad_control) = parse_endpoint_list parse_url c; (ports, bad_ports) = parse_endpoint_list parse_url p
      in if bad_control \<noteq> [] \<or> bad_ports \<noteq> [] \<or> control = [] then relay_damaged
         else if ports = [] \<and> d = [] then Inl ''Relay key names no way to reach nodes through the relay''
         else Inr \<lparr>rk_name = n, rk_pin = f, rk_secret = b64_decode s, rk_control = control, rk_ports = ports, rk_domain = d\<rparr>)"

definition check_relay_body :: "url_parser \<Rightarrow> relay_body \<Rightarrow> string + relay_key" where
  "check_relay_body parse_url b =
     (if rb_v b \<noteq> Some 1 then Inl ''Relay key comes from a different Pokyh version''
      else case (rb_n b, rb_f b, rb_s b, rb_c b, rb_p b, rb_d b) of
          (Some n, Some f, Some s, Some c, Some p, Some d) \<Rightarrow>
            if 60 < length n \<or> list_ex control_char n then relay_damaged
            else if \<not> pin_ok f then relay_damaged
            else if length s \<noteq> 43 \<or> \<not> list_all b64_url_char s then relay_damaged
            else if d \<noteq> [] \<and> \<not> is_server_name d then relay_damaged
            else relay_key_of parse_url n f s c p d
        | _ \<Rightarrow> relay_damaged)"

definition decode_relay_key :: "url_parser \<Rightarrow> (string \<Rightarrow> relay_body option) \<Rightarrow> string \<Rightarrow> string + relay_key" where
  "decode_relay_key parse_url of_json t =
     (let trimmed = filter (\<lambda>c. \<not> is_space c) t
      in if \<not> starts_with relay_key_prefix trimmed then Inl ''This is not a Pokyh relay key''
         else if 4096 < length trimmed then Inl ''Relay key is too long''
         else case of_json (of_utf8 (b64_decode (drop (length relay_key_prefix) trimmed))) of
             None \<Rightarrow> relay_damaged
           | Some b \<Rightarrow> check_relay_body parse_url b)"

section \<open>Routes through a relay\<close>

definition slug_char :: "char \<Rightarrow> bool" where
  "slug_char c \<longleftrightarrow> (is_letter c \<and> lower_char c = c) \<or> is_digit c"

text \<open>\<open>.replace(/[^a-z0-9]+/g, '-').replace(/^-+|-+$/g, '')\<close>\<close>

fun dash_runs :: "string \<Rightarrow> string" where
  "dash_runs [] = []"
| "dash_runs (c # cs) =
     (if slug_char c then c # dash_runs cs
      else if cs \<noteq> [] \<and> \<not> slug_char (hd cs) then dash_runs cs else CHR ''-'' # dash_runs cs)"

definition trim_dashes :: "string \<Rightarrow> string" where
  "trim_dashes s = rev (dropWhile (\<lambda>c. c = CHR ''-'') (rev (dropWhile (\<lambda>c. c = CHR ''-'') s)))"

definition route_label :: "(string \<Rightarrow> string) \<Rightarrow> string \<Rightarrow> string \<Rightarrow> string" where
  "route_label nfkd node_name node_id =
     (let slug = take 40 (trim_dashes (dash_runs (nfkd (to_lower node_name))));
          suffix = take 8 (to_lower (filter (\<lambda>c. is_letter c \<or> is_digit c) node_id))
      in (if slug = [] then ''node'' else slug) @ ''-'' @ suffix)"

definition route_name :: "string \<Rightarrow> relay_key \<Rightarrow> string" where
  "route_name lbl key = lbl @ ''.'' @ (if rk_domain key = [] then ''pokyh-relay'' else rk_domain key)"

definition relay_endpoints :: "relay_key \<Rightarrow> string \<Rightarrow> bool \<Rightarrow> bool \<Rightarrow> endpoint list" where
  "relay_endpoints key route by_ports by_sni =
     (if by_ports then map (\<lambda>p. \<lparr>ep_url = ep_url p, ep_sni = Some route\<rparr>) (rk_ports key) else []) @
     (if by_sni \<and> rk_domain key \<noteq> [] then [\<lparr>ep_url = ''https://'' @ route @ '':443'', ep_sni = None\<rparr>] else [])"

definition park_proof :: "primitives \<Rightarrow> buffer \<Rightarrow> string \<Rightarrow> nat \<Rightarrow> string \<Rightarrow> string \<Rightarrow> string + buffer" where
  "park_proof pr secret route timestamp nonce node_pin =
     (let key = hkdf_sha256 pr secret [] (utf8 (label @ ''/relay/park'')) 32
      in and_then (encode_fields (map utf8 [''park'', route, dec_string timestamp, nonce, node_pin]))
           (\<lambda>fs. Inr (hmac_sha256 pr key fs)))"

definition park_proof_matches :: "buffer \<Rightarrow> string \<Rightarrow> bool" where
  "park_proof_matches expected presented = (b64_decode presented = expected)"

section \<open>The server name of a ClientHello\<close>

datatype server_name =
    NameMore
  | NameOk "string option"
  | NameInvalid

definition u16_at :: "buffer \<Rightarrow> nat \<Rightarrow> nat" where
  "u16_at b i = u16_be (b ! i) (b ! (i + 1))"

text \<open>\<open>skip\<close>: past a field that begins with its length, or \<open>None\<close> past the end.\<close>

definition skip_field :: "buffer \<Rightarrow> nat \<Rightarrow> nat \<Rightarrow> nat option" where
  "skip_field hello n pos =
     (if length hello < pos + n then None
      else let len = (if n = 1 then unat (hello ! pos) else u16_at hello pos); next = pos + n + len
           in if next \<le> length hello then Some next else None)"

function name_entries :: "buffer \<Rightarrow> nat \<Rightarrow> nat \<Rightarrow> nat \<Rightarrow> server_name" where
  "name_entries hello list_end bound pos =
     (if \<not> (pos + 3 \<le> list_end \<and> list_end \<le> bound) then NameOk None
      else let kind = unat (hello ! pos); len = u16_at hello (pos + 1)
           in if list_end < pos + 3 + len then NameInvalid
              else if kind = 0
              then let name = to_lower (ascii_text (take len (drop (pos + 3) hello)))
                   in if is_server_name name then NameOk (Some name) else NameInvalid
              else name_entries hello list_end bound (pos + 3 + len))"
  by pat_completeness auto

termination
  by (relation "measure (\<lambda>(hello, list_end, bound, pos). list_end - pos)") auto

function find_name :: "buffer \<Rightarrow> nat \<Rightarrow> nat \<Rightarrow> server_name" where
  "find_name hello extensions_end pos =
     (if extensions_end < pos + 4 then NameOk None
      else let kind = u16_at hello pos; len = u16_at hello (pos + 2); start = pos + 4
           in if extensions_end < start + len then NameInvalid
              else if kind = 0
              then if len < 2 then NameInvalid
                   else name_entries hello (start + 2 + u16_at hello start) (start + len) (start + 2)
              else find_name hello extensions_end (start + len))"
  by pat_completeness auto

termination
  by (relation "measure (\<lambda>(hello, extensions_end, pos). extensions_end - pos)") auto

declare name_entries.simps [simp del] find_name.simps [simp del]

definition hello_name :: "buffer \<Rightarrow> server_name" where
  "hello_name hello =
     (case skip_field hello 1 (2 + 32) of
        None \<Rightarrow> NameInvalid
      | Some a \<Rightarrow>
          (case skip_field hello 2 a of
             None \<Rightarrow> NameInvalid
           | Some b \<Rightarrow>
               (case skip_field hello 1 b of
                  None \<Rightarrow> NameInvalid
                | Some pos \<Rightarrow>
                    if pos = length hello then NameOk None
                    else if length hello < pos + 2 then NameInvalid
                    else let extensions_end = pos + 2 + u16_at hello pos
                         in if length hello < extensions_end then NameInvalid
                            else find_name hello extensions_end (pos + 2))))"

definition read_server_name :: "buffer \<Rightarrow> server_name" where
  "read_server_name data =
     (if length data < 5 then NameMore
      else if data ! 0 \<noteq> 0x16 \<or> data ! 1 \<noteq> 0x03 then NameInvalid
      else let record_length = u16_at data 3
           in if record_length < 4 \<or> 16384 < record_length then NameInvalid
              else if length data < 5 + record_length then NameMore
              else let rcd = take record_length (drop 5 data)
                   in if rcd ! 0 \<noteq> 1 then NameInvalid
                      else let hello_length = unat (rcd ! 1) * 65536 + unat (rcd ! 2) * 256 + unat (rcd ! 3)
                           in if length rcd < 4 + hello_length then NameInvalid
                              else hello_name (take hello_length (drop 4 rcd)))"

end
