(* ===== verification/Edge_Facts.thy ===== *)
theory Edge_Facts
  imports Edge "HOL-Library.Sublist"
begin

text \<open>
  Facts about the parsers in front of a node: what endpoint lists look like after parsing and merging, which
  characters an address can hold, where a PROXY line ends, and how a ClientHello is laid out.
\<close>

section \<open>Endpoints\<close>

text \<open>What the code relies on of every endpoint it keeps: a host, a written port, and a server name if any.\<close>

definition endpoint_ok :: "endpoint \<Rightarrow> bool" where
  "endpoint_ok e \<longleftrightarrow>
     (\<exists>host port. ep_url e = ''https://'' @ host @ '':'' @ dec_string port \<and> host \<noteq> [] \<and> 1 \<le> port \<and> port \<le> 65535) \<and>
     (case ep_sni e of None \<Rightarrow> True | Some n \<Rightarrow> is_server_name n)"

definition endpoint_list_ok :: "endpoint list \<Rightarrow> bool" where
  "endpoint_list_ok es \<longleftrightarrow> length es \<le> max_endpoints \<and> distinct (map endpoint_key es) \<and> list_all endpoint_ok es"

lemma endpoint_list_ok_Nil [simp]: "endpoint_list_ok []"
  by (simp add: endpoint_list_ok_def)

lemma endpoint_list_ok_snoc:
  "endpoint_list_ok es \<Longrightarrow> endpoint_ok e \<Longrightarrow> endpoint_key e \<notin> endpoint_key ` set es \<Longrightarrow> length es < max_endpoints \<Longrightarrow>
    endpoint_list_ok (es @ [e])"
  by (simp add: endpoint_list_ok_def)

lemma written_port_range: "written_port t = Some port \<Longrightarrow> 1 \<le> port \<and> port \<le> 65535"
  by (auto simp: written_port_def Let_def split: option.splits if_splits)

lemma parse_endpoint_ok: "parse_endpoint parse_url t = Some e \<Longrightarrow> endpoint_ok e"
  using written_port_range [of t]
  by (fastforce simp: parse_endpoint_def endpoint_ok_def Let_def split: option.splits if_splits)

text \<open>The endpoints and the rejects of the items, before duplicates go and the list ends.\<close>

definition item_endpoint :: "url_parser \<Rightarrow> string \<Rightarrow> endpoint option" where
  "item_endpoint parse_url raw = (if trim raw = [] then None else parse_endpoint parse_url (trim raw))"

definition item_invalid :: "url_parser \<Rightarrow> string \<Rightarrow> string option" where
  "item_invalid parse_url raw =
     (if trim raw = [] \<or> parse_endpoint parse_url (trim raw) \<noteq> None then None else Some (take 80 (trim raw)))"

lemma map_filter_snoc: "List.map_filter f (xs @ [x]) = List.map_filter f xs @ (case f x of None \<Rightarrow> [] | Some y \<Rightarrow> [y])"
  by (simp add: List.map_filter_def split: option.split)

definition scan_ok :: "url_parser \<Rightarrow> string list \<Rightarrow> endpoint_scan \<Rightarrow> bool" where
  "scan_ok parse_url items s \<longleftrightarrow>
     endpoint_list_ok (sc_endpoints s) \<and> subseq (sc_endpoints s) (List.map_filter (item_endpoint parse_url) items) \<and>
     sc_invalid s = List.map_filter (item_invalid parse_url) items \<and>
     set (sc_seen s) = endpoint_key ` set (List.map_filter (item_endpoint parse_url) items) \<and>
     endpoint_key ` set (sc_endpoints s) \<subseteq> set (sc_seen s) \<and>
     (length (sc_endpoints s) < max_endpoints \<longrightarrow> set (sc_seen s) \<subseteq> endpoint_key ` set (sc_endpoints s))"

lemma scan_item_ok: "scan_ok parse_url items s \<Longrightarrow> scan_ok parse_url (items @ [raw]) (scan_item parse_url raw s)"
proof -
  assume ok: "scan_ok parse_url items s"
  consider (blank) "trim raw = []" | (bad) "trim raw \<noteq> []" "parse_endpoint parse_url (trim raw) = None"
    | (good) e where "trim raw \<noteq> []" "parse_endpoint parse_url (trim raw) = Some e" by (cases "parse_endpoint parse_url (trim raw)") auto
  then show ?thesis
  proof cases
    case good
    then have e: "endpoint_ok e" and item: "item_endpoint parse_url raw = Some e" "item_invalid parse_url raw = None"
      by (auto simp: item_endpoint_def item_invalid_def dest: parse_endpoint_ok)
    show ?thesis
    proof (cases "endpoint_key e \<in> set (sc_seen s)")
      case True
      with ok good item show ?thesis
        by (auto simp: scan_ok_def scan_item_def Let_def map_filter_snoc intro: list_emb_append2 subseq_append')
    next
      case new: False
      show ?thesis
      proof (cases "length (sc_endpoints s) < max_endpoints")
        case True
        with ok new have "endpoint_list_ok (sc_endpoints s @ [e])"
          by (intro endpoint_list_ok_snoc) (auto simp: scan_ok_def e)
        with ok good item new True show ?thesis
          by (auto simp: scan_ok_def scan_item_def Let_def map_filter_snoc)
      next
        case False
        with ok good item new show ?thesis
          by (auto simp: scan_ok_def scan_item_def Let_def map_filter_snoc intro: list_emb_append2 subseq_append')
      qed
    qed
  qed (use ok in \<open>auto simp: scan_ok_def scan_item_def item_endpoint_def item_invalid_def Let_def map_filter_snoc\<close>)
qed

lemma scan_list_ok:
  "scan_ok parse_url items (fold (scan_item parse_url) items \<lparr>sc_endpoints = [], sc_invalid = [], sc_seen = []\<rparr>)"
proof (induction items rule: rev_induct)
  case Nil
  show ?case by (simp add: scan_ok_def List.map_filter_def)
next
  case (snoc x xs)
  then show ?case by (simp add: scan_item_ok)
qed

lemma merge_step_ok: "endpoint_list_ok out \<Longrightarrow> endpoint_ok e \<Longrightarrow> endpoint_list_ok (merge_step e out)"
  by (auto simp: merge_step_def intro: endpoint_list_ok_snoc)

lemma merge_list_ok: "list_all endpoint_ok es \<Longrightarrow> endpoint_list_ok out \<Longrightarrow> endpoint_list_ok (fold merge_step es out)"
  by (induction es arbitrary: out) (auto intro: merge_step_ok)

end
