(* ===== verification/Relay_Facts.thy ===== *)
theory Relay_Facts
  imports Edge_Facts Base64
begin

text \<open>
  Endpoints and relay keys are written as text and read again. What the written form of an endpoint relies on
  of the URL parser (\<open>reads_endpoints\<close>): a host it gave out is read again as the same host, after
  \<open>https://\<close>, before a port and with a server name as the only parameter.
\<close>

section \<open>Endpoints read again\<close>

definition endpoint_text :: "string \<Rightarrow> nat \<Rightarrow> string option \<Rightarrow> string" where
  "endpoint_text host port name =
     ''https://'' @ host @ '':'' @ dec_string port @ (case name of None \<Rightarrow> [] | Some n \<Rightarrow> ''?sni='' @ n)"

text \<open>A host as a URL shows it: an address in brackets, or a name without the marks of a URL.\<close>

definition url_host :: "string \<Rightarrow> bool" where
  "url_host h \<longleftrightarrow> (\<exists>b. h = ''['' @ b @ '']'' \<and> CHR '']'' \<notin> set b) \<or> (h \<noteq> [] \<and> list_all (\<lambda>c. c \<notin> set ''/:?#@[]'') h)"

definition reads_endpoints :: "url_parser \<Rightarrow> bool" where
  "reads_endpoints parse_url \<longleftrightarrow>
     (\<forall>t u. parse_url t = Some u \<and> up_protocol u = ''https:'' \<and> up_hostname u \<noteq> [] \<longrightarrow>
        url_host (up_hostname u) \<and>
        (\<forall>port name. 1 \<le> port \<and> port \<le> 65535 \<and> (case name of None \<Rightarrow> True | Some n \<Rightarrow> is_server_name n) \<longrightarrow>
          (\<exists>u'. parse_url (endpoint_text (up_hostname u) port name) = Some u' \<and> up_protocol u' = ''https:'' \<and>
             up_hostname u' = up_hostname u \<and> up_username u' = [] \<and> up_password u' = [] \<and> up_pathname u' \<in> {[], ''/''} \<and>
             up_hash u' = [] \<and> up_params u' = (case name of None \<Rightarrow> [] | Some n \<Rightarrow> [(''sni'', n)]))))"

lemma server_name_chars: "is_server_name n \<Longrightarrow> n \<noteq> [] \<and> list_all (\<lambda>c. \<not> is_space c \<and> lower_char c = c) n"
proof -
  assume n: "is_server_name n"
  have label: "list_all (\<lambda>c. \<not> is_space c \<and> lower_char c = c) w" if "server_label w" for w
  proof -
    have "\<not> is_space c \<and> lower_char c = c" if "(is_letter c \<and> lower_char c = c) \<or> is_digit c \<or> c = CHR ''-''" for c
      using that by (auto simp: is_space_def is_letter_def is_digit_def char_digit_def lower_char_def Let_def split: if_splits)
    with that show ?thesis by (auto simp: server_label_def list_all_iff)
  qed
  have dot: "\<not> is_space CHR ''.'' \<and> lower_char CHR ''.'' = CHR ''.''" by (simp add: is_space_def lower_char_def)
  have "list_all server_label (split_on CHR ''.'' n)" using n by (simp add: is_server_name_def)
  with label dot have "list_all (\<lambda>c. \<not> is_space c \<and> lower_char c = c) n"
    using split_on_covers [of n "CHR ''.''"] by (fastforce simp: list_all_iff)
  moreover have "n \<noteq> []" using n by (auto simp: is_server_name_def)
  ultimately show ?thesis by blast
qed

lemma to_lower_server_name: "is_server_name n \<Longrightarrow> to_lower n = n"
  using server_name_chars [of n] by (auto simp: to_lower_def list_all_iff map_idI)

lemma trim_endpoint_text:
  assumes "case name of None \<Rightarrow> True | Some n \<Rightarrow> is_server_name n"
  shows "trim (endpoint_text host port name) = endpoint_text host port name"
proof (rule trim_id)
  show "endpoint_text host port name \<noteq> []" by (simp add: endpoint_text_def)
  show "\<not> is_space (hd (endpoint_text host port name))" by (simp add: endpoint_text_def is_space_def)
  have digit: "\<not> is_space (last (dec_string port))"
    using digits_dec_string [of "last (dec_string port)" port] by (auto simp: is_digit_def char_digit_not_blank)
  show "\<not> is_space (last (endpoint_text host port name))"
  proof (cases name)
    case None
    with digit show ?thesis by (simp add: endpoint_text_def)
  next
    case (Some n)
    with assms server_name_chars [of n] have "n \<noteq> []" "\<not> is_space (last n)" by (auto simp: list_all_iff)
    with Some show ?thesis by (simp add: endpoint_text_def)
  qed
qed

lemma after_host_endpoint_text:
  assumes "url_host host"
  shows "after_host (endpoint_text host port name) =
    Some ('':'' @ dec_string port @ (case name of None \<Rightarrow> [] | Some n \<Rightarrow> ''?sni='' @ n))" (is "_ = Some ?rest")
proof -
  have written: "endpoint_text host port name = ''https://'' @ host @ ?rest" by (simp add: endpoint_text_def)
  have https: "to_lower (take 8 (''https://'' @ s)) = ''https://''" for s by (simp add: to_lower_def lower_char_def)
  from assms consider (v6) b where "host = ''['' @ b @ '']''" "CHR '']'' \<notin> set b"
    | (plain) "host \<noteq> []" "list_all (\<lambda>c. c \<notin> set ''/:?#@[]'') host" "hd host \<noteq> CHR ''[''"
    by (cases host) (auto simp: url_host_def)
  then show ?thesis
  proof cases
    case v6
    have "dropWhile (\<lambda>c. c \<noteq> CHR '']'') (b @ s) = dropWhile (\<lambda>c. c \<noteq> CHR '']'') s" for s
      using v6(2) by (intro dropWhile_append2) auto
    with v6 https show ?thesis unfolding written after_host_def by simp
  next
    case plain
    have "takeWhile (\<lambda>c. c \<notin> set ''/:?#@[]'') (host @ ?rest) = host"
      using plain(2) by (subst takeWhile_append2) (auto simp: list_all_iff)
    with plain https show ?thesis unfolding written after_host_def Let_def by simp
  qed
qed

lemma takeWhile_digits: "rest = [] \<or> \<not> is_digit (hd rest) \<Longrightarrow> takeWhile is_digit (dec_string n @ rest) = dec_string n"
  using digits_dec_string [of _ n] by (cases rest) (auto simp: takeWhile_append)

lemma written_port_endpoint_text:
  assumes "url_host host" "1 \<le> port" "port \<le> 65535" "case name of None \<Rightarrow> True | Some n \<Rightarrow> is_server_name n"
  shows "written_port (endpoint_text host port name) = Some port"
proof -
  let ?tail = "case name of None \<Rightarrow> [] | Some n \<Rightarrow> ''?sni='' @ n"
  have tail: "?tail = [] \<or> (hd ?tail = CHR ''?'')" by (cases name) auto
  then have "takeWhile is_digit (dec_string port @ ?tail) = dec_string port"
    by (intro takeWhile_digits) (auto simp: is_digit_def char_digit_def)
  moreover have "length (dec_string port) \<le> 5" "1 \<le> length (dec_string port)"
    using assms(3) by (simp_all add: length_dec_string_le Suc_le_eq)
  ultimately show ?thesis
    using assms tail after_host_endpoint_text [OF assms(1), of port name] trim_endpoint_text [OF assms(4), of host port]
    by (auto simp: written_port_def Let_def)
qed

text \<open>What an endpoint that was read looks like.\<close>

lemma parse_endpointE:
  assumes "parse_endpoint parse_url t = Some e"
  obtains u port where "parse_url (trim t) = Some u" "up_protocol u = ''https:''" "up_hostname u \<noteq> []"
    "1 \<le> port" "port \<le> 65535" "ep_url e = ''https://'' @ up_hostname u @ '':'' @ dec_string port"
    "case ep_sni e of None \<Rightarrow> True | Some n \<Rightarrow> is_server_name n \<and> n \<noteq> to_lower (host_of u)"
  using assms written_port_range [of t]
  by (fastforce simp: parse_endpoint_def Let_def split: option.splits if_splits)

lemma endpoint_read_again_lemma:
  assumes url: "reads_endpoints parse_url" and e: "parse_endpoint parse_url t = Some e" and short: "length (format_endpoint e) \<le> max_text"
  shows "parse_endpoint parse_url (format_endpoint e) = Some e \<and> trim (format_endpoint e) = format_endpoint e \<and> format_endpoint e \<noteq> []"
proof -
  from e obtain u port where u: "parse_url (trim t) = Some u" "up_protocol u = ''https:''" "up_hostname u \<noteq> []"
    and port: "1 \<le> port" "port \<le> 65535" and base: "ep_url e = ''https://'' @ up_hostname u @ '':'' @ dec_string port"
    and sni: "case ep_sni e of None \<Rightarrow> True | Some n \<Rightarrow> is_server_name n \<and> n \<noteq> to_lower (host_of u)"
    by (rule parse_endpointE)
  let ?h = "up_hostname u" and ?name = "ep_sni e"
  have name: "case ?name of None \<Rightarrow> True | Some n \<Rightarrow> is_server_name n" using sni by (auto split: option.splits)
  have written: "format_endpoint e = endpoint_text ?h port ?name"
    using base name by (auto simp: format_endpoint_def endpoint_text_def is_server_name_def split: option.splits)
  have host: "url_host ?h" using url u by (auto simp: reads_endpoints_def)
  from url u port name obtain u' where u': "parse_url (endpoint_text ?h port ?name) = Some u'" "up_protocol u' = ''https:''"
      "up_hostname u' = ?h" "up_username u' = []" "up_password u' = []" "up_pathname u' \<in> {[], ''/''}" "up_hash u' = []"
      "up_params u' = (case ?name of None \<Rightarrow> [] | Some n \<Rightarrow> [(''sni'', n)])"
    unfolding reads_endpoints_def by blast
  have trimmed: "trim (endpoint_text ?h port ?name) = endpoint_text ?h port ?name" by (rule trim_endpoint_text [OF name])
  have at: "written_port (endpoint_text ?h port ?name) = Some port" by (rule written_port_endpoint_text [OF host port name])
  have hosts: "host_of u' = host_of u" using u' by (simp add: host_of_def)
  have "parse_endpoint parse_url (endpoint_text ?h port ?name) = Some \<lparr>ep_url = ep_url e, ep_sni = ?name\<rparr>"
    using short u' u at trimmed base sni hosts written to_lower_server_name
    by (cases ?name) (auto simp: parse_endpoint_def sni_of_def endpoint_text_def Let_def)
  with trimmed written show ?thesis by (simp add: endpoint_text_def)
qed

text \<open>A list of endpoints, as \<open>parseEndpointList\<close> makes one, read again from the written forms.\<close>

definition listed :: "url_parser \<Rightarrow> endpoint list \<Rightarrow> bool" where
  "listed parse_url es \<longleftrightarrow> (\<exists>items. es = fst (parse_endpoint_list parse_url items)) \<and>
     list_all (\<lambda>e. length (format_endpoint e) \<le> max_text) es"

lemma listed_parses: "listed parse_url es \<Longrightarrow> e \<in> set es \<Longrightarrow> \<exists>t. parse_endpoint parse_url t = Some e"
proof -
  assume "listed parse_url es" and e: "e \<in> set es"
  then obtain items where "es = fst (parse_endpoint_list parse_url items)" by (auto simp: listed_def)
  with e scan_list_ok [of parse_url items] have "e \<in> set (List.map_filter (item_endpoint parse_url) items)"
    by (auto simp: parse_endpoint_list_def Let_def scan_ok_def dest: list_emb_set)
  then show ?thesis by (auto simp: List.map_filter_def item_endpoint_def split: if_splits)
qed

lemma listed_ok: "listed parse_url es \<Longrightarrow> endpoint_list_ok es"
  using scan_list_ok [of parse_url] by (auto simp: listed_def parse_endpoint_list_def Let_def scan_ok_def)

lemma scan_again:
  assumes "list_all (\<lambda>e. parse_endpoint parse_url (format_endpoint e) = Some e \<and> trim (format_endpoint e) = format_endpoint e \<and> format_endpoint e \<noteq> []) es"
    and "distinct (sc_seen s @ map endpoint_key es)" "length (sc_endpoints s) + length es \<le> max_endpoints"
  shows "fold (scan_item parse_url) (map format_endpoint es) s =
    s\<lparr>sc_endpoints := sc_endpoints s @ es, sc_seen := sc_seen s @ map endpoint_key es\<rparr>"
  using assms
proof (induction es arbitrary: s)
  case (Cons e es)
  let ?s = "s\<lparr>sc_endpoints := sc_endpoints s @ [e], sc_seen := sc_seen s @ [endpoint_key e]\<rparr>"
  have "scan_item parse_url (format_endpoint e) s = ?s"
    using Cons.prems by (simp add: scan_item_def Let_def)
  with Cons.IH [of ?s] Cons.prems show ?case by simp
qed simp

lemma list_read_again_lemma:
  assumes "reads_endpoints parse_url" "listed parse_url es"
  shows "parse_endpoint_list parse_url (map format_endpoint es) = (es, [])"
proof -
  have "list_all (\<lambda>e. parse_endpoint parse_url (format_endpoint e) = Some e \<and> trim (format_endpoint e) = format_endpoint e \<and> format_endpoint e \<noteq> []) es"
    using listed_parses [OF assms(2)] endpoint_read_again_lemma [OF assms(1)] assms(2) by (force simp: listed_def list_all_iff)
  moreover have "distinct (map endpoint_key es)" "length es \<le> max_endpoints"
    using listed_ok [OF assms(2)] by (simp_all add: endpoint_list_ok_def)
  ultimately show ?thesis
    using scan_again [of parse_url es "\<lparr>sc_endpoints = [], sc_invalid = [], sc_seen = []\<rparr>"]
    by (simp add: parse_endpoint_list_def Let_def)
qed

section \<open>Relay keys read again\<close>

definition relay_key_ok :: "url_parser \<Rightarrow> relay_key \<Rightarrow> bool" where
  "relay_key_ok parse_url key \<longleftrightarrow>
     length (rk_name key) \<le> 60 \<and> \<not> list_ex control_char (rk_name key) \<and> pin_ok (rk_pin key) \<and> length (rk_secret key) = 32 \<and>
     (rk_domain key = [] \<or> is_server_name (rk_domain key)) \<and> listed parse_url (rk_control key) \<and> listed parse_url (rk_ports key) \<and>
     rk_control key \<noteq> [] \<and> (rk_ports key \<noteq> [] \<or> rk_domain key \<noteq> [])"

lemma b64url_char_plain: "n < 64 \<Longrightarrow> b64_url_char (b64url_char n) \<and> \<not> is_space (b64url_char n)"
proof -
  assume n: "n < 64"
  have all: "list_all (\<lambda>c. (is_letter c \<or> is_digit c) \<and> \<not> is_space c) (take 62 b64_alphabet)"
    by (simp add: b64_alphabet_def is_letter_def is_digit_def char_digit_def is_space_def Let_def)
  have "length b64_alphabet = 64" by (simp add: b64_alphabet_def)
  then have "n < 62 \<Longrightarrow> b64_char n \<in> set (take 62 b64_alphabet)"
    using nth_mem [of n "take 62 b64_alphabet"] by (simp add: b64_char_def)
  moreover have "b64_url_char CHR ''-'' \<and> b64_url_char CHR ''_'' \<and> \<not> is_space CHR ''-'' \<and> \<not> is_space CHR ''_''"
    by (simp add: b64_url_char_def is_space_def)
  ultimately show ?thesis using n all by (cases "n < 62") (auto simp: b64url_char_def b64_url_char_def list_all_iff)
qed

lemma b64url_encode_plain: "list_all (\<lambda>c. b64_url_char c \<and> \<not> is_space c) (b64url_encode bs)"
proof -
  have "\<forall>x \<in> set (map unat bs). x < 256" using unsigned_less [where ?'a = nat and ?'b = 8] by auto
  from b64_sextets_less [OF this] show ?thesis by (auto simp: b64url_encode_def list_all_iff b64url_char_plain)
qed

lemma length_b64_sextets: "length (b64_sextets xs) = (4 * length xs + 2) div 3"
  by (induction xs rule: b64_sextets.induct) auto

lemma length_b64url_encode: "length (b64url_encode bs) = (4 * length bs + 2) div 3"
  by (simp add: b64url_encode_def length_b64_sextets)

lemma check_relay_body_again:
  assumes "reads_endpoints parse_url" "relay_key_ok parse_url key"
  shows "check_relay_body parse_url (relay_body_of key) = Inr key"
proof -
  have key: "length (rk_name key) \<le> 60" "\<not> list_ex control_char (rk_name key)" "pin_ok (rk_pin key)" "length (rk_secret key) = 32"
      "rk_domain key = [] \<or> is_server_name (rk_domain key)" "rk_control key \<noteq> []" "rk_ports key \<noteq> [] \<or> rk_domain key \<noteq> []"
    and lists: "listed parse_url (rk_control key)" "listed parse_url (rk_ports key)"
    using assms(2) by (simp_all add: relay_key_ok_def)
  have "length (b64url_encode (rk_secret key)) = 43" using key by (simp add: length_b64url_encode)
  moreover have "list_all b64_url_char (b64url_encode (rk_secret key))"
    using b64url_encode_plain [of "rk_secret key"] by (simp add: list_all_iff)
  ultimately show ?thesis
    using key list_read_again_lemma [OF assms(1)] lists
    by (auto simp: check_relay_body_def relay_body_of_def relay_key_of_def)
qed

lemma filter_plain: "list_all (\<lambda>c. \<not> is_space c) s \<Longrightarrow> filter (\<lambda>c. \<not> is_space c) s = s"
  by (simp add: list_all_iff)

text \<open>Blanks a paste may have put between the characters of a key do not matter.\<close>

lemma relay_key_read_again_lemma:
  assumes "reads_endpoints parse_url" "of_json (to_json (relay_body_of key)) = Some (relay_body_of key)" "relay_key_ok parse_url key"
    and "length (encode_relay_key to_json key) \<le> 4096" "filter (\<lambda>c. \<not> is_space c) pasted = encode_relay_key to_json key"
  shows "decode_relay_key parse_url of_json pasted = Inr key"
proof -
  have "starts_with relay_key_prefix (encode_relay_key to_json key)"
    by (simp add: starts_with_def encode_relay_key_def)
  moreover have "drop (length relay_key_prefix) (encode_relay_key to_json key) = b64url_encode (utf8 (to_json (relay_body_of key)))"
    by (simp add: encode_relay_key_def)
  ultimately show ?thesis
    using assms check_relay_body_again [OF assms(1,3)] by (simp add: decode_relay_key_def Let_def)
qed

end
