(* ===== verification/Stream_Facts.thy ===== *)
theory Stream_Facts
  imports Edge_Facts
begin

text \<open>
  The parsers of a byte stream: the first line end of a PROXY header, the characters of an address, and the
  fields of a ClientHello. What they decide about a prefix of the stream they decide about the whole.
\<close>

section \<open>Characters of an address\<close>

definition ip_char :: "char \<Rightarrow> bool" where
  "ip_char c \<longleftrightarrow> is_letter c \<or> is_digit c \<or> c \<in> set ''.:-%''"

lemma dec_value_digits: "dec_value acc s = Some n \<Longrightarrow> list_all is_digit s"
  by (induction s arbitrary: acc) (auto simp: is_digit_def split: option.splits)

lemma parse_dec_digits: "parse_dec s = Some n \<Longrightarrow> list_all is_digit s"
  by (auto simp: parse_dec_def dest: dec_value_digits split: if_splits)

lemma ip_char_split:
  "list_all (list_all ip_char) (split_on c s) \<Longrightarrow> ip_char c \<Longrightarrow> list_all ip_char s"
  using split_on_covers [of s c] by (fastforce simp: list_all_iff)

lemma all_some_iff: "all_some xs = Some ys \<longleftrightarrow> xs = map Some ys"
  by (induction xs arbitrary: ys rule: all_some.induct) auto

lemma ip_char_sep [simp]: "ip_char CHR ''.''" "ip_char CHR '':''" "ip_char CHR ''%''"
  by (simp_all add: ip_char_def)

lemma ipv4_octets_chars: "ipv4_octets s = Some os \<Longrightarrow> list_all ip_char s"
proof -
  assume "ipv4_octets s = Some os"
  then have parts: "map ipv4_segment (split_on CHR ''.'' s) = map Some os"
    by (simp add: ipv4_octets_def all_some_iff Let_def split: if_splits)
  have "list_all ip_char p" if "p \<in> set (split_on CHR ''.'' s)" for p
  proof -
    from that have "ipv4_segment p \<in> set (map Some os)" unfolding parts [symmetric] by simp
    then have "list_all is_digit p" by (auto simp: ipv4_segment_def dest: parse_dec_digits split: option.splits)
    then show ?thesis by (auto simp: ip_char_def list_all_iff)
  qed
  then show ?thesis by (intro ip_char_split) (auto simp: list_all_iff)
qed

lemma of_char_lower: "(of_char (lower_char c) :: nat) = (if 65 \<le> (of_char c :: nat) \<and> of_char c \<le> (90 :: nat) then of_char c + 32 else of_char c)"
  by (simp add: lower_char_def Let_def)

lemma digit_in_hex: "digit_in 16 c = Some d \<Longrightarrow> is_letter c \<or> is_digit c"
  by (auto simp: digit_in_def of_char_lower is_letter_def is_digit_def char_digit_def Let_def split: if_splits)

lemma radix_value_chars: "radix_value 16 acc s = Some n \<Longrightarrow> list_all ip_char s"
  by (induction s arbitrary: acc) (auto simp: ip_char_def dest: digit_in_hex split: option.splits)

lemma ipv6_groups_of_chars: "ipv6_groups_of tail ps = Some gs \<Longrightarrow> list_all (list_all ip_char) ps"
proof (induction tail ps arbitrary: gs rule: ipv6_groups_of.induct)
  case (2 tail p)
  then show ?case
    by (auto simp: ipv6_segment_def dest: radix_value_chars ipv4_octets_chars split: option.splits if_splits)
next
  case (3 tail p q ps)
  then show ?case
    by (auto simp: ipv6_segment_def dest: radix_value_chars split: option.splits if_splits)
qed simp

lemma ipv6_side_chars: "ipv6_side tail s = Some gs \<Longrightarrow> list_all ip_char s"
  by (auto simp: ipv6_side_def dest: ipv6_groups_of_chars intro: ip_char_split split: if_splits)

lemma split_at_gap_parts: "split_at_gap s = Some (l, r) \<Longrightarrow> s = l @ ''::'' @ r"
  by (induction s arbitrary: l r rule: split_at_gap.induct) (auto split: if_splits)

lemma ipv6_groups_chars: "ipv6_groups s = Some gs \<Longrightarrow> list_all ip_char s"
proof -
  assume gs: "ipv6_groups s = Some gs"
  define body where "body = takeWhile (\<lambda>c. c \<noteq> CHR ''%'') s"
  have s: "s = body @ drop (length body) s"
    using takeWhile_dropWhile_id [of "\<lambda>c. c \<noteq> CHR ''%''" s] by (simp add: body_def dropWhile_eq_drop)
  have "list_all ip_char body"
  proof (cases "split_at_gap body")
    case None
    with gs show ?thesis
      by (auto simp: ipv6_groups_def Let_def body_def [symmetric] dest: ipv6_groups_of_chars intro: ip_char_split split: if_splits option.splits)
  next
    case (Some lr)
    obtain l r where "lr = (l, r)" by (cases lr)
    with Some have "body = l @ ''::'' @ r" by (intro split_at_gap_parts) simp
    moreover have "list_all ip_char l \<and> list_all ip_char r"
      using gs Some \<open>lr = (l, r)\<close>
      by (auto simp: ipv6_groups_def Let_def body_def [symmetric] dest: ipv6_side_chars split: if_splits option.splits)
    ultimately show ?thesis by simp
  qed
  moreover have "list_all ip_char (drop (length body) s)"
  proof (cases "drop (length body) s")
    case (Cons c zone)
    then have c: "c = CHR ''%''"
      using hd_dropWhile [of "\<lambda>c. c \<noteq> CHR ''%''" s] by (simp add: body_def dropWhile_eq_drop [symmetric])
    from Cons have "drop (Suc (length body)) s = zone" by (metis drop_Suc list.sel(3) tl_drop)
    with gs s Cons have "list_all zone_char zone"
      by (auto simp: ipv6_groups_def Let_def body_def [symmetric] split: if_splits)
    with Cons c show ?thesis by (auto simp: list_all_iff zone_char_def ip_char_def)
  qed simp
  ultimately show ?thesis using s by (metis list_all_append)
qed

lemma is_ip_chars: "is_ip s \<noteq> 0 \<Longrightarrow> list_all ip_char s"
  by (auto simp: is_ip_def dest: ipv4_octets_chars ipv6_groups_chars split: if_splits)

lemma ip_char_plain: "ip_char c \<Longrightarrow> c \<noteq> CHR '' '' \<and> c \<noteq> CHR 0x0D \<and> of_char c < (128 :: nat)"
  by (auto simp: ip_char_def is_letter_def is_digit_def char_digit_def Let_def split: if_splits)

section \<open>The end of a line\<close>

lemma index_of_crlf_append: "index_of_crlf a = Some e \<Longrightarrow> index_of_crlf (a @ b) = Some e"
  by (induction a arbitrary: e rule: index_of_crlf.induct) (auto split: if_splits)

lemma index_of_crlf_late: "index_of_crlf a = None \<Longrightarrow> index_of_crlf (a @ b) = Some e \<Longrightarrow> length a \<le> Suc e"
  by (induction a arbitrary: e rule: index_of_crlf.induct) (auto split: if_splits)

lemma index_of_crlf_less: "index_of_crlf a = Some e \<Longrightarrow> e + 1 < length a"
  by (induction a arbitrary: e rule: index_of_crlf.induct) (auto split: if_splits)

lemma index_of_crlf_line: "13 \<notin> set line \<Longrightarrow> index_of_crlf (line @ 13 # 10 # rest) = Some (length line)"
proof (induction line)
  case (Cons x line)
  then show ?case by (cases line) auto
qed simp

section \<open>The PROXY line\<close>

lemma prefix_take: "prefix xs ys \<longleftrightarrow> take (length xs) ys = xs"
  by (metis append_eq_conv_conj prefixE take_is_prefix)

text \<open>The word a header begins with, as far as the bytes go.\<close>

definition proxy_word :: buffer where "proxy_word = utf8 ''PROXY ''"

lemma proxy_word_simps [simp]: "length proxy_word = 6" "13 \<notin> set proxy_word"
  by (simp_all add: proxy_word_def utf8_def)

lemma parse_proxy_header_alt:
  "parse_proxy_header data =
     (if prefix data proxy_word \<or> prefix proxy_word data
      then case index_of_crlf data of
          None \<Rightarrow> if max_header_bytes < length data then ProxyInvalid else ProxyMore
        | Some e \<Rightarrow> if max_header_bytes + 1 < e + 2 then ProxyInvalid
                    else proxy_line (split_on CHR '' '' (ascii_text (take e data))) (e + 2)
      else ProxyNone)"
proof -
  let ?c = "take (min (length data) 6) data"
  have "take (length ?c) proxy_word = ?c \<longleftrightarrow> prefix data proxy_word \<or> prefix proxy_word data"
  proof (cases "length data \<le> 6")
    case True
    then have "prefix proxy_word data \<Longrightarrow> prefix data proxy_word"
      using prefix_length_le [of proxy_word data] by (simp add: prefix_take)
    with True show ?thesis by (auto simp: prefix_take)
  next
    case False
    then have "\<not> prefix data proxy_word" using prefix_length_le [of data proxy_word] by auto
    with False show ?thesis by (auto simp: prefix_take)
  qed
  then show ?thesis
    unfolding parse_proxy_header_def Let_def by (simp add: proxy_word_def [symmetric])
qed

text \<open>A decision about the bytes so far stands whatever follows, and is made once 108 bytes have arrived.\<close>

lemma parse_proxy_header_more:
  assumes decided: "parse_proxy_header data \<noteq> ProxyMore"
  shows "parse_proxy_header (data @ rest) = parse_proxy_header data"
proof (cases "prefix data proxy_word \<or> prefix proxy_word data")
  case False
  then have "\<not> (prefix (data @ rest) proxy_word \<or> prefix proxy_word (data @ rest))"
    by (meson append_prefixD prefixI prefix_same_cases)
  with False show ?thesis by (simp add: parse_proxy_header_alt)
next
  case True
  have whole: "prefix proxy_word data" if "13 \<in> set data \<or> 6 < length data"
    using True that proxy_word_simps(2) prefix_length_le [of data proxy_word] set_mono_prefix [of data proxy_word]
    by (metis in_mono not_less proxy_word_simps(1))
  show ?thesis
  proof (cases "index_of_crlf data")
    case None
    with True decided have long: "max_header_bytes < length data" by (auto simp: parse_proxy_header_alt split: if_splits)
    then have "prefix proxy_word (data @ rest)" using whole by (simp add: max_header_bytes_def)
    moreover have "max_header_bytes + 1 < e + 2" if "index_of_crlf (data @ rest) = Some e" for e
      using index_of_crlf_late [OF None that] long by simp
    ultimately show ?thesis
      using True None long by (auto simp: parse_proxy_header_alt split: option.split)
  next
    case (Some e)
    have e: "e + 1 < length data" "index_of_crlf (data @ rest) = Some e"
      by (rule index_of_crlf_less [OF Some], rule index_of_crlf_append [OF Some])
    have "13 \<in> set data" using Some by (induction data arbitrary: e rule: index_of_crlf.induct) (auto split: if_splits)
    then have "prefix proxy_word data" using whole by blast
    with e Some show ?thesis by (simp add: parse_proxy_header_alt)
  qed
qed

lemma parse_proxy_header_waits: "parse_proxy_header data = ProxyMore \<Longrightarrow> length data \<le> max_header_bytes"
  by (auto simp: parse_proxy_header_alt proxy_line_def Let_def split: if_splits option.splits)

lemma utf8_append: "utf8 (a @ b) = utf8 a @ utf8 b"
  by (simp add: utf8_def)

lemma utf8_carriage_return: "13 \<in> set (utf8 s) \<longleftrightarrow> CHR 0x0D \<in> set s"
proof -
  have "(13 :: byte) = of_nat (of_char c) \<longleftrightarrow> CHR 0x0D = c" for c :: char
  proof -
    have "(13 :: byte) = of_nat (of_char CHR 0x0D)" by simp
    then show ?thesis by (metis of_char_eq_iff unat_of_nat_byte nat_of_char_less_256)
  qed
  then show ?thesis by (auto simp: utf8_def image_iff)
qed

lemma ascii_text_utf8: "list_all (\<lambda>c. of_char c < (128 :: nat)) s \<Longrightarrow> ascii_text (utf8 s) = s"
  by (induction s) (simp_all add: ascii_text_def utf8_def unat_of_nat_byte nat_of_char_less_256)

lemma list_all_join: "list_all (list_all P) ws \<Longrightarrow> list_all P sep \<Longrightarrow> list_all P (join_with sep ws)"
  by (induction sep ws rule: join_with.induct) auto

text \<open>A line of words as a header.\<close>

lemma parse_proxy_line:
  assumes plain: "list_all (list_all (\<lambda>c. c \<noteq> CHR '' '' \<and> c \<noteq> CHR 0x0D \<and> of_char c < (128 :: nat))) parts"
    and parts: "parts \<noteq> []" "hd parts = ''PROXY''" "tl parts \<noteq> []"
    and short: "length (join_with '' '' parts) + 2 \<le> max_header_bytes + 1"
  shows "parse_proxy_header (utf8 (join_with '' '' parts @ crlf) @ rest) = proxy_line parts (length (join_with '' '' parts) + 2)"
proof -
  let ?line = "join_with '' '' parts"
  have chars: "list_all (\<lambda>c. c \<noteq> CHR 0x0D \<and> of_char c < (128 :: nat)) ?line"
    using plain by (intro list_all_join) (auto simp: list_all_iff)
  have bytes: "utf8 (?line @ crlf) @ rest = utf8 ?line @ 13 # 10 # rest" by (simp add: utf8_append crlf_def utf8_def)
  have "13 \<notin> set (utf8 ?line)" using chars by (auto simp: utf8_carriage_return list_all_iff)
  then have crlf_at: "index_of_crlf (utf8 (?line @ crlf) @ rest) = Some (length ?line)"
    unfolding bytes by (simp add: index_of_crlf_line)
  obtain q qs where "parts = ''PROXY'' # q # qs" using parts by (cases parts; cases "tl parts") auto
  then have "prefix proxy_word (utf8 (?line @ crlf) @ rest)"
    unfolding bytes by (simp add: prefix_take proxy_word_def utf8_def numeral_eq_Suc)
  moreover have "split_on CHR '' '' (ascii_text (take (length ?line) (utf8 (?line @ crlf) @ rest))) = parts"
  proof -
    have "split_on CHR '' '' ?line = parts"
      using plain parts(1) by (intro split_on_join) (auto simp: list_all_iff)
    moreover have "list_all (\<lambda>c. of_char c < (128 :: nat)) ?line" using chars by (auto simp: list_all_iff)
    ultimately show ?thesis unfolding bytes by (simp add: ascii_text_utf8)
  qed
  ultimately show ?thesis using short crlf_at by (simp add: parse_proxy_header_alt)
qed

lemma dec_string_plain: "list_all ip_char (dec_string n)"
  by (auto simp: list_all_iff ip_char_def dest: digits_dec_string)

lemma port_digits_dec_string: "port \<le> 65535 \<Longrightarrow> port_digits (dec_string port) = Some port"
  using length_dec_string_le [of port 5] digits_dec_string [of _ port]
  by (simp add: port_digits_def list_all_iff Suc_le_eq)

text \<open>The header a forwarder writes, read back, with whatever follows it on the connection.\<close>

lemma proxy_header_read_back:
  assumes family: "is_ip (unmapped source) = v" "is_ip (unmapped destination) = v" "v \<noteq> 0"
    and ports: "sport \<le> 65535" "dport \<le> 65535"
    and short: "length (format_proxy_header (source, sport) (destination, dport)) \<le> max_header_bytes + 1"
  shows "parse_proxy_header (utf8 (format_proxy_header (source, sport) (destination, dport)) @ rest) =
    ProxyOk (Some (unmapped source)) (Some sport) (length (format_proxy_header (source, sport) (destination, dport)))"
proof -
  let ?parts = "[''PROXY'', if v = 6 then ''TCP6'' else ''TCP4'', unmapped source, unmapped destination, dec_string sport, dec_string dport]"
  have v: "v = 4 \<or> v = 6" using family by (auto simp: is_ip_def split: if_splits)
  have written: "format_proxy_header (source, sport) (destination, dport) = join_with '' '' ?parts @ crlf"
    using v family(1,2) unfolding format_proxy_header_def Let_def fst_conv snd_conv family(1,2) by (elim disjE) simp_all
  have plain: "list_all (\<lambda>c. c \<noteq> CHR '' '' \<and> c \<noteq> CHR 0x0D \<and> of_char c < (128 :: nat)) w" if "list_all ip_char w" for w
    using that by (auto simp: list_all_iff dest: ip_char_plain)
  have "list_all (list_all (\<lambda>c. c \<noteq> CHR '' '' \<and> c \<noteq> CHR 0x0D \<and> of_char c < (128 :: nat))) ?parts"
    using plain [OF is_ip_chars [of "unmapped source"]] plain [OF is_ip_chars [of "unmapped destination"]]
      plain [OF dec_string_plain] family by simp
  moreover have "length (join_with '' '' ?parts) + 2 \<le> max_header_bytes + 1" using short unfolding written by (simp add: crlf_def)
  ultimately have "parse_proxy_header (utf8 (join_with '' '' ?parts @ crlf) @ rest) = proxy_line ?parts (length (join_with '' '' ?parts) + 2)"
    by (intro parse_proxy_line) simp_all
  also have "\<dots> = ProxyOk (Some (unmapped source)) (Some sport) (length (join_with '' '' ?parts) + 2)"
    using family v ports by (auto simp: proxy_line_def Let_def port_digits_dec_string)
  finally show ?thesis unfolding written by (simp add: crlf_def)
qed

end
