(* ===== verification/Hello_Facts.thy ===== *)
theory Hello_Facts
  imports Stream_Facts
begin

text \<open>
  The layout of a TLS ClientHello, as RFC 8446 writes it, and how \<open>readServerName\<close> finds its way through it.
\<close>

section \<open>Fields\<close>

definition u16_bytes :: "nat \<Rightarrow> buffer" where
  "u16_bytes n = [of_nat (n div 256), of_nat (n mod 256)]"

lemma length_u16_bytes [simp]: "length (u16_bytes n) = 2"
  by (simp add: u16_bytes_def)

lemma u16_at_bytes: "n < 65536 \<Longrightarrow> u16_at (a @ u16_bytes n @ b) (length a) = n"
proof -
  assume "n < 65536"
  then have "n div 256 < 256" by (simp add: less_mult_imp_div_less)
  then show ?thesis by (simp add: u16_at_def u16_bytes_def u16_be_def nth_append unat_of_nat_byte)
qed

lemma u16_at_bytes': "n < 65536 \<Longrightarrow> length a = i \<Longrightarrow> u16_at (a @ u16_bytes n @ b) i = n"
  using u16_at_bytes by blast

lemma skip_field_1:
  "length field < 256 \<Longrightarrow> skip_field (a @ of_nat (length field) # field @ b) 1 (length a) = Some (length a + 1 + length field)"
  by (simp add: skip_field_def nth_append unat_of_nat_byte)

lemma skip_field_2:
  "length field < 65536 \<Longrightarrow> skip_field (a @ u16_bytes (length field) @ field @ b) 2 (length a) = Some (length a + 2 + length field)"
  using u16_at_bytes [of "length field" a "field @ b"] by (simp add: skip_field_def)

section \<open>A ClientHello\<close>

definition extension_bytes :: "nat \<times> buffer \<Rightarrow> buffer" where
  "extension_bytes e = u16_bytes (fst e) @ u16_bytes (length (snd e)) @ snd e"

definition extensions_bytes :: "(nat \<times> buffer) list \<Rightarrow> buffer" where
  "extensions_bytes es = concat (map extension_bytes es)"

text \<open>The \<open>server_name\<close> extension with one host name.\<close>

definition server_name_body :: "string \<Rightarrow> buffer" where
  "server_name_body n = u16_bytes (length n + 3) @ 0 # u16_bytes (length n) @ utf8 n"

record hello_parts =
  hp_version :: buffer
  hp_random :: buffer
  hp_session :: buffer
  hp_ciphers :: buffer
  hp_compression :: buffer
  hp_extensions :: "(nat \<times> buffer) list"

definition hello_start :: "hello_parts \<Rightarrow> buffer" where
  "hello_start h = hp_version h @ hp_random h @ of_nat (length (hp_session h)) # hp_session h @
     u16_bytes (length (hp_ciphers h)) @ hp_ciphers h @ of_nat (length (hp_compression h)) # hp_compression h"

definition hello_bytes :: "hello_parts \<Rightarrow> buffer" where
  "hello_bytes h = hello_start h @ u16_bytes (length (extensions_bytes (hp_extensions h))) @ extensions_bytes (hp_extensions h)"

definition hello_record :: "byte \<Rightarrow> hello_parts \<Rightarrow> buffer" where
  "hello_record minor h =
     [0x16, 0x03, minor] @ u16_bytes (4 + length (hello_bytes h)) @ 1 # be_bytes 3 (length (hello_bytes h)) @ hello_bytes h"

definition hello_ok :: "hello_parts \<Rightarrow> bool" where
  "hello_ok h \<longleftrightarrow> length (hp_version h) = 2 \<and> length (hp_random h) = 32 \<and> length (hp_session h) < 256 \<and>
     length (hp_compression h) < 256 \<and> list_all (\<lambda>(kind, body). kind < 65536) (hp_extensions h) \<and>
     4 + length (hello_bytes h) \<le> 16384"

text \<open>The name a server would take from the extensions: the host name of the first \<open>server_name\<close> extension.\<close>

fun named_host :: "(nat \<times> buffer) list \<Rightarrow> buffer option" where
  "named_host [] = None"
| "named_host ((kind, body) # es) = (if kind = 0 then Some body else named_host es)"

section \<open>Reading it\<close>

lemma length_extension_bytes [simp]: "length (extension_bytes (kind, body)) = length body + 4"
  by (simp add: extension_bytes_def)

lemma extension_heads:
  assumes "kind < 65536" "length body < 65536"
  shows "u16_at (a @ extension_bytes (kind, body) @ rest) (length a) = kind"
    "u16_at (a @ extension_bytes (kind, body) @ rest) (length a + 2) = length body"
  using u16_at_bytes [of kind a] u16_at_bytes' [of "length body" "a @ u16_bytes kind" "length a + 2"] assms
  by (simp_all add: extension_bytes_def)

lemma find_name_skip:
  assumes "kind < 65536" "kind \<noteq> 0" "length body < 65536" "length a + length (extension_bytes (kind, body)) \<le> fin"
  shows "find_name (a @ extension_bytes (kind, body) @ rest) fin (length a) =
    find_name ((a @ extension_bytes (kind, body)) @ rest) fin (length (a @ extension_bytes (kind, body)))"
  using assms extension_heads [OF assms(1,3), of a rest]
  by (subst find_name.simps) (simp add: Let_def ac_simps)

lemma find_name_here:
  assumes name: "is_server_name (to_lower n)" "list_all (\<lambda>c. of_char c < (128 :: nat)) n" "length n + 5 < 65536"
    and fin: "length a + length (extension_bytes (0, server_name_body n)) \<le> fin"
  shows "find_name (a @ extension_bytes (0, server_name_body n) @ rest) fin (length a) = NameOk (Some (to_lower n))"
proof -
  let ?hello = "a @ extension_bytes (0, server_name_body n) @ rest" and ?start = "length a + 4"
  have len: "length (server_name_body n) = length n + 5" by (simp add: server_name_body_def)
  have heads: "u16_at ?hello (length a) = 0" "u16_at ?hello (length a + 2) = length n + 5"
    using extension_heads [of 0 "server_name_body n" a rest] name len by simp_all
  have split: "?hello = (a @ u16_bytes 0 @ u16_bytes (length n + 5) @ u16_bytes (length n + 3)) @ 0 # u16_bytes (length n) @ utf8 n @ rest"
    unfolding extension_bytes_def fst_conv snd_conv len by (simp add: server_name_body_def)
  have list_at: "u16_at ?hello ?start = length n + 3"
    using u16_at_bytes' [of "length n + 3" "a @ u16_bytes 0 @ u16_bytes (length n + 5)" ?start "0 # u16_bytes (length n) @ utf8 n @ rest"] name
    unfolding split by simp
  have name_at: "u16_at ?hello (?start + 3) = length n"
    using u16_at_bytes' [of "length n" "a @ u16_bytes 0 @ u16_bytes (length n + 5) @ u16_bytes (length n + 3) @ [0]" "?start + 3" "utf8 n @ rest"] name
    unfolding split by simp
  have kind: "?hello ! (?start + 2) = 0" unfolding split by (simp add: nth_append)
  have bytes: "take (length n) (drop (?start + 2 + 3) ?hello) = utf8 n" unfolding split by simp
  have "name_entries ?hello (?start + 2 + (length n + 3)) (?start + (length n + 5)) (?start + 2) = NameOk (Some (to_lower n))"
    using name name_at kind bytes ascii_text_utf8 [OF name(2)]
    by (subst name_entries.simps) (simp add: Let_def ac_simps)
  then show ?thesis
    using heads list_at fin len
    by (subst find_name.simps) (simp add: Let_def ac_simps)
qed

text \<open>What \<open>find_name\<close> makes of the extensions.\<close>

definition host_result :: "buffer option \<Rightarrow> server_name \<Rightarrow> bool" where
  "host_result body r \<longleftrightarrow>
     (case body of None \<Rightarrow> r = NameOk None
      | Some b \<Rightarrow> \<forall>n. b = server_name_body n \<and> is_server_name (to_lower n) \<and> list_all (\<lambda>c. of_char c < (128 :: nat)) n \<longrightarrow>
          r = NameOk (Some (to_lower n)))"

lemma find_name_extensions:
  "list_all (\<lambda>(kind, body). kind < 65536 \<and> length body < 65536) es \<Longrightarrow>
    host_result (named_host es) (find_name (a @ extensions_bytes es) (length a + length (extensions_bytes es)) (length a))"
proof (induction es arbitrary: a)
  case Nil
  show ?case by (subst find_name.simps) (simp add: host_result_def extensions_bytes_def)
next
  case (Cons e es)
  obtain kind body where e: "e = (kind, body)" by (cases e)
  let ?ext = "extension_bytes (kind, body)"
  have bytes: "extensions_bytes (e # es) = ?ext @ extensions_bytes es" by (simp add: e extensions_bytes_def)
  show ?case
  proof (cases "kind = 0")
    case True
    have "find_name (a @ ?ext @ extensions_bytes es) (length a + length (?ext @ extensions_bytes es)) (length a) = NameOk (Some (to_lower n))"
      if "body = server_name_body n" "is_server_name (to_lower n)" "list_all (\<lambda>c. of_char c < (128 :: nat)) n" for n
    proof -
      have "length n + 5 < 65536" using that Cons.prems e by (simp add: server_name_body_def)
      then show ?thesis using that True find_name_here [of n a "length a + length (?ext @ extensions_bytes es)" "extensions_bytes es"] by simp
    qed
    with True show ?thesis unfolding bytes by (simp add: host_result_def e)
  next
    case False
    then have "find_name (a @ ?ext @ extensions_bytes es) (length a + length (?ext @ extensions_bytes es)) (length a) =
      find_name ((a @ ?ext) @ extensions_bytes es) (length (a @ ?ext) + length (extensions_bytes es)) (length (a @ ?ext))"
      using Cons.prems e find_name_skip [of kind body a "length a + length (?ext @ extensions_bytes es)" "extensions_bytes es"]
      by (simp add: ac_simps)
    with Cons.IH [of "a @ ?ext"] Cons.prems False show ?thesis unfolding bytes by (simp add: e)
  qed
qed

lemma hello_start_end:
  assumes "hello_ok h"
  shows "\<exists>a b. skip_field (hello_start h @ rest) 1 34 = Some a \<and> skip_field (hello_start h @ rest) 2 a = Some b \<and>
    skip_field (hello_start h @ rest) 1 b = Some (length (hello_start h))"
proof -
  let ?p = "hp_version h @ hp_random h" and ?s = "hp_session h" and ?c = "hp_ciphers h" and ?m = "hp_compression h"
  let ?hello = "hello_start h @ rest"
  let ?q = "?p @ of_nat (length ?s) # ?s" let ?r = "?q @ u16_bytes (length ?c) @ ?c"
  have p: "length ?p = 34" and small: "length ?s < 256" "length ?m < 256" using assms by (simp_all add: hello_ok_def)
  have c: "length ?c < 65536" using assms by (simp add: hello_ok_def hello_bytes_def hello_start_def)
  have "skip_field ?hello 1 34 = Some (length ?q)"
    using skip_field_1 [OF small(1), of ?p "u16_bytes (length ?c) @ ?c @ of_nat (length ?m) # ?m @ rest"] p by (simp add: hello_start_def)
  moreover have "skip_field ?hello 2 (length ?q) = Some (length ?r)"
    using skip_field_2 [OF c, of ?q "of_nat (length ?m) # ?m @ rest"] by (simp add: hello_start_def)
  moreover have "skip_field ?hello 1 (length ?r) = Some (length (hello_start h))"
    using skip_field_1 [OF small(2), of ?r rest] by (simp add: hello_start_def)
  ultimately show ?thesis by blast
qed

lemma extension_fits: "(kind, body) \<in> set es \<Longrightarrow> length body \<le> length (extensions_bytes es)"
  by (induction es) (auto simp: extensions_bytes_def)

lemma hello_name_lemma:
  assumes ok: "hello_ok h"
  shows "host_result (named_host (hp_extensions h)) (hello_name (hello_bytes h))"
proof -
  let ?es = "hp_extensions h" and ?start = "hello_start h"
  let ?x = "extensions_bytes ?es"
  let ?a = "?start @ u16_bytes (length ?x)"
  have hello: "hello_bytes h = ?a @ ?x" "hello_bytes h = ?start @ u16_bytes (length ?x) @ ?x" by (simp_all add: hello_bytes_def)
  have size: "4 + length (hello_bytes h) \<le> 16384" using ok by (simp add: hello_ok_def)
  then have small: "length ?x < 65536" by (simp add: hello)
  have "length body \<le> length ?x" if "(kind, body) \<in> set ?es" for kind body
    using that by (rule extension_fits)
  then have "list_all (\<lambda>(kind, body). kind < 65536 \<and> length body < 65536) ?es"
    using ok small by (fastforce simp: hello_ok_def list_all_iff)
  then have found: "host_result (named_host ?es) (find_name (?a @ ?x) (length ?a + length ?x) (length ?a))"
    by (rule find_name_extensions)
  have "u16_at (hello_bytes h) (length ?start) = length ?x" unfolding hello(2) using small by (rule u16_at_bytes)
  with hello_start_end [OF ok, of "u16_bytes (length ?x) @ ?x"]
  have "hello_name (hello_bytes h) = find_name (?a @ ?x) (length ?a + length ?x) (length ?a)"
    by (auto simp: hello_name_def hello(2) Let_def)
  with found show ?thesis by simp
qed

section \<open>The stream\<close>

lemma read_server_name_more:
  assumes "read_server_name data \<noteq> NameMore"
  shows "read_server_name (data @ rest) = read_server_name data"
proof -
  have len: "5 \<le> length data" by (rule ccontr) (use assms in \<open>simp add: read_server_name_def\<close>)
  then have at: "(data @ rest) ! i = data ! i" if "i < 5" for i using that by (simp add: nth_append)
  have u16: "u16_at (data @ rest) 3 = u16_at data 3" using at [of 3] at [of 4] by (simp add: u16_at_def)
  show ?thesis
  proof (cases "data ! 0 = 0x16 \<and> data ! 1 = 0x03 \<and> 4 \<le> u16_at data 3 \<and> u16_at data 3 \<le> 16384")
    case True
    with assms len have whole: "5 + u16_at data 3 \<le> length data" by (auto simp: read_server_name_def Let_def split: if_splits)
    then have "take (u16_at data 3) (drop 5 (data @ rest)) = take (u16_at data 3) (drop 5 data)" by simp
    with True len whole u16 at [of 0] at [of 1] show ?thesis by (simp add: read_server_name_def Let_def)
  next
    case False
    with len u16 at [of 0] at [of 1] show ?thesis by (auto simp: read_server_name_def Let_def)
  qed
qed

lemma read_server_name_waits: "read_server_name data = NameMore \<Longrightarrow> length data < 5 + 16384"
proof -
  have known: "hello_name hello \<noteq> NameMore" for hello
  proof -
    have entries: "name_entries hello e b p \<noteq> NameMore" for hello e b p
      by (induction hello e b p rule: name_entries.induct) (subst name_entries.simps, simp add: Let_def)
    have "find_name hello e p \<noteq> NameMore" for hello e p
      by (induction hello e p rule: find_name.induct) (subst find_name.simps, simp add: Let_def entries)
    then show ?thesis by (auto simp: hello_name_def Let_def split: option.splits if_splits)
  qed
  assume "read_server_name data = NameMore"
  then show ?thesis by (auto simp: read_server_name_def Let_def known split: if_splits)
qed

text \<open>A record with a ClientHello, as it comes from the connection with what follows it.\<close>

lemma read_hello_record:
  assumes ok: "hello_ok h"
  shows "read_server_name (hello_record minor h @ rest) = hello_name (hello_bytes h)"
proof -
  let ?b = "hello_bytes h" let ?n = "length ?b"
  let ?msg = "1 # be_bytes 3 ?n @ ?b"
  have n: "4 + ?n \<le> 16384" using ok by (simp add: hello_ok_def)
  have data: "hello_record minor h @ rest = [0x16, 0x03, minor] @ u16_bytes (4 + ?n) @ ?msg @ rest"
    by (simp add: hello_record_def)
  have size: "u16_at (hello_record minor h @ rest) 3 = 4 + ?n"
    unfolding data using n by (intro u16_at_bytes') simp_all
  have rcd: "take (4 + ?n) (drop 5 (hello_record minor h @ rest)) = ?msg"
  proof -
    have "drop 5 (hello_record minor h @ rest) = ?msg @ rest" unfolding data by simp
    moreover have "length ?msg = 4 + ?n" by simp
    ultimately show ?thesis by (metis append_eq_conv_conj)
  qed
  have "?n div 65536 = 0" using n by simp
  then have three: "be_bytes 3 ?n = [0, of_nat (?n div 256), of_nat (?n mod 256)]"
    using n by (simp add: numeral_3_eq_3)
  have "?n div 256 < 256" using n by (simp add: less_mult_imp_div_less)
  then have sum: "unat (?msg ! 1) * 65536 + unat (?msg ! 2) * 256 + unat (?msg ! 3) = ?n"
    unfolding three by (simp add: unat_of_nat_byte)
  have ge: "5 + (4 + ?n) \<le> length (hello_record minor h @ rest)" unfolding data by simp
  have heads: "(hello_record minor h @ rest) ! 0 = 0x16" "(hello_record minor h @ rest) ! 1 = 0x03" unfolding data by simp_all
  show ?thesis
    using size rcd sum ge heads n by (simp add: read_server_name_def Let_def)
qed

end
