(* ===== verification/Edge_Theorems.thy ===== *)
theory Edge_Theorems
  imports Relay_Facts Hello_Facts "HOL-Library.Code_Target_Nat"
begin

text \<open>The properties of what stands in front of a node: addresses, endpoints, the PROXY line and the relay.\<close>

section \<open>Who may connect\<close>

text \<open>C30: The allow list lets in everybody when it is empty, and otherwise exactly the addresses that an entry which
  was understood covers; entries that were not understood are all reported and let nobody in, an address that is
  missing or malformed is turned away, and an IPv4 client that appears as an IPv6 address counts as itself.\<close>

theorem allow_list_is_exact:
  "(is_allowed (parse_allowlist entries) address \<longleftrightarrow>
      entries = [] \<or>
      (\<exists>a v. normalize_remote_address address = Some a \<and> address_value a = Some v \<and>
         list_ex (\<lambda>e. \<exists>r. parse_entry e = Some r \<and> in_network r v) entries)) \<and>
    al_invalid (parse_allowlist entries) = filter (\<lambda>e. parse_entry e = None) entries \<and>
    al_size (parse_allowlist entries) = length entries - length (al_invalid (parse_allowlist entries))"
proof -
  have "length (List.map_filter parse_entry entries) + length (filter (\<lambda>e. parse_entry e = None) entries) = length entries"
    by (induction entries) (auto simp: List.map_filter_simps split: option.splits)
  moreover have "al_invalid (parse_allowlist entries) = filter (\<lambda>e. parse_entry e = None) entries"
    "al_size (parse_allowlist entries) = length (List.map_filter parse_entry entries)"
    by (simp_all add: parse_allowlist_def Let_def List.map_filter_simps)
  ultimately show ?thesis by (simp add: is_allowed_iff list_ex_iff Bex_def)
qed

section \<open>The ways to a node\<close>

text \<open>However a list of ways to a node is written, the list that is kept is well formed: at most eight endpoints,
  no two alike, in the order written, each with a host, a port from 1 to 65535 and, where it has one, a valid
  server name; a way is left out only as a duplicate or after eight others, what cannot be read is reported, and
  merging such lists gives such a list again.\<close>

theorem endpoint_lists_are_well_formed:
  "(let (es, invalid) = parse_endpoint_list parse_url items; ways = List.map_filter (item_endpoint parse_url) items
    in endpoint_list_ok es \<and> subseq es ways \<and> invalid = List.map_filter (item_invalid parse_url) items \<and>
       list_all (\<lambda>e. endpoint_key e \<in> endpoint_key ` set es \<or> length es = 8) ways) \<and>
   endpoint_list_ok (merge_endpoints (map (\<lambda>items. fst (parse_endpoint_list parse_url items)) written))"
proof
  let ?s = "fold (scan_item parse_url) items \<lparr>sc_endpoints = [], sc_invalid = [], sc_seen = []\<rparr>"
  have "scan_ok parse_url items ?s" by (rule scan_list_ok)
  then show "let (es, invalid) = parse_endpoint_list parse_url items; ways = List.map_filter (item_endpoint parse_url) items
    in endpoint_list_ok es \<and> subseq es ways \<and> invalid = List.map_filter (item_invalid parse_url) items \<and>
       list_all (\<lambda>e. endpoint_key e \<in> endpoint_key ` set es \<or> length es = 8) ways"
    by (fastforce simp: parse_endpoint_list_def Let_def scan_ok_def endpoint_list_ok_def max_endpoints_def list_all_iff)
  have "endpoint_list_ok (fst (parse_endpoint_list parse_url items))" for items
    using scan_list_ok [of parse_url items] by (simp add: parse_endpoint_list_def Let_def scan_ok_def)
  then have "list_all endpoint_ok (concat (map (\<lambda>items. fst (parse_endpoint_list parse_url items)) written))"
    by (auto simp: endpoint_list_ok_def list_all_iff)
  then show "endpoint_list_ok (merge_endpoints (map (\<lambda>items. fst (parse_endpoint_list parse_url items)) written))"
    by (simp add: merge_endpoints_def merge_list_ok)
qed

text \<open>A URL parser for the witnesses: it knows one host.\<close>

definition one_host :: url_parser where
  "one_host t =
     (if starts_with ''https://h:'' t
      then let query = dropWhile (\<lambda>c. c \<noteq> CHR ''?'') (drop 10 t)
           in Some \<lparr>up_protocol = ''https:'', up_hostname = ''h'', up_port = [], up_username = [], up_password = [],
                up_pathname = ''/'', up_search = query, up_hash = [], up_origin = [],
                up_params = (if query = [] then [] else [(''sni'', drop 5 query)])\<rparr>
      else None)"

lemma one_host_reads: "reads_endpoints one_host"
proof -
  have "\<not> is_digit CHR ''?''" by (simp add: is_digit_def char_digit_def)
  then have no_query: "CHR ''?'' \<notin> set (dec_string port)" for port using digits_dec_string by blast
  then have digits: "dropWhile (\<lambda>c. c \<noteq> CHR ''?'') (dec_string port @ s) = dropWhile (\<lambda>c. c \<noteq> CHR ''?'') s" for port s
    by (intro dropWhile_append2) auto
  have reads: "\<exists>u'. one_host (endpoint_text ''h'' port name) = Some u' \<and> up_protocol u' = ''https:'' \<and> up_hostname u' = ''h'' \<and>
      up_username u' = [] \<and> up_password u' = [] \<and> up_pathname u' \<in> {[], ''/''} \<and> up_hash u' = [] \<and>
      up_params u' = (case name of None \<Rightarrow> [] | Some n \<Rightarrow> [(''sni'', n)])" for port name
    using digits no_query by (cases name) (auto simp: one_host_def endpoint_text_def starts_with_def Let_def)
  have "map_option up_hostname (one_host t) \<in> {None, Some ''h''}" for t by (simp add: one_host_def Let_def)
  then have host: "up_hostname u = ''h''" if "one_host t = Some u" for t u using that by (metis insertE option.inject option.map(2) option.simps(3) singletonD)
  have plain: "url_host ''h''" by (simp add: url_host_def)
  show ?thesis
    unfolding reads_endpoints_def
  proof (intro allI impI)
    fix t u assume "one_host t = Some u \<and> up_protocol u = ''https:'' \<and> up_hostname u \<noteq> []"
    then have u: "up_hostname u = ''h''" by (elim conjE) (rule host)
    show "url_host (up_hostname u) \<and> (\<forall>port name. 1 \<le> port \<and> port \<le> 65535 \<and> (case name of None \<Rightarrow> True | Some n \<Rightarrow> is_server_name n) \<longrightarrow>
        (\<exists>u'. one_host (endpoint_text (up_hostname u) port name) = Some u' \<and> up_protocol u' = ''https:'' \<and>
           up_hostname u' = up_hostname u \<and> up_username u' = [] \<and> up_password u' = [] \<and> up_pathname u' \<in> {[], ''/''} \<and>
           up_hash u' = [] \<and> up_params u' = (case name of None \<Rightarrow> [] | Some n \<Rightarrow> [(''sni'', n)])))"
      unfolding u by (intro conjI allI impI plain reads)
  qed
qed

text \<open>A relay key that was put together from endpoints of this program is read back as it was from the text an
  administrator pastes, with whatever blanks and line breaks the pasting put into it.\<close>

theorem relay_key_round_trip:
  assumes "reads_endpoints parse_url" "of_json (to_json (relay_body_of key)) = Some (relay_body_of key)" "relay_key_ok parse_url key"
    and "length (encode_relay_key to_json key) \<le> 4096" "filter (\<lambda>c. \<not> is_space c) pasted = encode_relay_key to_json key"
  shows "decode_relay_key parse_url of_json pasted = Inr key"
  using assms by (rule relay_key_read_again_lemma)

definition sample_relay_key :: relay_key where
  "sample_relay_key =
     \<lparr>rk_name = ''r'', rk_pin = replicate 43 CHR ''A'' @ ''='', rk_secret = replicate 32 7,
      rk_control = [\<lparr>ep_url = ''https://h:4100'', ep_sni = Some ''relay-control.pokyh''\<rparr>], rk_ports = [], rk_domain = ''nodes.example''\<rparr>"

lemma sample_relay_key_ok: "relay_key_ok one_host sample_relay_key"
proof -
  have "fst (parse_endpoint_list one_host [''https://h:4100?sni=relay-control.pokyh'']) = rk_control sample_relay_key"
    "fst (parse_endpoint_list one_host []) = rk_ports sample_relay_key"
    by code_simp+
  moreover have name: "is_server_name (rk_domain sample_relay_key)" "\<not> list_ex control_char (rk_name sample_relay_key)"
    "pin_ok (rk_pin sample_relay_key)"
    by code_simp+
  moreover have "listed one_host es" if "fst (parse_endpoint_list one_host items) = es" "list_all (\<lambda>e. length (format_endpoint e) \<le> max_text) es" for es items
    unfolding listed_def using that by (intro conjI exI [of _ items]) simp_all
  moreover have "list_all (\<lambda>e. length (format_endpoint e) \<le> max_text) (rk_control sample_relay_key)"
    "list_all (\<lambda>e. length (format_endpoint e) \<le> max_text) (rk_ports sample_relay_key)"
    by (simp_all add: sample_relay_key_def max_text_def format_endpoint_def)
  ultimately have "listed one_host (rk_control sample_relay_key)" "listed one_host (rk_ports sample_relay_key)" by blast+
  with name show ?thesis by (simp add: relay_key_ok_def sample_relay_key_def)
qed

lemma relay_key_round_trip_witness:
  "\<exists>to_json of_json. decode_relay_key one_host of_json ('' '' @ encode_relay_key to_json sample_relay_key) = Inr sample_relay_key"
proof -
  let ?to = "\<lambda>b :: relay_body. ''{}''" and ?of = "\<lambda>t :: string. Some (relay_body_of sample_relay_key)"
  have key: "encode_relay_key ?to sample_relay_key = ''pokyhrelay1.e30''" by code_simp
  have "filter (\<lambda>c. \<not> is_space c) ('' '' @ encode_relay_key ?to sample_relay_key) = encode_relay_key ?to sample_relay_key"
    unfolding key by code_simp
  then have "decode_relay_key one_host ?of ('' '' @ encode_relay_key ?to sample_relay_key) = Inr sample_relay_key"
    by (intro relay_key_round_trip [where to_json = ?to, OF one_host_reads _ sample_relay_key_ok]) (simp_all add: key)
  then show ?thesis by blast
qed

section \<open>Reading the beginning of a connection\<close>

text \<open>C29: What is decided about the first bytes of a connection does not depend on how they arrive in pieces: the PROXY
  line and the ClientHello are either still incomplete, with less than 108 and 16389 bytes so far, or the answer
  is the same whatever bytes follow.\<close>

theorem streams_are_decided_once:
  "((parse_proxy_header data = ProxyMore \<and> length data \<le> 107) \<or>
     parse_proxy_header (data @ rest) = parse_proxy_header data) \<and>
   ((read_server_name data = NameMore \<and> length data < 16389) \<or>
     read_server_name (data @ rest) = read_server_name data)"
  using parse_proxy_header_more [of data rest] parse_proxy_header_waits [of data]
    read_server_name_more [of data rest] read_server_name_waits [of data]
  by (auto simp: max_header_bytes_def)

text \<open>The header a forwarder writes is read back as the client's address and port and exactly as long as it is,
  whatever follows it, for two addresses of the same family; IPv4 addresses written as IPv6 ones count as IPv4.\<close>

theorem proxy_header_round_trip:
  assumes "is_ip (unmapped source) = v" "is_ip (unmapped destination) = v" "v \<noteq> 0" "sport \<le> 65535" "dport \<le> 65535"
    and "length (format_proxy_header (source, sport) (destination, dport)) \<le> 108"
  shows "parse_proxy_header (utf8 (format_proxy_header (source, sport) (destination, dport)) @ rest) =
    ProxyOk (Some (unmapped source)) (Some sport) (length (format_proxy_header (source, sport) (destination, dport)))"
  using assms by (intro proxy_header_read_back) (simp_all add: max_header_bytes_def)

lemma proxy_header_round_trip_witness:
  "parse_proxy_header (utf8 (format_proxy_header (''::ffff:203.0.113.7'', 51234) (''10.0.0.2'', 4100)) @ [22, 3]) =
    ProxyOk (Some ''203.0.113.7'') (Some 51234) 44"
proof -
  have v4: "is_ip (unmapped ''::ffff:203.0.113.7'') = 4" "is_ip (unmapped ''10.0.0.2'') = 4"
    and len: "length (format_proxy_header (''::ffff:203.0.113.7'', 51234) (''10.0.0.2'', 4100)) = 44"
    and src: "unmapped ''::ffff:203.0.113.7'' = ''203.0.113.7''"
    by code_simp+
  show ?thesis
    using proxy_header_round_trip [OF v4, of 51234 4100 "[22, 3]"] unfolding len src by simp
qed

text \<open>C28: From a TLS ClientHello, laid out as RFC 8446 says, a relay reads exactly the host name of its first
  server_name extension, in lower case, wherever that extension stands among the others and whatever follows the
  record; without that extension it reads that there is none.\<close>

theorem hello_name_is_found:
  assumes "hello_ok h" "named_host (hp_extensions h) = map_option server_name_body name"
    and "case name of None \<Rightarrow> True | Some n \<Rightarrow> is_server_name (to_lower n) \<and> list_all (\<lambda>c. of_char c < (128 :: nat)) n"
  shows "read_server_name (hello_record minor h @ rest) = NameOk (map_option to_lower name)"
  using hello_name_lemma [OF assms(1)] assms(2,3) read_hello_record [OF assms(1), of minor rest]
  by (auto simp: host_result_def split: option.splits)

definition sample_hello :: hello_parts where
  "sample_hello =
     \<lparr>hp_version = [3, 3], hp_random = replicate 32 9, hp_session = [], hp_ciphers = [0x13, 1], hp_compression = [0],
      hp_extensions = [(43, [2, 3, 4]), (0, server_name_body ''Node.Example''), (10, [])]\<rparr>"

lemma hello_name_is_found_witness:
  "read_server_name (hello_record 1 sample_hello @ [1, 2]) = NameOk (Some ''node.example'')"
proof -
  have "hello_ok sample_hello"
    by (simp add: hello_ok_def sample_hello_def hello_bytes_def hello_start_def extensions_bytes_def server_name_body_def)
  moreover have "named_host (hp_extensions sample_hello) = map_option server_name_body (Some ''Node.Example'')"
    by (simp add: sample_hello_def)
  moreover have "is_server_name (to_lower ''Node.Example'')" "to_lower ''Node.Example'' = ''node.example''" by code_simp+
  ultimately show ?thesis using hello_name_is_found [of sample_hello "Some ''Node.Example''" 1 "[1, 2]"] by simp
qed

end
