(* ===== verification/Transport.thy ===== *)
theory Transport
  imports Framing Endpoints Receiver
begin

text \<open>
  \<^verbatim>\<open>src/cluster/transport.ts\<close> with the session messages of \<^verbatim>\<open>src/cluster/protocol.ts\<close>, the sessions of
  \<^verbatim>\<open>src/cluster/runtime.ts\<close> and \<open>onChannelVerified\<close> of \<^verbatim>\<open>src/cluster/index.ts\<close>: the calls between two nodes,
  as the caller makes them (\<open>rpc\<close>) and as the other node answers them (\<open>handle_session\<close>, \<open>handle_rpc\<close>).

  The network, the clock, randomness, JSON texts and the function that answers calls are fields of
  \<open>tnode_env\<close>; what they act on is the world \<open>'w\<close> of the node. A peer object is the entry of its row in
  \<open>tn_peers\<close>. One operation of the caller ends before the next begins, so the handshake that overlapping
  calls share is not kept; the steps of overlapping calls are interleaved in Transport_Facts.
  \<open>cs_handshake\<close>, \<open>ss_handshake\<close>, \<open>tn_sent\<close> and \<open>tn_accepted\<close> are auxiliary: the number of the handshake a
  session comes from, the counters sealed and the counters accepted under it. No operation reads them.
\<close>

section \<open>State\<close>

datatype channel = ChTls | ChPlain | ChPath

datatype call_failure =
    RpcError string string
  | TlsChannelError string string
  | OtherError string

fun failure_text :: "call_failure \<Rightarrow> string" where
  "failure_text (RpcError code msg) = msg"
| "failure_text (TlsChannelError code msg) = msg"
| "failure_text (OtherError msg) = msg"

record client_session =
  cs_channel :: channel
  cs_sid :: buffer
  cs_c2s :: buffer
  cs_s2c :: buffer
  cs_counter :: int
  cs_created_at :: millis
  cs_handshake :: nat

record server_session =
  ss_peer_row_id :: string
  ss_channel_pin :: "string option"
  ss_sid :: buffer
  ss_c2s :: buffer
  ss_s2c :: buffer
  ss_replay :: replay_window
  ss_created_at :: millis
  ss_last_used_at :: millis
  ss_handshake :: nat

record previous_cert =
  pv_pin :: string
  pv_cert_pem :: string
  pv_until :: millis

record peer_tls =
  pt_url :: string
  pt_endpoints :: "endpoint list"
  pt_pin :: string
  pt_cert_pem :: string
  pt_previous :: "previous_cert option"

record pinned_target =
  tg_url :: string
  tg_pin :: string
  tg_cert_pem :: string
  tg_previous :: "(string \<times> string) option"
  tg_endpoints :: "endpoint list"

record link_peer =
  lp_row_id :: string
  lp_node_id :: string
  lp_base_url :: string
  lp_link_key :: buffer
  lp_session :: "client_session option"
  lp_tls :: "peer_tls option"
  lp_tls_locked :: bool
  lp_tls_out_ok :: bool
  lp_tls_in_ok :: bool
  lp_tls_retry_at :: millis
  lp_paths :: "string list"
  lp_path_active :: "string option"

record 'w tnode =
  tn_peers :: "(string \<times> link_peer) list"
  tn_sessions :: "(string \<times> server_session) list"
  tn_path_ways :: bool \<comment> \<open>\<open>ownPathWays\<close> offers something\<close>
  tn_draws :: nat
  tn_world :: 'w
  tn_sent :: "(nat \<times> int) list"
  tn_accepted :: "(nat \<times> int) list"

text \<open>What one handshake draws: an ephemeral key pair, a nonce and, on the answering side, a session id.\<close>

record drawn =
  dr_private :: buffer
  dr_public :: buffer
  dr_nonce :: buffer
  dr_sid :: buffer

section \<open>Messages\<close>

record session_message =
  sm_v :: int
  sm_from :: string
  sm_to :: string
  sm_e :: string
  sm_n :: string
  sm_mac :: string

record accept_message =
  am_sid :: string
  am_e :: string
  am_n :: string
  am_mac :: string

datatype 'j reply = ReplyOk 'j | ReplyError "string option" "string option"

text \<open>
  \<open>JSON.stringify\<close> and \<open>JSON.parse\<close> of calls and replies. Parsing a call is \<open>None\<close> when it throws, and has no
  method when \<open>m\<close> is not a string.
\<close>

record 'j json_texts =
  jt_call :: "string \<Rightarrow> 'j \<Rightarrow> string"
  jt_parse_call :: "string \<Rightarrow> (string option \<times> 'j) option"
  jt_reply :: "'j reply \<Rightarrow> string"
  jt_parse_reply :: "string \<Rightarrow> 'j reply option"

record ('j, 'w) tnode_env =
  te_pr :: primitives
  te_json :: "'j json_texts"
  te_compress :: "buffer \<Rightarrow> buffer"
  te_decompress :: "buffer \<Rightarrow> nat \<Rightarrow> string + buffer"
  te_self :: string
  te_own_pin :: "string option"
  te_max_message :: nat
  te_retry :: millis
  te_now :: "'w \<Rightarrow> millis"
  te_draw :: "nat \<Rightarrow> drawn"
  te_post :: "string \<Rightarrow> session_message \<Rightarrow> 'w \<Rightarrow> (call_failure + nat \<times> accept_message option) \<times> 'w"
  te_post_pinned :: "pinned_target \<Rightarrow> session_message \<Rightarrow> 'w \<Rightarrow> (call_failure + nat \<times> accept_message option \<times> string) \<times> 'w"
  te_send :: "string \<Rightarrow> buffer \<Rightarrow> 'w \<Rightarrow> (call_failure + nat \<times> nat \<times> buffer) \<times> 'w"
  te_send_pinned :: "pinned_target \<Rightarrow> buffer \<Rightarrow> 'w \<Rightarrow> (call_failure + nat \<times> buffer) \<times> 'w"
  te_handler :: "link_peer \<Rightarrow> string \<Rightarrow> 'j \<Rightarrow> 'w \<Rightarrow> (call_failure + 'j) \<times> 'w"

type_synonym ('w, 'a) tnode_op = "('w tnode, call_failure, 'a) request"

definition session_max_age_ms :: millis where "session_max_age_ms = 60 * 60 * 1000"
definition session_idle_ms :: millis where "session_idle_ms = 15 * 60 * 1000"
definition max_server_sessions_per_peer :: nat where "max_server_sessions_per_peer = 4"
definition max_frames_per_session :: int where "max_frames_per_session = 2 ^ 40"
definition handshake_nonce_bytes :: nat where "handshake_nonce_bytes = 16"
definition default_window :: int where "default_window = 4096"

definition max_frame_bytes :: "('j, 'w) tnode_env \<Rightarrow> nat" where
  "max_frame_bytes env = te_max_message env + 2 * 65536"

definition peer_of :: "string \<Rightarrow> 'w tnode \<Rightarrow> link_peer" where
  "peer_of rid n = the (map_of (tn_peers n) rid)"

definition on_peer :: "string \<Rightarrow> (link_peer \<Rightarrow> link_peer) \<Rightarrow> 'w tnode \<Rightarrow> 'w tnode" where
  "on_peer rid f n = n\<lparr>tn_peers := map (\<lambda>(k, p). (k, if k = rid then f p else p)) (tn_peers n)\<rparr>"

definition clock_of :: "('j, 'w) tnode_env \<Rightarrow> 'w tnode \<Rightarrow> millis" where
  "clock_of env n = te_now env (tn_world n)"

definition peer_by_node_id :: "string \<Rightarrow> 'w tnode \<Rightarrow> link_peer option" where
  "peer_by_node_id node n = find (\<lambda>p. lp_node_id p = node) (map snd (tn_peers n))"

definition fixed_bytes :: "nat \<Rightarrow> string \<Rightarrow> buffer option" where
  "fixed_bytes len s =
     (if 128 < length s then None else let b = b64_decode s in if length b = len then Some b else None)"

section \<open>Which way a call takes\<close>

definition pinned_target_of :: "millis \<Rightarrow> link_peer \<Rightarrow> pinned_target option" where
  "pinned_target_of now p =
     map_option (\<lambda>t. \<lparr>tg_url = pt_url t, tg_pin = pt_pin t, tg_cert_pem = pt_cert_pem t,
         tg_previous = (case pt_previous t of
             None \<Rightarrow> None
           | Some v \<Rightarrow> if now < pv_until v then Some (pv_pin v, pv_cert_pem v) else None),
         tg_endpoints = pt_endpoints t\<rparr>)
       (lp_tls p)"

definition pin_accepted :: "millis \<Rightarrow> link_peer \<Rightarrow> string \<Rightarrow> bool" where
  "pin_accepted now p pin =
     (case lp_tls p of
        None \<Rightarrow> False
      | Some t \<Rightarrow> pt_pin t = pin \<or>
          (case pt_previous t of None \<Rightarrow> False | Some v \<Rightarrow> now < pv_until v \<and> pv_pin v = pin))"

definition channel_for :: "millis \<Rightarrow> link_peer \<Rightarrow> channel" where
  "channel_for now p =
     (if lp_tls p = None then ChPlain
      else if lp_tls_retry_at p \<le> now then ChTls
      else if \<not> lp_tls_locked p then ChPlain
      else if lp_paths p \<noteq> [] then ChPath else ChTls)"

definition path_order :: "link_peer \<Rightarrow> string list" where
  "path_order p =
     (case lp_path_active p of
        Some way \<Rightarrow> if way \<noteq> [] \<and> way \<in> set (lp_paths p) then way # filter (\<lambda>w. w \<noteq> way) (lp_paths p) else lp_paths p
      | None \<Rightarrow> lp_paths p)"

definition fall_back :: "('j, 'w) tnode_env \<Rightarrow> string \<Rightarrow> 'w tnode \<Rightarrow> 'w tnode" where
  "fall_back env rid n = on_peer rid (\<lambda>p. p\<lparr>lp_tls_retry_at := clock_of env n + te_retry env\<rparr>) n"

text \<open>\<open>onChannelVerified\<close>: once both directions have worked the link is locked to the channel.\<close>

definition channel_verified :: "string \<Rightarrow> 'w tnode \<Rightarrow> 'w tnode" where
  "channel_verified rid n =
     (let p = peer_of rid n
      in if lp_tls_locked p \<or> \<not> lp_tls_out_ok p \<or> \<not> lp_tls_in_ok p then n
         else (on_peer rid (\<lambda>p. p\<lparr>lp_tls_locked := True,
                 lp_session := (case lp_session p of
                     Some s \<Rightarrow> if cs_channel s = ChPlain then None else Some s
                   | None \<Rightarrow> None)\<rparr>) n)
              \<lparr>tn_sessions := filter (\<lambda>(k, s). \<not> (ss_peer_row_id s = lp_row_id p \<and> ss_channel_pin s = None)) (tn_sessions n)\<rparr>)"

section \<open>Opening a session\<close>

record session_target =
  st_base_url :: string
  st_node_id :: string
  st_link_key :: buffer
  st_tls :: "pinned_target option"

definition target_binding :: "('j, 'w) tnode_env \<Rightarrow> session_target \<Rightarrow> channel_binding option" where
  "target_binding env t =
     (case (st_tls t, te_own_pin env) of
        (Some target, Some own) \<Rightarrow> Some \<lparr>cb_client = own, cb_server = tg_pin target\<rparr>
      | _ \<Rightarrow> None)"

definition client_init :: "('j, 'w) tnode_env \<Rightarrow> session_target \<Rightarrow> drawn \<Rightarrow> session_init" where
  "client_init env t d =
     \<lparr>si_from = te_self env, si_to = st_node_id t, si_e = dr_public d, si_n = dr_nonce d, si_tls = target_binding env t\<rparr>"

definition session_message_of :: "session_init \<Rightarrow> buffer \<Rightarrow> session_message" where
  "session_message_of i mac =
     \<lparr>sm_v = (if si_tls i = None then 2 else 3), sm_from = si_from i, sm_to = si_to i,
      sm_e = b64url_encode (si_e i), sm_n = b64url_encode (si_n i), sm_mac = b64url_encode mac\<rparr>"

definition parse_accept :: "accept_message \<Rightarrow> (session_accept \<times> buffer) option" where
  "parse_accept a =
     (case (fixed_bytes session_id_bytes (am_sid a), fixed_bytes x25519_public_bytes (am_e a),
            fixed_bytes handshake_nonce_bytes (am_n a), fixed_bytes 32 (am_mac a)) of
        (Some sid, Some e, Some nonce, Some mac) \<Rightarrow> Some (\<lparr>sa_sid = sid, sa_e = e, sa_n = nonce\<rparr>, mac)
      | _ \<Rightarrow> None)"

definition session_of_accept ::
    "('j, 'w) tnode_env \<Rightarrow> session_target \<Rightarrow> drawn \<Rightarrow> nat \<Rightarrow> millis \<Rightarrow> session_accept \<Rightarrow> string + client_session" where
  "session_of_accept env t d handshake now a =
     and_then (shared_secret (te_pr env) (dr_private d) (sa_e a)) (\<lambda>shared.
     and_then (session_keys (te_pr env) (st_link_key t) shared (client_init env t d) a) (\<lambda>keys.
       Inr \<lparr>cs_channel = (if target_binding env t = None then ChPlain else ChTls), cs_sid = sa_sid a,
            cs_c2s = key_c2s keys, cs_s2c = key_s2c keys, cs_counter = 0, cs_created_at = now,
            cs_handshake = handshake\<rparr>))"

text \<open>The checks of an answer, in the order of the code.\<close>

definition check_accept ::
    "('j, 'w) tnode_env \<Rightarrow> session_target \<Rightarrow> drawn \<Rightarrow> nat \<Rightarrow> nat \<times> accept_message option \<times> string \<Rightarrow> millis \<Rightarrow>
     call_failure + client_session" where
  "check_accept env t d handshake answer now =
     (case answer of (status, body, server_pin) \<Rightarrow>
        if status \<noteq> 200 then Inl (RpcError ''handshake'' (''session handshake refused (HTTP '' @ dec_string status @ '')''))
        else if (case target_binding env t of None \<Rightarrow> False | Some b \<Rightarrow> server_pin \<noteq> cb_server b)
        then Inl (RpcError ''handshake'' ''the other node answered with a certificate other than the pinned one'')
        else case (case body of None \<Rightarrow> None | Some a \<Rightarrow> parse_accept a) of
            None \<Rightarrow> Inl (RpcError ''handshake'' ''session handshake answer is malformed'')
          | Some (a, mac) \<Rightarrow>
              (case session_accept_mac (te_pr env) (st_link_key t) (client_init env t d) a of
                 Inl e \<Rightarrow> Inl (OtherError e)
               | Inr expected \<Rightarrow>
                   if \<not> safe_equal mac expected
                   then Inl (RpcError ''handshake'' ''peer could not prove knowledge of the link key'')
                   else map_error OtherError (session_of_accept env t d handshake now a)))"

definition post_session ::
    "('j, 'w) tnode_env \<Rightarrow> session_target \<Rightarrow> session_message \<Rightarrow> 'w \<Rightarrow>
     (call_failure + nat \<times> accept_message option \<times> string) \<times> 'w" where
  "post_session env t message w =
     (case st_tls t of
        Some target \<Rightarrow> te_post_pinned env target message w
      | None \<Rightarrow> (case te_post env (st_base_url t) message w of
            (Inl e, w') \<Rightarrow> (Inl e, w')
          | (Inr (status, body), w') \<Rightarrow> (Inr (status, body, []), w')))"

definition open_session :: "('j, 'w) tnode_env \<Rightarrow> session_target \<Rightarrow> ('w, client_session) tnode_op" where
  "open_session env t n =
     (if st_tls t \<noteq> None \<and> te_own_pin env = None
      then (Inl (RpcError ''handshake'' ''this node has no certificate yet''), n)
      else let handshake = tn_draws n; d = te_draw env handshake; n1 = n\<lparr>tn_draws := Suc handshake\<rparr>
           in case session_init_mac (te_pr env) (st_link_key t) (client_init env t d) of
                Inl e \<Rightarrow> (Inl (OtherError e), n1)
              | Inr mac \<Rightarrow>
                  (case post_session env t (session_message_of (client_init env t d) mac) (tn_world n1) of
                     (Inl e, w) \<Rightarrow> (Inl e, n1\<lparr>tn_world := w\<rparr>)
                   | (Inr answer, w) \<Rightarrow> (check_accept env t d handshake answer (te_now env w), n1\<lparr>tn_world := w\<rparr>)))"

text \<open>The ways through the web proxy, one after the other, with the failures so far.\<close>

fun open_ways ::
    "('j, 'w) tnode_env \<Rightarrow> string \<Rightarrow> string list \<Rightarrow> string list \<Rightarrow> ('w, client_session) tnode_op" where
  "open_ways env rid [] failures n =
     (Inl (RpcError ''handshake'' (''no way through the web proxy works ('' @
        (if failures = [] then ''none offered'' else join_with ''; '' failures) @ '')'')), n)"
| "open_ways env rid (way # ways) failures n =
     (let p = peer_of rid n
      in case open_session env \<lparr>st_base_url = way, st_node_id = lp_node_id p, st_link_key = lp_link_key p, st_tls = None\<rparr> n of
           (Inr s, n1) \<Rightarrow> (Inr (s\<lparr>cs_channel := ChPath\<rparr>), on_peer rid (\<lambda>p. p\<lparr>lp_path_active := Some way\<rparr>) n1)
         | (Inl e, n1) \<Rightarrow> open_ways env rid ways (failures @ [way @ '': '' @ failure_text e]) n1)"

definition open_path_session :: "('j, 'w) tnode_env \<Rightarrow> string \<Rightarrow> ('w, client_session) tnode_op" where
  "open_path_session env rid n = open_ways env rid (path_order (peer_of rid n)) [] n"

definition peer_target :: "millis \<Rightarrow> channel \<Rightarrow> link_peer \<Rightarrow> session_target" where
  "peer_target now ch p =
     \<lparr>st_base_url = lp_base_url p, st_node_id = lp_node_id p, st_link_key = lp_link_key p,
      st_tls = (if ch = ChTls then pinned_target_of now p else None)\<rparr>"

definition session_usable :: "channel \<Rightarrow> millis \<Rightarrow> client_session option \<Rightarrow> bool" where
  "session_usable ch now current \<longleftrightarrow>
     (case current of
        None \<Rightarrow> False
      | Some s \<Rightarrow> cs_channel s = ch \<and> now - cs_created_at s < session_max_age_ms \<and> cs_counter s < max_frames_per_session)"

definition new_session :: "('j, 'w) tnode_env \<Rightarrow> string \<Rightarrow> channel \<Rightarrow> ('w, client_session) tnode_op" where
  "new_session env rid ch n =
     (if ch = ChPath then open_path_session env rid n
      else open_session env (peer_target (clock_of env n) ch (peer_of rid n)) n)"

definition ensure_session :: "('j, 'w) tnode_env \<Rightarrow> string \<Rightarrow> channel \<Rightarrow> ('w, client_session) tnode_op" where
  "ensure_session env rid ch =
     op_bind (op_read (\<lambda>n. (lp_session (peer_of rid n), session_usable ch (clock_of env n) (lp_session (peer_of rid n)))))
       (\<lambda>(current, usable).
          if usable then op_ok (the current)
          else op_bind (op_write (on_peer rid (\<lambda>p. p\<lparr>lp_session := None\<rparr>))) (\<lambda>_.
               op_bind (new_session env rid ch) (\<lambda>s.
               op_bind (op_write (on_peer rid (\<lambda>p. p\<lparr>lp_session := Some s\<rparr>))) (\<lambda>_.
               op_ok s))))"

section \<open>Sending a call\<close>

definition on_world :: "('w \<Rightarrow> ('e + 'a) \<times> 'w) \<Rightarrow> ('w tnode, 'e, 'a) request" where
  "on_world f n = (case f (tn_world n) of (r, w) \<Rightarrow> (r, n\<lparr>tn_world := w\<rparr>))"

definition too_large :: call_failure where
  "too_large = RpcError ''too_large'' ''answer exceeds the configured size limit''"

definition send_pinned :: "('j, 'w) tnode_env \<Rightarrow> pinned_target \<Rightarrow> buffer \<Rightarrow> 'w \<Rightarrow> (call_failure + nat \<times> buffer option) \<times> 'w" where
  "send_pinned env target body w =
     (case te_send_pinned env target body w of
        (Inl (TlsChannelError code msg), w') \<Rightarrow>
          (Inl (if code = ''too_large'' then too_large else TlsChannelError code msg), w')
      | (Inl e, w') \<Rightarrow> (Inl e, w')
      | (Inr (status, answer), w') \<Rightarrow> (Inr (status, if status = 200 then Some answer else None), w'))"

definition send_plain :: "('j, 'w) tnode_env \<Rightarrow> string \<Rightarrow> buffer \<Rightarrow> 'w \<Rightarrow> (call_failure + nat \<times> buffer option) \<times> 'w" where
  "send_plain env base body w =
     (case te_send env base body w of
        (Inl e, w') \<Rightarrow> (Inl e, w')
      | (Inr (status, declared, answer), w') \<Rightarrow>
          (if status \<noteq> 200 then Inr (status, None)
           else if max_frame_bytes env < declared \<or> max_frame_bytes env < length answer then Inl too_large
           else Inr (200, Some answer), w'))"

text \<open>The web address a call outside the channel goes to.\<close>

definition call_base :: "channel \<Rightarrow> link_peer \<Rightarrow> string option" where
  "call_base ch p = (if ch = ChPath then lp_path_active p else Some (lp_base_url p))"

definition send_frame :: "('j, 'w) tnode_env \<Rightarrow> string \<Rightarrow> channel \<Rightarrow> buffer \<Rightarrow> ('w, nat \<times> buffer option) tnode_op" where
  "send_frame env rid ch body n =
     (if ch = ChTls
      then (case pinned_target_of (clock_of env n) (peer_of rid n) of
          Some target \<Rightarrow> on_world (send_pinned env target body) n
        | None \<Rightarrow> (Inl (OtherError ''Cannot read properties of null''), n))
      else case call_base ch (peer_of rid n) of
          Some base \<Rightarrow> if base = [] then (Inl (RpcError ''session'' ''no way through the web proxy is in use''), n)
                       else on_world (send_plain env base body) n
        | None \<Rightarrow> (Inl (RpcError ''session'' ''no way through the web proxy is in use''), n))"

definition call_body :: "primitives \<Rightarrow> client_session \<Rightarrow> buffer \<Rightarrow> string + buffer" where
  "call_body pr s packed =
     and_then (seal_frame pr (cs_c2s s) C2S (cs_sid s) (cs_counter s) packed) (\<lambda>sealed.
       encode_request (cs_sid s) (cs_counter s) sealed)"

text \<open>\<open>session.counter += 1n\<close> on the session object the peer holds.\<close>

definition take_counter :: "string \<Rightarrow> client_session \<Rightarrow> 'w tnode \<Rightarrow> 'w tnode" where
  "take_counter rid s n =
     (on_peer rid (\<lambda>p. p\<lparr>lp_session := Some (s\<lparr>cs_counter := cs_counter s + 1\<rparr>)\<rparr>) n)
       \<lparr>tn_sent := (cs_handshake s, cs_counter s) # tn_sent n\<rparr>"

definition send_call ::
    "('j, 'w) tnode_env \<Rightarrow> string \<Rightarrow> channel \<Rightarrow> buffer \<Rightarrow> ('w, client_session \<times> nat \<times> buffer option) tnode_op" where
  "send_call env rid ch packed =
     op_bind (ensure_session env rid ch) (\<lambda>s.
     op_bind (op_write (take_counter rid s)) (\<lambda>_.
     op_bind (op_lift (map_error OtherError (call_body (te_pr env) s packed))) (\<lambda>body.
     op_bind (send_frame env rid ch body) (\<lambda>answer.
     op_ok (s, answer)))))"

definition is_too_large :: "call_failure \<Rightarrow> bool" where
  "is_too_large err = (case err of RpcError code msg \<Rightarrow> code = ''too_large'' | _ \<Rightarrow> False)"

text \<open>The other way a call goes after a failure on the channel, if any.\<close>

definition other_way :: "link_peer \<Rightarrow> channel \<Rightarrow> call_failure \<Rightarrow> channel option" where
  "other_way p ch err =
     (if ch = ChTls \<and> \<not> is_too_large err
      then if \<not> lp_tls_locked p then Some ChPlain else if lp_paths p \<noteq> [] then Some ChPath else None
      else None)"

definition forget_session :: "string \<Rightarrow> client_session \<Rightarrow> 'w tnode \<Rightarrow> 'w tnode" where
  "forget_session rid s n =
     on_peer rid (\<lambda>p. if map_option cs_handshake (lp_session p) = Some (cs_handshake s) then p\<lparr>lp_session := None\<rparr> else p) n"

definition note_out_ok :: "string \<Rightarrow> channel \<Rightarrow> 'w tnode \<Rightarrow> 'w tnode" where
  "note_out_ok rid ch n =
     (if ch = ChTls \<and> \<not> lp_tls_out_ok (peer_of rid n)
      then channel_verified rid (on_peer rid (\<lambda>p. p\<lparr>lp_tls_out_ok := True\<rparr>) n) else n)"

definition reply_result :: "'j reply \<Rightarrow> call_failure + 'j" where
  "reply_result r =
     (case r of
        ReplyOk j \<Rightarrow> Inr j
      | ReplyError e msg \<Rightarrow> Inl (RpcError (case e of Some c \<Rightarrow> c | None \<Rightarrow> ''remote'')
          (case msg of Some m \<Rightarrow> m | None \<Rightarrow> ''peer reported an error'')))"

definition open_answer :: "('j, 'w) tnode_env \<Rightarrow> buffer \<Rightarrow> call_failure + 'j reply" where
  "open_answer env opened =
     (case unpack_payload (te_decompress env) opened (te_max_message env) of
        Inl e \<Rightarrow> Inl (RpcError ''integrity'' ''answer could not be unpacked'')
      | Inr content \<Rightarrow> (case jt_parse_reply (te_json env) (of_utf8 content) of
            None \<Rightarrow> Inl (OtherError ''Unexpected token'')
          | Some r \<Rightarrow> Inr r))"

definition receive_answer ::
    "('j, 'w) tnode_env \<Rightarrow> string \<Rightarrow> channel \<Rightarrow> client_session \<Rightarrow> nat \<times> buffer option \<Rightarrow> ('w, 'j) tnode_op" where
  "receive_answer env rid ch s answer n =
     (case answer of
        (status, Some sealed) \<Rightarrow>
          if status \<noteq> 200 then (Inl (RpcError ''http'' (''peer answered HTTP '' @ dec_string status)), n)
          else (case open_frame (te_pr env) (cs_s2c s) S2C (cs_sid s) (cs_counter s) sealed of
              Inl e \<Rightarrow> (Inl (RpcError ''integrity'' ''answer failed authentication''), forget_session rid s n)
            | Inr opened \<Rightarrow>
                (case open_answer env opened of
                   Inl e \<Rightarrow> (Inl e, n)
                 | Inr r \<Rightarrow> (reply_result r, note_out_ok rid ch n)))
      | (status, None) \<Rightarrow> (Inl (RpcError ''http'' (''peer answered HTTP '' @ dec_string status)), n))"

fun rpc_attempts :: "('j, 'w) tnode_env \<Rightarrow> string \<Rightarrow> buffer \<Rightarrow> nat \<Rightarrow> channel \<Rightarrow> ('w, 'j) tnode_op" where
  "rpc_attempts env rid packed 0 ch n = (Inl (RpcError ''session'' ''no session could be established''), n)"
| "rpc_attempts env rid packed (Suc k) ch n =
     (case send_call env rid ch packed n of
        (Inl err, n1) \<Rightarrow>
          (case other_way (peer_of rid n1) ch err of
             Some ch' \<Rightarrow> rpc_attempts env rid packed k ch' (fall_back env rid n1)
           | None \<Rightarrow> (Inl err, n1))
      | (Inr (s, answer), n1) \<Rightarrow>
          if fst answer = 401 then rpc_attempts env rid packed k ch (forget_session rid s n1)
          else receive_answer env rid ch s answer n1)"

definition rpc :: "('j, 'w) tnode_env \<Rightarrow> string \<Rightarrow> string \<Rightarrow> 'j \<Rightarrow> ('w, 'j) tnode_op" where
  "rpc env rid method params n =
     (let plaintext = utf8 (jt_call (te_json env) method params)
      in if te_max_message env < length plaintext
         then (Inl (RpcError ''too_large'' ''message exceeds the configured size limit''), n)
         else case pack_payload (te_compress env) plaintext of
             Inl e \<Rightarrow> (Inl (OtherError e), n)
           | Inr packed \<Rightarrow> rpc_attempts env rid packed 3 (channel_for (clock_of env n) (peer_of rid n)) n)"

section \<open>Answering a handshake\<close>

datatype entry_point = EpPublic | EpDedicated | EpMtls

text \<open>\<open>ChannelContext\<close>: the entry point of a request and the pin of the client certificate, if any.\<close>

record channel_context =
  cc_entry :: entry_point
  cc_client :: "string option"

datatype session_response =
    SessionRefused nat
  | SessionAccepted accept_message
  | SessionCrashed string

record session_request =
  sr_v :: int
  sr_from :: string
  sr_to :: string
  sr_e :: buffer
  sr_n :: buffer
  sr_mac :: buffer

definition parse_session_init :: "session_message \<Rightarrow> session_request option" where
  "parse_session_init m =
     (if (sm_v m = 2 \<or> sm_v m = 3) \<and> node_id_ok (sm_from m) \<and> node_id_ok (sm_to m)
      then case (fixed_bytes x25519_public_bytes (sm_e m), fixed_bytes handshake_nonce_bytes (sm_n m), fixed_bytes 32 (sm_mac m)) of
          (Some e, Some nonce, Some mac) \<Rightarrow>
            Some \<lparr>sr_v = sm_v m, sr_from = sm_from m, sr_to = sm_to m, sr_e = e, sr_n = nonce, sr_mac = mac\<rparr>
        | _ \<Rightarrow> None
      else None)"

text \<open>The binding of a session to the connection, or a refusal (\<open>None\<close>).\<close>

definition server_binding ::
    "('j, 'w) tnode_env \<Rightarrow> channel_context \<Rightarrow> bool \<Rightarrow> millis \<Rightarrow> link_peer \<Rightarrow> int \<Rightarrow> channel_binding option option" where
  "server_binding env ctx path_ways now p v =
     (if cc_entry ctx = EpMtls
      then case (te_own_pin env, cc_client ctx) of
          (Some own, Some client) \<Rightarrow>
            if v \<noteq> 3 \<or> \<not> pin_accepted now p client then None else Some (Some \<lparr>cb_client = client, cb_server = own\<rparr>)
        | _ \<Rightarrow> None
      else if v \<noteq> 2 \<or> (lp_tls_locked p \<and> \<not> path_ways) then None else Some None)"

definition server_init :: "session_request \<Rightarrow> channel_binding option \<Rightarrow> session_init" where
  "server_init r binding = \<lparr>si_from = sr_from r, si_to = sr_to r, si_e = sr_e r, si_n = sr_n r, si_tls = binding\<rparr>"

definition server_accept :: "drawn \<Rightarrow> session_accept" where
  "server_accept d = \<lparr>sa_sid = dr_sid d, sa_e = dr_public d, sa_n = dr_nonce d\<rparr>"

definition server_keys :: "primitives \<Rightarrow> link_peer \<Rightarrow> drawn \<Rightarrow> session_init \<Rightarrow> string + session_keys_result" where
  "server_keys pr p d init =
     and_then (shared_secret pr (dr_private d) (si_e init)) (\<lambda>shared.
       session_keys pr (lp_link_key p) shared init (server_accept d))"

text \<open>Room for one more session of the peer: the sessions longest out of use go first.\<close>

fun drop_oldest :: "(string \<times> server_session) list \<Rightarrow> (string \<times> server_session) list \<Rightarrow> (string \<times> server_session) list" where
  "drop_oldest [] sessions = sessions"
| "drop_oldest (m # mine) sessions =
     (if max_server_sessions_per_peer \<le> length (m # mine)
      then drop_oldest mine (filter (\<lambda>(k, s). k \<noteq> fst m) sessions) else sessions)"

definition sessions_of :: "string \<Rightarrow> (string \<times> server_session) list \<Rightarrow> (string \<times> server_session) list" where
  "sessions_of rid sessions = filter (\<lambda>(k, s). ss_peer_row_id s = rid) sessions"

definition make_room :: "string \<Rightarrow> (string \<times> server_session) list \<Rightarrow> (string \<times> server_session) list" where
  "make_room rid sessions = drop_oldest (sort_key (\<lambda>(k, s). ss_last_used_at s) (sessions_of rid sessions)) sessions"

definition add_session :: "server_session \<Rightarrow> 'w tnode \<Rightarrow> 'w tnode" where
  "add_session s n =
     n\<lparr>tn_sessions := al_put (hex_encode (ss_sid s)) s (make_room (ss_peer_row_id s) (tn_sessions n))\<rparr>"

definition note_in_ok :: "link_peer \<Rightarrow> channel_binding option \<Rightarrow> 'w tnode \<Rightarrow> 'w tnode" where
  "note_in_ok p binding n =
     (if binding \<noteq> None \<and> \<not> lp_tls_in_ok p
      then channel_verified (lp_row_id p) (on_peer (lp_row_id p) (\<lambda>p. p\<lparr>lp_tls_in_ok := True\<rparr>) n) else n)"

definition accept_message_of :: "session_accept \<Rightarrow> buffer \<Rightarrow> accept_message" where
  "accept_message_of a mac =
     \<lparr>am_sid = b64url_encode (sa_sid a), am_e = b64url_encode (sa_e a), am_n = b64url_encode (sa_n a),
      am_mac = b64url_encode mac\<rparr>"

definition server_session_of ::
    "link_peer \<Rightarrow> channel_binding option \<Rightarrow> drawn \<Rightarrow> nat \<Rightarrow> millis \<Rightarrow> session_keys_result \<Rightarrow> server_session" where
  "server_session_of p binding d handshake now keys =
     \<lparr>ss_peer_row_id = lp_row_id p, ss_channel_pin = map_option cb_client binding, ss_sid = dr_sid d,
      ss_c2s = key_c2s keys, ss_s2c = key_s2c keys, ss_replay = new_window default_window, ss_created_at = now,
      ss_last_used_at = now, ss_handshake = handshake\<rparr>"

definition grant_session ::
    "('j, 'w) tnode_env \<Rightarrow> link_peer \<Rightarrow> session_init \<Rightarrow> 'w tnode \<Rightarrow> session_response \<times> 'w tnode" where
  "grant_session env p init n =
     (let handshake = tn_draws n; d = te_draw env handshake; n1 = n\<lparr>tn_draws := Suc handshake\<rparr>
      in case server_keys (te_pr env) p d init of
           Inl e \<Rightarrow> (SessionRefused 400, n1)
         | Inr keys \<Rightarrow>
             let n2 = add_session (server_session_of p (si_tls init) d handshake (clock_of env n1) keys) n1
             in case session_accept_mac (te_pr env) (lp_link_key p) init (server_accept d) of
                  Inl e \<Rightarrow> (SessionCrashed e, n2)
                | Inr mac \<Rightarrow> (SessionAccepted (accept_message_of (server_accept d) mac), note_in_ok p (si_tls init) n2))"

definition handle_session ::
    "('j, 'w) tnode_env \<Rightarrow> channel_context \<Rightarrow> session_message option \<Rightarrow> 'w tnode \<Rightarrow> session_response \<times> 'w tnode" where
  "handle_session env ctx body n =
     (case (case body of None \<Rightarrow> None | Some m \<Rightarrow> parse_session_init m) of
        None \<Rightarrow> (SessionRefused 400, n)
      | Some r \<Rightarrow>
          (case (if sr_to r = te_self env then peer_by_node_id (sr_from r) n else None) of
             None \<Rightarrow> (SessionRefused 404, n)
           | Some p \<Rightarrow>
               (case server_binding env ctx (tn_path_ways n) (clock_of env n) p (sr_v r) of
                  None \<Rightarrow> (SessionRefused 403, n)
                | Some binding \<Rightarrow>
                    (case session_init_mac (te_pr env) (lp_link_key p) (server_init r binding) of
                       Inl e \<Rightarrow> (SessionCrashed e, n)
                     | Inr expected \<Rightarrow>
                         if \<not> safe_equal (sr_mac r) expected then (SessionRefused 403, n)
                         else grant_session env p (server_init r binding) n))))"

section \<open>Answering a call\<close>

datatype rpc_response =
    RpcRefused nat
  | RpcSealed buffer
  | RpcCrashed string

definition forget_server_session :: "string \<Rightarrow> 'w tnode \<Rightarrow> 'w tnode" where
  "forget_server_session key n = n\<lparr>tn_sessions := filter (\<lambda>(k, s). k \<noteq> key) (tn_sessions n)\<rparr>"

definition presented_pin :: "channel_context \<Rightarrow> string option" where
  "presented_pin ctx = (if cc_entry ctx = EpMtls then cc_client ctx else None)"

text \<open>The content of a call: the method and its parameters, or the failure that becomes the answer.\<close>

definition parse_call :: "('j, 'w) tnode_env \<Rightarrow> buffer \<Rightarrow> call_failure + string \<times> 'j" where
  "parse_call env plaintext =
     (case unpack_payload (te_decompress env) plaintext (te_max_message env) of
        Inl e \<Rightarrow> Inl (OtherError e)
      | Inr content \<Rightarrow> (case jt_parse_call (te_json env) (of_utf8 content) of
            None \<Rightarrow> Inl (OtherError ''Unexpected token'')
          | Some (None, params) \<Rightarrow> Inl (RpcError ''bad_request'' ''malformed call'')
          | Some (Some method, params) \<Rightarrow> Inr (method, params)))"

definition reply_of :: "call_failure + 'j \<Rightarrow> 'j reply" where
  "reply_of r =
     (case r of
        Inr j \<Rightarrow> ReplyOk j
      | Inl (RpcError code msg) \<Rightarrow> ReplyError (Some code) (Some msg)
      | Inl e \<Rightarrow> ReplyError (Some ''internal'') (Some ''internal error''))"

definition run_call :: "('j, 'w) tnode_env \<Rightarrow> link_peer \<Rightarrow> buffer \<Rightarrow> 'w tnode \<Rightarrow> 'j reply \<times> 'w tnode" where
  "run_call env p plaintext n =
     (case parse_call env plaintext of
        Inl e \<Rightarrow> (reply_of (Inl e), n)
      | Inr (method, params) \<Rightarrow>
          (case te_handler env p method params (tn_world n) of (r, w) \<Rightarrow> (reply_of r, n\<lparr>tn_world := w\<rparr>)))"

definition seal_reply :: "('j, 'w) tnode_env \<Rightarrow> server_session \<Rightarrow> int \<Rightarrow> 'j reply \<Rightarrow> string + buffer" where
  "seal_reply env s counter r =
     and_then (pack_payload (te_compress env) (utf8 (jt_reply (te_json env) r))) (\<lambda>packed.
       seal_frame (te_pr env) (ss_s2c s) S2C (ss_sid s) counter packed)"

text \<open>The session as it stands once a counter was accepted; the object stays the same, so its entry changes.\<close>

definition use_session :: "string \<Rightarrow> int \<Rightarrow> millis \<Rightarrow> 'w tnode \<Rightarrow> 'w tnode" where
  "use_session key counter now n =
     n\<lparr>tn_sessions := map (\<lambda>(k, s). (k, if k = key
           then s\<lparr>ss_replay := snd (accept_counter (ss_replay s) counter), ss_last_used_at := now\<rparr> else s)) (tn_sessions n)\<rparr>"

definition answer_call ::
    "('j, 'w) tnode_env \<Rightarrow> link_peer \<Rightarrow> server_session \<Rightarrow> int \<Rightarrow> buffer \<Rightarrow> 'w tnode \<Rightarrow> rpc_response \<times> 'w tnode" where
  "answer_call env p s counter plaintext n =
     (let (r, n1) = run_call env p plaintext n
      in case seal_reply env s counter r of Inl e \<Rightarrow> (RpcCrashed e, n1) | Inr sealed \<Rightarrow> (RpcSealed sealed, n1))"

definition serve_call ::
    "('j, 'w) tnode_env \<Rightarrow> link_peer \<Rightarrow> string \<Rightarrow> server_session \<Rightarrow> Crypto.request \<Rightarrow> 'w tnode \<Rightarrow> rpc_response \<times> 'w tnode" where
  "serve_call env p key s rq n =
     (case open_frame (te_pr env) (ss_c2s s) C2S (ss_sid s) (req_counter rq) (req_sealed rq) of
        Inl e \<Rightarrow> (RpcRefused 401, n)
      | Inr plaintext \<Rightarrow>
          if \<not> fst (accept_counter (ss_replay s) (req_counter rq)) then (RpcRefused 401, n)
          else answer_call env p s (req_counter rq) plaintext
                 ((use_session key (req_counter rq) (clock_of env n) n)
                    \<lparr>tn_accepted := (ss_handshake s, req_counter rq) # tn_accepted n\<rparr>))"

definition handle_rpc ::
    "('j, 'w) tnode_env \<Rightarrow> channel_context \<Rightarrow> buffer option \<Rightarrow> 'w tnode \<Rightarrow> rpc_response \<times> 'w tnode" where
  "handle_rpc env ctx body n =
     (case (case body of None \<Rightarrow> None | Some b \<Rightarrow> decode_request b) of
        None \<Rightarrow> (RpcRefused 400, n)
      | Some rq \<Rightarrow>
          (let key = hex_encode (req_sid rq)
           in case map_of (tn_sessions n) key of
                None \<Rightarrow> (RpcRefused 401, n)
              | Some s \<Rightarrow>
                  (case map_of (tn_peers n) (ss_peer_row_id s) of
                     None \<Rightarrow> (RpcRefused 401, forget_server_session key n)
                   | Some p \<Rightarrow>
                       if session_max_age_ms * 2 < clock_of env n - ss_created_at s
                       then (RpcRefused 401, forget_server_session key n)
                       else if ss_channel_pin s \<noteq> presented_pin ctx then (RpcRefused 401, n)
                       else serve_call env p key s rq n)))"

section \<open>Ending sessions\<close>

definition drop_sessions_of :: "string \<Rightarrow> 'w tnode \<Rightarrow> 'w tnode" where
  "drop_sessions_of rid n = n\<lparr>tn_sessions := filter (\<lambda>(k, s). ss_peer_row_id s \<noteq> rid) (tn_sessions n)\<rparr>"

definition unpinned_of_locked :: "'w tnode \<Rightarrow> server_session \<Rightarrow> bool" where
  "unpinned_of_locked n s \<longleftrightarrow> ss_channel_pin s = None \<and>
     (case map_of (tn_peers n) (ss_peer_row_id s) of None \<Rightarrow> False | Some p \<Rightarrow> lp_tls_locked p)"

definition drop_unpinned_sessions_of_locked_peers :: "'w tnode \<Rightarrow> nat \<times> 'w tnode" where
  "drop_unpinned_sessions_of_locked_peers n =
     (length (filter (\<lambda>(k, s). unpinned_of_locked n s) (tn_sessions n)),
      n\<lparr>tn_sessions := filter (\<lambda>(k, s). \<not> unpinned_of_locked n s) (tn_sessions n)\<rparr>)"

definition session_expired :: "millis \<Rightarrow> server_session \<Rightarrow> bool" where
  "session_expired now s \<longleftrightarrow>
     session_idle_ms < now - ss_last_used_at s \<or> session_max_age_ms * 2 < now - ss_created_at s"

definition sweep_sessions :: "millis \<Rightarrow> 'w tnode \<Rightarrow> 'w tnode" where
  "sweep_sessions now n = n\<lparr>tn_sessions := filter (\<lambda>(k, s). \<not> session_expired now s) (tn_sessions n)\<rparr>"

text \<open>The part of \<open>updateReach\<close> that concerns sessions, and \<open>unloadPeer\<close>.\<close>

definition update_path_ways :: "bool \<Rightarrow> 'w tnode \<Rightarrow> 'w tnode" where
  "update_path_ways offered n =
     (let n1 = n\<lparr>tn_path_ways := offered\<rparr>
      in if offered then n1 else snd (drop_unpinned_sessions_of_locked_peers n1))"

definition unload_peer :: "string \<Rightarrow> 'w tnode \<Rightarrow> 'w tnode" where
  "unload_peer rid n = drop_sessions_of rid (n\<lparr>tn_peers := filter (\<lambda>(k, p). k \<noteq> rid) (tn_peers n)\<rparr>)"

definition absorb_paths :: "(string \<Rightarrow> string option) \<Rightarrow> string list \<Rightarrow> link_peer \<Rightarrow> link_peer" where
  "absorb_paths parse_way advertised p =
     (let ways = take 8 (List.map_filter parse_way advertised)
      in if join_with '' '' ways = join_with '' '' (lp_paths p) then p
         else p\<lparr>lp_paths := ways,
                lp_path_active := (case lp_path_active p of
                    Some way \<Rightarrow> if way \<noteq> [] \<and> way \<notin> set ways then None else Some way
                  | None \<Rightarrow> None)\<rparr>)"

end
