(* ===== verification/Transport_Facts.thy ===== *)
theory Transport_Facts
  imports Transport
begin

text \<open>
  The steps of a node that answers handshakes and calls and makes calls of its own (\<open>node_step\<close>), and what
  holds in every state it can reach: no counter is sealed or accepted twice under one handshake, a peer has
  at most four sessions, and a link locked to the channel has no session outside it unless the node offers a
  way through its web proxy. The calls of the node are broken into their steps, so overlapping calls are
  covered.
\<close>

section \<open>Peers and their sessions\<close>

lemma map_of_map_key: "map_of (map (\<lambda>(k, v). (k, g k v)) xs) k = map_option (g k) (map_of xs k)"
  by (induction xs) auto

lemma map_of_on_peer:
  "map_of (tn_peers (on_peer rid f n)) k = (if k = rid then map_option f (map_of (tn_peers n) k) else map_of (tn_peers n) k)"
  using map_of_map_key [of "\<lambda>k p. if k = rid then f p else p" "tn_peers n" k]
  by (simp add: on_peer_def option.map_ident)

lemma on_peer_sel [simp]:
  "tn_sessions (on_peer rid f n) = tn_sessions n" "tn_path_ways (on_peer rid f n) = tn_path_ways n"
  "tn_draws (on_peer rid f n) = tn_draws n" "tn_world (on_peer rid f n) = tn_world n"
  "tn_sent (on_peer rid f n) = tn_sent n" "tn_accepted (on_peer rid f n) = tn_accepted n"
  by (simp_all add: on_peer_def)

lemma keys_on_peer [simp]: "map fst (tn_peers (on_peer rid f n)) = map fst (tn_peers n)"
  unfolding on_peer_def by (induction "tn_peers n") auto

definition known :: "string \<Rightarrow> 'w tnode \<Rightarrow> bool" where
  "known rid n \<longleftrightarrow> map_of (tn_peers n) rid \<noteq> None"

definition session_at :: "'w tnode \<Rightarrow> string \<Rightarrow> client_session option" where
  "session_at n k = Option.bind (map_of (tn_peers n) k) lp_session"

definition locked_at :: "'w tnode \<Rightarrow> string \<Rightarrow> bool" where
  "locked_at n k \<longleftrightarrow> (case map_of (tn_peers n) k of None \<Rightarrow> False | Some p \<Rightarrow> lp_tls_locked p)"

lemma peer_of_on_peer: "known rid n \<Longrightarrow> peer_of rid (on_peer rid f n) = f (peer_of rid n)"
  by (auto simp: peer_of_def known_def map_of_on_peer)

lemma session_at_peer: "known rid n \<Longrightarrow> session_at n rid = lp_session (peer_of rid n)"
  by (auto simp: session_at_def peer_of_def known_def)

lemma known_on_peer [simp]: "known k (on_peer rid f n) = known k n"
  by (simp add: known_def map_of_on_peer)

lemma session_at_put:
  "session_at (on_peer rid (\<lambda>p. p\<lparr>lp_session := x\<rparr>) n) k =
    (if k = rid then (if known rid n then x else None) else session_at n k)"
  by (auto simp: session_at_def map_of_on_peer known_def)

lemma session_at_same:
  "(\<And>p. lp_session (f p) = lp_session p) \<Longrightarrow> session_at (on_peer rid f n) k = session_at n k"
  by (cases "k = rid"; cases "map_of (tn_peers n) rid"; simp add: session_at_def map_of_on_peer)

lemma locked_at_same:
  "(\<And>p. lp_tls_locked (f p) = lp_tls_locked p) \<Longrightarrow> locked_at (on_peer rid f n) k = locked_at n k"
  by (cases "k = rid"; cases "map_of (tn_peers n) rid"; simp add: locked_at_def map_of_on_peer)

lemma session_at_world [simp]: "session_at (n\<lparr>tn_world := w\<rparr>) = session_at n"
  "session_at (n\<lparr>tn_draws := d\<rparr>) = session_at n" "session_at (n\<lparr>tn_sessions := ss\<rparr>) = session_at n"
  "session_at (n\<lparr>tn_accepted := ac\<rparr>) = session_at n" "session_at (n\<lparr>tn_sent := se\<rparr>) = session_at n"
  "session_at (n\<lparr>tn_path_ways := b\<rparr>) = session_at n"
  by (auto simp: session_at_def fun_eq_iff)

lemma locked_at_world [simp]: "locked_at (n\<lparr>tn_world := w\<rparr>) = locked_at n"
  "locked_at (n\<lparr>tn_draws := d\<rparr>) = locked_at n" "locked_at (n\<lparr>tn_sessions := ss\<rparr>) = locked_at n"
  "locked_at (n\<lparr>tn_accepted := ac\<rparr>) = locked_at n" "locked_at (n\<lparr>tn_sent := se\<rparr>) = locked_at n"
  "locked_at (n\<lparr>tn_path_ways := b\<rparr>) = locked_at n"
  by (auto simp: locked_at_def fun_eq_iff)

section \<open>What opening a session touches\<close>

text \<open>
  \<open>dialing\<close>: the handshakes drawn, the world, and of the peers nothing but how they are reached.
\<close>

definition dialing :: "'w tnode \<Rightarrow> 'w tnode \<Rightarrow> bool" where
  "dialing n n' \<longleftrightarrow> tn_sessions n' = tn_sessions n \<and> tn_path_ways n' = tn_path_ways n \<and> tn_sent n' = tn_sent n \<and>
     tn_accepted n' = tn_accepted n \<and> tn_draws n \<le> tn_draws n' \<and> map fst (tn_peers n') = map fst (tn_peers n) \<and>
     (\<forall>k. map_option (\<lambda>p. p\<lparr>lp_path_active := None, lp_tls_retry_at := 0\<rparr>) (map_of (tn_peers n') k) =
          map_option (\<lambda>p. p\<lparr>lp_path_active := None, lp_tls_retry_at := 0\<rparr>) (map_of (tn_peers n) k))"

lemma dialing_refl [simp]: "dialing n n"
  by (simp add: dialing_def)

lemma dialing_trans: "dialing a b \<Longrightarrow> dialing b c \<Longrightarrow> dialing a c"
  by (auto simp: dialing_def)

lemma dialing_peer:
  assumes "dialing n n'"
  shows "known k n' = known k n" "session_at n' k = session_at n k" "locked_at n' k = locked_at n k"
    "map_option lp_row_id (map_of (tn_peers n') k) = map_option lp_row_id (map_of (tn_peers n) k)"
proof -
  let ?g = "\<lambda>p. p\<lparr>lp_path_active := None, lp_tls_retry_at := 0\<rparr>"
  from assms have eq: "map_option ?g (map_of (tn_peers n') k) = map_option ?g (map_of (tn_peers n) k)"
    by (simp add: dialing_def)
  then have "map_option (f \<circ> ?g) (map_of (tn_peers n') k) = map_option (f \<circ> ?g) (map_of (tn_peers n) k)" for f :: "link_peer \<Rightarrow> 'x"
    by (metis option.map_comp)
  from this [of lp_session] this [of lp_tls_locked] this [of lp_row_id]
  have "map_option lp_session (map_of (tn_peers n') k) = map_option lp_session (map_of (tn_peers n) k)"
    "map_option lp_tls_locked (map_of (tn_peers n') k) = map_option lp_tls_locked (map_of (tn_peers n) k)"
    and row: "map_option lp_row_id (map_of (tn_peers n') k) = map_option lp_row_id (map_of (tn_peers n) k)"
    by (simp_all add: comp_def)
  with eq show "known k n' = known k n" "session_at n' k = session_at n k" "locked_at n' k = locked_at n k"
    by (cases "map_of (tn_peers n') k"; cases "map_of (tn_peers n) k";
        simp add: known_def session_at_def locked_at_def)+
  show "map_option lp_row_id (map_of (tn_peers n') k) = map_option lp_row_id (map_of (tn_peers n) k)" by (rule row)
qed

lemma dialing_on_peer:
  assumes "\<And>p. (f p)\<lparr>lp_path_active := None, lp_tls_retry_at := 0\<rparr> = p\<lparr>lp_path_active := None, lp_tls_retry_at := 0\<rparr>"
  shows "dialing n (on_peer rid f n)"
  using assms by (auto simp: dialing_def map_of_on_peer option.map_comp comp_def)

lemma dialing_draw: "dialing n (n\<lparr>tn_draws := Suc (tn_draws n), tn_world := w\<rparr>)" "dialing n (n\<lparr>tn_draws := Suc (tn_draws n)\<rparr>)"
  "dialing n (n\<lparr>tn_world := w\<rparr>)"
  by (simp_all add: dialing_def)

lemma check_accept_session:
  "check_accept env t d h answer now = Inr s \<Longrightarrow> cs_handshake s = h \<and> cs_counter s = 0"
  by (auto simp: check_accept_def session_of_accept_def and_then_Inr split: prod.splits option.splits sum.splits if_splits)

lemma open_session_dials:
  assumes "open_session env t n = (r, n')"
  shows "dialing n n' \<and> (\<forall>s. r = Inr s \<longrightarrow> cs_handshake s = tn_draws n \<and> tn_draws n' = Suc (tn_draws n) \<and> cs_counter s = 0)"
  using assms
  by (auto simp: open_session_def Let_def dialing_draw dest: check_accept_session
      split: if_splits sum.splits prod.splits)

lemma open_ways_dials:
  assumes "open_ways env rid ways failures n = (r, n')"
  shows "dialing n n' \<and> (\<forall>s. r = Inr s \<longrightarrow> tn_draws n \<le> cs_handshake s \<and> cs_handshake s < tn_draws n' \<and> cs_counter s = 0)"
  using assms
proof (induction ways arbitrary: failures n r n')
  case Nil
  then show ?case by auto
next
  case (Cons way ways)
  let ?t = "\<lparr>st_base_url = way, st_node_id = lp_node_id (peer_of rid n), st_link_key = lp_link_key (peer_of rid n), st_tls = None\<rparr>"
  obtain q n1 where run: "open_session env ?t n = (q, n1)" by (cases "open_session env ?t n")
  note opened = open_session_dials [OF run]
  show ?case
  proof (cases q)
    case (Inl e)
    with Cons.prems run
    have "open_ways env rid ways (failures @ [way @ '': '' @ failure_text e]) n1 = (r, n')" by (simp add: Let_def)
    from Cons.IH [OF this] opened show ?thesis
      using dialing_trans by (auto simp: dialing_def)
  next
    case (Inr s)
    with Cons.prems run have r: "r = Inr (s\<lparr>cs_channel := ChPath\<rparr>)"
      and n': "n' = on_peer rid (\<lambda>p. p\<lparr>lp_path_active := Some way\<rparr>) n1" by (auto simp: Let_def)
    have "dialing n1 n'" unfolding n' by (rule dialing_on_peer) simp
    with opened Inr show ?thesis unfolding r n' by (auto intro: dialing_trans)
  qed
qed

lemma new_session_dials:
  assumes "new_session env rid ch n = (r, n')"
  shows "dialing n n' \<and> (\<forall>s. r = Inr s \<longrightarrow> tn_draws n \<le> cs_handshake s \<and> cs_handshake s < tn_draws n' \<and> cs_counter s = 0)"
  using assms open_ways_dials [of env rid _ "[]"] open_session_dials [of env _ n]
  by (fastforce simp: new_session_def open_path_session_def split: if_splits)

section \<open>Making a session ready\<close>

text \<open>The states a call passes through before it is sent: nothing but the caller's own session changes.\<close>

definition caller_step :: "string \<Rightarrow> 'w tnode \<Rightarrow> 'w tnode \<Rightarrow> bool" where
  "caller_step rid n n' \<longleftrightarrow> tn_sessions n' = tn_sessions n \<and> tn_path_ways n' = tn_path_ways n \<and>
     tn_accepted n' = tn_accepted n \<and> tn_draws n \<le> tn_draws n' \<and> known rid n' = known rid n \<and>
     map fst (tn_peers n') = map fst (tn_peers n) \<and>
     (\<forall>k. locked_at n' k = locked_at n k) \<and> (\<forall>k. k \<noteq> rid \<longrightarrow> session_at n' k = session_at n k) \<and>
     (\<forall>k. map_option lp_row_id (map_of (tn_peers n') k) = map_option lp_row_id (map_of (tn_peers n) k))"

lemma caller_step_refl [simp]: "caller_step rid n n"
  by (simp add: caller_step_def)

lemma caller_step_trans: "caller_step rid a b \<Longrightarrow> caller_step rid b c \<Longrightarrow> caller_step rid a c"
  by (simp add: caller_step_def)

lemma caller_step_dialing: "dialing n n' \<Longrightarrow> caller_step rid n n'"
  by (simp add: caller_step_def dialing_peer) (simp add: dialing_def)

lemma caller_step_put: "caller_step rid n (on_peer rid (\<lambda>p. p\<lparr>lp_session := x\<rparr>) n)"
  by (auto simp: caller_step_def session_at_put locked_at_same map_of_on_peer option.map_comp comp_def)

lemma caller_step_take: "caller_step rid n (take_counter rid s n)"
  using caller_step_put [of rid n "Some (s\<lparr>cs_counter := cs_counter s + 1\<rparr>)"]
  by (simp add: take_counter_def caller_step_def known_def)

lemma caller_step_world: "caller_step rid n (n\<lparr>tn_world := w\<rparr>)"
  by (rule caller_step_dialing) (rule dialing_draw)

text \<open>The session a call uses: the one the peer had, or one of a new handshake.\<close>

lemma ensure_session_Inr:
  assumes "ensure_session env rid ch n = (Inr s, n')" "known rid n"
  shows "caller_step rid n n' \<and> tn_sent n' = tn_sent n \<and> session_at n' rid = Some s \<and>
    (n' = n \<or> (tn_draws n \<le> cs_handshake s \<and> cs_handshake s < tn_draws n' \<and> cs_counter s = 0))"
proof (cases "session_usable ch (clock_of env n) (lp_session (peer_of rid n))")
  case True
  with assms show ?thesis
    by (auto simp: ensure_session_def op_bind_def op_read_def op_ok_def session_at_peer session_usable_def split: option.splits)
next
  case False
  let ?n1 = "on_peer rid (\<lambda>p. p\<lparr>lp_session := None\<rparr>) n"
  from False assms(1) obtain n2 where new: "new_session env rid ch ?n1 = (Inr s, n2)"
    and n': "n' = on_peer rid (\<lambda>p. p\<lparr>lp_session := Some s\<rparr>) n2"
    by (auto simp: ensure_session_def op_bind_def op_read_def op_ok_def op_write_def split: prod.splits sum.splits)
  note opened = new_session_dials [OF new]
  then have d: "dialing ?n1 n2" by simp
  have "caller_step rid n n'"
    unfolding n' by (rule caller_step_trans [OF caller_step_put caller_step_trans [OF caller_step_dialing [OF d] caller_step_put]])
  moreover have "known rid n2" using dialing_peer(1) [OF d] assms(2) by simp
  moreover have "tn_sent n2 = tn_sent n" using d by (simp add: dialing_def)
  ultimately show ?thesis using opened unfolding n' by (simp add: session_at_put)
qed

lemma ensure_session_Inl:
  assumes "ensure_session env rid ch n = (Inl e, n')"
  shows "caller_step rid n n' \<and> tn_sent n' = tn_sent n \<and> session_at n' rid = None"
proof -
  let ?n1 = "on_peer rid (\<lambda>p. p\<lparr>lp_session := None\<rparr>) n"
  from assms have "new_session env rid ch ?n1 = (Inl e, n')"
    by (auto simp: ensure_session_def op_bind_def op_read_def op_ok_def op_write_def split: prod.splits sum.splits if_splits)
  from new_session_dials [OF this] have d: "dialing ?n1 n'" by simp
  then have "caller_step rid n n'"
    by (intro caller_step_trans [OF caller_step_put caller_step_dialing])
  then show ?thesis using d dialing_peer(2) [OF d, of rid] by (simp add: session_at_put dialing_def)
qed

section \<open>No counter is sealed twice\<close>

definition sent_ok :: "'w tnode \<Rightarrow> bool" where
  "sent_ok n \<longleftrightarrow> distinct (tn_sent n) \<and> (\<forall>h c. (h, c) \<in> set (tn_sent n) \<longrightarrow> h < tn_draws n) \<and>
     (\<forall>k s. session_at n k = Some s \<longrightarrow> cs_handshake s < tn_draws n \<and>
        (\<forall>c. (cs_handshake s, c) \<in> set (tn_sent n) \<longrightarrow> c < cs_counter s)) \<and>
     (\<forall>k k' s s'. session_at n k = Some s \<and> session_at n k' = Some s' \<and> cs_handshake s = cs_handshake s' \<longrightarrow> k = k')"

lemma sent_ok_less:
  assumes "sent_ok n" "tn_sent n' = tn_sent n" "tn_draws n \<le> tn_draws n'"
    and "\<And>k s. session_at n' k = Some s \<Longrightarrow> session_at n k = Some s"
  shows "sent_ok n'"
  using assms unfolding sent_ok_def by (fastforce intro: less_le_trans)

lemma sent_ok_new:
  assumes ok: "sent_ok n" and step: "caller_step rid n n'" and sent: "tn_sent n' = tn_sent n"
    and s: "session_at n' rid = Some s" "tn_draws n \<le> cs_handshake s" "cs_handshake s < tn_draws n'"
  shows "sent_ok n'"
proof -
  have other: "k \<noteq> rid \<Longrightarrow> session_at n' k = session_at n k" for k using step by (simp add: caller_step_def)
  have le: "tn_draws n \<le> tn_draws n'" using step by (simp add: caller_step_def)
  have old: "session_at n' k = Some s' \<Longrightarrow> k \<noteq> rid \<Longrightarrow> cs_handshake s' < tn_draws n" for k s'
    using ok other by (simp add: sent_ok_def)
  have one: "k = k'" if "session_at n' k = Some a" "session_at n' k' = Some b" "cs_handshake a = cs_handshake b" for k k' a b
  proof (cases "k = rid \<or> k' = rid")
    case True
    then show ?thesis using that s old by (metis leD option.inject)
  next
    case False
    then show ?thesis using that ok other unfolding sent_ok_def by (metis (no_types, lifting))
  qed
  have none: "(cs_handshake s, c) \<notin> set (tn_sent n)" for c
    using ok s(2) by (auto simp: sent_ok_def)
  have each: "cs_handshake a < tn_draws n' \<and> (\<forall>c. (cs_handshake a, c) \<in> set (tn_sent n') \<longrightarrow> c < cs_counter a)"
    if a: "session_at n' k = Some a" for k a
  proof (cases "k = rid")
    case True
    then show ?thesis using a s none sent by auto
  next
    case False
    then have "session_at n k = Some a" using a other by simp
    then show ?thesis using ok le sent unfolding sent_ok_def by (metis less_le_trans)
  qed
  have "distinct (tn_sent n')" "\<forall>h c. (h, c) \<in> set (tn_sent n') \<longrightarrow> h < tn_draws n'"
    using ok sent le unfolding sent_ok_def by (auto intro: less_le_trans)
  with one each show ?thesis unfolding sent_ok_def by blast
qed

lemma sent_ok_take:
  assumes ok: "sent_ok n" and s: "session_at n rid = Some s"
  shows "sent_ok (take_counter rid s n)"
proof -
  let ?n = "take_counter rid s n" and ?s = "s\<lparr>cs_counter := cs_counter s + 1\<rparr>"
  have known: "known rid n" using s by (cases "map_of (tn_peers n) rid") (simp_all add: session_at_def known_def)
  have sess: "session_at ?n k = (if k = rid then Some ?s else session_at n k)" for k
    using known by (simp add: take_counter_def session_at_put)
  have sent: "tn_sent ?n = (cs_handshake s, cs_counter s) # tn_sent n" and draws: "tn_draws ?n = tn_draws n"
    by (simp_all add: take_counter_def)
  have old: "cs_handshake s < tn_draws n" "\<And>c. (cs_handshake s, c) \<in> set (tn_sent n) \<Longrightarrow> c < cs_counter s"
    using ok s unfolding sent_ok_def by blast+
  have alone: "session_at n k = Some a \<Longrightarrow> cs_handshake a = cs_handshake s \<Longrightarrow> k = rid" for k a
    using ok s unfolding sent_ok_def by blast
  have "distinct (tn_sent ?n)" using ok old unfolding sent sent_ok_def by auto
  moreover have "\<forall>h c. (h, c) \<in> set (tn_sent ?n) \<longrightarrow> h < tn_draws ?n"
    using ok old unfolding sent draws sent_ok_def by auto
  moreover have "cs_handshake a < tn_draws ?n \<and> (\<forall>c. (cs_handshake a, c) \<in> set (tn_sent ?n) \<longrightarrow> c < cs_counter a)"
    if a: "session_at ?n k = Some a" for k a
  proof (cases "k = rid")
    case True
    then have "a = ?s" using a sess by simp
    then show ?thesis using old unfolding sent draws by fastforce
  next
    case False
    then have here: "session_at n k = Some a" using a sess by simp
    then have "cs_handshake a \<noteq> cs_handshake s" using alone False by blast
    moreover have "cs_handshake a < tn_draws n \<and> (\<forall>c. (cs_handshake a, c) \<in> set (tn_sent n) \<longrightarrow> c < cs_counter a)"
      using ok here unfolding sent_ok_def by blast
    ultimately show ?thesis unfolding sent draws by auto
  qed
  moreover have "k = k'" if "session_at ?n k = Some a" "session_at ?n k' = Some b" "cs_handshake a = cs_handshake b" for k k' a b
  proof -
    have h: "session_at ?n j = Some c \<Longrightarrow> \<exists>d. session_at n j = Some d \<and> cs_handshake d = cs_handshake c" for j c
      using s by (auto simp: sess split: if_splits)
    from h [OF that(1)] h [OF that(2)] that(3) ok show ?thesis unfolding sent_ok_def by metis
  qed
  ultimately show ?thesis unfolding sent_ok_def by blast
qed

lemma ensure_session_sent_ok:
  assumes ok: "sent_ok n" and known: "known rid n" and run: "ensure_session env rid ch n = (r, n')"
  shows "caller_step rid n n' \<and> sent_ok n' \<and> (\<forall>s. r = Inr s \<longrightarrow> session_at n' rid = Some s)"
proof (cases r)
  case (Inl e)
  note done_ = ensure_session_Inl [OF run [unfolded Inl]]
  have "session_at n k = Some s" if "session_at n' k = Some s" for k s
    using that done_ by (cases "k = rid") (simp_all add: caller_step_def)
  with done_ have "sent_ok n'" by (intro sent_ok_less [OF ok]) (simp_all add: caller_step_def)
  with done_ Inl show ?thesis by simp
next
  case (Inr s)
  note ready = ensure_session_Inr [OF run [unfolded Inr] known]
  then have "sent_ok n'" using ok sent_ok_new [OF ok, of rid n' s] by auto
  with ready Inr show ?thesis by simp
qed

lemma send_frame_world: "send_frame env rid ch body n = (r, n') \<Longrightarrow> \<exists>w. n' = n\<lparr>tn_world := w\<rparr>"
  by (auto simp: send_frame_def on_world_def split: if_splits option.splits prod.splits
      intro: exI [of _ "tn_world n"])

lemma send_call_ok:
  assumes ok: "sent_ok n" and known: "known rid n" and run: "send_call env rid ch packed n = (r, n')"
  shows "caller_step rid n n' \<and> sent_ok n'"
proof -
  obtain q n1 where ens: "ensure_session env rid ch n = (q, n1)" by (cases "ensure_session env rid ch n")
  note ready = ensure_session_sent_ok [OF ok known ens]
  show ?thesis
  proof (cases q)
    case (Inl e)
    with run ens ready show ?thesis by (simp add: send_call_def op_bind_def)
  next
    case (Inr s)
    let ?n2 = "take_counter rid s n1"
    have "\<exists>w. n' = ?n2\<lparr>tn_world := w\<rparr>"
      using run ens Inr send_frame_world
      by (fastforce simp: send_call_def op_bind_def op_write_def op_lift_def op_ok_def split: prod.splits sum.splits
          intro: exI [of _ "tn_world ?n2"])
    then obtain w where n': "n' = ?n2\<lparr>tn_world := w\<rparr>" ..
    have "sent_ok ?n2" using ready Inr by (intro sent_ok_take) auto
    then have "sent_ok n'" unfolding n' by (rule sent_ok_less) simp_all
    moreover have "caller_step rid n n'"
      unfolding n' using ready by (intro caller_step_trans [OF _ caller_step_trans [OF caller_step_take caller_step_world]]) simp
    ultimately show ?thesis by simp
  qed
qed

section \<open>No counter is accepted twice\<close>

definition accepted_ok :: "'w tnode \<Rightarrow> bool" where
  "accepted_ok n \<longleftrightarrow> distinct (tn_accepted n) \<and> (\<forall>h c. (h, c) \<in> set (tn_accepted n) \<longrightarrow> h < tn_draws n) \<and>
     distinct (map fst (tn_sessions n)) \<and>
     (\<forall>k s. (k, s) \<in> set (tn_sessions n) \<longrightarrow> ss_handshake s < tn_draws n \<and>
        window_abs (ss_replay s) {c. (ss_handshake s, c) \<in> set (tn_accepted n)}) \<and>
     (\<forall>k s k' s'. (k, s) \<in> set (tn_sessions n) \<and> (k', s') \<in> set (tn_sessions n) \<and>
        ss_handshake s = ss_handshake s' \<longrightarrow> k = k')"

lemma accepted_ok_less:
  assumes ok: "accepted_ok n" and acc: "tn_accepted n' = tn_accepted n" and le: "tn_draws n \<le> tn_draws n'"
    and sub: "set (tn_sessions n') \<subseteq> set (tn_sessions n)" and dist: "distinct (map fst (tn_sessions n'))"
  shows "accepted_ok n'"
proof -
  from ok have "distinct (tn_accepted n)" "\<forall>h c. (h, c) \<in> set (tn_accepted n) \<longrightarrow> h < tn_draws n"
    and each: "\<forall>k s. (k, s) \<in> set (tn_sessions n) \<longrightarrow> ss_handshake s < tn_draws n \<and>
        window_abs (ss_replay s) {c. (ss_handshake s, c) \<in> set (tn_accepted n)}"
    and one: "\<forall>k s k' s'. (k, s) \<in> set (tn_sessions n) \<and> (k', s') \<in> set (tn_sessions n) \<and>
        ss_handshake s = ss_handshake s' \<longrightarrow> k = k'"
    unfolding accepted_ok_def by blast+
  then have "distinct (tn_accepted n')" "\<forall>h c. (h, c) \<in> set (tn_accepted n') \<longrightarrow> h < tn_draws n'"
    using acc le by (auto intro: less_le_trans)
  moreover have "\<forall>k s. (k, s) \<in> set (tn_sessions n') \<longrightarrow> ss_handshake s < tn_draws n' \<and>
        window_abs (ss_replay s) {c. (ss_handshake s, c) \<in> set (tn_accepted n')}"
    unfolding acc using each sub le by (meson less_le_trans subsetD)
  moreover have "\<forall>k s k' s'. (k, s) \<in> set (tn_sessions n') \<and> (k', s') \<in> set (tn_sessions n') \<and>
        ss_handshake s = ss_handshake s' \<longrightarrow> k = k'"
    using one sub by (meson subsetD)
  ultimately show ?thesis unfolding accepted_ok_def using dist by blast
qed

lemma accepted_ok_filter:
  "accepted_ok n \<Longrightarrow> tn_accepted n' = tn_accepted n \<Longrightarrow> tn_draws n \<le> tn_draws n' \<Longrightarrow>
    tn_sessions n' = filter P (tn_sessions n) \<Longrightarrow> accepted_ok n'"
  by (rule accepted_ok_less [of n]) (auto simp: accepted_ok_def distinct_map_filter)

lemma accepted_ok_same:
  "accepted_ok n \<Longrightarrow> tn_accepted n' = tn_accepted n \<Longrightarrow> tn_draws n \<le> tn_draws n' \<Longrightarrow>
    tn_sessions n' = tn_sessions n \<Longrightarrow> accepted_ok n'"
  by (rule accepted_ok_less [of n]) (auto simp: accepted_ok_def)

lemma drop_oldest_filter: "\<exists>P. drop_oldest mine sessions = filter P sessions"
proof (induction mine sessions rule: drop_oldest.induct)
  case (1 sessions)
  show ?case by (rule exI [of _ "\<lambda>_. True"]) simp
next
  case (2 m mine sessions)
  show ?case
  proof (cases "max_server_sessions_per_peer \<le> length (m # mine)")
    case True
    from 2 [OF True] obtain P where "drop_oldest mine (filter (\<lambda>(k, s). k \<noteq> fst m) sessions) =
      filter P (filter (\<lambda>(k, s). k \<noteq> fst m) sessions)" ..
    with True show ?thesis by (simp add: filter_filter) blast
  next
    case False
    then show ?thesis by (intro exI [of _ "\<lambda>_. True"]) simp
  qed
qed

lemma make_room_filter: "\<exists>P. make_room rid sessions = filter P sessions"
  unfolding make_room_def by (rule drop_oldest_filter)

lemma accepted_ok_add:
  assumes ok: "accepted_ok n" and draws: "tn_draws n' = Suc (tn_draws n)" and acc: "tn_accepted n' = tn_accepted n"
    and fresh: "ss_handshake s = tn_draws n" "ss_replay s = new_window default_window"
    and sess: "tn_sessions n' = al_put k (s :: server_session) (make_room rid (tn_sessions n))"
  shows "accepted_ok n'"
proof -
  obtain P where room: "make_room rid (tn_sessions n) = filter P (tn_sessions n)" using make_room_filter ..
  have sub: "set (tn_sessions n') \<subseteq> insert (k, s) (set (tn_sessions n))"
    unfolding sess room using set_al_put [of k s "filter P (tn_sessions n)"] by auto
  have keys: "distinct (map fst (tn_sessions n'))"
    unfolding sess room using ok by (intro distinct_al_put distinct_map_filter) (simp add: accepted_ok_def)
  from ok have "distinct (tn_accepted n)" and old: "\<And>h c. (h, c) \<in> set (tn_accepted n) \<Longrightarrow> h < tn_draws n"
    and each: "\<And>k s. (k, s) \<in> set (tn_sessions n) \<Longrightarrow> ss_handshake s < tn_draws n \<and>
        window_abs (ss_replay s) {c. (ss_handshake s, c) \<in> set (tn_accepted n)}"
    and one: "\<And>k s k' s'. (k, s) \<in> set (tn_sessions n) \<Longrightarrow> (k', s') \<in> set (tn_sessions n) \<Longrightarrow>
        ss_handshake s = ss_handshake s' \<Longrightarrow> k = k'"
    unfolding accepted_ok_def by blast+
  have none: "{c. (tn_draws n, c) \<in> set (tn_accepted n)} = {}" using old by fastforce
  have "ss_handshake t < tn_draws n' \<and> window_abs (ss_replay t) {c. (ss_handshake t, c) \<in> set (tn_accepted n')}"
    if t: "(j, t) \<in> set (tn_sessions n')" for j t
  proof (cases "(j, t) \<in> set (tn_sessions n)")
    case True
    then show ?thesis using each [OF True] by (simp add: draws acc)
  next
    case False
    then have "t = s" using t sub by auto
    then show ?thesis using fresh none window_abs_new [of default_window] by (simp add: draws acc default_window_def)
  qed
  moreover have "j = j'" if t: "(j, t) \<in> set (tn_sessions n')" "(j', t') \<in> set (tn_sessions n')" "ss_handshake t = ss_handshake t'"
    for j t j' t'
  proof -
    have new: "ss_handshake u = tn_draws n \<longleftrightarrow> (i, u) = (k, s)" if "(i, u) \<in> set (tn_sessions n')" for i u
    proof -
      from that sub consider "(i, u) = (k, s)" | "(i, u) \<in> set (tn_sessions n)" by auto
      then show ?thesis
      proof cases
        case 1
        then show ?thesis using fresh by simp
      next
        case 2
        with each [OF 2] fresh(1) show ?thesis by auto
      qed
    qed
    show ?thesis
    proof (cases "ss_handshake t = tn_draws n")
      case True
      then show ?thesis using new [OF t(1)] new [OF t(2)] t(3) by simp
    next
      case False
      then have "(j, t) \<in> set (tn_sessions n)" "(j', t') \<in> set (tn_sessions n)"
        using t sub fresh(1) by auto
      then show ?thesis using one t(3) by blast
    qed
  qed
  moreover have "\<forall>h c. (h, c) \<in> set (tn_accepted n') \<longrightarrow> h < tn_draws n'"
    using old by (auto simp: acc draws intro: less_SucI)
  ultimately show ?thesis unfolding accepted_ok_def using keys \<open>distinct (tn_accepted n)\<close> by (simp add: acc) blast
qed

lemma accepted_ok_use:
  assumes ok: "accepted_ok n" and s: "map_of (tn_sessions n) key = Some s"
    and take: "fst (accept_counter (ss_replay s) c)"
  shows "accepted_ok ((use_session key c now n)\<lparr>tn_accepted := (ss_handshake s, c) # tn_accepted n\<rparr>)" (is "accepted_ok ?n")
    and "(ss_handshake s, c) \<notin> set (tn_accepted n)"
proof -
  let ?h = "ss_handshake s" and ?past = "{d. (ss_handshake s, d) \<in> set (tn_accepted n)}"
  have mem: "(key, s) \<in> set (tn_sessions n)" using s by (rule map_of_SomeD)
  from ok have dist: "distinct (tn_accepted n)" and old: "\<And>h c. (h, c) \<in> set (tn_accepted n) \<Longrightarrow> h < tn_draws n"
    and keys: "distinct (map fst (tn_sessions n))"
    and each: "\<And>k s. (k, s) \<in> set (tn_sessions n) \<Longrightarrow> ss_handshake s < tn_draws n \<and>
        window_abs (ss_replay s) {c. (ss_handshake s, c) \<in> set (tn_accepted n)}"
    and one: "\<And>k s k' s'. (k, s) \<in> set (tn_sessions n) \<Longrightarrow> (k', s') \<in> set (tn_sessions n) \<Longrightarrow>
        ss_handshake s = ss_handshake s' \<Longrightarrow> k = k'"
    unfolding accepted_ok_def by blast+
  have abs: "window_abs (ss_replay s) ?past" and below: "?h < tn_draws n" using each [OF mem] by simp_all
  have "fresh_counter (win_size (ss_replay s)) ?past c" using window_verdict [OF abs] take by simp
  then show new: "(?h, c) \<notin> set (tn_accepted n)" by (simp add: fresh_counter_def)
  define upd where "upd = (\<lambda>k (t :: server_session). if k = key
    then t\<lparr>ss_replay := snd (accept_counter (ss_replay t) c), ss_last_used_at := now\<rparr> else t)"
  have sess: "tn_sessions ?n = map (\<lambda>(k, t). (k, upd k t)) (tn_sessions n)"
    by (simp add: use_session_def upd_def)
  have same: "ss_handshake (upd k t) = ss_handshake t" for k t by (simp add: upd_def)
  have mem_iff: "(k, t') \<in> set (tn_sessions ?n) \<longleftrightarrow> (\<exists>t. (k, t) \<in> set (tn_sessions n) \<and> t' = upd k t)" for k t'
    unfolding sess by auto
  have "window_abs (ss_replay (upd k t)) {d. (ss_handshake t, d) \<in> set (tn_accepted ?n)}"
    if t: "(k, t) \<in> set (tn_sessions n)" for k t
  proof (cases "k = key")
    case True
    then have "t = s" using t mem keys by (metis eq_key_imp_eq_value)
    moreover have "{d. (?h, d) \<in> set (tn_accepted ?n)} = insert c ?past" by auto
    ultimately show ?thesis using window_step [OF abs take] True by (simp add: upd_def)
  next
    case False
    then have "ss_handshake t \<noteq> ?h" using one [OF t mem] by blast
    then show ?thesis using each [OF t] False by (simp add: upd_def)
  qed
  then have windows: "ss_handshake t' < tn_draws ?n \<and> window_abs (ss_replay t') {d. (ss_handshake t', d) \<in> set (tn_accepted ?n)}"
    if "(k, t') \<in> set (tn_sessions ?n)" for k t'
    using that each unfolding mem_iff by (auto simp: same use_session_def)
  have "map fst (tn_sessions ?n) = map fst (tn_sessions n)"
    unfolding sess by (induction "tn_sessions n") auto
  then have "distinct (map fst (tn_sessions ?n))" using keys by simp
  moreover have "k = k'" if "(k, t) \<in> set (tn_sessions ?n)" "(k', t') \<in> set (tn_sessions ?n)" "ss_handshake t = ss_handshake t'" for k t k' t'
    using that one unfolding mem_iff by (auto simp: same)
  moreover have "distinct (tn_accepted ?n)" "\<forall>h c. (h, c) \<in> set (tn_accepted ?n) \<longrightarrow> h < tn_draws ?n"
    using dist new old below by (auto simp: use_session_def)
  ultimately show "accepted_ok ?n" unfolding accepted_ok_def using windows by blast
qed

section \<open>A peer has at most four sessions\<close>

definition few_sessions :: "'w tnode \<Rightarrow> bool" where
  "few_sessions n \<longleftrightarrow> (\<forall>rid. length (sessions_of rid (tn_sessions n)) \<le> max_server_sessions_per_peer)"

lemma few_sessions_filter:
  "few_sessions n \<Longrightarrow> tn_sessions n' = filter P (tn_sessions n) \<Longrightarrow> few_sessions n'"
proof -
  assume few: "few_sessions n" and sess: "tn_sessions n' = filter P (tn_sessions n)"
  have "sessions_of rid (tn_sessions n') = filter P (sessions_of rid (tn_sessions n))" for rid
    by (simp add: sess sessions_of_def filter_filter conj_commute)
  then show ?thesis using few unfolding few_sessions_def by (metis length_filter_le order_trans)
qed

lemma few_sessions_same: "few_sessions n \<Longrightarrow> tn_sessions n' = tn_sessions n \<Longrightarrow> few_sessions n'"
  by (simp add: few_sessions_def)

lemma drop_oldest_leaves:
  assumes "mset mine = mset (sessions_of rid sessions)" "distinct (map fst sessions)"
  shows "length (sessions_of rid (drop_oldest mine sessions)) < max_server_sessions_per_peer"
  using assms
proof (induction mine sessions rule: drop_oldest.induct)
  case (1 sessions)
  then show ?case by (simp add: max_server_sessions_per_peer_def)
next
  case (2 m mine sessions)
  show ?case
  proof (cases "max_server_sessions_per_peer \<le> length (m # mine)")
    case True
    let ?rest = "filter (\<lambda>(k, s). k \<noteq> fst m) sessions"
    have "m \<in> set (sessions_of rid sessions)" using 2(2) by (metis list.set_intros(1) set_mset_mset)
    then have m: "m \<in> set sessions" by (simp add: sessions_of_def)
    have "x = m" if "x \<in> set sessions" "fst x = fst m" for x
      using that m 2(3) by (metis eq_key_imp_eq_value prod.collapse)
    then have "fst x \<noteq> fst m \<longleftrightarrow> x \<noteq> m" if "x \<in> set (sessions_of rid sessions)" for x
      using that unfolding sessions_of_def set_filter by blast
    then have only: "filter (\<lambda>(k, s). k \<noteq> fst m) (sessions_of rid sessions) = filter (\<lambda>x. x \<noteq> m) (sessions_of rid sessions)"
      unfolding case_prod_unfold by (intro filter_cong) (simp_all only:)
    have "distinct sessions" using 2(3) by (metis distinct_map)
    then have "distinct (sessions_of rid sessions)" by (simp add: sessions_of_def)
    then have "distinct (m # mine)" using 2(2) by (metis mset_eq_imp_distinct_iff)
    then have "filter (\<lambda>x. x \<noteq> m) (m # mine) = mine" by (auto simp: filter_id_conv)
    then have "mset mine = mset (filter (\<lambda>x. x \<noteq> m) (sessions_of rid sessions))"
      by (metis 2(2) mset_filter)
    then have "mset mine = mset (sessions_of rid ?rest)"
      unfolding only [symmetric] by (simp add: sessions_of_def filter_filter conj_commute case_prod_unfold)
    moreover have "distinct (map fst ?rest)" using 2(3) by (rule distinct_map_filter)
    ultimately show ?thesis using 2(1) [OF True] True by simp
  next
    case False
    then have "length (sessions_of rid sessions) < max_server_sessions_per_peer"
      using 2(2) by (metis not_le size_mset)
    then show ?thesis using False by simp
  qed
qed

lemma make_room_leaves:
  "distinct (map fst sessions) \<Longrightarrow> length (sessions_of rid (make_room rid sessions)) < max_server_sessions_per_peer"
  unfolding make_room_def by (rule drop_oldest_leaves) simp_all

lemma sessions_of_al_put:
  "length (sessions_of rid (al_put k s m)) \<le> length (sessions_of rid m) + (if ss_peer_row_id s = rid then 1 else 0)"
  unfolding sessions_of_def by (induction k s m rule: al_put.induct) auto

lemma few_sessions_add:
  assumes few: "few_sessions n" and keys: "distinct (map fst (tn_sessions n))"
    and sess: "tn_sessions n' = al_put k s (make_room (ss_peer_row_id s) (tn_sessions n))"
  shows "few_sessions n'"
  unfolding few_sessions_def
proof
  fix rid
  obtain P where room: "make_room (ss_peer_row_id s) (tn_sessions n) = filter P (tn_sessions n)" using make_room_filter ..
  have less: "length (sessions_of rid (filter P (tn_sessions n))) \<le> max_server_sessions_per_peer"
    using few_sessions_filter [OF few, of "n\<lparr>tn_sessions := filter P (tn_sessions n)\<rparr>" P] by (simp add: few_sessions_def)
  show "length (sessions_of rid (tn_sessions n')) \<le> max_server_sessions_per_peer"
  proof (cases "ss_peer_row_id s = rid")
    case True
    then show ?thesis
      using make_room_leaves [OF keys, of rid] sessions_of_al_put [of rid k s "make_room rid (tn_sessions n)"]
      by (simp add: sess)
  next
    case False
    then show ?thesis
      using less sessions_of_al_put [of rid k s "make_room (ss_peer_row_id s) (tn_sessions n)"] by (simp add: sess room)
  qed
qed

lemma few_sessions_use: "few_sessions n \<Longrightarrow> few_sessions (use_session key c now n)"
proof -
  have "length (sessions_of rid (tn_sessions (use_session key c now n))) = length (sessions_of rid (tn_sessions n))" for rid
    unfolding use_session_def sessions_of_def by (simp add: filter_map comp_def case_prod_unfold if_distrib cong: if_cong)
  then show "few_sessions n \<Longrightarrow> ?thesis" by (simp add: few_sessions_def)
qed

section \<open>A locked link has no session outside the channel\<close>

definition rows_kept :: "'w tnode \<Rightarrow> bool" where
  "rows_kept n \<longleftrightarrow> distinct (map fst (tn_peers n)) \<and> (\<forall>k p. (k, p) \<in> set (tn_peers n) \<longrightarrow> lp_row_id p = k)"

definition locked_ok :: "'w tnode \<Rightarrow> bool" where
  "locked_ok n \<longleftrightarrow> tn_path_ways n \<or>
     (\<forall>k s. (k, s) \<in> set (tn_sessions n) \<longrightarrow> ss_channel_pin s = None \<longrightarrow> \<not> locked_at n (ss_peer_row_id s))"

lemma unpinned_of_locked_iff:
  "unpinned_of_locked n s \<longleftrightarrow> ss_channel_pin s = None \<and> locked_at n (ss_peer_row_id s)"
  by (simp add: unpinned_of_locked_def locked_at_def split: option.splits)

lemma locked_ok_less:
  assumes "locked_ok n" "tn_path_ways n' = tn_path_ways n" "set (tn_sessions n') \<subseteq> set (tn_sessions n)"
    and "\<And>k. locked_at n' k \<Longrightarrow> locked_at n k"
  shows "locked_ok n'"
  using assms unfolding locked_ok_def by blast

lemma locked_ok_same:
  assumes "locked_ok n" "tn_path_ways n' = tn_path_ways n" "tn_sessions n' = tn_sessions n"
    and "\<And>k. locked_at n' k = locked_at n k"
  shows "locked_ok n'"
  using assms by (simp add: locked_ok_def)

lemma rows_kept_map:
  assumes "rows_kept n" "map fst (tn_peers n') = map fst (tn_peers n)"
    and "\<And>k. map_option lp_row_id (map_of (tn_peers n') k) = map_option lp_row_id (map_of (tn_peers n) k)"
  shows "rows_kept n'"
proof -
  have dist: "distinct (map fst (tn_peers n'))" using assms by (simp add: rows_kept_def)
  have "lp_row_id p = k" if "(k, p) \<in> set (tn_peers n')" for k p
  proof -
    have "map_of (tn_peers n') k = Some p" using dist that by simp
    then obtain q where "map_of (tn_peers n) k = Some q" "lp_row_id q = lp_row_id p"
      using assms(3) [of k] by (auto simp: map_option_case split: option.splits)
    then show ?thesis using assms(1) by (auto simp: rows_kept_def dest: map_of_SomeD)
  qed
  with dist show ?thesis by (simp add: rows_kept_def)
qed

lemma rows_kept_on_peer:
  "rows_kept n \<Longrightarrow> (\<And>p. lp_row_id (f p) = lp_row_id p) \<Longrightarrow> rows_kept (on_peer rid f n)"
  by (rule rows_kept_map [of n]) (auto simp: map_of_on_peer option.map_comp comp_def)

lemma rows_keptD: "rows_kept n \<Longrightarrow> known rid n \<Longrightarrow> lp_row_id (peer_of rid n) = rid"
  by (auto simp: rows_kept_def known_def peer_of_def dest: map_of_SomeD)

text \<open>Everything but the peers, the sessions and the lock of one link stays when a direction is verified.\<close>

lemma channel_verified_sel [simp]:
  "tn_path_ways (channel_verified rid n) = tn_path_ways n" "tn_draws (channel_verified rid n) = tn_draws n"
  "tn_sent (channel_verified rid n) = tn_sent n" "tn_accepted (channel_verified rid n) = tn_accepted n"
  "map fst (tn_peers (channel_verified rid n)) = map fst (tn_peers n)"
  by (simp_all add: channel_verified_def Let_def)

lemma channel_verified_sessions: "\<exists>P. tn_sessions (channel_verified rid n) = filter P (tn_sessions n)"
  by (auto simp: channel_verified_def Let_def intro: exI [of _ "\<lambda>_. True"])

lemma channel_verified_session_at:
  "session_at (channel_verified rid n) k = Some s \<Longrightarrow> session_at n k = Some s"
  by (cases "k = rid"; cases "map_of (tn_peers n) rid")
    (auto simp: channel_verified_def Let_def session_at_def map_of_on_peer split: if_splits option.splits)

lemma channel_verified_rows: "rows_kept n \<Longrightarrow> rows_kept (channel_verified rid n)"
  by (rule rows_kept_map [of n])
    (auto simp: channel_verified_def Let_def map_of_on_peer option.map_comp comp_def)

lemma channel_verified_locked:
  assumes ok: "locked_ok n" and rows: "rows_kept n"
  shows "locked_ok (channel_verified rid n)"
proof (cases "lp_tls_locked (peer_of rid n) \<or> \<not> lp_tls_out_ok (peer_of rid n) \<or> \<not> lp_tls_in_ok (peer_of rid n)")
  case True
  with ok show ?thesis by (simp add: channel_verified_def)
next
  case False
  let ?n = "channel_verified rid n"
  have sess: "tn_sessions ?n = filter (\<lambda>(k, s). \<not> (ss_peer_row_id s = lp_row_id (peer_of rid n) \<and> ss_channel_pin s = None)) (tn_sessions n)"
    using False by (simp add: channel_verified_def Let_def)
  have other: "k \<noteq> rid \<Longrightarrow> locked_at ?n k = locked_at n k" for k
    using False by (simp add: channel_verified_def Let_def locked_at_def map_of_on_peer)
  have self: "locked_at ?n rid \<Longrightarrow> known rid n"
    using False by (auto simp: channel_verified_def Let_def locked_at_def map_of_on_peer known_def split: option.splits)
  have "\<not> locked_at ?n (ss_peer_row_id s)"
    if ways: "\<not> tn_path_ways n" and s: "(k, s) \<in> set (tn_sessions ?n)" "ss_channel_pin s = None" for k s
  proof (cases "ss_peer_row_id s = rid")
    case True
    with s self rows_keptD [OF rows] show ?thesis by (auto simp: sess)
  next
    case False
    with ok s ways other show ?thesis by (auto simp: locked_ok_def sess)
  qed
  then show ?thesis by (auto simp: locked_ok_def)
qed

section \<open>The steps of a node\<close>

text \<open>What is learned about a peer from its heartbeats: its ways, its certificate, its names.\<close>

definition news :: "(link_peer \<Rightarrow> link_peer) \<Rightarrow> bool" where
  "news f \<longleftrightarrow> (\<forall>p. lp_session (f p) = lp_session p \<and> lp_tls_locked (f p) = lp_tls_locked p \<and> lp_row_id (f p) = lp_row_id p)"

definition load_peer :: "link_peer \<Rightarrow> 'w tnode \<Rightarrow> 'w tnode" where
  "load_peer p n = (drop_sessions_of (lp_row_id p) n)\<lparr>tn_peers := al_put (lp_row_id p) (p\<lparr>lp_session := None\<rparr>) (tn_peers n)\<rparr>"

inductive node_step :: "('j, 'w) tnode_env \<Rightarrow> 'w tnode \<Rightarrow> 'w tnode \<Rightarrow> bool" for env where
  answer_session: "node_step env n (snd (handle_session env ctx message n))"
| answer_rpc: "node_step env n (snd (handle_rpc env ctx body n))"
| send: "known rid n \<Longrightarrow> node_step env n (snd (send_call env rid ch packed n))"
| forget: "node_step env n (forget_session rid s n)"
| fall: "node_step env n (fall_back env rid n)"
| verified: "node_step env n (note_out_ok rid ch n)"
| learn: "news f \<Longrightarrow> node_step env n (on_peer rid f n)"
| load: "node_step env n (load_peer p n)"
| unload: "node_step env n (unload_peer rid n)"
| sweep: "node_step env n (sweep_sessions (clock_of env n) n)"
| offer: "node_step env n (update_path_ways offered n)"
| outside: "node_step env n (n\<lparr>tn_world := w\<rparr>)"

abbreviation node_steps :: "('j, 'w) tnode_env \<Rightarrow> 'w tnode \<Rightarrow> 'w tnode \<Rightarrow> bool" where
  "node_steps env \<equiv> (node_step env)\<^sup>*\<^sup>*"

definition node_ok :: "'w tnode \<Rightarrow> bool" where
  "node_ok n \<longleftrightarrow> sent_ok n \<and> accepted_ok n \<and> few_sessions n \<and> locked_ok n \<and> rows_kept n"

lemma node_ok_ways: "node_ok n \<Longrightarrow> tn_sessions n' = tn_sessions n \<Longrightarrow> tn_accepted n' = tn_accepted n \<Longrightarrow>
    tn_sent n' = tn_sent n \<Longrightarrow> tn_draws n \<le> tn_draws n' \<Longrightarrow> tn_path_ways n' = tn_path_ways n \<Longrightarrow>
    (\<And>k. session_at n' k = session_at n k) \<Longrightarrow> (\<And>k. locked_at n' k = locked_at n k) \<Longrightarrow> rows_kept n' \<Longrightarrow> node_ok n'"
  unfolding node_ok_def
  by (intro conjI sent_ok_less [of n n'] accepted_ok_same [of n n'] few_sessions_same [of n n'] locked_ok_less [of n n']) simp_all

lemma node_ok_fewer: "node_ok n \<Longrightarrow> tn_sessions n' = filter P (tn_sessions n) \<Longrightarrow> tn_accepted n' = tn_accepted n \<Longrightarrow>
    tn_sent n' = tn_sent n \<Longrightarrow> tn_draws n \<le> tn_draws n' \<Longrightarrow> (\<And>k s. session_at n' k = Some s \<Longrightarrow> session_at n k = Some s) \<Longrightarrow>
    locked_ok n' \<Longrightarrow> rows_kept n' \<Longrightarrow> node_ok n'"
  unfolding node_ok_def
  by (intro conjI sent_ok_less [of n n'] accepted_ok_filter [of n n' P] few_sessions_filter [of n n' P]) simp_all

lemma node_ok_verified: "node_ok n \<Longrightarrow> node_ok (channel_verified rid n)"
proof -
  assume ok: "node_ok n"
  obtain P where "tn_sessions (channel_verified rid n) = filter P (tn_sessions n)" using channel_verified_sessions ..
  then show ?thesis
    using ok by (intro node_ok_fewer [OF ok]) (auto simp: node_ok_def dest: channel_verified_session_at
        intro: channel_verified_locked channel_verified_rows)
qed

lemma node_ok_on_peer: "node_ok n \<Longrightarrow> news f \<Longrightarrow> node_ok (on_peer rid f n)"
  unfolding news_def
  by (rule node_ok_ways [of n]) (simp_all add: session_at_same locked_at_same rows_kept_on_peer node_ok_def)

lemma node_ok_forget: "node_ok n \<Longrightarrow> node_ok (forget_session rid s n)"
proof -
  assume ok: "node_ok n"
  let ?f = "\<lambda>p. if map_option cs_handshake (lp_session p) = Some (cs_handshake s) then p\<lparr>lp_session := None\<rparr> else p"
  have "session_at (on_peer rid ?f n) k = Some t \<Longrightarrow> session_at n k = Some t" for k t
    by (cases "k = rid"; cases "map_of (tn_peers n) rid") (auto simp: session_at_def map_of_on_peer split: if_splits)
  moreover have "locked_at (on_peer rid ?f n) k = locked_at n k" for k by (rule locked_at_same) simp
  then have locked: "locked_ok (on_peer rid ?f n)"
    using ok by (intro locked_ok_same [of n "on_peer rid ?f n"]) (simp_all only: node_ok_def on_peer_sel)
  moreover have "rows_kept (on_peer rid ?f n)" using ok by (intro rows_kept_on_peer) (auto simp: node_ok_def)
  ultimately show ?thesis
    unfolding forget_session_def using locked
    by (intro node_ok_fewer [OF ok, where P = "\<lambda>_. True"]) simp_all
qed

lemma node_ok_send:
  assumes ok: "node_ok n" and known: "known rid n"
  shows "node_ok (snd (send_call env rid ch packed n))"
proof -
  obtain r n' where run: "send_call env rid ch packed n = (r, n')" by (cases "send_call env rid ch packed n")
  note sent = send_call_ok [OF _ known run]
  have step: "caller_step rid n n'" and "sent_ok n'" using sent ok by (simp_all add: node_ok_def)
  moreover have "rows_kept n'"
    using ok step by (intro rows_kept_map [of n n']) (simp_all add: node_ok_def caller_step_def)
  moreover have "locked_ok n'"
    using ok step by (intro locked_ok_same [of n n']) (simp_all add: node_ok_def caller_step_def)
  moreover have "accepted_ok n'" "few_sessions n'"
    using ok step accepted_ok_same [of n n'] few_sessions_same [of n n'] by (simp_all add: node_ok_def caller_step_def)
  ultimately have "node_ok n'" by (simp add: node_ok_def)
  then show ?thesis by (simp add: run)
qed

lemma peer_by_node_id_row:
  assumes "rows_kept n" "peer_by_node_id node n = Some p"
  shows "map_of (tn_peers n) (lp_row_id p) = Some p"
proof -
  from assms(2) have "p \<in> snd ` set (tn_peers n)" unfolding peer_by_node_id_def by (auto dest: find_SomeD)
  then obtain k where "(k, p) \<in> set (tn_peers n)" by force
  with assms(1) show ?thesis by (auto simp: rows_kept_def)
qed

lemma node_ok_add:
  assumes ok: "node_ok n" and s: "ss_handshake s = tn_draws n" "ss_replay s = new_window default_window"
    and may: "ss_channel_pin s = None \<Longrightarrow> tn_path_ways n \<or> \<not> locked_at n (ss_peer_row_id s)"
  shows "node_ok (add_session s (n\<lparr>tn_draws := Suc (tn_draws n)\<rparr>))" (is "node_ok ?n")
proof -
  obtain P where room: "make_room (ss_peer_row_id s) (tn_sessions n) = filter P (tn_sessions n)" using make_room_filter ..
  have sess: "tn_sessions ?n = al_put (hex_encode (ss_sid s)) s (make_room (ss_peer_row_id s) (tn_sessions n))"
    by (simp add: add_session_def)
  then have sub: "set (tn_sessions ?n) \<subseteq> insert (hex_encode (ss_sid s), s) (set (tn_sessions n))"
    using set_al_put [of "hex_encode (ss_sid s)" s "filter P (tn_sessions n)"] by (auto simp: room)
  have "accepted_ok ?n"
    using ok s sess by (intro accepted_ok_add [of n ?n s "hex_encode (ss_sid s)" "ss_peer_row_id s"])
      (simp_all add: node_ok_def add_session_def)
  moreover have "few_sessions ?n"
    using ok sess by (intro few_sessions_add [of n ?n "hex_encode (ss_sid s)" s])
      (simp_all add: node_ok_def accepted_ok_def)
  moreover have "locked_ok ?n"
    using ok sub may unfolding node_ok_def locked_ok_def by (auto simp: add_session_def)
  moreover have "sent_ok ?n"
    using ok by (intro sent_ok_less [of n ?n]) (auto simp: node_ok_def add_session_def)
  moreover have "rows_kept ?n" using ok by (simp add: node_ok_def rows_kept_def add_session_def)
  ultimately show ?thesis by (simp add: node_ok_def)
qed

lemma node_ok_draw: "node_ok n \<Longrightarrow> node_ok (n\<lparr>tn_draws := Suc (tn_draws n)\<rparr>)"
  by (rule node_ok_ways [of n]) (simp_all add: node_ok_def rows_kept_def)

lemma node_ok_in_ok: "node_ok n \<Longrightarrow> node_ok (note_in_ok p binding n)"
  unfolding note_in_ok_def
  by (auto simp: news_def intro!: node_ok_verified node_ok_on_peer)

lemma server_binding_may:
  "server_binding env ctx ways now p v = Some binding \<Longrightarrow> binding = None \<Longrightarrow> ways \<or> \<not> lp_tls_locked p"
  by (auto simp: server_binding_def split: if_splits option.splits)

lemma node_ok_grant:
  assumes ok: "node_ok n" and row: "map_of (tn_peers n) (lp_row_id p) = Some p"
    and may: "si_tls init = None \<Longrightarrow> tn_path_ways n \<or> \<not> lp_tls_locked p"
  shows "node_ok (snd (grant_session env p init n))"
proof -
  let ?d = "te_draw env (tn_draws n)" and ?n1 = "n\<lparr>tn_draws := Suc (tn_draws n)\<rparr>"
  show ?thesis
  proof (cases "server_keys (te_pr env) p ?d init")
    case (Inl e)
    then show ?thesis using node_ok_draw [OF ok] by (simp add: grant_session_def Let_def)
  next
    case (Inr keys)
    let ?s = "server_session_of p (si_tls init) ?d (tn_draws n) (clock_of env ?n1) keys"
    have "node_ok (add_session ?s ?n1)"
      using row may by (intro node_ok_add [OF ok]) (auto simp: server_session_of_def locked_at_def)
    then show ?thesis
      using Inr node_ok_in_ok by (auto simp: grant_session_def Let_def split: sum.splits)
  qed
qed

lemma node_ok_session:
  assumes ok: "node_ok n"
  shows "node_ok (snd (handle_session env ctx message n))"
proof -
  have "node_ok (snd (grant_session env p (server_init r binding) n))"
    if "server_binding env ctx (tn_path_ways n) now p v = Some binding" "peer_by_node_id node n = Some p" for p r binding now v node
    using that ok peer_by_node_id_row [of n node p] server_binding_may [OF that(1)]
    by (intro node_ok_grant) (simp_all add: node_ok_def server_init_def)
  with ok show ?thesis
    unfolding handle_session_def by (simp split: option.splits sum.splits if_splits)
qed

lemma run_call_world: "\<exists>w. snd (run_call env p plaintext n) = n\<lparr>tn_world := w\<rparr>"
  by (auto simp: run_call_def split: sum.splits prod.splits intro: exI [of _ "tn_world n"])

lemma node_ok_world: "node_ok n \<Longrightarrow> node_ok (n\<lparr>tn_world := w\<rparr>)"
  by (rule node_ok_ways [of n]) (simp_all add: node_ok_def rows_kept_def)

lemma answer_call_world: "\<exists>w. snd (answer_call env p s c plaintext n) = n\<lparr>tn_world := w\<rparr>"
  using run_call_world [of env p plaintext n] by (auto simp: answer_call_def split: prod.splits sum.splits)

lemma node_ok_use:
  assumes ok: "node_ok n" and s: "map_of (tn_sessions n) key = Some s" and take: "fst (accept_counter (ss_replay s) c)"
  shows "node_ok ((use_session key c now n)\<lparr>tn_accepted := (ss_handshake s, c) # tn_accepted n\<rparr>)" (is "node_ok ?n")
proof -
  have "accepted_ok ?n" using ok s take by (intro accepted_ok_use) (simp_all add: node_ok_def)
  moreover have "few_sessions ?n"
    using few_sessions_same [OF few_sessions_use [of n key c now], of ?n] ok by (simp add: node_ok_def)
  moreover have "sent_ok ?n" using ok by (intro sent_ok_less [of n ?n]) (auto simp: node_ok_def use_session_def)
  moreover have "locked_ok ?n" using ok by (auto simp: node_ok_def locked_ok_def use_session_def split: if_splits)
  moreover have "rows_kept ?n" using ok by (simp add: node_ok_def rows_kept_def use_session_def)
  ultimately show ?thesis by (simp add: node_ok_def)
qed

lemma node_ok_filter:
  assumes ok: "node_ok n" and sess: "tn_sessions n' = filter P (tn_sessions n)" and same: "n' = n\<lparr>tn_sessions := tn_sessions n'\<rparr>"
  shows "node_ok n'"
proof -
  have "locked_ok n'" using ok sess by (subst same) (auto simp: node_ok_def locked_ok_def)
  moreover have "rows_kept n'" using ok by (subst same) (simp add: node_ok_def rows_kept_def)
  moreover have "tn_accepted n' = tn_accepted n" "tn_sent n' = tn_sent n" "tn_draws n' = tn_draws n" "session_at n' = session_at n"
    by (subst same, simp)+
  ultimately show ?thesis using sess by (intro node_ok_fewer [OF ok]) simp_all
qed

text \<open>The outcomes of a call, and what an accepted one rests on.\<close>

lemma serve_call_cases:
  obtains (refused) "serve_call env p key s rq n = (RpcRefused 401, n)"
  | (served) plaintext where
      "open_frame (te_pr env) (ss_c2s s) C2S (ss_sid s) (req_counter rq) (req_sealed rq) = Inr plaintext"
      "fst (accept_counter (ss_replay s) (req_counter rq))"
      "serve_call env p key s rq n = answer_call env p s (req_counter rq) plaintext
         ((use_session key (req_counter rq) (clock_of env n) n)\<lparr>tn_accepted := (ss_handshake s, req_counter rq) # tn_accepted n\<rparr>)"
  by (cases "open_frame (te_pr env) (ss_c2s s) C2S (ss_sid s) (req_counter rq) (req_sealed rq)";
      cases "fst (accept_counter (ss_replay s) (req_counter rq))") (auto simp: serve_call_def)

text \<open>A refused call leaves the node as it was, but for a session that no longer counts.\<close>

lemma handle_rpc_cases:
  obtains (refused) status where "handle_rpc env ctx body n = (RpcRefused status, n)"
  | (gone) key where "handle_rpc env ctx body n = (RpcRefused 401, forget_server_session key n)"
  | (served) b rq s p plaintext where "body = Some b" "decode_request b = Some rq"
      "map_of (tn_sessions n) (hex_encode (req_sid rq)) = Some s" "map_of (tn_peers n) (ss_peer_row_id s) = Some p"
      "clock_of env n - ss_created_at s \<le> session_max_age_ms * 2" "ss_channel_pin s = presented_pin ctx"
      "open_frame (te_pr env) (ss_c2s s) C2S (ss_sid s) (req_counter rq) (req_sealed rq) = Inr plaintext"
      "fst (accept_counter (ss_replay s) (req_counter rq))"
      "handle_rpc env ctx body n = answer_call env p s (req_counter rq) plaintext
         ((use_session (hex_encode (req_sid rq)) (req_counter rq) (clock_of env n) n)
            \<lparr>tn_accepted := (ss_handshake s, req_counter rq) # tn_accepted n\<rparr>)"
proof (cases "case body of None \<Rightarrow> None | Some b \<Rightarrow> decode_request b")
  case None
  then show ?thesis using refused [of 400] by (simp add: handle_rpc_def)
next
  case (Some rq)
  then obtain b where b: "body = Some b" "decode_request b = Some rq" by (auto split: option.splits)
  let ?key = "hex_encode (req_sid rq)"
  show ?thesis
  proof (cases "map_of (tn_sessions n) ?key")
    case None
    then show ?thesis using refused [of 401] Some by (simp add: handle_rpc_def)
  next
    case s: (Some s)
    show ?thesis
    proof (cases "map_of (tn_peers n) (ss_peer_row_id s)")
      case None
      then show ?thesis using gone [of ?key] Some s by (simp add: handle_rpc_def)
    next
      case p: (Some p)
      show ?thesis
      proof (cases "session_max_age_ms * 2 < clock_of env n - ss_created_at s")
        case True
        then show ?thesis using gone [of ?key] Some s p by (simp add: handle_rpc_def)
      next
        case young: False
        show ?thesis
        proof (cases "ss_channel_pin s = presented_pin ctx")
          case False
          then show ?thesis using refused [of 401] Some s p young by (simp add: handle_rpc_def)
        next
          case pin: True
          then have run: "handle_rpc env ctx body n = serve_call env p ?key s rq n"
            using Some s p young by (simp add: handle_rpc_def)
          show ?thesis
          proof (rule serve_call_cases [of env p ?key s rq n])
            assume "serve_call env p ?key s rq n = (RpcRefused 401, n)"
            then show ?thesis using refused [of 401] run by simp
          next
            fix plaintext
            assume "open_frame (te_pr env) (ss_c2s s) C2S (ss_sid s) (req_counter rq) (req_sealed rq) = Inr plaintext"
              "fst (accept_counter (ss_replay s) (req_counter rq))"
              "serve_call env p ?key s rq n = answer_call env p s (req_counter rq) plaintext
                 ((use_session ?key (req_counter rq) (clock_of env n) n)\<lparr>tn_accepted := (ss_handshake s, req_counter rq) # tn_accepted n\<rparr>)"
            then show ?thesis using served [OF b s p _ pin] young run by simp
          qed
        qed
      qed
    qed
  qed
qed

lemma node_ok_rpc: "node_ok n \<Longrightarrow> node_ok (snd (handle_rpc env ctx body n))"
proof -
  assume ok: "node_ok n"
  show ?thesis
  proof (rule handle_rpc_cases [of env ctx body n])
    fix status assume "handle_rpc env ctx body n = (RpcRefused status, n)"
    then show ?thesis using ok by simp
  next
    fix key assume "handle_rpc env ctx body n = (RpcRefused 401, forget_server_session key n)"
    then show ?thesis
      using node_ok_filter [OF ok, of "forget_server_session key n" "\<lambda>(k, s). k \<noteq> key"] by (simp add: forget_server_session_def)
  next
    fix b rq s p plaintext
    assume s: "map_of (tn_sessions n) (hex_encode (req_sid rq)) = Some s" "fst (accept_counter (ss_replay s) (req_counter rq))"
      and run: "handle_rpc env ctx body n = answer_call env p s (req_counter rq) plaintext
         ((use_session (hex_encode (req_sid rq)) (req_counter rq) (clock_of env n) n)
            \<lparr>tn_accepted := (ss_handshake s, req_counter rq) # tn_accepted n\<rparr>)" (is "_ = answer_call _ _ _ _ _ ?n1")
    obtain w where "snd (handle_rpc env ctx body n) = ?n1\<lparr>tn_world := w\<rparr>"
      using answer_call_world [of env p s "req_counter rq" plaintext ?n1] run by auto
    then show ?thesis using node_ok_world [OF node_ok_use [OF ok s, of "clock_of env n"], of w] by simp
  qed
qed

lemma node_ok_learned: "node_ok n \<Longrightarrow> node_ok (fall_back env rid n)" "node_ok n \<Longrightarrow> node_ok (note_out_ok rid ch n)"
  by (auto simp: fall_back_def note_out_ok_def news_def intro!: node_ok_on_peer node_ok_verified)

lemma node_ok_drop: "node_ok n \<Longrightarrow> node_ok (drop_sessions_of rid n)"
  by (erule node_ok_filter [where P = "\<lambda>(k, s). ss_peer_row_id s \<noteq> rid"]) (simp_all add: drop_sessions_of_def)

lemma node_ok_load: "node_ok n \<Longrightarrow> node_ok (load_peer p n)"
proof -
  assume ok: "node_ok n"
  let ?n = "load_peer p n"
  have peers: "map_of (tn_peers ?n) k = (if k = lp_row_id p then Some (p\<lparr>lp_session := None\<rparr>) else map_of (tn_peers n) k)" for k
    by (simp add: load_peer_def drop_sessions_of_def)
  have "session_at ?n k = Some s \<Longrightarrow> session_at n k = Some s" for k s
    by (auto simp: session_at_def peers split: if_splits)
  moreover have "locked_ok ?n"
    using ok by (auto simp: node_ok_def locked_ok_def locked_at_def peers load_peer_def drop_sessions_of_def)
  moreover have "rows_kept ?n"
    using ok set_al_put [of "lp_row_id p" "p\<lparr>lp_session := None\<rparr>" "tn_peers n"]
    by (auto simp: node_ok_def rows_kept_def load_peer_def drop_sessions_of_def distinct_al_put)
  ultimately show ?thesis
    by (intro node_ok_fewer [OF ok, where P = "\<lambda>(k, s). ss_peer_row_id s \<noteq> lp_row_id p"])
      (simp_all add: load_peer_def drop_sessions_of_def)
qed

lemma map_of_filter_key: "map_of (filter (\<lambda>(k, v). k \<noteq> rid) m) k = (if k = rid then None else map_of m k)"
  by (induction m) auto

lemma node_ok_unload: "node_ok n \<Longrightarrow> node_ok (unload_peer rid n)"
proof -
  assume ok: "node_ok n"
  let ?n = "unload_peer rid n"
  have peers: "map_of (tn_peers ?n) k = (if k = rid then None else map_of (tn_peers n) k)" for k
    by (simp add: unload_peer_def drop_sessions_of_def map_of_filter_key)
  have "session_at ?n k = Some s \<Longrightarrow> session_at n k = Some s" for k s
    by (auto simp: session_at_def peers split: if_splits)
  moreover have "locked_at ?n k \<Longrightarrow> locked_at n k" for k
    by (auto simp: locked_at_def peers split: if_splits)
  then have "locked_ok ?n"
    using ok by (intro locked_ok_less [of n ?n]) (auto simp: node_ok_def unload_peer_def drop_sessions_of_def)
  moreover have "rows_kept ?n"
    using ok by (auto simp: node_ok_def rows_kept_def unload_peer_def drop_sessions_of_def distinct_map_filter)
  ultimately show ?thesis
    by (intro node_ok_fewer [OF ok, where P = "\<lambda>(k, s). ss_peer_row_id s \<noteq> rid"])
      (simp_all add: unload_peer_def drop_sessions_of_def)
qed

lemma node_ok_offer:
  assumes ok: "node_ok n"
  shows "node_ok (update_path_ways offered n)"
proof (cases offered)
  case True
  have "node_ok (n\<lparr>tn_path_ways := True\<rparr>)"
    using ok by (intro node_ok_fewer [OF ok, where P = "\<lambda>_. True"]) (simp_all add: node_ok_def locked_ok_def rows_kept_def)
  with True show ?thesis by (simp add: update_path_ways_def)
next
  case False
  let ?n1 = "n\<lparr>tn_path_ways := False\<rparr>"
  let ?n = "?n1\<lparr>tn_sessions := filter (\<lambda>(k, s). \<not> unpinned_of_locked ?n1 s) (tn_sessions n)\<rparr>"
  have "locked_ok ?n" by (auto simp: locked_ok_def unpinned_of_locked_iff)
  moreover have "rows_kept ?n" using ok by (simp add: node_ok_def rows_kept_def)
  ultimately have "node_ok ?n"
    by (intro node_ok_fewer [OF ok, where P = "\<lambda>(k, s). \<not> unpinned_of_locked ?n1 s"]) simp_all
  with False show ?thesis by (simp add: update_path_ways_def Let_def drop_unpinned_sessions_of_locked_peers_def)
qed

lemma node_ok_step: "node_step env n n' \<Longrightarrow> node_ok n \<Longrightarrow> node_ok n'"
proof (induction rule: node_step.induct)
  case (sweep n)
  then show ?case
    by (rule node_ok_filter [where P = "\<lambda>(k, s). \<not> session_expired (clock_of env n) s"]) (simp_all add: sweep_sessions_def)
qed (simp_all add: node_ok_session node_ok_rpc node_ok_send node_ok_forget node_ok_learned node_ok_on_peer node_ok_load
    node_ok_unload node_ok_offer node_ok_world)

lemma node_ok_steps: "node_steps env n n' \<Longrightarrow> node_ok n \<Longrightarrow> node_ok n'"
  by (induction rule: rtranclp_induct) (auto intro: node_ok_step)

text \<open>A node right after its start: the peers it loaded, no session.\<close>

definition node_start :: "'w tnode \<Rightarrow> bool" where
  "node_start n \<longleftrightarrow> tn_sessions n = [] \<and> tn_sent n = [] \<and> tn_accepted n = [] \<and> distinct (map fst (tn_peers n)) \<and>
     list_all (\<lambda>(k, p). lp_row_id p = k \<and> lp_session p = None) (tn_peers n)"

lemma node_start_ok: "node_start n \<Longrightarrow> node_ok n"
proof -
  assume start: "node_start n"
  then have "session_at n k = None" for k
    by (cases "map_of (tn_peers n) k") (auto simp: node_start_def session_at_def list_all_iff dest: map_of_SomeD)
  then have "sent_ok n" using start by (simp add: sent_ok_def node_start_def)
  moreover have "rows_kept n" using start by (auto simp: node_start_def rows_kept_def list_all_iff)
  ultimately show ?thesis
    using start by (simp add: node_ok_def accepted_ok_def few_sessions_def locked_ok_def node_start_def sessions_of_def)
qed

section \<open>A call of the node is a sequence of its steps\<close>

lemma receive_answer_steps: "node_steps env n (snd (receive_answer env rid ch s answer n))"
proof -
  have "node_steps env n (forget_session rid s n)" "node_steps env n (note_out_ok rid ch n)"
    by (rule r_into_rtranclp, rule node_step.forget) (rule r_into_rtranclp, rule node_step.verified)
  moreover have "snd (receive_answer env rid ch s answer n) \<in> {n, forget_session rid s n, note_out_ok rid ch n}"
    by (auto simp: receive_answer_def split: prod.splits option.splits sum.splits)
  ultimately show ?thesis by auto
qed

lemma known_send: "known rid n \<Longrightarrow> sent_ok n \<Longrightarrow> known rid (snd (send_call env rid ch packed n))"
  using send_call_ok [of n rid env ch packed] by (cases "send_call env rid ch packed n") (auto simp: caller_step_def)

lemma rpc_attempts_steps:
  "known rid n \<Longrightarrow> node_ok n \<Longrightarrow> node_steps env n (snd (rpc_attempts env rid packed k ch n))"
proof (induction k arbitrary: ch n)
  case (Suc k)
  obtain r n1 where run: "send_call env rid ch packed n = (r, n1)" by (cases "send_call env rid ch packed n")
  have sent: "node_step env n n1" using node_step.send [OF Suc.prems(1), of env ch packed] run by simp
  have ok: "node_ok n1" using node_ok_step [OF sent Suc.prems(2)] .
  have known: "known rid n1" using known_send [OF Suc.prems(1), of env ch packed] Suc.prems(2) run by (simp add: node_ok_def)
  have go: "node_steps env a c" if "node_step env a b" "node_steps env b c" for a b c
    using that by (rule converse_rtranclp_into_rtranclp)
  show ?case
  proof (cases r)
    case (Inl err)
    show ?thesis
    proof (cases "other_way (peer_of rid n1) ch err")
      case None
      then show ?thesis using Inl run sent by auto
    next
      case (Some ch')
      have "known rid (fall_back env rid n1)" using known by (simp add: fall_back_def)
      from go [OF node_step.fall Suc.IH [OF this node_ok_learned(1) [OF ok]]]
      have "node_steps env n1 (snd (rpc_attempts env rid packed k ch' (fall_back env rid n1)))" .
      from go [OF sent this] show ?thesis using Inl Some run by simp
    qed
  next
    case (Inr sa)
    obtain s answer where sa: "sa = (s, answer)" by (cases sa)
    show ?thesis
    proof (cases "fst answer = 401")
      case True
      have "known rid (forget_session rid s n1)" using known by (simp add: forget_session_def)
      from go [OF node_step.forget Suc.IH [OF this node_ok_forget [OF ok]]]
      have "node_steps env n1 (snd (rpc_attempts env rid packed k ch (forget_session rid s n1)))" .
      from go [OF sent this] show ?thesis using Inr sa True run by simp
    next
      case False
      then show ?thesis using go [OF sent receive_answer_steps [of env n1 rid ch s answer]] Inr sa run by simp
    qed
  qed
qed simp

lemma rpc_steps: "known rid n \<Longrightarrow> node_ok n \<Longrightarrow> node_steps env n (snd (rpc env rid method params n))"
  using rpc_attempts_steps [of rid n env] unfolding rpc_def Let_def by (simp split: sum.splits)

end
