(* ===== verification/Transport_Link.thy ===== *)
theory Transport_Link
  imports Transport_Facts
begin

text \<open>
  Two nodes joined: the caller's network is the other node, which answers over the mutually authenticated
  channel (\<open>over_channel\<close>). What the handshake agrees on and what a call carries across is proved here in
  pieces: the messages are read as they were written, both sides derive the same keys, a sealed call is
  opened and run, and its sealed answer is opened again.
\<close>

section \<open>Messages are read as they were written\<close>

lemma length_b64_sextets_le: "3 * length (b64_sextets xs) \<le> 4 * length xs + 2"
  by (induction xs rule: b64_sextets.induct) auto

lemma fixed_bytes_encode: "length b = n \<Longrightarrow> n \<le> 94 \<Longrightarrow> fixed_bytes n (b64url_encode b) = Some b"
  using length_b64_sextets_le [of "map unat b"] by (auto simp: fixed_bytes_def b64url_encode_def [symmetric] Let_def)
    (simp add: b64url_encode_def)

lemma encode_fields_total: "\<forall>f \<in> set fs. length f < 2 ^ 32 \<Longrightarrow> \<exists>b. encode_fields fs = Inr b"
  by (induction fs) auto

text \<open>\<open>exchange_ok\<close>: what two draws of key pairs, nonces and an id are, and that both sides agree on the secret.\<close>

definition exchange_ok :: "primitives \<Rightarrow> drawn \<Rightarrow> drawn \<Rightarrow> bool" where
  "exchange_ok pr c s \<longleftrightarrow> length (dr_public c) = 32 \<and> length (dr_public s) = 32 \<and> length (dr_nonce c) = 16 \<and>
     length (dr_nonce s) = 16 \<and> length (dr_sid s) = 16 \<and>
     x25519 pr (dr_private s) (dr_public c) = x25519 pr (dr_private c) (dr_public s) \<and>
     \<not> list_all (\<lambda>b. b = 0) (x25519 pr (dr_private c) (dr_public s))"

text \<open>HMAC-SHA-256 gives 32 bytes; JSON texts and compressed packages are read as they were written.\<close>

definition hmac_length :: "primitives \<Rightarrow> bool" where
  "hmac_length pr \<longleftrightarrow> (\<forall>key data. length (hmac_sha256 pr key data) = 32)"

definition texts_ok :: "('j, 'w) tnode_env \<Rightarrow> bool" where
  "texts_ok env \<longleftrightarrow>
     (\<forall>m p. jt_parse_call (te_json env) (jt_call (te_json env) m p) = Some (Some m, p)) \<and>
     (\<forall>r. jt_parse_reply (te_json env) (jt_reply (te_json env) r) = Some r) \<and>
     (\<forall>b. length b \<le> te_max_message env \<longrightarrow> te_decompress env (te_compress env b) (te_max_message env) = Inr b)"

definition short_init :: "session_init \<Rightarrow> bool" where
  "short_init i \<longleftrightarrow> length (si_from i) < 2 ^ 32 \<and> length (si_to i) < 2 ^ 32 \<and> length (si_e i) < 2 ^ 32 \<and>
     length (si_n i) < 2 ^ 32 \<and>
     (case si_tls i of None \<Rightarrow> True | Some b \<Rightarrow> length (cb_client b) < 2 ^ 32 \<and> length (cb_server b) < 2 ^ 32)"

lemma handshake_version_short: "length (handshake_version b) < 2 ^ 32"
  by (simp add: handshake_version_def protocol_version_def tls_protocol_version_def dec_string.simps)

lemma init_transcript_total: "short_init i \<Longrightarrow> \<exists>b. session_init_transcript i = Inr b"
  unfolding session_init_transcript_def
  by (rule encode_fields_total)
    (use handshake_version_short in \<open>auto simp: session_init_fields_def short_init_def binding_fields_def split: option.splits\<close>)

lemma init_mac_total:
  "short_init i \<Longrightarrow> hmac_length pr \<Longrightarrow> \<exists>mac. session_init_mac pr lk i = Inr mac \<and> length mac = 32"
  using init_transcript_total [of i] by (auto simp: session_init_mac_def hmac_length_def hmac_def)

lemma full_transcript_total:
  "short_init i \<Longrightarrow> length (sa_sid a) = 16 \<Longrightarrow> length (sa_e a) = 32 \<Longrightarrow> length (sa_n a) = 16 \<Longrightarrow>
    \<exists>t. session_full_transcript pr i a = Inr t"
  using init_transcript_total [of i] encode_fields_total [of "[utf8 ''session-accept'', sa_sid a, sa_e a, sa_n a]"]
  by (auto simp: session_full_transcript_def)

lemma session_message_read:
  assumes "node_id_ok (si_from i)" "node_id_ok (si_to i)" "length (si_e i) = 32" "length (si_n i) = 16" "length mac = 32"
  shows "parse_session_init (session_message_of i mac) =
    Some \<lparr>sr_v = (if si_tls i = None then 2 else 3), sr_from = si_from i, sr_to = si_to i, sr_e = si_e i, sr_n = si_n i, sr_mac = mac\<rparr>"
  using assms
  by (simp add: parse_session_init_def session_message_of_def fixed_bytes_encode x25519_public_bytes_def handshake_nonce_bytes_def)

lemma accept_message_read:
  assumes "length (sa_sid a) = 16" "length (sa_e a) = 32" "length (sa_n a) = 16" "length mac = 32"
  shows "parse_accept (accept_message_of a mac) = Some (a, mac)"
  using assms
  by (simp add: parse_accept_def accept_message_of_def fixed_bytes_encode session_id_bytes_def x25519_public_bytes_def
      handshake_nonce_bytes_def)

section \<open>Two nodes over the channel\<close>

text \<open>Reading an updated node whose world is itself a node; the record simplifier stops at the inner record.\<close>

lemma tnode_update_sel [simp]:
  fixes n :: "'w tnode"
  shows "tn_world (n\<lparr>tn_draws := d\<rparr>) = tn_world n" "tn_world (n\<lparr>tn_world := w\<rparr>) = w" "tn_world (n\<lparr>tn_sent := sent\<rparr>) = tn_world n"
    "tn_draws (n\<lparr>tn_draws := d\<rparr>) = d" "tn_draws (n\<lparr>tn_world := w\<rparr>) = tn_draws n" "tn_draws (n\<lparr>tn_sent := sent\<rparr>) = tn_draws n"
    "tn_peers (n\<lparr>tn_draws := d\<rparr>) = tn_peers n" "tn_peers (n\<lparr>tn_world := w\<rparr>) = tn_peers n" "tn_peers (n\<lparr>tn_sent := sent\<rparr>) = tn_peers n"
    "n\<lparr>tn_world := w, tn_world := w'\<rparr> = n\<lparr>tn_world := w'\<rparr>"
  by simp_all

fun session_answer :: "session_response \<Rightarrow> nat \<times> accept_message option" where
  "session_answer (SessionRefused status) = (status, None)"
| "session_answer (SessionAccepted a) = (200, Some a)"
| "session_answer (SessionCrashed e) = (500, None)"

fun call_answer :: "rpc_response \<Rightarrow> nat \<times> buffer" where
  "call_answer (RpcRefused status) = (status, [])"
| "call_answer (RpcSealed sealed) = (200, sealed)"
| "call_answer (RpcCrashed e) = (500, [])"

definition channel_ctx :: "string option \<Rightarrow> channel_context" where
  "channel_ctx client = \<lparr>cc_entry = EpMtls, cc_client = client\<rparr>"

definition deliver_session ::
    "('j, 'v) tnode_env \<Rightarrow> string option \<Rightarrow> session_message \<Rightarrow> 'v tnode \<Rightarrow>
     (call_failure + nat \<times> accept_message option \<times> string) \<times> 'v tnode" where
  "deliver_session other client message w =
     (case handle_session other (channel_ctx client) (Some message) w of (response, w') \<Rightarrow>
        (Inr (fst (session_answer response), snd (session_answer response),
           case te_own_pin other of Some pin \<Rightarrow> pin | None \<Rightarrow> []), w'))"

definition deliver_call ::
    "('j, 'v) tnode_env \<Rightarrow> string option \<Rightarrow> buffer \<Rightarrow> 'v tnode \<Rightarrow> (call_failure + nat \<times> buffer) \<times> 'v tnode" where
  "deliver_call other client body w =
     (case handle_rpc other (channel_ctx client) (Some body) w of (response, w') \<Rightarrow> (Inr (call_answer response), w'))"

definition over_channel :: "('j, 'v) tnode_env \<Rightarrow> ('j, 'v tnode) tnode_env \<Rightarrow> ('j, 'v tnode) tnode_env" where
  "over_channel other env =
     env\<lparr>te_post_pinned := \<lambda>target. deliver_session other (te_own_pin env),
         te_send_pinned := \<lambda>target. deliver_call other (te_own_pin env),
         te_now := \<lambda>w. te_now other (tn_world w)\<rparr>"

section \<open>The handshake\<close>

lemma server_grants:
  assumes r: "parse_session_init message = Some \<lparr>sr_v = 3, sr_from = si_from i, sr_to = si_to i, sr_e = si_e i, sr_n = si_n i, sr_mac = mac\<rparr>"
    and i: "si_to i = te_self other" "si_tls i = Some \<lparr>cb_client = client, cb_server = own\<rparr>"
    and q: "peer_by_node_id (si_from i) w = Some q" "te_own_pin other = Some own" "pin_accepted (clock_of other w) q client"
    and mac: "session_init_mac (te_pr other) (lp_link_key q) i = Inr mac"
  shows "handle_session other (channel_ctx (Some client)) (Some message) w = grant_session other q i w"
proof -
  have "server_binding other (channel_ctx (Some client)) ways (clock_of other w) q 3 = Some (si_tls i)" for ways
    using i(2) q by (simp add: server_binding_def channel_ctx_def)
  moreover have "server_init \<lparr>sr_v = 3, sr_from = si_from i, sr_to = si_to i, sr_e = si_e i, sr_n = si_n i, sr_mac = mac\<rparr> (si_tls i) = i"
    by (simp add: server_init_def)
  ultimately show ?thesis
    using r i(1) q(1) mac by (simp add: handle_session_def safe_equal_def)
qed

lemma map_of_filter_put: "P (k, s) \<Longrightarrow> map_of (filter P (al_put k s m)) k = Some s"
  by (induction k s m rule: al_put.induct) auto

text \<open>The session both sides hold once the other node has granted it.\<close>

definition matches :: "client_session \<Rightarrow> server_session \<Rightarrow> bool" where
  "matches cs ss \<longleftrightarrow> cs_sid cs = ss_sid ss \<and> cs_c2s cs = ss_c2s ss \<and> cs_s2c cs = ss_s2c ss"

lemma channel_verified_keeps_pinned:
  "map_of (tn_sessions n) key = Some s \<Longrightarrow> (\<And>P. P (key, s) \<Longrightarrow> map_of (filter P (tn_sessions n)) key = Some s) \<Longrightarrow>
    ss_channel_pin s \<noteq> None \<Longrightarrow> map_of (tn_sessions (channel_verified rid n)) key = Some s"
  by (simp add: channel_verified_def Let_def)

lemma channel_verified_peer:
  "map_of (tn_peers n) k = Some p \<Longrightarrow>
    \<exists>p'. map_of (tn_peers (channel_verified rid n)) k = Some p' \<and> lp_row_id p' = lp_row_id p \<and> lp_node_id p' = lp_node_id p"
  by (auto simp: channel_verified_def Let_def map_of_on_peer)

lemma note_in_ok_session:
  assumes "tn_sessions n = al_put key s m" "ss_channel_pin s \<noteq> None"
  shows "map_of (tn_sessions (note_in_ok q b n)) key = Some s"
  using assms channel_verified_keeps_pinned [of "on_peer (lp_row_id q) (\<lambda>p. p\<lparr>lp_tls_in_ok := True\<rparr>) n" key s "lp_row_id q"]
  by (auto simp: note_in_ok_def map_of_filter_put)

lemma note_in_ok_peer:
  assumes "map_of (tn_peers n) k = Some p"
  shows "\<exists>p'. map_of (tn_peers (note_in_ok q b n)) k = Some p' \<and> lp_row_id p' = lp_row_id p \<and> lp_node_id p' = lp_node_id p"
proof -
  let ?n = "on_peer (lp_row_id q) (\<lambda>p. p\<lparr>lp_tls_in_ok := True\<rparr>) n"
  have "\<exists>p1. map_of (tn_peers ?n) k = Some p1 \<and> lp_row_id p1 = lp_row_id p \<and> lp_node_id p1 = lp_node_id p"
    using assms by (cases "k = lp_row_id q") (auto simp: map_of_on_peer)
  then obtain p1 where "map_of (tn_peers ?n) k = Some p1" "lp_row_id p1 = lp_row_id p" "lp_node_id p1 = lp_node_id p" by blast
  with channel_verified_peer [of ?n k p1 "lp_row_id q"] assms show ?thesis by (auto simp: note_in_ok_def)
qed

lemma note_in_ok_sel [simp]:
  "tn_world (note_in_ok q b n) = tn_world n" "tn_accepted (note_in_ok q b n) = tn_accepted n"
  by (simp_all add: note_in_ok_def channel_verified_def Let_def)

text \<open>
  The client's checks of the answer and the keys it derives: the same as those the other node stored.
\<close>

lemma handshake_agrees_lemma:
  assumes init: "client_init env t d = i" and short: "short_init i"
    and tls: "si_tls i = Some \<lparr>cb_client = client, cb_server = own\<rparr>"
    and ex: "exchange_ok pr d e" and pr: "te_pr env = pr" "te_pr other = pr" "hmac_length pr"
    and lk: "st_link_key t = lp_link_key q" and e: "e = te_draw other (tn_draws w)"
    and row: "map_of (tn_peers w) (lp_row_id q) = Some q"
  shows "\<exists>am cs ss w'. grant_session other q i w = (SessionAccepted am, w') \<and>
    check_accept env t d h (200, Some am, own) now = Inr cs \<and> matches cs ss \<and>
    map_of (tn_sessions w') (hex_encode (cs_sid cs)) = Some ss \<and> ss_channel_pin ss = Some client \<and>
    ss_peer_row_id ss = lp_row_id q \<and> ss_created_at ss = clock_of other w \<and> ss_replay ss = new_window default_window \<and>
    ss_handshake ss = tn_draws w \<and> cs_channel cs = ChTls \<and> cs_counter cs = 0 \<and> cs_created_at cs = now \<and> length (cs_sid cs) = 16 \<and>
    tn_world w' = tn_world w \<and> tn_accepted w' = tn_accepted w \<and>
    (\<exists>q'. map_of (tn_peers w') (lp_row_id q) = Some q' \<and> lp_row_id q' = lp_row_id q \<and> lp_node_id q' = lp_node_id q)"
proof -
  let ?a = "server_accept e" and ?secret = "x25519 pr (dr_private d) (dr_public e)"
  have len: "length (sa_sid ?a) = 16" "length (sa_e ?a) = 32" "length (sa_n ?a) = 16"
    using ex by (simp_all add: server_accept_def exchange_ok_def)
  obtain tr where tr: "session_full_transcript pr i ?a = Inr tr" using full_transcript_total [OF short len] by blast
  then obtain mac where mac: "session_accept_mac pr (lp_link_key q) i ?a = Inr mac" "length mac = 32"
    using pr(3) by (simp add: session_accept_mac_def hmac_length_def hmac_def)
  obtain keys where keys: "session_keys pr (lp_link_key q) ?secret i ?a = Inr keys"
    using tr by (simp add: session_keys_def Let_def)
  have e_pub: "si_e i = dr_public d" using init by (auto simp: client_init_def)
  have swap: "x25519 pr (dr_private e) (dr_public d) = ?secret" and odd: "\<not> list_all (\<lambda>b. b = 0) ?secret"
    and pub: "length (dr_public d) = 32" "length (dr_public e) = 32"
    using ex by (simp_all add: exchange_ok_def)
  have server: "server_keys pr q e i = Inr keys"
    using keys e_pub odd pub by (simp add: server_keys_def shared_secret_def swap x25519_public_bytes_def)
  have client: "session_of_accept env t d h now ?a = Inr \<lparr>cs_channel = ChTls, cs_sid = dr_sid e,
      cs_c2s = key_c2s keys, cs_s2c = key_s2c keys, cs_counter = 0, cs_created_at = now, cs_handshake = h\<rparr>"
    using keys init tls lk pr odd pub
    by (auto simp: session_of_accept_def shared_secret_def server_accept_def x25519_public_bytes_def Let_def client_init_def)
  have bound: "target_binding env t = Some \<lparr>cb_client = client, cb_server = own\<rparr>"
    using init tls by (auto simp: client_init_def)
  let ?am = "accept_message_of ?a mac"
  have check: "check_accept env t d h (200, Some ?am, own) now = Inr \<lparr>cs_channel = ChTls, cs_sid = dr_sid e,
      cs_c2s = key_c2s keys, cs_s2c = key_s2c keys, cs_counter = 0, cs_created_at = now, cs_handshake = h\<rparr>"
    using mac client init lk pr bound accept_message_read [OF len mac(2)]
    by (simp add: check_accept_def safe_equal_def map_error_def)
  let ?w1 = "w\<lparr>tn_draws := Suc (tn_draws w)\<rparr>"
  let ?ss = "server_session_of q (si_tls i) e (tn_draws w) (clock_of other ?w1) keys"
  let ?w2 = "note_in_ok q (si_tls i) (add_session ?ss ?w1)"
  have "grant_session other q i w = (SessionAccepted ?am, ?w2)"
    using server mac pr by (simp add: grant_session_def Let_def e)
  moreover have "map_of (tn_sessions ?w2) (hex_encode (dr_sid e)) = Some ?ss"
    using tls by (intro note_in_ok_session) (simp_all add: add_session_def server_session_of_def)
  moreover have "\<exists>q'. map_of (tn_peers ?w2) (lp_row_id q) = Some q' \<and> lp_row_id q' = lp_row_id q \<and> lp_node_id q' = lp_node_id q"
    using row by (intro note_in_ok_peer) (simp add: add_session_def)
  moreover have "clock_of other ?w1 = clock_of other w" by (simp add: clock_of_def)
  ultimately show ?thesis
    using check tls ex unfolding matches_def
    by (intro exI [of _ ?am] exI [of _ ?ss] exI [of _ ?w2] exI) (auto simp: server_session_of_def add_session_def exchange_ok_def)
qed

section \<open>The call\<close>

lemma package_read:
  assumes "texts_ok env" "pack_payload (te_compress env) content = Inr packed" "length content \<le> te_max_message env"
  shows "unpack_payload (te_decompress env) packed (te_max_message env) = Inr content"
  using assms by (intro unpack_pack_lemma) (auto simp: texts_ok_def)

lemma call_read:
  assumes "texts_ok env" "pack_payload (te_compress env) (utf8 (jt_call (te_json env) m p)) = Inr packed"
    and "length (utf8 (jt_call (te_json env) m p)) \<le> te_max_message env"
  shows "parse_call env packed = Inr (m, p)"
  using package_read [OF assms] assms(1) by (simp add: parse_call_def texts_ok_def)

lemma reply_read:
  assumes "texts_ok env" "pack_payload (te_compress env) (utf8 (jt_reply (te_json env) r)) = Inr packed"
    and "length (utf8 (jt_reply (te_json env) r)) \<le> te_max_message env"
  shows "open_answer env packed = Inr r"
  using package_read [OF assms] assms(1) by (simp add: open_answer_def texts_ok_def)

lemma sealed_long:
  assumes "gcm_laws pr" "seal_frame pr key d sid c p = Inr sealed"
  shows "16 \<le> length sealed"
proof -
  have "open_frame pr key d sid c sealed = Inr p" using open_frame_iff_lemma [OF assms(1)] assms(2) by blast
  then show ?thesis by (cases "length sealed < 16") (simp_all add: open_frame_def tag_bytes_def)
qed

text \<open>The other node runs the call once, and its answer is what the caller opens.\<close>

lemma call_runs_lemma:
  assumes laws: "gcm_laws (te_pr other)" and body: "call_body (te_pr other) cs packed = Inr body" "length (cs_sid cs) = 16"
    and s: "map_of (tn_sessions w) (hex_encode (cs_sid cs)) = Some ss" "matches cs ss" "ss_channel_pin ss = Some client"
    and p: "map_of (tn_peers w) (ss_peer_row_id ss) = Some p" "clock_of other w - ss_created_at ss \<le> session_max_age_ms * 2"
    and fresh: "fst (accept_counter (ss_replay ss) (cs_counter cs))"
    and call: "parse_call other packed = Inr (m, params)"
    and run: "te_handler other p m params (tn_world w) = (r, v)"
    and reply: "seal_reply other ss (cs_counter cs) (reply_of r) = Inr sealed"
  shows "\<exists>w'. handle_rpc other (channel_ctx (Some client)) (Some body) w = (RpcSealed sealed, w') \<and>
    tn_world w' = v \<and> tn_accepted w' = (ss_handshake ss, cs_counter cs) # tn_accepted w"
proof -
  obtain frame where frame: "seal_frame (te_pr other) (ss_c2s ss) C2S (ss_sid ss) (cs_counter cs) packed = Inr frame"
    and enc: "encode_request (cs_sid cs) (cs_counter cs) frame = Inr body"
    using body(1) s(2) by (auto simp: call_body_def and_then_Inr matches_def)
  have dec: "decode_request body = Some \<lparr>req_sid = cs_sid cs, req_counter = cs_counter cs, req_sealed = frame\<rparr>"
    using enc body(2) sealed_long [OF laws frame] by (rule decode_encode_request_lemma)
  have opened: "open_frame (te_pr other) (ss_c2s ss) C2S (ss_sid ss) (cs_counter cs) frame = Inr packed"
    using frame by (simp add: open_frame_iff_lemma [OF laws])
  show ?thesis
    using dec s p fresh call run reply opened
    by (simp add: handle_rpc_def Let_def presented_pin_def channel_ctx_def serve_call_def answer_call_def run_call_def use_session_def)
qed

section \<open>A session and a call in one\<close>

text \<open>
  What makes two nodes a working pair for the link of row \<open>rid\<close>: each knows the other under its id with the
  same link key, each presents the certificate the other has pinned, both read the same texts, and the
  handshake they are about to make draws what it should.
\<close>

definition pair_ready :: "('j, 'v) tnode_env \<Rightarrow> ('j, 'v tnode) tnode_env \<Rightarrow> string \<Rightarrow> 'v tnode tnode \<Rightarrow> bool" where
  "pair_ready other env rid n \<longleftrightarrow>
     (\<exists>p q t own client. map_of (tn_peers n) rid = Some p \<and> lp_tls p = Some t \<and> pt_pin t = own \<and>
        te_own_pin other = Some own \<and> te_own_pin env = Some client \<and> length own < 2 ^ 32 \<and> length client < 2 ^ 32 \<and>
        lp_node_id p = te_self other \<and> node_id_ok (te_self env) \<and> node_id_ok (te_self other) \<and>
        peer_by_node_id (te_self env) (tn_world n) = Some q \<and> map_of (tn_peers (tn_world n)) (lp_row_id q) = Some q \<and>
        lp_node_id q = te_self env \<and> lp_link_key q = lp_link_key p \<and> pin_accepted (clock_of other (tn_world n)) q client) \<and>
     exchange_ok (te_pr env) (te_draw env (tn_draws n)) (te_draw other (tn_draws (tn_world n))) \<and>
     te_pr other = te_pr env \<and> te_json other = te_json env \<and> te_compress other = te_compress env \<and>
     te_decompress other = te_decompress env \<and> te_max_message other = te_max_message env \<and>
     te_max_message env < 2 ^ 32 \<and> gcm_laws (te_pr env) \<and> hmac_length (te_pr env) \<and> texts_ok env"

lemma over_channel_sel [simp]:
  "te_pr (over_channel other env) = te_pr env" "te_json (over_channel other env) = te_json env"
  "te_compress (over_channel other env) = te_compress env" "te_decompress (over_channel other env) = te_decompress env"
  "te_self (over_channel other env) = te_self env" "te_own_pin (over_channel other env) = te_own_pin env"
  "te_max_message (over_channel other env) = te_max_message env" "te_draw (over_channel other env) = te_draw env"
  "te_post_pinned (over_channel other env) target = deliver_session other (te_own_pin env)"
  "te_send_pinned (over_channel other env) target = deliver_call other (te_own_pin env)"
  "te_now (over_channel other env) w = te_now other (tn_world w)"
  "texts_ok (over_channel other env) = texts_ok env"
  by (simp_all add: over_channel_def texts_ok_def)

lemma pack_total: "length content < 2 ^ 32 \<Longrightarrow> \<exists>packed. pack_payload compress content = Inr packed"
  by (simp add: pack_payload_def Let_def)

lemma node_id_short: "node_id_ok s \<Longrightarrow> length s < 2 ^ 32"
  by (simp add: node_id_ok_def)

lemma open_over_channel:
  assumes t: "st_tls t = Some tg" "tg_pin tg = own" "te_own_pin env = Some client" "te_own_pin other = Some own"
    and short: "length own < 2 ^ 32" "length client < 2 ^ 32"
    and ids: "st_node_id t = te_self other" "node_id_ok (te_self env)" "node_id_ok (te_self other)"
    and q: "peer_by_node_id (te_self env) (tn_world n) = Some q" "map_of (tn_peers (tn_world n)) (lp_row_id q) = Some q"
      "lp_link_key q = st_link_key t" "pin_accepted (clock_of other (tn_world n)) q client"
    and ex: "exchange_ok (te_pr env) (te_draw env (tn_draws n)) (te_draw other (tn_draws (tn_world n)))"
    and pr: "te_pr other = te_pr env" "hmac_length (te_pr env)"
  shows "\<exists>cs ss w'. open_session (over_channel other env) t n = (Inr cs, n\<lparr>tn_draws := Suc (tn_draws n), tn_world := w'\<rparr>) \<and>
    (\<exists>message. w' = snd (handle_session other (channel_ctx (Some client)) (Some message) (tn_world n))) \<and>
    matches cs ss \<and> map_of (tn_sessions w') (hex_encode (cs_sid cs)) = Some ss \<and> ss_channel_pin ss = Some client \<and>
    ss_peer_row_id ss = lp_row_id q \<and> ss_created_at ss = clock_of other (tn_world n) \<and> ss_replay ss = new_window default_window \<and>
    ss_handshake ss = tn_draws (tn_world n) \<and> cs_counter cs = 0 \<and> length (cs_sid cs) = 16 \<and> tn_world w' = tn_world (tn_world n) \<and>
    tn_accepted w' = tn_accepted (tn_world n) \<and>
    (\<exists>q'. map_of (tn_peers w') (lp_row_id q) = Some q' \<and> lp_row_id q' = lp_row_id q \<and> lp_node_id q' = lp_node_id q)"
proof -
  let ?env = "over_channel other env" and ?d = "te_draw env (tn_draws n)" and ?e = "te_draw other (tn_draws (tn_world n))"
  let ?b = "\<lparr>cb_client = client, cb_server = own\<rparr>"
  define i where "i = client_init ?env t ?d"
  have i: "si_from i = te_self env" "si_to i = te_self other" "si_e i = dr_public ?d" "si_n i = dr_nonce ?d" "si_tls i = Some ?b"
    using t ids by (simp_all add: i_def client_init_def target_binding_def)
  have len: "length (si_e i) = 32" "length (si_n i) = 16" using ex i by (simp_all add: exchange_ok_def)
  have "short_init i" using i len short ids node_id_short by (simp add: short_init_def)
  then obtain mac where mac: "session_init_mac (te_pr env) (st_link_key t) i = Inr mac" "length mac = 32"
    using init_mac_total [OF _ pr(2)] by blast
  have ids': "node_id_ok (si_from i)" "node_id_ok (si_to i)" using i ids by simp_all
  let ?message = "session_message_of i mac" and ?now = "\<lambda>w. te_now ?env w"
  have "parse_session_init ?message =
    Some \<lparr>sr_v = 3, sr_from = si_from i, sr_to = si_to i, sr_e = si_e i, sr_n = si_n i, sr_mac = mac\<rparr>"
    using session_message_read [OF ids' len mac(2)] i by simp
  from server_grants [OF this i(2,5) _ t(4) q(4)] q mac pr i
  have grant: "handle_session other (channel_ctx (Some client)) (Some ?message) (tn_world n) = grant_session other q i (tn_world n)"
    by simp
  have agreed: "\<exists>am cs ss w'. grant_session other q i (tn_world n) = (SessionAccepted am, w') \<and>
    check_accept ?env t ?d (tn_draws n) (200, Some am, own) now = Inr cs \<and> matches cs ss \<and>
    map_of (tn_sessions w') (hex_encode (cs_sid cs)) = Some ss \<and> ss_channel_pin ss = Some client \<and>
    ss_peer_row_id ss = lp_row_id q \<and> ss_created_at ss = clock_of other (tn_world n) \<and> ss_replay ss = new_window default_window \<and>
    ss_handshake ss = tn_draws (tn_world n) \<and> cs_channel cs = ChTls \<and> cs_counter cs = 0 \<and> cs_created_at cs = now \<and> length (cs_sid cs) = 16 \<and>
    tn_world w' = tn_world (tn_world n) \<and> tn_accepted w' = tn_accepted (tn_world n) \<and>
    (\<exists>q'. map_of (tn_peers w') (lp_row_id q) = Some q' \<and> lp_row_id q' = lp_row_id q \<and> lp_node_id q' = lp_node_id q)" for now
    using handshake_agrees_lemma [OF i_def [symmetric] \<open>short_init i\<close> i(5) ex _ pr(1) pr(2) q(3) [symmetric] refl q(2)] by simp
  from agreed [of 0] obtain am w' where granted: "grant_session other q i (tn_world n) = (SessionAccepted am, w')" by blast
  have post: "post_session ?env t ?message (tn_world n) = (Inr (200, Some am, own), w')"
    using t granted grant by (simp add: post_session_def deliver_session_def)
  have opened: "open_session ?env t n =
    (check_accept ?env t ?d (tn_draws n) (200, Some am, own) (?now w'), n\<lparr>tn_draws := Suc (tn_draws n), tn_world := w'\<rparr>)"
    using t mac post unfolding open_session_def Let_def over_channel_sel i_def [symmetric] by simp
  obtain cs ss where cs: "check_accept ?env t ?d (tn_draws n) (200, Some am, own) (?now w') = Inr cs"
    and rest: "matches cs ss \<and> map_of (tn_sessions w') (hex_encode (cs_sid cs)) = Some ss \<and> ss_channel_pin ss = Some client \<and>
    ss_peer_row_id ss = lp_row_id q \<and> ss_created_at ss = clock_of other (tn_world n) \<and> ss_replay ss = new_window default_window \<and>
    ss_handshake ss = tn_draws (tn_world n) \<and> cs_counter cs = 0 \<and> length (cs_sid cs) = 16 \<and> tn_world w' = tn_world (tn_world n) \<and>
    tn_accepted w' = tn_accepted (tn_world n) \<and>
    (\<exists>q'. map_of (tn_peers w') (lp_row_id q) = Some q' \<and> lp_row_id q' = lp_row_id q \<and> lp_node_id q' = lp_node_id q)"
    using agreed [of "?now w'"] granted by auto
  have run: "w' = snd (handle_session other (channel_ctx (Some client)) (Some ?message) (tn_world n))"
    using grant granted by simp
  show ?thesis
  proof (intro exI [of _ cs] exI [of _ ss] exI [of _ w'] conjI)
    show "open_session ?env t n = (Inr cs, n\<lparr>tn_draws := Suc (tn_draws n), tn_world := w'\<rparr>)" using opened cs by simp
    show "\<exists>message. w' = snd (handle_session other (channel_ctx (Some client)) (Some message) (tn_world n))" using run by blast
  qed (use rest in blast)+
qed

lemma seal_frame_total:
  "0 \<le> c \<Longrightarrow> c < 2 ^ 64 \<Longrightarrow> length sid = 16 \<Longrightarrow> \<exists>sealed. seal_frame pr key d sid c p = Inr sealed"
proof -
  assume c: "0 \<le> c" "c < 2 ^ 64" and sid: "length sid = 16"
  have "length (utf8 (label @ ''/frame'')) < 2 ^ 32" "length (utf8 (direction_text d)) < 2 ^ 32"
    by (cases d; simp add: label_def)+
  then obtain aad where "frame_aad d sid c = Inr aad"
    using encode_fields_total [of "[utf8 (label @ ''/frame''), utf8 (direction_text d), sid, be_bytes 8 (nat c)]"] c sid
    by (auto simp: frame_aad_def counter_bytes_def)
  with c show ?thesis by (simp add: seal_frame_def frame_nonce_def counter_bytes_def split: prod.split)
qed

lemma call_body_total:
  assumes "cs_counter s = 0" "length (cs_sid s) = 16"
  shows "\<exists>body. call_body pr s packed = Inr body"
  using seal_frame_total [of 0 "cs_sid s" pr "cs_c2s s" C2S packed] assms
  by (auto simp: call_body_def encode_request_def counter_bytes_def)

lemma seal_reply_total:
  assumes "length (jt_reply (te_json env) r) < 2 ^ 32" "length (ss_sid s) = 16"
  obtains packed sealed where "pack_payload (te_compress env) (utf8 (jt_reply (te_json env) r)) = Inr packed"
    "seal_frame (te_pr env) (ss_s2c s) S2C (ss_sid s) 0 packed = Inr sealed" "seal_reply env s 0 r = Inr sealed"
proof -
  obtain packed where packed: "pack_payload (te_compress env) (utf8 (jt_reply (te_json env) r)) = Inr packed"
    using pack_total [of "utf8 (jt_reply (te_json env) r)" "te_compress env"] assms(1) by auto
  obtain sealed where "seal_frame (te_pr env) (ss_s2c s) S2C (ss_sid s) 0 packed = Inr sealed"
    using seal_frame_total [of 0 "ss_sid s" "te_pr env" "ss_s2c s" S2C packed] assms(2) by auto
  with packed show ?thesis using that by (simp add: seal_reply_def)
qed

lemma ensure_session_new:
  assumes "lp_session (peer_of rid n) = None"
    and "new_session env rid ch (on_peer rid (\<lambda>p. p\<lparr>lp_session := None\<rparr>) n) = (Inr s, n2)"
  shows "ensure_session env rid ch n = (Inr s, on_peer rid (\<lambda>p. p\<lparr>lp_session := Some s\<rparr>) n2)"
  using assms by (simp add: ensure_session_def op_bind_def op_read_def op_write_def op_ok_def session_usable_def)

text \<open>A call answered over the channel: what is sent, and what the answer is opened to.\<close>

lemma send_call_answered:
  assumes ens: "ensure_session env rid ChTls n = (Inr s, n1)" and body: "call_body (te_pr env) s packed = Inr body"
    and target: "pinned_target_of (clock_of env n1) (peer_of rid (take_counter rid s n1)) = Some target"
    and net: "te_send_pinned env target body (tn_world n1) = (Inr (200, sealed), w)"
  shows "send_call env rid ChTls packed n = (Inr (s, 200, Some sealed), (take_counter rid s n1)\<lparr>tn_world := w\<rparr>)"
proof -
  have world: "tn_world (take_counter rid s n1) = tn_world n1" by (simp add: take_counter_def)
  then have clock: "clock_of env (take_counter rid s n1) = clock_of env n1" by (simp add: clock_of_def)
  show ?thesis
    using assms world clock
    by (simp add: send_call_def op_bind_def op_write_def op_lift_def op_ok_def map_error_def send_frame_def on_world_def send_pinned_def)
qed

lemma channel_verified_world [simp]: "tn_world (channel_verified rid n) = tn_world n"
  by (simp add: channel_verified_def Let_def)

lemma note_out_ok_world [simp]: "tn_world (note_out_ok rid ch n) = tn_world n"
  by (simp add: note_out_ok_def)

lemma receive_opened:
  assumes "gcm_laws (te_pr env)" "seal_frame (te_pr env) (cs_s2c s) S2C (cs_sid s) (cs_counter s) packed = Inr sealed"
    and "open_answer env packed = Inr r"
  shows "receive_answer env rid ch s (200, Some sealed) n = (reply_result r, note_out_ok rid ch n)"
  using assms by (simp add: receive_answer_def open_frame_iff_lemma [OF assms(1), THEN iffD2])

lemma first_call_lemma:
  assumes ready: "pair_ready other env rid n"
    and idle: "lp_session (peer_of rid n) = None" "lp_tls_retry_at (peer_of rid n) \<le> clock_of other (tn_world n)"
    and size: "length (jt_call (te_json env) m params) \<le> te_max_message env"
    and reply: "\<And>q. length (jt_reply (te_json env) (reply_of (fst (te_handler other q m params (tn_world (tn_world n)))))) \<le> te_max_message env"
  shows "\<exists>q r v n'. te_handler other q m params (tn_world (tn_world n)) = (r, v) \<and> lp_node_id q = te_self env \<and>
    rpc (over_channel other env) rid m params n = (reply_result (reply_of r), n') \<and> tn_world (tn_world n') = v \<and>
    tn_accepted (tn_world n') = (tn_draws (tn_world n), 0) # tn_accepted (tn_world n) \<and>
    (\<exists>message body sealed. handle_rpc other (channel_ctx (te_own_pin env)) (Some body)
       (snd (handle_session other (channel_ctx (te_own_pin env)) (Some message) (tn_world n))) = (RpcSealed sealed, tn_world n'))"
proof -
  let ?env = "over_channel other env" and ?w = "tn_world n"
  from ready obtain p q t own client where p: "map_of (tn_peers n) rid = Some p" "lp_tls p = Some t" "pt_pin t = own"
      "lp_node_id p = te_self other"
    and pins: "te_own_pin other = Some own" "te_own_pin env = Some client" "length own < 2 ^ 32" "length client < 2 ^ 32"
    and ids: "node_id_ok (te_self env)" "node_id_ok (te_self other)"
    and q: "peer_by_node_id (te_self env) ?w = Some q" "map_of (tn_peers ?w) (lp_row_id q) = Some q"
      "lp_node_id q = te_self env" "lp_link_key q = lp_link_key p" "pin_accepted (clock_of other ?w) q client"
    and ex: "exchange_ok (te_pr env) (te_draw env (tn_draws n)) (te_draw other (tn_draws ?w))"
    and same: "te_pr other = te_pr env" "te_json other = te_json env" "te_compress other = te_compress env"
      "te_decompress other = te_decompress env" "te_max_message other = te_max_message env"
    and laws: "te_max_message env < 2 ^ 32" "gcm_laws (te_pr env)" "hmac_length (te_pr env)" "texts_ok env"
    unfolding pair_ready_def by blast
  have known: "known rid n" and peer: "peer_of rid n = p" using p by (simp_all add: known_def peer_of_def)
  let ?n1 = "on_peer rid (\<lambda>p. p\<lparr>lp_session := None\<rparr>) n"
  have clock: "clock_of ?env ?n1 = clock_of other ?w" "clock_of ?env n = clock_of other ?w" by (simp_all add: clock_of_def)
  have peer1: "peer_of rid ?n1 = p\<lparr>lp_session := None\<rparr>" using peer_of_on_peer [OF known] peer by simp
  let ?t = "peer_target (clock_of other ?w) ChTls (p\<lparr>lp_session := None\<rparr>)"
  obtain target where target: "\<And>p'. lp_tls p' = Some t \<Longrightarrow> pinned_target_of (clock_of other ?w) p' = Some target"
    and pinned: "tg_pin target = own" using p(3) by (simp add: pinned_target_of_def)
  obtain packed where packed: "pack_payload (te_compress env) (utf8 (jt_call (te_json env) m params)) = Inr packed"
    using pack_total [of "utf8 (jt_call (te_json env) m params)"] size laws(1) by auto
  have "\<exists>cs ss w'. open_session ?env ?t ?n1 = (Inr cs, ?n1\<lparr>tn_draws := Suc (tn_draws n), tn_world := w'\<rparr>) \<and>
    (\<exists>message. w' = snd (handle_session other (channel_ctx (Some client)) (Some message) ?w)) \<and>
    matches cs ss \<and> map_of (tn_sessions w') (hex_encode (cs_sid cs)) = Some ss \<and> ss_channel_pin ss = Some client \<and>
    ss_peer_row_id ss = lp_row_id q \<and> ss_created_at ss = clock_of other ?w \<and> ss_replay ss = new_window default_window \<and>
    ss_handshake ss = tn_draws ?w \<and> cs_counter cs = 0 \<and> length (cs_sid cs) = 16 \<and> tn_world w' = tn_world ?w \<and>
    tn_accepted w' = tn_accepted ?w \<and>
    (\<exists>q'. map_of (tn_peers w') (lp_row_id q) = Some q' \<and> lp_row_id q' = lp_row_id q \<and> lp_node_id q' = lp_node_id q)"
    using open_over_channel [of ?t target own env client other ?n1 q] target [of "p\<lparr>lp_session := None\<rparr>"] pinned p pins ids q ex same laws
    by (simp add: peer_target_def)
  then obtain cs ss w' q' message where message: "w' = snd (handle_session other (channel_ctx (Some client)) (Some message) ?w)"
    and opened: "open_session ?env ?t ?n1 = (Inr cs, ?n1\<lparr>tn_draws := Suc (tn_draws n), tn_world := w'\<rparr>)"
    and cs: "matches cs ss" "cs_counter cs = 0" "length (cs_sid cs) = 16"
    and ss: "map_of (tn_sessions w') (hex_encode (cs_sid cs)) = Some ss" "ss_channel_pin ss = Some client"
      "ss_peer_row_id ss = lp_row_id q" "ss_created_at ss = clock_of other ?w" "ss_replay ss = new_window default_window"
      "ss_handshake ss = tn_draws ?w"
    and w': "tn_world w' = tn_world ?w" "tn_accepted w' = tn_accepted ?w"
    and q': "map_of (tn_peers w') (lp_row_id q) = Some q'" "lp_row_id q' = lp_row_id q" "lp_node_id q' = lp_node_id q"
    by blast
  let ?n2 = "?n1\<lparr>tn_draws := Suc (tn_draws n), tn_world := w'\<rparr>" and ?r = "\<lambda>q. te_handler other q m params (tn_world ?w)"
  let ?n3 = "on_peer rid (\<lambda>p. p\<lparr>lp_session := Some cs\<rparr>) ?n2"
  have ens: "ensure_session ?env rid ChTls n = (Inr cs, ?n3)"
    using opened clock peer1 idle(1) by (intro ensure_session_new) (simp_all add: new_session_def)
  obtain body where body: "call_body (te_pr env) cs packed = Inr body" using call_body_total [OF cs(2,3)] by blast
  have young: "clock_of other w' - ss_created_at ss \<le> session_max_age_ms * 2"
    using ss w' by (simp add: clock_of_def session_max_age_ms_def)
  obtain r v where run: "?r q' = (r, v)" by (cases "?r q'")
  have small: "length (jt_reply (te_json env) (reply_of r)) \<le> te_max_message env" using reply [of q'] run by simp
  have "length (ss_sid ss) = 16" using cs by (simp add: matches_def)
  then obtain packed2 sealed where packed2: "pack_payload (te_compress other) (utf8 (jt_reply (te_json other) (reply_of r))) = Inr packed2"
    "seal_frame (te_pr other) (ss_s2c ss) S2C (ss_sid ss) 0 packed2 = Inr sealed" "seal_reply other ss 0 (reply_of r) = Inr sealed"
    using seal_reply_total [of other "reply_of r" ss] small laws(1) same by auto
  have "parse_call env packed = Inr (m, params)" using laws(4) packed size by (intro call_read) simp_all
  then have call: "parse_call other packed = Inr (m, params)" unfolding parse_call_def same .
  have fresh: "fst (accept_counter (ss_replay ss) (cs_counter cs))"
    using ss cs by (simp add: new_window_def accept_counter_def Let_def)
  have "\<exists>w''. handle_rpc other (channel_ctx (Some client)) (Some body) w' = (RpcSealed sealed, w'') \<and>
    tn_world w'' = v \<and> tn_accepted w'' = (ss_handshake ss, cs_counter cs) # tn_accepted w'"
    using call_runs_lemma [of other cs packed body w' ss client q' m params r v sealed]
      laws body cs ss q' young fresh call run packed2 same w' by simp
  then obtain w'' where w'': "handle_rpc other (channel_ctx (Some client)) (Some body) w' = (RpcSealed sealed, w'')"
    "tn_world w'' = v" "tn_accepted w'' = (tn_draws ?w, 0) # tn_accepted ?w"
    using ss cs w' by auto
  have later: "clock_of ?env ?n3 = clock_of other ?w" using w' by (simp add: clock_of_def)
  have "lp_tls (peer_of rid (take_counter rid cs ?n3)) = Some t"
    using p by (simp add: take_counter_def peer_of_def map_of_on_peer)
  then have "pinned_target_of (clock_of ?env ?n3) (peer_of rid (take_counter rid cs ?n3)) = Some target"
    using target later by simp
  moreover have "te_send_pinned ?env target body (tn_world ?n3) = (Inr (200, sealed), w'')"
    using w'' pins by (simp add: deliver_call_def)
  ultimately have sent: "send_call ?env rid ChTls packed n = (Inr (cs, 200, Some sealed), (take_counter rid cs ?n3)\<lparr>tn_world := w''\<rparr>)"
    using ens body by (intro send_call_answered) simp_all
  have answer: "open_answer ?env packed2 = Inr (reply_of r)"
    using reply_read [of ?env "reply_of r" packed2] laws(4) packed2 small same by simp
  have received: "receive_answer ?env rid ChTls cs (200, Some sealed) n4 = (reply_result (reply_of r), note_out_ok rid ChTls n4)" for n4
    using receive_opened [of ?env cs packed2 sealed] laws(2) packed2 cs answer same by (simp add: matches_def)
  have "channel_for (clock_of ?env n) (peer_of rid n) = ChTls"
    using idle(2) p peer clock by (simp add: channel_for_def)
  then have "rpc ?env rid m params n = (reply_result (reply_of r), note_out_ok rid ChTls ((take_counter rid cs ?n3)\<lparr>tn_world := w''\<rparr>))"
    using size packed sent received by (simp add: rpc_def numeral_3_eq_3)
  moreover have "tn_world (note_out_ok rid ChTls ((take_counter rid cs ?n3)\<lparr>tn_world := w''\<rparr>)) = w''" by simp
  ultimately show ?thesis
    using run q(3) q' w'' pins(2) message
    by (intro exI [of _ q'] exI [of _ r] exI [of _ v] exI [of _ "note_out_ok rid ChTls ((take_counter rid cs ?n3)\<lparr>tn_world := w''\<rparr>)"]) auto
qed

end
