(* ===== verification/Transport_Lock.thy ===== *)
theory Transport_Lock
  imports Transport_Facts
begin

text \<open>
  What a link that is locked to the mutually authenticated channel depends on: calls over it never touch a plain
  address other than the ways through a web proxy that the other node offers.
\<close>

section \<open>Replacing the plain network\<close>

abbreviation elsewhere ::
    "(string \<Rightarrow> session_message \<Rightarrow> 'w \<Rightarrow> (call_failure + nat \<times> accept_message option) \<times> 'w) \<Rightarrow>
     (string \<Rightarrow> buffer \<Rightarrow> 'w \<Rightarrow> (call_failure + nat \<times> nat \<times> buffer) \<times> 'w) \<Rightarrow> ('j, 'w) tnode_env \<Rightarrow> ('j, 'w) tnode_env" where
  "elsewhere post send env \<equiv> env\<lparr>te_post := post, te_send := send\<rparr>"

lemma elsewhere_sel:
  "te_pr (elsewhere post send env) = te_pr env" "te_json (elsewhere post send env) = te_json env"
  "te_compress (elsewhere post send env) = te_compress env" "te_decompress (elsewhere post send env) = te_decompress env"
  "te_self (elsewhere post send env) = te_self env" "te_own_pin (elsewhere post send env) = te_own_pin env"
  "te_max_message (elsewhere post send env) = te_max_message env" "te_retry (elsewhere post send env) = te_retry env"
  "te_now (elsewhere post send env) = te_now env" "te_draw (elsewhere post send env) = te_draw env"
  "te_post (elsewhere post send env) = post" "te_send (elsewhere post send env) = send"
  "te_post_pinned (elsewhere post send env) = te_post_pinned env" "te_send_pinned (elsewhere post send env) = te_send_pinned env"
  by simp_all

lemma elsewhere_same:
  "clock_of (elsewhere post send env) = clock_of env"
  "target_binding (elsewhere post send env) = target_binding env"
  "client_init (elsewhere post send env) = client_init env"
  "max_frame_bytes (elsewhere post send env) = max_frame_bytes env"
  "open_answer (elsewhere post send env) = open_answer env"
  "fall_back (elsewhere post send env) = fall_back env"
  "send_pinned (elsewhere post send env) = send_pinned env"
  unfolding fun_eq_iff clock_of_def target_binding_def client_init_def max_frame_bytes_def open_answer_def fall_back_def
    send_pinned_def elsewhere_sel by simp_all

lemma elsewhere_session:
  "session_of_accept (elsewhere post send env) = session_of_accept env"
  "check_accept (elsewhere post send env) = check_accept env"
  "receive_answer (elsewhere post send env) = receive_answer env"
  unfolding fun_eq_iff session_of_accept_def check_accept_def receive_answer_def elsewhere_sel elsewhere_same by simp_all

lemmas elsewhere_unfold = elsewhere_sel elsewhere_same elsewhere_session

section \<open>A locked link\<close>

definition on_channel :: "string set \<Rightarrow> string \<Rightarrow> 'w tnode \<Rightarrow> bool" where
  "on_channel ways rid n \<longleftrightarrow>
     (case map_of (tn_peers n) rid of
        None \<Rightarrow> False
      | Some p \<Rightarrow> lp_tls_locked p \<and> lp_tls p \<noteq> None \<and> set (lp_paths p) \<subseteq> ways \<and> set_option (lp_path_active p) \<subseteq> ways)"

lemma on_channel_peer:
  "on_channel ways rid n \<longleftrightarrow> known rid n \<and> lp_tls_locked (peer_of rid n) \<and> lp_tls (peer_of rid n) \<noteq> None \<and>
    set (lp_paths (peer_of rid n)) \<subseteq> ways \<and> set_option (lp_path_active (peer_of rid n)) \<subseteq> ways"
  by (auto simp: on_channel_def known_def peer_of_def split: option.splits)

lemma on_channel_peers: "tn_peers n' = tn_peers n \<Longrightarrow> on_channel ways rid n \<Longrightarrow> on_channel ways rid n'"
  by (simp add: on_channel_def)

lemma on_channel_on_peer:
  assumes "on_channel ways rid n"
    and "\<And>p. lp_tls_locked (f p) = lp_tls_locked p \<and> lp_tls (f p) = lp_tls p \<and> lp_paths (f p) = lp_paths p"
    and "\<And>p. set_option (lp_path_active p) \<subseteq> ways \<Longrightarrow> set_option (lp_path_active (f p)) \<subseteq> ways"
  shows "on_channel ways rid (on_peer rid f n)"
  using assms by (auto simp: on_channel_def map_of_on_peer split: option.splits)

lemma open_session_peers: "tn_peers (snd (open_session env t n)) = tn_peers n"
  by (auto simp: open_session_def Let_def split: sum.splits prod.splits)

definition agree_on :: "string set \<Rightarrow> ('j, 'w) tnode_env \<Rightarrow> ('j, 'w) tnode_env \<Rightarrow> bool" where
  "agree_on ways env env' \<longleftrightarrow>
     (\<exists>post send. env' = elsewhere post send env \<and> (\<forall>way \<in> ways. post way = te_post env way \<and> send way = te_send env way))"

lemma open_session_elsewhere:
  assumes "agree_on ways env env'" "st_tls t \<noteq> None \<or> st_base_url t \<in> ways"
  shows "open_session env' t n = open_session env t n"
proof -
  from assms(1) obtain post send where env': "env' = elsewhere post send env" and same: "\<And>way. way \<in> ways \<Longrightarrow> post way = te_post env way"
    by (auto simp: agree_on_def)
  have "post_session (elsewhere post send env) t m w = post_session env t m w" for m w
    using assms(2) same by (auto simp: post_session_def split: option.split)
  then have post_same: "post_session (elsewhere post send env) t = post_session env t" by (simp add: fun_eq_iff)
  show ?thesis unfolding env' open_session_def elsewhere_unfold post_same ..
qed

lemma open_ways_elsewhere:
  assumes "agree_on ways env env'" "set ws \<subseteq> ways"
  shows "open_ways env' rid ws failures n = open_ways env rid ws failures n"
  using assms(2)
proof (induction ws arbitrary: failures n)
  case (Cons way ws)
  then show ?case
    using open_session_elsewhere [OF assms(1), of "\<lparr>st_base_url = way, st_node_id = lp_node_id (peer_of rid n), st_link_key = lp_link_key (peer_of rid n), st_tls = None\<rparr>"]
    by (simp add: Let_def split: prod.split sum.split)
qed simp

lemma open_ways_on_channel:
  "on_channel ways rid n \<Longrightarrow> set ws \<subseteq> ways \<Longrightarrow> on_channel ways rid (snd (open_ways env rid ws failures n))"
proof (induction ws arbitrary: failures n)
  case (Cons way ws)
  let ?t = "\<lparr>st_base_url = way, st_node_id = lp_node_id (peer_of rid n), st_link_key = lp_link_key (peer_of rid n), st_tls = None\<rparr>"
  obtain r n1 where opened: "open_session env ?t n = (r, n1)" by (cases "open_session env ?t n")
  then have n1: "on_channel ways rid n1" using Cons.prems(1) open_session_peers [of env ?t n] by (auto intro: on_channel_peers)
  show ?case
  proof (cases r)
    case (Inl e)
    with opened Cons.IH [OF n1] Cons.prems(2) show ?thesis by (simp add: Let_def)
  next
    case (Inr s)
    have "on_channel ways rid (on_peer rid (\<lambda>p. p\<lparr>lp_path_active := Some way\<rparr>) n1)"
      using n1 Cons.prems(2) by (intro on_channel_on_peer) auto
    with opened Inr show ?thesis by (simp add: Let_def)
  qed
qed simp

lemma path_order_set: "set (path_order p) \<subseteq> set (lp_paths p)"
  by (auto simp: path_order_def split: option.splits)

lemma new_session_elsewhere:
  assumes "agree_on ways env env'" "on_channel ways rid n" "ch \<noteq> ChPlain"
  shows "new_session env' rid ch n = new_session env rid ch n" "on_channel ways rid (snd (new_session env rid ch n))"
proof -
  from assms(1) obtain post send where env': "env' = elsewhere post send env" by (auto simp: agree_on_def)
  have ways: "set (path_order (peer_of rid n)) \<subseteq> ways" "lp_tls (peer_of rid n) \<noteq> None"
    using assms(2) path_order_set [of "peer_of rid n"] by (auto simp: on_channel_peer)
  then have "st_tls (peer_target now ChTls (peer_of rid n)) \<noteq> None" for now
    by (simp add: peer_target_def pinned_target_of_def)
  then have "open_session env' (peer_target now ChTls (peer_of rid n)) n = open_session env (peer_target now ChTls (peer_of rid n)) n" for now
    by (intro open_session_elsewhere [OF assms(1)]) simp
  then show "new_session env' rid ch n = new_session env rid ch n"
    using assms(3) open_ways_elsewhere [OF assms(1) ways(1)] by (cases ch) (auto simp: new_session_def open_path_session_def env' elsewhere_same)
  show "on_channel ways rid (snd (new_session env rid ch n))"
    by (simp add: new_session_def open_path_session_def open_ways_on_channel [OF assms(2) ways(1)]
        on_channel_peers [OF open_session_peers assms(2)])
qed

lemma ensure_session_elsewhere:
  assumes agree: "agree_on ways env env'" and on: "on_channel ways rid n" and ch: "ch \<noteq> ChPlain"
  shows "ensure_session env' rid ch n = ensure_session env rid ch n" "on_channel ways rid (snd (ensure_session env rid ch n))"
proof -
  from agree obtain post send where env': "env' = elsewhere post send env" by (auto simp: agree_on_def)
  let ?n = "on_peer rid (\<lambda>p. p\<lparr>lp_session := None\<rparr>) n"
  have n: "on_channel ways rid ?n" using on by (intro on_channel_on_peer) auto
  note new = new_session_elsewhere [OF agree n ch]
  show "ensure_session env' rid ch n = ensure_session env rid ch n"
    using new(1) by (simp add: ensure_session_def op_bind_def op_read_def op_write_def env' elsewhere_same)
  have "on_channel ways rid (on_peer rid (\<lambda>p. p\<lparr>lp_session := Some s\<rparr>) (snd (new_session env rid ch ?n)))" for s
    using new(2) by (intro on_channel_on_peer) auto
  then show "on_channel ways rid (snd (ensure_session env rid ch n))"
    using on new(2) by (auto simp: ensure_session_def op_bind_def op_read_def op_write_def op_ok_def split: prod.split sum.split)
qed

lemma send_frame_elsewhere:
  assumes agree: "agree_on ways env env'" and on: "on_channel ways rid n" and ch: "ch \<noteq> ChPlain"
  shows "send_frame env' rid ch body n = send_frame env rid ch body n" "tn_peers (snd (send_frame env rid ch body n)) = tn_peers n"
proof -
  from agree obtain post send where env': "env' = elsewhere post send env" and same: "\<And>way. way \<in> ways \<Longrightarrow> send way = te_send env way"
    by (auto simp: agree_on_def)
  have "send_plain env' way body w = send_plain env way body w" if "way \<in> ways" for way w
    using same [OF that] unfolding send_plain_def env' elsewhere_unfold by simp
  then have "on_world (send_plain env' way body) n = on_world (send_plain env way body) n" if "way \<in> ways" for way
    using that by (simp add: on_world_def)
  moreover have "base \<in> ways" if "call_base ChPath (peer_of rid n) = Some base" for base
    using that on by (auto simp: call_base_def on_channel_peer)
  moreover have "clock_of env' = clock_of env" "send_pinned env' = send_pinned env" unfolding env' by (rule elsewhere_same)+
  ultimately show "send_frame env' rid ch body n = send_frame env rid ch body n"
    using ch by (cases ch) (auto simp: send_frame_def split: option.split)
  show "tn_peers (snd (send_frame env rid ch body n)) = tn_peers n"
    by (auto simp: send_frame_def on_world_def split: option.split prod.split)
qed

lemma send_call_elsewhere:
  assumes agree: "agree_on ways env env'" and on: "on_channel ways rid n" and ch: "ch \<noteq> ChPlain"
  shows "send_call env' rid ch packed n = send_call env rid ch packed n \<and> on_channel ways rid (snd (send_call env rid ch packed n))"
proof -
  have pr: "te_pr env' = te_pr env" using agree by (auto simp: agree_on_def)
  obtain r n1 where e: "ensure_session env rid ch n = (r, n1)" by (cases "ensure_session env rid ch n")
  with ensure_session_elsewhere [OF agree on ch] have e': "ensure_session env' rid ch n = (r, n1)" and n1: "on_channel ways rid n1" by simp_all
  show ?thesis
  proof (cases r)
    case (Inl err)
    with e e' n1 show ?thesis by (simp add: send_call_def op_bind_def)
  next
    case (Inr s)
    have n2: "on_channel ways rid (take_counter rid s n1)"
    proof -
      have "on_channel ways rid (on_peer rid (\<lambda>p. p\<lparr>lp_session := Some (s\<lparr>cs_counter := cs_counter s + 1\<rparr>)\<rparr>) n1)"
        using n1 by (intro on_channel_on_peer) auto
      then show ?thesis unfolding take_counter_def by (rule on_channel_peers [rotated]) simp
    qed
    note sent = send_frame_elsewhere [OF agree n2 ch]
    have n3: "on_channel ways rid (snd (send_frame env rid ch body (take_counter rid s n1)))" for body
      using on_channel_peers [OF sent(2) n2] .
    show ?thesis
    proof (cases "call_body (te_pr env) s packed")
      case (Inl err)
      with e e' Inr n2 pr show ?thesis
        by (simp add: send_call_def op_bind_def op_write_def op_lift_def map_error_def)
    next
      case (Inr body)
      obtain q n3 where q: "send_frame env rid ch body (take_counter rid s n1) = (q, n3)" by (cases "send_frame env rid ch body (take_counter rid s n1)")
      with n3 [of body] sent(1) [of body] have "send_frame env' rid ch body (take_counter rid s n1) = (q, n3)" "on_channel ways rid n3" by simp_all
      with e e' \<open>r = Inr s\<close> Inr q pr show ?thesis
        by (cases q) (simp_all add: send_call_def op_bind_def op_write_def op_lift_def op_ok_def map_error_def)
    qed
  qed
qed

lemma rpc_attempts_elsewhere:
  assumes agree: "agree_on ways env env'"
  shows "on_channel ways rid n \<Longrightarrow> ch \<noteq> ChPlain \<Longrightarrow> rpc_attempts env' rid packed k ch n = rpc_attempts env rid packed k ch n"
proof (induction k arbitrary: ch n)
  case (Suc k)
  have env': "fall_back env' = fall_back env" "receive_answer env' = receive_answer env"
    using agree by (auto simp: agree_on_def elsewhere_unfold)
  obtain r n1 where sent: "send_call env rid ch packed n = (r, n1)" by (cases "send_call env rid ch packed n")
  with send_call_elsewhere [OF agree Suc.prems, of packed]
  have sent': "send_call env' rid ch packed n = (r, n1)" and n1: "on_channel ways rid n1" by simp_all
  show ?case
  proof (cases r)
    case (Inl err)
    have "on_channel ways rid (fall_back env rid n1)"
      using n1 unfolding fall_back_def by (intro on_channel_on_peer) auto
    moreover have "ch' \<noteq> ChPlain" if "other_way (peer_of rid n1) ch err = Some ch'" for ch'
      using that n1 by (auto simp: other_way_def on_channel_peer split: if_splits)
    ultimately show ?thesis using Inl sent sent' Suc.IH by (simp add: env' split: option.split)
  next
    case (Inr a)
    have "on_channel ways rid (forget_session rid (fst a) n1)"
      using n1 unfolding forget_session_def by (intro on_channel_on_peer) auto
    with Inr sent sent' Suc.IH Suc.prems(2) show ?thesis by (cases a) (simp add: env')
  qed
qed simp

lemma locked_call_lemma:
  assumes agree: "agree_on ways env env'" and on: "on_channel ways rid n"
  shows "rpc env' rid method params n = rpc env rid method params n"
proof -
  have "channel_for now (peer_of rid n) \<noteq> ChPlain" for now
    using on by (auto simp: channel_for_def on_channel_peer)
  moreover have "te_json env' = te_json env" "te_max_message env' = te_max_message env" "te_compress env' = te_compress env"
    "clock_of env' = clock_of env"
    using agree by (auto simp: agree_on_def elsewhere_unfold)
  ultimately show ?thesis
    using rpc_attempts_elsewhere [OF agree on] by (simp add: rpc_def Let_def split: sum.split)
qed

end
