(* ===== verification/Transport_Theorems.thy ===== *)
theory Transport_Theorems
  imports Transport_Link Transport_Lock Sample "HOL-Library.Code_Target_Nat"
begin

text \<open>
  The properties of the calls between nodes, with a small pair of nodes for the witnesses: two peers with
  pinned certificates, a key exchange with a fixed secret and texts whose values are strings.
\<close>

section \<open>A small pair of nodes\<close>

definition channel_primitives :: primitives where
  "channel_primitives = sample_primitives\<lparr>hmac_sha256 := \<lambda>k d. take 32 (d @ replicate 32 0), x25519 := \<lambda>a b. replicate 32 1\<rparr>"

text \<open>Texts that can be read again: every character of a word is marked, a word ends with a dot.\<close>

definition mark :: "string \<Rightarrow> string" where
  "mark s = concat (map (\<lambda>c. [CHR ''x'', c]) s) @ ''.''"

fun unmark :: "string \<Rightarrow> string \<times> string" where
  "unmark (x # c # cs) = (if x = CHR ''x'' then let (w, rest) = unmark cs in (c # w, rest) else ([], c # cs))"
| "unmark s = ([], [])"

lemma unmark_mark [simp]: "unmark (mark s @ t) = (s, t)"
proof (induction s)
  case Nil
  show ?case by (cases t) (auto simp: mark_def)
qed (simp add: mark_def)

definition mark_opt :: "string option \<Rightarrow> string" where
  "mark_opt s = (case s of None \<Rightarrow> ''n'' | Some w \<Rightarrow> CHR ''s'' # mark w)"

definition unmark_opt :: "string \<Rightarrow> string option \<times> string" where
  "unmark_opt s = (if s \<noteq> [] \<and> hd s = CHR ''s'' then let (w, rest) = unmark (tl s) in (Some w, rest) else (None, tl s))"

lemma unmark_opt_mark [simp]: "unmark_opt (mark_opt s @ t) = (s, t)"
  by (simp add: unmark_opt_def mark_opt_def split: option.split)

definition sample_texts :: "string json_texts" where
  "sample_texts =
     \<lparr>jt_call = \<lambda>m p. mark m @ mark p,
      jt_parse_call = \<lambda>s. Some (let (m, rest) = unmark s in (Some m, fst (unmark rest))),
      jt_reply = \<lambda>r. case r of ReplyOk j \<Rightarrow> CHR ''k'' # mark j | ReplyError e m \<Rightarrow> CHR ''e'' # mark_opt e @ mark_opt m,
      jt_parse_reply = \<lambda>s. Some (if s \<noteq> [] \<and> hd s = CHR ''k'' then ReplyOk (fst (unmark (tl s)))
        else let (e, rest) = unmark_opt (tl s) in ReplyError e (fst (unmark_opt rest)))\<rparr>"

lemma sample_texts_read:
  "jt_parse_call sample_texts (jt_call sample_texts m p) = Some (Some m, p)"
  "jt_parse_reply sample_texts (jt_reply sample_texts r) = Some r"
  using unmark_mark [of p "[]"] unmark_mark [of _ "[]"] unmark_opt_mark [of _ "[]"]
  by (auto simp: sample_texts_def Let_def split: reply.split)

definition sample_draw :: "nat \<Rightarrow> drawn" where
  "sample_draw k = \<lparr>dr_private = [], dr_public = replicate 32 (of_nat k), dr_nonce = replicate 16 0, dr_sid = replicate 16 (of_nat k)\<rparr>"

text \<open>The node that answers: its world counts the calls it ran.\<close>

definition sample_answering :: "(string, nat) tnode_env" where
  "sample_answering =
     \<lparr>te_pr = channel_primitives, te_json = sample_texts, te_compress = \<lambda>b. b, te_decompress = \<lambda>b m. Inr b,
      te_self = ''node-bbb'', te_own_pin = Some ''pinB'', te_max_message = 1000, te_retry = 60000, te_now = \<lambda>w. 0,
      te_draw = sample_draw, te_post = \<lambda>b m w. (Inl (OtherError ''none''), w), te_post_pinned = \<lambda>t m w. (Inl (OtherError ''none''), w),
      te_send = \<lambda>b m w. (Inl (OtherError ''none''), w), te_send_pinned = \<lambda>t m w. (Inl (OtherError ''none''), w),
      te_handler = \<lambda>p m params w. (Inr (params @ ''!''), Suc w)\<rparr>"

definition sample_calling :: "(string, nat tnode) tnode_env" where
  "sample_calling =
     \<lparr>te_pr = channel_primitives, te_json = sample_texts, te_compress = \<lambda>b. b, te_decompress = \<lambda>b m. Inr b,
      te_self = ''node-aaa'', te_own_pin = Some ''pinA'', te_max_message = 1000, te_retry = 60000, te_now = \<lambda>w. 0,
      te_draw = sample_draw, te_post = \<lambda>b m w. (Inl (OtherError ''no answer''), w),
      te_post_pinned = \<lambda>t m w. (Inl (TlsChannelError ''unreachable'' ''no answer''), w),
      te_send = \<lambda>b m w. (Inl (OtherError ''no answer''), w), te_send_pinned = \<lambda>t m w. (Inl (OtherError ''no answer''), w),
      te_handler = \<lambda>p m params w. (Inr params, w)\<rparr>"

definition sample_peer :: "string \<Rightarrow> string \<Rightarrow> string \<Rightarrow> link_peer" where
  "sample_peer row node pin =
     \<lparr>lp_row_id = row, lp_node_id = node, lp_base_url = ''http://'' @ node, lp_link_key = [7], lp_session = None,
      lp_tls = Some \<lparr>pt_url = [], pt_endpoints = [], pt_pin = pin, pt_cert_pem = [], pt_previous = None\<rparr>,
      lp_tls_locked = False, lp_tls_out_ok = False, lp_tls_in_ok = False, lp_tls_retry_at = 0, lp_paths = [],
      lp_path_active = None\<rparr>"

definition sample_node :: "link_peer \<Rightarrow> 'w \<Rightarrow> 'w tnode" where
  "sample_node p w =
     \<lparr>tn_peers = [(lp_row_id p, p)], tn_sessions = [], tn_path_ways = False, tn_draws = 0, tn_world = w, tn_sent = [],
      tn_accepted = []\<rparr>"

definition sample_pair :: "nat tnode tnode" where
  "sample_pair = sample_node (sample_peer ''b'' ''node-bbb'' ''pinB'') (sample_node (sample_peer ''a'' ''node-aaa'' ''pinA'') 0)"

lemmas sample_pair_defs = sample_pair_def sample_node_def sample_peer_def sample_calling_def sample_answering_def

lemma channel_gcm: "gcm_laws channel_primitives"
  by (auto simp: gcm_laws_def channel_primitives_def sample_primitives_def)

lemma sample_pair_ready: "pair_ready sample_answering sample_calling ''b'' sample_pair"
proof -
  have "hmac_length channel_primitives" by (auto simp: hmac_length_def channel_primitives_def min_def)
  moreover have "texts_ok sample_calling" using sample_texts_read by (simp add: texts_ok_def sample_calling_def)
  moreover have "exchange_ok channel_primitives (sample_draw 0) (sample_draw 0)"
    by (simp add: exchange_ok_def sample_draw_def channel_primitives_def list_all_iff)
  moreover have "node_id_ok ''node-aaa'' \<and> node_id_ok ''node-bbb''" by code_simp
  ultimately show ?thesis
    using channel_gcm
    by (simp add: pair_ready_def sample_pair_defs peer_by_node_id_def pin_accepted_def)
qed

lemma sample_start: "node_start sample_pair" "node_start (tn_world sample_pair)"
  by (simp_all add: node_start_def sample_pair_defs)

text \<open>The first call of the sample pair, and the steps it is for both nodes.\<close>

lemma sample_call:
  obtains n' message body sealed where
    "rpc (over_channel sample_answering sample_calling) ''b'' ''hb'' ''x'' sample_pair = (Inr ''x!'', n')"
    "tn_world (tn_world n') = 1" "tn_accepted (tn_world n') = [(0, 0)]"
    "handle_rpc sample_answering (channel_ctx (Some ''pinA'')) (Some body)
       (snd (handle_session sample_answering (channel_ctx (Some ''pinA'')) (Some message) (tn_world sample_pair))) =
     (RpcSealed sealed, tn_world n')"
proof -
  have "length (jt_call (te_json sample_calling) ''hb'' ''x'') \<le> te_max_message sample_calling"
    by (simp add: sample_calling_def sample_texts_def mark_def)
  moreover have "length (jt_reply (te_json sample_calling)
      (reply_of (fst (te_handler sample_answering q ''hb'' ''x'' (tn_world (tn_world sample_pair)))))) \<le> te_max_message sample_calling" for q
    by (simp add: sample_pair_defs sample_texts_def reply_of_def mark_def)
  moreover have "lp_session (peer_of ''b'' sample_pair) = None"
    "lp_tls_retry_at (peer_of ''b'' sample_pair) \<le> clock_of sample_answering (tn_world sample_pair)"
    by (simp_all add: peer_of_def sample_pair_defs clock_of_def)
  ultimately have "\<exists>q r v n'. te_handler sample_answering q ''hb'' ''x'' (tn_world (tn_world sample_pair)) = (r, v) \<and>
    lp_node_id q = te_self sample_calling \<and>
    rpc (over_channel sample_answering sample_calling) ''b'' ''hb'' ''x'' sample_pair = (reply_result (reply_of r), n') \<and>
    tn_world (tn_world n') = v \<and>
    tn_accepted (tn_world n') = (tn_draws (tn_world sample_pair), 0) # tn_accepted (tn_world sample_pair) \<and>
    (\<exists>message body sealed. handle_rpc sample_answering (channel_ctx (te_own_pin sample_calling)) (Some body)
       (snd (handle_session sample_answering (channel_ctx (te_own_pin sample_calling)) (Some message) (tn_world sample_pair))) =
       (RpcSealed sealed, tn_world n'))"
    by (intro first_call_lemma [OF sample_pair_ready])
  moreover have "te_own_pin sample_calling = Some ''pinA''" by (simp add: sample_calling_def)
  moreover have "te_handler sample_answering q ''hb'' ''x'' w = (Inr ''x!'', Suc w)" for q w
    by (simp add: sample_answering_def)
  moreover have "tn_draws (tn_world sample_pair) = 0" "tn_accepted (tn_world sample_pair) = []" "tn_world (tn_world sample_pair) = 0"
    by (simp_all add: sample_pair_defs)
  ultimately have "\<exists>n' message body sealed.
    rpc (over_channel sample_answering sample_calling) ''b'' ''hb'' ''x'' sample_pair = (Inr ''x!'', n') \<and>
    tn_world (tn_world n') = 1 \<and> tn_accepted (tn_world n') = [(0, 0)] \<and>
    handle_rpc sample_answering (channel_ctx (Some ''pinA'')) (Some body)
       (snd (handle_session sample_answering (channel_ctx (Some ''pinA'')) (Some message) (tn_world sample_pair))) =
     (RpcSealed sealed, tn_world n')"
    by (auto simp: reply_of_def reply_result_def)
  then show ?thesis using that by blast
qed

lemma sample_answer_steps:
  assumes "handle_rpc sample_answering ctx (Some body) (snd (handle_session sample_answering ctx' (Some message) n)) = (response, n')"
  shows "node_steps sample_answering n n'"
proof -
  have "node_step sample_answering n (snd (handle_session sample_answering ctx' (Some message) n))" by (rule node_step.answer_session)
  moreover have "node_step sample_answering (snd (handle_session sample_answering ctx' (Some message) n)) n'"
    using node_step.answer_rpc [of sample_answering _ ctx "Some body"] assms by (metis snd_conv)
  ultimately show ?thesis by (blast intro: rtranclp.rtrancl_into_rtrancl)
qed

lemma sample_call_steps:
  "rpc (over_channel sample_answering sample_calling) ''b'' m params sample_pair = (r, n') \<Longrightarrow>
    node_steps (over_channel sample_answering sample_calling) sample_pair n'"
  using rpc_steps [OF _ node_start_ok [OF sample_start(1)], of "''b''" "over_channel sample_answering sample_calling" m params]
  by (simp add: known_def sample_pair_defs)

section \<open>Calls are run once\<close>

text \<open>C8: Whatever handshakes, requests, replays and calls of its own a node handles, in whatever order, no
  counter is ever sealed twice under one handshake, so no nonce of AES-GCM is used twice, and no counter is
  accepted twice under one handshake, so no call is run twice and no two answers share a nonce.\<close>

theorem counters_are_used_once:
  assumes "node_start n0" "node_steps env n0 n"
  shows "distinct (tn_sent n) \<and> distinct (tn_accepted n)"
  using node_ok_steps [OF assms(2) node_start_ok [OF assms(1)]]
  by (simp add: node_ok_def sent_ok_def accepted_ok_def)

lemma counters_are_used_once_witness:
  "\<exists>n'. rpc (over_channel sample_answering sample_calling) ''b'' ''hb'' ''x'' sample_pair = (Inr ''x!'', n') \<and>
    distinct (tn_sent n') \<and> distinct (tn_accepted (tn_world n')) \<and> tn_accepted (tn_world n') = [(0, 0)]"
proof -
  obtain n' message body sealed where
    run: "rpc (over_channel sample_answering sample_calling) ''b'' ''hb'' ''x'' sample_pair = (Inr ''x!'', n')"
    and world: "tn_world (tn_world n') = 1" and acc: "tn_accepted (tn_world n') = [(0, 0)]"
    and answered: "handle_rpc sample_answering (channel_ctx (Some ''pinA'')) (Some body)
       (snd (handle_session sample_answering (channel_ctx (Some ''pinA'')) (Some message) (tn_world sample_pair))) =
     (RpcSealed sealed, tn_world n')" by (rule sample_call)
  from counters_are_used_once [OF sample_start(1) sample_call_steps [OF run]]
    counters_are_used_once [OF sample_start(2) sample_answer_steps [OF answered]] run acc
  show ?thesis by blast
qed

text \<open>C15: In every state a node can reach, a peer has at most four sessions, and unless the node offers a way
  through its web proxy, no session outside the mutually authenticated channel belongs to a link that is locked
  to it: locking a link, refusing handshakes and withdrawing the last way together leave none behind.\<close>

theorem sessions_respect_the_lock:
  assumes "node_start n0" "node_steps env n0 n"
  shows "length (sessions_of rid (tn_sessions n)) \<le> 4 \<and>
    (\<not> tn_path_ways n \<longrightarrow> list_all (\<lambda>(k, s). \<not> unpinned_of_locked n s) (tn_sessions n))"
  using node_ok_steps [OF assms(2) node_start_ok [OF assms(1)]]
  by (auto simp: node_ok_def few_sessions_def max_server_sessions_per_peer_def locked_ok_def unpinned_of_locked_iff list_all_iff)

lemma sessions_respect_the_lock_witness:
  "\<exists>n :: nat tnode. tn_accepted n = [(0, 0)] \<and> length (sessions_of ''a'' (tn_sessions n)) \<le> 4 \<and>
    list_all (\<lambda>(k, s). \<not> unpinned_of_locked n s) (tn_sessions n)"
proof -
  obtain n' message body sealed where
    run: "rpc (over_channel sample_answering sample_calling) ''b'' ''hb'' ''x'' sample_pair = (Inr ''x!'', n')"
    and world: "tn_world (tn_world n') = 1" and acc: "tn_accepted (tn_world n') = [(0, 0)]"
    and answered: "handle_rpc sample_answering (channel_ctx (Some ''pinA'')) (Some body)
       (snd (handle_session sample_answering (channel_ctx (Some ''pinA'')) (Some message) (tn_world sample_pair))) =
     (RpcSealed sealed, tn_world n')" by (rule sample_call)
  let ?n = "update_path_ways False (tn_world n')"
  have "node_steps sample_answering (tn_world sample_pair) ?n"
    using sample_answer_steps [OF answered] node_step.offer by (rule rtranclp.rtrancl_into_rtrancl)
  from sessions_respect_the_lock [OF sample_start(2) this, of "''a''"]
  have "length (sessions_of ''a'' (tn_sessions ?n)) \<le> 4 \<and> (\<not> tn_path_ways ?n \<longrightarrow> list_all (\<lambda>(k, s). \<not> unpinned_of_locked ?n s) (tn_sessions ?n))" .
  moreover have "\<not> tn_path_ways ?n" "tn_accepted ?n = [(0, 0)]"
    using acc by (simp_all add: update_path_ways_def drop_unpinned_sessions_of_locked_peers_def Let_def)
  ultimately show ?thesis by (intro exI [of _ ?n]) simp
qed

text \<open>C9: A request leaves the world of the node and its record of accepted calls untouched and is refused, or it
  names a session in use that is young enough and was opened over a connection with the very certificate the
  request came with, its frame is what the holder of the session's key sealed for this direction, session and
  counter, and the counter was never accepted before.\<close>

theorem only_genuine_calls_run:
  assumes "gcm_laws (te_pr env)" "node_start n0" "node_steps env n0 n" "handle_rpc env ctx body n = (response, n')"
  shows "(tn_world n' = tn_world n \<and> tn_accepted n' = tn_accepted n \<and> (\<exists>status. response = RpcRefused status)) \<or>
    (\<exists>b rq s p plaintext. body = Some b \<and> decode_request b = Some rq \<and>
       map_of (tn_sessions n) (hex_encode (req_sid rq)) = Some s \<and> map_of (tn_peers n) (ss_peer_row_id s) = Some p \<and>
       clock_of env n - ss_created_at s \<le> 2 * session_max_age_ms \<and> ss_channel_pin s = presented_pin ctx \<and>
       seal_frame (te_pr env) (ss_c2s s) C2S (ss_sid s) (req_counter rq) plaintext = Inr (req_sealed rq) \<and>
       (ss_handshake s, req_counter rq) \<notin> set (tn_accepted n) \<and>
       tn_accepted n' = (ss_handshake s, req_counter rq) # tn_accepted n)"
proof (rule handle_rpc_cases [of env ctx body n])
  fix status assume "handle_rpc env ctx body n = (RpcRefused status, n)"
  with assms(4) have "response = RpcRefused status" "n' = n" by simp_all
  then show ?thesis by simp
next
  fix key assume "handle_rpc env ctx body n = (RpcRefused 401, forget_server_session key n)"
  with assms(4) show ?thesis by (auto simp: forget_server_session_def)
next
  fix b rq s p plaintext
  assume b: "body = Some b" "decode_request b = Some rq" "map_of (tn_sessions n) (hex_encode (req_sid rq)) = Some s"
      "map_of (tn_peers n) (ss_peer_row_id s) = Some p" "clock_of env n - ss_created_at s \<le> session_max_age_ms * 2"
      "ss_channel_pin s = presented_pin ctx"
    and opened: "open_frame (te_pr env) (ss_c2s s) C2S (ss_sid s) (req_counter rq) (req_sealed rq) = Inr plaintext"
    and fresh: "fst (accept_counter (ss_replay s) (req_counter rq))"
    and run: "handle_rpc env ctx body n = answer_call env p s (req_counter rq) plaintext
      ((use_session (hex_encode (req_sid rq)) (req_counter rq) (clock_of env n) n)
         \<lparr>tn_accepted := (ss_handshake s, req_counter rq) # tn_accepted n\<rparr>)" (is "_ = answer_call _ _ _ _ _ ?n1")
  have "accepted_ok n" using node_ok_steps [OF assms(3) node_start_ok [OF assms(2)]] by (simp add: node_ok_def)
  from accepted_ok_use(2) [OF this b(3) fresh] have "(ss_handshake s, req_counter rq) \<notin> set (tn_accepted n)" .
  moreover have "tn_accepted n' = (ss_handshake s, req_counter rq) # tn_accepted n"
  proof -
    have "tn_accepted (snd (answer_call env p s (req_counter rq) plaintext m)) = tn_accepted m" for m
      using answer_call_world [of env p s "req_counter rq" plaintext m] by auto
    from this [of ?n1] show ?thesis unfolding run [symmetric] assms(4) by simp
  qed
  moreover have "seal_frame (te_pr env) (ss_c2s s) C2S (ss_sid s) (req_counter rq) plaintext = Inr (req_sealed rq)"
    using opened by (simp add: open_frame_iff_lemma [OF assms(1)])
  ultimately show ?thesis using b by (intro disjI2) (auto simp: mult.commute)
qed

lemma only_genuine_calls_run_witness:
  "\<exists>b rq (s :: server_session) n n' sealed plaintext. handle_rpc sample_answering (channel_ctx (Some ''pinA'')) (Some b) n = (RpcSealed sealed, n') \<and>
    decode_request b = Some rq \<and> ss_channel_pin s = Some ''pinA'' \<and> tn_accepted n' = (ss_handshake s, req_counter rq) # tn_accepted n \<and>
    seal_frame channel_primitives (ss_c2s s) C2S (ss_sid s) (req_counter rq) plaintext = Inr (req_sealed rq)"
proof -
  obtain n' message body sealed where
    run: "rpc (over_channel sample_answering sample_calling) ''b'' ''hb'' ''x'' sample_pair = (Inr ''x!'', n')"
    and world: "tn_world (tn_world n') = 1" and acc: "tn_accepted (tn_world n') = [(0, 0)]"
    and answered: "handle_rpc sample_answering (channel_ctx (Some ''pinA'')) (Some body)
       (snd (handle_session sample_answering (channel_ctx (Some ''pinA'')) (Some message) (tn_world sample_pair))) =
     (RpcSealed sealed, tn_world n')" by (rule sample_call)
  let ?n = "snd (handle_session sample_answering (channel_ctx (Some ''pinA'')) (Some message) (tn_world sample_pair))"
  have steps: "node_steps sample_answering (tn_world sample_pair) ?n"
    by (rule r_into_rtranclp, rule node_step.answer_session)
  have pr: "te_pr sample_answering = channel_primitives" by (simp add: sample_answering_def)
  have pin: "presented_pin (channel_ctx (Some ''pinA'')) = Some ''pinA''" by (simp add: presented_pin_def channel_ctx_def)
  from only_genuine_calls_run [OF channel_gcm [folded pr] sample_start(2) steps answered]
  have "\<exists>rq (s :: server_session) plaintext. decode_request body = Some rq \<and> ss_channel_pin s = Some ''pinA'' \<and>
    seal_frame channel_primitives (ss_c2s s) C2S (ss_sid s) (req_counter rq) plaintext = Inr (req_sealed rq) \<and>
    tn_accepted (tn_world n') = (ss_handshake s, req_counter rq) # tn_accepted ?n"
    unfolding pr pin
    apply (elim disjE exE conjE)
    subgoal by simp
    subgoal for b rq s p plaintext by (intro exI [of _ rq] exI [of _ s] exI [of _ plaintext]) simp
    done
  with answered show ?thesis by blast
qed

section \<open>The whole way of a call\<close>

text \<open>C10: Between two nodes that have pinned each other's certificate and share a link key, the first call opens a
  session over the channel and is run exactly once by the other node, for the peer that made it, and the caller
  gets what the function answering calls returned: its result, or the error it threw.\<close>

theorem first_call_over_the_channel:
  assumes "pair_ready other env rid n"
    and "lp_session (peer_of rid n) = None" "lp_tls_retry_at (peer_of rid n) \<le> clock_of other (tn_world n)"
    and "length (jt_call (te_json env) m params) \<le> te_max_message env"
    and "\<And>q. length (jt_reply (te_json env) (reply_of (fst (te_handler other q m params (tn_world (tn_world n)))))) \<le> te_max_message env"
  shows "\<exists>q r v n'. te_handler other q m params (tn_world (tn_world n)) = (r, v) \<and> lp_node_id q = te_self env \<and>
    rpc (over_channel other env) rid m params n = (reply_result (reply_of r), n') \<and> tn_world (tn_world n') = v \<and>
    tn_accepted (tn_world n') = (tn_draws (tn_world n), 0) # tn_accepted (tn_world n)"
  using first_call_lemma [OF assms] by blast

lemma first_call_over_the_channel_witness:
  "\<exists>n'. rpc (over_channel sample_answering sample_calling) ''b'' ''hb'' ''x'' sample_pair = (Inr ''x!'', n') \<and>
    tn_world (tn_world n') = 1 \<and> tn_accepted (tn_world n') = [(0, 0)]"
proof -
  have "length (jt_call (te_json sample_calling) ''hb'' ''x'') \<le> te_max_message sample_calling"
    by (simp add: sample_calling_def sample_texts_def mark_def)
  moreover have "length (jt_reply (te_json sample_calling)
      (reply_of (fst (te_handler sample_answering q ''hb'' ''x'' (tn_world (tn_world sample_pair)))))) \<le> te_max_message sample_calling" for q
    by (simp add: sample_pair_defs sample_texts_def reply_of_def mark_def)
  moreover have "lp_session (peer_of ''b'' sample_pair) = None"
    "lp_tls_retry_at (peer_of ''b'' sample_pair) \<le> clock_of sample_answering (tn_world sample_pair)"
    by (simp_all add: peer_of_def sample_pair_defs clock_of_def)
  ultimately have "\<exists>q r v n'. te_handler sample_answering q ''hb'' ''x'' (tn_world (tn_world sample_pair)) = (r, v) \<and>
    lp_node_id q = te_self sample_calling \<and>
    rpc (over_channel sample_answering sample_calling) ''b'' ''hb'' ''x'' sample_pair = (reply_result (reply_of r), n') \<and>
    tn_world (tn_world n') = v \<and>
    tn_accepted (tn_world n') = (tn_draws (tn_world sample_pair), 0) # tn_accepted (tn_world sample_pair)"
    by (intro first_call_over_the_channel [OF sample_pair_ready])
  then show ?thesis by (auto simp: sample_pair_defs reply_of_def reply_result_def)
qed

section \<open>Locked links\<close>

text \<open>C14: A link that is locked to the mutually authenticated channel, and whose certificate is known, depends on
  nothing outside it: a call gives the same result and leaves the same state whatever answers at any plain address
  other than the ways through a web proxy that the other node offers.\<close>

theorem locked_link_avoids_the_plain_way:
  assumes "known rid n" "lp_tls_locked (peer_of rid n)" "lp_tls (peer_of rid n) \<noteq> None"
    and "\<And>way. way \<in> set (lp_paths (peer_of rid n)) \<or> lp_path_active (peer_of rid n) = Some way \<Longrightarrow>
      post way = te_post env way \<and> send way = te_send env way"
  shows "rpc (elsewhere post send env) rid m params n = rpc env rid m params n"
proof (rule locked_call_lemma)
  let ?ways = "set (lp_paths (peer_of rid n)) \<union> set_option (lp_path_active (peer_of rid n))"
  have "post way = te_post env way \<and> send way = te_send env way" if "way \<in> ?ways" for way
    using that assms(4) [of way] by auto
  then show "agree_on ?ways env (elsewhere post send env)" unfolding agree_on_def by blast
  show "on_channel ?ways rid n" using assms(1-3) by (simp add: on_channel_peer)
qed

definition sample_locked :: "nat tnode tnode" where
  "sample_locked = on_peer ''b'' (\<lambda>p. p\<lparr>lp_tls_locked := True\<rparr>) sample_pair"

lemma locked_link_avoids_the_plain_way_witness:
  "rpc (elsewhere (\<lambda>base m w. (Inr (200, None), w)) (\<lambda>base body w. (Inr (200, 0, []), w)) sample_calling) ''b'' ''hb'' ''x'' sample_locked =
   rpc sample_calling ''b'' ''hb'' ''x'' sample_locked \<and> lp_tls_locked (peer_of ''b'' sample_locked)"
proof
  have peer: "peer_of ''b'' sample_locked = (sample_peer ''b'' ''node-bbb'' ''pinB'')\<lparr>lp_tls_locked := True\<rparr>" and known: "known ''b'' sample_locked"
    by (simp_all add: peer_of_def known_def sample_locked_def map_of_on_peer sample_pair_defs)
  show "lp_tls_locked (peer_of ''b'' sample_locked)" by (simp add: peer)
  show "rpc (elsewhere (\<lambda>base m w. (Inr (200, None), w)) (\<lambda>base body w. (Inr (200, 0, []), w)) sample_calling) ''b'' ''hb'' ''x'' sample_locked =
    rpc sample_calling ''b'' ''hb'' ''x'' sample_locked"
    by (rule locked_link_avoids_the_plain_way [OF known]) (simp_all add: peer sample_peer_def)
qed

text \<open>C40: A link that is locked but whose stored certificate has become unusable is called over the plain address all
  the same: the first thing a call does is to send a handshake without channel binding there, and what that address
  answers decides the call.\<close>

theorem locked_link_without_certificate_goes_plain:
  assumes "known rid n" "lp_tls (peer_of rid n) = None" "lp_session (peer_of rid n) = None"
    and "length (jt_call (te_json env) m params) \<le> te_max_message env" "te_max_message env < 2 ^ 32"
    and "session_init_mac (te_pr env) (lp_link_key (peer_of rid n))
      (client_init env (peer_target (clock_of env n) ChPlain (peer_of rid n)) (te_draw env (tn_draws n))) = Inr mac"
    and "te_post env (lp_base_url (peer_of rid n)) (session_message_of
      (client_init env (peer_target (clock_of env n) ChPlain (peer_of rid n)) (te_draw env (tn_draws n))) mac) (tn_world n) = (Inl e, w)"
  shows "sm_v (session_message_of
      (client_init env (peer_target (clock_of env n) ChPlain (peer_of rid n)) (te_draw env (tn_draws n))) mac) = 2 \<and>
    (\<exists>n'. rpc env rid m params n = (Inl e, n') \<and> tn_world n' = w)"
proof
  let ?t = "peer_target (clock_of env n) ChPlain (peer_of rid n)"
  let ?n1 = "on_peer rid (\<lambda>p. p\<lparr>lp_session := None\<rparr>) n"
  have tls: "st_tls ?t = None" "st_base_url ?t = lp_base_url (peer_of rid n)" "st_link_key ?t = lp_link_key (peer_of rid n)"
    by (simp_all add: peer_target_def)
  have init: "si_tls (client_init env ?t d) = None" for d by (simp add: client_init_def target_binding_def tls)
  then show "sm_v (session_message_of (client_init env ?t (te_draw env (tn_draws n))) mac) = 2" by (simp add: session_message_of_def)
  have peer: "peer_target (clock_of env ?n1) ChPlain (peer_of rid ?n1) = ?t"
    using peer_of_on_peer [OF assms(1)] by (simp add: peer_target_def clock_of_def)
  obtain packed where packed: "pack_payload (te_compress env) (utf8 (jt_call (te_json env) m params)) = Inr packed"
    using pack_total [of "utf8 (jt_call (te_json env) m params)"] assms(4,5) by auto
  have "open_session env ?t ?n1 = (Inl e, ?n1\<lparr>tn_draws := Suc (tn_draws n), tn_world := w\<rparr>)"
    using assms(6,7) by (simp add: open_session_def tls Let_def post_session_def)
  then have "send_call env rid ChPlain packed n = (Inl e, ?n1\<lparr>tn_draws := Suc (tn_draws n), tn_world := w\<rparr>)"
    using assms(3) peer
    by (simp add: send_call_def ensure_session_def op_bind_def op_read_def op_write_def session_usable_def new_session_def)
  moreover have "channel_for (clock_of env n) (peer_of rid n) = ChPlain" using assms(2) by (simp add: channel_for_def)
  ultimately show "\<exists>n'. rpc env rid m params n = (Inl e, n') \<and> tn_world n' = w"
    using assms(4) packed by (simp add: rpc_def numeral_3_eq_3 other_way_def)
qed

definition sample_bare :: "nat tnode tnode" where
  "sample_bare = on_peer ''b'' (\<lambda>p. p\<lparr>lp_tls_locked := True, lp_tls := None\<rparr>) sample_pair"

lemma locked_link_without_certificate_goes_plain_witness:
  "lp_tls_locked (peer_of ''b'' sample_bare) \<and>
    (\<exists>n'. rpc sample_calling ''b'' ''hb'' ''x'' sample_bare = (Inl (OtherError ''no answer''), n') \<and> tn_world n' = tn_world sample_bare)"
proof
  have peer: "peer_of ''b'' sample_bare = (sample_peer ''b'' ''node-bbb'' ''pinB'')\<lparr>lp_tls_locked := True, lp_tls := None\<rparr>"
    and known: "known ''b'' sample_bare"
    by (simp_all add: peer_of_def known_def sample_bare_def map_of_on_peer sample_pair_defs)
  show "lp_tls_locked (peer_of ''b'' sample_bare)" by (simp add: peer)
  let ?i = "client_init sample_calling (peer_target (clock_of sample_calling sample_bare) ChPlain (peer_of ''b'' sample_bare))
    (te_draw sample_calling (tn_draws sample_bare))"
  have "short_init ?i"
    by (simp add: short_init_def client_init_def peer_target_def target_binding_def peer sample_peer_def sample_calling_def sample_draw_def)
  moreover have "hmac_length (te_pr sample_calling)"
    by (auto simp: hmac_length_def sample_calling_def channel_primitives_def min_def)
  ultimately obtain mac where mac: "session_init_mac (te_pr sample_calling) (lp_link_key (peer_of ''b'' sample_bare)) ?i = Inr mac"
    using init_mac_total by blast
  have "te_post sample_calling base message w = (Inl (OtherError ''no answer''), w)" for base message w
    by (simp add: sample_calling_def)
  moreover have "lp_tls (peer_of ''b'' sample_bare) = None" "lp_session (peer_of ''b'' sample_bare) = None"
    by (simp_all add: peer sample_peer_def)
  moreover have "length (jt_call (te_json sample_calling) ''hb'' ''x'') \<le> te_max_message sample_calling" "te_max_message sample_calling < 2 ^ 32"
    by (simp_all add: sample_calling_def sample_texts_def mark_def)
  ultimately show "\<exists>n'. rpc sample_calling ''b'' ''hb'' ''x'' sample_bare = (Inl (OtherError ''no answer''), n') \<and> tn_world n' = tn_world sample_bare"
    using locked_link_without_certificate_goes_plain [OF known _ _ _ _ mac] by blast
qed

text \<open>C39: When the other node withdraws the way through its web proxy that is in use and offers others instead, calls
  over the link fail until the channel is tried again: the session on the withdrawn way is kept, so none of the ways
  now offered is ever tried.\<close>

theorem withdrawn_way_blocks_calls:
  assumes "known rid n" "peer_of rid n = p" "lp_tls_locked p" "lp_tls p \<noteq> None" "clock_of env n < lp_tls_retry_at p"
    and "lp_session p = Some s" "session_usable ChPath (clock_of env n) (Some s)" "call_body (te_pr env) s packed = Inr body"
    and "lp_path_active p = Some way" "way \<noteq> []"
    and "absorb_paths parse_way advertised p = q" "lp_paths q \<noteq> []" "way \<notin> set (lp_paths q)" "way \<in> set (lp_paths p)"
    and "length (jt_call (te_json env) m params) \<le> te_max_message env"
    and "pack_payload (te_compress env) (utf8 (jt_call (te_json env) m params)) = Inr packed"
  shows "\<exists>n'. rpc env rid m params (on_peer rid (absorb_paths parse_way advertised) n) =
      (Inl (RpcError ''session'' ''no way through the web proxy is in use''), n') \<and>
    peer_of rid n' = q\<lparr>lp_session := Some (s\<lparr>cs_counter := cs_counter s + 1\<rparr>)\<rparr> \<and> tn_world n' = tn_world n"
proof -
  let ?n = "on_peer rid (absorb_paths parse_way advertised) n"
  have q: "lp_tls_locked q" "lp_tls q \<noteq> None" "lp_tls_retry_at q = lp_tls_retry_at p" "lp_session q = Some s" "lp_path_active q = None"
  proof -
    let ?ways = "take 8 (List.map_filter parse_way advertised)"
    have "join_with '' '' ?ways \<noteq> join_with '' '' (lp_paths p)"
      using assms(11,13,14) unfolding absorb_paths_def Let_def by (metis (full_types))
    then have q_eq: "q = p\<lparr>lp_paths := ?ways, lp_path_active := (if way \<noteq> [] \<and> way \<notin> set ?ways then None else Some way)\<rparr>"
      unfolding assms(11) [symmetric] absorb_paths_def Let_def assms(9) by (simp only: if_False option.case)
    then have "way \<notin> set ?ways" using assms(13) by simp
    with q_eq assms(3,4,6,10) show "lp_tls_locked q" "lp_tls q \<noteq> None" "lp_tls_retry_at q = lp_tls_retry_at p"
      "lp_session q = Some s" "lp_path_active q = None" by simp_all
  qed
  have peer: "peer_of rid ?n = q" using peer_of_on_peer [OF assms(1)] assms(2,11) by simp
  have clock: "clock_of env ?n = clock_of env n" by (simp add: clock_of_def)
  have ch: "channel_for (clock_of env ?n) (peer_of rid ?n) = ChPath"
    using q assms(5,12) clock by (simp add: channel_for_def peer)
  have ens: "ensure_session env rid ChPath ?n = (Inr s, ?n)"
    using q assms(7) clock by (simp add: ensure_session_def op_bind_def op_read_def op_ok_def peer)
  have taken: "peer_of rid (take_counter rid s ?n) = q\<lparr>lp_session := Some (s\<lparr>cs_counter := cs_counter s + 1\<rparr>)\<rparr>"
    using peer_of_on_peer [of rid ?n] assms(1) peer by (simp add: take_counter_def peer_of_def)
  then have "send_call env rid ChPath packed ?n =
    (Inl (RpcError ''session'' ''no way through the web proxy is in use''), take_counter rid s ?n)"
    using ens assms(8) q
    by (simp add: send_call_def op_bind_def op_write_def op_lift_def map_error_def send_frame_def call_base_def)
  then have "rpc env rid m params ?n = (Inl (RpcError ''session'' ''no way through the web proxy is in use''), take_counter rid s ?n)"
    using ch assms(15,16) by (simp add: rpc_def numeral_3_eq_3 other_way_def)
  with taken show ?thesis by (simp add: take_counter_def)
qed

definition sample_path_session :: client_session where
  "sample_path_session =
     \<lparr>cs_channel = ChPath, cs_sid = replicate 16 0, cs_c2s = [1], cs_s2c = [2], cs_counter = 0, cs_created_at = 0, cs_handshake = 0\<rparr>"

definition sample_on_path :: "nat tnode tnode" where
  "sample_on_path = on_peer ''b'' (\<lambda>p. p\<lparr>lp_tls_locked := True, lp_tls_retry_at := 60000, lp_session := Some sample_path_session,
     lp_paths := [''https://one''], lp_path_active := Some ''https://one''\<rparr>) sample_pair"

lemma withdrawn_way_blocks_calls_witness:
  "\<exists>n'. rpc sample_calling ''b'' ''hb'' ''x'' (on_peer ''b'' (absorb_paths Some [''https://two'']) sample_on_path) =
      (Inl (RpcError ''session'' ''no way through the web proxy is in use''), n') \<and>
    lp_paths (peer_of ''b'' n') = [''https://two'']"
proof -
  let ?p = "(sample_peer ''b'' ''node-bbb'' ''pinB'')\<lparr>lp_tls_locked := True, lp_tls_retry_at := 60000,
    lp_session := Some sample_path_session, lp_paths := [''https://one''], lp_path_active := Some ''https://one''\<rparr>"
  let ?q = "absorb_paths Some [''https://two''] ?p"
  have peer: "peer_of ''b'' sample_on_path = ?p" and known: "known ''b'' sample_on_path"
    by (simp_all add: peer_of_def known_def sample_on_path_def map_of_on_peer sample_pair_defs)
  have size: "length (jt_call (te_json sample_calling) ''hb'' ''x'') \<le> te_max_message sample_calling" "te_max_message sample_calling < 2 ^ 32"
    by (simp_all add: sample_calling_def sample_texts_def mark_def)
  then obtain packed where packed: "pack_payload (te_compress sample_calling) (utf8 (jt_call (te_json sample_calling) ''hb'' ''x'')) = Inr packed"
    using pack_total [of "utf8 (jt_call (te_json sample_calling) ''hb'' ''x'')"] by auto
  obtain body where body: "call_body (te_pr sample_calling) sample_path_session packed = Inr body"
    using call_body_total [of sample_path_session] by (auto simp: sample_path_session_def)
  have facts: "lp_tls_locked ?p" "lp_tls ?p \<noteq> None" "clock_of sample_calling sample_on_path < lp_tls_retry_at ?p"
    "lp_session ?p = Some sample_path_session" "session_usable ChPath (clock_of sample_calling sample_on_path) (Some sample_path_session)"
    by (simp_all add: sample_peer_def clock_of_def sample_calling_def session_usable_def sample_path_session_def session_max_age_ms_def
        max_frames_per_session_def)
  have ways: "lp_path_active ?p = Some ''https://one''" "''https://one'' \<noteq> []" "lp_paths ?q \<noteq> []" "''https://one'' \<notin> set (lp_paths ?q)"
    "''https://one'' \<in> set (lp_paths ?p)" "lp_paths ?q = [''https://two'']"
    by (simp_all add: absorb_paths_def List.map_filter_simps)
  from withdrawn_way_blocks_calls [OF known peer facts body ways(1,2) refl ways(3,4,5) size(1) packed] ways(6)
  show ?thesis by auto
qed

end
