(* ===== verification/Verify.thy ===== *)
theory Verify
  imports Receiver "HOL-Library.Word" "HOL-Library.Sublist"
begin

unbundle bit_operations_syntax

text \<open>
  \<^verbatim>\<open>src/cluster/verify.ts\<close>: a node compares the records of versions it keeps with those of a peer and offers
  it what it holds in a newer version. Summaries (a count and an XOR of row hashes) are compared per table,
  then per first characters of the key hash, and small groups row by row.

  The peer answers \<^verbatim>\<open>verify.digest\<close> and \<^verbatim>\<open>verify.rows\<close> (\<open>ce_digest\<close>, \<open>ce_rows\<close>); other writers go on while
  a call is under way. \<open>ck_events\<close> is an auxiliary variable, read by no operation: which groups were passed
  over because the summaries agreed, which were compared row by row, and what was offered, each with the link
  as it was. The log lines and \<open>recordEvent\<close> are not modelled.
\<close>

section \<open>Summaries\<close>

definition group_rows_limit :: nat where "group_rows_limit = 2000"
definition max_prefix :: nat where "max_prefix = 4"
definition rows_limit :: nat where "rows_limit = 20000"

record group =
  gr_name :: string
  gr_count :: nat
  gr_xor :: string

text \<open>Tombstones below the floor are left out.\<close>

definition counted :: "int \<Rightarrow> version_entry \<Rightarrow> bool" where
  "counted oldest e \<longleftrightarrow> \<not> (ve_deleted e \<and> version (ve_version e) < oldest)"

definition row_hash_text :: "row_id \<times> version_entry \<Rightarrow> string" where
  "row_hash_text = (\<lambda>(rid, e). join_with '':'' [snd rid, int_string (version (ve_version e)), origin (ve_version e),
     if ve_deleted e then ''1'' else ''0''])"

fun row_hash :: "primitives \<Rightarrow> row_id \<times> version_entry \<Rightarrow> 64 word" where
  "row_hash pr (rid, e) = word_of_nat (be_value (take 8 (sha256_of pr (utf8 (row_hash_text (rid, e))))))"

text \<open>A group is a whole table, or the rows whose key hash starts with a prefix and continues with a name.\<close>

definition in_group :: "string \<Rightarrow> (string \<times> string) option \<Rightarrow> row_id \<Rightarrow> bool" where
  "in_group table part rid \<longleftrightarrow> fst rid = table \<and>
     (case part of None \<Rightarrow> True
      | Some (p, name) \<Rightarrow> prefix p (snd rid) \<and> take (length p + 1) (snd rid) = name)"

definition group_rows :: "node_db \<Rightarrow> int \<Rightarrow> string \<Rightarrow> (string \<times> string) option \<Rightarrow> (row_id \<times> version_entry) list" where
  "group_rows db oldest table part =
     filter (\<lambda>(rid, e). in_group table part rid \<and> counted oldest e) (registry db)"

definition group_of :: "primitives \<Rightarrow> string \<Rightarrow> (row_id \<times> version_entry) list \<Rightarrow> group" where
  "group_of pr name rs = \<lparr>gr_name = name, gr_count = length rs,
     gr_xor = dec_string (unat (fold (\<lambda>r x. x XOR row_hash pr r) rs 0))\<rparr>"

definition local_digest ::
    "primitives \<Rightarrow> catalog option \<Rightarrow> node_db \<Rightarrow> string option \<Rightarrow> string \<Rightarrow> int \<Rightarrow> group list" where
  "local_digest pr cat db table p oldest =
     (case cat of
        None \<Rightarrow> []
      | Some ct \<Rightarrow>
          (case table of
             None \<Rightarrow>
               map (\<lambda>t. group_of pr t (group_rows db oldest t None))
                 (remdups (map (fst \<circ> fst) (filter (\<lambda>(rid, e). fst rid \<in> set (map tname (ordered ct)) \<and> counted oldest e)
                    (registry db))))
           | Some t \<Rightarrow>
               if find_table ct t = None then []
               else map (\<lambda>name. group_of pr name (group_rows db oldest t (Some (p, name))))
                 (remdups (map (\<lambda>(rid, e). take (length p + 1) (snd rid))
                    (filter (\<lambda>(rid, e). fst rid = t \<and> prefix p (snd rid) \<and> counted oldest e) (registry db))))))"

definition local_rows :: "node_db \<Rightarrow> string \<Rightarrow> string \<Rightarrow> int \<Rightarrow> registry_row list" where
  "local_rows db table p oldest =
     take rows_limit (sort_key vr_hash (map (\<lambda>(rid, e). registry_row_of rid e)
       (filter (\<lambda>(rid, e). fst rid = table \<and> prefix p (snd rid) \<and> counted oldest e) (registry db))))"

section \<open>Answering a peer\<close>

text \<open>Key hash, version and the deleted flag.\<close>

type_synonym known_row = "string \<times> row_version \<times> bool"

definition prefix_ok :: "string \<Rightarrow> bool" where
  "prefix_ok p \<longleftrightarrow> length p \<le> 6 \<and> list_all lower_hex_char p"

definition digest_request_ok :: "string option \<Rightarrow> string \<Rightarrow> int \<Rightarrow> bool" where
  "digest_request_ok table p oldest \<longleftrightarrow>
     (case table of None \<Rightarrow> True | Some t \<Rightarrow> table_name_ok t) \<and> prefix_ok p \<and> wire_version_ok oldest"

definition digest_reply_ok :: "group list \<Rightarrow> bool" where
  "digest_reply_ok gs \<longleftrightarrow> length gs \<le> 4096 \<and>
     list_all (\<lambda>g. utf16_length (gr_name g) \<le> 64 \<and> 1 \<le> length (gr_xor g) \<and> length (gr_xor g) \<le> 20 \<and>
       list_all is_digit (gr_xor g)) gs"

definition rows_reply_ok :: "known_row list \<Rightarrow> bool" where
  "rows_reply_ok rs \<longleftrightarrow> length rs \<le> 20000 \<and>
     list_all (\<lambda>(h, v, d). pk_hash_ok h \<and> wire_version_ok (version v) \<and> node_id_ok (origin v)) rs"

definition handle_digest :: "string option \<Rightarrow> string \<Rightarrow> int \<Rightarrow> receiver \<Rightarrow> string + group list" where
  "handle_digest table p oldest rv =
     (if \<not> rv_may rv then Inl ''replication is paused on this node''
      else if \<not> digest_request_ok table p oldest then Inl ''bad request''
      else Inr (local_digest (cx_pr (rv_cx rv)) (cx_catalog (rv_cx rv)) (rv_db rv) table p oldest))"

definition known_row_of :: "registry_row \<Rightarrow> known_row" where
  "known_row_of r = (vr_hash r, \<lparr>version = the (vr_version r), origin = the (vr_origin r)\<rparr>, vr_deleted r)"

definition handle_rows :: "string \<Rightarrow> string \<Rightarrow> int \<Rightarrow> receiver \<Rightarrow> string + known_row list \<times> bool" where
  "handle_rows table p oldest rv =
     (if \<not> rv_may rv then Inl ''replication is paused on this node''
      else if \<not> digest_request_ok (Some table) p oldest then Inl ''bad request''
      else if \<not> replicates rv table then Inr ([], False)
      else let rs = local_rows (rv_db rv) table p oldest
           in Inr (map known_row_of rs, length rs \<ge> rows_limit))"

section \<open>The state of a check\<close>

datatype 'p check_event =
    SameGroup string "(string \<times> string) option" "'p link"
  | RowsCompared string string "'p link"
  | RowsOffered table_info "registry_row list" "'p link" "'p link"

record 'p check =
  ck_link :: "'p link"
  ck_running :: bool
  ck_last_at :: "millis option"
  ck_repaired :: nat
  ck_last_error :: "string option"
  ck_verified_at :: "millis option" \<comment> \<open>\<^verbatim>\<open>cluster_peers.last_verified_at\<close>\<close>
  ck_events :: "'p check_event list"

record 'p check_env =
  ce_link :: "'p link_env"
  ce_retention_days :: int
  ce_digest :: "string option \<Rightarrow> string \<Rightarrow> int \<Rightarrow> node_db \<times> 'p \<Rightarrow> (string + group list) \<times> node_db \<times> 'p"
  ce_rows :: "string \<Rightarrow> string \<Rightarrow> int \<Rightarrow> node_db \<times> 'p \<Rightarrow> (string + known_row list \<times> bool) \<times> node_db \<times> 'p"

type_synonym ('p, 'a) check_op = "('p check, string, 'a) request"

definition on_link :: "('p, 'a) link_op \<Rightarrow> ('p, 'a) check_op" where
  "on_link m c = (let (r, l) = m (ck_link c) in (r, c\<lparr>ck_link := l\<rparr>))"

definition note_event :: "('p link \<Rightarrow> 'p check_event list) \<Rightarrow> ('p, unit) check_op" where
  "note_event f = op_write (\<lambda>c. c\<lparr>ck_events := f (ck_link c) @ ck_events c\<rparr>)"

section \<open>Checking a peer\<close>

definition verify_floor :: "'p check_env \<Rightarrow> millis \<Rightarrow> int" where
  "verify_floor env now = now * 1000 - ce_retention_days env * 12 * 60 * 60 * 1000000"

definition call_digest :: "'p check_env \<Rightarrow> string option \<Rightarrow> string \<Rightarrow> int \<Rightarrow> ('p, group list) check_op" where
  "call_digest env table p oldest =
     op_bind (on_link (\<lambda>l. let (reply, db, q) = ce_digest env table p oldest (lk_db l, lk_peer l)
                           in (reply, l\<lparr>lk_db := db, lk_peer := q\<rparr>))) (\<lambda>gs.
     op_bind (op_check (digest_reply_ok gs) ''bad reply'') (\<lambda>u. op_ok gs))"

definition call_rows :: "'p check_env \<Rightarrow> string \<Rightarrow> string \<Rightarrow> int \<Rightarrow> ('p, known_row list) check_op" where
  "call_rows env table p oldest =
     op_bind (on_link (\<lambda>l. let (reply, db, q) = ce_rows env table p oldest (lk_db l, lk_peer l)
                           in (reply, l\<lparr>lk_db := db, lk_peer := q\<rparr>))) (\<lambda>(rs, truncated).
     op_bind (op_check (rows_reply_ok rs) ''bad reply'') (\<lambda>u. op_ok rs))"

text \<open>A \<open>Map\<close> made from a list: the last entry of a name counts.\<close>

definition group_named :: "group list \<Rightarrow> string \<Rightarrow> group option" where
  "group_named gs = map_of (rev (map (\<lambda>g. (gr_name g, g)) gs))"

definition same_group :: "group \<Rightarrow> group option \<Rightarrow> bool" where
  "same_group a b = (case b of None \<Rightarrow> False | Some g \<Rightarrow> gr_count a = gr_count g \<and> gr_xor a = gr_xor g)"

definition their_count :: "group option \<Rightarrow> nat" where
  "their_count b = (case b of None \<Rightarrow> 0 | Some g \<Rightarrow> gr_count g)"

definition newer_than :: "known_row list \<Rightarrow> registry_row \<Rightarrow> bool" where
  "newer_than theirs r =
     is_newer \<lparr>version = the (vr_version r), origin = the (vr_origin r)\<rparr>
       (map_option fst (map_of (rev theirs) (vr_hash r)))"

definition compare_rows :: "'p check_env \<Rightarrow> string \<Rightarrow> string \<Rightarrow> int \<Rightarrow> ('p, nat) check_op" where
  "compare_rows env table p oldest =
     (case find_table (le_catalog (ce_link env)) table of
        None \<Rightarrow> op_ok 0
      | Some info \<Rightarrow>
          op_bind (call_rows env table p oldest) (\<lambda>theirs.
          op_bind (op_read (\<lambda>c. filter (newer_than theirs) (local_rows (lk_db (ck_link c)) table p oldest))) (\<lambda>newer.
          op_bind (note_event (\<lambda>l. [RowsCompared table p l])) (\<lambda>u.
          if newer = [] then op_ok 0
          else op_bind (op_read ck_link) (\<lambda>before.
               op_bind (on_link (offer_rows (ce_link env) info newer)) (\<lambda>n.
               op_bind (note_event (\<lambda>l. [RowsOffered info newer before l])) (\<lambda>u.
               op_ok n)))))))"

fun op_total :: "'a list \<Rightarrow> ('a \<Rightarrow> ('s, 'e, nat) request) \<Rightarrow> ('s, 'e, nat) request" where
  "op_total [] body = op_ok 0"
| "op_total (x # xs) body = op_bind (body x) (\<lambda>n. op_bind (op_total xs body) (\<lambda>m. op_ok (n + m)))"

text \<open>
  Groups only the peer has are skipped, so the loop runs over our own. A key hash has 64 characters, so every
  name is one character longer than the prefix; the first argument is the number of characters that may still
  be added, at most \<open>max_prefix\<close>.
\<close>

fun descend :: "'p check_env \<Rightarrow> nat \<Rightarrow> string \<Rightarrow> string \<Rightarrow> int \<Rightarrow> nat \<Rightarrow> nat \<Rightarrow> ('p, nat) check_op" where
  "descend env 0 table p oldest local_count remote_count c = compare_rows env table p oldest c"
| "descend env (Suc n) table p oldest local_count remote_count c =
     (if local_count + remote_count \<le> group_rows_limit \<or> length p \<ge> max_prefix
      then compare_rows env table p oldest c
      else op_bind (call_digest env (Some table) p oldest) (\<lambda>theirs.
           op_bind (op_read (\<lambda>c. local_digest (le_pr (ce_link env)) (Some (le_catalog (ce_link env)))
             (lk_db (ck_link c)) (Some table) p oldest)) (\<lambda>ours.
           op_bind (note_event (\<lambda>l. map (\<lambda>g. SameGroup table (Some (p, gr_name g)) l)
             (filter (\<lambda>g. same_group g (group_named theirs (gr_name g))) ours))) (\<lambda>u.
           op_total ours (\<lambda>mine.
             if same_group mine (group_named theirs (gr_name mine)) then op_ok 0
             else descend env n table (gr_name mine) oldest (gr_count mine)
                    (their_count (group_named theirs (gr_name mine))))))) c)"

definition check_tables :: "'p check_env \<Rightarrow> int \<Rightarrow> ('p, nat) check_op" where
  "check_tables env oldest =
     op_bind (call_digest env None [] oldest) (\<lambda>theirs.
     op_bind (op_read (\<lambda>c. local_digest (le_pr (ce_link env)) (Some (le_catalog (ce_link env)))
       (lk_db (ck_link c)) None [] oldest)) (\<lambda>ours.
     op_bind (note_event (\<lambda>l. map (\<lambda>g. SameGroup (gr_name g) None l)
       (filter (\<lambda>g. same_group g (group_named theirs (gr_name g))) ours))) (\<lambda>u.
     op_total ours (\<lambda>mine.
       if same_group mine (group_named theirs (gr_name mine)) then op_ok 0
       else descend env max_prefix (gr_name mine) [] oldest (gr_count mine)
              (their_count (group_named theirs (gr_name mine)))))))"

definition error_line :: "string \<Rightarrow> string" where
  "error_line e = take 300 (takeWhile (\<lambda>c. c \<noteq> CHR 0x0A) e)"

definition verify_peer :: "'p check_env \<Rightarrow> 'p check \<Rightarrow> nat \<times> 'p check" where
  "verify_peer env c =
     (if ck_running c then (0, c)
      else let (r, c1) = check_tables env (verify_floor env (lk_now (ck_link c))) (c\<lparr>ck_running := True\<rparr>);
               now = Some (lk_now (ck_link c1))
           in case r of
                Inr n \<Rightarrow> (n, c1\<lparr>ck_running := False, ck_last_at := now, ck_repaired := n, ck_last_error := None,
                              ck_verified_at := now\<rparr>)
              | Inl e \<Rightarrow> (0, c1\<lparr>ck_running := False, ck_last_error := Some (error_line e)\<rparr>))"

section \<open>The peer of the model\<close>

definition outside_digest ::
    "string option \<Rightarrow> string \<Rightarrow> int \<Rightarrow> node_db \<times> outside \<Rightarrow> (string + group list) \<times> node_db \<times> outside" where
  "outside_digest table p oldest = (\<lambda>(db, os). (handle_digest table p oldest (os_receiver os), commit_next (db, os)))"

definition outside_rows ::
    "string \<Rightarrow> string \<Rightarrow> int \<Rightarrow> node_db \<times> outside \<Rightarrow> (string + known_row list \<times> bool) \<times> node_db \<times> outside" where
  "outside_rows table p oldest = (\<lambda>(db, os). (handle_rows table p oldest (os_receiver os), commit_next (db, os)))"

definition joined_check :: "outside check_env \<Rightarrow> outside check_env" where
  "joined_check env = env\<lparr>ce_link := joined (ce_link env), ce_digest := outside_digest, ce_rows := outside_rows\<rparr>"

end
