(* ===== verification/Verify_Facts.thy ===== *)
theory Verify_Facts
  imports Verify Feed_World
begin

text \<open>
  What a data check comes to. The contract \<open>check_contract\<close> joins the contract with the rest of the node
  (\<open>feed_world\<close>) and the peer's promises (\<open>peer_contract\<close>) and adds what the two further calls promise: the
  groups and rows a peer reports are those it has. \<open>accounted\<close> says where a record ends up in a check.
\<close>

lemma group_named_mem: "group_named gs name = Some g \<Longrightarrow> g \<in> set gs \<and> gr_name g = name"
  by (auto simp: group_named_def dest!: map_of_SomeD)

lemma local_digest_mem:
  "g \<in> set (local_digest pr cat db (Some t) p since) \<Longrightarrow>
     g = group_of pr (gr_name g) (group_rows db since t (Some (p, gr_name g)))"
  "g \<in> set (local_digest pr cat db None p since) \<Longrightarrow> g = group_of pr (gr_name g) (group_rows db since (gr_name g) None)"
  by (auto simp: local_digest_def group_of_def split: option.splits if_splits)

lemma in_groups: "x \<in> set xs \<Longrightarrow> P x \<Longrightarrow> f (g x) \<in> set (map f (remdups (map g (filter P xs))))"
  by auto

lemma local_digest_named:
  assumes "map_of (registry db) rid = Some e" "counted since e" "find_table cat (fst rid) \<noteq> None" "prefix p (snd rid)"
  shows "group_of pr (take (length p + 1) (snd rid)) (group_rows db since (fst rid) (Some (p, take (length p + 1) (snd rid))))
       \<in> set (local_digest pr (Some cat) db (Some (fst rid)) p since)"
  using in_groups [OF map_of_SomeD [OF assms(1)], of "\<lambda>(r, e). fst r = fst rid \<and> prefix p (snd r) \<and> counted since e"
      "\<lambda>name. group_of pr name (group_rows db since (fst rid) (Some (p, name)))" "\<lambda>(r, e). take (length p + 1) (snd r)"] assms
  by (simp add: local_digest_def)

lemma local_digest_table:
  assumes "map_of (registry db) rid = Some e" "counted since e" "fst rid \<in> tname ` set (ordered cat)"
  shows "group_of pr (fst rid) (group_rows db since (fst rid) None) \<in> set (local_digest pr (Some cat) db None p since)"
  using in_groups [OF map_of_SomeD [OF assms(1)], of "\<lambda>(r, e). fst r \<in> tname ` set (ordered cat) \<and> counted since e"
      "\<lambda>t. group_of pr t (group_rows db since t None)" "fst \<circ> fst"] assms
  by (simp add: local_digest_def comp_def)

lemma local_rows_mem:
  assumes "map_of (registry db) rid = Some e" "counted since e" "prefix p (snd rid)"
    "length (filter (\<lambda>(rid', e). fst rid' = fst rid \<and> prefix p (snd rid') \<and> counted since e) (registry db)) \<le> rows_limit"
  shows "registry_row_of rid e \<in> set (local_rows db (fst rid) p since)"
proof -
  have "(rid, e) \<in> set (registry db)" using assms(1) by (rule map_of_SomeD)
  with assms(2, 3) show ?thesis
    using assms(4) by (force simp: local_rows_def)
qed

text \<open>The summary of a group, as it is compared.\<close>

definition group_sum :: "primitives \<Rightarrow> int \<Rightarrow> node_db \<Rightarrow> string \<Rightarrow> (string \<times> string) option \<Rightarrow> nat \<times> 64 word" where
  "group_sum pr since db t part =
     (let rs = group_rows db since t part in (length rs, fold (\<lambda>r x. xor x (row_hash pr r)) rs 0))"

lemma dec_string_inject: "dec_string a = dec_string b \<Longrightarrow> a = b"
  using parse_dec_dec_string by (metis option.inject)

lemma same_group_of:
  "same_group (group_of pr name (group_rows db since t part)) (Some (group_of pr' name' (group_rows db' since t part))) \<longleftrightarrow>
     group_sum pr since db t part = group_sum pr' since db' t part"
  by (auto simp: same_group_def group_of_def group_sum_def Let_def word_unat_eq_iff dest!: dec_string_inject)

lemma on_link_iff: "on_link m c = (r, c') \<longleftrightarrow> (\<exists>l. m (ck_link c) = (r, l) \<and> c' = c\<lparr>ck_link := l\<rparr>)"
  by (auto simp: on_link_def split: prod.splits)

lemma note_event_iff [simp]: "note_event f c = (r, c') \<longleftrightarrow> r = Inr () \<and> c' = c\<lparr>ck_events := f (ck_link c) @ ck_events c\<rparr>"
  by (simp add: note_event_def)

section \<open>Deliveries and what the peer knows\<close>

text \<open>The entry a record is offered as, and a row that had disappeared here when it was to be read.\<close>

definition row_entry :: "table_info \<Rightarrow> row_id \<Rightarrow> version_entry \<Rightarrow> entry" where
  "row_entry info rid e = \<lparr>en_table = info, en_hash = snd rid, en_seq = None, en_offer_first = True, en_key = ve_pk e,
     en_version = ve_version e, en_deleted = ve_deleted e\<rparr>"

definition gone_missing :: "'p link_env \<Rightarrow> entry list \<Rightarrow> entry \<Rightarrow> 'p link \<Rightarrow> bool" where
  "gone_missing env entries e l \<longleftrightarrow> (\<exists>wanted declined l1. offer_entries env entries l = (Inr (wanted, declined), l1) \<and>
     \<not> en_deleted e \<and> \<not> row_present env (lk_db l1) e)"

lemma row_entry_in_transfer:
  "registry_row_of rid e \<in> set rs \<Longrightarrow> row_entry info rid e \<in> set (transfer_entries info rs)"
  by (induction rs)
    (auto simp: transfer_entries_def map_filter_simps to_entry_def registry_row_of_def row_entry_def split: option.splits)

sublocale peer_contract \<subseteq> known: kept more_known
  by unfold_locales (rule more_known_refl, rule more_known_trans)

context peer_contract begin

lemmas known_intros = known.keeps_bind known.keeps_ok known.keeps_fail known.keeps_check known.keeps_read

lemma known_plain_write: "(\<And>l. lk_peer (g l) = lk_peer l) \<Longrightarrow> keeps more_known (op_write g)"
  by (rule known.keeps_write) (simp add: more_known_def)

lemma calls_known:
  "keeps more_known (call_offer env items)" "keeps more_known (call_push env bs dr)"
  "keeps more_known (record_implicit_deletion env e)"
  by (rule keepsI, erule call_offer_known call_push_known record_implicit_known)+

lemma deliver_more_known: "keeps more_known (deliver env es da)"
proof -
  have "keeps more_known (offer_chunks env chunks)" for chunks
    by (induction chunks) (auto intro!: known_intros calls_known split: prod.splits)
  moreover have "keeps more_known (sort_out env rest so)" for rest so
  proof (induction rest arbitrary: so)
    case (Cons er rest)
    then show ?case by (cases er) (auto intro!: known_intros calls_known split: option.splits)
  qed simp
  moreover have "keeps more_known (push_chunks env da chunks d)" for chunks d
    by (induction chunks arbitrary: d)
      (auto simp: push_chunk_def Let_def intro!: known_intros known_plain_write calls_known)
  ultimately show ?thesis
    unfolding deliver_def offer_entries_def send_entries_def by (auto intro!: known_intros split: prod.splits)
qed

lemma deliver_known:
  assumes "deliver env entries drained l = (Inr d, l')" "e \<in> set (dl_settled d)"
  shows "known_entry l' e \<or> gone_missing env entries e l"
proof -
  from assms(1) obtain wanted declined l1 where
    offer: "offer_entries env entries l = (Inr (wanted, declined), l1)" and
    send: "send_entries env drained (to_send entries wanted) declined l1 = (Inr d, l')"
    by (auto simp: deliver_def elim!: op_bind_InrE)
  from offer_chunks_known [OF offer [unfolded offer_entries_def]] have "\<forall>e \<in> set declined. known_entry l1 e" by simp
  from send_entries_known [OF send assms(2) this] not_loaded offer show ?thesis
    unfolding gone_missing_def by blast
qed

end

section \<open>What a check promises\<close>

definition sums_to :: "group \<Rightarrow> nat \<times> 64 word \<Rightarrow> bool" where
  "sums_to g nx \<longleftrightarrow> gr_count g = fst nx \<and> gr_xor g = dec_string (unat (snd nx))"

lemma sums_to_group_of: "sums_to (group_of pr name (group_rows db since t part)) nx \<longleftrightarrow> nx = group_sum pr since db t part"
  by (cases nx) (auto simp: sums_to_def group_of_def group_sum_def Let_def word_unat_eq_iff dest!: dec_string_inject)

lemma same_group_sums: "same_group g (Some g') \<Longrightarrow> sums_to g a \<Longrightarrow> sums_to g' b \<Longrightarrow> a = b"
  by (cases a; cases b) (auto simp: same_group_def sums_to_def word_unat_eq_iff dest!: dec_string_inject)

locale check_contract = feed_world "ce_link ce" low wf + peer_contract "ce_link ce" knows foreign
  for ce :: "'p check_env" and low :: "node_db \<times> 'p \<Rightarrow> int" and wf knows foreign +
  fixes peer_sum :: "'p \<Rightarrow> int \<Rightarrow> string \<Rightarrow> (string \<times> string) option \<Rightarrow> nat \<times> 64 word"
  assumes digest_moves: "ce_digest ce tb pre since (db, p) = (a, db', p') \<Longrightarrow> wf (db, p) \<Longrightarrow>
      wf (db', p') \<and> low (db, p) \<le> low (db', p') \<and> moved (low (db, p)) db db'"
    and digest_keeps: "ce_digest ce tb pre since (db, p) = (a, db', p') \<Longrightarrow>
      (knows p rid v \<longrightarrow> knows p' rid v) \<and> (foreign p t \<longrightarrow> foreign p' t)"
    and digest_true: "ce_digest ce tb pre since (db, p) = (Inr gs, db', p') \<Longrightarrow> g \<in> set gs \<Longrightarrow>
      sums_to g (case tb of None \<Rightarrow> peer_sum p' since (gr_name g) None | Some t \<Rightarrow> peer_sum p' since t (Some (pre, gr_name g)))"
    and rows_moves: "ce_rows ce t pre since (db, p) = (b, db', p') \<Longrightarrow> wf (db, p) \<Longrightarrow>
      wf (db', p') \<and> low (db, p) \<le> low (db', p') \<and> moved (low (db, p)) db db'"
    and rows_keeps: "ce_rows ce t' pre since (db, p) = (b, db', p') \<Longrightarrow>
      (knows p rid v \<longrightarrow> knows p' rid v) \<and> (foreign p t \<longrightarrow> foreign p' t)"
    and rows_true: "ce_rows ce t pre since (db, p) = (Inr (rs, tr), db', p') \<Longrightarrow> wf (db, p) \<Longrightarrow>
      (h, w, d) \<in> set rs \<Longrightarrow> \<not> compare_versions v w > 0 \<Longrightarrow> knows p' (t, h) v"
begin

definition check_moves :: "'p check \<Rightarrow> 'p check \<Rightarrow> bool" where
  "check_moves c c' \<longleftrightarrow> feed_moves (ck_link c) (ck_link c') \<and> more_known (ck_link c) (ck_link c') \<and>
     set (ck_events c) \<subseteq> set (ck_events c')"

lemma check_moves_refl: "check_moves c c"
  by (simp add: check_moves_def feed_moves_refl)

lemma check_moves_trans: "check_moves a b \<Longrightarrow> check_moves b c \<Longrightarrow> check_moves a c"
  unfolding check_moves_def by (meson feed_moves_trans more_known_trans subset_trans)

end

sublocale check_contract \<subseteq> checks: kept check_moves
  by unfold_locales (rule check_moves_refl, rule check_moves_trans)

context check_contract begin

lemmas check_intros = checks.keeps_bind checks.keeps_ok checks.keeps_check checks.keeps_read

lemma keeps_on_link: "keeps feed_moves m \<Longrightarrow> keeps more_known m \<Longrightarrow> keeps check_moves (on_link m)"
  by (rule keepsI) (auto simp: on_link_iff check_moves_def dest: keepsD)

lemma keeps_note_event: "keeps check_moves (note_event f)"
  by (rule keepsI) (auto simp: check_moves_def feed_moves_refl)

lemma keeps_call_digest: "keeps check_moves (call_digest ce tb pre since)"
proof -
  have "check_moves c (c\<lparr>ck_link := (ck_link c)\<lparr>lk_db := db, lk_peer := q\<rparr>\<rparr>)"
    if "ce_digest ce tb pre since (lk_db (ck_link c), lk_peer (ck_link c)) = (a, db, q)" for c a db q
    using digest_moves [OF that] digest_keeps [OF that]
    by (simp add: check_moves_def feed_moves_def more_known_def sent_given_def)
  then show ?thesis
    unfolding call_digest_def
    by (auto simp: on_link_iff intro!: check_intros keepsI [where R = check_moves and m = "on_link _"] split: prod.splits)
qed

lemma keeps_call_rows: "keeps check_moves (call_rows ce tb pre since)"
proof -
  have "check_moves c (c\<lparr>ck_link := (ck_link c)\<lparr>lk_db := db, lk_peer := q\<rparr>\<rparr>)"
    if "ce_rows ce tb pre since (lk_db (ck_link c), lk_peer (ck_link c)) = (a, db, q)" for c a db q
    using rows_moves [OF that] rows_keeps [OF that]
    by (simp add: check_moves_def feed_moves_def more_known_def sent_given_def)
  then show ?thesis
    unfolding call_rows_def
    by (auto simp: on_link_iff intro!: check_intros keepsI [where R = check_moves and m = "on_link _"] split: prod.splits)
qed

lemma keeps_offer_rows: "keeps check_moves (on_link (offer_rows (ce_link ce) info rs))"
proof (rule keeps_on_link)
  show "keeps feed_moves (offer_rows (ce_link ce) info rs)"
    unfolding offer_rows_def by (auto simp: Let_def intro!: moves_intros keeps_deliver)
  show "keeps more_known (offer_rows (ce_link ce) info rs)"
    unfolding offer_rows_def by (auto simp: Let_def intro!: known_intros deliver_more_known)
qed

lemma keeps_compare_rows: "keeps check_moves (compare_rows ce t p since)"
  unfolding compare_rows_def
  by (auto intro!: check_intros keeps_call_rows keeps_note_event keeps_offer_rows split: option.splits)

lemma keeps_total: "(\<And>x. keeps check_moves (body x)) \<Longrightarrow> keeps check_moves (op_total xs body)"
  by (induction xs) (auto intro!: check_intros)

lemma keeps_descend: "keeps check_moves (descend ce n t p since a b)"
proof (induction n arbitrary: p a b)
  case 0
  show ?case using keepsD [OF keeps_compare_rows] by (auto intro: keepsI)
next
  case (Suc n)
  have "descend ce (Suc n) t p since a b = (if a + b \<le> group_rows_limit \<or> length p \<ge> max_prefix then compare_rows ce t p since
      else op_bind (call_digest ce (Some t) p since) (\<lambda>theirs.
        op_bind (op_read (\<lambda>c. local_digest (le_pr (ce_link ce)) (Some (le_catalog (ce_link ce))) (lk_db (ck_link c)) (Some t) p since)) (\<lambda>ours.
        op_bind (note_event (\<lambda>l. map (\<lambda>g. SameGroup t (Some (p, gr_name g)) l)
          (filter (\<lambda>g. same_group g (group_named theirs (gr_name g))) ours))) (\<lambda>u.
        op_total ours (\<lambda>mine. if same_group mine (group_named theirs (gr_name mine)) then op_ok 0
          else descend ce n t (gr_name mine) since (gr_count mine) (their_count (group_named theirs (gr_name mine))))))))"
    by (rule ext) simp
  then show ?case
    using Suc.IH by (auto intro!: check_intros keeps_compare_rows keeps_call_digest keeps_note_event keeps_total)
qed


section \<open>Where a record ends up\<close>

definition passed_over :: "int \<Rightarrow> row_id \<Rightarrow> version_entry \<Rightarrow> 'p check \<Rightarrow> bool" where
  "passed_over since rid e c \<longleftrightarrow> (\<exists>part l. SameGroup (fst rid) part l \<in> set (ck_events c) \<and> in_group (fst rid) part rid \<and>
     map_of (registry (lk_db l)) rid = Some e \<and>
     group_sum (le_pr (ce_link ce)) since (lk_db l) (fst rid) part = peer_sum (lk_peer l) since (fst rid) part)"

definition cut_off :: "int \<Rightarrow> row_id \<Rightarrow> 'p check \<Rightarrow> bool" where
  "cut_off since rid c \<longleftrightarrow> (\<exists>p l. RowsCompared (fst rid) p l \<in> set (ck_events c) \<and> prefix p (snd rid) \<and>
     rows_limit < length (filter (\<lambda>(r, e). fst r = fst rid \<and> prefix p (snd r) \<and> counted since e) (registry (lk_db l))))"

definition not_taken :: "row_id \<Rightarrow> version_entry \<Rightarrow> 'p check \<Rightarrow> bool" where
  "not_taken rid e c \<longleftrightarrow> (\<exists>info rs l l' d. RowsOffered info rs l l' \<in> set (ck_events c) \<and> tname info = fst rid \<and>
     registry_row_of rid e \<in> set rs \<and> deliver (ce_link ce) (transfer_entries info rs) False l = (Inr d, l') \<and>
     (row_entry info rid e \<in> set (dl_unsettled d) \<or> gone_missing (ce_link ce) (transfer_entries info rs) (row_entry info rid e) l))"

definition accounted :: "int \<Rightarrow> row_id \<Rightarrow> version_entry \<Rightarrow> 'p check \<Rightarrow> bool" where
  "accounted since rid e c \<longleftrightarrow>
     knows (lk_peer (ck_link c)) rid (ve_version e) \<or> foreign (lk_peer (ck_link c)) (fst rid) \<or>
     passed_over since rid e c \<or> cut_off since rid c \<or> not_taken rid e c"

lemma accounted_mono: "accounted since rid e c \<Longrightarrow> check_moves c c' \<Longrightarrow> accounted since rid e c'"
  unfolding accounted_def passed_over_def cut_off_def not_taken_def check_moves_def more_known_def
  by (meson subsetD)

text \<open>A record that no open transaction precedes and that is there in the end was there all the time.\<close>

definition steady :: "row_id \<Rightarrow> version_entry \<Rightarrow> 'p check \<Rightarrow> bool" where
  "steady rid e c \<longleftrightarrow> wf (lk_db (ck_link c), lk_peer (ck_link c)) \<and>
     ve_seq e < low (lk_db (ck_link c), lk_peer (ck_link c))"

lemma steady_mono: "steady rid e c \<Longrightarrow> check_moves c c' \<Longrightarrow> steady rid e c'"
  by (auto simp: steady_def check_moves_def feed_moves_def)

lemma record_before:
  "steady rid e c \<Longrightarrow> check_moves c c' \<Longrightarrow> map_of (registry (lk_db (ck_link c'))) rid = Some e \<Longrightarrow>
     map_of (registry (lk_db (ck_link c))) rid = Some e"
  unfolding steady_def check_moves_def feed_moves_def moved_def by (metis linorder_not_le)

lemma offered_is_accounted:
  assumes run: "on_link (offer_rows (ce_link ce) info rs) c = (Inr n, c1)" and row: "registry_row_of rid e \<in> set rs"
    and info: "tname info = fst rid" and event: "RowsOffered info rs (ck_link c) (ck_link c1) \<in> set (ck_events c2)"
    and moves: "check_moves c1 c2"
  shows "accounted since rid e c2"
proof -
  note mem = row_entry_in_transfer [OF row, of info]
  with run obtain d where d: "deliver (ce_link ce) (transfer_entries info rs) False (ck_link c) = (Inr d, ck_link c1)"
    by (auto simp: on_link_iff offer_rows_def Let_def elim!: op_bind_InrE split: if_splits)
  from deliver_mset [OF d] mem have "row_entry info rid e \<in> set (dl_settled d) \<union> set (dl_unsettled d)"
    by (metis Un_iff set_mset_mset set_mset_union)
  with deliver_known [OF d] consider "known_entry (ck_link c1) (row_entry info rid e)" | "not_taken rid e c2"
    using d event info row unfolding not_taken_def by blast
  then show ?thesis
  proof cases
    case 1
    with moves info show ?thesis
      by (cases rid) (auto simp: accounted_def known_entry_def row_entry_def check_moves_def more_known_def)
  qed (simp add: accounted_def)
qed

lemma newer_than_row: "newer_than theirs (registry_row_of rid e) =
    is_newer (ve_version e) (map_option fst (map_of (rev theirs) (snd rid)))"
  by (cases "ve_version e") (simp add: newer_than_def registry_row_of_def)

lemma compare_rows_accounts:
  assumes run: "compare_rows ce (fst rid) p since c = (Inr n, c')" and steady: "steady rid e c"
    and e: "map_of (registry (lk_db (ck_link c'))) rid = Some e" "counted since e" "prefix p (snd rid)"
    and table: "find_table (le_catalog (ce_link ce)) (fst rid) = Some info"
  shows "accounted since rid e c'"
proof -
  from run table obtain theirs c1 where call: "call_rows ce (fst rid) p since c = (Inr theirs, c1)"
    and rest: "(if filter (newer_than theirs) (local_rows (lk_db (ck_link c1)) (fst rid) p since) = [] then op_ok 0
      else op_bind (op_read ck_link) (\<lambda>before.
        op_bind (on_link (offer_rows (ce_link ce) info (filter (newer_than theirs) (local_rows (lk_db (ck_link c1)) (fst rid) p since)))) (\<lambda>n.
        op_bind (note_event (\<lambda>l. [RowsOffered info (filter (newer_than theirs) (local_rows (lk_db (ck_link c1)) (fst rid) p since)) before l])) (\<lambda>u. op_ok n))))
      (c1\<lparr>ck_events := RowsCompared (fst rid) p (ck_link c1) # ck_events c1\<rparr>) = (Inr n, c')"
    by (auto simp: compare_rows_def elim!: op_bind_InrE)
  let ?newer = "filter (newer_than theirs) (local_rows (lk_db (ck_link c1)) (fst rid) p since)"
  let ?c1 = "c1\<lparr>ck_events := RowsCompared (fst rid) p (ck_link c1) # ck_events c1\<rparr>"
  have moves1: "check_moves c c1" using keepsD [OF keeps_call_rows call] .
  have moves: "check_moves ?c1 c'"
    using rest by (rule keepsD [rotated]) (auto intro!: check_intros keeps_note_event keeps_offer_rows)
  then have "check_moves c1 c'" by (auto simp: check_moves_def)
  with record_before [OF steady_mono [OF steady moves1]] e(1)
  have rec: "map_of (registry (lk_db (ck_link c1))) rid = Some e" by blast
  show ?thesis
  proof (cases "rows_limit < length (filter (\<lambda>(r, e). fst r = fst rid \<and> prefix p (snd r) \<and> counted since e)
      (registry (lk_db (ck_link c1))))")
    case True
    have "accounted since rid e ?c1" unfolding accounted_def cut_off_def using True e(3) by auto
    then show ?thesis using moves by (rule accounted_mono)
  next
    case False
    with local_rows_mem [OF rec e(2, 3)]
    have mem: "registry_row_of rid e \<in> set (local_rows (lk_db (ck_link c1)) (fst rid) p since)" by simp
    show ?thesis
    proof (cases "newer_than theirs (registry_row_of rid e)")
      case False
      then obtain w d where w: "map_of (rev theirs) (snd rid) = Some (w, d)" "\<not> compare_versions (ve_version e) w > 0"
        by (auto simp: newer_than_row is_newer_def split: option.splits)
      then have "(snd rid, w, d) \<in> set theirs" by (auto dest!: map_of_SomeD)
      moreover from call obtain tr db' where
        "ce_rows ce (fst rid) p since (lk_db (ck_link c), lk_peer (ck_link c)) = (Inr (theirs, tr), db', lk_peer (ck_link c1))"
        by (auto simp: call_rows_def on_link_iff elim!: op_bind_InrE split: prod.splits)
      ultimately have "accounted since rid e c1"
        using rows_true [of "fst rid"] w(2) steady unfolding accounted_def steady_def by (metis prod.collapse)
      then show ?thesis using \<open>check_moves c1 c'\<close> by (rule accounted_mono)
    next
      case True
      with mem have row: "registry_row_of rid e \<in> set ?newer" by simp
      then have "?newer \<noteq> []" by force
      with rest obtain c2 where offer: "on_link (offer_rows (ce_link ce) info ?newer) ?c1 = (Inr n, c2)"
        and c': "c' = c2\<lparr>ck_events := RowsOffered info ?newer (ck_link ?c1) (ck_link c2) # ck_events c2\<rparr>"
        by (auto elim!: op_bind_InrE)
      show ?thesis
      proof (rule offered_is_accounted [OF offer row])
        show "tname info = fst rid" using find_table_name [OF table] by simp
        show "RowsOffered info ?newer (ck_link ?c1) (ck_link c2) \<in> set (ck_events c')" by (simp add: c')
        show "check_moves c2 c'" by (simp add: c' check_moves_def feed_moves_refl subset_insertI)
      qed
    qed
  qed
qed

lemma op_total_mem:
  assumes "op_total xs body c = (Inr n, c')" "x \<in> set xs" "\<And>x. keeps check_moves (body x)"
  obtains m c1 c2 where "check_moves c c1" "body x c1 = (Inr m, c2)" "check_moves c2 c'"
  using assms(1, 2)
proof (induction xs arbitrary: c n thesis)
  case (Cons y ys)
  from Cons.prems(2) obtain k c1 m where first: "body y c = (Inr k, c1)" and rest: "op_total ys body c1 = (Inr m, c')"
    by (auto elim!: op_bind_InrE)
  note moves = keepsD [OF assms(3) first] keepsD [OF keeps_total [OF assms(3)] rest]
  show ?case
  proof (cases "x = y")
    case True
    show ?thesis using Cons.prems(1) [OF check_moves_refl first [folded True] moves(2)] .
  next
    case False
    with Cons.prems(3) have "x \<in> set ys" by simp
    with rest obtain m c2 c3 where "check_moves c1 c2" "body x c2 = (Inr m, c3)" "check_moves c3 c'"
      using Cons.IH by blast
    with Cons.prems(1) check_moves_trans [OF moves(1)] show ?thesis by blast
  qed
qed simp

lemma keeps_unless: "keeps check_moves m \<Longrightarrow> keeps check_moves (if b then op_ok 0 else m)"
  by simp

lemma groups_move:
  assumes "op_total ours (\<lambda>mine. if b mine then op_ok 0 else body mine) (c1\<lparr>ck_events := evs @ ck_events c1\<rparr>) = (Inr n, c')"
    "\<And>x. keeps check_moves (body x)"
  shows "check_moves c1 c'"
proof -
  have "check_moves (c1\<lparr>ck_events := evs @ ck_events c1\<rparr>) c'"
    using keepsD [OF keeps_total [OF keeps_unless [OF assms(2)]] assms(1)] .
  then show ?thesis by (simp add: check_moves_def)
qed

text \<open>One round of a descent: the group of the row is passed over, or looked into.\<close>

lemma groups_account:
  assumes total: "op_total ours (\<lambda>mine. if same_group mine (group_named theirs (gr_name mine)) then op_ok 0 else body mine) c2 = (Inr n, c')"
    and c2: "c2 = c1\<lparr>ck_events := map (\<lambda>g. SameGroup (tab g) (part g) (ck_link c1))
      (filter (\<lambda>g. same_group g (group_named theirs (gr_name g))) ours) @ ck_events c1\<rparr>"
    and g: "g \<in> set ours" "tab g = fst rid" "in_group (fst rid) (part g) rid"
    and ours: "sums_to g (group_sum (le_pr (ce_link ce)) since (lk_db (ck_link c1)) (fst rid) (part g))"
    and theirs: "\<And>g'. g' \<in> set theirs \<Longrightarrow> gr_name g' = gr_name g \<Longrightarrow> sums_to g' (peer_sum (lk_peer (ck_link c1)) since (fst rid) (part g))"
    and steady: "steady rid e c1" and e: "map_of (registry (lk_db (ck_link c'))) rid = Some e"
    and keeps: "\<And>x. keeps check_moves (body x)"
    and deeper: "\<And>m d d'. steady rid e d \<Longrightarrow> body g d = (Inr m, d') \<Longrightarrow> map_of (registry (lk_db (ck_link d'))) rid = Some e \<Longrightarrow>
      accounted since rid e d'"
  shows "accounted since rid e c'"
proof -
  let ?body = "\<lambda>mine. if same_group mine (group_named theirs (gr_name mine)) then op_ok 0 else body mine"
  have kb: "keeps check_moves (?body x)" for x using keeps by simp
  from total g(1) obtain m d d' where run: "check_moves c2 d" "?body g d = (Inr m, d')" "check_moves d' c'"
    by (rule op_total_mem [OF _ _ kb])
  have m12: "check_moves c1 c2" by (auto simp: c2 check_moves_def feed_moves_refl)
  show ?thesis
  proof (cases "same_group g (group_named theirs (gr_name g))")
    case True
    then obtain g' where g': "group_named theirs (gr_name g) = Some g'" by (auto simp: same_group_def split: option.splits)
    note mem = group_named_mem [OF g']
    have "group_sum (le_pr (ce_link ce)) since (lk_db (ck_link c1)) (fst rid) (part g) = peer_sum (lk_peer (ck_link c1)) since (fst rid) (part g)"
      using same_group_sums [of g g'] True g' ours theirs [of g'] mem by simp
    moreover have "map_of (registry (lk_db (ck_link c1))) rid = Some e"
      using record_before [OF steady check_moves_trans [OF m12 keepsD [OF keeps_total [OF kb] total]] e] .
    moreover have "SameGroup (tab g) (part g) (ck_link c1) \<in> set (ck_events c2)" using True g(1) by (simp add: c2)
    then have "SameGroup (fst rid) (part g) (ck_link c1) \<in> set (ck_events c2)" using g(2) by simp
    ultimately have "passed_over since rid e c2" unfolding passed_over_def using g(3) by blast
    then have "accounted since rid e c2" by (simp add: accounted_def)
    then show ?thesis using keepsD [OF keeps_total [OF kb] total] by (rule accounted_mono)
  next
    case False
    with run(2) have go: "body g d = (Inr m, d')" by simp
    have sd: "steady rid e d" using steady_mono [OF steady check_moves_trans [OF m12 run(1)]] .
    from record_before [OF steady_mono [OF sd keepsD [OF keeps go]] run(3) e]
    have "accounted since rid e d'" by (rule deeper [OF sd go])
    then show ?thesis using run(3) by (rule accounted_mono)
  qed
qed

lemma call_digest_Inr:
  assumes "call_digest ce tb p since c = (Inr gs, c1)"
  obtains db' where "ce_digest ce tb p since (lk_db (ck_link c), lk_peer (ck_link c)) = (Inr gs, db', lk_peer (ck_link c1))"
  using assms by (auto simp: call_digest_def on_link_iff elim!: op_bind_InrE split: prod.splits)

lemma descend_accounts:
  "descend ce k (fst rid) p since a b c = (Inr n, c') \<Longrightarrow> steady rid e c \<Longrightarrow>
     map_of (registry (lk_db (ck_link c'))) rid = Some e \<Longrightarrow> counted since e \<Longrightarrow> prefix p (snd rid) \<Longrightarrow>
     find_table (le_catalog (ce_link ce)) (fst rid) = Some info \<Longrightarrow> accounted since rid e c'"
proof (induction k arbitrary: p a b c n c')
  case 0
  then show ?case using compare_rows_accounts by simp
next
  case (Suc k)
  show ?case
  proof (cases "a + b \<le> group_rows_limit \<or> length p \<ge> max_prefix")
    case True
    with Suc.prems show ?thesis using compare_rows_accounts by simp
  next
    case False
    let ?digest = "\<lambda>c. local_digest (le_pr (ce_link ce)) (Some (le_catalog (ce_link ce))) (lk_db (ck_link c)) (Some (fst rid)) p since"
    let ?name = "take (length p + 1) (snd rid)"
    let ?part = "\<lambda>g. Some (p, gr_name g)"
    let ?body = "\<lambda>theirs mine. descend ce k (fst rid) (gr_name mine) since (gr_count mine) (their_count (group_named theirs (gr_name mine)))"
    from False Suc.prems(1) obtain theirs c1 where call: "call_digest ce (Some (fst rid)) p since c = (Inr theirs, c1)"
      and total: "op_total (?digest c1) (\<lambda>mine. if same_group mine (group_named theirs (gr_name mine)) then op_ok 0 else ?body theirs mine)
        (c1\<lparr>ck_events := map (\<lambda>g. SameGroup (fst rid) (?part g) (ck_link c1))
          (filter (\<lambda>g. same_group g (group_named theirs (gr_name g))) (?digest c1)) @ ck_events c1\<rparr>) = (Inr n, c')"
      by (auto elim!: op_bind_InrE)
    have st: "steady rid e c1" using steady_mono [OF Suc.prems(2) keepsD [OF keeps_call_digest call]] .
    have kb: "keeps check_moves (?body theirs x)" for x by (rule keeps_descend)
    have "check_moves c1 c'" using groups_move [OF total kb] .
    then have rec: "map_of (registry (lk_db (ck_link c1))) rid = Some e"
      using record_before [OF st] Suc.prems(3) by blast
    define g where "g = group_of (le_pr (ce_link ce)) ?name (group_rows (lk_db (ck_link c1)) since (fst rid) (Some (p, ?name)))"
    have name: "gr_name g = ?name" by (simp add: g_def group_of_def)
    show ?thesis
    proof (rule groups_account [OF total refl, where g = g])
      show "g \<in> set (?digest c1)"
        unfolding g_def using local_digest_named [OF rec Suc.prems(4) _ Suc.prems(5)] Suc.prems(6) by simp
      show "in_group (fst rid) (?part g) rid" by (simp add: in_group_def name Suc.prems(5))
      show "sums_to g (group_sum (le_pr (ce_link ce)) since (lk_db (ck_link c1)) (fst rid) (?part g))"
        unfolding name by (simp add: g_def sums_to_group_of)
      show "sums_to g' (peer_sum (lk_peer (ck_link c1)) since (fst rid) (?part g))"
        if "g' \<in> set theirs" "gr_name g' = gr_name g" for g'
        using call_digest_Inr [OF call] digest_true that by (metis option.simps(5))
      show "accounted since rid e d'"
        if "steady rid e d" "?body theirs g d = (Inr m, d')" "map_of (registry (lk_db (ck_link d'))) rid = Some e" for m d d'
        using Suc.IH [OF that(2) that(1) that(3) Suc.prems(4) _ Suc.prems(6)] by (simp add: name take_is_prefix)
    qed (use st Suc.prems(3) kb in simp_all)
  qed
qed

lemma check_tables_accounts:
  assumes run: "check_tables ce since c = (Inr n, c')" and steady: "steady rid e c"
    and e: "map_of (registry (lk_db (ck_link c'))) rid = Some e" "counted since e"
    and table: "fst rid \<in> tname ` set (ordered (le_catalog (ce_link ce)))" "find_table (le_catalog (ce_link ce)) (fst rid) = Some info"
  shows "accounted since rid e c'"
proof -
  let ?digest = "\<lambda>c. local_digest (le_pr (ce_link ce)) (Some (le_catalog (ce_link ce))) (lk_db (ck_link c)) None [] since"
  let ?body = "\<lambda>theirs mine. descend ce max_prefix (gr_name mine) [] since (gr_count mine) (their_count (group_named theirs (gr_name mine)))"
  from run obtain theirs c1 where call: "call_digest ce None [] since c = (Inr theirs, c1)"
    and total: "op_total (?digest c1) (\<lambda>mine. if same_group mine (group_named theirs (gr_name mine)) then op_ok 0 else ?body theirs mine)
      (c1\<lparr>ck_events := map (\<lambda>g. SameGroup (gr_name g) None (ck_link c1))
        (filter (\<lambda>g. same_group g (group_named theirs (gr_name g))) (?digest c1)) @ ck_events c1\<rparr>) = (Inr n, c')"
    by (auto simp: check_tables_def elim!: op_bind_InrE)
  have st: "steady rid e c1" using steady_mono [OF steady keepsD [OF keeps_call_digest call]] .
  have kb: "keeps check_moves (?body theirs x)" for x by (rule keeps_descend)
  have "check_moves c1 c'" using groups_move [OF total kb] .
  then have rec: "map_of (registry (lk_db (ck_link c1))) rid = Some e" using record_before [OF st] e(1) by blast
  define g where "g = group_of (le_pr (ce_link ce)) (fst rid) (group_rows (lk_db (ck_link c1)) since (fst rid) None)"
  have name: "gr_name g = fst rid" by (simp add: g_def group_of_def)
  show ?thesis
  proof (rule groups_account [OF total refl, where g = g])
    show "g \<in> set (?digest c1)" unfolding g_def using local_digest_table [OF rec e(2) table(1)] .
    show "sums_to g (group_sum (le_pr (ce_link ce)) since (lk_db (ck_link c1)) (fst rid) None)"
      by (simp add: g_def sums_to_group_of)
    show "sums_to g' (peer_sum (lk_peer (ck_link c1)) since (fst rid) None)" if "g' \<in> set theirs" "gr_name g' = gr_name g" for g'
      using call_digest_Inr [OF call] digest_true that name by (metis option.simps(4))
    show "accounted since rid e d'"
      if "steady rid e d" "?body theirs g d = (Inr m, d')" "map_of (registry (lk_db (ck_link d'))) rid = Some e" for m d d'
      using descend_accounts [of max_prefix rid "[]" since] that e(2) table(2) by (simp add: name)
  qed (use st e(1) kb name in \<open>simp_all add: in_group_def\<close>)
qed

end

end
