(* ===== verification/Verify_Theorems.thy ===== *)
theory Verify_Theorems
  imports Verify_Facts Link_Sample "HOL-Library.Multiset"
begin

text \<open>
  The properties of the data check, over the composed model: the checking node with its other writers, and the
  peer that answers its calls (Receiver, with the applier behind it).
\<close>

section \<open>The composed world keeps the contract\<close>

lemma joined_check_sel [simp]:
  "ce_link (joined_check ce) = joined (ce_link ce)" "ce_digest (joined_check ce) = outside_digest"
  "ce_rows (joined_check ce) = outside_rows" "ce_retention_days (joined_check ce) = ce_retention_days ce"
  by (simp_all add: joined_check_def)

lemma joined_sel: "le_pr (joined env) = le_pr env" "le_catalog (joined env) = le_catalog env"
  by (simp_all add: joined_def)

lemma commit_next_receiver [dest]: "commit_next (db, os) = (db', os') \<Longrightarrow> os_receiver os' = os_receiver os"
  by (auto simp: commit_next_def split: list.splits)

lemma local_rows_held:
  assumes "feed_ok db" "r \<in> set (local_rows db t pre since)" "\<not> compare_versions v \<lparr>version = the (vr_version r), origin = the (vr_origin r)\<rparr> > 0"
  shows "holds db (t, vr_hash r) v"
proof -
  from assms(2) obtain rid e where e: "(rid, e) \<in> set (registry db)" "fst rid = t" "r = registry_row_of rid e"
    by (auto simp: local_rows_def dest!: in_set_takeD)
  then have "map_of (registry db) (t, vr_hash r) = Some e"
    using assms(1) by (cases rid) (auto simp: feed_ok_def registry_row_of_def)
  with assms(3) e(3) show ?thesis
    by (cases "ve_version e") (auto simp: holds_def local_version_def registry_row_of_def)
qed

text \<open>The world with a receiving node that is in order: the first part is the contract of Feed_World.\<close>

definition nodes_ok :: "node_db \<times> outside \<Rightarrow> bool" where
  "nodes_ok w \<longleftrightarrow> world_ok w \<and> feed_ok (rv_db (os_receiver (snd w)))"

definition peer_sum_of :: "outside \<Rightarrow> int \<Rightarrow> string \<Rightarrow> (string \<times> string) option \<Rightarrow> nat \<times> 64 word" where
  "peer_sum_of os since t part =
     group_sum (cx_pr (rv_cx (os_receiver os))) since (rv_db (os_receiver os)) t part"

lemma offer_keeps_receiver: "le_offer (joined env) items (db, p) = (a, db', p') \<Longrightarrow> os_receiver p' = os_receiver p"
  by (auto simp: joined_def outside_offer_def handle_offer_def split: prod.splits if_splits)

lemma push_keeps_receiver_ok:
  assumes "le_push (joined env) bs dr (db, p) = (b, db', p')" "feed_ok (rv_db (os_receiver p))"
  shows "feed_ok (rv_db (os_receiver p'))"
proof -
  from assms(1) have "handle_push (le_self env) bs dr (os_receiver p) = (b, os_receiver p')"
    by (auto simp: joined_def outside_push_def split: prod.splits)
  then show ?thesis
    using handle_push_advances assms(2) by (auto simp: advances_def)
qed

lemma handle_rows_true:
  assumes "handle_rows t pre since rv = Inr (rs, tr)" "(h, w, d) \<in> set rs" "feed_ok (rv_db rv)" "\<not> compare_versions v w > 0"
  shows "taken_over rv (t, h) v"
proof -
  from assms(1, 2) obtain r where r: "r \<in> set (local_rows (rv_db rv) t pre since)" "(h, w, d) = known_row_of r"
    by (auto simp: handle_rows_def Let_def split: if_splits)
  with local_rows_held [OF assms(3) r(1)] assms(4) show ?thesis by (simp add: known_row_of_def taken_over_def)
qed

lemma local_digest_sums:
  "g \<in> set (local_digest pr cat db (Some t) pre since) \<Longrightarrow> sums_to g (group_sum pr since db t (Some (pre, gr_name g)))"
  "g \<in> set (local_digest pr cat db None pre since) \<Longrightarrow> sums_to g (group_sum pr since db (gr_name g) None)"
  using local_digest_mem sums_to_group_of by metis+

lemma handle_digest_true:
  assumes "handle_digest tb pre since rv = Inr gs" "g \<in> set gs"
  shows "sums_to g (case tb of None \<Rightarrow> group_sum (cx_pr (rv_cx rv)) since (rv_db rv) (gr_name g) None
    | Some t \<Rightarrow> group_sum (cx_pr (rv_cx rv)) since (rv_db rv) t (Some (pre, gr_name g)))"
proof -
  from assms have "g \<in> set (local_digest (cx_pr (rv_cx rv)) (cx_catalog (rv_cx rv)) (rv_db rv) tb pre since)"
    by (auto simp: handle_digest_def split: if_splits)
  then show ?thesis
    by (cases tb) (simp_all add: local_digest_sums)
qed

interpretation checked: check_contract "joined_check ce" open_floor nodes_ok "\<lambda>os. taken_over (os_receiver os)"
  "\<lambda>os t. \<not> replicates (os_receiver os) t" peer_sum_of for ce
proof (unfold_locales, unfold joined_check_sel)
  fix db p show "nodes_ok (db, p) \<Longrightarrow> feed_ok db \<and> open_floor (db, p) \<le> next_seq db"
    using world.wf_feed [of db p] by (auto simp: nodes_ok_def)
next
  fix db p items a db' p'
  assume "nodes_ok (db, p)" "le_offer (joined (ce_link ce)) items (db, p) = (a, db', p')"
  then show "nodes_ok (db', p') \<and> open_floor (db, p) \<le> open_floor (db', p') \<and> moved (open_floor (db, p)) db db'"
    using world.offer_moves offer_keeps_receiver by (fastforce simp: nodes_ok_def)
next
  fix db p bs dr b db' p'
  assume "nodes_ok (db, p)" "le_push (joined (ce_link ce)) bs dr (db, p) = (b, db', p')"
  then show "nodes_ok (db', p') \<and> open_floor (db, p) \<le> open_floor (db', p') \<and> moved (open_floor (db, p)) db db'"
    using world.push_moves push_keeps_receiver_ok by (fastforce simp: nodes_ok_def)
next
  fix db p rid key v d via
  assume "nodes_ok (db, p)"
  then show "nodes_ok (put_entry rid key v d via db, p) \<and> open_floor (db, p) \<le> open_floor (put_entry rid key v d via db, p)"
    using world.put_moves by (simp add: nodes_ok_def)
next
  fix items db p want db' p' i
  assume "le_offer (joined (ce_link ce)) items (db, p) = (Inr want, db', p')" "i < length items" "int i \<notin> set want"
  then show "taken_over (os_receiver p') (of_table (items ! i), of_hash (items ! i)) (of_version (items ! i)) \<or>
      \<not> replicates (os_receiver p') (of_table (items ! i))"
    by (rule receiving.offer_true)
next
  fix items db p a db' p' rid v t
  assume "le_offer (joined (ce_link ce)) items (db, p) = (a, db', p')"
  then show "(taken_over (os_receiver p) rid v \<longrightarrow> taken_over (os_receiver p') rid v) \<and>
      (\<not> replicates (os_receiver p) t \<longrightarrow> \<not> replicates (os_receiver p') t)"
    by (rule receiving.offer_keeps)
next
  fix bs dr db p res db' p' i
  assume "le_push (joined (ce_link ce)) bs dr (db, p) = (Inr res, db', p')"
    "length res = length (pushed_rows bs)" "i < length res" "res ! i \<noteq> CHR ''r''"
  then show "case_prod (taken_over (os_receiver p')) (pushed_rows bs ! i)"
    by (rule receiving.push_true)
next
  fix bs dr db p b db' p' rid v t
  assume "le_push (joined (ce_link ce)) bs dr (db, p) = (b, db', p')"
  then show "(taken_over (os_receiver p) rid v \<longrightarrow> taken_over (os_receiver p') rid v) \<and>
      (\<not> replicates (os_receiver p) t \<longrightarrow> \<not> replicates (os_receiver p') t)"
    by (rule receiving.push_keeps)
next
  fix tb pre since db p a db' p'
  assume "outside_digest tb pre since (db, p) = (a, db', p')" "nodes_ok (db, p)"
  then show "nodes_ok (db', p') \<and> open_floor (db, p) \<le> open_floor (db', p') \<and> moved (open_floor (db, p)) db db'"
    using commit_next_ok [of db p db' p'] by (auto simp: outside_digest_def nodes_ok_def)
next
  fix tb pre since db p a db' p' rid v t
  assume "outside_digest tb pre since (db, p) = (a, db', p')"
  then show "(taken_over (os_receiver p) rid v \<longrightarrow> taken_over (os_receiver p') rid v) \<and>
      (\<not> replicates (os_receiver p) t \<longrightarrow> \<not> replicates (os_receiver p') t)"
    by (auto simp: outside_digest_def)
next
  fix tb pre since db p gs db' p' g
  assume "outside_digest tb pre since (db, p) = (Inr gs, db', p')" "g \<in> set gs"
  moreover from this(1) have "os_receiver p' = os_receiver p" by (auto simp: outside_digest_def)
  ultimately show "sums_to g (case tb of None \<Rightarrow> peer_sum_of p' since (gr_name g) None
      | Some t \<Rightarrow> peer_sum_of p' since t (Some (pre, gr_name g)))"
    using handle_digest_true [of tb pre since "os_receiver p" gs g]
    by (cases tb) (auto simp: outside_digest_def peer_sum_of_def)
next
  fix t pre since db p b db' p'
  assume "outside_rows t pre since (db, p) = (b, db', p')" "nodes_ok (db, p)"
  then show "nodes_ok (db', p') \<and> open_floor (db, p) \<le> open_floor (db', p') \<and> moved (open_floor (db, p)) db db'"
    using commit_next_ok [of db p db' p'] by (auto simp: outside_rows_def nodes_ok_def)
next
  fix t' pre since db p b db' p' rid v t
  assume "outside_rows t' pre since (db, p) = (b, db', p')"
  then show "(taken_over (os_receiver p) rid v \<longrightarrow> taken_over (os_receiver p') rid v) \<and>
      (\<not> replicates (os_receiver p) t \<longrightarrow> \<not> replicates (os_receiver p') t)"
    by (auto simp: outside_rows_def)
next
  fix t pre since db p rs tr db' p' h w d v
  assume "outside_rows t pre since (db, p) = (Inr (rs, tr), db', p')" "nodes_ok (db, p)" "(h, w, d) \<in> set rs"
    "\<not> compare_versions v w > 0"
  then show "taken_over (os_receiver p') (t, h) v"
    using handle_rows_true [of t pre since "os_receiver p" rs tr h w d v] by (auto simp: outside_rows_def nodes_ok_def)
qed


section \<open>A check leaves nothing behind\<close>

text \<open>C3: A data check that goes through accounts for every record. Whatever other writers commit meanwhile: a
  record of a replicated table that this node held before the check (no open transaction precedes it in the
  feed) and still holds in the end, and that is not an old tombstone, is held by the peer in that version or
  a newer one, or waits in the peer's table of set-aside changes in that version or a newer one (or was cleared from there
  by a pushed change of the same number that the peer holds), or belongs to a table the peer does not replicate;
  the only other cases are a group whose summaries, number of rows and XOR of their hashes, were the same on
  both nodes, a group of more than 20 000 rows under four characters of the hash, and a row that was offered and
  that the delivery reported as not taken, or that had disappeared here when it was to be read.\<close>

theorem data_check_accounts_for_every_record:
  fixes c :: "outside check"
  assumes run: "verify_peer (joined_check ce) c = (n, c')" "\<not> ck_running c" "ck_last_error c' = None"
    and start: "nodes_ok (lk_db (ck_link c), lk_peer (ck_link c))" "ve_seq e < open_floor (lk_db (ck_link c), lk_peer (ck_link c))"
    and e: "map_of (registry (lk_db (ck_link c'))) rid = Some e" "counted (verify_floor ce (lk_now (ck_link c))) e"
    and table: "fst rid \<in> tname ` set (ordered (le_catalog (ce_link ce)))"
      "find_table (le_catalog (ce_link ce)) (fst rid) = Some info"
  shows "taken_over (os_receiver (lk_peer (ck_link c'))) rid (ve_version e) \<or>
    \<not> replicates (os_receiver (lk_peer (ck_link c'))) (fst rid) \<or>
    (\<exists>part l. SameGroup (fst rid) part l \<in> set (ck_events c') \<and> in_group (fst rid) part rid \<and>
       map_of (registry (lk_db l)) rid = Some e \<and>
       group_sum (le_pr (ce_link ce)) (verify_floor ce (lk_now (ck_link c))) (lk_db l) (fst rid) part =
       peer_sum_of (lk_peer l) (verify_floor ce (lk_now (ck_link c))) (fst rid) part) \<or>
    (\<exists>p l. RowsCompared (fst rid) p l \<in> set (ck_events c') \<and> prefix p (snd rid) \<and>
       rows_limit < length (filter (\<lambda>(r, x). fst r = fst rid \<and> prefix p (snd r) \<and>
         counted (verify_floor ce (lk_now (ck_link c))) x) (registry (lk_db l)))) \<or>
    (\<exists>t rs l l' d. RowsOffered t rs l l' \<in> set (ck_events c') \<and> tname t = fst rid \<and> registry_row_of rid e \<in> set rs \<and>
       deliver (joined (ce_link ce)) (transfer_entries t rs) False l = (Inr d, l') \<and>
       (row_entry t rid e \<in> set (dl_unsettled d) \<or> gone_missing (joined (ce_link ce)) (transfer_entries t rs) (row_entry t rid e) l))"
proof -
  let ?since = "verify_floor ce (lk_now (ck_link c))" and ?c = "c\<lparr>ck_running := True\<rparr>"
  have since: "verify_floor (joined_check ce) = verify_floor ce" by (simp add: verify_floor_def fun_eq_iff)
  from run obtain c1 where check: "check_tables (joined_check ce) ?since ?c = (Inr n, c1)"
    and same: "ck_link c' = ck_link c1" "ck_events c' = ck_events c1"
    by (auto simp: verify_peer_def since Let_def split: prod.splits sum.splits)
  have "checked.steady rid e ?c" using start by (simp add: checked.steady_def)
  from checked.check_tables_accounts [OF check this, of info] e table
  have "checked.accounted ce ?since rid e c1" by (simp add: same joined_def)
  then show ?thesis
    by (simp add: checked.accounted_def checked.passed_over_def checked.cut_off_def checked.not_taken_def same joined_sel)
qed

definition sample_check_env :: "outside check_env" where
  "sample_check_env = \<lparr>ce_link = sample_link_env, ce_retention_days = 90,
     ce_digest = (\<lambda>t p s w. (Inr [], w)), ce_rows = (\<lambda>t p s w. (Inr ([], False), w))\<rparr>"

text \<open>The peer has nothing of the one row this node holds.\<close>

definition sample_check :: "outside check" where
  "sample_check = \<lparr>ck_link = sample_link\<lparr>lk_db := (lk_db sample_link)\<lparr>clock := 10000000000\<rparr>\<rparr>, ck_running = False,
     ck_last_at = None, ck_repaired = 0, ck_last_error = None, ck_verified_at = None, ck_events = []\<rparr>"

definition sample_since :: int where
  "sample_since = verify_floor sample_check_env 10000000000"

definition sample_running :: "outside check" where
  "sample_running = sample_check\<lparr>ck_running := True\<rparr>"

lemma sample_digest_names:
  "map gr_name (local_digest link_primitives (Some (le_catalog sample_link_env)) (lk_db (ck_link sample_running)) None [] sample_since) = [''t'']"
  by code_simp

lemma sample_digest_counts:
  "map gr_count (local_digest link_primitives (Some (le_catalog sample_link_env)) (lk_db (ck_link sample_running)) None [] sample_since) = [1]"
  by code_simp

lemma sample_peer_has_nothing:
  "fst (outside_digest None [] sample_since (lk_db (ck_link sample_running), lk_peer (ck_link sample_running))) = Inr []"
  by code_simp

lemma sample_check_call:
  "call_digest (joined_check sample_check_env) None [] sample_since sample_running = (Inr [], sample_running)"
proof -
  from sample_peer_has_nothing
  have "outside_digest None [] sample_since (lk_db (ck_link sample_running), lk_peer (ck_link sample_running)) =
      (Inr [], lk_db (ck_link sample_running), lk_peer (ck_link sample_running))"
    by (simp add: outside_digest_def commit_next_def sample_running_def sample_check_def sample_link_def)
  then show ?thesis
    by (simp add: call_digest_def on_link_def op_bind_def op_check_def op_ok_def digest_reply_ok_def)
qed

text \<open>The one table differs and is small enough to be compared row by row.\<close>

lemma sample_check_compares:
  "check_tables (joined_check sample_check_env) sample_since sample_running =
     compare_rows (joined_check sample_check_env) ''t'' [] sample_since sample_running"
proof -
  let ?d = "local_digest link_primitives (Some (le_catalog sample_link_env)) (lk_db (ck_link sample_running)) None [] sample_since"
  from sample_digest_names obtain g where d: "?d = [g]" "gr_name g = ''t''" by (auto simp: map_eq_Cons_conv)
  with sample_digest_counts have count: "gr_count g = 1" by simp
  have sel: "le_pr (ce_link (joined_check sample_check_env)) = link_primitives"
    "le_catalog (ce_link (joined_check sample_check_env)) = le_catalog sample_link_env"
    by (simp_all add: joined_sel sample_check_env_def) (simp add: sample_link_env_def)
  have "descend (joined_check sample_check_env) max_prefix ''t'' [] sample_since 1 0 c =
      compare_rows (joined_check sample_check_env) ''t'' [] sample_since c" for c
    by (simp add: max_prefix_def group_rows_limit_def eval_nat_numeral)
  then show ?thesis
    unfolding check_tables_def sel
    by (simp add: op_bind_def sample_check_call op_read_def d(1) note_event_def op_write_def group_named_def
        same_group_def d(2) count their_count_def op_ok_def split: prod.split sum.split)
qed

definition sample_checked :: "nat \<times> outside check" where
  "sample_checked = verify_peer (joined_check sample_check_env) sample_check"

definition sample_compared :: "(string + nat) \<times> outside check" where
  "sample_compared = compare_rows (joined_check sample_check_env) ''t'' [] sample_since sample_running"

lemma sample_compared_run:
  "fst sample_compared = Inr 1"
  "map_of (registry (lk_db (ck_link (snd sample_compared)))) (''t'', sample_key_hash) = Some (sample_record False)"
  "replicates (os_receiver (lk_peer (ck_link (snd sample_compared)))) ''t''"
  "list_all (\<lambda>ev. case ev of SameGroup t p l \<Rightarrow> False | RowsCompared t p l \<Rightarrow> length (registry (lk_db l)) = 1
    | RowsOffered t rs l l' \<Rightarrow> (case deliver (joined sample_link_env) (transfer_entries t rs) False l of
        (Inr d, l1) \<Rightarrow> dl_unsettled d = [] | _ \<Rightarrow> False) \<and>
        (case offer_entries (joined sample_link_env) (transfer_entries t rs) l of
          (Inr (w, dc), l1) \<Rightarrow> list_all (row_present (joined sample_link_env) (lk_db l1)) (transfer_entries t rs) | _ \<Rightarrow> False))
      (ck_events (snd sample_compared))"
  by code_simp+


lemma sample_checked_run:
  "sample_checked = (1, (snd sample_compared)\<lparr>ck_running := False,
     ck_last_at := Some (lk_now (ck_link (snd sample_compared))), ck_repaired := 1, ck_last_error := None,
     ck_verified_at := Some (lk_now (ck_link (snd sample_compared)))\<rparr>)"
proof -
  have since: "verify_floor (joined_check sample_check_env) (lk_now (ck_link sample_check)) = sample_since"
    by (simp add: sample_since_def verify_floor_def sample_check_def lk_now_def)
  have "sample_compared = (Inr 1, snd sample_compared)" using sample_compared_run(1) by (metis prod.collapse)
  then have "check_tables (joined_check sample_check_env) sample_since sample_running = (Inr 1, snd sample_compared)"
    unfolding sample_check_compares by (simp add: sample_compared_def)
  moreover have "\<not> ck_running sample_check" by (simp add: sample_check_def)
  ultimately show ?thesis
    by (simp add: sample_checked_def verify_peer_def since sample_running_def [symmetric] Let_def)
qed

lemma sample_events:
  "SameGroup t part l \<notin> set (ck_events (snd sample_compared))"
  "RowsCompared t p l \<in> set (ck_events (snd sample_compared)) \<Longrightarrow> \<not> rows_limit < length (filter P (registry (lk_db l)))"
  "RowsOffered info rs l l' \<in> set (ck_events (snd sample_compared)) \<Longrightarrow> registry_row_of rid e \<in> set rs \<Longrightarrow>
     deliver (joined sample_link_env) (transfer_entries info rs) False l = (Inr d, l') \<Longrightarrow>
     row_entry info rid e \<notin> set (dl_unsettled d) \<and> \<not> gone_missing (joined sample_link_env) (transfer_entries info rs) (row_entry info rid e) l"
proof -
  note run = sample_compared_run(4) [unfolded list_all_iff]
  show "SameGroup t part l \<notin> set (ck_events (snd sample_compared))" using run by auto
  show "\<not> rows_limit < length (filter P (registry (lk_db l)))" if "RowsCompared t p l \<in> set (ck_events (snd sample_compared))"
  proof -
    from bspec [OF run that] have "length (registry (lk_db l)) = 1" by simp
    then show ?thesis using length_filter_le [of P "registry (lk_db l)"] by (simp add: rows_limit_def)
  qed
  show "row_entry info rid e \<notin> set (dl_unsettled d) \<and> \<not> gone_missing (joined sample_link_env) (transfer_entries info rs) (row_entry info rid e) l"
    if "RowsOffered info rs l l' \<in> set (ck_events (snd sample_compared))" "registry_row_of rid e \<in> set rs"
      "deliver (joined sample_link_env) (transfer_entries info rs) False l = (Inr d, l')"
    using bspec [OF run that(1)] row_entry_in_transfer [OF that(2), of info] that(3) by (auto simp: gone_missing_def)
qed

lemma data_check_accounts_for_every_record_witness:
  "taken_over (os_receiver (lk_peer (ck_link (snd sample_checked)))) (''t'', sample_key_hash) \<lparr>version = 7, origin = ''node-0001''\<rparr>"
proof -
  let ?c = "(snd sample_compared)\<lparr>ck_running := False, ck_last_at := Some (lk_now (ck_link (snd sample_compared))),
     ck_repaired := 1, ck_last_error := None, ck_verified_at := Some (lk_now (ck_link (snd sample_compared)))\<rparr>"
  have ok: "nodes_ok (lk_db (ck_link sample_check), lk_peer (ck_link sample_check))"
    by (auto simp: nodes_ok_def world_ok_def feed_ok_def sample_check_def sample_link_def sample_db_def sample_record_def
        sample_receiver_def)
  have early: "ve_seq (sample_record False) < open_floor (lk_db (ck_link sample_check), lk_peer (ck_link sample_check))"
    by (simp add: sample_check_def sample_link_def sample_record_def open_floor_def)
  have tab: "fst (''t'', sample_key_hash) \<in> tname ` set (ordered (le_catalog (ce_link sample_check_env)))"
    "find_table (le_catalog (ce_link sample_check_env)) (fst (''t'', sample_key_hash)) = Some sample_table"
    by (simp_all add: sample_check_env_def sample_link_env_def find_table_def sample_table_def)
  have "\<not> ck_running sample_check" "ck_last_error ?c = None" "map_of (registry (lk_db (ck_link ?c))) (''t'', sample_key_hash) = Some (sample_record False)"
    "counted (verify_floor sample_check_env (lk_now (ck_link sample_check))) (sample_record False)"
    using sample_compared_run(2) by (simp_all add: sample_check_def counted_def sample_record_def)
  note data_check_accounts_for_every_record [OF sample_checked_run [unfolded sample_checked_def] this(1, 2) ok early this(3, 4) tab]
  moreover have "ce_link sample_check_env = sample_link_env" by (simp add: sample_check_env_def)
  ultimately show ?thesis
    using sample_compared_run(3) sample_events(1) sample_events(2) sample_events(3)
    by (simp add: sample_checked_run sample_record_def) blast
qed


section \<open>Nodes that agree\<close>

text \<open>The same versions of the same rows, whatever their places in the feeds.\<close>

definition same_records :: "node_db \<Rightarrow> node_db \<Rightarrow> bool" where
  "same_records a b \<longleftrightarrow> (\<forall>rid. map_option (\<lambda>e. (ve_version e, ve_deleted e)) (map_of (registry a) rid) =
     map_option (\<lambda>e. (ve_version e, ve_deleted e)) (map_of (registry b) rid))"

definition record_view :: "row_id \<times> version_entry \<Rightarrow> row_id \<times> row_version \<times> bool" where
  "record_view = (\<lambda>(rid, e). (rid, ve_version e, ve_deleted e))"

definition view_hash :: "primitives \<Rightarrow> row_id \<times> row_version \<times> bool \<Rightarrow> 64 word" where
  "view_hash pr = (\<lambda>(rid, v, d). row_hash pr (rid, \<lparr>ve_pk = [], ve_version = v, ve_via = None, ve_deleted = d,
     ve_changed_at = 0, ve_seq = 0\<rparr>))"

lemma row_hash_view: "row_hash pr r = view_hash pr (record_view r)"
  by (cases r) (simp add: view_hash_def record_view_def row_hash_text_def)

lemma same_records_mset:
  assumes "feed_ok a" "feed_ok b" "same_records a b"
  shows "mset (map record_view (registry a)) = mset (map record_view (registry b))"
proof -
  have view: "record_view x \<in> record_view ` set (registry b)"
    if "x \<in> set (registry a)" "feed_ok a" "same_records a b" for x a b
  proof -
    obtain rid e where x: "x = (rid, e)" by fastforce
    with that(1, 2) have "map_of (registry a) rid = Some e" by (auto simp: feed_ok_def)
    with that(3) [unfolded same_records_def, rule_format, of rid]
    obtain f where f: "map_of (registry b) rid = Some f" "ve_version f = ve_version e" "ve_deleted f = ve_deleted e"
      by (cases "map_of (registry b) rid") auto
    from map_of_SomeD [OF f(1)] show ?thesis by (rule rev_image_eqI) (simp add: x record_view_def f(2, 3))
  qed
  have dist: "distinct (map record_view (registry a))" if "feed_ok a" for a
  proof -
    have "map fst (map record_view (registry a)) = map fst (registry a)" by (simp add: record_view_def case_prod_beta)
    moreover have "distinct (map fst (registry a))" using that by (simp add: feed_ok_def)
    ultimately have "distinct (map fst (map record_view (registry a)))" by metis
    then show ?thesis by (simp only: distinct_map)
  qed
  from assms(3) have swapped: "same_records b a" by (simp add: same_records_def)
  have "set (map record_view (registry a)) = set (map record_view (registry b))"
    using view [OF _ assms(1, 3)] view [OF _ assms(2) swapped] by auto
  with set_eq_iff_mset_eq_distinct [OF dist dist] assms show ?thesis by blast
qed

lemma filter_record_view:
  "filter (\<lambda>(rid, v, d). in_group t part rid \<and> \<not> (d \<and> version v < since)) (map record_view xs) =
     map record_view (filter (\<lambda>(rid, e). in_group t part rid \<and> counted since e) xs)"
  by (induction xs) (auto simp: record_view_def counted_def)

lemma group_sum_view:
  "group_sum pr since db t part = (let vs = filter (\<lambda>(rid, v, d). in_group t part rid \<and> \<not> (d \<and> version v < since))
     (map record_view (registry db)) in (length vs, fold (\<lambda>h x. xor x h) (map (view_hash pr) vs) 0))"
proof -
  have "filter (\<lambda>(rid, v, d). in_group t part rid \<and> \<not> (d \<and> version v < since)) (map record_view (registry db)) =
      map record_view (group_rows db since t part)"
    unfolding group_rows_def by (rule filter_record_view)
  then show ?thesis
    by (simp add: group_sum_def Let_def fold_map comp_def row_hash_view)
qed

lemma same_records_group_sum:
  assumes "feed_ok a" "feed_ok b" "same_records a b"
  shows "group_sum pr since a t part = group_sum pr since b t part"
proof -
  let ?P = "\<lambda>(rid, v, d). in_group t part rid \<and> \<not> (d \<and> version v < since)"
  have m: "mset (filter ?P (map record_view (registry a))) = mset (filter ?P (map record_view (registry b)))"
    using same_records_mset [OF assms] by simp
  then have "mset (map (view_hash pr) (filter ?P (map record_view (registry a)))) =
      mset (map (view_hash pr) (filter ?P (map record_view (registry b))))" by simp
  then have "fold (\<lambda>h x. xor x h) (map (view_hash pr) (filter ?P (map record_view (registry a)))) =
      fold (\<lambda>h x. xor x h) (map (view_hash pr) (filter ?P (map record_view (registry b))))"
    by (rule fold_multiset_equiv [rotated]) (simp add: fun_eq_iff ac_simps)
  with mset_eq_length [OF m] show ?thesis unfolding group_sum_view Let_def by simp
qed


lemma group_of_reply_ok:
  "utf16_length name \<le> 64 \<Longrightarrow> utf16_length (gr_name (group_of pr name rs)) \<le> 64 \<and>
     1 \<le> length (gr_xor (group_of pr name rs)) \<and> length (gr_xor (group_of pr name rs)) \<le> 20 \<and>
     list_all is_digit (gr_xor (group_of pr name rs))"
proof -
  have "unat (fold (\<lambda>r x. xor x (row_hash pr r)) rs 0) < 2 ^ LENGTH(64)" by (rule unsigned_less)
  also have "\<dots> \<le> 10 ^ 20" by simp
  finally have "unat (fold (\<lambda>r x. xor x (row_hash pr r)) rs 0) < 10 ^ 20" .
  moreover assume "utf16_length name \<le> 64"
  ultimately show ?thesis
    using length_dec_string_le [of _ 20] dec_string_nonempty
    by (simp add: group_of_def list_all_iff digits_dec_string Suc_le_eq)
qed

lemma op_total_zero: "(\<And>x. x \<in> set xs \<Longrightarrow> body x = op_ok 0) \<Longrightarrow> op_total xs body = op_ok 0"
  by (induction xs) (auto simp: op_bind_def op_ok_def fun_eq_iff)

lemma same_digest_names:
  assumes "g \<in> set (local_digest pr (Some cat) a None p since)" "feed_ok a" "feed_ok b" "same_records a b"
    and tables: "set (map tname (ordered cat')) = set (map tname (ordered cat))"
  shows "gr_name g \<in> gr_name ` set (local_digest pr' (Some cat') b None p since)"
proof -
  from assms(1) obtain rid e where e: "(rid, e) \<in> set (registry a)" "fst rid \<in> tname ` set (ordered cat)" "counted since e"
    "gr_name g = fst rid"
    by (auto simp: local_digest_def group_of_def)
  from e(1) assms(2) have "map_of (registry a) rid = Some e" by (cases rid) (auto simp: feed_ok_def)
  with assms(4) [unfolded same_records_def, rule_format, of rid]
  obtain f where f: "map_of (registry b) rid = Some f" "ve_version f = ve_version e" "ve_deleted f = ve_deleted e"
    by (cases "map_of (registry b) rid") auto
  have "counted since f" "fst rid \<in> tname ` set (ordered cat')" using e f tables by (auto simp: counted_def)
  from local_digest_table [OF f(1) this] show ?thesis by (rule rev_image_eqI) (simp add: e(4) group_of_def)
qed

text \<open>A peer whose line is watched: every call that goes out is written down, and answered as before.\<close>

datatype peer_call =
    DigestCall "string option" string int
  | RowsCall string string int
  | OfferCall "offer_item list"
  | PushCall "wire_batch list" bool

definition watched ::
    "peer_call \<Rightarrow> (node_db \<times> 'p \<Rightarrow> 'r \<times> node_db \<times> 'p) \<Rightarrow> node_db \<times> 'p \<times> peer_call list \<Rightarrow>
     'r \<times> node_db \<times> 'p \<times> peer_call list" where
  "watched call f = (\<lambda>(db, p, calls). let (r, db', p') = f (db, p) in (r, db', p', calls @ [call]))"

definition watched_link :: "'p link_env \<Rightarrow> ('p \<times> peer_call list) link_env" where
  "watched_link env =
     \<lparr>le_sql = le_sql env, le_pr = le_pr env, le_host = le_host env, le_catalog = le_catalog env, le_self = le_self env,
      le_peer_id = le_peer_id env, le_startup_seq = le_startup_seq env, le_batch_size = le_batch_size env,
      le_max_message = le_max_message env, le_horizon = le_horizon env, le_batch_idle = le_batch_idle env,
      le_batch_max_delay = le_batch_max_delay env,
      le_offer = (\<lambda>items. watched (OfferCall items) (le_offer env items)),
      le_push = (\<lambda>batches drained. watched (PushCall batches drained) (le_push env batches drained))\<rparr>"

definition watched_check :: "'p check_env \<Rightarrow> ('p \<times> peer_call list) check_env" where
  "watched_check env =
     \<lparr>ce_link = watched_link (ce_link env), ce_retention_days = ce_retention_days env,
      ce_digest = (\<lambda>t p s. watched (DigestCall t p s) (ce_digest env t p s)),
      ce_rows = (\<lambda>t p s. watched (RowsCall t p s) (ce_rows env t p s))\<rparr>"

lemma watched_sel:
  "le_pr (ce_link (watched_check env)) = le_pr (ce_link env)"
  "le_catalog (ce_link (watched_check env)) = le_catalog (ce_link env)"
  "verify_floor (watched_check env) = verify_floor env"
  by (simp_all add: watched_check_def watched_link_def verify_floor_def fun_eq_iff)

text \<open>C31: Nodes that agree exchange one summary per table and nothing else: when both hold the same versions of
  the same rows (in whatever order and with whatever places in the feed) and replicate the same tables, a check
  makes a single call, the digest over all tables, and none for rows, offers or changes; every summary of a
  table is found the same; the check ends without an error and leaves both databases as they were.\<close>

theorem agreeing_nodes_send_nothing:
  fixes c :: "(outside \<times> peer_call list) check"
  assumes idle: "\<not> ck_running c" "lk_peer (ck_link c) = (os, calls)" "os_open os = []"
    and peer: "os_receiver os = rv" "rv_may rv" "cx_pr (rv_cx rv) = le_pr (ce_link ce)"
      "cx_catalog (rv_cx rv) = Some cat"
    and tables: "set (map tname (ordered cat)) = set (map tname (ordered (le_catalog (ce_link ce))))"
      "length (ordered cat) \<le> 4096" "\<forall>t \<in> set (ordered cat). utf16_length (tname t) \<le> 64"
    and since: "wire_version_ok (verify_floor ce (lk_now (ck_link c)))"
    and same: "feed_ok (lk_db (ck_link c))" "feed_ok (rv_db rv)" "same_records (lk_db (ck_link c)) (rv_db rv)"
  shows "fst (verify_peer (watched_check (joined_check ce)) c) = 0 \<and>
    ck_link (snd (verify_peer (watched_check (joined_check ce)) c)) = (ck_link c)
      \<lparr>lk_peer := (os, calls @ [DigestCall None [] (verify_floor ce (lk_now (ck_link c)))])\<rparr> \<and>
    ck_events (snd (verify_peer (watched_check (joined_check ce)) c)) =
      map (\<lambda>g. SameGroup (gr_name g) None (ck_link (snd (verify_peer (watched_check (joined_check ce)) c))))
        (local_digest (le_pr (ce_link ce)) (Some (le_catalog (ce_link ce))) (lk_db (ck_link c)) None []
          (verify_floor ce (lk_now (ck_link c)))) @ ck_events c \<and>
    ck_last_error (snd (verify_peer (watched_check (joined_check ce)) c)) = None"
proof -
  let ?since = "verify_floor ce (lk_now (ck_link c))" and ?c = "c\<lparr>ck_running := True\<rparr>"
  let ?l = "(ck_link c)\<lparr>lk_peer := (os, calls @ [DigestCall None [] ?since])\<rparr>"
  let ?gs = "local_digest (cx_pr (rv_cx rv)) (cx_catalog (rv_cx rv)) (rv_db rv) None [] ?since"
  let ?ours = "local_digest (le_pr (ce_link ce)) (Some (le_catalog (ce_link ce))) (lk_db (ck_link c)) None [] ?since"
  have names: "set (map gr_name ?gs) \<subseteq> tname ` set (ordered cat)" "distinct (map gr_name ?gs)"
    by (auto simp: local_digest_def peer(4) group_of_def comp_def)
  have "length ?gs = card (set (map gr_name ?gs))" using distinct_card [OF names(2)] by simp
  also have "\<dots> \<le> card (tname ` set (ordered cat))" using names(1) by (intro card_mono) auto
  also have "\<dots> \<le> length (ordered cat)" using card_length [of "map tname (ordered cat)"] by simp
  finally have len: "length ?gs \<le> 4096" using tables(2) by simp
  have ok: "digest_reply_ok ?gs"
    using len tables(3) group_of_reply_ok by (auto simp: digest_reply_ok_def list_all_iff local_digest_def peer(4))
  have request: "digest_request_ok None [] ?since" by (simp add: digest_request_ok_def prefix_ok_def since)
  have call: "call_digest (watched_check (joined_check ce)) None [] ?since ?c = (Inr ?gs, ?c\<lparr>ck_link := ?l\<rparr>)"
    using ok peer request idle(2, 3)
    by (simp add: call_digest_def on_link_def op_bind_def op_check_def op_ok_def outside_digest_def handle_digest_def
        commit_next_def watched_check_def watched_def)
  have same_all: "same_group g (group_named ?gs (gr_name g))" if "g \<in> set ?ours" for g
  proof -
    note sum = local_digest_sums(2) [OF that]
    have "gr_name g \<in> set (map gr_name ?gs)" using same_digest_names [OF that same] tables(1) by (simp add: peer(4))
    then obtain g' where g': "group_named ?gs (gr_name g) = Some g'"
      by (force simp: group_named_def map_of_eq_None_iff)
    from local_digest_sums(2) group_named_mem [OF this] have "sums_to g' (group_sum (cx_pr (rv_cx rv)) ?since (rv_db rv) (gr_name g) None)"
      by metis
    with sum have "same_group g (Some g')"
      by (simp add: same_group_def sums_to_def peer(3) same_records_group_sum [OF same])
    then show ?thesis by (simp only: g')
  qed
  have all: "filter (\<lambda>g. same_group g (group_named ?gs (gr_name g))) ?ours = ?ours"
    using same_all by (simp add: filter_id_conv)
  have "check_tables (watched_check (joined_check ce)) ?since ?c = (Inr 0, ?c\<lparr>ck_link := ?l, ck_events :=
      map (\<lambda>g. SameGroup (gr_name g) None ?l) ?ours @ ck_events c\<rparr>)"
    using same_all all by (simp add: check_tables_def op_bind_def call op_read_def note_event_def op_write_def watched_sel joined_sel
        op_total_zero op_ok_def)
  then show ?thesis
    using idle(1) by (simp add: verify_peer_def watched_sel verify_floor_def Let_def)
qed

text \<open>The peer holds the same row, at another place in its own feed.\<close>

definition sample_peer :: outside where
  "sample_peer = \<lparr>os_receiver = sample_receiver\<lparr>rv_db := sample_db\<lparr>registry :=
     [((''t'', sample_key_hash), (sample_record False)\<lparr>ve_seq := 5\<rparr>)], next_seq := 6\<rparr>\<rparr>, os_open = []\<rparr>"

definition sample_agreed :: "(outside \<times> peer_call list) check" where
  "sample_agreed = \<lparr>ck_link = \<lparr>lk_db = lk_db (ck_link sample_check), lk_peer = (sample_peer, []),
       lk_row = lk_row sample_link, lk_feed = lk_feed sample_link, lk_rows_sent = 0, lk_transfer_active = False,
       lk_samples = [], lk_given = []\<rparr>,
     ck_running = False, ck_last_at = None, ck_repaired = 0, ck_last_error = None, ck_verified_at = None, ck_events = []\<rparr>"

lemma agreeing_nodes_send_nothing_witness:
  "fst (verify_peer (watched_check (joined_check sample_check_env)) sample_agreed) = 0 \<and>
   snd (lk_peer (ck_link (snd (verify_peer (watched_check (joined_check sample_check_env)) sample_agreed)))) =
     [DigestCall None [] sample_since] \<and>
   ck_last_error (snd (verify_peer (watched_check (joined_check sample_check_env)) sample_agreed)) = None"
proof -
  have now: "verify_floor sample_check_env (lk_now (ck_link sample_agreed)) = sample_since"
    by (simp add: sample_agreed_def sample_since_def sample_check_def sample_link_def lk_now_def)
  have "fst (verify_peer (watched_check (joined_check sample_check_env)) sample_agreed) = 0 \<and>
    ck_link (snd (verify_peer (watched_check (joined_check sample_check_env)) sample_agreed)) = (ck_link sample_agreed)
      \<lparr>lk_peer := (sample_peer, [] @ [DigestCall None [] (verify_floor sample_check_env (lk_now (ck_link sample_agreed)))])\<rparr> \<and>
    ck_events (snd (verify_peer (watched_check (joined_check sample_check_env)) sample_agreed)) =
      map (\<lambda>g. SameGroup (gr_name g) None (ck_link (snd (verify_peer (watched_check (joined_check sample_check_env)) sample_agreed))))
        (local_digest (le_pr (ce_link sample_check_env)) (Some (le_catalog (ce_link sample_check_env)))
          (lk_db (ck_link sample_agreed)) None [] (verify_floor sample_check_env (lk_now (ck_link sample_agreed)))) @
        ck_events sample_agreed \<and>
    ck_last_error (snd (verify_peer (watched_check (joined_check sample_check_env)) sample_agreed)) = None"
    by (rule agreeing_nodes_send_nothing [OF _ _ _ refl, where cat = "le_catalog sample_link_env"])
      (auto simp: sample_agreed_def sample_peer_def sample_check_def sample_check_env_def sample_link_def sample_link_env_def
        sample_receiver_def sample_cx_def sample_ctx_def sample_table_def utf16_length_def wire_version_ok_def verify_floor_def
        lk_now_def feed_ok_def sample_db_def sample_record_def same_records_def)
  then show ?thesis by (simp add: now)
qed

end
