(* ===== verification/Peer_Store.thy ===== *)
theory Peer_Store
  imports Crypto Endpoints Receiver
begin

text \<open>
  \<^verbatim>\<open>src/cluster/store.ts\<close>: the rows of \<^verbatim>\<open>cluster_peers\<close> and the operations on them, and the row of
  \<^verbatim>\<open>cluster_node\<close>; with \<open>normalizePeerAddress\<close> of \<^verbatim>\<open>src/cluster/health.ts\<close>. Key material is stored wrapped
  (Crypto). The nonce of a wrapping, a new row's id and the clock are arguments; JSON texts of lists and the
  URL parser are fields of \<open>store_env\<close>. An operation that throws gives \<open>Inl\<close> and leaves the rows alone.
\<close>

section \<open>Addresses\<close>

definition scheme_prefix :: "string \<Rightarrow> bool" where
  "scheme_prefix s \<longleftrightarrow>
     (let scheme = takeWhile (\<lambda>c. is_letter c \<or> is_digit c \<or> c \<in> set ''+.-'') s
      in scheme \<noteq> [] \<and> is_letter (hd scheme) \<and> starts_with ''://'' (drop (length scheme) s))"

definition default_peer_port :: nat where "default_peer_port = 4000"

definition bare_ipv6 :: "string \<Rightarrow> bool" where
  "bare_ipv6 s \<longleftrightarrow> \<not> starts_with ''['' s \<and> 1 < length (filter (\<lambda>c. c = CHR '':'') s)"

definition address_candidate :: "string \<Rightarrow> string" where
  "address_candidate raw =
     (if scheme_prefix raw then raw else ''http://'' @ (if bare_ipv6 raw then ''['' @ raw @ '']'' else raw))"

definition normalize_peer_address :: "url_parser \<Rightarrow> string \<Rightarrow> string + string" where
  "normalize_peer_address parse_url given =
     (let raw = trim given
      in if raw = [] then Inl ''Address is required''
         else if 255 < length raw then Inl ''Address is too long''
         else if list_ex is_space raw then Inl ''Address must not contain spaces''
         else case parse_url (address_candidate raw) of
             None \<Rightarrow> Inl ''Address is not a valid host, IP address or URL''
           | Some u \<Rightarrow>
               if up_protocol u \<noteq> ''http:'' \<and> up_protocol u \<noteq> ''https:'' then Inl ''Only http:// and https:// addresses are supported''
               else if up_hostname u = [] then Inl ''Address has no host''
               else if up_username u \<noteq> [] \<or> up_password u \<noteq> [] then Inl ''Address must not contain credentials''
               else if (up_pathname u \<noteq> [] \<and> up_pathname u \<noteq> ''/'') \<or> up_search u \<noteq> [] \<or> up_hash u \<noteq> []
               then Inl ''Address must not contain a path or query''
               else if up_port u = [] \<and> \<not> scheme_prefix raw
               then Inr (up_protocol u @ ''//'' @ up_hostname u @ '':'' @ dec_string default_peer_port)
               else Inr (up_origin u))"

section \<open>State\<close>

datatype peer_status = PENDING | ACTIVE | DISABLED | EXPIRED | LOCKED | REMOVED
datatype peer_role = HOST | JOIN

record peer_entry =
  pe_id :: string
  pe_node_id :: "string option"
  pe_name :: string
  pe_address :: string
  pe_status :: peer_status
  pe_role :: peer_role
  pe_introduced_by :: "string option"
  pe_link_key :: "string option"
  pe_secret :: "string option"
  pe_state :: "string option"
  pe_expires_at :: "millis option"
  pe_failures :: nat
  pe_cert_pem :: "string option"
  pe_cert_pin :: "string option"
  pe_channel_url :: "string option"
  pe_endpoints :: "string option"
  pe_tls_locked :: bool
  pe_tls_required :: bool
  pe_created_by :: string
  pe_last_synced_at :: "millis option"
  pe_scan :: "bool \<times> string option \<times> string option"
  pe_sent_seq :: int
  pe_path_ways :: "string option"

record node_row =
  nr_node_id :: string
  nr_name :: string
  nr_advertise_url :: string

record store_env =
  se_pr :: primitives
  se_cluster_secret :: string
  se_jwt_secret :: string
  se_ttl_minutes :: int \<comment> \<open>as configured\<close>
  se_max_failures :: nat
  se_parse_url :: url_parser
  se_write_list :: "string list \<Rightarrow> string"
  se_read_list :: "string \<Rightarrow> string list option" \<comment> \<open>the strings of a JSON array, or nothing\<close>

text \<open>\<^verbatim>\<open>config.ts\<close> keeps both figures within bounds.\<close>

definition ttl_minutes :: "store_env \<Rightarrow> int" where
  "ttl_minutes env = max 1 (min (24 * 60) (se_ttl_minutes env))"

definition max_failures :: "store_env \<Rightarrow> nat" where
  "max_failures env = max 1 (min 100 (se_max_failures env))"

lemma max_failures_pos [simp]: "0 < max_failures env"
  by (simp add: max_failures_def)

section \<open>Wrapped secrets\<close>

definition kek :: "store_env \<Rightarrow> buffer" where
  "kek env = derive_kek (se_pr env) (if se_cluster_secret env \<noteq> [] then se_cluster_secret env else se_jwt_secret env)"

definition wrap :: "store_env \<Rightarrow> buffer \<Rightarrow> buffer \<Rightarrow> string \<Rightarrow> string" where
  "wrap env nonce plaintext ctx = wrap_secret (se_pr env) nonce (kek env) plaintext ctx"

definition unwrap :: "store_env \<Rightarrow> string \<Rightarrow> string \<Rightarrow> string + buffer" where
  "unwrap env wrapped ctx = unwrap_secret (se_pr env) (kek env) wrapped ctx"

definition shared_kek :: "store_env \<Rightarrow> buffer" where
  "shared_kek env = derive_kek (se_pr env) (''cluster-shared-config:'' @ se_jwt_secret env)"

definition wrap_shared :: "store_env \<Rightarrow> buffer \<Rightarrow> buffer \<Rightarrow> string \<Rightarrow> string" where
  "wrap_shared env nonce plaintext ctx = wrap_secret (se_pr env) nonce (shared_kek env) plaintext (''shared/'' @ ctx)"

definition unwrap_shared :: "store_env \<Rightarrow> string \<Rightarrow> string \<Rightarrow> string + buffer" where
  "unwrap_shared env wrapped ctx = unwrap_secret (se_pr env) (shared_kek env) wrapped (''shared/'' @ ctx)"

definition read_wrapped :: "store_env \<Rightarrow> string option \<Rightarrow> string \<Rightarrow> buffer option" where
  "read_wrapped env w ctx =
     (case w of
        None \<Rightarrow> None
      | Some text \<Rightarrow> if text = [] then None else (case unwrap env text ctx of Inl e \<Rightarrow> None | Inr b \<Rightarrow> Some b))"

definition link_key_of :: "store_env \<Rightarrow> peer_entry \<Rightarrow> buffer option" where
  "link_key_of env p = read_wrapped env (pe_link_key p) (''link:'' @ pe_id p)"

definition pairing_secret_of :: "store_env \<Rightarrow> peer_entry \<Rightarrow> string option" where
  "pairing_secret_of env p = map_option of_utf8 (read_wrapped env (pe_secret p) (''pairing:'' @ pe_id p))"

section \<open>Endpoints of a row\<close>

definition stored_endpoints :: "store_env \<Rightarrow> string option \<Rightarrow> string option \<Rightarrow> endpoint list" where
  "stored_endpoints env texts url =
     (let list0 = (case texts of None \<Rightarrow> [] | Some t \<Rightarrow> if t = [] then [] else (case se_read_list env t of None \<Rightarrow> [] | Some xs \<Rightarrow> xs));
          list1 = (if list0 = [] then (case url of None \<Rightarrow> [] | Some u \<Rightarrow> if u = [] then [] else [u]) else list0)
      in fst (parse_endpoint_list (se_parse_url env) list1))"

definition endpoints_column :: "store_env \<Rightarrow> endpoint list option \<Rightarrow> string option" where
  "endpoints_column env es =
     (case es of None \<Rightarrow> None | Some xs \<Rightarrow> if xs = [] then None else Some (se_write_list env (map format_endpoint xs)))"

section \<open>This node's row\<close>

definition load_or_create_node :: "string \<Rightarrow> string \<Rightarrow> node_row option \<Rightarrow> node_row \<times> node_row option" where
  "load_or_create_node default_name uuid r =
     (case r of
        Some existing \<Rightarrow> (existing\<lparr>nr_name := (if nr_name existing = [] then default_name else nr_name existing)\<rparr>, Some existing)
      | None \<Rightarrow> (let created = \<lparr>nr_node_id = uuid, nr_name = default_name, nr_advertise_url = []\<rparr> in (created, Some created)))"

definition rename_node :: "string \<Rightarrow> node_row option \<Rightarrow> string + node_row option" where
  "rename_node name r = (case r of None \<Rightarrow> Inl ''Record to update not found'' | Some x \<Rightarrow> Inr (Some (x\<lparr>nr_name := name\<rparr>)))"

definition save_advertise_url :: "string \<Rightarrow> node_row option \<Rightarrow> string + node_row option" where
  "save_advertise_url url r =
     (case r of None \<Rightarrow> Inl ''Record to update not found'' | Some x \<Rightarrow> Inr (Some (x\<lparr>nr_advertise_url := url\<rparr>)))"

section \<open>Peers\<close>

type_synonym peer_table = "peer_entry list" \<comment> \<open>in the order of creation, as \<open>listPeers\<close> returns them\<close>

definition get_peer :: "string \<Rightarrow> peer_table \<Rightarrow> peer_entry option" where
  "get_peer rid rs = find (\<lambda>p. pe_id p = rid) rs"

definition on_row :: "string \<Rightarrow> (peer_entry \<Rightarrow> peer_entry) \<Rightarrow> peer_table \<Rightarrow> peer_table" where
  "on_row rid f rs = map (\<lambda>p. if pe_id p = rid then f p else p) rs"

record peer_tls_input =
  ti_url :: string
  ti_pin :: string
  ti_cert_pem :: "string option"
  ti_endpoints :: "endpoint list option"

record pending_input =
  pn_role :: peer_role
  pn_address :: string
  pn_name :: string
  pn_secret :: string
  pn_node_id :: "string option"
  pn_introduced_by :: "string option"
  pn_created_by :: string
  pn_tls :: "peer_tls_input option"
  pn_tls_required :: bool
  pn_expires_at :: "millis option"

definition pairing_window_end :: "store_env \<Rightarrow> millis \<Rightarrow> millis" where
  "pairing_window_end env now = now + ttl_minutes env * 60000"

definition pending_row :: "store_env \<Rightarrow> millis \<Rightarrow> string \<Rightarrow> buffer \<Rightarrow> pending_input \<Rightarrow> peer_entry" where
  "pending_row env now rid nonce i =
     \<lparr>pe_id = rid, pe_node_id = (if pn_role i = JOIN then pn_node_id i else None), pe_name = pn_name i,
      pe_address = pn_address i, pe_status = PENDING, pe_role = pn_role i, pe_introduced_by = pn_introduced_by i,
      pe_link_key = None, pe_secret = Some (wrap env nonce (utf8 (pn_secret i)) (''pairing:'' @ rid)), pe_state = None,
      pe_expires_at = Some (case pn_expires_at i of Some t \<Rightarrow> t | None \<Rightarrow> pairing_window_end env now),
      pe_failures = 0, pe_cert_pem = (case pn_tls i of None \<Rightarrow> None | Some t \<Rightarrow> ti_cert_pem t),
      pe_cert_pin = map_option ti_pin (pn_tls i), pe_channel_url = map_option ti_url (pn_tls i),
      pe_endpoints = (case pn_tls i of None \<Rightarrow> None | Some t \<Rightarrow> endpoints_column env (ti_endpoints t)),
      pe_tls_locked = False, pe_tls_required = pn_tls_required i, pe_created_by = pn_created_by i,
      pe_last_synced_at = None, pe_scan = (False, None, None), pe_sent_seq = 0,
      pe_path_ways = None\<rparr>"

definition create_pending_peer ::
    "store_env \<Rightarrow> millis \<Rightarrow> string \<Rightarrow> buffer \<Rightarrow> pending_input \<Rightarrow> peer_table \<Rightarrow> string + peer_entry \<times> peer_table" where
  "create_pending_peer env now rid nonce i rs =
     (let row = pending_row env now rid nonce i
      in if get_peer rid rs \<noteq> None \<or> (pe_node_id row \<noteq> None \<and> pe_node_id row \<in> pe_node_id ` set rs)
         then Inl ''Unique constraint failed''
         else Inr (row, rs @ [row]))"

text \<open>What was learned about the other node's channel.\<close>

record learned_tls =
  lt_url :: string
  lt_pin :: string
  lt_cert_pem :: string
  lt_endpoints :: "endpoint list option"

definition set_tls :: "store_env \<Rightarrow> learned_tls \<Rightarrow> peer_entry \<Rightarrow> peer_entry" where
  "set_tls env t p = p\<lparr>pe_channel_url := Some (lt_url t), pe_cert_pin := Some (lt_pin t),
     pe_cert_pem := Some (lt_cert_pem t), pe_endpoints := endpoints_column env (lt_endpoints t)\<rparr>"

definition save_peer_tls :: "store_env \<Rightarrow> string \<Rightarrow> learned_tls \<Rightarrow> peer_table \<Rightarrow> peer_table" where
  "save_peer_tls env rid t rs = on_row rid (set_tls env t) rs"

definition lock_peer_tls :: "string \<Rightarrow> peer_table \<Rightarrow> peer_table" where
  "lock_peer_tls rid rs = on_row rid (\<lambda>p. p\<lparr>pe_tls_locked := True\<rparr>) rs"

record activation =
  av_node_id :: string
  av_name :: string
  av_link_key :: buffer
  av_address :: "string option"
  av_feed_from :: int
  av_tls :: "learned_tls option"

definition activated :: "store_env \<Rightarrow> millis \<Rightarrow> buffer \<Rightarrow> activation \<Rightarrow> peer_entry \<Rightarrow> peer_entry" where
  "activated env now nonce a p =
     (let named = p\<lparr>pe_node_id := Some (av_node_id a),
            pe_name := (if pe_name p = [] then take 120 (av_name a) else pe_name p),
            pe_address := (case av_address a of Some s \<Rightarrow> if s = [] then pe_address p else s | None \<Rightarrow> pe_address p)\<rparr>;
          bound = (case av_tls a of
              None \<Rightarrow> named
            | Some t \<Rightarrow> (set_tls env t named)\<lparr>pe_tls_locked := True, pe_tls_required := False\<rparr>)
      in bound\<lparr>pe_status := ACTIVE, pe_link_key := Some (wrap env nonce (av_link_key a) (''link:'' @ pe_id p)),
           pe_secret := None, pe_state := None, pe_expires_at := None, pe_failures := 0,
           pe_last_synced_at := Some now, pe_scan := (True, None, None), pe_sent_seq := av_feed_from a\<rparr>)"

definition activate_peer ::
    "store_env \<Rightarrow> millis \<Rightarrow> buffer \<Rightarrow> string \<Rightarrow> activation \<Rightarrow> peer_table \<Rightarrow> string + peer_table" where
  "activate_peer env now nonce rid a rs =
     (if get_peer rid rs = None then Inl ''No record was found'' else Inr (on_row rid (activated env now nonce a) rs))"

definition with_status :: "peer_status \<Rightarrow> int option \<Rightarrow> peer_entry \<Rightarrow> peer_entry" where
  "with_status st feed_from p =
     (if st = ACTIVE
      then p\<lparr>pe_status := st, pe_scan := (True, None, None),
             pe_sent_seq := (case feed_from of None \<Rightarrow> pe_sent_seq p | Some s \<Rightarrow> s)\<rparr>
      else p\<lparr>pe_status := st, pe_secret := None, pe_state := None, pe_expires_at := None,
             pe_scan := (False, snd (pe_scan p))\<rparr>)"

definition set_peer_status :: "string \<Rightarrow> peer_status \<Rightarrow> int option \<Rightarrow> peer_table \<Rightarrow> string + peer_table" where
  "set_peer_status rid st feed_from rs =
     (if get_peer rid rs = None then Inl ''Record to update not found'' else Inr (on_row rid (with_status st feed_from) rs))"

definition delete_peer :: "string \<Rightarrow> peer_table \<Rightarrow> peer_table" where
  "delete_peer rid rs = filter (\<lambda>p. pe_id p \<noteq> rid) rs"

text \<open>One wrong attempt against a window; the last one closes it.\<close>

definition failed_once :: "store_env \<Rightarrow> peer_entry \<Rightarrow> peer_entry" where
  "failed_once env p =
     (let q = p\<lparr>pe_failures := pe_failures p + 1\<rparr>
      in if pe_status q = PENDING \<and> max_failures env \<le> pe_failures q then with_status LOCKED None q else q)"

definition note_pairing_failure :: "store_env \<Rightarrow> string \<Rightarrow> peer_table \<Rightarrow> peer_table" where
  "note_pairing_failure env rid rs = on_row rid (failed_once env) rs"

definition window_over :: "millis \<Rightarrow> peer_entry \<Rightarrow> bool" where
  "window_over now p \<longleftrightarrow> pe_status p = PENDING \<and> (case pe_expires_at p of None \<Rightarrow> False | Some t \<Rightarrow> t < now)"

definition expire_pairing_windows :: "millis \<Rightarrow> peer_table \<Rightarrow> nat \<times> peer_table" where
  "expire_pairing_windows now rs =
     (length (filter (window_over now) rs), map (\<lambda>p. if window_over now p then with_status EXPIRED None p else p) rs)"

end
