(* ===== verification/Reach.thy ===== *)
theory Reach
  imports Endpoints
begin

text \<open>
  \<^verbatim>\<open>src/cluster/reach.ts\<close> and \<open>ownChannelUrl\<close> of \<^verbatim>\<open>src/cluster/mtls.ts\<close>: how the other nodes reach this node's channel.
  The URL parser, JSON texts and fresh ids are parameters.
\<close>

datatype reach_kind = Direct | ProxyPort | ProxySni | ProxyPath

record reach_entry =
  rn_id :: string
  rn_kind :: reach_kind
  rn_endpoint :: string
  rn_enabled :: bool
  rn_backend :: string

text \<open>An entry as the panel sends it, where any field may be missing.\<close>

record reach_input =
  rx_id :: "string option"
  rx_kind :: "string option"
  rx_endpoint :: "string option"
  rx_enabled :: "bool option"
  rx_backend :: "string option"

record reach_config =
  rf_mtls_port :: nat
  rf_mtls_url :: string
  rf_mtls_endpoints :: string
  rf_path_endpoints :: string
  rf_advertise_url :: string
  rf_public_base_url :: string

record reach_state =
  rc_entries :: "reach_entry list"
  rc_relays :: "endpoint list"
  rc_stored :: "string option" \<comment> \<open>the column \<open>reachConfig\<close>\<close>

definition max_reach_entries :: nat where "max_reach_entries = 8"

definition reach_kind_of :: "string option \<Rightarrow> reach_kind option" where
  "reach_kind_of k =
     (case k of
        None \<Rightarrow> None
      | Some s \<Rightarrow> if s = ''direct'' then Some Direct else if s = ''proxy-port'' then Some ProxyPort
          else if s = ''proxy-sni'' then Some ProxySni else if s = ''proxy-path'' then Some ProxyPath else None)"

definition backend_hex_char :: "char \<Rightarrow> bool" where
  "backend_hex_char c \<longleftrightarrow> is_digit c \<or> c \<in> set ''abcdefABCDEF''"

definition backend_ok :: "string \<Rightarrow> bool" where
  "backend_ok s \<longleftrightarrow>
     (let digits = takeWhile is_digit (rev s); front = rev (drop (length digits) (rev s))
      in 1 \<le> length digits \<and> length digits \<le> 5 \<and> front \<noteq> [] \<and> last front = CHR '':'' \<and>
         (let host = butlast front
          in (2 < length host \<and> hd host = CHR ''['' \<and> last host = CHR '']'' \<and>
              list_all (\<lambda>c. backend_hex_char c \<or> c = CHR '':'' \<or> c = CHR ''.'') (butlast (tl host))) \<or>
             (1 \<le> length host \<and> length host \<le> 253 \<and>
              list_all (\<lambda>c. is_letter c \<or> is_digit c \<or> c = CHR ''.'' \<or> c = CHR ''-'') host)))"

definition env_endpoints :: "url_parser \<Rightarrow> reach_config \<Rightarrow> endpoint list \<times> string list" where
  "env_endpoints parse_url cfg =
     parse_endpoint_list parse_url (filter (\<lambda>t. t \<noteq> []) (rf_mtls_url cfg # split_list_text (rf_mtls_endpoints cfg)))"

definition set_relay_endpoints :: "endpoint list \<Rightarrow> reach_state \<Rightarrow> bool \<times> reach_state" where
  "set_relay_endpoints es r =
     (join_with '' '' (map format_endpoint es) \<noteq> join_with '' '' (map format_endpoint (rc_relays r)), r\<lparr>rc_relays := es\<rparr>)"

definition env_path_ways :: "url_parser \<Rightarrow> reach_config \<Rightarrow> string list \<times> string list" where
  "env_path_ways parse_url cfg =
     (let texts = filter (\<lambda>t. t \<noteq> []) (split_list_text (rf_path_endpoints cfg))
      in (List.map_filter (parse_path_way parse_url) texts, filter (\<lambda>t. parse_path_way parse_url t = None) texts))"

text \<open>\<open>new Set\<close> keeps the first of equal texts.\<close>

definition first_of_each :: "string list \<Rightarrow> string list" where
  "first_of_each xs = fold (\<lambda>x out. if x \<in> set out then out else out @ [x]) xs []"

definition own_path_ways :: "url_parser \<Rightarrow> reach_config \<Rightarrow> reach_state \<Rightarrow> string list" where
  "own_path_ways parse_url cfg r =
     take max_reach_entries (first_of_each (fst (env_path_ways parse_url cfg) @
       map rn_endpoint (filter (\<lambda>e. rn_enabled e \<and> rn_kind e = ProxyPath) (rc_entries r))))"

definition panel_endpoints :: "url_parser \<Rightarrow> reach_state \<Rightarrow> endpoint list" where
  "panel_endpoints parse_url r =
     List.map_filter (\<lambda>e. parse_endpoint parse_url (rn_endpoint e))
       (filter (\<lambda>e. rn_enabled e \<and> rn_kind e \<noteq> ProxyPath) (rc_entries r))"

definition own_endpoints :: "url_parser \<Rightarrow> reach_config \<Rightarrow> reach_state \<Rightarrow> string option \<Rightarrow> endpoint list" where
  "own_endpoints parse_url cfg r derived =
     (let merged = merge_endpoints [fst (env_endpoints parse_url cfg), panel_endpoints parse_url r, rc_relays r]
      in if merged = []
         then (case derived of
             None \<Rightarrow> []
           | Some d \<Rightarrow> if d = [] then [] else (case parse_endpoint parse_url d of None \<Rightarrow> [] | Some e \<Rightarrow> [e]))
         else merged)"

section \<open>What the panel sets\<close>

definition way_error :: "nat \<Rightarrow> string \<Rightarrow> string + 'a" where
  "way_error index msg = Inl (''Way '' @ dec_string (index + 1) @ '': '' @ msg)"

definition entry_id :: "string \<Rightarrow> string option \<Rightarrow> string" where
  "entry_id fresh given =
     (case given of
        Some s \<Rightarrow> if length s = 36 \<and> list_all (\<lambda>c. is_digit c \<or> c \<in> set ''abcdef-'') s then s else fresh
      | None \<Rightarrow> fresh)"

definition bare_address :: "string \<Rightarrow> bool" where
  "bare_address host \<longleftrightarrow> (host \<noteq> [] \<and> list_all (\<lambda>c. is_digit c \<or> c = CHR ''.'') host) \<or> CHR '':'' \<in> set host"

text \<open>The kind and the written way of one entry; \<open>new URL\<close> of a malformed text throws.\<close>

definition written_way :: "url_parser \<Rightarrow> nat \<Rightarrow> reach_kind \<Rightarrow> string \<Rightarrow> string + string" where
  "written_way parse_url index kind given =
     (if kind = ProxyPath
      then (case parse_path_way parse_url given of
          None \<Rightarrow> way_error index ''enter the API\\'s public address and a path, e.g. https://api.example.org/cluster-node/homelab''
        | Some way \<Rightarrow> Inr way)
      else case parse_endpoint parse_url given of
          None \<Rightarrow> way_error index ''enter an address of the form https://host:port''
        | Some e \<Rightarrow>
            if kind = ProxySni
            then if ep_sni e \<noteq> None
                 then way_error index ''on 443 by server name, the address must be a domain name (e.g. https://node1.cluster.example.org:443)''
                 else (case parse_url (ep_url e) of
                     None \<Rightarrow> Inl ''Invalid URL''
                   | Some u \<Rightarrow>
                       if bare_address (up_hostname u)
                       then way_error index ''on 443 by server name, the address must be a domain name (e.g. https://node1.cluster.example.org:443)''
                       else Inr (format_endpoint e))
            else Inr (format_endpoint e))"

definition validate_entry :: "url_parser \<Rightarrow> (nat \<Rightarrow> string) \<Rightarrow> nat \<Rightarrow> string list \<Rightarrow> reach_input \<Rightarrow> string + reach_entry" where
  "validate_entry parse_url fresh index taken raw =
     (let backend = trim (case rx_backend raw of Some b \<Rightarrow> b | None \<Rightarrow> [])
      in case reach_kind_of (rx_kind raw) of
           None \<Rightarrow> way_error index ''unknown kind''
         | Some kind \<Rightarrow>
             if backend \<noteq> [] \<and> \<not> backend_ok backend then way_error index ''the address behind the proxy must be host:port''
             else and_then (written_way parse_url index kind (case rx_endpoint raw of Some t \<Rightarrow> t | None \<Rightarrow> [])) (\<lambda>way.
               if way \<in> set taken then way_error index ''listed twice''
               else Inr \<lparr>rn_id = entry_id (fresh index) (rx_id raw), rn_kind = kind, rn_endpoint = way,
                         rn_enabled = (if kind = ProxyPath then rx_enabled raw = Some True else rx_enabled raw \<noteq> Some False),
                         rn_backend = (if kind = Direct then [] else backend)\<rparr>))"

fun validate_from :: "url_parser \<Rightarrow> (nat \<Rightarrow> string) \<Rightarrow> nat \<Rightarrow> string list \<Rightarrow> reach_input list \<Rightarrow> string + reach_entry list" where
  "validate_from parse_url fresh index taken [] = Inr []"
| "validate_from parse_url fresh index taken (raw # rest) =
     and_then (validate_entry parse_url fresh index taken raw) (\<lambda>e.
     and_then (validate_from parse_url fresh (Suc index) (rn_endpoint e # taken) rest) (\<lambda>es. Inr (e # es)))"

definition validate_entries :: "url_parser \<Rightarrow> (nat \<Rightarrow> string) \<Rightarrow> reach_input list \<Rightarrow> string + reach_entry list" where
  "validate_entries parse_url fresh given =
     (if max_reach_entries < length given then Inl ''At most 8 ways can be set''
      else validate_from parse_url fresh 0 [] given)"

definition load_reach ::
    "url_parser \<Rightarrow> (nat \<Rightarrow> string) \<Rightarrow> (string \<Rightarrow> reach_input list option) \<Rightarrow> reach_state \<Rightarrow> reach_state" where
  "load_reach parse_url fresh read_json r =
     (case rc_stored r of
        None \<Rightarrow> r\<lparr>rc_entries := []\<rparr>
      | Some t \<Rightarrow>
          if t = [] then r\<lparr>rc_entries := []\<rparr>
          else (case read_json t of
              None \<Rightarrow> r\<lparr>rc_entries := []\<rparr>
            | Some given \<Rightarrow>
                (case validate_entries parse_url fresh given of
                   Inl e \<Rightarrow> r\<lparr>rc_entries := []\<rparr>
                 | Inr es \<Rightarrow> r\<lparr>rc_entries := es\<rparr>)))"

definition save_reach ::
    "url_parser \<Rightarrow> (nat \<Rightarrow> string) \<Rightarrow> (reach_entry list \<Rightarrow> string) \<Rightarrow> reach_input list \<Rightarrow> reach_state \<Rightarrow>
     (string + reach_entry list) \<times> reach_state" where
  "save_reach parse_url fresh write_json given r =
     (case validate_entries parse_url fresh given of
        Inl e \<Rightarrow> (Inl e, r)
      | Inr es \<Rightarrow> (Inr es, r\<lparr>rc_stored := Some (write_json es), rc_entries := es\<rparr>))"

section \<open>The address of the channel\<close>

fun first_channel_url :: "url_parser \<Rightarrow> nat \<Rightarrow> string list \<Rightarrow> string option" where
  "first_channel_url parse_url port [] = None"
| "first_channel_url parse_url port (candidate # rest) =
     (case (if candidate = [] then None else parse_url candidate) of
        None \<Rightarrow> first_channel_url parse_url port rest
      | Some u \<Rightarrow>
          if up_hostname u = [] then first_channel_url parse_url port rest
          else let host = (if CHR '':'' \<in> set (up_hostname u) \<and> hd (up_hostname u) \<noteq> CHR ''[''
                           then ''['' @ up_hostname u @ '']'' else up_hostname u)
               in Some (''https://'' @ host @ '':'' @ dec_string port))"

definition own_channel_url :: "url_parser \<Rightarrow> reach_config \<Rightarrow> string \<Rightarrow> string option" where
  "own_channel_url parse_url cfg fallback =
     (if rf_mtls_port cfg = 0 then None
      else if rf_mtls_url cfg \<noteq> [] then Some (rf_mtls_url cfg)
      else first_channel_url parse_url (rf_mtls_port cfg) [rf_advertise_url cfg, fallback, rf_public_base_url cfg])"

end
