(* ===== verification/X509.thy ===== *)
theory X509
  imports Crypto JsTime
begin

text \<open>
  \<^verbatim>\<open>src/cluster/x509.ts\<close>: the DER structures a node certificate is built from, the certificate, and the checks
  of one a peer hands over. Key pairs, the signature, SHA-1, randomness and Node's certificate parser are
  parameters; a key is its encodings.
\<close>

unbundle bit_operations_syntax

section \<open>DER\<close>

function base256 :: "nat \<Rightarrow> buffer" where
  "base256 n = (if n = 0 then [] else base256 (n div 256) @ [of_nat (n mod 256)])"
  by pat_completeness auto

termination by (relation "measure (\<lambda>n. n)") auto

declare base256.simps [simp del]

definition der_length :: "nat \<Rightarrow> buffer" where
  "der_length n =
     (if n < 0x80 then [of_nat n] else let bytes = base256 n in (0x80 OR of_nat (length bytes)) # bytes)"

definition tlv :: "byte \<Rightarrow> buffer \<Rightarrow> buffer" where
  "tlv tag content = tag # der_length (length content) @ content"

definition der_sequence :: "buffer list \<Rightarrow> buffer" where "der_sequence items = tlv 0x30 (concat items)"
definition der_set :: "buffer list \<Rightarrow> buffer" where "der_set items = tlv 0x31 (concat items)"
definition der_explicit :: "byte \<Rightarrow> buffer \<Rightarrow> buffer" where "der_explicit tag content = tlv (0xA0 OR tag) content"
definition octet_string :: "buffer \<Rightarrow> buffer" where "octet_string bytes = tlv 0x04 bytes"
definition bit_string :: "buffer \<Rightarrow> byte \<Rightarrow> buffer" where "bit_string bytes unused = tlv 0x03 (unused # bytes)"
definition utf8_string :: "string \<Rightarrow> buffer" where "utf8_string s = tlv 0x0C (utf8 s)"
definition der_true :: buffer where "der_true = tlv 0x01 [0xFF]"

text \<open>An object identifier: seven bits to a byte, all but the last with the high bit.\<close>

function base128 :: "nat \<Rightarrow> buffer" where
  "base128 n = (if n = 0 then [] else base128 (n div 128) @ [of_nat (n mod 128) OR 0x80])"
  by pat_completeness auto

termination by (relation "measure (\<lambda>n. n)") auto

declare base128.simps [simp del]

definition oid_part :: "nat \<Rightarrow> buffer" where
  "oid_part part = base128 (part div 128) @ [of_nat (part mod 128)]"

definition oid :: "string \<Rightarrow> buffer" where
  "oid dotted =
     (let parts = map (\<lambda>p. case parse_dec p of Some n \<Rightarrow> n | None \<Rightarrow> 0) (split_on CHR ''.'' dotted)
      in tlv 0x06 (of_nat (40 * parts ! 0 + parts ! 1) # concat (map oid_part (drop 2 parts))))"

fun strip_zeros :: "buffer \<Rightarrow> buffer" where
  "strip_zeros (a # b # bs) = (if a = 0 \<and> b AND 0x80 = 0 then strip_zeros (b # bs) else a # b # bs)"
| "strip_zeros bs = bs"

definition unsigned_integer :: "buffer \<Rightarrow> buffer" where
  "unsigned_integer bytes =
     (let v = strip_zeros bytes in tlv 0x02 (if v \<noteq> [] \<and> hd v AND 0x80 \<noteq> 0 then 0 # v else v))"

definition asn1_rest :: "millis \<Rightarrow> string" where
  "asn1_rest t =
     (let day = t div 86400000; y = year_of_day day; leap = leap_year y; n = day - day_from_year y; ms = nat (t mod 86400000);
          two = \<lambda>k. pad_zero 2 (dec_string k)
      in two (month_of leap n + 1) @ two (nat (date_of leap n)) @ two (ms div 3600000) @ two (ms div 60000 mod 60) @
         two (ms div 1000 mod 60) @ ''Z'')"

definition der_time :: "millis \<Rightarrow> buffer" where
  "der_time t =
     (let y = year_of_day (t div 86400000)
      in if 1950 \<le> y \<and> y < 2050 then tlv 0x17 (utf8 (pad_zero 2 (dec_string (nat (y mod 100))) @ asn1_rest t))
         else tlv 0x18 (utf8 (pad_zero 4 (dec_string (nat y)) @ asn1_rest t)))"

definition oid_signature :: string where "oid_signature = ''1.2.840.10045.4.3.2''"
definition oid_common_name :: string where "oid_common_name = ''2.5.4.3''"
definition oid_basic_constraints :: string where "oid_basic_constraints = ''2.5.29.19''"
definition oid_key_usage :: string where "oid_key_usage = ''2.5.29.15''"
definition oid_ext_key_usage :: string where "oid_ext_key_usage = ''2.5.29.37''"
definition oid_subject_key_identifier :: string where "oid_subject_key_identifier = ''2.5.29.14''"
definition oid_server_auth :: string where "oid_server_auth = ''1.3.6.1.5.5.7.3.1''"
definition oid_client_auth :: string where "oid_client_auth = ''1.3.6.1.5.5.7.3.2''"

definition der_name :: "string \<Rightarrow> buffer" where
  "der_name common_name = der_sequence [der_set [der_sequence [oid oid_common_name, utf8_string common_name]]]"

definition der_extension :: "string \<Rightarrow> bool \<Rightarrow> buffer \<Rightarrow> buffer" where
  "der_extension ident critical v =
     (if critical then der_sequence [oid ident, der_true, octet_string v] else der_sequence [oid ident, octet_string v])"

fun lines_of_64 :: "nat \<Rightarrow> string \<Rightarrow> string list" where
  "lines_of_64 0 s = []"
| "lines_of_64 (Suc k) s = (if s = [] then [] else take 64 s # lines_of_64 k (drop 64 s))"

definition newline :: string where "newline = [CHR 0x0A]"

definition pem :: "string \<Rightarrow> buffer \<Rightarrow> string" where
  "pem lbl der =
     (let body = b64_encode der
      in ''-----BEGIN '' @ lbl @ ''-----'' @ newline @ join_with newline (lines_of_64 (length body) body) @ newline @
         ''-----END '' @ lbl @ ''-----'' @ newline)"

section \<open>A node's certificate\<close>

text \<open>A fresh P-256 key: its public encodings, its private one, and signing with it.\<close>

record ec_key =
  ek_spki :: buffer
  ek_point :: buffer
  ek_private_pem :: string
  ek_sign :: "buffer \<Rightarrow> buffer"

record node_certificate =
  nc_cert_pem :: string
  nc_key_pem :: string
  nc_pin :: string
  nc_not_after :: millis

definition signature_algorithm :: buffer where "signature_algorithm = der_sequence [oid oid_signature]"

definition certificate_extensions :: "(buffer \<Rightarrow> buffer) \<Rightarrow> ec_key \<Rightarrow> buffer" where
  "certificate_extensions sha1 key =
     der_explicit 3 (der_sequence [
       der_extension oid_basic_constraints True (der_sequence []),
       der_extension oid_key_usage True (bit_string [0x80] 7),
       der_extension oid_ext_key_usage False (der_sequence [oid oid_server_auth, oid oid_client_auth]),
       der_extension oid_subject_key_identifier False (octet_string (sha1 (ek_point key)))])"

definition serial_of :: "buffer \<Rightarrow> buffer" where
  "serial_of drawn = ((hd drawn AND 0x7F) OR 0x01) # tl drawn" \<comment> \<open>16 random bytes\<close>

definition valid_from :: "millis \<Rightarrow> millis" where
  "valid_from now = now div 1000 * 1000 - 60 * 60 * 1000"

definition valid_to :: "millis \<Rightarrow> int \<Rightarrow> millis" where
  "valid_to now days = valid_from now + days * 24 * 60 * 60 * 1000"

definition to_be_signed :: "(buffer \<Rightarrow> buffer) \<Rightarrow> ec_key \<Rightarrow> buffer \<Rightarrow> string \<Rightarrow> int \<Rightarrow> millis \<Rightarrow> buffer" where
  "to_be_signed sha1 key drawn common_name days now =
     der_sequence [
       der_explicit 0 (unsigned_integer [2]),
       unsigned_integer (serial_of drawn),
       signature_algorithm,
       der_name (take 64 common_name),
       der_sequence [der_time (valid_from now), der_time (valid_to now days)],
       der_name (take 64 common_name),
       ek_spki key,
       certificate_extensions sha1 key]"

definition certificate_der :: "(buffer \<Rightarrow> buffer) \<Rightarrow> ec_key \<Rightarrow> buffer \<Rightarrow> string \<Rightarrow> int \<Rightarrow> millis \<Rightarrow> buffer" where
  "certificate_der sha1 key drawn common_name days now =
     (let tbs = to_be_signed sha1 key drawn common_name days now
      in der_sequence [tbs, signature_algorithm, bit_string (ek_sign key tbs) 0])"

text \<open>\<open>certificatePin\<close> of a certificate is that of its public key, which Node's parser gives back.\<close>

definition certificate_pin :: "primitives \<Rightarrow> buffer \<Rightarrow> string" where
  "certificate_pin pr spki = b64_encode (sha256_of pr spki)"

definition create_node_certificate ::
    "primitives \<Rightarrow> (buffer \<Rightarrow> buffer) \<Rightarrow> ec_key \<Rightarrow> buffer \<Rightarrow> string \<Rightarrow> int \<Rightarrow> millis \<Rightarrow> node_certificate" where
  "create_node_certificate pr sha1 key drawn common_name days now =
     \<lparr>nc_cert_pem = pem ''CERTIFICATE'' (certificate_der sha1 key drawn common_name days now),
      nc_key_pem = ek_private_pem key, nc_pin = certificate_pin pr (ek_spki key), nc_not_after = valid_to now days\<rparr>"

section \<open>A certificate handed over\<close>

text \<open>What \<open>X509Certificate\<close> makes of a text; an unreadable date is \<open>None\<close>.\<close>

record x509_view =
  xv_p256 :: bool
  xv_self_signed :: bool
  xv_valid_from :: "millis option"
  xv_valid_to :: "millis option"
  xv_spki :: buffer
  xv_pem :: string

record certificate_facts =
  cf_pin :: string
  cf_pem :: string
  cf_not_before :: millis
  cf_not_after :: millis

definition max_certificate_pem :: nat where "max_certificate_pem = 4096"

definition inspect_node_certificate ::
    "primitives \<Rightarrow> (string \<Rightarrow> x509_view option) \<Rightarrow> millis \<Rightarrow> string \<Rightarrow> string + certificate_facts" where
  "inspect_node_certificate pr parse_x509 now cert_pem =
     (if max_certificate_pem < length cert_pem then Inl ''certificate is missing or too long''
      else case parse_x509 cert_pem of
          None \<Rightarrow> Inl ''certificate cannot be parsed''
        | Some x \<Rightarrow>
            if \<not> xv_p256 x then Inl ''certificate does not carry a P-256 key''
            else if \<not> xv_self_signed x then Inl ''certificate is not validly self-signed''
            else case (xv_valid_from x, xv_valid_to x) of
                (Some a, Some b) \<Rightarrow>
                  if a \<le> now + 24 * 60 * 60 * 1000 \<and> now < b
                  then Inr \<lparr>cf_pin = certificate_pin pr (xv_spki x), cf_pem = xv_pem x, cf_not_before = a, cf_not_after = b\<rparr>
                  else Inl ''certificate is outside its validity period''
              | _ \<Rightarrow> Inl ''certificate is outside its validity period'')"

end
