(* ===== verification/Invite.thy ===== *)
theory Invite
  imports Relay_Facts Receiver
begin

text \<open>
  \<^verbatim>\<open>src/cluster/invite.ts\<close>: invite codes. \<open>JSON.stringify\<close> and \<open>JSON.parse\<close> are parameters between texts and the
  fields of the object. A field of the parsed object that is missing is \<open>None\<close>; where the code tells a missing
  field from one of the wrong type, the latter is \<open>Some None\<close>. A date that is out of range is \<open>None\<close>.
\<close>

section \<open>Codes\<close>

record invite_channel =
  ic_url :: string
  ic_pin :: string
  ic_endpoints :: "string list option"

record invite =
  iv_address :: string
  iv_node_id :: string
  iv_name :: string
  iv_secret :: string
  iv_expires_at :: "millis option"
  iv_channel :: "invite_channel option"

definition invite_prefix :: string where "invite_prefix = ''pokyh1.''"

definition new_invite_secret :: "buffer \<Rightarrow> string" where
  "new_invite_secret drawn = b64url_encode drawn" \<comment> \<open>32 random bytes\<close>

record invite_body =
  ib_v :: "int option"
  ib_a :: "string option"
  ib_n :: "string option"
  ib_m :: "string option"
  ib_s :: "string option"
  ib_e :: "int option"
  ib_c :: "string option option"
  ib_f :: "string option option"
  ib_x :: "string option list option option"

definition invite_body_of :: "invite \<Rightarrow> invite_body" where
  "invite_body_of i =
     \<lparr>ib_v = Some 1, ib_a = Some (iv_address i), ib_n = Some (iv_node_id i), ib_m = Some (iv_name i),
      ib_s = Some (iv_secret i), ib_e = map_option (\<lambda>t. t div 1000) (iv_expires_at i),
      ib_c = map_option (\<lambda>ch. Some (ic_url ch)) (iv_channel i), ib_f = map_option (\<lambda>ch. Some (ic_pin ch)) (iv_channel i),
      ib_x = (case iv_channel i of
          None \<Rightarrow> None
        | Some ch \<Rightarrow> map_option (\<lambda>xs. Some (map Some (take 8 xs))) (ic_endpoints ch))\<rparr>"

definition encode_invite :: "(invite_body \<Rightarrow> string) \<Rightarrow> invite \<Rightarrow> string" where
  "encode_invite to_json i = invite_prefix @ b64url_encode (utf8 (to_json (invite_body_of i)))"

definition invite_damaged :: "string + 'a" where
  "invite_damaged = Inl ''Invite code is damaged or incomplete''"

definition invite_secret_ok :: "string \<Rightarrow> bool" where
  "invite_secret_ok s \<longleftrightarrow> length s = 43 \<and> list_all b64_url_char s"

definition channel_url_ok :: "string option option \<Rightarrow> bool" where
  "channel_url_ok c \<longleftrightarrow>
     (case c of
        None \<Rightarrow> True
      | Some None \<Rightarrow> False
      | Some (Some url) \<Rightarrow> length url \<le> 255 \<and> starts_with ''https://'' url)"

definition channel_pin_ok :: "string option option \<Rightarrow> bool" where
  "channel_pin_ok f \<longleftrightarrow> (case f of None \<Rightarrow> True | Some None \<Rightarrow> False | Some (Some pin) \<Rightarrow> pin_ok pin)"

definition written_endpoint_ok :: "string option \<Rightarrow> bool" where
  "written_endpoint_ok item \<longleftrightarrow> (case item of None \<Rightarrow> False | Some t \<Rightarrow> length t \<le> 300)"

definition channel_list_ok :: "string option option \<Rightarrow> string option list option option \<Rightarrow> bool" where
  "channel_list_ok c x \<longleftrightarrow>
     (case x of
        None \<Rightarrow> True
      | Some None \<Rightarrow> False
      | Some (Some items) \<Rightarrow> c \<noteq> None \<and> length items \<le> 8 \<and> list_all written_endpoint_ok items)"

definition body_channel :: "invite_body \<Rightarrow> invite_channel option" where
  "body_channel b =
     (case (ib_c b, ib_f b) of
        (Some (Some url), Some (Some pin)) \<Rightarrow>
          Some \<lparr>ic_url = url, ic_pin = pin,
                ic_endpoints = (case ib_x b of Some (Some items) \<Rightarrow> Some (List.map_filter (\<lambda>t. t) items) | _ \<Rightarrow> None)\<rparr>
      | _ \<Rightarrow> None)"

definition max_date :: int where "max_date = 8640000000000000"

definition date_of_seconds :: "int \<Rightarrow> millis option" where
  "date_of_seconds e = (if e * 1000 \<le> max_date then Some (e * 1000) else None)"

definition check_invite_body :: "millis \<Rightarrow> invite_body \<Rightarrow> string + invite" where
  "check_invite_body now b =
     (if ib_v b \<noteq> Some 1 then Inl ''Invite code comes from a different Pokyh version''
      else case (ib_a b, ib_n b, ib_m b, ib_s b, ib_e b) of
          (Some a, Some n, Some m, Some s, Some e) \<Rightarrow>
            if a = [] \<or> 255 < length a then invite_damaged
            else if \<not> node_id_ok n then invite_damaged
            else if 120 < length m then invite_damaged
            else if \<not> invite_secret_ok s then invite_damaged
            else if e \<le> 0 then invite_damaged
            else if (ib_c b = None) \<noteq> (ib_f b = None) then invite_damaged
            else if \<not> channel_url_ok (ib_c b) \<or> \<not> channel_pin_ok (ib_f b) \<or> \<not> channel_list_ok (ib_c b) (ib_x b) then invite_damaged
            else if (case date_of_seconds e of Some t \<Rightarrow> t \<le> now | None \<Rightarrow> False)
            then Inl (''Invite code has expired '' @ em_dash @ '' create a new one'')
            else Inr \<lparr>iv_address = a, iv_node_id = n, iv_name = m, iv_secret = s, iv_expires_at = date_of_seconds e,
                      iv_channel = body_channel b\<rparr>
        | _ \<Rightarrow> invite_damaged)"

definition max_code :: nat where "max_code = 2048"

definition decode_invite :: "(string \<Rightarrow> invite_body option) \<Rightarrow> millis \<Rightarrow> string \<Rightarrow> string + invite" where
  "decode_invite of_json now code =
     (let trimmed = filter (\<lambda>c. \<not> is_space c) code
      in if \<not> starts_with invite_prefix trimmed then Inl ''This is not a Pokyh invite code''
         else if max_code < length trimmed then Inl ''Invite code is too long''
         else case of_json (of_utf8 (b64_decode (drop (length invite_prefix) trimmed))) of
             None \<Rightarrow> invite_damaged
           | Some b \<Rightarrow> check_invite_body now b)"

section \<open>Codes read again\<close>

definition channel_ok :: "invite_channel \<Rightarrow> bool" where
  "channel_ok ch \<longleftrightarrow> length (ic_url ch) \<le> 255 \<and> starts_with ''https://'' (ic_url ch) \<and> pin_ok (ic_pin ch) \<and>
     list_all (\<lambda>t. length t \<le> 300) (case ic_endpoints ch of None \<Rightarrow> [] | Some xs \<Rightarrow> take 8 xs)"

definition invite_ok :: "millis \<Rightarrow> invite \<Rightarrow> bool" where
  "invite_ok now i \<longleftrightarrow>
     iv_address i \<noteq> [] \<and> length (iv_address i) \<le> 255 \<and> node_id_ok (iv_node_id i) \<and> length (iv_name i) \<le> 120 \<and>
     invite_secret_ok (iv_secret i) \<and> (case iv_channel i of None \<Rightarrow> True | Some ch \<Rightarrow> channel_ok ch) \<and>
     (case iv_expires_at i of None \<Rightarrow> False | Some t \<Rightarrow> 0 < t div 1000 \<and> t \<le> max_date \<and> now < t div 1000 * 1000)"

text \<open>What a code keeps of an invite: whole seconds and at most eight ways to the channel.\<close>

definition as_written :: "invite \<Rightarrow> invite" where
  "as_written i = i\<lparr>iv_expires_at := map_option (\<lambda>t. t div 1000 * 1000) (iv_expires_at i),
     iv_channel := map_option (\<lambda>ch. ch\<lparr>ic_endpoints := map_option (take 8) (ic_endpoints ch)\<rparr>) (iv_channel i)\<rparr>"

lemma new_invite_secret_ok: "length drawn = 32 \<Longrightarrow> invite_secret_ok (new_invite_secret drawn)"
  using b64url_encode_plain [of drawn]
  by (simp add: invite_secret_ok_def new_invite_secret_def length_b64url_encode list_all_iff)

lemma body_channel_again: "body_channel (invite_body_of i) = iv_channel (as_written i)"
  by (auto simp: body_channel_def invite_body_of_def as_written_def List.map_filter_def comp_def split: option.splits)

lemma invite_body_again:
  assumes "invite_ok now i"
  shows "check_invite_body now (invite_body_of i) = Inr (as_written i)"
proof -
  obtain t where t: "iv_expires_at i = Some t" "0 < t div 1000" "t \<le> max_date" "now < t div 1000 * 1000"
    using assms by (auto simp: invite_ok_def split: option.splits)
  have date: "date_of_seconds (t div 1000) = Some (t div 1000 * 1000)"
    using t(3) by (simp add: date_of_seconds_def)
  let ?b = "invite_body_of i"
  have "channel_url_ok (ib_c ?b)" "channel_pin_ok (ib_f ?b)" "channel_list_ok (ib_c ?b) (ib_x ?b)" "(ib_c ?b = None) = (ib_f ?b = None)"
    using assms
    by (auto simp: invite_body_of_def invite_ok_def channel_url_ok_def channel_pin_ok_def channel_list_ok_def channel_ok_def
        written_endpoint_ok_def list_all_iff split: option.splits)
  then show ?thesis
    using assms t date unfolding check_invite_body_def body_channel_again
    by (auto simp: invite_body_of_def invite_ok_def as_written_def)
qed

end
