(* ===== verification/Pairing.thy ===== *)
theory Pairing
  imports Peer_Store Reach X509 Invite Transport
begin

text \<open>
  \<^verbatim>\<open>src/cluster/pairing.ts\<close>, with its messages (\<^verbatim>\<open>protocol.ts\<close>) and the loading of a peer into memory
  (\<open>loadPeerRuntime\<close>, \<open>onPeerActivated\<close> of \<^verbatim>\<open>index.ts\<close>): one-time pairing of two nodes. One holds a HOST entry and
  answers, the other a JOIN entry and drives init, accept, confirm.

  The network is given by fields of \<open>pair_env\<close>, which act on the whole node: while a step of this node waits for an
  answer, its other operations go on. Each handler of the host is one step. Key pairs, nonces and ids are drawn
  by number. JSON texts and Node's certificate parser are parameters. \<open>hn_proved\<close> is auxiliary and read by no
  operation: what was proved to this node under which code, and the keys that came of it. Installing triggers,
  heartbeats and installer records (\<open>completeInstallFor\<close>) at the end of a pairing are not modelled.
\<close>

section \<open>State\<close>

record responder_handshake =
  rh_row :: string
  rh_initiator :: string
  rh_name :: string
  rh_address :: string
  rh_link_key :: buffer
  rh_confirm :: buffer
  rh_expires_at :: millis
  rh_tls :: "learned_tls option"

record stored_tls =
  sx_url :: string
  sx_endpoints :: "string list option"
  sx_pin :: string
  sx_cert_pem :: string

record stored_handshake =
  sh_node_id :: string
  sh_name :: string
  sh_link_key :: string
  sh_confirm :: string
  sh_tls :: "stored_tls option"

text \<open>One proof of a code that this node accepted: the entry as it was then, the code, the request and its MAC, the answer.\<close>

record pair_proof =
  pp_entry :: peer_entry
  pp_at :: millis
  pp_secret :: string
  pp_init :: pair_init
  pp_mac :: buffer
  pp_accept :: pair_accept
  pp_shared :: buffer

record 'w pair_node =
  hn_rows :: peer_table
  hn_handshakes :: "(string \<times> responder_handshake) list"
  hn_progress :: "(string \<times> millis \<times> string) list"
  hn_wait :: "(string \<times> millis) list"
  hn_in_flight :: "string list"
  hn_advertise :: string
  hn_own :: "node_row option"
  hn_draws :: nat
  hn_node :: "'w tnode"
  hn_proved :: "pair_proof list"

record pair_drawn =
  pd_private :: buffer
  pd_public :: buffer
  pd_nonce :: buffer
  pd_salt :: buffer
  pd_wrap :: buffer
  pd_id :: string
  pd_secret :: buffer

record pair_init_message =
  im_v :: int
  im_from :: string
  im_name :: string
  im_addr :: string
  im_salt :: string
  im_e :: string
  im_n :: string
  im_mac :: string

record pair_accept_message =
  ap_id :: string
  ap_name :: string
  ap_e :: string
  ap_n :: string
  ap_mac :: string

record pair_confirm_message =
  cm_from :: string
  cm_mac :: string

record ('j, 'w) pair_env =
  pv_store :: store_env
  pv_transport :: "('j, 'w) tnode_env"
  pv_name :: string
  pv_advertise :: string \<comment> \<open>\<open>CLUSTER_ADVERTISE_URL\<close>\<close>
  pv_own_cert :: string \<comment> \<open>the certificate whose pin is \<open>te_own_pin\<close>\<close>
  pv_listening :: bool
  pv_reach_config :: reach_config
  pv_reach :: reach_state
  pv_x509 :: "string \<Rightarrow> x509_view option"
  pv_probed :: "string \<Rightarrow> string option" \<comment> \<open>certificates seen on connections, by pin\<close>
  pv_write_state :: "stored_handshake \<Rightarrow> string"
  pv_read_state :: "string \<Rightarrow> stored_handshake option"
  pv_write_expect :: "string \<Rightarrow> string"
  pv_read_expect :: "string \<Rightarrow> string option" \<comment> \<open>the field \<open>expect\<close>, when it is a string\<close>
  pv_read_texts :: "string \<Rightarrow> string list option" \<comment> \<open>the elements of a JSON array as text\<close>
  pv_stable :: "'w \<Rightarrow> int" \<comment> \<open>\<open>stableFeedPosition\<close>\<close>
  pv_draw :: "nat \<Rightarrow> pair_drawn"
  pv_post_init :: "pinned_target option \<Rightarrow> string \<Rightarrow> pair_init_message \<Rightarrow> 'w pair_node \<Rightarrow>
    (call_failure + nat \<times> pair_accept_message option) \<times> 'w pair_node"
  pv_running :: bool
  pv_auto_mesh :: bool
  pv_capture :: "'w \<Rightarrow> (string + unit) \<times> 'w" \<comment> \<open>\<open>prepareCapture\<close>\<close>
  pv_bye :: "link_peer \<Rightarrow> 'w pair_node \<Rightarrow> 'w pair_node" \<comment> \<open>the call \<open>bye\<close>, whatever comes of it\<close>
  pv_write_invite :: "invite_body \<Rightarrow> string"
  pv_read_invite :: "string \<Rightarrow> invite_body option"
  pv_post_confirm :: "pinned_target option \<Rightarrow> string \<Rightarrow> pair_confirm_message \<Rightarrow> 'w pair_node \<Rightarrow> (call_failure + nat) \<times> 'w pair_node"

type_synonym ('w, 'a) pair_op = "('w pair_node, call_failure, 'a) request"

definition handshake_ttl :: millis where "handshake_ttl = 2 * 60 * 1000"
definition retry_after_refusal :: millis where "retry_after_refusal = 20000"
definition max_candidates :: nat where "max_candidates = 8"
definition pairing_salt_bytes :: nat where "pairing_salt_bytes = 16"

abbreviation pv_pr :: "('j, 'w) pair_env \<Rightarrow> primitives" where "pv_pr env \<equiv> se_pr (pv_store env)"
abbreviation pv_self :: "('j, 'w) pair_env \<Rightarrow> string" where "pv_self env \<equiv> te_self (pv_transport env)"
abbreviation pv_url :: "('j, 'w) pair_env \<Rightarrow> url_parser" where "pv_url env \<equiv> se_parse_url (pv_store env)"

definition time_of :: "('j, 'w) pair_env \<Rightarrow> 'w pair_node \<Rightarrow> millis" where
  "time_of env n = clock_of (pv_transport env) (hn_node n)"

definition al_drop :: "'k \<Rightarrow> ('k \<times> 'v) list \<Rightarrow> ('k \<times> 'v) list" where
  "al_drop k m = filter (\<lambda>e. fst e \<noteq> k) m"

definition progress_of :: "string \<Rightarrow> 'w pair_node \<Rightarrow> (millis \<times> string) option" where
  "progress_of rid n = map_of (hn_progress n) rid"

definition forget_pairing :: "string \<Rightarrow> 'w pair_node \<Rightarrow> 'w pair_node" where
  "forget_pairing rid n =
     n\<lparr>hn_progress := al_drop rid (hn_progress n), hn_wait := al_drop rid (hn_wait n),
       hn_handshakes := filter (\<lambda>e. rh_row (snd e) \<noteq> rid) (hn_handshakes n)\<rparr>"

definition note_progress :: "('j, 'w) pair_env \<Rightarrow> string \<Rightarrow> string \<Rightarrow> 'w pair_node \<Rightarrow> 'w pair_node" where
  "note_progress env rid msg n = n\<lparr>hn_progress := al_put rid (time_of env n, msg) (hn_progress n)\<rparr>"

definition draw :: "('j, 'w) pair_env \<Rightarrow> 'w pair_node \<Rightarrow> pair_drawn \<times> 'w pair_node" where
  "draw env n = (pv_draw env (hn_draws n), n\<lparr>hn_draws := Suc (hn_draws n)\<rparr>)"

definition on_rows :: "(peer_table \<Rightarrow> peer_table) \<Rightarrow> 'w pair_node \<Rightarrow> 'w pair_node" where
  "on_rows f n = n\<lparr>hn_rows := f (hn_rows n)\<rparr>"

section \<open>Entries\<close>

definition open_window :: "millis \<Rightarrow> peer_entry \<Rightarrow> bool" where
  "open_window now p \<longleftrightarrow>
     pe_status p = PENDING \<and> (case pe_secret p of None \<Rightarrow> False | Some s \<Rightarrow> s \<noteq> []) \<and>
     (case pe_expires_at p of None \<Rightarrow> True | Some t \<Rightarrow> now < t)"

definition expected_node_of :: "('j, 'w) pair_env \<Rightarrow> peer_entry \<Rightarrow> string option" where
  "expected_node_of env p =
     (if pe_role p \<noteq> HOST then None
      else case read_wrapped (pv_store env) (pe_state p) (''pairing-expect:'' @ pe_id p) of
          None \<Rightarrow> None
        | Some b \<Rightarrow> pv_read_expect env (of_utf8 b))"

definition expectation_for :: "('j, 'w) pair_env \<Rightarrow> buffer \<Rightarrow> string \<Rightarrow> string \<Rightarrow> string" where
  "expectation_for env nonce rid node = wrap (pv_store env) nonce (utf8 (pv_write_expect env node)) (''pairing-expect:'' @ rid)"

definition advertised_address :: "('j, 'w) pair_env \<Rightarrow> 'w pair_node \<Rightarrow> string" where
  "advertised_address env n = (if pv_advertise env \<noteq> [] then pv_advertise env else hn_advertise n)"

record own_channel =
  oc_url :: string
  oc_endpoints :: "endpoint list"
  oc_pin :: string
  oc_cert_pem :: string

definition own_channel :: "('j, 'w) pair_env \<Rightarrow> 'w pair_node \<Rightarrow> own_channel option" where
  "own_channel env n =
     (case te_own_pin (pv_transport env) of
        None \<Rightarrow> None
      | Some pin \<Rightarrow>
          if \<not> pv_listening env then None
          else (case own_endpoints (pv_url env) (pv_reach_config env) (pv_reach env)
                   (own_channel_url (pv_url env) (pv_reach_config env) (advertised_address env n)) of
              [] \<Rightarrow> None
            | e # es \<Rightarrow> Some \<lparr>oc_url = ep_url e, oc_endpoints = e # es, oc_pin = pin, oc_cert_pem = pv_own_cert env\<rparr>))"

text \<open>Other entries of the node go, from the table and from memory.\<close>

definition remove_other_entries_for :: "string \<Rightarrow> string \<Rightarrow> 'w pair_node \<Rightarrow> 'w pair_node" where
  "remove_other_entries_for node keep n =
     (let others = map pe_id (filter (\<lambda>p. pe_node_id p = Some node \<and> pe_id p \<noteq> keep) (hn_rows n))
      in n\<lparr>hn_rows := fold delete_peer others (hn_rows n),
           hn_node := (hn_node n)\<lparr>tn_peers := filter (\<lambda>e. fst e \<notin> set others) (tn_peers (hn_node n))\<rparr>\<rparr>)"

section \<open>Peers in memory\<close>

definition peer_tls_of :: "('j, 'w) pair_env \<Rightarrow> millis \<Rightarrow> peer_entry \<Rightarrow> peer_tls option" where
  "peer_tls_of env now p =
     (case (pe_cert_pem p, pe_cert_pin p, pe_channel_url p) of
        (Some cert, Some pin, Some url) \<Rightarrow>
          if cert = [] \<or> pin = [] \<or> url = [] then None
          else (case inspect_node_certificate (pv_pr env) (pv_x509 env) now cert of
              Inl e \<Rightarrow> None
            | Inr facts \<Rightarrow>
                (case stored_endpoints (pv_store env) (pe_endpoints p) (pe_channel_url p) of
                   [] \<Rightarrow> None
                 | e # es \<Rightarrow>
                     if cf_pin facts \<noteq> pin then None
                     else Some \<lparr>pt_url = ep_url e, pt_endpoints = e # es, pt_pin = cf_pin facts, pt_cert_pem = cf_pem facts,
                                pt_previous = None\<rparr>))
      | _ \<Rightarrow> None)"

definition stored_path_ways :: "('j, 'w) pair_env \<Rightarrow> string option \<Rightarrow> string list" where
  "stored_path_ways env t =
     (case t of
        None \<Rightarrow> []
      | Some s \<Rightarrow> if s = [] then []
          else (case pv_read_texts env s of None \<Rightarrow> [] | Some ways \<Rightarrow> take 8 (List.map_filter (parse_path_way (pv_url env)) ways)))"

definition same_pin :: "link_peer option \<Rightarrow> peer_tls option \<Rightarrow> bool" where
  "same_pin previous tls \<longleftrightarrow>
     (case (previous, tls) of
        (Some p, Some t) \<Rightarrow> (case lp_tls p of None \<Rightarrow> False | Some old \<Rightarrow> pt_pin old = pt_pin t)
      | _ \<Rightarrow> False)"

definition carried_tls :: "link_peer option \<Rightarrow> peer_tls option \<Rightarrow> peer_tls option" where
  "carried_tls previous tls =
     (case (previous, tls) of
        (Some p, Some t) \<Rightarrow>
          (case lp_tls p of
             None \<Rightarrow> tls
           | Some old \<Rightarrow> if same_pin previous tls \<and> pt_previous old \<noteq> None then Some (t\<lparr>pt_previous := pt_previous old\<rparr>) else tls)
      | _ \<Rightarrow> tls)"

definition loaded_peer :: "('j, 'w) pair_env \<Rightarrow> millis \<Rightarrow> peer_entry \<Rightarrow> link_peer option \<Rightarrow> link_peer option" where
  "loaded_peer env now p previous =
     (case (pe_status p, pe_node_id p) of
        (ACTIVE, Some node) \<Rightarrow>
          if node = [] then None
          else (case (link_key_of (pv_store env) p, normalize_peer_address (pv_url env) (pe_address p)) of
              (Some key, Inr url) \<Rightarrow>
                (let tls = peer_tls_of env now p; same = same_pin previous tls
                 in Some \<lparr>lp_row_id = pe_id p, lp_node_id = node, lp_base_url = url, lp_link_key = key, lp_session = None,
                       lp_tls = carried_tls previous tls, lp_tls_locked = pe_tls_locked p,
                       lp_tls_out_ok = (same \<and> lp_tls_out_ok (the previous)), lp_tls_in_ok = (same \<and> lp_tls_in_ok (the previous)),
                       lp_tls_retry_at = (case previous of None \<Rightarrow> 0 | Some q \<Rightarrow> lp_tls_retry_at q),
                       lp_paths = (case previous of None \<Rightarrow> stored_path_ways env (pe_path_ways p) | Some q \<Rightarrow> lp_paths q),
                       lp_path_active = (case previous of None \<Rightarrow> None | Some q \<Rightarrow> lp_path_active q)\<rparr>)
            | _ \<Rightarrow> None)
      | _ \<Rightarrow> None)"

definition load_peer_runtime :: "('j, 'w) pair_env \<Rightarrow> peer_entry \<Rightarrow> 'w pair_node \<Rightarrow> 'w pair_node" where
  "load_peer_runtime env p n =
     (case loaded_peer env (time_of env n) p (map_of (tn_peers (hn_node n)) (pe_id p)) of
        None \<Rightarrow> n
      | Some q \<Rightarrow> n\<lparr>hn_node := (hn_node n)\<lparr>tn_peers := al_put (pe_id p) q (tn_peers (hn_node n))\<rparr>\<rparr>)"

definition on_peer_activated :: "('j, 'w) pair_env \<Rightarrow> string \<Rightarrow> 'w pair_node \<Rightarrow> 'w pair_node" where
  "on_peer_activated env rid n =
     (case get_peer rid (hn_rows n) of
        None \<Rightarrow> n
      | Some p \<Rightarrow> load_peer_runtime env p (n\<lparr>hn_node := unload_peer rid (hn_node n)\<rparr>))"

text \<open>\<open>activatePeer\<close> and the hook, as both sides end a pairing.\<close>

definition complete_pairing ::
    "('j, 'w) pair_env \<Rightarrow> string \<Rightarrow> activation \<Rightarrow> ('w, unit) pair_op" where
  "complete_pairing env rid a n =
     (let n1 = remove_other_entries_for (av_node_id a) rid n; (d, n2) = draw env n1
      in case activate_peer (pv_store env) (time_of env n2) (pd_wrap d) rid (a\<lparr>av_feed_from := pv_stable env (tn_world (hn_node n2))\<rparr>) (hn_rows n2) of
           Inl e \<Rightarrow> (Inl (OtherError e), n2)
         | Inr rs \<Rightarrow> (Inr (), n2\<lparr>hn_rows := rs\<rparr>))"

section \<open>The host\<close>

text \<open>The schemas of \<^verbatim>\<open>protocol.ts\<close>: fields of fixed length are read, everything else is refused.\<close>

record pair_init_request =
  ir_v :: int
  ir_init :: pair_init
  ir_mac :: buffer

definition parse_pair_init :: "pair_init_message \<Rightarrow> pair_init_request option" where
  "parse_pair_init m =
     (if (im_v m = 2 \<or> im_v m = 3) \<and> node_id_ok (im_from m) \<and> length (im_name m) \<le> 120 \<and>
         im_addr m \<noteq> [] \<and> length (im_addr m) \<le> 2600
      then case (fixed_bytes pairing_salt_bytes (im_salt m), fixed_bytes x25519_public_bytes (im_e m),
                 fixed_bytes handshake_nonce_bytes (im_n m), fixed_bytes 32 (im_mac m)) of
          (Some salt, Some e, Some nonce, Some mac) \<Rightarrow>
            Some \<lparr>ir_v = im_v m,
                  ir_init = \<lparr>pi_from = im_from m, pi_name = im_name m, pi_addr = im_addr m, pi_salt = salt, pi_e = e, pi_n = nonce,
                    pi_tls = None\<rparr>,
                  ir_mac = mac\<rparr>
        | _ \<Rightarrow> None
      else None)"

definition parse_pair_accept :: "pair_accept_message \<Rightarrow> (pair_accept \<times> buffer) option" where
  "parse_pair_accept m =
     (if node_id_ok (ap_id m) \<and> length (ap_name m) \<le> 120
      then case (fixed_bytes x25519_public_bytes (ap_e m), fixed_bytes handshake_nonce_bytes (ap_n m), fixed_bytes 32 (ap_mac m)) of
          (Some e, Some nonce, Some mac) \<Rightarrow> Some (\<lparr>pa_id = ap_id m, pa_name = ap_name m, pa_e = e, pa_n = nonce\<rparr>, mac)
        | _ \<Rightarrow> None
      else None)"

definition parse_pair_confirm :: "pair_confirm_message \<Rightarrow> (string \<times> buffer) option" where
  "parse_pair_confirm m =
     (if node_id_ok (cm_from m) then map_option (\<lambda>mac. (cm_from m, mac)) (fixed_bytes 32 (cm_mac m)) else None)"

datatype pair_response =
    PairRefused nat
  | PairAccepted pair_accept_message
  | PairConfirmed
  | PairCrashed string

text \<open>The certificate of the caller, when the request came over the channel: its pin and text.\<close>

record caller_cert =
  ca_pin :: string
  ca_pem :: string

record pair_context =
  pc_entry :: entry_point
  pc_client :: "caller_cert option"

definition channel_client :: "pair_context \<Rightarrow> caller_cert option" where
  "channel_client ctx = (if pc_entry ctx = EpMtls then pc_client ctx else None)"

definition init_version_ok :: "('j, 'w) pair_env \<Rightarrow> pair_context \<Rightarrow> int \<Rightarrow> bool" where
  "init_version_ok env ctx v \<longleftrightarrow>
     (if pc_entry ctx = EpMtls then v = 3 \<and> pc_client ctx \<noteq> None \<and> te_own_pin (pv_transport env) \<noteq> None else v = 2)"

definition is_candidate ::
    "('j, 'w) pair_env \<Rightarrow> millis \<Rightarrow> string \<Rightarrow> caller_cert option \<Rightarrow> peer_entry \<Rightarrow> bool" where
  "is_candidate env now asking client p \<longleftrightarrow>
     pe_role p = HOST \<and> open_window now p \<and>
     (case expected_node_of env p of None \<Rightarrow> True | Some node \<Rightarrow> node = asking) \<and>
     (client \<noteq> None \<or> \<not> pe_tls_required p) \<and>
     (case pe_cert_pin p of
        None \<Rightarrow> True
      | Some pin \<Rightarrow> pin = [] \<or> (case client of None \<Rightarrow> False | Some c \<Rightarrow> ca_pin c = pin))"

definition candidates ::
    "('j, 'w) pair_env \<Rightarrow> millis \<Rightarrow> string \<Rightarrow> caller_cert option \<Rightarrow> peer_table \<Rightarrow> peer_entry list" where
  "candidates env now asking client rs = take max_candidates (filter (is_candidate env now asking client) rs)"

text \<open>The request as both sides authenticate it.\<close>

definition bound_init :: "('j, 'w) pair_env \<Rightarrow> caller_cert option \<Rightarrow> pair_init \<Rightarrow> pair_init" where
  "bound_init env client i =
     i\<lparr>pi_tls := (case (client, te_own_pin (pv_transport env)) of
         (Some c, Some own) \<Rightarrow> Some \<lparr>cb_client = ca_pin c, cb_server = own\<rparr>
       | _ \<Rightarrow> None)\<rparr>"

fun find_match ::
    "('j, 'w) pair_env \<Rightarrow> pair_init \<Rightarrow> buffer \<Rightarrow> peer_entry list \<Rightarrow> string + (peer_entry \<times> string) option" where
  "find_match env i mac [] = Inr None"
| "find_match env i mac (p # ps) =
     (case pairing_secret_of (pv_store env) p of
        None \<Rightarrow> find_match env i mac ps
      | Some secret \<Rightarrow>
          if secret = [] then find_match env i mac ps
          else and_then (pair_init_mac (pv_pr env) (derive_pairing_psk (pv_pr env) secret (pi_salt i)) i) (\<lambda>expected.
            if safe_equal mac expected then Inr (Some (p, secret)) else find_match env i mac ps))"

definition announced_ways :: "('j, 'w) pair_env \<Rightarrow> caller_cert option \<Rightarrow> string \<Rightarrow> (endpoint list \<times> string list) option" where
  "announced_ways env client addr =
     (if client = None then None else Some (parse_endpoint_list (pv_url env) (split_list_text addr)))"

definition first_url :: "endpoint list \<Rightarrow> string" where
  "first_url es = (case es of [] \<Rightarrow> [] | e # rest \<Rightarrow> ep_url e)"

text \<open>Where the joining node is reached, or what is wrong with its address.\<close>

definition joiner_address :: "('j, 'w) pair_env \<Rightarrow> caller_cert option \<Rightarrow> string \<Rightarrow> string + string" where
  "joiner_address env client addr =
     (let announced = announced_ways env client addr
      in case normalize_peer_address (pv_url env) (case announced of None \<Rightarrow> addr | Some (es, bad) \<Rightarrow> first_url es) of
           Inl e \<Rightarrow> Inl e
         | Inr url \<Rightarrow>
             (case announced of
                None \<Rightarrow> Inr url
              | Some (es, bad) \<Rightarrow> if es = [] \<or> bad \<noteq> [] then Inl ''not a list of https://host:port'' else Inr url))"

definition joiner_tls :: "('j, 'w) pair_env \<Rightarrow> caller_cert option \<Rightarrow> string \<Rightarrow> learned_tls option" where
  "joiner_tls env client addr =
     (case (client, announced_ways env client addr) of
        (Some c, Some (es, bad)) \<Rightarrow>
          Some \<lparr>lt_url = first_url es, lt_pin = ca_pin c, lt_cert_pem = ca_pem c, lt_endpoints = Some es\<rparr>
      | _ \<Rightarrow> None)"

definition accept_of :: "('j, 'w) pair_env \<Rightarrow> pair_drawn \<Rightarrow> pair_accept" where
  "accept_of env d = \<lparr>pa_id = pv_self env, pa_name = pv_name env, pa_e = pd_public d, pa_n = pd_nonce d\<rparr>"

definition accept_text :: "pair_accept \<Rightarrow> buffer \<Rightarrow> pair_accept_message" where
  "accept_text a mac =
     \<lparr>ap_id = pa_id a, ap_name = pa_name a, ap_e = b64url_encode (pa_e a), ap_n = b64url_encode (pa_n a), ap_mac = b64url_encode mac\<rparr>"

definition accept_init ::
    "('j, 'w) pair_env \<Rightarrow> caller_cert option \<Rightarrow> pair_init \<Rightarrow> buffer \<Rightarrow> peer_entry \<Rightarrow> string \<Rightarrow> string \<Rightarrow> millis \<Rightarrow>
     'w pair_node \<Rightarrow> pair_response \<times> 'w pair_node" where
  "accept_init env client i mac p secret address since n =
     (let (d, n1) = draw env n; a = accept_of env d
      in case and_then (shared_secret (pv_pr env) (pd_private d) (pi_e i)) (\<lambda>shared.
           and_then (pair_keys (pv_pr env) (derive_pairing_psk (pv_pr env) secret (pi_salt i)) shared i a) (\<lambda>keys.
             Inr (shared, keys))) of
          Inl e \<Rightarrow> (PairRefused 400, n1)
        | Inr (shared, keys) \<Rightarrow>
            let h = \<lparr>rh_row = pe_id p, rh_initiator = pi_from i, rh_name = pi_name i, rh_address = address,
                  rh_link_key = link_key keys, rh_confirm = confirm_initiator keys,
                  rh_expires_at = time_of env n1 + handshake_ttl, rh_tls = joiner_tls env client (pi_addr i)\<rparr>
            in (PairAccepted (accept_text a (confirm_responder keys)),
                note_progress env (pe_id p) ''Invite accepted, waiting for confirmation''
                  (n1\<lparr>hn_handshakes := al_put (pi_from i) h (hn_handshakes n1),
                      hn_proved := \<lparr>pp_entry = p, pp_at = since, pp_secret = secret, pp_init = i, pp_mac = mac,
                          pp_accept = a, pp_shared = shared\<rparr>
                        # hn_proved n1\<rparr>)))"

text \<open>
  A request that has been read: with it the entries whose codes it will be compared with, as the table held them
  then. Deriving the keys takes time, and the node goes on meanwhile: the comparison and everything after it works
  on these entries, not on the table as it has become.
\<close>

record pair_reading =
  rd_client :: "caller_cert option"
  rd_init :: pair_init
  rd_mac :: buffer
  rd_candidates :: "peer_entry list"
  rd_at :: millis

definition init_read ::
    "('j, 'w) pair_env \<Rightarrow> pair_context \<Rightarrow> pair_init_message option \<Rightarrow> 'w pair_node \<Rightarrow> pair_response + pair_reading" where
  "init_read env ctx body n =
     (case (case body of None \<Rightarrow> None | Some m \<Rightarrow> parse_pair_init m) of
        None \<Rightarrow> Inl (PairRefused 400)
      | Some r \<Rightarrow>
          if \<not> init_version_ok env ctx (ir_v r) then Inl (PairRefused 400)
          else let client = channel_client ctx; i = bound_init env client (ir_init r);
                   cs = candidates env (time_of env n) (pi_from i) client (hn_rows n)
               in if cs = [] then Inl (PairRefused 404)
                  else Inr \<lparr>rd_client = client, rd_init = i, rd_mac = ir_mac r, rd_candidates = cs, rd_at = time_of env n\<rparr>)"

definition handle_matched ::
    "('j, 'w) pair_env \<Rightarrow> pair_reading \<Rightarrow> peer_entry \<Rightarrow> string \<Rightarrow> 'w pair_node \<Rightarrow> pair_response \<times> 'w pair_node" where
  "handle_matched env rd p secret n =
     (let i = rd_init rd
      in if pi_from i = pv_self env
         then (PairRefused 409, note_progress env (pe_id p) ''The other node reports the same node identity as this one'' n)
         else case joiner_address env (rd_client rd) (pi_addr i) of
             Inl e \<Rightarrow> (PairRefused 422, note_progress env (pe_id p) (''The joining node sent an unusable address ('' @ e @ '')'') n)
           | Inr address \<Rightarrow> accept_init env (rd_client rd) i (rd_mac rd) p secret address (rd_at rd) n)"

definition note_failures :: "store_env \<Rightarrow> peer_entry list \<Rightarrow> peer_table \<Rightarrow> peer_table" where
  "note_failures st ps rs = fold (\<lambda>p. note_pairing_failure st (pe_id p)) ps rs"

definition init_answer ::
    "('j, 'w) pair_env \<Rightarrow> pair_reading \<Rightarrow> 'w pair_node \<Rightarrow> pair_response \<times> 'w pair_node" where
  "init_answer env rd n =
     (case find_match env (rd_init rd) (rd_mac rd) (rd_candidates rd) of
        Inl e \<Rightarrow> (PairCrashed e, n)
      | Inr None \<Rightarrow> (PairRefused 403, on_rows (note_failures (pv_store env) (rd_candidates rd)) n)
      | Inr (Some (p, secret)) \<Rightarrow> handle_matched env rd p secret n)"

text \<open>The whole handler, for a request nothing comes in between of.\<close>

definition handle_pair_init ::
    "('j, 'w) pair_env \<Rightarrow> pair_context \<Rightarrow> pair_init_message option \<Rightarrow> 'w pair_node \<Rightarrow> pair_response \<times> 'w pair_node" where
  "handle_pair_init env ctx body n =
     (case init_read env ctx body n of
        Inl refused \<Rightarrow> (refused, n)
      | Inr rd \<Rightarrow> init_answer env rd n)"

definition confirmed_activation :: "responder_handshake \<Rightarrow> activation" where
  "confirmed_activation h =
     \<lparr>av_node_id = rh_initiator h, av_name = rh_name h, av_link_key = rh_link_key h, av_address = Some (rh_address h),
      av_feed_from = 0, av_tls = rh_tls h\<rparr>"

definition drop_handshake :: "string \<Rightarrow> 'w pair_node \<Rightarrow> 'w pair_node" where
  "drop_handshake k n = n\<lparr>hn_handshakes := al_drop k (hn_handshakes n)\<rparr>"

definition confirm_handshake ::
    "('j, 'w) pair_env \<Rightarrow> string \<Rightarrow> responder_handshake \<Rightarrow> 'w pair_node \<Rightarrow> pair_response \<times> 'w pair_node" where
  "confirm_handshake env asking h n =
     (case complete_pairing env (rh_row h) (confirmed_activation h) n of
        (Inl e, n1) \<Rightarrow> (PairCrashed (failure_text e), n1)
      | (Inr u, n1) \<Rightarrow>
          (PairConfirmed, on_peer_activated env (rh_row h)
             ((drop_handshake asking n1)\<lparr>hn_progress := al_drop (rh_row h) (hn_progress n1)\<rparr>)))"

definition handle_pair_confirm ::
    "('j, 'w) pair_env \<Rightarrow> pair_context \<Rightarrow> pair_confirm_message option \<Rightarrow> 'w pair_node \<Rightarrow> pair_response \<times> 'w pair_node" where
  "handle_pair_confirm env ctx body n =
     (case (case body of None \<Rightarrow> None | Some m \<Rightarrow> parse_pair_confirm m) of
        None \<Rightarrow> (PairRefused 400, n)
      | Some (asking, mac) \<Rightarrow>
          (case map_of (hn_handshakes n) asking of
             None \<Rightarrow> (PairRefused 404, drop_handshake asking n)
           | Some h \<Rightarrow>
               if rh_expires_at h < time_of env n then (PairRefused 404, drop_handshake asking n)
               else if map_option lt_pin (rh_tls h) \<noteq> map_option ca_pin (channel_client ctx) then (PairRefused 403, n)
               else if \<not> safe_equal mac (rh_confirm h)
               then (PairRefused 403, on_rows (note_pairing_failure (pv_store env) (rh_row h)) (drop_handshake asking n))
               else confirm_handshake env asking h n))"

section \<open>The joining node\<close>

definition channel_target_of :: "('j, 'w) pair_env \<Rightarrow> peer_entry \<Rightarrow> pinned_target option" where
  "channel_target_of env p =
     (case (pe_channel_url p, pe_cert_pin p) of
        (Some url, Some pin) \<Rightarrow>
          if url = [] \<or> pin = [] then None
          else let es = stored_endpoints (pv_store env) (pe_endpoints p) (pe_channel_url p)
               in Some \<lparr>tg_url = (case es of [] \<Rightarrow> url | e # rest \<Rightarrow> ep_url e), tg_pin = pin,
                        tg_cert_pem = (case pe_cert_pem p of None \<Rightarrow> [] | Some c \<Rightarrow> c), tg_previous = None, tg_endpoints = es\<rparr>
      | _ \<Rightarrow> None)"

definition stored_ways :: "('j, 'w) pair_env \<Rightarrow> stored_tls \<Rightarrow> endpoint list" where
  "stored_ways env t =
     fst (parse_endpoint_list (pv_url env) (case sx_endpoints t of Some es \<Rightarrow> es | None \<Rightarrow> [sx_url t]))"

definition stored_target :: "('j, 'w) pair_env \<Rightarrow> stored_handshake \<Rightarrow> pinned_target option" where
  "stored_target env h =
     map_option (\<lambda>t. \<lparr>tg_url = sx_url t, tg_pin = sx_pin t, tg_cert_pem = sx_cert_pem t, tg_previous = None,
       tg_endpoints = stored_ways env t\<rparr>) (sh_tls h)"

definition read_stored_handshake :: "('j, 'w) pair_env \<Rightarrow> peer_entry \<Rightarrow> stored_handshake option" where
  "read_stored_handshake env p =
     (case read_wrapped (pv_store env) (pe_state p) (''pairing-state:'' @ pe_id p) of
        None \<Rightarrow> None
      | Some b \<Rightarrow> pv_read_state env (of_utf8 b))"

definition joined_activation :: "('j, 'w) pair_env \<Rightarrow> stored_handshake \<Rightarrow> activation" where
  "joined_activation env h =
     \<lparr>av_node_id = sh_node_id h, av_name = sh_name h, av_link_key = b64_decode (sh_link_key h),
      av_address = map_option sx_url (sh_tls h), av_feed_from = 0,
      av_tls = map_option (\<lambda>t. \<lparr>lt_url = sx_url t, lt_pin = sx_pin t, lt_cert_pem = sx_cert_pem t,
        lt_endpoints = Some (stored_ways env t)\<rparr>) (sh_tls h)\<rparr>"

definition finish :: "('j, 'w) pair_env \<Rightarrow> string \<Rightarrow> stored_handshake \<Rightarrow> ('w, unit) pair_op" where
  "finish env rid h =
     op_bind (complete_pairing env rid (joined_activation env h)) (\<lambda>_.
       op_write (\<lambda>n. on_peer_activated env rid (n\<lparr>hn_progress := al_drop rid (hn_progress n)\<rparr>)))"

text \<open>\<open>openSession\<close> is that of the calls; it leaves the entries alone.\<close>

definition on_node :: "('w, 'a) tnode_op \<Rightarrow> ('w, 'a) pair_op" where
  "on_node f n = (case f (hn_node n) of (r, t) \<Rightarrow> (r, n\<lparr>hn_node := t\<rparr>))"

definition try_session :: "('j, 'w) pair_env \<Rightarrow> string \<Rightarrow> stored_handshake \<Rightarrow> ('w, unit) pair_op" where
  "try_session env base h =
     op_bind (on_node (open_session (pv_transport env)
       \<lparr>st_base_url = base, st_node_id = sh_node_id h, st_link_key = b64_decode (sh_link_key h), st_tls = stored_target env h\<rparr>))
       (\<lambda>_. op_ok ())"

text \<open>\<open>prisma.clusterPeer.update\<close> throws when the entry is gone.\<close>

definition update_entry :: "string \<Rightarrow> (peer_entry \<Rightarrow> peer_entry) \<Rightarrow> ('w, unit) pair_op" where
  "update_entry rid f =
     op_bind (op_read (\<lambda>n. get_peer rid (hn_rows n))) (\<lambda>p.
     op_bind (op_check (p \<noteq> None) (OtherError ''Record to update not found'')) (\<lambda>_.
     op_write (on_rows (on_row rid f))))"

definition start_over :: "('j, 'w) pair_env \<Rightarrow> string \<Rightarrow> ('w, unit) pair_op" where
  "start_over env rid =
     op_bind (update_entry rid (\<lambda>p. p\<lparr>pe_state := None\<rparr>)) (\<lambda>_.
       op_write (note_progress env rid ''Pairing exchange expired on the other node, starting over''))"

text \<open>\<open>try { await openSession(...); await finish(...) } catch { ... }\<close>\<close>

definition or_else :: "('w, 'a) pair_op \<Rightarrow> ('w, 'a) pair_op \<Rightarrow> ('w, 'a) pair_op" where
  "or_else f g n = (case f n of (Inr a, n') \<Rightarrow> (Inr a, n') | (Inl e, n') \<Rightarrow> g n')"

definition confirm_message :: "('j, 'w) pair_env \<Rightarrow> stored_handshake \<Rightarrow> pair_confirm_message" where
  "confirm_message env h = \<lparr>cm_from = pv_self env, cm_mac = sh_confirm h\<rparr>"

definition confirm_step :: "('j, 'w) pair_env \<Rightarrow> string \<Rightarrow> string \<Rightarrow> stored_handshake \<Rightarrow> ('w, unit) pair_op" where
  "confirm_step env rid base h =
     op_bind (pv_post_confirm env (stored_target env h) base (confirm_message env h)) (\<lambda>status.
       if status = 200 then finish env rid h
       else if status = 404 \<or> status = 403
       then or_else (op_bind (try_session env base h) (\<lambda>_. finish env rid h)) (start_over env rid)
       else op_write (note_progress env rid (''Other node answered HTTP '' @ dec_string status @ '' while confirming'')))"

definition joiner_init ::
    "('j, 'w) pair_env \<Rightarrow> pinned_target option \<Rightarrow> own_channel option \<Rightarrow> string \<Rightarrow> pair_drawn \<Rightarrow> pair_init" where
  "joiner_init env target channel own_address d =
     \<lparr>pi_from = pv_self env, pi_name = pv_name env, pi_addr = own_address, pi_salt = pd_salt d, pi_e = pd_public d, pi_n = pd_nonce d,
      pi_tls = (case (target, channel) of
          (Some t, Some ch) \<Rightarrow> Some \<lparr>cb_client = oc_pin ch, cb_server = tg_pin t\<rparr>
        | _ \<Rightarrow> None)\<rparr>"

definition init_text :: "pair_init \<Rightarrow> buffer \<Rightarrow> pair_init_message" where
  "init_text i mac =
     \<lparr>im_v = (if pi_tls i = None then 2 else 3), im_from = pi_from i, im_name = pi_name i, im_addr = pi_addr i,
      im_salt = b64url_encode (pi_salt i), im_e = b64url_encode (pi_e i), im_n = b64url_encode (pi_n i), im_mac = b64url_encode mac\<rparr>"

definition note_only :: "('j, 'w) pair_env \<Rightarrow> string \<Rightarrow> string \<Rightarrow> ('w, unit) pair_op" where
  "note_only env rid msg = op_write (note_progress env rid msg)"

definition wait_and_note :: "('j, 'w) pair_env \<Rightarrow> string \<Rightarrow> string \<Rightarrow> ('w, unit) pair_op" where
  "wait_and_note env rid msg =
     op_write (\<lambda>n. note_progress env rid msg (n\<lparr>hn_wait := al_put rid (time_of env n + retry_after_refusal) (hn_wait n)\<rparr>))"

definition fail_and_note :: "('j, 'w) pair_env \<Rightarrow> string \<Rightarrow> string \<Rightarrow> ('w, unit) pair_op" where
  "fail_and_note env rid msg =
     op_write (\<lambda>n. note_progress env rid msg (on_rows (note_pairing_failure (pv_store env) rid) n))"

text \<open>The certificate kept with the link: the one the entry has, else the one seen on the connection.\<close>

definition kept_certificate :: "('j, 'w) pair_env \<Rightarrow> pinned_target \<Rightarrow> string option" where
  "kept_certificate env t = (if tg_cert_pem t \<noteq> [] then Some (tg_cert_pem t) else pv_probed env (tg_pin t))"

definition stored_tls_of :: "pinned_target \<Rightarrow> string \<Rightarrow> stored_tls" where
  "stored_tls_of t cert =
     \<lparr>sx_url = tg_url t, sx_endpoints = Some (map format_endpoint (tg_endpoints t)), sx_pin = tg_pin t, sx_cert_pem = cert\<rparr>"

definition keep_and_confirm ::
    "('j, 'w) pair_env \<Rightarrow> string \<Rightarrow> string \<Rightarrow> stored_handshake \<Rightarrow> ('w, unit) pair_op" where
  "keep_and_confirm env rid base h =
     op_bind (\<lambda>n. case draw env n of (d, n1) \<Rightarrow> (Inr (pd_wrap d), n1)) (\<lambda>nonce.
     op_bind (update_entry rid (\<lambda>p. p\<lparr>pe_state :=
        Some (wrap (pv_store env) nonce (utf8 (pv_write_state env h)) (''pairing-state:'' @ rid))\<rparr>)) (\<lambda>_.
     confirm_step env rid base h))"

definition handshake_of ::
    "('j, 'w) pair_env \<Rightarrow> pair_accept \<Rightarrow> pair_keys_result \<Rightarrow> stored_tls option \<Rightarrow> stored_handshake" where
  "handshake_of env a keys tls =
     \<lparr>sh_node_id = pa_id a, sh_name = pa_name a, sh_link_key = b64url_encode (link_key keys),
      sh_confirm = b64url_encode (confirm_initiator keys), sh_tls = tls\<rparr>"

text \<open>What to do with the answer, once it is read.\<close>

definition check_pair_accept ::
    "('j, 'w) pair_env \<Rightarrow> peer_entry \<Rightarrow> pinned_target option \<Rightarrow> string \<Rightarrow> pair_drawn \<Rightarrow> pair_init \<Rightarrow> buffer \<Rightarrow>
     pair_accept \<Rightarrow> buffer \<Rightarrow> ('w, unit) pair_op" where
  "check_pair_accept env p target base d i psk a mac =
     (if pa_id a = pv_self env
      then note_only env (pe_id p)
             (''Other node has the same node identity as this one '' @ em_dash @ '' one of the two databases is a copy'')
      else if (case pe_node_id p of None \<Rightarrow> False | Some node \<Rightarrow> node \<noteq> [] \<and> pa_id a \<noteq> node)
      then fail_and_note env (pe_id p) ''A different node than the one in the invite code answered''
      else op_bind (op_lift (map_error OtherError (and_then (shared_secret (pv_pr env) (pd_private d) (pa_e a)) (\<lambda>shared.
             pair_keys (pv_pr env) psk shared i a)))) (\<lambda>keys.
           if \<not> safe_equal mac (confirm_responder keys)
           then fail_and_note env (pe_id p) ''Other node could not prove knowledge of the invite secret''
           else case target of
               None \<Rightarrow> keep_and_confirm env (pe_id p) base (handshake_of env a keys None)
             | Some t \<Rightarrow>
                 (case kept_certificate env t of
                    None \<Rightarrow> note_only env (pe_id p) ''The other node\\'s certificate could not be kept''
                  | Some cert \<Rightarrow>
                      if cert = [] then note_only env (pe_id p) ''The other node\\'s certificate could not be kept''
                      else keep_and_confirm env (pe_id p) base (handshake_of env a keys (Some (stored_tls_of t cert))))))"

definition refused_init :: "('j, 'w) pair_env \<Rightarrow> string \<Rightarrow> string \<Rightarrow> nat \<Rightarrow> ('w, unit) pair_op" where
  "refused_init env rid own_address status =
     (if status = 404 then note_only env rid ''The other node has no open invite for this node (used, expired or not reached yet)''
      else if status = 403 then fail_and_note env rid ''The other node rejected the invite code''
      else if status = 422 then note_only env rid (''The other node cannot use this node\\'s address ('' @ own_address @ '')'')
      else if status = 429 then wait_and_note env rid ''The other node is rate limiting pairing attempts''
      else if status = 409
      then wait_and_note env rid
             (''The other node has the same node identity as this one '' @ em_dash @ '' one of the two databases is a copy'')
      else note_only env rid (''Other node answered HTTP '' @ dec_string status))"

definition send_init ::
    "('j, 'w) pair_env \<Rightarrow> peer_entry \<Rightarrow> pinned_target option \<Rightarrow> own_channel option \<Rightarrow> string \<Rightarrow> string \<Rightarrow> string \<Rightarrow> ('w, unit) pair_op" where
  "send_init env p target channel base own_address secret =
     op_bind (\<lambda>n. case draw env n of (d, n1) \<Rightarrow> (Inr d, n1)) (\<lambda>d.
       let i = joiner_init env target channel own_address d; psk = derive_pairing_psk (pv_pr env) secret (pi_salt i)
       in op_bind (op_lift (map_error OtherError (pair_init_mac (pv_pr env) psk i))) (\<lambda>mac.
          op_bind (pv_post_init env target base (init_text i mac)) (\<lambda>(status, body).
            if status \<noteq> 200 then refused_init env (pe_id p) own_address status
            else case (case body of None \<Rightarrow> None | Some m \<Rightarrow> parse_pair_accept m) of
                None \<Rightarrow> note_only env (pe_id p) ''Other node sent a malformed pairing answer''
              | Some (a, accept_mac) \<Rightarrow> check_pair_accept env p target base d i psk a accept_mac)))"

definition begin_or_confirm ::
    "('j, 'w) pair_env \<Rightarrow> peer_entry \<Rightarrow> pinned_target option \<Rightarrow> own_channel option \<Rightarrow> string \<Rightarrow> string \<Rightarrow> ('w, unit) pair_op" where
  "begin_or_confirm env p target channel base own_address =
     (case read_stored_handshake env p of
        Some h \<Rightarrow> confirm_step env (pe_id p) base h
      | None \<Rightarrow>
          (case pairing_secret_of (pv_store env) p of
             None \<Rightarrow> note_only env (pe_id p) (''The invite secret can no longer be read '' @ em_dash @ '' join again with a new code'')
           | Some secret \<Rightarrow>
               if secret = []
               then note_only env (pe_id p) (''The invite secret can no longer be read '' @ em_dash @ '' join again with a new code'')
               else send_init env p target channel base own_address secret))"

definition initiate :: "('j, 'w) pair_env \<Rightarrow> peer_entry \<Rightarrow> ('w, unit) pair_op" where
  "initiate env p n =
     (let target = channel_target_of env p; channel = own_channel env n
      in if target \<noteq> None \<and> channel = None
         then note_only env (pe_id p)
                (''The other node is reached over the mutually authenticated channel only '' @ em_dash @
                 '' enable CLUSTER_MTLS_PORT on this node (and set CLUSTER_MTLS_URL if its address cannot be derived)'') n
         else if target = None \<and> pe_tls_required p
         then note_only env (pe_id p) (''The other node\\'s certificate is unknown '' @ em_dash @ '' use a new invite'') n
         else case normalize_peer_address (pv_url env) (case target of Some t \<Rightarrow> tg_url t | None \<Rightarrow> pe_address p) of
             Inl e \<Rightarrow> note_only env (pe_id p) e n
           | Inr base \<Rightarrow>
               let own_address = (case target of
                     Some t \<Rightarrow> join_with '' '' (map format_endpoint (oc_endpoints (the channel)))
                   | None \<Rightarrow> advertised_address env n)
               in if own_address = []
                  then note_only env (pe_id p)
                         (''This node does not know its own address yet '' @ em_dash @ '' enter it when joining'') n
                  else begin_or_confirm env p target channel base own_address n)"

section \<open>The periodic step\<close>

definition not_reachable :: "('j, 'w) pair_env \<Rightarrow> string \<Rightarrow> call_failure \<Rightarrow> ('w, unit) pair_op" where
  "not_reachable env rid e =
     note_only env rid (''Other node is not reachable ('' @ takeWhile (\<lambda>c. c \<noteq> CHR 0x0A) (failure_text e) @ '')'')"

definition try_initiate :: "('j, 'w) pair_env \<Rightarrow> peer_entry \<Rightarrow> ('w, unit) pair_op" where
  "try_initiate env p n = (case initiate env p n of (Inr u, n') \<Rightarrow> (Inr (), n') | (Inl e, n') \<Rightarrow> not_reachable env (pe_id p) e n')"

definition advance_entry :: "('j, 'w) pair_env \<Rightarrow> millis \<Rightarrow> peer_entry \<Rightarrow> ('w, unit) pair_op" where
  "advance_entry env now p n =
     (if pe_id p \<in> set (hn_in_flight n) \<or> now < (case map_of (hn_wait n) (pe_id p) of None \<Rightarrow> 0 | Some t \<Rightarrow> t) then (Inr (), n)
      else case try_initiate env p (n\<lparr>hn_in_flight := pe_id p # hn_in_flight n\<rparr>) of
          (r, n1) \<Rightarrow> (r, n1\<lparr>hn_in_flight := removeAll (pe_id p) (hn_in_flight n1)\<rparr>))"

definition sweep_handshakes :: "millis \<Rightarrow> 'w pair_node \<Rightarrow> 'w pair_node" where
  "sweep_handshakes now n = n\<lparr>hn_handshakes := filter (\<lambda>e. \<not> rh_expires_at (snd e) < now) (hn_handshakes n)\<rparr>"

definition joining :: "millis \<Rightarrow> peer_entry \<Rightarrow> bool" where
  "joining now p \<longleftrightarrow> pe_role p = JOIN \<and> open_window now p"

definition pairing_tick :: "('j, 'w) pair_env \<Rightarrow> 'w pair_node \<Rightarrow> 'w pair_node" where
  "pairing_tick env n =
     (let now = time_of env n; n1 = sweep_handshakes now n
      in snd (op_each (filter (joining now) (hn_rows n1)) (advance_entry env now) n1))"

end
