(* ===== verification/Pair_Ops.thy ===== *)
theory Pair_Ops
  imports Pairing
begin

text \<open>
  What an administrator does with links, and introductions: \<open>createInvite\<close>, \<open>joinCluster\<close>, \<open>joinFromBootstrap\<close>,
  \<open>updatePeer\<close>, \<open>removePeer\<close> and the call \<open>bye\<close> of \<^verbatim>\<open>src/cluster/index.ts\<close>, \<open>handleIntroduce\<close> of \<^verbatim>\<open>mesh.ts\<close>. A \<open>ClusterError\<close>
  is its message and status. The tick that a join starts at once is a step of its own; cached lists for the
  heartbeat (\<open>refreshPeerLists\<close>) and recorded events are not modelled.
\<close>

type_synonym ('w, 'a) admin_op = "('w pair_node, string \<times> nat, 'a) request"

definition cluster_error :: "string \<Rightarrow> nat \<Rightarrow> ('w, 'a) admin_op" where
  "cluster_error msg status = op_fail (msg, status)"

definition require_running :: "('j, 'w) pair_env \<Rightarrow> ('w, unit) admin_op" where
  "require_running env = op_check (pv_running env) (''The cluster layer is not running on this node'', 503)"

definition remember_own_address :: "('j, 'w) pair_env \<Rightarrow> string \<Rightarrow> ('w, string) admin_op" where
  "remember_own_address env given n =
     (case normalize_peer_address (pv_url env) given of
        Inl e \<Rightarrow> (Inl (''Address of this node: '' @ e, 400), n)
      | Inr url \<Rightarrow>
          if url = hn_advertise n then (Inr url, n)
          else (case save_advertise_url url (hn_own n) of
              Inl e \<Rightarrow> (Inl (e, 500), n)
            | Inr own \<Rightarrow> (Inr url, n\<lparr>hn_own := own, hn_advertise := url\<rparr>)))"

definition ensure_capture :: "('j, 'w) pair_env \<Rightarrow> ('w, unit) admin_op" where
  "ensure_capture env n =
     (case pv_capture env (tn_world (hn_node n)) of
        (r, w) \<Rightarrow>
          (map_error (\<lambda>e. (''Change capture could not be installed in the database: '' @ e, 500)) r,
           n\<lparr>hn_node := (hn_node n)\<lparr>tn_world := w\<rparr>\<rparr>))"

definition new_entry :: "('j, 'w) pair_env \<Rightarrow> pending_input \<Rightarrow> ('w, peer_entry) admin_op" where
  "new_entry env i n =
     (let (d, n1) = draw env n
      in case create_pending_peer (pv_store env) (time_of env n1) (pd_id d) (pd_wrap d) i (hn_rows n1) of
           Inl e \<Rightarrow> (Inl (e, 500), n1)
         | Inr (p, rs) \<Rightarrow> (Inr p, n1\<lparr>hn_rows := rs\<rparr>))"

definition forget_entries :: "peer_entry list \<Rightarrow> 'w pair_node \<Rightarrow> 'w pair_node" where
  "forget_entries ps n = fold (\<lambda>p n. on_rows (delete_peer (pe_id p)) (forget_pairing (pe_id p) n)) ps n"

section \<open>Invites\<close>

definition host_input :: "string \<Rightarrow> string \<Rightarrow> pending_input" where
  "host_input secret created_by =
     \<lparr>pn_role = HOST, pn_address = [], pn_name = [], pn_secret = secret, pn_node_id = None, pn_introduced_by = None,
      pn_created_by = created_by, pn_tls = None, pn_tls_required = False, pn_expires_at = None\<rparr>"

definition invite_for :: "('j, 'w) pair_env \<Rightarrow> string \<Rightarrow> string \<Rightarrow> peer_entry \<Rightarrow> own_channel option \<Rightarrow> invite" where
  "invite_for env own_address secret p channel =
     \<lparr>iv_address = own_address, iv_node_id = pv_self env, iv_name = pv_name env, iv_secret = secret,
      iv_expires_at = pe_expires_at p,
      iv_channel = map_option (\<lambda>ch. \<lparr>ic_url = oc_url ch, ic_pin = oc_pin ch,
        ic_endpoints = Some (map format_endpoint (oc_endpoints ch))\<rparr>) channel\<rparr>"

definition create_invite :: "('j, 'w) pair_env \<Rightarrow> string \<Rightarrow> string \<Rightarrow> ('w, string \<times> string) admin_op" where
  "create_invite env given created_by =
     op_bind (require_running env) (\<lambda>_.
     op_bind (remember_own_address env given) (\<lambda>own_address.
     op_bind (ensure_capture env) (\<lambda>_.
     op_bind (\<lambda>n. case draw env n of (d, n1) \<Rightarrow> (Inr (new_invite_secret (pd_secret d)), n1)) (\<lambda>secret.
     op_bind (new_entry env (host_input secret created_by)) (\<lambda>p.
     op_bind (op_read (own_channel env)) (\<lambda>channel.
     op_ok (pe_id p, encode_invite (pv_write_invite env) (invite_for env own_address secret p channel))))))))"

definition invited_channel :: "('j, 'w) pair_env \<Rightarrow> invite \<Rightarrow> endpoint list" where
  "invited_channel env i =
     (case iv_channel i of
        None \<Rightarrow> []
      | Some ch \<Rightarrow> fst (parse_endpoint_list (pv_url env) (case ic_endpoints ch of Some es \<Rightarrow> es | None \<Rightarrow> [ic_url ch])))"

definition invited_tls :: "('j, 'w) pair_env \<Rightarrow> invite \<Rightarrow> 'w pair_node \<Rightarrow> peer_tls_input option" where
  "invited_tls env i n =
     (case (iv_channel i, invited_channel env i, own_channel env n) of
        (Some ch, e # es, Some own) \<Rightarrow>
          Some \<lparr>ti_url = ep_url e, ti_pin = ic_pin ch, ti_cert_pem = None, ti_endpoints = Some (e # es)\<rparr>
      | _ \<Rightarrow> None)"

definition entries_for :: "string \<Rightarrow> 'w pair_node \<Rightarrow> peer_entry list" where
  "entries_for node n = filter (\<lambda>p. pe_node_id p = Some node) (hn_rows n)"

definition join_with_invite :: "('j, 'w) pair_env \<Rightarrow> invite \<Rightarrow> string \<Rightarrow> string \<Rightarrow> string \<Rightarrow> ('w, string) admin_op" where
  "join_with_invite env i base given created_by =
     op_bind (remember_own_address env given) (\<lambda>_.
     op_bind (ensure_capture env) (\<lambda>_.
     op_bind (op_read (entries_for (iv_node_id i))) (\<lambda>existing.
     op_bind (op_check (\<not> list_ex (\<lambda>p. pe_status p = ACTIVE) existing) (''This node is already linked with that node'', 409)) (\<lambda>_.
     op_bind (op_write (forget_entries existing)) (\<lambda>_.
     op_bind (op_read (invited_tls env i)) (\<lambda>tls.
     op_bind (new_entry env
        \<lparr>pn_role = JOIN, pn_address = base, pn_name = iv_name i, pn_secret = iv_secret i, pn_node_id = Some (iv_node_id i),
         pn_introduced_by = None, pn_created_by = created_by, pn_tls = tls, pn_tls_required = False, pn_expires_at = None\<rparr>) (\<lambda>p.
     op_ok (pe_id p))))))))"

definition join_cluster :: "('j, 'w) pair_env \<Rightarrow> string \<Rightarrow> string \<Rightarrow> string \<Rightarrow> ('w, string) admin_op" where
  "join_cluster env code given created_by =
     op_bind (require_running env) (\<lambda>_.
     op_bind (op_read (\<lambda>n. decode_invite (pv_read_invite env) (time_of env n) code)) (\<lambda>decoded.
     op_bind (op_lift (map_error (\<lambda>e. (e, 400)) decoded)) (\<lambda>i.
     op_bind (op_check (iv_node_id i \<noteq> pv_self env)
        (''This invite code was created on this node '' @ em_dash @ '' use it on the new node'', 400)) (\<lambda>_.
     op_bind (op_lift (map_error (\<lambda>e. (''The invite code contains an unusable address: '' @ e, 400))
        (normalize_peer_address (pv_url env) (iv_address i)))) (\<lambda>base.
     join_with_invite env i base given created_by)))))"

section \<open>Joining as an installer set it up\<close>

record bootstrap_join =
  bj_node_id :: string
  bj_url :: string
  bj_name :: string
  bj_secret :: string
  bj_endpoints :: "endpoint list"
  bj_pin :: string
  bj_cert_pem :: string
  bj_expires_at :: millis

definition bootstrap_input :: "bootstrap_join \<Rightarrow> pending_input" where
  "bootstrap_input b =
     \<lparr>pn_role = JOIN, pn_address = bj_url b, pn_name = bj_name b, pn_secret = bj_secret b, pn_node_id = Some (bj_node_id b),
      pn_introduced_by = None, pn_created_by = ''installer'',
      pn_tls = Some \<lparr>ti_url = bj_url b, ti_pin = bj_pin b, ti_cert_pem = Some (bj_cert_pem b), ti_endpoints = Some (bj_endpoints b)\<rparr>,
      pn_tls_required = True, pn_expires_at = Some (bj_expires_at b)\<rparr>"

text \<open>As after the wait for the channel.\<close>

definition join_from_bootstrap :: "('j, 'w) pair_env \<Rightarrow> bootstrap_join \<Rightarrow> ('w, unit) admin_op" where
  "join_from_bootstrap env b =
     op_bind (op_check (bj_node_id b \<noteq> pv_self env) (''The join instruction names this node itself'', 400)) (\<lambda>_.
     op_bind (op_read (own_channel env)) (\<lambda>channel.
     op_bind (op_check (channel \<noteq> None)
        (''The mutually authenticated channel is not running on this node (CLUSTER_MTLS_PORT, CLUSTER_MTLS_URL)'', 400)) (\<lambda>_.
     op_bind (ensure_capture env) (\<lambda>_.
     op_bind (op_read (entries_for (bj_node_id b))) (\<lambda>existing.
     if list_ex (\<lambda>p. pe_status p = ACTIVE) existing then op_ok ()
     else op_bind (op_write (forget_entries existing)) (\<lambda>_.
          op_bind (new_entry env (bootstrap_input b)) (\<lambda>_. op_ok ())))))))"

section \<open>Changing and removing a link\<close>

record peer_change =
  ch_address :: "string option"
  ch_name :: "string option"
  ch_enabled :: "bool option"

definition on_hub :: "('w tnode \<Rightarrow> 'w tnode) \<Rightarrow> 'w pair_node \<Rightarrow> 'w pair_node" where
  "on_hub f n = n\<lparr>hn_node := f (hn_node n)\<rparr>"

definition changed_entry :: "string option \<Rightarrow> string option \<Rightarrow> peer_entry \<Rightarrow> peer_entry" where
  "changed_entry address name p =
     p\<lparr>pe_address := (case address of None \<Rightarrow> pe_address p | Some a \<Rightarrow> a),
       pe_name := (case name of None \<Rightarrow> pe_name p | Some s \<Rightarrow> take 120 (trim s))\<rparr>"

definition load_row :: "('j, 'w) pair_env \<Rightarrow> string \<Rightarrow> 'w pair_node \<Rightarrow> 'w pair_node" where
  "load_row env rid n = (case get_peer rid (hn_rows n) of None \<Rightarrow> n | Some p \<Rightarrow> load_peer_runtime env p n)"

definition switch_on :: "('j, 'w) pair_env \<Rightarrow> peer_entry \<Rightarrow> ('w, unit) admin_op" where
  "switch_on env p n =
     (if (case pe_link_key p of None \<Rightarrow> True | Some k \<Rightarrow> k = []) \<or> (case pe_node_id p of None \<Rightarrow> True | Some node \<Rightarrow> node = [])
      then (Inl (''This peer has to be invited again before it can be switched on'', 400), n)
      else case set_peer_status (pe_id p) ACTIVE (Some (pv_stable env (tn_world (hn_node n)))) (hn_rows n) of
          Inl e \<Rightarrow> (Inl (e, 500), n)
        | Inr rs \<Rightarrow> (Inr (), load_row env (pe_id p) (n\<lparr>hn_rows := rs\<rparr>)))"

definition switch_off :: "peer_entry \<Rightarrow> ('w, unit) admin_op" where
  "switch_off p n =
     (case set_peer_status (pe_id p) DISABLED None (hn_rows n) of
        Inl e \<Rightarrow> (Inl (e, 500), n)
      | Inr rs \<Rightarrow> (Inr (), on_hub (unload_peer (pe_id p)) (n\<lparr>hn_rows := rs\<rparr>)))"

definition pick_up :: "('j, 'w) pair_env \<Rightarrow> string \<Rightarrow> 'w pair_node \<Rightarrow> 'w pair_node" where
  "pick_up env rid n =
     (if map_of (tn_peers (hn_node n)) rid = None then n
      else case get_peer rid (hn_rows n) of
          None \<Rightarrow> n
        | Some p \<Rightarrow> load_peer_runtime env p (on_hub (drop_sessions_of rid) n))"

definition update_peer :: "('j, 'w) pair_env \<Rightarrow> string \<Rightarrow> peer_change \<Rightarrow> ('w, unit) admin_op" where
  "update_peer env rid c =
     op_bind (op_read (\<lambda>n. get_peer rid (hn_rows n))) (\<lambda>found.
     op_bind (op_check (found \<noteq> None) (''Peer not found'', 404)) (\<lambda>_.
     op_bind (op_lift (map_error (\<lambda>e. (e, 400)) (case ch_address c of
          None \<Rightarrow> Inr None
        | Some a \<Rightarrow> and_then (normalize_peer_address (pv_url env) a) (\<lambda>url. Inr (Some url))))) (\<lambda>address.
     op_bind (op_write (on_rows (on_row rid (changed_entry address (ch_name c))))) (\<lambda>_.
     if ch_enabled c = Some False \<and> pe_status (the found) = ACTIVE then switch_off (the found)
     else if ch_enabled c = Some True \<and> pe_status (the found) = DISABLED then switch_on env (the found)
     else op_write (pick_up env rid)))))"

definition remove_peer :: "('j, 'w) pair_env \<Rightarrow> string \<Rightarrow> ('w, bool) admin_op" where
  "remove_peer env rid n =
     (case get_peer rid (hn_rows n) of
        None \<Rightarrow> (Inl (''Peer not found'', 404), n)
      | Some p \<Rightarrow>
          let runtime = map_of (tn_peers (hn_node n)) rid; n1 = forget_pairing rid (on_hub (unload_peer rid) n)
          in if pe_status p = ACTIVE \<or> pe_status p = DISABLED
             then let n2 = (case runtime of None \<Rightarrow> n1 | Some q \<Rightarrow> pv_bye env q n1)
                  in case set_peer_status rid REMOVED None (hn_rows n2) of
                       Inl e \<Rightarrow> (Inl (e, 500), n2)
                     | Inr rs \<Rightarrow> (Inr False, n2\<lparr>hn_rows := rs\<rparr>)
             else (Inr True, on_rows (delete_peer rid) n1))"

definition handle_bye :: "string \<Rightarrow> ('w, unit) pair_op" where
  "handle_bye rid n =
     (case set_peer_status rid REMOVED None (hn_rows n) of
        Inl e \<Rightarrow> (Inl (OtherError e), n)
      | Inr rs \<Rightarrow> (Inr (), on_hub (unload_peer rid) (n\<lparr>hn_rows := rs\<rparr>)))"

definition expire_windows :: "('j, 'w) pair_env \<Rightarrow> 'w pair_node \<Rightarrow> nat \<times> 'w pair_node" where
  "expire_windows env n = (case expire_pairing_windows (time_of env n) (hn_rows n) of (k, rs) \<Rightarrow> (k, n\<lparr>hn_rows := rs\<rparr>))"

section \<open>Introductions\<close>

record introduction =
  in_node :: string
  in_name :: string
  in_addr :: string
  in_role :: peer_role
  in_secret :: string
  in_tls :: "(string \<times> string \<times> string list option) option" \<comment> \<open>\<open>url\<close>, \<open>cert\<close>, \<open>endpoints\<close>\<close>

definition introduction_ok :: "introduction \<Rightarrow> bool" where
  "introduction_ok i \<longleftrightarrow>
     node_id_ok (in_node i) \<and> length (in_name i) \<le> 120 \<and> length (in_addr i) \<le> 255 \<and>
     32 \<le> length (in_secret i) \<and> length (in_secret i) \<le> 128 \<and>
     (case in_tls i of
        None \<Rightarrow> True
      | Some (url, cert, ways) \<Rightarrow> length url \<le> 255 \<and> length cert \<le> 4096 \<and>
          (case ways of None \<Rightarrow> True | Some xs \<Rightarrow> length xs \<le> 8 \<and> list_all (\<lambda>w. length w \<le> 300) xs))"

definition introduced_tls :: "('j, 'w) pair_env \<Rightarrow> millis \<Rightarrow> introduction \<Rightarrow> call_failure + peer_tls_input option" where
  "introduced_tls env now i =
     (case in_tls i of
        None \<Rightarrow> Inr None
      | Some (url, cert, ways) \<Rightarrow>
          (case fst (parse_endpoint_list (pv_url env) (case ways of None \<Rightarrow> [url] | Some ws \<Rightarrow> ws)) of
             [] \<Rightarrow> Inl (RpcError ''bad_request'' ''introduced channel address is unusable'')
           | e # es \<Rightarrow>
               (case inspect_node_certificate (pv_pr env) (pv_x509 env) now cert of
                  Inl msg \<Rightarrow> Inl (RpcError ''bad_request'' (''introduced certificate is unusable: '' @ msg))
                | Inr facts \<Rightarrow>
                    Inr (Some \<lparr>ti_url = ep_url e, ti_pin = cf_pin facts, ti_cert_pem = Some (cf_pem facts), ti_endpoints = Some (e # es)\<rparr>))))"

definition introduced_entries :: "('j, 'w) pair_env \<Rightarrow> string \<Rightarrow> 'w pair_node \<Rightarrow> peer_entry list" where
  "introduced_entries env node n =
     filter (\<lambda>p. pe_node_id p = Some node \<or> expected_node_of env p = Some node) (hn_rows n)"

definition window_running :: "millis \<Rightarrow> peer_entry \<Rightarrow> bool" where
  "window_running now p \<longleftrightarrow> pe_status p = PENDING \<and> (case pe_expires_at p of None \<Rightarrow> False | Some t \<Rightarrow> now < t)"

definition introduced_input :: "string \<Rightarrow> introduction \<Rightarrow> peer_tls_input option \<Rightarrow> string \<Rightarrow> pending_input" where
  "introduced_input introducer i tls address =
     \<lparr>pn_role = in_role i, pn_address = address, pn_name = take 120 (trim (in_name i)), pn_secret = in_secret i,
      pn_node_id = (if in_role i = JOIN then Some (in_node i) else None), pn_introduced_by = Some introducer,
      pn_created_by = ''cluster'', pn_tls = tls, pn_tls_required = (tls \<noteq> None), pn_expires_at = None\<rparr>"

definition as_call_failure :: "('w, 'a) admin_op \<Rightarrow> ('w, 'a) pair_op" where
  "as_call_failure f n = (case f n of (r, n') \<Rightarrow> (map_error (\<lambda>e. OtherError (fst e)) r, n'))"

definition introduce_joiner ::
    "('j, 'w) pair_env \<Rightarrow> string \<Rightarrow> introduction \<Rightarrow> peer_tls_input option \<Rightarrow> ('w, unit) pair_op" where
  "introduce_joiner env introducer i tls =
     op_bind (op_lift (map_error (\<lambda>e. RpcError ''bad_request'' (''introduced address is unusable: '' @ e))
        (normalize_peer_address (pv_url env) (case tls of Some t \<Rightarrow> ti_url t | None \<Rightarrow> in_addr i)))) (\<lambda>address.
     op_bind (as_call_failure (new_entry env (introduced_input introducer i tls address))) (\<lambda>p. op_ok ()))"

definition introduce_host ::
    "('j, 'w) pair_env \<Rightarrow> string \<Rightarrow> introduction \<Rightarrow> peer_tls_input option \<Rightarrow> ('w, unit) pair_op" where
  "introduce_host env introducer i tls =
     op_bind (as_call_failure (new_entry env (introduced_input introducer i tls []))) (\<lambda>p.
     op_bind (\<lambda>n. case draw env n of (d, n1) \<Rightarrow> (Inr (pd_wrap d), n1)) (\<lambda>nonce.
     update_entry (pe_id p) (\<lambda>q. q\<lparr>pe_state := Some (expectation_for env nonce (pe_id p) (in_node i))\<rparr>)))"

definition open_introduction :: "('j, 'w) pair_env \<Rightarrow> string \<Rightarrow> introduction \<Rightarrow> peer_entry list \<Rightarrow> ('w, unit) pair_op" where
  "open_introduction env introducer i existing =
     op_bind (op_write (on_rows (\<lambda>rs. fold (\<lambda>p. delete_peer (pe_id p)) existing rs))) (\<lambda>_.
     op_bind (op_read (time_of env)) (\<lambda>now.
     op_bind (op_lift (introduced_tls env now i)) (\<lambda>tls.
     if in_role i = JOIN then introduce_joiner env introducer i tls else introduce_host env introducer i tls)))"

text \<open>The answer is \<open>ok\<close> with a reason.\<close>

definition handle_introduce :: "('j, 'w) pair_env \<Rightarrow> string \<Rightarrow> introduction option \<Rightarrow> ('w, bool \<times> string) pair_op" where
  "handle_introduce env introducer params n =
     (if \<not> pv_auto_mesh env then (Inr (False, ''disabled''), n)
      else case params of
          None \<Rightarrow> (Inl (OtherError ''invalid parameters''), n)
        | Some i \<Rightarrow>
            if \<not> introduction_ok i then (Inl (OtherError ''invalid parameters''), n)
            else if in_node i = pv_self env then (Inr (False, ''self''), n)
            else let existing = introduced_entries env (in_node i) n
                 in if list_ex (\<lambda>p. pe_status p = ACTIVE) existing then (Inr (True, ''linked''), n)
                    else if list_ex (\<lambda>p. pe_status p = REMOVED \<or> pe_status p = DISABLED) existing then (Inr (False, ''refused''), n)
                    else if list_ex (window_running (time_of env n)) existing then (Inr (False, ''busy''), n)
                    else (case open_introduction env introducer i existing n of
                        (Inl e, n') \<Rightarrow> (Inl e, n')
                      | (Inr u, n') \<Rightarrow> (Inr (True, []), n')))"

end
