(* ===== verification/Pair_Facts.thy ===== *)
theory Pair_Facts
  imports Pair_Ops
begin

text \<open>
  What holds of a node's entries and open exchanges in every state it can reach. The contract \<open>pairing_world\<close> says
  that whatever goes on while a step waits for the other node keeps that invariant; under it every operation does.
\<close>

section \<open>The invariant\<close>

definition entry_ok :: "store_env \<Rightarrow> peer_entry \<Rightarrow> bool" where
  "entry_ok st p \<longleftrightarrow>
     (pe_status p \<noteq> PENDING \<longrightarrow> pe_secret p = None) \<and>
     (pe_status p = PENDING \<longrightarrow> pe_failures p < max_failures st \<and> pe_link_key p = None) \<and>
     (pe_status p = ACTIVE \<or> pe_status p = DISABLED \<longrightarrow> pe_link_key p \<noteq> None \<and> pe_node_id p \<noteq> None)"

definition node_ids :: "peer_table \<Rightarrow> string list" where
  "node_ids rs = List.map_filter pe_node_id rs"

definition table_ok :: "store_env \<Rightarrow> peer_table \<Rightarrow> bool" where
  "table_ok st rs \<longleftrightarrow> distinct (map pe_id rs) \<and> distinct (node_ids rs) \<and> list_all (entry_ok st) rs"

text \<open>
  The keys an accepted proof leads to, and a proof that checks out: the entry was an open window of this node that the
  request may use, over the certificate it came with; the request carries the MAC under the code of the entry and
  does not come from this node itself.
\<close>

definition proof_psk :: "('j, 'w) pair_env \<Rightarrow> pair_proof \<Rightarrow> buffer" where
  "proof_psk env pp = derive_pairing_psk (pv_pr env) (pp_secret pp) (pi_salt (pp_init pp))"

definition proof_keys :: "('j, 'w) pair_env \<Rightarrow> pair_proof \<Rightarrow> string + pair_keys_result" where
  "proof_keys env pp = pair_keys (pv_pr env) (proof_psk env pp) (pp_shared pp) (pp_init pp) (pp_accept pp)"

definition proof_checks :: "('j, 'w) pair_env \<Rightarrow> pair_proof \<Rightarrow> bool" where
  "proof_checks env pp \<longleftrightarrow>
     (\<exists>client. is_candidate env (pp_at pp) (pi_from (pp_init pp)) client (pp_entry pp) \<and>
        map_option ca_pin client = map_option cb_client (pi_tls (pp_init pp))) \<and>
     pairing_secret_of (pv_store env) (pp_entry pp) = Some (pp_secret pp) \<and>
     pp_secret pp \<noteq> [] \<and> pi_from (pp_init pp) \<noteq> pv_self env \<and>
     pair_init_mac (pv_pr env) (proof_psk env pp) (pp_init pp) = Inr (pp_mac pp)"

definition rests_on :: "('j, 'w) pair_env \<Rightarrow> pair_proof \<Rightarrow> string \<Rightarrow> responder_handshake \<Rightarrow> bool" where
  "rests_on env pp k h \<longleftrightarrow>
     proof_checks env pp \<and> pe_id (pp_entry pp) = rh_row h \<and> pi_from (pp_init pp) = k \<and> rh_initiator h = k \<and>
     map_option cb_client (pi_tls (pp_init pp)) = map_option lt_pin (rh_tls h) \<and>
     (\<exists>keys. proof_keys env pp = Inr keys \<and> rh_link_key h = link_key keys \<and> rh_confirm h = confirm_initiator keys)"

definition handshakes_ok :: "('j, 'w) pair_env \<Rightarrow> 'w pair_node \<Rightarrow> bool" where
  "handshakes_ok env n \<longleftrightarrow>
     (\<forall>e \<in> set (hn_handshakes n). \<exists>pp \<in> set (hn_proved n). rests_on env pp (fst e) (snd e))"

definition pair_ok :: "('j, 'w) pair_env \<Rightarrow> 'w pair_node \<Rightarrow> bool" where
  "pair_ok env n \<longleftrightarrow> table_ok (pv_store env) (hn_rows n) \<and> handshakes_ok env n"

lemma pair_ok_less:
  assumes "pair_ok env n" "set (hn_handshakes n') \<subseteq> set (hn_handshakes n)" "hn_proved n' = hn_proved n"
    "table_ok (pv_store env) (hn_rows n')"
  shows "pair_ok env n'"
  using assms unfolding pair_ok_def handshakes_ok_def by (metis subsetD)

lemma pair_ok_same:
  assumes "pair_ok env n" "set (hn_handshakes n') \<subseteq> set (hn_handshakes n)" "hn_proved n' = hn_proved n" "hn_rows n' = hn_rows n"
  shows "pair_ok env n'"
  using assms(1) by (rule pair_ok_less) (use assms in \<open>auto simp: pair_ok_def\<close>)

lemma pair_ok_rows: "pair_ok env n \<Longrightarrow> table_ok (pv_store env) (hn_rows n)"
  by (simp add: pair_ok_def)

section \<open>Rows\<close>

lemma table_ok_Nil: "table_ok st []"
  by (simp add: table_ok_def node_ids_def List.map_filter_simps)

lemma node_ids_map: "(\<And>p. p \<in> set rs \<Longrightarrow> pe_node_id (f p) = pe_node_id p) \<Longrightarrow> node_ids (map f rs) = node_ids rs"
  by (induction rs) (auto simp: node_ids_def List.map_filter_simps split: option.split)

lemma node_ids_unique:
  "distinct (node_ids rs) \<Longrightarrow> p \<in> set rs \<Longrightarrow> q \<in> set rs \<Longrightarrow> pe_node_id p = Some k \<Longrightarrow> pe_node_id q = Some k \<Longrightarrow> p = q"
proof (induction rs)
  case (Cons r rs)
  have "k \<in> set (node_ids rs)" if "x \<in> set rs" "pe_node_id x = Some k" for x
    using that by (induction rs) (auto simp: node_ids_def List.map_filter_simps split: option.split)
  then show ?case using Cons by (auto simp: node_ids_def List.map_filter_simps split: option.splits)
qed simp

lemma set_node_ids: "set (node_ids rs) = {k. \<exists>p \<in> set rs. pe_node_id p = Some k}"
  by (induction rs) (auto simp: node_ids_def List.map_filter_simps split: option.splits)

lemma node_ids_append: "node_ids (rs @ qs) = node_ids rs @ node_ids qs"
  by (induction rs) (auto simp: node_ids_def List.map_filter_simps split: option.splits)

lemma distinct_node_ids_filter: "distinct (node_ids rs) \<Longrightarrow> distinct (node_ids (filter P rs))"
proof (induction rs)
  case (Cons p rs)
  have "set (node_ids (filter P rs)) \<subseteq> set (node_ids rs)" by (auto simp: set_node_ids)
  with Cons show ?case by (auto simp: node_ids_def List.map_filter_simps split: option.splits)
qed simp

lemma table_ok_filter: "table_ok st rs \<Longrightarrow> table_ok st (filter P rs)"
  by (auto simp: table_ok_def distinct_map_filter distinct_node_ids_filter list_all_iff)

lemma table_ok_map:
  assumes "table_ok st rs" "\<And>p. p \<in> set rs \<Longrightarrow> pe_id (f p) = pe_id p \<and> pe_node_id (f p) = pe_node_id p"
    "\<And>p. p \<in> set rs \<Longrightarrow> entry_ok st p \<Longrightarrow> entry_ok st (f p)"
  shows "table_ok st (map f rs)"
proof -
  have "map pe_id (map f rs) = map pe_id rs" using assms(2) by simp
  moreover have "node_ids (map f rs) = node_ids rs" using assms(2) by (intro node_ids_map) simp
  ultimately show ?thesis using assms(1,3) by (auto simp: table_ok_def list_all_iff simp del: map_map)
qed

lemma table_ok_on_row:
  assumes "table_ok st rs" "\<And>p. pe_id (f p) = pe_id p \<and> pe_node_id (f p) = pe_node_id p"
    "\<And>p. p \<in> set rs \<Longrightarrow> pe_id p = rid \<Longrightarrow> entry_ok st p \<Longrightarrow> entry_ok st (f p)"
  shows "table_ok st (on_row rid f rs)"
  unfolding on_row_def using assms by (intro table_ok_map) auto

lemma table_ok_delete: "table_ok st rs \<Longrightarrow> table_ok st (delete_peer rid rs)"
  unfolding delete_peer_def by (rule table_ok_filter)

lemma table_ok_deletes: "table_ok st rs \<Longrightarrow> table_ok st (fold delete_peer rids rs)"
  by (induction rids arbitrary: rs) (simp_all add: table_ok_delete)

lemma fold_delete_peer: "fold delete_peer rids rs = filter (\<lambda>p. pe_id p \<notin> set rids) rs"
  by (induction rids arbitrary: rs) (auto simp: delete_peer_def intro!: filter_cong)

lemma get_peer_mem: "get_peer rid rs = Some p \<Longrightarrow> p \<in> set rs \<and> pe_id p = rid"
  unfolding get_peer_def by (auto dest: find_SomeD)

lemma get_peer_None: "get_peer rid rs = None \<longleftrightarrow> rid \<notin> pe_id ` set rs"
  by (auto simp: get_peer_def find_None_iff)

lemma get_peer_unique: "table_ok st rs \<Longrightarrow> p \<in> set rs \<Longrightarrow> pe_id p = rid \<Longrightarrow> get_peer rid rs = Some p"
proof -
  assume rs: "table_ok st rs" and p: "p \<in> set rs" "pe_id p = rid"
  then obtain q where q: "get_peer rid rs = Some q" using get_peer_None [of rid rs] by fastforce
  then have "q \<in> set rs" "pe_id q = rid" using get_peer_mem [OF q] by simp_all
  moreover have "inj_on pe_id (set rs)" using rs by (simp add: table_ok_def distinct_map)
  ultimately show ?thesis using p q by (auto dest: inj_onD)
qed

lemma get_peer_on_row:
  "(\<And>p. pe_id (f p) = pe_id p) \<Longrightarrow>
    get_peer k (on_row rid f rs) = (if k = rid then map_option f (get_peer k rs) else get_peer k rs)"
  by (induction rs) (auto simp: get_peer_def on_row_def)

text \<open>The row-wise changes.\<close>

lemma with_status_sel [simp]:
  "pe_id (with_status s f p) = pe_id p" "pe_node_id (with_status s f p) = pe_node_id p"
  "pe_status (with_status s f p) = s" "pe_link_key (with_status s f p) = pe_link_key p"
  "pe_failures (with_status s f p) = pe_failures p" "pe_role (with_status s f p) = pe_role p"
  by (simp_all add: with_status_def)

lemma with_status_secret: "s \<noteq> ACTIVE \<Longrightarrow> pe_secret (with_status s f p) = None"
  by (simp add: with_status_def)

lemma with_status_ends: "s \<in> {EXPIRED, LOCKED, REMOVED} \<Longrightarrow> entry_ok st (with_status s f p)"
  by (auto simp: entry_ok_def with_status_def)

lemma failed_once_sel [simp]: "pe_id (failed_once st p) = pe_id p" "pe_node_id (failed_once st p) = pe_node_id p"
  "pe_role (failed_once st p) = pe_role p"
  by (simp_all add: failed_once_def Let_def)

lemma failed_once_ok: "entry_ok st p \<Longrightarrow> entry_ok st (failed_once st p)"
  by (auto simp: failed_once_def Let_def with_status_ends) (auto simp: entry_ok_def)

lemma table_ok_failure: "table_ok st rs \<Longrightarrow> table_ok st (note_pairing_failure st rid rs)"
  unfolding note_pairing_failure_def by (rule table_ok_on_row) (simp_all add: failed_once_ok)

lemma table_ok_fold_failures: "table_ok st rs \<Longrightarrow> table_ok st (fold (note_pairing_failure st) ids rs)"
  by (induction ids arbitrary: rs) (simp_all add: table_ok_failure)

lemma table_ok_failures: "table_ok st rs \<Longrightarrow> table_ok st (note_failures st ps rs)"
  using table_ok_fold_failures [of st rs "map pe_id ps"] by (simp add: note_failures_def fold_map comp_def)

lemma table_ok_expire: "table_ok st rs \<Longrightarrow> table_ok st (snd (expire_pairing_windows now rs))"
  unfolding expire_pairing_windows_def snd_conv by (rule table_ok_map) (auto simp: with_status_ends)

lemma table_ok_ended:
  assumes "table_ok st rs" "set_peer_status rid s f rs = Inr rs'" "s \<in> {EXPIRED, LOCKED, REMOVED}"
  shows "table_ok st rs'"
  using assms(2,3) by (auto simp: set_peer_status_def with_status_ends split: if_splits intro!: table_ok_on_row [OF assms(1)])

lemma table_ok_switched:
  assumes "table_ok st rs" "set_peer_status rid s f rs = Inr rs'" "s = ACTIVE \<or> s = DISABLED"
    "get_peer rid rs = Some p" "pe_status p = ACTIVE \<or> pe_status p = DISABLED"
  shows "table_ok st rs'"
proof -
  have rs': "rs' = on_row rid (with_status s f) rs" using assms(2) by (auto simp: set_peer_status_def split: if_splits)
  show ?thesis unfolding rs'
  proof (rule table_ok_on_row [OF assms(1)])
    fix q assume q: "q \<in> set rs" "pe_id q = rid" "entry_ok st q"
    then have "q = p" using get_peer_unique [OF assms(1)] assms(4) by fastforce
    with q(3) assms(3,5) show "entry_ok st (with_status s f q)" by (auto simp: entry_ok_def with_status_def)
  qed simp
qed

lemma activated_sel [simp]:
  "pe_id (activated st now nonce a p) = pe_id p" "pe_node_id (activated st now nonce a p) = Some (av_node_id a)"
  "pe_status (activated st now nonce a p) = ACTIVE" "pe_secret (activated st now nonce a p) = None"
  "pe_state (activated st now nonce a p) = None" "pe_failures (activated st now nonce a p) = 0"
  "pe_link_key (activated st now nonce a p) = Some (wrap st nonce (av_link_key a) (''link:'' @ pe_id p))"
  "pe_role (activated st now nonce a p) = pe_role p"
  by (auto simp: activated_def Let_def set_tls_def split: option.splits)

lemma activated_ok: "entry_ok st (activated st now nonce a p)"
  by (simp add: entry_ok_def)

lemma distinct_node_ids_activate:
  assumes "distinct (map pe_id rs)" "distinct (node_ids rs)" "\<And>p. p \<in> set rs \<Longrightarrow> pe_node_id p = Some k \<Longrightarrow> pe_id p = rid"
    "\<And>p. pe_node_id (f p) = Some k"
  shows "distinct (node_ids (on_row rid f rs))"
  using assms(1-3)
proof (induction rs)
  case (Cons p rs)
  have IH: "distinct (node_ids (on_row rid f rs))"
    using Cons.prems by (intro Cons.IH) (auto simp: node_ids_def List.map_filter_simps split: option.splits)
  have others: "on_row rid f rs = rs" if "pe_id p = rid"
    proof -
    have "rid \<notin> pe_id ` set rs" using that Cons.prems(1) by auto
    then show ?thesis unfolding on_row_def by (intro map_idI) (metis imageI)
  qed
  show ?case
  proof (cases "pe_id p = rid")
    case True
    have "k \<notin> set (node_ids rs)" using True Cons.prems(1,3) by (auto simp: set_node_ids) (metis imageI)
    moreover have "on_row rid f (p # rs) = f p # rs" using True others by (simp add: on_row_def)
    ultimately show ?thesis using IH others True assms(4) by (simp add: node_ids_def List.map_filter_simps)
  next
    case False
    have "pe_node_id p \<noteq> Some k" using False Cons.prems(3) by auto
    moreover have "set (node_ids (on_row rid f rs)) \<subseteq> insert k (set (node_ids rs))"
      using assms(4) by (auto simp: set_node_ids on_row_def)
    moreover have "on_row rid f (p # rs) = p # on_row rid f rs" using False by (simp add: on_row_def)
    ultimately show ?thesis using IH Cons.prems(2)
      by (auto simp: node_ids_def List.map_filter_simps split: option.splits)
  qed
qed (simp add: node_ids_def on_row_def List.map_filter_simps)

lemma table_ok_activate:
  assumes "table_ok st rs" "\<And>p. p \<in> set rs \<Longrightarrow> pe_node_id p = Some (av_node_id a) \<Longrightarrow> pe_id p = rid"
    "activate_peer st now nonce rid a rs = Inr rs'"
  shows "table_ok st rs'"
proof -
  have rs': "rs' = on_row rid (activated st now nonce a) rs" using assms(3) by (auto simp: activate_peer_def split: if_splits)
  have "map pe_id rs' = map pe_id rs" by (simp add: rs' on_row_def)
  moreover have "distinct (node_ids rs')"
    unfolding rs' using assms(1,2) by (intro distinct_node_ids_activate) (auto simp: table_ok_def)
  moreover have "list_all (entry_ok st) rs'"
    using assms(1) by (auto simp: rs' on_row_def table_ok_def list_all_iff activated_ok)
  ultimately show ?thesis using assms(1) by (simp add: table_ok_def)
qed

lemma table_ok_create:
  assumes "table_ok st rs" "create_pending_peer st now rid nonce i rs = Inr (p, rs')"
  shows "table_ok st rs'"
proof -
  let ?row = "pending_row st now rid nonce i"
  from assms(2) have rs': "rs' = rs @ [?row]" and new: "rid \<notin> pe_id ` set rs"
    and node: "pe_node_id ?row = None \<or> pe_node_id ?row \<notin> pe_node_id ` set rs"
    by (auto simp: create_pending_peer_def Let_def get_peer_None split: if_splits)
  have "pe_id ?row = rid" "entry_ok st ?row" by (simp_all add: pending_row_def entry_ok_def)
  moreover have "distinct (node_ids rs')"
  proof (cases "pe_node_id ?row")
    case (Some k)
    then have "k \<notin> set (node_ids rs)" using node by (force simp: set_node_ids)
    with Some assms(1) show ?thesis by (simp add: rs' node_ids_append table_ok_def) (simp add: node_ids_def List.map_filter_simps)
  next
    case None
    with assms(1) show ?thesis by (simp add: rs' node_ids_append table_ok_def) (simp add: node_ids_def List.map_filter_simps)
  qed
  ultimately show ?thesis using assms(1) new by (auto simp: table_ok_def rs')
qed

section \<open>Single steps of an operation\<close>

lemma pair_ok_node [simp]: "pair_ok env (n\<lparr>hn_node := t\<rparr>) \<longleftrightarrow> pair_ok env n"
  "pair_ok env (n\<lparr>hn_progress := a\<rparr>) \<longleftrightarrow> pair_ok env n"
  "pair_ok env (n\<lparr>hn_wait := b\<rparr>) \<longleftrightarrow> pair_ok env n"
  "pair_ok env (n\<lparr>hn_in_flight := c\<rparr>) \<longleftrightarrow> pair_ok env n"
  "pair_ok env (n\<lparr>hn_own := d, hn_advertise := e\<rparr>) \<longleftrightarrow> pair_ok env n"
  "pair_ok env (n\<lparr>hn_draws := k\<rparr>) \<longleftrightarrow> pair_ok env n"
  by (simp_all add: pair_ok_def handshakes_ok_def)

lemma pair_ok_rows_update: "pair_ok env n \<Longrightarrow> table_ok (pv_store env) rs \<Longrightarrow> pair_ok env (n\<lparr>hn_rows := rs\<rparr>)"
  by (simp add: pair_ok_def handshakes_ok_def)

lemma pair_ok_on_rows: "pair_ok env n \<Longrightarrow> table_ok (pv_store env) (f (hn_rows n)) \<Longrightarrow> pair_ok env (on_rows f n)"
  by (simp add: on_rows_def pair_ok_rows_update)

lemma pair_ok_note [simp]: "pair_ok env' (note_progress env rid msg n) \<longleftrightarrow> pair_ok env' n"
  by (simp add: note_progress_def)

lemma pair_ok_draw: "pair_ok env n \<Longrightarrow> pair_ok env (snd (draw env' n))"
  by (simp add: draw_def)

lemma pair_ok_forget: "pair_ok env n \<Longrightarrow> pair_ok env (forget_pairing rid n)"
  by (erule pair_ok_same) (auto simp: forget_pairing_def)

lemma pair_ok_drop: "pair_ok env n \<Longrightarrow> pair_ok env (drop_handshake k n)"
  by (erule pair_ok_same) (auto simp: drop_handshake_def al_drop_def)

lemma pair_ok_sweep: "pair_ok env n \<Longrightarrow> pair_ok env (sweep_handshakes now n)"
  by (erule pair_ok_same) (auto simp: sweep_handshakes_def)

lemma pair_ok_hub [simp]: "pair_ok env (on_hub f n) \<longleftrightarrow> pair_ok env n"
  by (simp add: on_hub_def)

lemma pair_ok_load [simp]: "pair_ok env' (load_peer_runtime env p n) \<longleftrightarrow> pair_ok env' n"
  by (simp add: load_peer_runtime_def split: option.split)

lemma pair_ok_load_row [simp]: "pair_ok env' (load_row env rid n) \<longleftrightarrow> pair_ok env' n"
  by (simp add: load_row_def split: option.split)

lemma pair_ok_pick_up [simp]: "pair_ok env' (pick_up env rid n) \<longleftrightarrow> pair_ok env' n"
  by (simp add: pick_up_def split: option.split)

lemma pair_ok_activated [simp]: "pair_ok env' (on_peer_activated env rid n) \<longleftrightarrow> pair_ok env' n"
  by (simp add: on_peer_activated_def split: option.split)

lemma remove_other_rows:
  "hn_rows (remove_other_entries_for node keep n) = filter (\<lambda>p. \<not> (pe_node_id p = Some node \<and> pe_id p \<noteq> keep)) (hn_rows n)"
  if "distinct (map pe_id (hn_rows n))"
proof -
  have "pe_id p \<in> pe_id ` {q \<in> set (hn_rows n). pe_node_id q = Some node \<and> pe_id q \<noteq> keep} \<longleftrightarrow>
      pe_node_id p = Some node \<and> pe_id p \<noteq> keep" if "p \<in> set (hn_rows n)" for p
    using that \<open>distinct (map pe_id (hn_rows n))\<close> by (auto simp: distinct_map dest: inj_onD)
  then show ?thesis
    by (auto simp: remove_other_entries_for_def Let_def fold_delete_peer intro!: filter_cong)
qed

lemma remove_other_sel [simp]:
  "hn_handshakes (remove_other_entries_for node keep n) = hn_handshakes n"
  "hn_proved (remove_other_entries_for node keep n) = hn_proved n"
  "hn_draws (remove_other_entries_for node keep n) = hn_draws n"
  "hn_progress (remove_other_entries_for node keep n) = hn_progress n"
  "tn_world (hn_node (remove_other_entries_for node keep n)) = tn_world (hn_node n)"
  by (simp_all add: remove_other_entries_for_def Let_def)

lemma pair_ok_remove_other: "pair_ok env n \<Longrightarrow> pair_ok env (remove_other_entries_for node keep n)"
proof -
  assume n: "pair_ok env n"
  then have "distinct (map pe_id (hn_rows n))" by (simp add: pair_ok_def table_ok_def)
  then show ?thesis using n by (intro pair_ok_less [OF n]) (simp_all add: remove_other_rows table_ok_filter pair_ok_rows)
qed

lemma complete_pairing_ok:
  assumes "pair_ok env n" "complete_pairing env rid a n = (r, n')"
  shows "pair_ok env n'"
proof -
  let ?n1 = "remove_other_entries_for (av_node_id a) rid n"
  have n1: "pair_ok env ?n1" by (rule pair_ok_remove_other [OF assms(1)])
  have only: "pe_id p = rid" if "p \<in> set (hn_rows ?n1)" "pe_node_id p = Some (av_node_id a)" for p
    using that assms(1) by (auto simp: remove_other_rows pair_ok_def table_ok_def)
  have "table_ok (pv_store env) rs'"
    if "activate_peer (pv_store env) now nonce rid (a\<lparr>av_feed_from := s\<rparr>) (hn_rows ?n1) = Inr rs'" for now nonce s rs'
    by (rule table_ok_activate [OF pair_ok_rows [OF n1] _ that]) (simp add: only)
  then show ?thesis
    using n1 assms(2) by (auto simp: complete_pairing_def draw_def Let_def pair_ok_rows_update split: sum.splits)
qed

lemma new_entry_ok:
  assumes "pair_ok env n" "new_entry env i n = (r, n')"
  shows "pair_ok env n'"
  using assms by (auto simp: new_entry_def draw_def Let_def pair_ok_rows_update split: sum.splits
      dest!: table_ok_create [OF pair_ok_rows [OF assms(1)]])

lemma forget_entries_ok: "pair_ok env n \<Longrightarrow> pair_ok env (forget_entries ps n)"
proof (induction ps arbitrary: n)
  case (Cons p ps)
  have "pair_ok env (on_rows (delete_peer (pe_id p)) (forget_pairing (pe_id p) n))"
    using Cons.prems by (intro pair_ok_on_rows pair_ok_forget table_ok_delete)
      (simp_all add: forget_pairing_def pair_ok_rows)
  then show ?case using Cons.IH by (simp add: forget_entries_def)
qed (simp add: forget_entries_def)

section \<open>The host's answers\<close>

lemma find_match_Some:
  assumes "find_match env i mac ps = Inr (Some (p, secret))"
  shows "p \<in> set ps \<and> secret \<noteq> [] \<and> pairing_secret_of (pv_store env) p = Some secret \<and>
    pair_init_mac (pv_pr env) (derive_pairing_psk (pv_pr env) secret (pi_salt i)) i = Inr mac"
  using assms
  by (induction ps) (auto simp: and_then_Inr safe_equal_def split: option.splits if_splits)

lemma accept_init_ok:
  assumes "pair_ok env n"
    "find_match env i mac ps = Inr (Some (p, secret))"
    "\<forall>p \<in> set ps. is_candidate env since (pi_from i) client p"
    "pi_from i \<noteq> pv_self env"
    "map_option cb_client (pi_tls i) = map_option ca_pin client"
    "accept_init env client i mac p secret address since n = (r, n')"
  shows "pair_ok env n'"
proof (cases "\<exists>c. r = PairRefused c")
  case True
  then show ?thesis using assms(1,6) by (auto simp: accept_init_def draw_def Let_def split: sum.splits)
next
  case False
  define d where "d = pv_draw env (hn_draws n)"
  define a where "a = accept_of env d"
  from False assms(6) obtain shared keys where keys:
    "pair_keys (pv_pr env) (derive_pairing_psk (pv_pr env) secret (pi_salt i)) shared i a = Inr keys"
    and hs: "hn_handshakes n' = al_put (pi_from i) \<lparr>rh_row = pe_id p, rh_initiator = pi_from i, rh_name = pi_name i,
        rh_address = address, rh_link_key = link_key keys, rh_confirm = confirm_initiator keys,
        rh_expires_at = time_of env (n\<lparr>hn_draws := Suc (hn_draws n)\<rparr>) + handshake_ttl, rh_tls = joiner_tls env client (pi_addr i)\<rparr> (hn_handshakes n)"
    and pr: "hn_proved n' = \<lparr>pp_entry = p, pp_at = since, pp_secret = secret, pp_init = i, pp_mac = mac, pp_accept = a, pp_shared = shared\<rparr> # hn_proved n"
    and rw: "hn_rows n' = hn_rows n"
    by (auto simp: accept_init_def draw_def Let_def and_then_Inr note_progress_def time_of_def a_def d_def split: sum.splits)
  have candidate: "is_candidate env since (pi_from i) client p"
    using find_match_Some [OF assms(2)] assms(3) by blast
  have tls: "map_option lt_pin (joiner_tls env client (pi_addr i)) = map_option ca_pin client"
    by (auto simp: joiner_tls_def announced_ways_def split: option.splits prod.splits)
  let ?h = "\<lparr>rh_row = pe_id p, rh_initiator = pi_from i, rh_name = pi_name i,
        rh_address = address, rh_link_key = link_key keys, rh_confirm = confirm_initiator keys,
        rh_expires_at = time_of env (n\<lparr>hn_draws := Suc (hn_draws n)\<rparr>) + handshake_ttl, rh_tls = joiner_tls env client (pi_addr i)\<rparr>"
  have "rests_on env \<lparr>pp_entry = p, pp_at = since, pp_secret = secret, pp_init = i, pp_mac = mac, pp_accept = a, pp_shared = shared\<rparr> (pi_from i) ?h"
    using find_match_Some [OF assms(2)] assms(4,5) keys tls candidate
    by (auto simp: rests_on_def proof_checks_def proof_keys_def proof_psk_def intro!: exI [of _ client])
  then have "handshakes_ok env n'"
    using assms(1) set_al_put [of "pi_from i" ?h "hn_handshakes n"] unfolding handshakes_ok_def pair_ok_def hs pr by fastforce
  then show ?thesis using assms(1) by (simp add: pair_ok_def rw)
qed

lemma bound_init_sel [simp]: "pi_from (bound_init env client i) = pi_from i" "pi_salt (bound_init env client i) = pi_salt i"
  by (simp_all add: bound_init_def)

lemma bound_init_pin:
  assumes "init_version_ok env ctx v"
  shows "map_option cb_client (pi_tls (bound_init env (channel_client ctx) i)) = map_option ca_pin (channel_client ctx)"
  using assms by (auto simp: bound_init_def init_version_ok_def channel_client_def split: option.splits if_splits)

text \<open>
  What a request that is being compared carries: entries that were open windows for it when it was read, and the
  certificate it came with. It stays so whatever the node does before the request is answered.
\<close>

definition reading_ok :: "('j, 'w) pair_env \<Rightarrow> pair_reading \<Rightarrow> bool" where
  "reading_ok env rd \<longleftrightarrow>
     (\<forall>p \<in> set (rd_candidates rd). is_candidate env (rd_at rd) (pi_from (rd_init rd)) (rd_client rd) p) \<and>
     map_option cb_client (pi_tls (rd_init rd)) = map_option ca_pin (rd_client rd)"

lemma candidates_open: "p \<in> set (candidates env now asking client rs) \<Longrightarrow> is_candidate env now asking client p \<and> p \<in> set rs"
  unfolding candidates_def by (drule in_set_takeD) simp

lemma init_read_ok: "init_read env ctx body n = Inr rd \<Longrightarrow> reading_ok env rd"
  by (auto simp: init_read_def reading_ok_def Let_def bound_init_pin dest: candidates_open split: option.splits if_splits)

lemma init_answer_ok:
  assumes "pair_ok env n" "reading_ok env rd" "init_answer env rd n = (r, n')"
  shows "pair_ok env n'"
proof -
  have failures: "pair_ok env (on_rows (note_failures (pv_store env) cs) n)" for cs
    using assms(1) by (intro pair_ok_on_rows table_ok_failures pair_ok_rows)
  have accepted: "pair_ok env n'"
    if "accept_init env (rd_client rd) (rd_init rd) (rd_mac rd) p secret address (rd_at rd) n = (r, n')"
      "find_match env (rd_init rd) (rd_mac rd) (rd_candidates rd) = Inr (Some (p, secret))" "pi_from (rd_init rd) \<noteq> pv_self env"
    for p secret address
    using assms(2) by (intro accept_init_ok [OF assms(1) that(2) _ that(3) _ that(1)]) (simp_all add: reading_ok_def)
  have matched: "pair_ok env n'" if "handle_matched env rd p secret n = (r, n')"
    "find_match env (rd_init rd) (rd_mac rd) (rd_candidates rd) = Inr (Some (p, secret))" for p secret
    using that assms(1) accepted by (auto simp: handle_matched_def Let_def split: if_splits sum.splits)
  show ?thesis
    using assms(1,3) failures matched by (auto simp: init_answer_def split: option.splits sum.splits)
qed

lemma handle_pair_confirm_ok:
  assumes "pair_ok env n" "handle_pair_confirm env ctx body n = (r, n')"
  shows "pair_ok env n'"
proof -
  have failure: "pair_ok env (on_rows (note_pairing_failure (pv_store env) rid) (drop_handshake k n))" for rid k
    using assms(1) by (intro pair_ok_on_rows pair_ok_drop table_ok_failure) (simp_all add: drop_handshake_def pair_ok_rows)
  have confirmed: "pair_ok env n'" if "confirm_handshake env k h n = (r, n')" for k h
    using that by (auto simp: confirm_handshake_def split: prod.splits sum.splits
        intro: complete_pairing_ok [OF assms(1)] pair_ok_drop [OF complete_pairing_ok [OF assms(1)]])
  show ?thesis
    using assms failure confirmed
    by (auto simp: handle_pair_confirm_def pair_ok_drop split: option.splits if_splits)
qed

section \<open>Every operation keeps the invariant\<close>

definition stays :: "('j, 'w) pair_env \<Rightarrow> 'w pair_node \<Rightarrow> 'w pair_node \<Rightarrow> bool" where
  "stays env n n' \<longleftrightarrow> (pair_ok env n \<longrightarrow> pair_ok env n')"

lemma staysI: "(\<And>n r n'. pair_ok env n \<Longrightarrow> m n = (r, n') \<Longrightarrow> pair_ok env n') \<Longrightarrow> keeps (stays env) m"
  by (rule keepsI) (auto simp: stays_def)

lemma staysD: "keeps (stays env) m \<Longrightarrow> pair_ok env n \<Longrightarrow> m n = (r, n') \<Longrightarrow> pair_ok env n'"
  by (drule (1) keepsD [rotated]) (auto simp: stays_def dest: keepsD)

locale pairing_world =
  fixes env :: "('j, 'w) pair_env"
  assumes init_call: "keeps (stays env) (pv_post_init env target base m)"
    and confirm_call: "keeps (stays env) (pv_post_confirm env target base c)"
    and bye_call: "pair_ok env n \<Longrightarrow> pair_ok env (pv_bye env q n)"

sublocale pairing_world \<subseteq> held: kept "stays env"
  by unfold_locales (auto simp: stays_def)

context pairing_world
begin

lemma keeps_note: "keeps (stays env) (note_only env rid msg)"
  unfolding note_only_def by (rule held.keeps_write) (simp add: stays_def)

lemma keeps_wait: "keeps (stays env) (wait_and_note env rid msg)"
  unfolding wait_and_note_def by (rule held.keeps_write) (simp add: stays_def)

lemma keeps_failed: "keeps (stays env) (fail_and_note env rid msg)"
  unfolding fail_and_note_def
  by (rule held.keeps_write) (auto simp: stays_def intro: pair_ok_on_rows table_ok_failure pair_ok_rows)

lemma keeps_draw: "keeps (stays env) (\<lambda>n. case draw env n of (d, n1) \<Rightarrow> (Inr (f d), n1))"
  by (rule staysI) (auto simp: draw_def)

lemma keeps_update_state: "keeps (stays env) (update_entry rid (\<lambda>p. p\<lparr>pe_state := v\<rparr>))"
proof -
  have "table_ok (pv_store env) (on_row rid (\<lambda>p. p\<lparr>pe_state := v\<rparr>) rs)" if "table_ok (pv_store env) rs" for rs
    by (rule table_ok_on_row [OF that]) (auto simp: entry_ok_def)
  then show ?thesis unfolding update_entry_def
    by (intro held.keeps_bind held.keeps_read held.keeps_check held.keeps_write)
      (auto simp: stays_def intro: pair_ok_on_rows pair_ok_rows)
qed

lemma keeps_complete: "keeps (stays env) (complete_pairing env rid a)"
  by (rule staysI) (rule complete_pairing_ok)

lemma keeps_finish: "keeps (stays env) (finish env rid h)"
  unfolding finish_def
  by (intro held.keeps_bind keeps_complete held.keeps_write) (simp add: stays_def)

lemma keeps_on_node: "keeps (stays env) (on_node f)"
  by (rule staysI) (auto simp: on_node_def split: prod.splits)

lemma keeps_or_else: "keeps (stays env) f \<Longrightarrow> keeps (stays env) g \<Longrightarrow> keeps (stays env) (or_else f g)"
  by (rule staysI) (auto simp: or_else_def split: prod.splits sum.splits dest: staysD)

lemma keeps_try_session: "keeps (stays env) (try_session env base h)"
  unfolding try_session_def by (intro held.keeps_bind keeps_on_node held.keeps_ok)

lemma keeps_start_over: "keeps (stays env) (start_over env rid)"
  unfolding start_over_def
  by (intro held.keeps_bind keeps_update_state held.keeps_write) (simp add: stays_def)

lemma keeps_confirm_step: "keeps (stays env) (confirm_step env rid base h)"
proof -
  have noted: "keeps (stays env) (op_write (note_progress env rid msg) :: ('w, unit) pair_op)" for msg
    using keeps_note [of rid msg] by (simp add: note_only_def)
  show ?thesis unfolding confirm_step_def
    by (intro held.keeps_bind confirm_call)
      (simp add: keeps_finish noted keeps_or_else held.keeps_bind keeps_try_session keeps_start_over)
qed

lemma keeps_keep_and_confirm: "keeps (stays env) (keep_and_confirm env rid base h)"
  unfolding keep_and_confirm_def by (intro held.keeps_bind keeps_draw keeps_update_state keeps_confirm_step)

lemma keeps_check_pair_accept: "keeps (stays env) (check_pair_accept env p target base d i psk a mac)"
proof -
  have "keeps (stays env) (case target of None \<Rightarrow> f | Some t \<Rightarrow> (case kept_certificate env t of None \<Rightarrow> g
      | Some cert \<Rightarrow> if cert = [] then g else k t cert))"
    if "keeps (stays env) f" "keeps (stays env) g" "\<And>t cert. keeps (stays env) (k t cert)"
    for f g and k :: "_ \<Rightarrow> _ \<Rightarrow> ('w, unit) pair_op"
    using that by (simp split: option.split)
  then show ?thesis unfolding check_pair_accept_def
    by (simp add: keeps_note keeps_failed keeps_keep_and_confirm held.keeps_bind)
qed

lemma keeps_refused_init: "keeps (stays env) (refused_init env rid own status)"
  by (simp add: refused_init_def keeps_note keeps_failed keeps_wait)

lemma keeps_send_init: "keeps (stays env) (send_init env p target channel base own secret)"
  unfolding send_init_def Let_def
  by (intro held.keeps_bind keeps_draw held.keeps_lift init_call)
    (simp add: keeps_refused_init keeps_note keeps_check_pair_accept split: prod.split option.split)

lemma keeps_begin_or_confirm: "keeps (stays env) (begin_or_confirm env p target channel base own)"
  by (simp add: begin_or_confirm_def keeps_note keeps_confirm_step keeps_send_init split: option.split)

lemma keeps_initiate: "keeps (stays env) (initiate env p)"
  by (rule staysI)
    (auto simp: initiate_def Let_def split: if_splits sum.splits option.splits
      dest: staysD [OF keeps_note] staysD [OF keeps_begin_or_confirm])

lemma keeps_try_initiate: "keeps (stays env) (try_initiate env p)"
  by (rule staysI)
    (auto simp: try_initiate_def not_reachable_def split: prod.splits sum.splits
      dest: staysD [OF keeps_initiate] staysD [OF keeps_note])

lemma keeps_advance: "keeps (stays env) (advance_entry env now p)"
proof (rule staysI)
  fix n r n' assume n: "pair_ok env n" "advance_entry env now p n = (r, n')"
  have "pair_ok env n1" if "try_initiate env p (n\<lparr>hn_in_flight := x\<rparr>) = (q, n1)" for x q n1
    using staysD [OF keeps_try_initiate _ that] n(1) by simp
  then show "pair_ok env n'" using n by (auto simp: advance_entry_def split: if_splits prod.splits)
qed

lemma tick_ok: "pair_ok env n \<Longrightarrow> pair_ok env (pairing_tick env n)"
proof -
  assume "pair_ok env n"
  then have "pair_ok env (sweep_handshakes (time_of env n) n)" by (rule pair_ok_sweep)
  moreover have "keeps (stays env) (op_each ps (advance_entry env now))" for ps now
    by (intro held.keeps_each keeps_advance)
  ultimately show ?thesis unfolding pairing_tick_def Let_def keeps_def stays_def by blast
qed

text \<open>The operations of the administrator and of introductions.\<close>

lemma keeps_new_entry: "keeps (stays env) (new_entry env i)"
  by (rule staysI) (rule new_entry_ok)

lemma keeps_forget_entries: "keeps (stays env) (op_write (forget_entries ps))"
  by (rule held.keeps_write) (simp add: stays_def forget_entries_ok)

lemma keeps_address: "keeps (stays env) (remember_own_address env given)"
  by (rule staysI) (auto simp: remember_own_address_def split: sum.splits if_splits)

lemma keeps_capture: "keeps (stays env) (ensure_capture env)"
  by (rule staysI) (auto simp: ensure_capture_def split: prod.splits)

lemma keeps_running: "keeps (stays env) (require_running env)"
  by (simp add: require_running_def)

lemma keeps_create_invite: "keeps (stays env) (create_invite env given by)"
  unfolding create_invite_def
  by (intro held.keeps_bind keeps_running keeps_address keeps_capture keeps_draw keeps_new_entry held.keeps_read held.keeps_ok)

lemma keeps_join_cluster: "keeps (stays env) (join_cluster env code given by)"
  unfolding join_cluster_def join_with_invite_def
  by (intro held.keeps_bind keeps_running keeps_address keeps_capture keeps_new_entry keeps_forget_entries held.keeps_read
      held.keeps_check held.keeps_lift held.keeps_ok)

lemma keeps_bootstrap: "keeps (stays env) (join_from_bootstrap env b)"
proof -
  have "keeps (stays env) (if P then op_ok () else op_bind (op_write (forget_entries ps)) (\<lambda>_.
      op_bind (new_entry env (bootstrap_input b)) (\<lambda>_. op_ok ())))" for P ps
    by (cases P) (simp_all, intro held.keeps_bind keeps_forget_entries keeps_new_entry held.keeps_ok)
  then show ?thesis unfolding join_from_bootstrap_def
    by (intro held.keeps_bind keeps_capture held.keeps_read held.keeps_check)
qed

lemma switched_ok:
  assumes "pair_ok env n" "get_peer rid (hn_rows n) = Some q" "pe_status q = ACTIVE \<or> pe_status q = DISABLED"
    "set_peer_status rid s f (hn_rows n) = Inr rs" "s = ACTIVE \<or> s = DISABLED"
  shows "pair_ok env (n\<lparr>hn_rows := rs\<rparr>)"
  using assms by (intro pair_ok_rows_update table_ok_switched [OF pair_ok_rows [OF assms(1)] assms(4,5,2,3)])

lemma switch_on_ok:
  assumes "pair_ok env n" "get_peer (pe_id p) (hn_rows n) = Some q" "pe_status q = DISABLED" "switch_on env p n = (r, n')"
  shows "pair_ok env n'"
  using assms(1,3,4) switched_ok [OF assms(1,2)] by (auto simp: switch_on_def split: if_splits sum.splits)

lemma switch_off_ok:
  assumes "pair_ok env n" "get_peer (pe_id p) (hn_rows n) = Some q" "pe_status q = ACTIVE" "switch_off p n = (r, n')"
  shows "pair_ok env n'"
  using assms(1,3,4) switched_ok [OF assms(1,2)] by (auto simp: switch_off_def split: sum.splits)

lemma changed_entry_sel [simp]: "pe_id (changed_entry a b p) = pe_id p" "pe_node_id (changed_entry a b p) = pe_node_id p"
  "pe_status (changed_entry a b p) = pe_status p" "entry_ok st (changed_entry a b p) = entry_ok st p"
  by (simp_all add: changed_entry_def entry_ok_def)

lemma keeps_update_peer: "keeps (stays env) (update_peer env rid c)"
proof (rule staysI)
  fix n r n' assume n: "pair_ok env n" "update_peer env rid c n = (r, n')"
  show "pair_ok env n'"
  proof (cases "get_peer rid (hn_rows n)")
    case None
    with n show ?thesis by (simp add: update_peer_def op_bind_def op_read_def op_check_def op_fail_def)
  next
    case (Some p)
    define m where "m = (\<lambda>a. on_rows (on_row rid (changed_entry a (ch_name c))) n)"
    have m: "pair_ok env (m a)" "get_peer rid (hn_rows (m a)) = Some (changed_entry a (ch_name c) p)" for a
    proof -
      have "table_ok (pv_store env) (on_row rid (changed_entry a (ch_name c)) (hn_rows n))"
        using n(1) by (intro table_ok_on_row pair_ok_rows) simp_all
      then show "pair_ok env (m a)" unfolding m_def using n(1) by (intro pair_ok_on_rows)
      show "get_peer rid (hn_rows (m a)) = Some (changed_entry a (ch_name c) p)"
        using Some by (simp add: m_def on_rows_def get_peer_on_row)
    qed
    have rid: "pe_id p = rid" using get_peer_mem [OF Some] by simp
    define adr where "adr = map_error (\<lambda>e. (e, 400 :: nat)) (case ch_address c of
        None \<Rightarrow> Inr None | Some a \<Rightarrow> and_then (normalize_peer_address (pv_url env) a) (\<lambda>url. Inr (Some url)))"
    show ?thesis
    proof (cases adr)
      case (Inl e)
      with n Some show ?thesis
        by (simp add: update_peer_def op_bind_def op_defs adr_def [symmetric])
    next
      case (Inr a)
      let ?last = "if ch_enabled c = Some False \<and> pe_status p = ACTIVE then switch_off p
        else if ch_enabled c = Some True \<and> pe_status p = DISABLED then switch_on env p else op_write (pick_up env rid)"
      from n Some Inr have last: "?last (m a) = (r, n')"
        by (simp add: update_peer_def op_bind_def op_read_def op_check_def op_ok_def op_lift_def op_write_def [of "on_rows _"]
            adr_def [symmetric] m_def cong del: if_weak_cong)
      have got: "get_peer (pe_id p) (hn_rows (m a)) = Some (changed_entry a (ch_name c) p)" using m(2) rid by simp
      consider (off) "pe_status p = ACTIVE" "switch_off p (m a) = (r, n')"
        | (on) "pe_status p = DISABLED" "switch_on env p (m a) = (r, n')" | (same) "n' = pick_up env rid (m a)"
        using last by (auto split: if_splits)
      then show ?thesis
        by cases (auto intro: switch_off_ok [OF m(1) got] switch_on_ok [OF m(1) got] simp: m(1))
    qed
  qed
qed

lemma keeps_remove_peer: "keeps (stays env) (remove_peer env rid)"
proof (rule staysI)
  fix n r n' assume n: "pair_ok env n" "remove_peer env rid n = (r, n')"
  let ?n1 = "forget_pairing rid (on_hub (unload_peer rid) n)"
  have n1: "pair_ok env ?n1" "pair_ok env (pv_bye env q ?n1)" for q
    using n(1) by (simp_all add: pair_ok_forget bye_call)
  have "pair_ok env (m\<lparr>hn_rows := rs\<rparr>)" if "pair_ok env m" "set_peer_status rid REMOVED None (hn_rows m) = Inr rs" for m rs
    using that by (intro pair_ok_rows_update) (auto intro: table_ok_ended [OF pair_ok_rows])
  then show "pair_ok env n'"
    using n n1 by (auto simp: remove_peer_def Let_def split: option.splits if_splits sum.splits
        intro: pair_ok_on_rows table_ok_delete pair_ok_rows)
qed

lemma keeps_bye: "keeps (stays env) (handle_bye rid)"
  by (rule staysI) (auto simp: handle_bye_def split: sum.splits intro!: pair_ok_rows_update intro: table_ok_ended [OF pair_ok_rows])

lemma expire_ok: "pair_ok env n \<Longrightarrow> pair_ok env (snd (expire_windows env n))"
  using table_ok_expire [OF pair_ok_rows, of env n "time_of env n"]
  by (auto simp: expire_windows_def pair_ok_rows_update split: prod.splits)

lemma keeps_as_call: "keeps (stays env) f \<Longrightarrow> keeps (stays env) (as_call_failure f)"
  by (rule staysI) (auto simp: as_call_failure_def split: prod.splits dest: staysD)

lemma keeps_open_introduction: "keeps (stays env) (open_introduction env k i existing)"
proof -
  have deleted: "keeps (stays env) (op_write (on_rows (\<lambda>rs. fold (\<lambda>p. delete_peer (pe_id p)) existing rs)))"
  proof (rule held.keeps_write)
    have "table_ok (pv_store env) (fold (\<lambda>p. delete_peer (pe_id p)) existing rs)" if "table_ok (pv_store env) rs" for rs
      using that by (induction existing arbitrary: rs) (simp_all add: table_ok_delete)
    then show "stays env n (on_rows (\<lambda>rs. fold (\<lambda>p. delete_peer (pe_id p)) existing rs) n)" for n :: "'w pair_node"
      by (auto simp: stays_def intro: pair_ok_on_rows pair_ok_rows)
  qed
  have "keeps (stays env) (introduce_joiner env k i tls)" "keeps (stays env) (introduce_host env k i tls)" for tls
    unfolding introduce_joiner_def introduce_host_def
    by (intro held.keeps_bind held.keeps_lift keeps_as_call keeps_new_entry keeps_draw keeps_update_state held.keeps_ok)+
  then show ?thesis unfolding open_introduction_def
    by (intro held.keeps_bind deleted held.keeps_read held.keeps_lift) simp
qed

lemma keeps_introduce: "keeps (stays env) (handle_introduce env k params)"
  by (rule staysI)
    (auto simp: handle_introduce_def Let_def split: if_splits option.splits prod.splits sum.splits
      dest: staysD [OF keeps_open_introduction])

end

end
