(* ===== verification/Pair_Link.thy ===== *)
theory Pair_Link
  imports Pair_Facts Transport_Link
begin

text \<open>
  Two nodes that pair: the joining node's network is the host, which answers over the mutually authenticated channel
  when the joining node has a pinned target and plainly otherwise. The contract \<open>pairing_world\<close> holds of it, and both
  sides of an exchange come to the same link key.
\<close>

section \<open>The joined nodes\<close>

fun pair_answer :: "pair_response \<Rightarrow> nat \<times> pair_accept_message option" where
  "pair_answer (PairRefused status) = (status, None)"
| "pair_answer (PairAccepted m) = (200, Some m)"
| "pair_answer PairConfirmed = (200, None)"
| "pair_answer (PairCrashed e) = (500, None)"

text \<open>How the request arrives at the host: with the joining node's certificate, or without any.\<close>

definition own_cert :: "('j, 'w) pair_env \<Rightarrow> caller_cert option" where
  "own_cert env = map_option (\<lambda>pin. \<lparr>ca_pin = pin, ca_pem = pv_own_cert env\<rparr>) (te_own_pin (pv_transport env))"

definition joiner_ctx :: "('j, 'w) pair_env \<Rightarrow> pinned_target option \<Rightarrow> pair_context" where
  "joiner_ctx env target =
     (case target of
        None \<Rightarrow> \<lparr>pc_entry = EpPublic, pc_client = None\<rparr>
      | Some t \<Rightarrow> \<lparr>pc_entry = EpMtls, pc_client = own_cert env\<rparr>)"

definition host_of_node :: "'v pair_node pair_node \<Rightarrow> 'v pair_node" where
  "host_of_node n = tn_world (hn_node n)"

definition set_host :: "'v pair_node \<Rightarrow> 'v pair_node pair_node \<Rightarrow> 'v pair_node pair_node" where
  "set_host h n = n\<lparr>hn_node := (hn_node n)\<lparr>tn_world := h\<rparr>\<rparr>"

text \<open>The pinned connection ends when the host shows another certificate.\<close>

definition wrong_host :: "('j, 'v) pair_env \<Rightarrow> pinned_target option \<Rightarrow> bool" where
  "wrong_host henv target \<longleftrightarrow> (case target of None \<Rightarrow> False | Some t \<Rightarrow> te_own_pin (pv_transport henv) \<noteq> Some (tg_pin t))"

definition deliver_init ::
    "('j, 'v) pair_env \<Rightarrow> ('j, 'v pair_node) pair_env \<Rightarrow> pinned_target option \<Rightarrow> string \<Rightarrow> pair_init_message \<Rightarrow>
     ('v pair_node, nat \<times> pair_accept_message option) pair_op" where
  "deliver_init henv env target base m n =
     (if wrong_host henv target then (Inl (TlsChannelError ''pin'' ''another certificate than the pinned one''), n)
      else case handle_pair_init henv (joiner_ctx env target) (Some m) (host_of_node n) of
          (response, h) \<Rightarrow> (Inr (pair_answer response), set_host h n))"

definition deliver_confirm ::
    "('j, 'v) pair_env \<Rightarrow> ('j, 'v pair_node) pair_env \<Rightarrow> pinned_target option \<Rightarrow> string \<Rightarrow> pair_confirm_message \<Rightarrow>
     ('v pair_node, nat) pair_op" where
  "deliver_confirm henv env target base m n =
     (if wrong_host henv target then (Inl (TlsChannelError ''pin'' ''another certificate than the pinned one''), n)
      else case handle_pair_confirm henv (joiner_ctx env target) (Some m) (host_of_node n) of
          (response, h) \<Rightarrow> (Inr (fst (pair_answer response)), set_host h n))"

text \<open>The call \<open>bye\<close> reaches the host as coming from the peer it knows under this node's id.\<close>

definition deliver_bye :: "('j, 'v pair_node) pair_env \<Rightarrow> link_peer \<Rightarrow> 'v pair_node pair_node \<Rightarrow> 'v pair_node pair_node" where
  "deliver_bye env q n =
     (case peer_by_node_id (pv_self env) (hn_node (host_of_node n)) of
        None \<Rightarrow> n
      | Some p \<Rightarrow> set_host (snd (handle_bye (lp_row_id p) (host_of_node n))) n)"

definition pair_joined :: "('j, 'v) pair_env \<Rightarrow> ('j, 'v pair_node) pair_env \<Rightarrow> ('j, 'v pair_node) pair_env" where
  "pair_joined henv env = env\<lparr>pv_post_init := deliver_init henv env, pv_post_confirm := deliver_confirm henv env, pv_bye := deliver_bye env\<rparr>"

lemma set_host_sel [simp]: "hn_rows (set_host h n) = hn_rows n" "hn_draws (set_host h n) = hn_draws n"
  "hn_handshakes (set_host h n) = hn_handshakes n" "hn_proved (set_host h n) = hn_proved n" "host_of_node (set_host h n) = h"
  "hn_progress (set_host h n) = hn_progress n" "tn_peers (hn_node (set_host h n)) = tn_peers (hn_node n)"
  by (simp_all add: set_host_def host_of_node_def)

lemma pair_ok_set_host [simp]: "pair_ok env (set_host h n) \<longleftrightarrow> pair_ok env n"
  by (simp add: set_host_def)

lemma pair_joined_sel [simp]: "pv_store (pair_joined henv env) = pv_store env" "pv_transport (pair_joined henv env) = pv_transport env"
  "pv_post_init (pair_joined henv env) = deliver_init henv env" "pv_post_confirm (pair_joined henv env) = deliver_confirm henv env"
  "pv_bye (pair_joined henv env) = deliver_bye env" "pv_name (pair_joined henv env) = pv_name env" "pv_draw (pair_joined henv env) = pv_draw env"
  "pv_write_state (pair_joined henv env) = pv_write_state env" "pv_stable (pair_joined henv env) = pv_stable env"
  by (simp_all add: pair_joined_def)

interpretation linked: pairing_world "pair_joined henv env" for henv env
proof unfold_locales
  show "keeps (stays (pair_joined henv env)) (pv_post_init (pair_joined henv env) target base m)" for target base m
    by (rule staysI) (auto simp: deliver_init_def split: if_splits prod.splits)
  show "keeps (stays (pair_joined henv env)) (pv_post_confirm (pair_joined henv env) target base c)" for target base c
    by (rule staysI) (auto simp: deliver_confirm_def split: if_splits prod.splits)
  show "pair_ok (pair_joined henv env) n \<Longrightarrow> pair_ok (pair_joined henv env) (pv_bye (pair_joined henv env) q n)" for n q
    by (simp add: deliver_bye_def split: option.split)
qed

section \<open>Messages are read as they were written\<close>

lemma pair_init_read:
  assumes "node_id_ok (pi_from i)" "length (pi_name i) \<le> 120" "pi_addr i \<noteq> []" "length (pi_addr i) \<le> 2600"
    "length (pi_salt i) = 16" "length (pi_e i) = 32" "length (pi_n i) = 16" "length mac = 32"
  shows "parse_pair_init (init_text i mac) =
    Some \<lparr>ir_v = (if pi_tls i = None then 2 else 3), ir_init = i\<lparr>pi_tls := None\<rparr>, ir_mac = mac\<rparr>"
  using assms
  by (simp add: parse_pair_init_def init_text_def fixed_bytes_encode pairing_salt_bytes_def x25519_public_bytes_def handshake_nonce_bytes_def)

lemma pair_accept_read:
  assumes "node_id_ok (pa_id a)" "length (pa_name a) \<le> 120" "length (pa_e a) = 32" "length (pa_n a) = 16" "length mac = 32"
  shows "parse_pair_accept (accept_text a mac) = Some (a, mac)"
  using assms
  by (simp add: parse_pair_accept_def accept_text_def fixed_bytes_encode x25519_public_bytes_def handshake_nonce_bytes_def)

lemma pair_confirm_read:
  "node_id_ok k \<Longrightarrow> length mac = 32 \<Longrightarrow> parse_pair_confirm \<lparr>cm_from = k, cm_mac = b64url_encode mac\<rparr> = Some (k, mac)"
  by (simp add: parse_pair_confirm_def fixed_bytes_encode)

definition short_pair :: "pair_init \<Rightarrow> bool" where
  "short_pair i \<longleftrightarrow> length (pi_from i) < 2 ^ 32 \<and> length (pi_name i) < 2 ^ 32 \<and> length (pi_addr i) < 2 ^ 32 \<and>
     length (pi_salt i) < 2 ^ 32 \<and> length (pi_e i) < 2 ^ 32 \<and> length (pi_n i) < 2 ^ 32 \<and>
     (case pi_tls i of None \<Rightarrow> True | Some b \<Rightarrow> length (cb_client b) < 2 ^ 32 \<and> length (cb_server b) < 2 ^ 32)"

lemma pair_transcript_total: "short_pair i \<Longrightarrow> \<exists>b. pair_init_transcript i = Inr b"
  unfolding pair_init_transcript_def
  by (rule encode_fields_total)
    (use handshake_version_short in \<open>auto simp: pair_init_fields_def short_pair_def binding_fields_def split: option.splits\<close>)

lemma pair_mac_total:
  "short_pair i \<Longrightarrow> hmac_length pr \<Longrightarrow> \<exists>mac. pair_init_mac pr psk i = Inr mac \<and> length mac = 32"
  using pair_transcript_total [of i] by (auto simp: pair_init_mac_def hmac_length_def hmac_def)

lemma pair_keys_total:
  assumes "short_pair i" "length (pa_id a) < 2 ^ 32" "length (pa_name a) < 2 ^ 32" "length (pa_e a) < 2 ^ 32" "length (pa_n a) < 2 ^ 32"
    "hmac_length pr"
  shows "\<exists>keys. pair_keys pr psk shared i a = Inr keys \<and> length (confirm_initiator keys) = 32 \<and> length (confirm_responder keys) = 32"
proof -
  obtain t1 where "pair_init_transcript i = Inr t1" using pair_transcript_total [OF assms(1)] by blast
  moreover obtain t2 where "encode_fields [utf8 ''pair-accept'', utf8 (pa_id a), utf8 (pa_name a), pa_e a, pa_n a] = Inr t2"
    using encode_fields_total [of "[utf8 ''pair-accept'', utf8 (pa_id a), utf8 (pa_name a), pa_e a, pa_n a]"] assms(2-5) by auto
  ultimately show ?thesis using assms(6) by (simp add: pair_keys_def Let_def hmac_length_def hmac_def)
qed

lemma read_wrapped_wrap:
  assumes "gcm_laws (se_pr env)" "length nonce = 12"
  shows "read_wrapped env (Some (wrap env nonce b ctx)) ctx = Some b"
proof -
  have "wrap env nonce b ctx \<noteq> []"
  proof
    assume "wrap env nonce b ctx = []"
    then have "b64_decode (wrap env nonce b ctx) = []" by (simp add: b64_decode_def List.map_filter_simps)
    then show False using assms(2) by (auto simp: wrap_def wrap_secret_def split: prod.splits)
  qed
  then show ?thesis
    using unwrap_wrap_lemma [OF assms] by (simp add: read_wrapped_def unwrap_def wrap_def)
qed

text \<open>What two draws of key pairs, nonces and salts are, and that both sides agree on the secret.\<close>

definition pair_exchange_ok :: "primitives \<Rightarrow> pair_drawn \<Rightarrow> pair_drawn \<Rightarrow> bool" where
  "pair_exchange_ok pr c s \<longleftrightarrow> length (pd_public c) = 32 \<and> length (pd_public s) = 32 \<and> length (pd_nonce c) = 16 \<and>
     length (pd_nonce s) = 16 \<and> length (pd_salt c) = 16 \<and>
     x25519 pr (pd_private s) (pd_public c) = x25519 pr (pd_private c) (pd_public s) \<and>
     \<not> list_all (\<lambda>b. b = 0) (x25519 pr (pd_private c) (pd_public s))"

section \<open>The host's side\<close>

lemma find_match_only:
  assumes "p \<in> set ps" "pairing_secret_of (pv_store env) p = Some secret" "secret \<noteq> []" "short_pair i" "hmac_length (pv_pr env)"
    and mac: "pair_init_mac (pv_pr env) (derive_pairing_psk (pv_pr env) secret (pi_salt i)) i = Inr mac"
    and only: "\<And>r s. r \<in> set ps \<Longrightarrow> r \<noteq> p \<Longrightarrow> pairing_secret_of (pv_store env) r = Some s \<Longrightarrow>
      pair_init_mac (pv_pr env) (derive_pairing_psk (pv_pr env) s (pi_salt i)) i \<noteq> Inr mac"
  shows "find_match env i mac ps = Inr (Some (p, secret))"
  using assms(1) only
proof (induction ps)
  case (Cons r ps)
  show ?case
  proof (cases "r = p")
    case True
    then show ?thesis using assms(2,3) mac by (simp add: safe_equal_def)
  next
    case False
    then have ps: "find_match env i mac ps = Inr (Some (p, secret))" using Cons by auto
    show ?thesis
    proof (cases "pairing_secret_of (pv_store env) r")
      case (Some s)
      obtain other where "pair_init_mac (pv_pr env) (derive_pairing_psk (pv_pr env) s (pi_salt i)) i = Inr other"
        using pair_mac_total [OF assms(4,5)] by blast
      moreover have "other \<noteq> mac" using calculation Cons.prems(2) [of r s] False Some by auto
      ultimately show ?thesis using ps Some by (simp add: safe_equal_def)
    qed (simp add: ps)
  qed
qed simp

text \<open>The host's state once it has accepted the proof.\<close>

definition after_accept ::
    "('j, 'w) pair_env \<Rightarrow> caller_cert option \<Rightarrow> pair_init \<Rightarrow> buffer \<Rightarrow> peer_entry \<Rightarrow> string \<Rightarrow> string \<Rightarrow> buffer \<Rightarrow>
     pair_keys_result \<Rightarrow> 'w pair_node \<Rightarrow> 'w pair_node" where
  "after_accept env client i mac p secret address shared keys h =
     (let n1 = h\<lparr>hn_draws := Suc (hn_draws h)\<rparr>
      in note_progress env (pe_id p) ''Invite accepted, waiting for confirmation''
        (n1\<lparr>hn_handshakes := al_put (pi_from i)
              \<lparr>rh_row = pe_id p, rh_initiator = pi_from i, rh_name = pi_name i, rh_address = address,
               rh_link_key = link_key keys, rh_confirm = confirm_initiator keys,
               rh_expires_at = time_of env n1 + handshake_ttl, rh_tls = joiner_tls env client (pi_addr i)\<rparr> (hn_handshakes n1),
            hn_proved := \<lparr>pp_entry = p, pp_at = time_of env n1, pp_secret = secret, pp_init = i, pp_mac = mac,
               pp_accept = accept_of env (pv_draw env (hn_draws h)), pp_shared = shared\<rparr> # hn_proved n1\<rparr>))"

lemma host_accepts_lemma:
  assumes m: "parse_pair_init m = Some \<lparr>ir_v = v, ir_init = i0, ir_mac = mac\<rparr>"
    and v: "init_version_ok env ctx v" and i: "bound_init env (channel_client ctx) i0 = i"
    and p: "find_match env i mac (candidates env (time_of env h) (pi_from i) (channel_client ctx) (hn_rows h)) = Inr (Some (p, secret))"
    and other: "pi_from i \<noteq> pv_self env" and address: "joiner_address env (channel_client ctx) (pi_addr i) = Inr address"
    and e: "pv_draw env (hn_draws h) = e"
    and shared: "shared_secret (pv_pr env) (pd_private e) (pi_e i) = Inr shared"
    and keys: "pair_keys (pv_pr env) (derive_pairing_psk (pv_pr env) secret (pi_salt i)) shared i (accept_of env e) = Inr keys"
  shows "handle_pair_init env ctx (Some m) h =
    (PairAccepted (accept_text (accept_of env e) (confirm_responder keys)),
     after_accept env (channel_client ctx) i mac p secret address shared keys h)"
proof -
  have "candidates env (time_of env h) (pi_from i) (channel_client ctx) (hn_rows h) \<noteq> []" using p by auto
  moreover have "pi_from i0 = pi_from i" using i by auto
  ultimately show ?thesis
    using m v i p other address e shared keys
    by (simp add: handle_pair_init_def init_read_def init_answer_def handle_matched_def accept_init_def draw_def Let_def
        after_accept_def time_of_def)
qed

lemma after_accept_sel [simp]:
  "hn_rows (after_accept env client i mac p secret address shared keys h) = hn_rows h"
  "hn_node (after_accept env client i mac p secret address shared keys h) = hn_node h"
  "hn_draws (after_accept env client i mac p secret address shared keys h) = Suc (hn_draws h)"
  by (simp_all add: after_accept_def Let_def note_progress_def)

lemma time_after_accept: "time_of env (after_accept env client i mac p secret address shared keys h) = time_of env h"
  by (simp add: time_of_def)

lemma handshake_after_accept:
  "map_of (hn_handshakes (after_accept env client i mac p secret address shared keys h)) (pi_from i) =
    Some \<lparr>rh_row = pe_id p, rh_initiator = pi_from i, rh_name = pi_name i, rh_address = address,
      rh_link_key = link_key keys, rh_confirm = confirm_initiator keys,
      rh_expires_at = time_of env h + handshake_ttl, rh_tls = joiner_tls env client (pi_addr i)\<rparr>"
  by (simp add: after_accept_def Let_def note_progress_def time_of_def)

text \<open>Ending a pairing leaves the entry active, with the key of the exchange.\<close>

lemma get_peer_remove_other:
  assumes "table_ok (pv_store env) (hn_rows n)" "get_peer rid (hn_rows n) = Some p"
  shows "get_peer rid (hn_rows (remove_other_entries_for node rid n)) = Some p"
proof -
  have "distinct (map pe_id (hn_rows n))" using assms(1) by (simp add: table_ok_def)
  moreover have "p \<in> set (hn_rows n)" "pe_id p = rid" using get_peer_mem [OF assms(2)] by simp_all
  ultimately show ?thesis
    using assms(1) by (intro get_peer_unique [of "pv_store env"]) (simp_all add: remove_other_rows table_ok_filter)
qed

lemma complete_pairing_lemma:
  assumes ok: "table_ok (pv_store env) (hn_rows n)" and p: "get_peer rid (hn_rows n) = Some p"
  obtains n' a' where "complete_pairing env rid a n = (Inr (), n')"
    "get_peer rid (hn_rows n') = Some (activated (pv_store env) (time_of env n) (pd_wrap (pv_draw env (hn_draws n))) a' p)"
    "av_node_id a' = av_node_id a" "av_link_key a' = av_link_key a" "av_tls a' = av_tls a"
    "hn_handshakes n' = hn_handshakes n" "hn_proved n' = hn_proved n" "tn_world (hn_node n') = tn_world (hn_node n)"
    "hn_progress n' = hn_progress n"
proof -
  let ?n1 = "remove_other_entries_for (av_node_id a) rid n"
  let ?n2 = "?n1\<lparr>hn_draws := Suc (hn_draws ?n1)\<rparr>"
  let ?a = "a\<lparr>av_feed_from := pv_stable env (tn_world (hn_node ?n2))\<rparr>"
  have time: "time_of env ?n2 = time_of env n" by (simp add: time_of_def clock_of_def)
  have rs: "get_peer rid (hn_rows ?n1) = Some p" by (rule get_peer_remove_other [OF ok p])
  define rs where "rs = on_row rid (activated (pv_store env) (time_of env n) (pd_wrap (pv_draw env (hn_draws n))) ?a) (hn_rows ?n1)"
  have "complete_pairing env rid a n = (Inr (), ?n2\<lparr>hn_rows := rs\<rparr>)"
    using rs time by (simp add: complete_pairing_def draw_def Let_def activate_peer_def rs_def)
  moreover have "get_peer rid rs = Some (activated (pv_store env) (time_of env n) (pd_wrap (pv_draw env (hn_draws n))) ?a p)"
    using rs by (simp add: rs_def get_peer_on_row)
  ultimately show thesis using that by fastforce
qed

lemma activated_tls:
  "av_tls a = Some t \<Longrightarrow> pe_cert_pin (activated st now nonce a p) = Some (lt_pin t) \<and> pe_tls_locked (activated st now nonce a p)"
  by (simp add: activated_def Let_def set_tls_def)

lemma link_key_activated:
  assumes "gcm_laws (se_pr st)" "length nonce = 12"
  shows "link_key_of st (activated st now nonce a p) = Some (av_link_key a)"
  using read_wrapped_wrap [OF assms] by (simp add: link_key_of_def)

lemma on_peer_activated_sel [simp]: "hn_rows (on_peer_activated env rid n) = hn_rows n"
  "hn_handshakes (on_peer_activated env rid n) = hn_handshakes n"
  "tn_world (hn_node (on_peer_activated env rid n)) = tn_world (hn_node n)"
  by (auto simp: on_peer_activated_def load_peer_runtime_def unload_peer_def drop_sessions_of_def split: option.splits)

lemma host_confirms_lemma:
  assumes ok: "table_ok (pv_store env) (hn_rows n)" and p: "get_peer (rh_row h) (hn_rows n) = Some p"
    and h: "map_of (hn_handshakes n) k = Some h" and m: "parse_pair_confirm m = Some (k, rh_confirm h)"
    and fresh: "time_of env n \<le> rh_expires_at h" and same: "map_option lt_pin (rh_tls h) = map_option ca_pin (channel_client ctx)"
  obtains n' a' where "handle_pair_confirm env ctx (Some m) n = (PairConfirmed, n')"
    "get_peer (rh_row h) (hn_rows n') = Some (activated (pv_store env) (time_of env n) (pd_wrap (pv_draw env (hn_draws n))) a' p)"
    "av_node_id a' = rh_initiator h" "av_link_key a' = rh_link_key h" "av_tls a' = rh_tls h"
    "hn_handshakes n' = al_drop k (hn_handshakes n)" "time_of env n' = time_of env n"
    "confirm_handshake env k h n = (PairConfirmed, n')"
proof -
  obtain n1 a1 where n1: "complete_pairing env (rh_row h) (confirmed_activation h) n = (Inr (), n1)"
    "get_peer (rh_row h) (hn_rows n1) = Some (activated (pv_store env) (time_of env n) (pd_wrap (pv_draw env (hn_draws n))) a1 p)"
    "av_node_id a1 = av_node_id (confirmed_activation h)" "av_link_key a1 = av_link_key (confirmed_activation h)"
    "av_tls a1 = av_tls (confirmed_activation h)" "hn_handshakes n1 = hn_handshakes n" "tn_world (hn_node n1) = tn_world (hn_node n)"
    by (rule complete_pairing_lemma [OF ok p])
  let ?n' = "on_peer_activated env (rh_row h)
      ((drop_handshake k n1)\<lparr>hn_progress := al_drop (rh_row h) (hn_progress n1)\<rparr>)"
  have run: "confirm_handshake env k h n = (PairConfirmed, ?n')" using n1(1) by (simp add: confirm_handshake_def)
  have got: "handle_pair_confirm env ctx (Some m) n = (PairConfirmed, ?n')"
    using m h fresh same run by (simp add: handle_pair_confirm_def safe_equal_def)
  have rest: "hn_handshakes ?n' = al_drop k (hn_handshakes n)" "time_of env ?n' = time_of env n"
    using n1(6,7) by (simp_all add: drop_handshake_def time_of_def clock_of_def)
  have held: "get_peer (rh_row h) (hn_rows ?n') = get_peer (rh_row h) (hn_rows n1)" by (simp add: drop_handshake_def)
  have of_h: "av_node_id (confirmed_activation h) = rh_initiator h" "av_link_key (confirmed_activation h) = rh_link_key h"
    "av_tls (confirmed_activation h) = rh_tls h" by (simp_all add: confirmed_activation_def)
  show thesis
    by (rule that [OF got, of a1]) (simp_all only: held n1(2-5) of_h rest run)
qed

end
