(* ===== verification/Pair_Agree.thy ===== *)
theory Pair_Agree
  imports Pair_Link
begin

text \<open>
  One whole exchange of two nodes: from the joining node's first message to two active entries.
\<close>

section \<open>What the exchange starts from\<close>

definition shown_address :: "('j, 'w) pair_env \<Rightarrow> pinned_target option \<Rightarrow> 'w pair_node \<Rightarrow> string" where
  "shown_address env target n =
     (case target of
        Some t \<Rightarrow> join_with '' '' (map format_endpoint (oc_endpoints (the (own_channel env n))))
      | None \<Rightarrow> advertised_address env n)"

text \<open>The joining node holds the code in an open entry and, where the code names the channel, has one itself.\<close>

definition joiner_ready :: "('j, 'w) pair_env \<Rightarrow> peer_entry \<Rightarrow> string \<Rightarrow> string \<Rightarrow> 'w pair_node \<Rightarrow> bool" where
  "joiner_ready env q secret base n \<longleftrightarrow>
     table_ok (pv_store env) (hn_rows n) \<and> get_peer (pe_id q) (hn_rows n) = Some q \<and>
     read_stored_handshake env q = None \<and> pairing_secret_of (pv_store env) q = Some secret \<and> secret \<noteq> [] \<and>
     normalize_peer_address (pv_url env) (case channel_target_of env q of Some t \<Rightarrow> tg_url t | None \<Rightarrow> pe_address q) = Inr base \<and>
     (case channel_target_of env q of
        None \<Rightarrow> \<not> pe_tls_required q
      | Some t \<Rightarrow> own_channel env n \<noteq> None \<and> length (tg_pin t) < 2 ^ 32 \<and> kept_certificate env t \<noteq> None \<and>
          kept_certificate env t \<noteq> Some []) \<and>
     (case te_own_pin (pv_transport env) of None \<Rightarrow> True | Some pin \<Rightarrow> length pin < 2 ^ 32) \<and>
     node_id_ok (pv_self env) \<and> length (pv_name env) \<le> 120 \<and>
     shown_address env (channel_target_of env q) n \<noteq> [] \<and> length (shown_address env (channel_target_of env q) n) \<le> 2600"

text \<open>What the joining node sends, as both sides authenticate it, and its MAC under a code.\<close>

definition sent_init :: "('j, 'w) pair_env \<Rightarrow> peer_entry \<Rightarrow> 'w pair_node \<Rightarrow> pair_init" where
  "sent_init env q n =
     joiner_init env (channel_target_of env q) (own_channel env n) (shown_address env (channel_target_of env q) n)
       (pv_draw env (hn_draws n))"

definition code_mac :: "('j, 'w) pair_env \<Rightarrow> pair_init \<Rightarrow> string \<Rightarrow> string + buffer" where
  "code_mac env i secret = pair_init_mac (pv_pr env) (derive_pairing_psk (pv_pr env) secret (pi_salt i)) i"

text \<open>
  The host waits under the same code with a window this request may use, it can reach the joining node, and it is
  the node whose certificate the code names. No other of its codes gives the same MAC.
\<close>

definition host_ready ::
    "('j, 'v) pair_env \<Rightarrow> ('j, 'w) pair_env \<Rightarrow> peer_entry \<Rightarrow> peer_entry \<Rightarrow> string \<Rightarrow> 'w pair_node \<Rightarrow> 'v pair_node \<Rightarrow> bool" where
  "host_ready henv env q p secret n h \<longleftrightarrow>
     table_ok (pv_store henv) (hn_rows h) \<and>
     pv_pr henv = pv_pr env \<and> node_id_ok (pv_self henv) \<and> length (pv_name henv) \<le> 120 \<and> pv_self henv \<noteq> pv_self env \<and>
     \<not> wrong_host henv (channel_target_of env q) \<and> pe_node_id q \<in> {None, Some [], Some (pv_self henv)} \<and>
     p \<in> set (candidates henv (time_of henv h) (pv_self env) (channel_client (joiner_ctx env (channel_target_of env q))) (hn_rows h)) \<and>
     pairing_secret_of (pv_store henv) p = Some secret \<and>
     (\<forall>r \<in> set (hn_rows h). \<forall>s. r \<noteq> p \<and> pairing_secret_of (pv_store henv) r = Some s \<longrightarrow>
        code_mac env (sent_init env q n) s \<noteq> code_mac env (sent_init env q n) secret) \<and>
     (\<exists>address. joiner_address henv (channel_client (joiner_ctx env (channel_target_of env q)))
        (shown_address env (channel_target_of env q) n) = Inr address)"

text \<open>What is relied on of the primitives and of what is drawn.\<close>

definition draws_ready :: "('j, 'v) pair_env \<Rightarrow> ('j, 'w) pair_env \<Rightarrow> 'w pair_node \<Rightarrow> 'v pair_node \<Rightarrow> bool" where
  "draws_ready henv env n h \<longleftrightarrow>
     gcm_laws (pv_pr env) \<and> hmac_length (pv_pr env) \<and>
     pair_exchange_ok (pv_pr env) (pv_draw env (hn_draws n)) (pv_draw henv (hn_draws h)) \<and>
     (\<forall>k. length (pd_wrap (pv_draw env k)) = 12 \<and> length (pd_wrap (pv_draw henv k)) = 12)"

section \<open>Joined or not, a node reads its own state alike\<close>

lemma pair_joined_same [simp]:
  "channel_target_of (pair_joined henv env) q = channel_target_of env q" "own_channel (pair_joined henv env) n = own_channel env n"
  "read_stored_handshake (pair_joined henv env) q = read_stored_handshake env q"
  "advertised_address (pair_joined henv env) n = advertised_address env n"
  "kept_certificate (pair_joined henv env) t = kept_certificate env t" "stored_ways (pair_joined henv env) s = stored_ways env s"
  "stored_target (pair_joined henv env) h = stored_target env h" "joiner_init (pair_joined henv env) tg ch a d = joiner_init env tg ch a d"
  "joined_activation (pair_joined henv env) h = joined_activation env h"
  by (simp_all add: pair_joined_def channel_target_of_def own_channel_def read_stored_handshake_def advertised_address_def
      kept_certificate_def stored_ways_def stored_target_def joiner_init_def joined_activation_def
      cong: option.case_cong list.case_cong if_cong)

lemma time_set_host [simp]: "tn_draws (hn_node (set_host h n)) = tn_draws (hn_node n)"
  by (simp add: set_host_def)

lemma sent_init_sel [simp]: "pi_from (sent_init env q n) = pv_self env" "pi_name (sent_init env q n) = pv_name env"
  "pi_addr (sent_init env q n) = shown_address env (channel_target_of env q) n"
  "pi_salt (sent_init env q n) = pd_salt (pv_draw env (hn_draws n))" "pi_e (sent_init env q n) = pd_public (pv_draw env (hn_draws n))"
  "pi_n (sent_init env q n) = pd_nonce (pv_draw env (hn_draws n))"
  by (simp_all add: sent_init_def joiner_init_def)

lemma own_channel_pin: "own_channel env n = Some ch \<Longrightarrow> te_own_pin (pv_transport env) = Some (oc_pin ch)"
  by (auto simp: own_channel_def split: option.splits if_splits list.splits)

lemma sent_init_tls:
  "joiner_ready env q secret base n \<Longrightarrow> pi_tls (sent_init env q n) =
     (case (channel_target_of env q, te_own_pin (pv_transport env)) of
        (Some t, Some pin) \<Rightarrow> Some \<lparr>cb_client = pin, cb_server = tg_pin t\<rparr> | _ \<Rightarrow> None)"
  by (auto simp: joiner_ready_def sent_init_def joiner_init_def dest: own_channel_pin split: option.splits)

lemma joiner_pin: "joiner_ready env q secret base n \<Longrightarrow> channel_target_of env q = Some t \<Longrightarrow>
    \<exists>pin. te_own_pin (pv_transport env) = Some pin \<and> length pin < 2 ^ 32"
  by (auto simp: joiner_ready_def dest: own_channel_pin)

lemma short_sent_init:
  assumes "joiner_ready env q secret base n" "draws_ready henv env n h"
  shows "short_pair (sent_init env q n)"
  using assms(1) assms(2) sent_init_tls [OF assms(1)] joiner_pin [OF assms(1)]
  by (auto simp: short_pair_def joiner_ready_def draws_ready_def pair_exchange_ok_def node_id_ok_def split: option.splits)

text \<open>The host takes the request for what the joining node meant.\<close>

lemma sent_init_bound:
  assumes "joiner_ready env q secret base n" "\<not> wrong_host henv (channel_target_of env q)"
  shows "bound_init henv (channel_client (joiner_ctx env (channel_target_of env q))) ((sent_init env q n)\<lparr>pi_tls := None\<rparr>) = sent_init env q n"
    and "init_version_ok henv (joiner_ctx env (channel_target_of env q)) (if pi_tls (sent_init env q n) = None then 2 else 3)"
  using assms(2) sent_init_tls [OF assms(1)] joiner_pin [OF assms(1)]
  by (cases "channel_target_of env q";
      auto simp: bound_init_def wrong_host_def channel_client_def joiner_ctx_def own_cert_def init_version_ok_def)+

lemma pins_of_context:
  "map_option lt_pin (joiner_tls henv client addr) = map_option ca_pin client"
  by (auto simp: joiner_tls_def announced_ways_def split: option.splits prod.splits)

section \<open>The two steps\<close>

text \<open>The keys both sides compute.\<close>

definition exchanged_keys ::
    "('j, 'v) pair_env \<Rightarrow> ('j, 'w) pair_env \<Rightarrow> pair_init \<Rightarrow> string \<Rightarrow> pair_drawn \<Rightarrow> pair_drawn \<Rightarrow> string + pair_keys_result" where
  "exchanged_keys henv env i secret d e =
     pair_keys (pv_pr env) (derive_pairing_psk (pv_pr env) secret (pi_salt i)) (x25519 (pv_pr env) (pd_private d) (pd_public e)) i
       (accept_of henv e)"

lemma exchanged_keys_total:
  assumes "joiner_ready env q secret base n" "host_ready henv env q p secret n h" "draws_ready henv env n h"
  obtains keys where "exchanged_keys henv env (sent_init env q n) secret (pv_draw env (hn_draws n)) (pv_draw henv (hn_draws h)) = Inr keys"
    "length (confirm_initiator keys) = 32" "length (confirm_responder keys) = 32"
proof -
  let ?a = "accept_of henv (pv_draw henv (hn_draws h))"
  have "length (pa_id ?a) < 2 ^ 32" "length (pa_name ?a) < 2 ^ 32" "length (pa_e ?a) < 2 ^ 32" "length (pa_n ?a) < 2 ^ 32"
    using assms(2,3) by (simp_all add: accept_of_def host_ready_def draws_ready_def pair_exchange_ok_def node_id_ok_def)
  moreover have "hmac_length (pv_pr env)" using assms(3) by (simp add: draws_ready_def)
  ultimately show ?thesis
    unfolding exchanged_keys_def using pair_keys_total [OF short_sent_init [OF assms(1,3)]] that unfolding exchanged_keys_def by metis
qed

lemma code_mac_total:
  assumes "joiner_ready env q secret base n" "draws_ready henv env n h"
  obtains mac where "code_mac env (sent_init env q n) secret = Inr mac" "length mac = 32"
  using pair_mac_total [OF short_sent_init [OF assms]] assms(2) unfolding code_mac_def draws_ready_def by metis

lemma host_answers_lemma:
  assumes j: "joiner_ready env q secret base n" and hr: "host_ready henv env q p secret n h" and dr: "draws_ready henv env n h"
    and mac: "code_mac env (sent_init env q n) secret = Inr mac" "length mac = 32"
    and keys: "exchanged_keys henv env (sent_init env q n) secret (pv_draw env (hn_draws n)) (pv_draw henv (hn_draws h)) = Inr keys"
  obtains address shared where "handle_pair_init henv (joiner_ctx env (channel_target_of env q)) (Some (init_text (sent_init env q n) mac)) h =
    (PairAccepted (accept_text (accept_of henv (pv_draw henv (hn_draws h))) (confirm_responder keys)),
     after_accept henv (channel_client (joiner_ctx env (channel_target_of env q))) (sent_init env q n) mac p secret address shared keys h)"
proof -
  let ?i = "sent_init env q n" and ?ctx = "joiner_ctx env (channel_target_of env q)"
  let ?d = "pv_draw env (hn_draws n)" and ?e = "pv_draw henv (hn_draws h)"
  let ?v = "if pi_tls ?i = None then 2 else (3 :: int)"
  have pr: "pv_pr henv = pv_pr env" and right: "\<not> wrong_host henv (channel_target_of env q)"
    and p: "p \<in> set (candidates henv (time_of henv h) (pv_self env) (channel_client ?ctx) (hn_rows h))"
    and s: "pairing_secret_of (pv_store henv) p = Some secret" "secret \<noteq> []" and other: "pi_from ?i \<noteq> pv_self henv"
    and only: "\<And>r s. r \<in> set (hn_rows h) \<Longrightarrow> r \<noteq> p \<Longrightarrow> pairing_secret_of (pv_store henv) r = Some s \<Longrightarrow> code_mac env ?i s \<noteq> Inr mac"
    using j hr mac(1) by (auto simp: host_ready_def joiner_ready_def)
  obtain address where address: "joiner_address henv (channel_client ?ctx) (pi_addr ?i) = Inr address"
    using hr by (auto simp: host_ready_def)
  have len: "length (pd_public ?d) = 32" "length (pd_nonce ?d) = 16" "length (pd_salt ?d) = 16" and hmac: "hmac_length (pv_pr henv)"
    using dr pr by (simp_all add: draws_ready_def pair_exchange_ok_def)
  have parsed: "parse_pair_init (init_text ?i mac) = Some \<lparr>ir_v = ?v, ir_init = ?i\<lparr>pi_tls := None\<rparr>, ir_mac = mac\<rparr>"
    using j len mac(2) by (intro pair_init_read) (simp_all add: joiner_ready_def)
  have shared: "shared_secret (pv_pr henv) (pd_private ?e) (pi_e ?i) = Inr (x25519 (pv_pr env) (pd_private ?d) (pd_public ?e))"
    using dr pr by (simp add: shared_secret_def draws_ready_def pair_exchange_ok_def Let_def x25519_public_bytes_def)
  have "find_match henv ?i mac (candidates henv (time_of henv h) (pi_from ?i) (channel_client ?ctx) (hn_rows h)) = Inr (Some (p, secret))"
  proof (rule find_match_only [OF _ s short_sent_init [OF j dr] hmac])
    show "p \<in> set (candidates henv (time_of henv h) (pi_from ?i) (channel_client ?ctx) (hn_rows h))" using p by simp
    show "pair_init_mac (pv_pr henv) (derive_pairing_psk (pv_pr henv) secret (pi_salt ?i)) ?i = Inr mac"
      using mac(1) pr by (simp add: code_mac_def)
    fix r s assume "r \<in> set (candidates henv (time_of henv h) (pi_from ?i) (channel_client ?ctx) (hn_rows h))" "r \<noteq> p"
      "pairing_secret_of (pv_store henv) r = Some s"
    then show "pair_init_mac (pv_pr henv) (derive_pairing_psk (pv_pr henv) s (pi_salt ?i)) ?i \<noteq> Inr mac"
      using only [of r s] pr by (auto simp: candidates_def code_mac_def dest: in_set_takeD)
  qed
  from host_accepts_lemma [OF parsed sent_init_bound(2) [OF j right] sent_init_bound(1) [OF j right] this other address refl shared]
  show thesis using that keys pr by (simp add: exchanged_keys_def)
qed

text \<open>What the joining node keeps of the answer.\<close>

definition kept_tls :: "('j, 'w) pair_env \<Rightarrow> peer_entry \<Rightarrow> stored_tls option" where
  "kept_tls env q = map_option (\<lambda>t. stored_tls_of t (the (kept_certificate env t))) (channel_target_of env q)"

lemma stored_target_pin:
  "sh_tls hs = kept_tls env q \<Longrightarrow> map_option tg_pin (stored_target env hs) = map_option tg_pin (channel_target_of env q)"
  by (cases "channel_target_of env q") (simp_all add: stored_target_def kept_tls_def stored_tls_of_def)

lemma context_by_pin: "map_option tg_pin t = map_option tg_pin u \<Longrightarrow> joiner_ctx env t = joiner_ctx env u \<and> wrong_host henv t = wrong_host henv u"
  by (cases t; cases u; simp add: joiner_ctx_def wrong_host_def)

lemma joiner_reaches_confirm:
  assumes j: "joiner_ready env q secret base n" and hr: "host_ready henv env q p secret n (host_of_node n)"
    and dr: "draws_ready henv env n (host_of_node n)"
    and mac: "code_mac env (sent_init env q n) secret = Inr mac" "length mac = 32"
    and keys: "exchanged_keys henv env (sent_init env q n) secret (pv_draw env (hn_draws n)) (pv_draw henv (hn_draws (host_of_node n))) = Inr keys"
      "length (confirm_responder keys) = 32"
  obtains address shared where "initiate (pair_joined henv env) q n =
    keep_and_confirm (pair_joined henv env) (pe_id q) base
      (handshake_of env (accept_of henv (pv_draw henv (hn_draws (host_of_node n)))) keys (kept_tls env q))
      (set_host (after_accept henv (channel_client (joiner_ctx env (channel_target_of env q))) (sent_init env q n) mac p secret address
         shared keys (host_of_node n)) (n\<lparr>hn_draws := Suc (hn_draws n)\<rparr>))"
proof -
  let ?env = "pair_joined henv env" and ?i = "sent_init env q n" and ?a = "accept_of henv (pv_draw henv (hn_draws (host_of_node n)))"
  let ?t = "channel_target_of env q" and ?n1 = "n\<lparr>hn_draws := Suc (hn_draws n)\<rparr>" and ?d = "pv_draw env (hn_draws n)"
  obtain address shared where answer: "handle_pair_init henv (joiner_ctx env ?t) (Some (init_text ?i mac)) (host_of_node n) =
    (PairAccepted (accept_text ?a (confirm_responder keys)),
     after_accept henv (channel_client (joiner_ctx env ?t)) ?i mac p secret address shared keys (host_of_node n))"
    by (rule host_answers_lemma [OF j hr dr mac keys(1)])
  let ?h1 = "after_accept henv (channel_client (joiner_ctx env ?t)) ?i mac p secret address shared keys (host_of_node n)"
  have sent: "deliver_init henv env ?t base (init_text ?i mac) ?n1 =
      (Inr (200, Some (accept_text ?a (confirm_responder keys))), set_host ?h1 ?n1)"
    using answer hr by (simp add: deliver_init_def host_ready_def host_of_node_def)
  have pr: "pv_pr henv = pv_pr env" using hr by (simp add: host_ready_def)
  have parsed: "parse_pair_accept (accept_text ?a (confirm_responder keys)) = Some (?a, confirm_responder keys)"
    using hr dr keys(2) by (intro pair_accept_read) (simp_all add: accept_of_def host_ready_def draws_ready_def pair_exchange_ok_def)
  have shared: "shared_secret (pv_pr env) (pd_private ?d) (pa_e ?a) = Inr (x25519 (pv_pr env) (pd_private ?d) (pd_public (pv_draw henv (hn_draws (host_of_node n)))))"
    using dr by (simp add: shared_secret_def accept_of_def draws_ready_def pair_exchange_ok_def Let_def x25519_public_bytes_def)
  have ids: "pa_id ?a = pv_self henv" "pv_self henv \<noteq> pv_self env" "pe_node_id q = None \<or> pe_node_id q = Some [] \<or> pe_node_id q = Some (pv_self henv)"
    using hr by (auto simp: host_ready_def accept_of_def)
  have cert: "?t = Some t \<Longrightarrow> \<exists>c. kept_certificate env t = Some c \<and> c \<noteq> []" for t
    using j by (auto simp: joiner_ready_def)
  have both: "pair_keys (pv_pr env) (derive_pairing_psk (pv_pr env) secret (pi_salt ?i))
      (x25519 (pv_pr env) (pd_private ?d) (pd_public (pv_draw henv (hn_draws (host_of_node n))))) ?i ?a = Inr keys"
    using keys(1) by (simp only: exchanged_keys_def)
  have same: "(case pe_node_id q of None \<Rightarrow> False | Some node \<Rightarrow> node \<noteq> [] \<and> pv_self henv \<noteq> node) = False"
    using ids(3) by auto
  have checked: "check_pair_accept ?env q ?t base ?d ?i (derive_pairing_psk (pv_pr env) secret (pi_salt ?i)) ?a (confirm_responder keys) n2 =
      keep_and_confirm ?env (pe_id q) base (handshake_of env ?a keys (kept_tls env q)) n2" for n2
    unfolding check_pair_accept_def pair_joined_sel ids(1) same using ids(2) shared both cert
    by (cases ?t) (auto simp: op_bind_def op_lift_def safe_equal_def handshake_of_def map_error_def kept_tls_def simp del: sent_init_sel)
  have "initiate ?env q n = begin_or_confirm ?env q ?t (own_channel env n) base (shown_address env ?t n) n"
    using j unfolding initiate_def joiner_ready_def Let_def pair_joined_same pair_joined_sel
    by (auto simp: shown_address_def split: option.splits)
  also have "\<dots> = send_init ?env q ?t (own_channel env n) base (shown_address env ?t n) secret n"
    using j by (simp add: begin_or_confirm_def joiner_ready_def)
  also have "\<dots> = keep_and_confirm ?env (pe_id q) base (handshake_of env ?a keys (kept_tls env q)) (set_host ?h1 ?n1)"
    using mac(1) sent parsed checked
    by (simp add: send_init_def op_bind_def op_lift_def map_error_def draw_def Let_def sent_init_def [symmetric] code_mac_def del: sent_init_sel)
  finally show thesis by (rule that)
qed

text \<open>The node completes a pairing whose entry it holds.\<close>

lemma finish_lemma:
  assumes "table_ok (pv_store env) (hn_rows n)" "get_peer rid (hn_rows n) = Some q"
  obtains n' a' where "finish env rid hs n = (Inr (), n')"
    "get_peer rid (hn_rows n') = Some (activated (pv_store env) (time_of env n) (pd_wrap (pv_draw env (hn_draws n))) a' q)"
    "av_node_id a' = sh_node_id hs" "av_link_key a' = b64_decode (sh_link_key hs)" "map_option lt_pin (av_tls a') = map_option sx_pin (sh_tls hs)"
    "tn_world (hn_node n') = tn_world (hn_node n)"
proof -
  obtain n1 a1 where n1: "complete_pairing env rid (joined_activation env hs) n = (Inr (), n1)"
    "get_peer rid (hn_rows n1) = Some (activated (pv_store env) (time_of env n) (pd_wrap (pv_draw env (hn_draws n))) a1 q)"
    "av_node_id a1 = av_node_id (joined_activation env hs)" "av_link_key a1 = av_link_key (joined_activation env hs)"
    "av_tls a1 = av_tls (joined_activation env hs)" "tn_world (hn_node n1) = tn_world (hn_node n)"
    by (rule complete_pairing_lemma [OF assms, of "joined_activation env hs"])
  let ?n' = "on_peer_activated env rid (n1\<lparr>hn_progress := al_drop rid (hn_progress n1)\<rparr>)"
  have "finish env rid hs n = (Inr (), ?n')" using n1(1) by (simp add: finish_def op_bind_def op_write_def)
  moreover have "av_node_id (joined_activation env hs) = sh_node_id hs" "av_link_key (joined_activation env hs) = b64_decode (sh_link_key hs)"
    "map_option lt_pin (av_tls (joined_activation env hs)) = map_option sx_pin (sh_tls hs)"
    by (simp_all add: joined_activation_def option.map_comp comp_def)
  ultimately show thesis using n1 by (intro that [of ?n' a1]) simp_all
qed

lemma table_ok_state: "table_ok st rs \<Longrightarrow> table_ok st (on_row rid (\<lambda>p. p\<lparr>pe_state := v\<rparr>) rs)"
  by (rule table_ok_on_row) (auto simp: entry_ok_def)

lemma activated_state [simp]: "link_key_of st (activated st now nonce a (q\<lparr>pe_state := v\<rparr>)) = link_key_of st (activated st now nonce a q)"
  by (cases "av_tls a") (simp_all add: activated_def link_key_of_def set_tls_def Let_def)

lemma activated_pin: "map_option lt_pin (av_tls a) = Some pin \<Longrightarrow> pe_cert_pin (activated st now nonce a p) = Some pin"
  "map_option lt_pin (av_tls a) = Some pin \<Longrightarrow> pe_tls_locked (activated st now nonce a p)"
  by (auto simp: activated_def Let_def set_tls_def)

text \<open>Both entries at the end.\<close>

definition paired ::
    "('j, 'v) pair_env \<Rightarrow> ('j, 'w) pair_env \<Rightarrow> pinned_target option \<Rightarrow> pair_keys_result \<Rightarrow> peer_entry \<Rightarrow> peer_entry \<Rightarrow> bool" where
  "paired henv env target keys pj ph \<longleftrightarrow>
     pe_status pj = ACTIVE \<and> pe_status ph = ACTIVE \<and> pe_node_id pj = Some (pv_self henv) \<and> pe_node_id ph = Some (pv_self env) \<and>
     pe_secret pj = None \<and> pe_secret ph = None \<and>
     link_key_of (pv_store env) pj = Some (link_key keys) \<and> link_key_of (pv_store henv) ph = Some (link_key keys) \<and>
     (case target of
        None \<Rightarrow> True
      | Some t \<Rightarrow> pe_cert_pin pj = te_own_pin (pv_transport henv) \<and> pe_cert_pin ph = te_own_pin (pv_transport env) \<and>
          pe_tls_locked pj \<and> pe_tls_locked ph)"

lemma activated_paired:
  assumes "gcm_laws (pv_pr henv)" "gcm_laws (pv_pr (pair_joined henv env))" "length nonce = 12" "length nonce' = 12"
    "av_node_id a = pv_self henv" "av_link_key a = link_key keys" "av_node_id b = pv_self env" "av_link_key b = link_key keys"
    "\<And>t. target = Some t \<Longrightarrow> map_option lt_pin (av_tls a) = te_own_pin (pv_transport henv) \<and> te_own_pin (pv_transport henv) \<noteq> None"
    "\<And>t. target = Some t \<Longrightarrow> map_option lt_pin (av_tls b) = te_own_pin (pv_transport env) \<and> te_own_pin (pv_transport env) \<noteq> None"
  shows "paired henv env target keys (activated (pv_store (pair_joined henv env)) now nonce a q) (activated (pv_store henv) now' nonce' b p)"
proof (cases target)
  case None
  then show ?thesis using assms(1-8) by (simp add: paired_def link_key_activated)
next
  case (Some t)
  then show ?thesis using assms(1-8) assms(9,10) [OF Some]
    by (auto simp: paired_def link_key_activated activated_pin)
qed

lemma host_confirmed:
  assumes j: "joiner_ready env q secret base n" and hr: "host_ready henv env q p secret n h" and dr: "draws_ready henv env n h"
    and keys: "length (confirm_initiator keys) = 32"
    and h1: "h1 = after_accept henv (channel_client ctx) (sent_init env q n) mac p secret address shared keys h"
  obtains h2 a' where "handle_pair_confirm henv ctx (Some \<lparr>cm_from = pv_self env, cm_mac = b64url_encode (confirm_initiator keys)\<rparr>) h1 = (PairConfirmed, h2)"
    "get_peer (pe_id p) (hn_rows h2) = Some (activated (pv_store henv) (time_of henv h) (pd_wrap (pv_draw henv (Suc (hn_draws h)))) a' p)"
    "av_node_id a' = pv_self env" "av_link_key a' = link_key keys" "map_option lt_pin (av_tls a') = map_option ca_pin (channel_client ctx)"
proof -
  let ?k = "pv_self env" and ?m = "\<lparr>cm_from = pv_self env, cm_mac = b64url_encode (confirm_initiator keys)\<rparr>"
  let ?hs = "\<lparr>rh_row = pe_id p, rh_initiator = pv_self env, rh_name = pv_name env, rh_address = address, rh_link_key = link_key keys,
      rh_confirm = confirm_initiator keys, rh_expires_at = time_of henv h + handshake_ttl,
      rh_tls = joiner_tls henv (channel_client ctx) (shown_address env (channel_target_of env q) n)\<rparr>"
  have p: "p \<in> set (hn_rows h)" using hr by (auto simp: host_ready_def candidates_def dest: in_set_takeD)
  have ok: "table_ok (pv_store henv) (hn_rows h)" using hr by (simp add: host_ready_def)
  have rows: "table_ok (pv_store henv) (hn_rows h1)" "get_peer (rh_row ?hs) (hn_rows h1) = Some p"
    using ok get_peer_unique [OF ok p refl] h1 by simp_all
  have open': "map_of (hn_handshakes h1) ?k = Some ?hs"
    using handshake_after_accept [where env = henv and i = "sent_init env q n"] h1 by simp
  have m: "parse_pair_confirm ?m = Some (?k, rh_confirm ?hs)"
    using pair_confirm_read [of ?k "confirm_initiator keys"] j keys by (simp add: joiner_ready_def)
  have same: "map_option lt_pin (rh_tls ?hs) = map_option ca_pin (channel_client ctx)" by (simp add: pins_of_context)
  have time: "time_of henv h1 = time_of henv h" "hn_draws h1 = Suc (hn_draws h)" using h1 by (simp_all add: time_after_accept)
  have fresh: "time_of henv h1 \<le> rh_expires_at ?hs" using time by (simp add: handshake_ttl_def)
  obtain h2 a' where h2: "handle_pair_confirm henv ctx (Some ?m) h1 = (PairConfirmed, h2)"
    "get_peer (rh_row ?hs) (hn_rows h2) = Some (activated (pv_store henv) (time_of henv h1) (pd_wrap (pv_draw henv (hn_draws h1))) a' p)"
    "av_node_id a' = rh_initiator ?hs" "av_link_key a' = rh_link_key ?hs" "av_tls a' = rh_tls ?hs"
    by (rule host_confirms_lemma [OF rows open' m fresh same])
  have "map_option lt_pin (av_tls a') = map_option ca_pin (channel_client ctx)" unfolding h2(5) by (rule same)
  then show thesis using h2(1-4) time by (intro that [of h2 a']) simp_all
qed

lemma pairing_lemma:
  assumes j: "joiner_ready env q secret base n" and hr: "host_ready henv env q p secret n (host_of_node n)"
    and dr: "draws_ready henv env n (host_of_node n)"
  obtains n' pj ph keys where "initiate (pair_joined henv env) q n = (Inr (), n')"
    "get_peer (pe_id q) (hn_rows n') = Some pj" "get_peer (pe_id p) (hn_rows (host_of_node n')) = Some ph"
    "paired henv env (channel_target_of env q) keys pj ph"
proof -
  let ?env = "pair_joined henv env" and ?t = "channel_target_of env q" and ?h = "host_of_node n"
  let ?a = "accept_of henv (pv_draw henv (hn_draws ?h))" and ?ctx = "joiner_ctx env (channel_target_of env q)"
  obtain mac where mac: "code_mac env (sent_init env q n) secret = Inr mac" "length mac = 32"
    by (rule code_mac_total [OF j dr])
  obtain keys where keys: "exchanged_keys henv env (sent_init env q n) secret (pv_draw env (hn_draws n)) (pv_draw henv (hn_draws ?h)) = Inr keys"
    "length (confirm_initiator keys) = 32" "length (confirm_responder keys) = 32"
    by (rule exchanged_keys_total [OF j hr dr])
  let ?hs = "handshake_of env ?a keys (kept_tls env q)"
  obtain address shared where start: "initiate ?env q n = keep_and_confirm ?env (pe_id q) base ?hs
      (set_host (after_accept henv (channel_client ?ctx) (sent_init env q n) mac p secret address shared keys ?h) (n\<lparr>hn_draws := Suc (hn_draws n)\<rparr>))"
    by (rule joiner_reaches_confirm [OF j hr dr mac keys(1,3)])
  define h1 where "h1 = after_accept henv (channel_client ?ctx) (sent_init env q n) mac p secret address shared keys ?h"
  obtain h2 a2 where h2: "handle_pair_confirm henv ?ctx (Some \<lparr>cm_from = pv_self env, cm_mac = b64url_encode (confirm_initiator keys)\<rparr>) h1 = (PairConfirmed, h2)"
    "get_peer (pe_id p) (hn_rows h2) = Some (activated (pv_store henv) (time_of henv ?h) (pd_wrap (pv_draw henv (Suc (hn_draws ?h)))) a2 p)"
    "av_node_id a2 = pv_self env" "av_link_key a2 = link_key keys" "map_option lt_pin (av_tls a2) = map_option ca_pin (channel_client ?ctx)"
    by (rule host_confirmed [OF j hr dr keys(2) h1_def])
  define state where "state = Some (wrap (pv_store env) (pd_wrap (pv_draw env (Suc (hn_draws n)))) (utf8 (pv_write_state env ?hs)) (''pairing-state:'' @ pe_id q))"
  define n3 where "n3 = on_rows (on_row (pe_id q) (\<lambda>p. p\<lparr>pe_state := state\<rparr>)) ((set_host h1 (n\<lparr>hn_draws := Suc (hn_draws n)\<rparr>))\<lparr>hn_draws := Suc (Suc (hn_draws n))\<rparr>)"
  have n3: "hn_rows n3 = on_row (pe_id q) (\<lambda>p. p\<lparr>pe_state := state\<rparr>) (hn_rows n)" "host_of_node n3 = h1"
    by (simp_all add: n3_def on_rows_def host_of_node_def set_host_def)
  have q: "get_peer (pe_id q) (hn_rows n) = Some q" and ok: "table_ok (pv_store ?env) (hn_rows n)"
    using j by (simp_all add: joiner_ready_def)
  have kept: "keep_and_confirm ?env (pe_id q) base ?hs (set_host h1 (n\<lparr>hn_draws := Suc (hn_draws n)\<rparr>)) = confirm_step ?env (pe_id q) base ?hs n3"
    using q by (simp add: keep_and_confirm_def op_bind_def draw_def update_entry_def op_read_def op_check_def op_ok_def op_write_def n3_def state_def)
  have hs: "sh_node_id ?hs = pv_self henv" "sh_link_key ?hs = b64url_encode (link_key keys)" "sh_tls ?hs = kept_tls env q"
    "sh_confirm ?hs = b64url_encode (confirm_initiator keys)" by (simp_all add: handshake_of_def accept_of_def)
  have ctx: "joiner_ctx env (stored_target env ?hs) = ?ctx" "\<not> wrong_host henv (stored_target env ?hs)"
    using context_by_pin [OF stored_target_pin [OF hs(3)], of env henv] hr by (simp_all add: host_ready_def)
  have confirmed: "deliver_confirm henv env (stored_target env ?hs) base (confirm_message ?env ?hs) n3 = (Inr 200, set_host h2 n3)"
    using h2(1) n3(2) ctx hs(4) by (simp add: deliver_confirm_def confirm_message_def)
  have rows4: "table_ok (pv_store ?env) (hn_rows (set_host h2 n3))" "get_peer (pe_id q) (hn_rows (set_host h2 n3)) = Some (q\<lparr>pe_state := state\<rparr>)"
    using ok q by (simp_all add: n3(1) table_ok_state get_peer_on_row)
  obtain n' a' where n': "finish ?env (pe_id q) ?hs (set_host h2 n3) = (Inr (), n')"
    "get_peer (pe_id q) (hn_rows n') = Some (activated (pv_store ?env) (time_of ?env (set_host h2 n3))
        (pd_wrap (pv_draw ?env (hn_draws (set_host h2 n3)))) a' (q\<lparr>pe_state := state\<rparr>))"
    "av_node_id a' = sh_node_id ?hs" "av_link_key a' = b64_decode (sh_link_key ?hs)" "map_option lt_pin (av_tls a') = map_option sx_pin (sh_tls ?hs)"
    "tn_world (hn_node n') = tn_world (hn_node (set_host h2 n3))"
    by (rule finish_lemma [OF rows4])
  have "initiate ?env q n = (Inr (), n')"
    using start kept confirmed n'(1) by (simp add: h1_def [symmetric] confirm_step_def op_bind_def)
  moreover have "host_of_node n' = h2" using n'(6) by (simp add: host_of_node_def set_host_def)
  moreover have "paired henv env ?t keys
      (activated (pv_store ?env) (time_of ?env (set_host h2 n3)) (pd_wrap (pv_draw ?env (hn_draws (set_host h2 n3)))) a' (q\<lparr>pe_state := state\<rparr>))
      (activated (pv_store henv) (time_of henv ?h) (pd_wrap (pv_draw henv (Suc (hn_draws ?h)))) a2 p)"
  proof (rule activated_paired)
    show "gcm_laws (pv_pr henv)" "gcm_laws (pv_pr ?env)" using dr hr by (simp_all add: draws_ready_def host_ready_def)
    show "length (pd_wrap (pv_draw ?env k)) = 12" "length (pd_wrap (pv_draw henv k)) = 12" for k using dr by (simp_all add: draws_ready_def)
    show "av_node_id a' = pv_self henv" "av_link_key a' = link_key keys" using n'(3,4) hs by simp_all
    show "av_node_id a2 = pv_self env" "av_link_key a2 = link_key keys" by fact+
    fix t assume t: "?t = Some t"
    show "map_option lt_pin (av_tls a') = te_own_pin (pv_transport henv) \<and> te_own_pin (pv_transport henv) \<noteq> None"
      using n'(5) hs(3) hr t by (simp add: kept_tls_def stored_tls_of_def host_ready_def wrong_host_def)
    show "map_option lt_pin (av_tls a2) = te_own_pin (pv_transport env) \<and> te_own_pin (pv_transport env) \<noteq> None"
      using h2(5) joiner_pin [OF j t] t by (auto simp: joiner_ctx_def channel_client_def own_cert_def)
  qed
  ultimately show thesis using that n'(2) h2(2) by metis
qed

end
