(* ===== verification/Pair_Theorems.thy ===== *)
theory Pair_Theorems
  imports Pair_Agree Transport_Theorems
begin

text \<open>
  The properties of pairing, with two small nodes for the witnesses: they reach each other at addresses on one
  host, each has a channel with a pinned certificate, and the first holds an open code of the second.
\<close>

section \<open>Two nodes about to pair\<close>

definition any_url :: url_parser where
  "any_url t =
     Some \<lparr>up_protocol = ''https:'', up_hostname = ''h'', up_port = ''1'', up_username = [], up_password = [], up_pathname = ''/'',
       up_search = [], up_hash = [], up_origin = ''https://h:1'', up_params = []\<rparr>"

definition pair_store :: store_env where
  "pair_store =
     \<lparr>se_pr = channel_primitives, se_cluster_secret = ''s'', se_jwt_secret = ''j'', se_ttl_minutes = 30, se_max_failures = 3,
      se_parse_url = any_url, se_write_list = \<lambda>xs. [], se_read_list = \<lambda>s. None\<rparr>"

definition pair_transport :: "string \<Rightarrow> string \<Rightarrow> (string, 'w) tnode_env" where
  "pair_transport self pin =
     \<lparr>te_pr = channel_primitives, te_json = sample_texts, te_compress = \<lambda>b. b, te_decompress = \<lambda>b m. Inr b, te_self = self,
      te_own_pin = Some pin, te_max_message = 1000, te_retry = 60000, te_now = \<lambda>w. 0, te_draw = sample_draw,
      te_post = \<lambda>b m w. (Inl (OtherError ''none''), w), te_post_pinned = \<lambda>t m w. (Inl (OtherError ''none''), w),
      te_send = \<lambda>b m w. (Inl (OtherError ''none''), w), te_send_pinned = \<lambda>t m w. (Inl (OtherError ''none''), w),
      te_handler = \<lambda>p m params w. (Inr params, w)\<rparr>"

definition pair_draw :: "nat \<Rightarrow> pair_drawn" where
  "pair_draw k =
     \<lparr>pd_private = [], pd_public = replicate 32 (of_nat k), pd_nonce = replicate 16 0, pd_salt = replicate 16 0,
      pd_wrap = replicate 12 0, pd_id = ''new'', pd_secret = [0]\<rparr>"

definition pair_node_env :: "string \<Rightarrow> string \<Rightarrow> (string, 'w) pair_env" where
  "pair_node_env self pin =
     \<lparr>pv_store = pair_store, pv_transport = pair_transport self pin, pv_name = ''N'', pv_advertise = ''https://h:1'',
      pv_own_cert = ''cert'', pv_listening = True,
      pv_reach_config = \<lparr>rf_mtls_port = 1, rf_mtls_url = ''https://h:1'', rf_mtls_endpoints = [], rf_path_endpoints = [],
        rf_advertise_url = [], rf_public_base_url = []\<rparr>,
      pv_reach = \<lparr>rc_entries = [], rc_relays = [], rc_stored = None\<rparr>, pv_x509 = \<lambda>c. None, pv_probed = \<lambda>pin. Some ''cert'',
      pv_write_state = \<lambda>h. [], pv_read_state = \<lambda>s. None, pv_write_expect = \<lambda>s. s, pv_read_expect = \<lambda>s. Some s,
      pv_read_texts = \<lambda>s. None, pv_stable = \<lambda>w. 0, pv_draw = pair_draw,
      pv_post_init = \<lambda>t b m n. (Inl (OtherError ''none''), n), pv_running = True, pv_auto_mesh = True,
      pv_capture = \<lambda>w. (Inr (), w), pv_bye = \<lambda>q n. n, pv_write_invite = \<lambda>b. [], pv_read_invite = \<lambda>s. None,
      pv_post_confirm = \<lambda>t b c n. (Inl (OtherError ''none''), n)\<rparr>"

definition pair_input :: "peer_role \<Rightarrow> peer_tls_input option \<Rightarrow> pending_input" where
  "pair_input role tls =
     \<lparr>pn_role = role, pn_address = ''https://h:1'', pn_name = ''N'', pn_secret = ''code'', pn_node_id = None,
      pn_introduced_by = None, pn_created_by = ''admin'', pn_tls = tls, pn_tls_required = False, pn_expires_at = None\<rparr>"

definition pair_rows :: "string \<Rightarrow> peer_role \<Rightarrow> peer_tls_input option \<Rightarrow> peer_table" where
  "pair_rows rid role tls = [pending_row pair_store 0 rid (replicate 12 0) (pair_input role tls)]"

definition start_node :: "peer_table \<Rightarrow> 'w \<Rightarrow> 'w pair_node" where
  "start_node rs w =
     \<lparr>hn_rows = rs, hn_handshakes = [], hn_progress = [], hn_wait = [], hn_in_flight = [], hn_advertise = [], hn_own = None,
      hn_draws = 0,
      hn_node = \<lparr>tn_peers = [], tn_sessions = [], tn_path_ways = False, tn_draws = 0, tn_world = w, tn_sent = [], tn_accepted = []\<rparr>,
      hn_proved = []\<rparr>"

definition named_channel :: peer_tls_input where
  "named_channel = \<lparr>ti_url = ''https://h:1'', ti_pin = ''pinB'', ti_cert_pem = None, ti_endpoints = None\<rparr>"

definition join_entry :: peer_entry where
  "join_entry = hd (pair_rows ''join'' JOIN (Some named_channel))"

definition host_entry :: peer_entry where
  "host_entry = hd (pair_rows ''host'' HOST None)"

definition host_start :: "nat pair_node" where
  "host_start = start_node (pair_rows ''host'' HOST None) 0"

definition join_start :: "nat pair_node pair_node" where
  "join_start = start_node (pair_rows ''join'' JOIN (Some named_channel)) host_start"

abbreviation answering :: "(string, nat) pair_env" where
  "answering \<equiv> pair_node_env ''node-bbb'' ''pinB''"

abbreviation asking_env :: "(string, nat pair_node) pair_env" where
  "asking_env \<equiv> pair_node_env ''node-aaa'' ''pinA''"

lemma start_rows: "table_ok pair_store (pair_rows rid role tls)"
  by (simp add: table_ok_def pair_rows_def pending_row_def node_ids_def entry_ok_def pair_input_def List.map_filter_simps)

lemma secret_of_row: "pairing_secret_of pair_store (pending_row pair_store 0 rid (replicate 12 0) (pair_input role tls)) = Some ''code''"
  using read_wrapped_wrap [of pair_store "replicate 12 0" "utf8 ''code''" "''pairing:'' @ rid"] channel_gcm
  by (simp add: pairing_secret_of_def pending_row_def pair_input_def pair_store_def)

lemma sample_draws: "draws_ready answering asking_env join_start (host_of_node join_start)"
proof -
  have "hmac_length channel_primitives" by (auto simp: hmac_length_def channel_primitives_def min_def)
  then show ?thesis
    using channel_gcm
    by (simp add: draws_ready_def pair_node_env_def pair_store_def pair_exchange_ok_def pair_draw_def channel_primitives_def list_all_iff)
qed

definition named_target :: pinned_target where
  "named_target = \<lparr>tg_url = ''https://h:1'', tg_pin = ''pinB'', tg_cert_pem = [], tg_previous = None,
     tg_endpoints = [\<lparr>ep_url = ''https://h:1'', ep_sni = None\<rparr>]\<rparr>"

lemma sample_target: "channel_target_of asking_env join_entry = Some named_target"
  by code_simp

lemma sample_address: "shown_address asking_env (Some named_target) join_start = ''https://h:1''"
  "own_channel asking_env join_start \<noteq> None" "kept_certificate asking_env named_target = Some ''cert''"
  "normalize_peer_address any_url ''https://h:1'' = Inr ''https://h:1''" "node_id_ok ''node-aaa''" "node_id_ok ''node-bbb''"
  by code_simp+

lemma sample_entry: "hn_rows join_start = [join_entry]" "hn_rows host_start = [host_entry]" "pe_id join_entry = ''join''"
  "pe_id host_entry = ''host''" "pe_state join_entry = None" "pe_node_id join_entry = None"
  "pairing_secret_of pair_store join_entry = Some ''code''" "pairing_secret_of pair_store host_entry = Some ''code''"
  "table_ok pair_store [join_entry]" "table_ok pair_store [host_entry]"
  using secret_of_row start_rows [of "''join''" JOIN "Some named_channel"] start_rows [of "''host''" HOST None]
  by (simp_all add: join_start_def host_start_def start_node_def join_entry_def host_entry_def pair_rows_def)
    (simp_all add: pending_row_def pair_input_def)

lemma sample_env_sel [simp]: "pv_store (pair_node_env self pin) = pair_store" "pv_self (pair_node_env self pin) = self"
  "te_own_pin (pv_transport (pair_node_env self pin)) = Some pin" "pv_name (pair_node_env self pin) = ''N''"
  "se_parse_url pair_store = any_url" "se_pr pair_store = channel_primitives"
  by (simp_all add: pair_node_env_def pair_transport_def pair_store_def)

lemma sample_joiner: "joiner_ready asking_env join_entry ''code'' ''https://h:1'' join_start"
  using sample_address sample_entry
  by (simp add: joiner_ready_def sample_target get_peer_def read_stored_handshake_def read_wrapped_def named_target_def [symmetric])
    (simp add: named_target_def)

lemma sample_candidates:
  "candidates answering 0 ''node-aaa'' (channel_client (joiner_ctx asking_env (Some named_target))) [host_entry] = [host_entry]"
  by code_simp

lemma sample_reached:
  "joiner_address answering (channel_client (joiner_ctx asking_env (Some named_target))) ''https://h:1'' = Inr ''https://h:1''"
  by code_simp

lemma sample_host_ready: "host_ready answering asking_env join_entry host_entry ''code'' join_start (host_of_node join_start)"
proof -
  have "host_of_node join_start = host_start" by (simp add: host_of_node_def join_start_def start_node_def)
  moreover have "time_of answering host_start = 0" by (simp add: time_of_def clock_of_def pair_node_env_def pair_transport_def)
  moreover have "\<not> wrong_host answering (Some named_target)" by (simp add: wrong_host_def named_target_def)
  ultimately show ?thesis
    using sample_address sample_entry sample_candidates sample_reached by (simp add: host_ready_def sample_target)
qed

section \<open>Both sides agree\<close>

text \<open>C4: A joining node that holds the code of an open window of a node it can reach, and asks it, ends with an
  active entry for that node, and that node with one for it: the identities are mutual, the link keys of both
  are the same, the code is gone from both, and where the code names the channel each has pinned the other's
  certificate and locked the link to it. The messages pass through the real writers and readers of both sides.\<close>

theorem pairing_agrees:
  assumes "joiner_ready env q secret base n" "host_ready henv env q p secret n (host_of_node n)"
    "draws_ready henv env n (host_of_node n)"
  shows "\<exists>n' pj ph keys. initiate (pair_joined henv env) q n = (Inr (), n') \<and>
    get_peer (pe_id q) (hn_rows n') = Some pj \<and> get_peer (pe_id p) (hn_rows (host_of_node n')) = Some ph \<and>
    paired henv env (channel_target_of env q) keys pj ph"
  by (rule pairing_lemma [OF assms]) blast

lemma pairing_agrees_witness:
  "\<exists>n' pj ph keys. initiate (pair_joined answering asking_env) join_entry join_start = (Inr (), n') \<and>
    get_peer ''join'' (hn_rows n') = Some pj \<and> get_peer ''host'' (hn_rows (host_of_node n')) = Some ph \<and>
    paired answering asking_env (Some named_target) keys pj ph"
  using pairing_agrees [OF sample_joiner sample_host_ready sample_draws] by (simp only: sample_entry sample_target)

section \<open>Whatever a node does\<close>

text \<open>
  A step of a node: any operation of pairing, or anything else that leaves its entries alone, time included. A request
  to pair is read in one step and answered in a later one, with any other steps, requests among them, in between;
  beside the node stand the requests that have been read and not answered.
\<close>

inductive pair_step ::
    "('j, 'w) pair_env \<Rightarrow> 'w pair_node \<times> pair_reading list \<Rightarrow> 'w pair_node \<times> pair_reading list \<Rightarrow> bool" for env where
  read_step: "init_read env ctx body n = Inr rd \<Longrightarrow> pair_step env (n, ws) (n, rd # ws)"
| answer_step: "rd \<in> set ws \<Longrightarrow> pair_step env (n, ws) (snd (init_answer env rd n), remove1 rd ws)"
| confirm_step: "pair_step env (n, ws) (snd (handle_pair_confirm env ctx confirm n), ws)"
| tick_step: "pair_step env (n, ws) (pairing_tick env n, ws)"
| invite_step: "pair_step env (n, ws) (snd (create_invite env given by n), ws)"
| join_step: "pair_step env (n, ws) (snd (join_cluster env code given by n), ws)"
| bootstrap_step: "pair_step env (n, ws) (snd (join_from_bootstrap env b n), ws)"
| update_step: "pair_step env (n, ws) (snd (update_peer env rid c n), ws)"
| remove_step: "pair_step env (n, ws) (snd (remove_peer env rid n), ws)"
| bye_step: "pair_step env (n, ws) (snd (handle_bye rid n), ws)"
| introduce_step: "pair_step env (n, ws) (snd (handle_introduce env k params n), ws)"
| expire_step: "pair_step env (n, ws) (snd (expire_windows env n), ws)"
| other_step: "pair_step env (n, ws) (n\<lparr>hn_node := t\<rparr>, ws)"

abbreviation pair_steps ::
    "('j, 'w) pair_env \<Rightarrow> 'w pair_node \<times> pair_reading list \<Rightarrow> 'w pair_node \<times> pair_reading list \<Rightarrow> bool" where
  "pair_steps env \<equiv> (pair_step env)\<^sup>*\<^sup>*"

definition pairing_ok :: "('j, 'w) pair_env \<Rightarrow> 'w pair_node \<times> pair_reading list \<Rightarrow> bool" where
  "pairing_ok env w \<longleftrightarrow> pair_ok env (fst w) \<and> (\<forall>rd \<in> set (snd w). reading_ok env rd)"

lemma keeps_after: "keeps (stays env) m \<Longrightarrow> pair_ok env n \<Longrightarrow> pair_ok env (snd (m n))"
  by (metis prod.collapse staysD)

lemma pair_step_ok:
  assumes "pair_step (pair_joined henv env) w w'" "pairing_ok (pair_joined henv env) w"
  shows "pairing_ok (pair_joined henv env) w'"
  using assms
proof induction
  case (read_step ctx body n rd ws)
  then show ?case by (auto simp: pairing_ok_def dest: init_read_ok)
next
  case (answer_step rd ws n)
  then have "pair_ok (pair_joined henv env) (snd (init_answer (pair_joined henv env) rd n))"
    by (metis init_answer_ok pairing_ok_def fst_conv snd_conv prod.collapse)
  with answer_step show ?case by (auto simp: pairing_ok_def dest: notin_set_remove1)
next
  case (confirm_step n ws ctx confirm)
  then have "pair_ok (pair_joined henv env) (snd (handle_pair_confirm (pair_joined henv env) ctx confirm n))"
    by (metis handle_pair_confirm_ok pairing_ok_def fst_conv prod.collapse)
  with confirm_step show ?case by (simp add: pairing_ok_def)
qed (auto simp: pairing_ok_def intro: linked.tick_ok linked.expire_ok keeps_after linked.keeps_create_invite linked.keeps_join_cluster
    linked.keeps_bootstrap linked.keeps_update_peer linked.keeps_remove_peer linked.keeps_bye linked.keeps_introduce)

lemma pair_steps_safe:
  "pair_steps (pair_joined henv env) w w' \<Longrightarrow> pairing_ok (pair_joined henv env) w \<Longrightarrow> pairing_ok (pair_joined henv env) w'"
  by (induction rule: rtranclp_induct) (auto intro: pair_step_ok)

lemma pair_steps_ok:
  "pair_steps (pair_joined henv env) (n0, []) (n, ws) \<Longrightarrow> pair_ok (pair_joined henv env) n0 \<Longrightarrow> pair_ok (pair_joined henv env) n"
  by (drule pair_steps_safe) (simp_all add: pairing_ok_def)

text \<open>A request that nothing comes in between of.\<close>

lemma whole_request: "pair_steps env (n, ws) (snd (handle_pair_init env ctx body n), ws)"
proof (cases "init_read env ctx body n")
  case (Inr rd)
  have "pair_step env (n, rd # ws) (snd (init_answer env rd n), remove1 rd (rd # ws))" by (rule pair_step.answer_step) simp
  moreover have "pair_step env (n, ws) (n, rd # ws)" using Inr by (rule pair_step.read_step)
  ultimately show ?thesis using Inr by (simp add: handle_pair_init_def)
qed (simp add: handle_pair_init_def)

lemma confirm_handshake_entry:
  assumes "confirm_handshake env k h n = (PairConfirmed, n')"
  shows "\<exists>p nonce. get_peer (rh_row h) (hn_rows n') = Some p \<and> pe_status p = ACTIVE \<and> pe_node_id p = Some (rh_initiator h) \<and>
    pe_link_key p = Some (wrap (pv_store env) nonce (rh_link_key h) (''link:'' @ rh_row h))"
proof -
  let ?a = "(confirmed_activation h)\<lparr>av_feed_from := pv_stable env (tn_world (hn_node n))\<rparr>"
  let ?row = "activated (pv_store env) (time_of env n) (pd_wrap (pv_draw env (hn_draws n))) ?a"
  obtain q where q: "get_peer (rh_row h) (hn_rows (remove_other_entries_for (rh_initiator h) (rh_row h) n)) = Some q"
    and rows: "hn_rows n' = on_row (rh_row h) ?row (hn_rows (remove_other_entries_for (rh_initiator h) (rh_row h) n))"
    using assms
    by (auto simp: confirm_handshake_def complete_pairing_def draw_def Let_def activate_peer_def drop_handshake_def time_of_def clock_of_def
        confirmed_activation_def split: if_splits sum.splits)
  have "get_peer (rh_row h) (hn_rows n') = Some (?row q)" using q by (simp add: rows get_peer_on_row)
  moreover have "pe_id q = rh_row h" using get_peer_mem [OF q] by simp
  ultimately show ?thesis by (auto simp: confirmed_activation_def)
qed

lemma confirm_handshake_others:
  assumes "confirm_handshake env k h n = (PairConfirmed, n')" "q \<in> set (hn_rows n')" "pe_id q \<noteq> rh_row h"
  shows "q \<in> set (hn_rows n)"
proof -
  have fewer: "x \<in> set (hn_rows n)" if "x \<in> set (hn_rows (remove_other_entries_for node keep n))" for x node keep
    using that by (auto simp: remove_other_entries_for_def Let_def fold_delete_peer)
  show ?thesis
    using assms
    by (auto simp: confirm_handshake_def complete_pairing_def draw_def Let_def activate_peer_def drop_handshake_def on_row_def
        dest!: fewer split: if_splits sum.splits)
qed

lemma map_of_al_drop: "k' \<noteq> k \<Longrightarrow> map_of (al_drop k m) k' = map_of m k'"
  by (induction m) (auto simp: al_drop_def)

lemma new_node_ok: "hn_rows n = [] \<Longrightarrow> hn_handshakes n = [] \<Longrightarrow> pair_ok env n"
  by (simp add: pair_ok_def table_ok_Nil handshakes_ok_def)

section \<open>Samples that run\<close>

definition asked_env :: "(string, nat pair_node) pair_env" where
  "asked_env = pair_joined answering (pair_node_env ''node-ccc'' ''pinC'')"

definition asked_start :: "nat pair_node pair_node" where
  "asked_start = snd (create_invite asked_env ''https://h:1'' ''admin'' ((start_node [] host_start)\<lparr>hn_advertise := ''https://h:1''\<rparr>))"

definition asked_code :: string where "asked_code = new_invite_secret [0]"

definition plain_ctx :: pair_context where "plain_ctx = \<lparr>pc_entry = EpPublic, pc_client = None\<rparr>"

definition asking_init :: "string \<Rightarrow> pair_init" where
  "asking_init self =
     \<lparr>pi_from = self, pi_name = ''N'', pi_addr = ''https://h:1'', pi_salt = replicate 16 0, pi_e = replicate 32 1, pi_n = replicate 16 0,
      pi_tls = None\<rparr>"

definition proved :: "string + buffer \<Rightarrow> buffer" where
  "proved r = (case r of Inr b \<Rightarrow> b | Inl e \<Rightarrow> [])"

definition asking_message :: "string \<Rightarrow> pair_init_message" where
  "asking_message self = init_text (asking_init self)
     (proved (pair_init_mac channel_primitives (derive_pairing_psk channel_primitives asked_code (replicate 16 0)) (asking_init self)))"

definition asking_confirm :: "string \<Rightarrow> pair_drawn \<Rightarrow> pair_confirm_message" where
  "asking_confirm self e =
     \<lparr>cm_from = self, cm_mac = b64url_encode (case pair_keys channel_primitives
        (derive_pairing_psk channel_primitives asked_code (replicate 16 0)) (replicate 32 1) (asking_init self) (accept_of asked_env e)
        of Inr keys \<Rightarrow> confirm_initiator keys | Inl e \<Rightarrow> [])\<rparr>"

definition asked_once :: "pair_response \<times> nat pair_node pair_node" where
  "asked_once = handle_pair_init asked_env plain_ctx (Some (asking_message ''node-aaa'')) asked_start"

definition confirmed_once :: "pair_response \<times> nat pair_node pair_node" where
  "confirmed_once = handle_pair_confirm asked_env plain_ctx (Some (asking_confirm ''node-aaa'' (pair_draw 2))) (snd asked_once)"

text \<open>What the two requests lead to, by the lemmas of the host's side.\<close>

definition open_entry :: peer_entry where
  "open_entry = pending_row pair_store 0 ''new'' (replicate 12 0) (host_input asked_code ''admin'')"

definition sample_psk :: buffer where
  "sample_psk = derive_pairing_psk channel_primitives asked_code (replicate 16 0)"

lemma asked_env_sel [simp]: "pv_store asked_env = pair_store" "pv_self asked_env = ''node-ccc''" "pv_draw asked_env = pair_draw"
  "te_own_pin (pv_transport asked_env) = Some ''pinC''" "pv_name asked_env = ''N''" "time_of asked_env n = 0"
  by (simp_all add: asked_env_def pair_node_env_def pair_joined_def time_of_def clock_of_def pair_transport_def)

lemma sample_address_kept: "remember_own_address asked_env ''https://h:1'' n = (Inr ''https://h:1'', n)" if "hn_advertise n = ''https://h:1''"
  using sample_address(4) that by (simp add: remember_own_address_def)

lemma asked_start_rows: "hn_rows asked_start = [open_entry]" "hn_draws asked_start = 2" "hn_handshakes asked_start = []"
  using sample_address_kept
  by (simp_all add: asked_start_def create_invite_def op_bind_def require_running_def op_check_def op_ok_def ensure_capture_def
      new_entry_def draw_def Let_def create_pending_peer_def op_read_def open_entry_def asked_code_def start_node_def map_error_def
      asked_env_def pair_joined_def pair_node_env_def pair_draw_def get_peer_def time_of_def clock_of_def pair_transport_def host_input_def
      pending_row_def)

lemma open_entry_facts: "pairing_secret_of pair_store open_entry = Some asked_code" "asked_code \<noteq> []" "pe_id open_entry = ''new''"
  using read_wrapped_wrap [of pair_store "replicate 12 0" "utf8 asked_code" "''pairing:new''"] channel_gcm
  by (simp_all add: pairing_secret_of_def open_entry_def pending_row_def host_input_def asked_code_def new_invite_secret_def)
    (simp add: b64url_encode_def)

lemma sample_open: "candidates asked_env 0 ''node-aaa'' None [open_entry] = [open_entry]"
  "candidates asked_env 0 ''node-ddd'' None [open_entry] = [open_entry]"
  "joiner_address asked_env None ''https://h:1'' = Inr ''https://h:1''" "node_id_ok ''node-ddd''"
  by code_simp+

lemma sample_accepts:
  assumes "hn_rows n = [open_entry]" "k = ''node-aaa'' \<or> k = ''node-ddd''"
  obtains mac shared keys where
    "handle_pair_init asked_env plain_ctx (Some (asking_message k)) n =
      (PairAccepted (accept_text (accept_of asked_env (pair_draw (hn_draws n))) (confirm_responder keys)),
       after_accept asked_env None (asking_init k) mac open_entry asked_code ''https://h:1'' shared keys n)"
    "parse_pair_confirm (asking_confirm k (pair_draw (hn_draws n))) = Some (k, confirm_initiator keys)"
proof -
  let ?i = "asking_init k" and ?e = "pair_draw (hn_draws n)" and ?one = "replicate 32 1 :: buffer"
  have k: "node_id_ok k" "length k = 8" "k \<noteq> ''node-ccc''" "candidates asked_env 0 k None [open_entry] = [open_entry]"
    using assms(2) sample_open sample_address(5) by auto
  have hmac: "hmac_length channel_primitives" by (auto simp: hmac_length_def channel_primitives_def min_def)
  have short: "short_pair ?i" using k(2) by (simp add: short_pair_def asking_init_def)
  obtain mac where mac: "pair_init_mac channel_primitives sample_psk ?i = Inr mac" "length mac = 32"
    using pair_mac_total [OF short hmac] by blast
  obtain keys where keys: "pair_keys channel_primitives sample_psk ?one ?i (accept_of asked_env ?e) = Inr keys" "length (confirm_initiator keys) = 32"
    using pair_keys_total [OF short _ _ _ _ hmac, of "accept_of asked_env ?e" sample_psk ?one] by (auto simp: accept_of_def pair_draw_def)
  have m: "asking_message k = init_text ?i mac"
    using mac(1) by (simp add: asking_message_def proved_def sample_psk_def)
  have parsed: "parse_pair_init (init_text ?i mac) = Some \<lparr>ir_v = 2, ir_init = ?i, ir_mac = mac\<rparr>"
    using pair_init_read [of ?i mac] k(1) mac(2) by (simp add: asking_init_def)
  have c: "channel_client plain_ctx = None" "init_version_ok asked_env plain_ctx 2" "bound_init asked_env None ?i = ?i" "pi_from ?i = k"
    "pi_salt ?i = replicate 16 0" "pi_addr ?i = ''https://h:1''" "pi_e ?i = replicate 32 1"
    by (simp_all add: plain_ctx_def channel_client_def init_version_ok_def bound_init_def asking_init_def)
  have match: "find_match asked_env ?i mac (candidates asked_env (time_of asked_env n) (pi_from ?i) (channel_client plain_ctx) (hn_rows n)) =
      Inr (Some (open_entry, asked_code))"
    using k(4) assms(1) c mac(1) open_entry_facts by (simp add: safe_equal_def sample_psk_def)
  have shared: "shared_secret (pv_pr asked_env) (pd_private ?e) (pi_e ?i) = Inr ?one"
    using c by (simp add: shared_secret_def channel_primitives_def x25519_public_bytes_def list_all_iff)
  have "handle_pair_init asked_env plain_ctx (Some (asking_message k)) n =
      (PairAccepted (accept_text (accept_of asked_env ?e) (confirm_responder keys)),
       after_accept asked_env None ?i mac open_entry asked_code ''https://h:1'' ?one keys n)"
    using host_accepts_lemma [of "init_text ?i mac" 2 ?i mac asked_env plain_ctx ?i n open_entry asked_code "''https://h:1''" ?e ?one keys]
      parsed c match k(3) sample_open(3) shared keys(1) m by (simp add: sample_psk_def)
  moreover have "parse_pair_confirm (asking_confirm k ?e) = Some (k, confirm_initiator keys)"
    using pair_confirm_read [OF k(1) keys(2)] keys(1) by (simp add: asking_confirm_def sample_psk_def)
  ultimately show thesis by (rule that)
qed

lemma sample_open_exchange:
  "map_of (hn_handshakes (after_accept asked_env None (asking_init k) mac open_entry code address shared keys n)) k =
    Some \<lparr>rh_row = ''new'', rh_initiator = k, rh_name = ''N'', rh_address = address, rh_link_key = link_key keys,
      rh_confirm = confirm_initiator keys, rh_expires_at = handshake_ttl, rh_tls = None\<rparr>"
  using handshake_after_accept [of asked_env None "asking_init k"] open_entry_facts
  by (simp add: asking_init_def joiner_tls_def announced_ways_def)

lemma sample_get: "hn_rows n = [open_entry] \<Longrightarrow> get_peer ''new'' (hn_rows n) = Some open_entry"
  using open_entry_facts by (simp add: get_peer_def)

lemma open_table: "table_ok pair_store [open_entry]"
  by (simp add: table_ok_def open_entry_def pending_row_def node_ids_def entry_ok_def host_input_def List.map_filter_simps)

lemma sample_confirmed: "fst confirmed_once = PairConfirmed" "hn_rows (snd asked_once) = [open_entry]" "hn_draws (snd asked_once) = 3"
proof -
  obtain mac shared keys where one: "asked_once = (PairAccepted (accept_text (accept_of asked_env (pair_draw 2)) (confirm_responder keys)),
      after_accept asked_env None (asking_init ''node-aaa'') mac open_entry asked_code ''https://h:1'' shared keys asked_start)"
    and m: "parse_pair_confirm (asking_confirm ''node-aaa'' (pair_draw 2)) = Some (''node-aaa'', confirm_initiator keys)"
    using sample_accepts [OF asked_start_rows(1), of "''node-aaa''"] unfolding asked_start_rows(2) asked_once_def by blast
  let ?h1 = "after_accept asked_env None (asking_init ''node-aaa'') mac open_entry asked_code ''https://h:1'' shared keys asked_start"
  show rows: "hn_rows (snd asked_once) = [open_entry]" "hn_draws (snd asked_once) = 3" unfolding one snd_conv after_accept_sel asked_start_rows by simp_all
  let ?h = "\<lparr>rh_row = ''new'', rh_initiator = ''node-aaa'', rh_name = ''N'', rh_address = ''https://h:1'', rh_link_key = link_key keys,
      rh_confirm = confirm_initiator keys, rh_expires_at = handshake_ttl, rh_tls = None\<rparr>"
  have h: "map_of (hn_handshakes ?h1) ''node-aaa'' = Some ?h" by (rule sample_open_exchange)
  have row: "table_ok (pv_store asked_env) (hn_rows ?h1)" "get_peer (rh_row ?h) (hn_rows ?h1) = Some open_entry"
    using open_table sample_get [of ?h1] asked_start_rows by simp_all
  have m': "parse_pair_confirm (asking_confirm ''node-aaa'' (pair_draw 2)) = Some (''node-aaa'', rh_confirm ?h)" using m by simp
  have fresh: "time_of asked_env ?h1 \<le> rh_expires_at ?h" "map_option lt_pin (rh_tls ?h) = map_option ca_pin (channel_client plain_ctx)"
    by (simp_all add: handshake_ttl_def plain_ctx_def channel_client_def)
  obtain h2 where "handle_pair_confirm asked_env plain_ctx (Some (asking_confirm ''node-aaa'' (pair_draw 2))) ?h1 = (PairConfirmed, h2)"
    by (rule host_confirms_lemma [OF row h m' fresh])
  then show "fst confirmed_once = PairConfirmed" unfolding confirmed_once_def one snd_conv by simp
qed

lemma sample_steps: "pair_steps asked_env ((start_node [] host_start)\<lparr>hn_advertise := ''https://h:1''\<rparr>, []) (snd asked_once, [])"
proof -
  have "pair_step asked_env ((start_node [] host_start)\<lparr>hn_advertise := ''https://h:1''\<rparr>, []) (asked_start, [])"
    unfolding asked_start_def by (rule pair_step.invite_step)
  moreover have "pair_steps asked_env (asked_start, []) (snd asked_once, [])"
    unfolding asked_once_def by (rule whole_request)
  ultimately show ?thesis by (rule converse_rtranclp_into_rtranclp)
qed

lemma sample_begins: "hn_rows ((start_node rs w)\<lparr>hn_advertise := a\<rparr>) = rs" "hn_handshakes ((start_node rs w)\<lparr>hn_advertise := a\<rparr>) = []"
  by (simp_all add: start_node_def)

section \<open>What the entries of a node are\<close>

text \<open>C17: In every state a node can reach, whatever codes it creates and uses, whatever requests, confirmations,
  introductions and changes reach it in whatever order, requests answered while others are being compared, and whatever the other node answers: no two entries share
  an id or a node, an entry that is not pending holds no code, a pending one holds no link key and was guessed wrong
  fewer times than allowed, and an entry that is active or switched off has a node and a link key.\<close>

theorem entries_stay_sound:
  assumes "hn_rows n0 = []" "hn_handshakes n0 = []" "pair_steps (pair_joined henv env) (n0, []) (n, ws)"
  shows "distinct (map pe_id (hn_rows n)) \<and> distinct (List.map_filter pe_node_id (hn_rows n)) \<and>
    list_all (entry_ok (pv_store env)) (hn_rows n)"
  using pair_steps_ok [OF assms(3) new_node_ok [OF assms(1,2)]] by (simp add: pair_ok_def table_ok_def node_ids_def)

lemma entries_stay_sound_witness:
  "distinct (map pe_id (hn_rows (snd asked_once))) \<and> distinct (List.map_filter pe_node_id (hn_rows (snd asked_once))) \<and>
    list_all (entry_ok pair_store) (hn_rows (snd asked_once))"
  using entries_stay_sound [OF sample_begins sample_steps [unfolded asked_env_def]] by (simp add: asked_env_def)

text \<open>C5: A node takes another one as its peer only if that node proved a code: whenever a confirmation succeeds,
  the node had accepted a request, under the same identity and from the same certificate, whose MAC was right under
  the code of an entry that was an open window for this request when it was read; the confirmation carries the MAC that only the keys of that exchange give, and the entry becomes active for that
  node with the link key of the exchange.\<close>

theorem peers_have_proved:
  assumes "hn_rows n0 = []" "hn_handshakes n0 = []" "pair_steps (pair_joined henv env) (n0, []) (n, ws)"
    "handle_pair_confirm (pair_joined henv env) ctx (Some m) n = (PairConfirmed, n')"
  shows "\<exists>pp \<in> set (hn_proved n). \<exists>keys p nonce.
    proof_checks (pair_joined henv env) pp \<and> proof_keys (pair_joined henv env) pp = Inr keys \<and>
    pi_from (pp_init pp) = cm_from m \<and> map_option cb_client (pi_tls (pp_init pp)) = map_option ca_pin (channel_client ctx) \<and>
    fixed_bytes 32 (cm_mac m) = Some (confirm_initiator keys) \<and>
    get_peer (pe_id (pp_entry pp)) (hn_rows n') = Some p \<and> pe_status p = ACTIVE \<and> pe_node_id p = Some (cm_from m) \<and>
    pe_link_key p = Some (wrap (pv_store env) nonce (link_key keys) (''link:'' @ pe_id (pp_entry pp)))"
proof -
  let ?env = "pair_joined henv env"
  have ok: "pair_ok ?env n" by (rule pair_steps_ok [OF assms(3) new_node_ok [OF assms(1,2)]])
  obtain mac h where m: "fixed_bytes 32 (cm_mac m) = Some mac" and h: "map_of (hn_handshakes n) (cm_from m) = Some h"
    and pin: "map_option lt_pin (rh_tls h) = map_option ca_pin (channel_client ctx)" and mac: "mac = rh_confirm h"
    and run: "confirm_handshake ?env (cm_from m) h n = (PairConfirmed, n')"
    using assms(4) by (auto simp: handle_pair_confirm_def parse_pair_confirm_def safe_equal_def split: if_splits option.splits)
  obtain pp where pp: "pp \<in> set (hn_proved n)" "rests_on ?env pp (cm_from m) h"
    using ok map_of_SomeD [OF h] unfolding pair_ok_def handshakes_ok_def by force
  obtain p nonce where "get_peer (rh_row h) (hn_rows n') = Some p" "pe_status p = ACTIVE" "pe_node_id p = Some (rh_initiator h)"
    "pe_link_key p = Some (wrap (pv_store env) nonce (rh_link_key h) (''link:'' @ rh_row h))"
    using confirm_handshake_entry [OF run] by auto
  moreover obtain keys where "proof_keys ?env pp = Inr keys" "rh_link_key h = link_key keys" "rh_confirm h = confirm_initiator keys"
    "proof_checks ?env pp" "pe_id (pp_entry pp) = rh_row h" "pi_from (pp_init pp) = cm_from m" "rh_initiator h = cm_from m"
    "map_option cb_client (pi_tls (pp_init pp)) = map_option lt_pin (rh_tls h)"
    using pp(2) by (auto simp: rests_on_def)
  ultimately show ?thesis
    using m pin mac by (intro bexI [OF _ pp(1)] exI [of _ keys] exI [of _ p] exI [of _ nonce]) simp
qed

lemma peers_have_proved_witness:
  "\<exists>pp \<in> set (hn_proved (snd asked_once)). \<exists>p. proof_checks asked_env pp \<and> pi_from (pp_init pp) = ''node-aaa'' \<and>
    get_peer (pe_id (pp_entry pp)) (hn_rows (snd confirmed_once)) = Some p \<and> pe_node_id p = Some ''node-aaa''"
proof -
  have run: "handle_pair_confirm (pair_joined answering (pair_node_env ''node-ccc'' ''pinC'')) plain_ctx
      (Some (asking_confirm ''node-aaa'' (pair_draw 2))) (snd asked_once) = (PairConfirmed, snd confirmed_once)"
    using sample_confirmed by (metis asked_env_def confirmed_once_def prod.collapse)
  have "cm_from (asking_confirm ''node-aaa'' (pair_draw 2)) = ''node-aaa''" by (simp add: asking_confirm_def)
  then show ?thesis
    using peers_have_proved [OF sample_begins sample_steps [unfolded asked_env_def] run] unfolding asked_env_def [symmetric] by metis
qed

section \<open>Guessing a code\<close>

text \<open>
  Requests that arrive and are answered in any order, each event with what the rest of the node is by then, time
  included. Counted are the answers that compared the request with the code of an entry and refused it; and, beside
  them, the most requests that were being compared with that code at the same time.
\<close>

datatype 'w guess_event =
    Arrives "'w tnode" pair_context "pair_init_message option"
  | Answered "'w tnode" nat

definition tries :: "string \<Rightarrow> pair_reading \<Rightarrow> bool" where
  "tries rid rd \<longleftrightarrow> rid \<in> set (map pe_id (rd_candidates rd))"

definition in_flight :: "string \<Rightarrow> pair_reading list \<Rightarrow> nat" where
  "in_flight rid ws = length (filter (tries rid) ws)"

definition wrong_guess :: "('j, 'w) pair_env \<Rightarrow> string \<Rightarrow> pair_reading \<Rightarrow> 'w pair_node \<Rightarrow> bool" where
  "wrong_guess env rid rd n \<longleftrightarrow> tries rid rd \<and> fst (init_answer env rd n) = PairRefused 403"

definition drop_at :: "nat \<Rightarrow> 'a list \<Rightarrow> 'a list" where
  "drop_at i xs = take i xs @ drop (Suc i) xs"

fun guess_step ::
    "('j, 'w) pair_env \<Rightarrow> string \<Rightarrow> 'w guess_event \<Rightarrow> 'w pair_node \<Rightarrow> pair_reading list \<Rightarrow> bool \<times> 'w pair_node \<times> pair_reading list" where
  "guess_step env rid (Arrives t ctx body) n ws =
     (let n0 = n\<lparr>hn_node := t\<rparr>
      in case init_read env ctx body n0 of
           Inl refused \<Rightarrow> (False, n0, ws)
         | Inr rd \<Rightarrow> (False, n0, ws @ [rd]))"
| "guess_step env rid (Answered t i) n ws =
     (let n0 = n\<lparr>hn_node := t\<rparr>
      in if i < length ws then (wrong_guess env rid (ws ! i) n0, snd (init_answer env (ws ! i) n0), drop_at i ws)
         else (False, n0, ws))"

fun guess_run ::
    "('j, 'w) pair_env \<Rightarrow> string \<Rightarrow> 'w guess_event list \<Rightarrow> 'w pair_node \<Rightarrow> pair_reading list \<Rightarrow> nat \<times> nat \<times> 'w pair_node" where
  "guess_run env rid [] n ws = (0, in_flight rid ws, n)"
| "guess_run env rid (ev # evs) n ws =
     (let (wrong, n1, ws1) = guess_step env rid ev n ws; (k, m, n') = guess_run env rid evs n1 ws1
      in ((if wrong then Suc k else k), max (in_flight rid ws) m, n'))"

lemma answer_rows:
  "hn_rows (snd (init_answer env rd n)) =
    (if fst (init_answer env rd n) = PairRefused 403
     then fold (note_pairing_failure (pv_store env)) (map pe_id (rd_candidates rd)) (hn_rows n) else hn_rows n)"
  by (auto simp: init_answer_def handle_matched_def accept_init_def Let_def draw_def on_rows_def note_progress_def
      note_failures_def fold_map comp_def split: option.split sum.split)

lemma get_peer_failures:
  "distinct ids \<Longrightarrow> get_peer rid (fold (note_pairing_failure st) ids rs) =
    map_option (if rid \<in> set ids then failed_once st else id) (get_peer rid rs)"
proof (induction ids arbitrary: rs)
  case (Cons k ids)
  have "get_peer rid (note_pairing_failure st k rs) = map_option (if rid = k then failed_once st else id) (get_peer rid rs)"
    unfolding note_pairing_failure_def by (subst get_peer_on_row) (auto simp: option.map_id)
  then show ?case using Cons by (auto simp: option.map_comp comp_def)
qed (simp add: option.map_id)

text \<open>What holds of the requests being compared: each names an entry once.\<close>

definition once_each :: "pair_reading list \<Rightarrow> bool" where
  "once_each ws \<longleftrightarrow> (\<forall>rd \<in> set ws. distinct (map pe_id (rd_candidates rd)))"

lemma read_once:
  assumes "table_ok (pv_store env) (hn_rows n)" "init_read env ctx body n = Inr rd"
  shows "distinct (map pe_id (rd_candidates rd))"
  using assms unfolding init_read_def candidates_def table_ok_def
  by (auto simp: take_map [symmetric] distinct_map_filter Let_def split: option.splits if_splits intro!: distinct_take)

lemma read_pending:
  assumes "table_ok (pv_store env) (hn_rows n)" "get_peer rid (hn_rows n) = Some q" "init_read env ctx body n = Inr rd" "tries rid rd"
  shows "pe_status q = PENDING"
proof -
  obtain c where c: "c \<in> set (hn_rows n)" "pe_id c = rid" "pe_status c = PENDING"
    using assms(3,4)
    by (auto simp: init_read_def tries_def Let_def is_candidate_def open_window_def dest!: candidates_open split: option.splits if_splits)
  then show ?thesis using get_peer_unique [OF assms(1) c(1,2)] assms(2) by simp
qed

lemma drop_at_flight:
  assumes "i < length ws"
  shows "in_flight rid ws = (if tries rid (ws ! i) then 1 else 0) + in_flight rid (drop_at i ws)"
proof -
  have "in_flight rid ws = in_flight rid (take i ws @ ws ! i # drop (Suc i) ws)" using assms by (simp add: id_take_nth_drop [symmetric])
  then show ?thesis by (simp add: in_flight_def drop_at_def)
qed

lemma drop_at_once: "once_each ws \<Longrightarrow> once_each (drop_at i ws)"
  by (auto simp: once_each_def drop_at_def dest: in_set_takeD in_set_dropD)

text \<open>An entry that was a window and has been guessed wrong so many times.\<close>

definition guessed :: "store_env \<Rightarrow> peer_entry \<Rightarrow> nat \<Rightarrow> peer_entry \<Rightarrow> bool" where
  "guessed st p k q \<longleftrightarrow> pe_failures q = pe_failures p + k \<and>
     (pe_status q, pe_secret q) = (if pe_failures q < max_failures st then (PENDING, pe_secret p) else (LOCKED, None))"

lemma guessed_once: "guessed st p k q \<Longrightarrow> guessed st p (Suc k) (failed_once st q)"
  by (auto simp: guessed_def failed_once_def with_status_def Let_def split: if_splits)

text \<open>One event: whether it was a wrong guess, and what it does to the entry and the requests in flight.\<close>

lemma guess_step_lemma:
  assumes run: "guess_step env rid ev n ws = (wrong, n1, ws1)" and ok: "table_ok (pv_store env) (hn_rows n)" "once_each ws"
    and q: "get_peer rid (hn_rows n) = Some q"
  shows "table_ok (pv_store env) (hn_rows n1) \<and> once_each ws1 \<and>
    get_peer rid (hn_rows n1) = Some (if wrong then failed_once (pv_store env) q else q) \<and>
    (wrong \<longrightarrow> in_flight rid ws = Suc (in_flight rid ws1)) \<and> (pe_status q \<noteq> PENDING \<longrightarrow> in_flight rid ws1 \<le> in_flight rid ws)"
proof (cases ev)
  case (Arrives t ctx body)
  let ?n0 = "n\<lparr>hn_node := t\<rparr>"
  have n0: "table_ok (pv_store env) (hn_rows ?n0)" "get_peer rid (hn_rows ?n0) = Some q" using ok q by simp_all
  show ?thesis
  proof (cases "init_read env ctx body ?n0")
    case (Inl refused)
    with Arrives run ok q show ?thesis by (auto simp: Let_def)
  next
    case (Inr rd)
    with Arrives run have "\<not> wrong" "n1 = ?n0" "ws1 = ws @ [rd]" by (auto simp: Let_def)
    with ok q read_once [OF n0(1) Inr] read_pending [OF n0 Inr] show ?thesis by (auto simp: once_each_def in_flight_def)
  qed
next
  case (Answered t i)
  let ?n0 = "n\<lparr>hn_node := t\<rparr>"
  show ?thesis
  proof (cases "i < length ws")
    case False
    with Answered run ok q show ?thesis by (auto simp: Let_def)
  next
    case True
    with Answered run have r: "wrong = wrong_guess env rid (ws ! i) ?n0" "n1 = snd (init_answer env (ws ! i) ?n0)" "ws1 = drop_at i ws"
      by (auto simp: Let_def)
    have "distinct (map pe_id (rd_candidates (ws ! i)))" using True ok(2) by (auto simp: once_each_def)
    from get_peer_failures [OF this, of rid "pv_store env" "hn_rows n"] q
    have "get_peer rid (hn_rows n1) = Some (if wrong then failed_once (pv_store env) q else q)"
      unfolding r answer_rows by (auto simp: wrong_guess_def tries_def)
    moreover have "table_ok (pv_store env) (hn_rows n1)"
      unfolding r answer_rows using ok(1) table_ok_fold_failures by simp
    moreover have "wrong \<longrightarrow> tries rid (ws ! i)" by (simp add: r wrong_guess_def)
    ultimately show ?thesis using drop_at_flight [OF True, of rid] drop_at_once [OF ok(2)] r(3) by auto
  qed
qed

lemma guess_run_lemma:
  assumes "table_ok (pv_store env) (hn_rows n)" "once_each ws" "get_peer rid (hn_rows n) = Some q" "guessed (pv_store env) p j q"
    "guess_run env rid evs n ws = (k, m, n')"
  shows "(\<exists>q'. get_peer rid (hn_rows n') = Some q' \<and> guessed (pv_store env) p (j + k) q') \<and> in_flight rid ws \<le> m \<and>
    (if pe_failures q < max_failures (pv_store env) then k \<le> (max_failures (pv_store env) - pe_failures q) + (m - 1)
     else k \<le> in_flight rid ws)"
  using assms
proof (induction evs arbitrary: n ws q j k m)
  case (Cons ev evs)
  let ?max = "max_failures (pv_store env)"
  obtain wrong n1 ws1 where ev: "guess_step env rid ev n ws = (wrong, n1, ws1)" by (metis prod_cases3)
  obtain k1 m1 where rest: "guess_run env rid evs n1 ws1 = (k1, m1, n')"
    and k: "k = (if wrong then Suc k1 else k1)" "m = max (in_flight rid ws) m1"
    using Cons.prems(5) ev by (auto split: prod.splits)
  from guess_step_lemma [OF ev Cons.prems(1,2,3)]
  have e: "table_ok (pv_store env) (hn_rows n1)" "once_each ws1"
    "get_peer rid (hn_rows n1) = Some (if wrong then failed_once (pv_store env) q else q)"
    "wrong \<Longrightarrow> in_flight rid ws = Suc (in_flight rid ws1)" "pe_status q \<noteq> PENDING \<Longrightarrow> in_flight rid ws1 \<le> in_flight rid ws"
    by blast+
  let ?q = "if wrong then failed_once (pv_store env) q else q"
  have g: "guessed (pv_store env) p (if wrong then Suc j else j) ?q"
    using Cons.prems(4) guessed_once by simp
  have f: "pe_failures ?q = (if wrong then Suc (pe_failures q) else pe_failures q)"
    using Cons.prems(4) g by (simp add: guessed_def)
  have closed: "pe_status q \<noteq> PENDING" if "\<not> pe_failures q < ?max"
    using Cons.prems(4) that by (auto simp: guessed_def)
  from Cons.IH [OF e(1,2,3) g rest]
  have later: "\<exists>q'. get_peer rid (hn_rows n') = Some q' \<and> guessed (pv_store env) p ((if wrong then Suc j else j) + k1) q'"
    and m1: "in_flight rid ws1 \<le> m1"
    and k1: "if pe_failures ?q < ?max then k1 \<le> (?max - pe_failures ?q) + (m1 - 1) else k1 \<le> in_flight rid ws1" by blast+
  have "if pe_failures q < ?max then k \<le> (?max - pe_failures q) + (m - 1) else k \<le> in_flight rid ws"
  proof (cases "pe_failures q < ?max")
    case True
    with k1 k f m1 e(4) show ?thesis by (auto split: if_splits)
  next
    case False
    with k1 k f e(4) e(5) [OF closed [OF False]] show ?thesis by (auto split: if_splits)
  qed
  with later k show ?case by (auto split: if_splits)
qed simp

text \<open>C18: A code is compared with wrong guesses at most the allowed number of times and as many times more as there
  were other requests in flight, whatever the requests, their certificates and times, and the order they are read
  and answered in: every refused guess counts against the entry, below the bound the entry stays open with its code,
  and from the guess that reaches the bound it is locked and its code forgotten. Requests one at a time never exceed the
  bound; but requests in flight together do, since the failures are counted only after the comparison.\<close>

theorem wrong_guesses_are_bounded:
  assumes "table_ok (pv_store env) (hn_rows n)" "get_peer rid (hn_rows n) = Some p" "pe_status p = PENDING"
    "guess_run env rid events n [] = (k, most, n')"
  shows "k \<le> (max_failures (pv_store env) - pe_failures p) + (most - 1) \<and>
    (\<exists>q. get_peer rid (hn_rows n') = Some q \<and> pe_failures q = pe_failures p + k \<and>
      (pe_status q, pe_secret q) = (if pe_failures p + k < max_failures (pv_store env) then (PENDING, pe_secret p) else (LOCKED, None)))"
proof -
  have "entry_ok (pv_store env) p" using assms(1) get_peer_mem [OF assms(2)] by (simp add: table_ok_def list_all_iff)
  then have p: "guessed (pv_store env) p 0 p" "pe_failures p < max_failures (pv_store env)"
    using assms(3) by (simp_all add: guessed_def entry_ok_def)
  from guess_run_lemma [OF assms(1) _ assms(2) p(1) assms(4)] p(2) show ?thesis by (auto simp: guessed_def once_each_def)
qed

text \<open>
  With three guesses allowed: of four requests one after the other the last is not compared; of four that are all read
  before the first is answered every one is.
\<close>

definition wrong_message :: pair_init_message where
  "wrong_message = init_text (asking_init ''node-aaa'') (replicate 32 0)"

abbreviation wrong_arrives :: "nat guess_event" where
  "wrong_arrives \<equiv> Arrives (hn_node host_start) plain_ctx (Some wrong_message)"

abbreviation first_answered :: "nat guess_event" where
  "first_answered \<equiv> Answered (hn_node host_start) 0"

definition one_by_one :: "nat guess_event list" where
  "one_by_one = concat (replicate 4 [wrong_arrives, first_answered])"

definition all_at_once :: "nat guess_event list" where
  "all_at_once = replicate 4 wrong_arrives @ replicate 4 first_answered"

definition guess_counts :: "nat \<times> nat \<times> 'a \<Rightarrow> nat \<times> nat" where
  "guess_counts r = (fst r, fst (snd r))"

lemma sample_guesses:
  "guess_counts (guess_run answering ''host'' one_by_one host_start []) = (3, 1)"
  "guess_counts (guess_run answering ''host'' all_at_once host_start []) = (4, 4)"
  by code_simp+

lemma wrong_guesses_are_bounded_witness:
  "\<exists>q n'. guess_run answering ''host'' all_at_once host_start [] = (4, 4, n') \<and> max_failures pair_store = 3 \<and>
    get_peer ''host'' (hn_rows n') = Some q \<and> pe_failures q = 4 \<and> pe_status q = LOCKED \<and> pe_secret q = None"
proof -
  have rows: "table_ok (pv_store answering) (hn_rows host_start)" "get_peer ''host'' (hn_rows host_start) = Some host_entry"
    using sample_entry by (simp_all add: get_peer_def)
  have entry: "pe_status host_entry = PENDING" "pe_failures host_entry = 0"
    by (simp_all add: host_entry_def pair_rows_def pending_row_def)
  have bound: "max_failures pair_store = 3" by (simp add: max_failures_def pair_store_def)
  obtain n' where run: "guess_run answering ''host'' all_at_once host_start [] = (4, 4, n')"
    using sample_guesses(2) by (cases "guess_run answering ''host'' all_at_once host_start []") (auto simp: guess_counts_def)
  from wrong_guesses_are_bounded [OF rows entry(1) run] run show ?thesis using entry bound by auto
qed

section \<open>A code used twice\<close>

text \<open>C32: A code can link two nodes one after the other: when two nodes have proved it before either has confirmed,
  both confirmations succeed. The second one finds the entry already active for the first node and gives it to the
  second, with the second link key; the node then has no entry for the first node, which believes itself linked.\<close>

theorem code_can_link_a_second_node:
  assumes "hn_rows n0 = []" "hn_handshakes n0 = []" "pair_steps (pair_joined henv env) (n0, []) (n, ws)"
    "map_of (hn_handshakes n) k = Some h" "map_of (hn_handshakes n) k' = Some h'" "k \<noteq> k'"
    "rh_row h = rid" "rh_row h' = rid" "get_peer rid (hn_rows n) = Some p"
    "parse_pair_confirm m = Some (k, rh_confirm h)" "parse_pair_confirm m' = Some (k', rh_confirm h')"
    "time_of (pair_joined henv env) n \<le> rh_expires_at h" "time_of (pair_joined henv env) n \<le> rh_expires_at h'"
    "map_option lt_pin (rh_tls h) = map_option ca_pin (channel_client ctx)"
    "map_option lt_pin (rh_tls h') = map_option ca_pin (channel_client ctx')"
  shows "\<exists>n1 n2 p1 p2 nonce. handle_pair_confirm (pair_joined henv env) ctx (Some m) n = (PairConfirmed, n1) \<and>
    get_peer rid (hn_rows n1) = Some p1 \<and> pe_status p1 = ACTIVE \<and> pe_node_id p1 = Some k \<and> pe_secret p1 = None \<and>
    handle_pair_confirm (pair_joined henv env) ctx' (Some m') n1 = (PairConfirmed, n2) \<and>
    get_peer rid (hn_rows n2) = Some p2 \<and> pe_node_id p2 = Some k' \<and>
    pe_link_key p2 = Some (wrap (pv_store env) nonce (rh_link_key h') (''link:'' @ rid)) \<and>
    Some k \<notin> pe_node_id ` set (hn_rows n2)"
proof -
  let ?env = "pair_joined henv env"
  have ok: "pair_ok ?env n" by (rule pair_steps_ok [OF assms(3) new_node_ok [OF assms(1,2)]])
  have who: "rh_initiator h = k" "rh_initiator h' = k'"
    using ok map_of_SomeD [OF assms(4)] map_of_SomeD [OF assms(5)] by (force simp: pair_ok_def handshakes_ok_def rests_on_def)+
  obtain n1 a1 where n1: "handle_pair_confirm ?env ctx (Some m) n = (PairConfirmed, n1)"
    "get_peer (rh_row h) (hn_rows n1) = Some (activated (pv_store ?env) (time_of ?env n) (pd_wrap (pv_draw ?env (hn_draws n))) a1 p)"
    "av_node_id a1 = rh_initiator h" "hn_handshakes n1 = al_drop k (hn_handshakes n)" "time_of ?env n1 = time_of ?env n"
    by (rule host_confirms_lemma [OF pair_ok_rows [OF ok] assms(9) [folded assms(7)] assms(4,10,12,14)])
  let ?p1 = "activated (pv_store ?env) (time_of ?env n) (pd_wrap (pv_draw ?env (hn_draws n))) a1 p"
  have ok1: "pair_ok ?env n1" by (rule handle_pair_confirm_ok [OF ok n1(1)])
  have p1: "get_peer (rh_row h') (hn_rows n1) = Some ?p1" using n1(2) assms(7,8) by simp
  have h': "map_of (hn_handshakes n1) k' = Some h'" using assms(5,6) n1(4) by (simp add: map_of_al_drop)
  have time: "time_of ?env n1 \<le> rh_expires_at h'" using assms(13) n1(5) by simp
  obtain n2 where n2: "handle_pair_confirm ?env ctx' (Some m') n1 = (PairConfirmed, n2)" "confirm_handshake ?env k' h' n1 = (PairConfirmed, n2)"
    by (rule host_confirms_lemma [OF pair_ok_rows [OF ok1] p1 h' assms(11) time assms(15)])
  obtain p2 nonce where p2: "get_peer rid (hn_rows n2) = Some p2" "pe_node_id p2 = Some k'"
    "pe_link_key p2 = Some (wrap (pv_store env) nonce (rh_link_key h') (''link:'' @ rid))"
    using confirm_handshake_entry [OF n2(2)] assms(8) who by auto
  have ok2: "pair_ok ?env n2" by (rule handle_pair_confirm_ok [OF ok1 n2(1)])
  have "pe_node_id q \<noteq> Some k" if q: "q \<in> set (hn_rows n2)" for q
  proof (cases "pe_id q = rid")
    case True
    then show ?thesis using get_peer_unique [OF pair_ok_rows [OF ok2] q] p2 assms(6) by auto
  next
    case False
    then have "q \<in> set (hn_rows n1)" using confirm_handshake_others [OF n2(2) q] assms(8) by simp
    moreover have "?p1 \<in> set (hn_rows n1)" "pe_node_id ?p1 = Some k" "pe_id ?p1 = rid"
      using get_peer_mem [OF p1] n1(3) who assms(8) by simp_all
    ultimately show ?thesis
      using node_ids_unique [of "hn_rows n1" q ?p1 k] pair_ok_rows [OF ok1] False by (auto simp: table_ok_def)
  qed
  then have gone: "Some k \<notin> pe_node_id ` set (hn_rows n2)" by force
  have first: "get_peer rid (hn_rows n1) = Some ?p1" "pe_status ?p1 = ACTIVE" "pe_node_id ?p1 = Some k" "pe_secret ?p1 = None"
    using n1(2,3) assms(7) who by simp_all
  show ?thesis
    by (intro exI [of _ n1] exI [of _ n2] exI [of _ ?p1] exI [of _ p2] exI [of _ nonce] conjI n1(1) n2(1) first p2 gone)
qed

definition asked_twice :: "pair_response \<times> nat pair_node pair_node" where
  "asked_twice = handle_pair_init asked_env plain_ctx (Some (asking_message ''node-ddd'')) (snd asked_once)"

definition second_confirm :: pair_confirm_message where
  "second_confirm = asking_confirm ''node-ddd'' (pair_draw 3)"

lemma sample_asked_twice:
  obtains h h' where
    "map_of (hn_handshakes (snd asked_twice)) ''node-aaa'' = Some h" "map_of (hn_handshakes (snd asked_twice)) ''node-ddd'' = Some h'"
    "rh_row h = ''new''" "rh_row h' = ''new''" "hn_rows (snd asked_twice) = [open_entry]"
    "parse_pair_confirm (asking_confirm ''node-aaa'' (pair_draw 2)) = Some (''node-aaa'', rh_confirm h)"
    "parse_pair_confirm second_confirm = Some (''node-ddd'', rh_confirm h')"
    "rh_expires_at h = handshake_ttl" "rh_expires_at h' = handshake_ttl" "rh_tls h = None" "rh_tls h' = None"
proof -
  obtain mac shared keys where one: "asked_once = (PairAccepted (accept_text (accept_of asked_env (pair_draw 2)) (confirm_responder keys)),
      after_accept asked_env None (asking_init ''node-aaa'') mac open_entry asked_code ''https://h:1'' shared keys asked_start)"
    and m: "parse_pair_confirm (asking_confirm ''node-aaa'' (pair_draw 2)) = Some (''node-aaa'', confirm_initiator keys)"
    using sample_accepts [OF asked_start_rows(1), of "''node-aaa''"] unfolding asked_start_rows(2) asked_once_def by blast
  obtain mac' shared' keys' where two: "asked_twice = (PairAccepted (accept_text (accept_of asked_env (pair_draw 3)) (confirm_responder keys')),
      after_accept asked_env None (asking_init ''node-ddd'') mac' open_entry asked_code ''https://h:1'' shared' keys' (snd asked_once))"
    and m': "parse_pair_confirm second_confirm = Some (''node-ddd'', confirm_initiator keys')"
    using sample_accepts [OF sample_confirmed(2), of "''node-ddd''"] unfolding sample_confirmed(3) asked_twice_def second_confirm_def by blast
  let ?h = "\<lambda>k keys. \<lparr>rh_row = ''new'', rh_initiator = k, rh_name = ''N'', rh_address = ''https://h:1'', rh_link_key = link_key keys,
      rh_confirm = confirm_initiator keys, rh_expires_at = handshake_ttl, rh_tls = None\<rparr>"
  have "map_of (hn_handshakes (snd asked_twice)) ''node-aaa'' = map_of (hn_handshakes (snd asked_once)) ''node-aaa''"
    unfolding two snd_conv by (simp add: after_accept_def Let_def note_progress_def asking_init_def)
  also have "\<dots> = Some (?h ''node-aaa'' keys)" unfolding one snd_conv by (rule sample_open_exchange)
  finally have first: "map_of (hn_handshakes (snd asked_twice)) ''node-aaa'' = Some (?h ''node-aaa'' keys)" .
  have second: "map_of (hn_handshakes (snd asked_twice)) ''node-ddd'' = Some (?h ''node-ddd'' keys')"
    unfolding two snd_conv by (rule sample_open_exchange)
  have rows: "hn_rows (snd asked_twice) = [open_entry]" unfolding two snd_conv by (simp add: sample_confirmed(2))
  show thesis by (rule that [OF first second]) (simp_all add: m m' rows)
qed

lemma code_can_link_a_second_node_witness:
  "\<exists>n1 n2 p1 p2. handle_pair_confirm asked_env plain_ctx (Some (asking_confirm ''node-aaa'' (pair_draw 2))) (snd asked_twice) = (PairConfirmed, n1) \<and>
    get_peer ''new'' (hn_rows n1) = Some p1 \<and> pe_node_id p1 = Some ''node-aaa'' \<and>
    handle_pair_confirm asked_env plain_ctx (Some second_confirm) n1 = (PairConfirmed, n2) \<and>
    get_peer ''new'' (hn_rows n2) = Some p2 \<and> pe_node_id p2 = Some ''node-ddd'' \<and> Some ''node-aaa'' \<notin> pe_node_id ` set (hn_rows n2)"
proof -
  obtain h h' where w:
    "map_of (hn_handshakes (snd asked_twice)) ''node-aaa'' = Some h" "map_of (hn_handshakes (snd asked_twice)) ''node-ddd'' = Some h'"
    "rh_row h = ''new''" "rh_row h' = ''new''" "hn_rows (snd asked_twice) = [open_entry]"
    "parse_pair_confirm (asking_confirm ''node-aaa'' (pair_draw 2)) = Some (''node-aaa'', rh_confirm h)"
    "parse_pair_confirm second_confirm = Some (''node-ddd'', rh_confirm h')"
    "rh_expires_at h = handshake_ttl" "rh_expires_at h' = handshake_ttl" "rh_tls h = None" "rh_tls h' = None"
    by (rule sample_asked_twice)
  have "pair_steps asked_env (snd asked_once, []) (snd asked_twice, [])" unfolding asked_twice_def by (rule whole_request)
  with sample_steps have steps: "pair_steps (pair_joined answering (pair_node_env ''node-ccc'' ''pinC''))
      ((start_node [] host_start)\<lparr>hn_advertise := ''https://h:1''\<rparr>, []) (snd asked_twice, [])"
    unfolding asked_env_def [symmetric] by (rule rtranclp_trans)
  have time: "time_of (pair_joined answering (pair_node_env ''node-ccc'' ''pinC'')) (snd asked_twice) \<le> rh_expires_at h"
    "time_of (pair_joined answering (pair_node_env ''node-ccc'' ''pinC'')) (snd asked_twice) \<le> rh_expires_at h'"
    using w(8,9) unfolding asked_env_def [symmetric] by (simp_all add: handshake_ttl_def)
  have pins: "map_option lt_pin (rh_tls h) = map_option ca_pin (channel_client plain_ctx)"
    "map_option lt_pin (rh_tls h') = map_option ca_pin (channel_client plain_ctx)"
    using w(10,11) by (simp_all add: plain_ctx_def channel_client_def)
  have other: "''node-aaa'' \<noteq> ''node-ddd''" by simp
  from code_can_link_a_second_node [OF sample_begins steps w(1,2) other w(3,4) sample_get [OF w(5)] w(6,7) time pins]
  show ?thesis unfolding asked_env_def [symmetric] by blast
qed

section \<open>Invite codes\<close>

lemma plain_invite: "filter (\<lambda>c. \<not> is_space c) (encode_invite to_json i) = encode_invite to_json i"
proof (rule filter_plain)
  have "list_all (\<lambda>c. \<not> is_space c) invite_prefix" by code_simp
  then show "list_all (\<lambda>c. \<not> is_space c) (encode_invite to_json i)"
    using b64url_encode_plain by (auto simp: encode_invite_def list_all_iff)
qed

lemma invite_read: "drop (length invite_prefix) (encode_invite to_json i) = b64url_encode (utf8 (to_json (invite_body_of i)))"
  "starts_with invite_prefix (encode_invite to_json i)"
  by (simp_all add: encode_invite_def starts_with_def)

text \<open>C27: An invite is read back from its code as it was created, in whole seconds and with at most eight ways to the
  channel, whatever blanks and line breaks a paste has put into it, as long as it has not expired, the fields are
  within their bounds and the code is at most 2048 characters long.\<close>

theorem invite_round_trip:
  assumes "of_json (to_json (invite_body_of i)) = Some (invite_body_of i)" "invite_ok now i"
    "filter (\<lambda>c. \<not> is_space c) pasted = encode_invite to_json i" "length (encode_invite to_json i) \<le> max_code"
  shows "decode_invite of_json now pasted = Inr (as_written i)"
  using assms(1,4) invite_body_again [OF assms(2)]
  unfolding decode_invite_def Let_def assms(3) invite_read by (simp add: invite_read(2) not_less)

definition sample_invite :: "string list \<Rightarrow> invite" where
  "sample_invite ways =
     \<lparr>iv_address = ''https://h:1'', iv_node_id = ''node-aaa'', iv_name = ''N'', iv_secret = replicate 43 CHR ''A'',
      iv_expires_at = Some 1800500,
      iv_channel = Some \<lparr>ic_url = ''https://h:1'', ic_pin = replicate 43 CHR ''A'' @ ''='', ic_endpoints = Some ways\<rparr>\<rparr>"

lemma sample_invite_ok: "list_all (\<lambda>w. length w \<le> 300) (take 8 ways) \<Longrightarrow> invite_ok 0 (sample_invite ways)"
proof -
  have "invite_secret_ok (replicate 43 CHR ''A'')" "pin_ok (replicate 43 CHR ''A'' @ ''='')" "starts_with ''https://'' ''https://h:1''" by code_simp+
  then show "list_all (\<lambda>w. length w \<le> 300) (take 8 ways) \<Longrightarrow> invite_ok 0 (sample_invite ways)"
    using sample_address(5) by (simp add: invite_ok_def sample_invite_def channel_ok_def max_date_def)
qed

lemma invite_round_trip_witness:
  "\<exists>to_json of_json. decode_invite of_json 0 ('' '' @ encode_invite to_json (sample_invite [''https://h:1''])) =
    Inr ((sample_invite [''https://h:1''])\<lparr>iv_expires_at := Some 1800000\<rparr>)"
proof -
  let ?i = "sample_invite [''https://h:1'']"
  let ?to = "\<lambda>b :: invite_body. ''{}''" and ?of = "\<lambda>t :: string. Some (invite_body_of ?i)"
  have "filter (\<lambda>c. \<not> is_space c) ('' '' @ encode_invite ?to ?i) = encode_invite ?to ?i"
    using plain_invite [of ?to ?i] by (simp add: is_space_def)
  moreover have "length (encode_invite ?to ?i) \<le> max_code"
    by (simp add: encode_invite_def length_b64url_encode max_code_def invite_prefix_def)
  ultimately have "decode_invite ?of 0 ('' '' @ encode_invite ?to ?i) = Inr (as_written ?i)"
    by (intro invite_round_trip [where to_json = ?to] sample_invite_ok refl) simp
  moreover have "as_written ?i = ?i\<lparr>iv_expires_at := Some 1800000\<rparr>" by (simp add: as_written_def sample_invite_def)
  ultimately show ?thesis by metis
qed

text \<open>C38: A node can create a code that no node accepts: eight ways to the channel of 300 characters each are within
  bounds, but where they come to 1531 characters or more, the code is longer than the 2048 characters a code may
  have, so the joining node refuses it as too long.\<close>

theorem long_invites_are_refused:
  assumes "iv_channel i = Some ch" "ic_endpoints ch = Some ways" "1531 \<le> sum_list (map length (take 8 ways))"
    "sum_list (map length (take 8 ways)) \<le> length (to_json (invite_body_of i))"
  shows "decode_invite of_json now (encode_invite to_json i) = Inl ''Invite code is too long''"
proof -
  have "max_code < length (encode_invite to_json i)"
    using assms(3,4) by (simp add: encode_invite_def length_b64url_encode max_code_def invite_prefix_def)
  then show ?thesis unfolding decode_invite_def Let_def plain_invite by (simp add: invite_read(2))
qed

definition long_ways :: "string list" where
  "long_ways = replicate 8 (replicate 200 CHR ''A'')"

lemma long_invites_are_refused_witness:
  "invite_ok 0 (sample_invite long_ways) \<and>
    (\<exists>to_json. decode_invite (\<lambda>t. Some (invite_body_of (sample_invite long_ways))) 0 (encode_invite to_json (sample_invite long_ways)) =
       Inl ''Invite code is too long'')"
proof -
  let ?to = "\<lambda>b :: invite_body. replicate 1600 CHR ''A''"
  have "decode_invite (\<lambda>t. Some (invite_body_of (sample_invite long_ways))) 0 (encode_invite ?to (sample_invite long_ways)) =
      Inl ''Invite code is too long''"
    by (rule long_invites_are_refused) (auto simp: sample_invite_def long_ways_def sum_list_replicate)
  moreover have "invite_ok 0 (sample_invite long_ways)" by (rule sample_invite_ok) (simp add: long_ways_def list_all_iff)
  ultimately show ?thesis by blast
qed

end
