(* ===== verification/Spec2Isabelle.thy ===== *)
theory Spec2Isabelle
  imports Prelude JsTime Base64 Codec Framing Crypto Health Rollout Catalog Node_Db Core_Theorems Applier_Theorems
    Admin_Theorems Replicator_Theorems Edge_Theorems Transport_Theorems Verify_Theorems Pair_Theorems
begin

text \<open>
  A verification library for the backend of Pokyh (\<^verbatim>\<open>src/src\<close>, TypeScript on Node): the cluster that keeps
  the databases of several nodes equal, and the rights and accounts of its admin panel.

  \<^bold>\<open>The program.\<close> Every node runs the same server over its own MySQL database. Triggers on the replicated
  tables write one row per record into a registry of versions (\<^verbatim>\<open>cluster_row_state\<close>), whose sequence numbers
  are the node's change feed. The replicator reads the feed and delivers to each peer what the peer lacks; the
  applier of the peer puts it into its database under \<^emph>\<open>last writer wins\<close>. From time to time two nodes compare
  summaries of what they hold and send each other what is missing. Calls between nodes travel sealed in sessions
  that rest on a link key, over a mutually authenticated channel or plainly, over one of several ways to reach
  the other node. Two nodes become peers by pairing. Beside the cluster stands the admin panel: administrators
  hold rights per school, may pass on what they hold, and log in with a password and a second factor.

  \<^bold>\<open>Theories and code.\<close>
  \<^item> Shared: \<open>Prelude\<close> (buffers, decimal text, lists, results), \<open>JsTime\<close> (\<^verbatim>\<open>Date\<close>), \<open>Base64\<close>, \<open>Requests\<close> (handlers
    over a state; the locale \<open>kept\<close> of relations that composition preserves), \<open>Preference\<close> (the locale of strict
    total preferences).
  \<^item> Wire formats: \<open>Codec\<close> (\<^verbatim>\<open>cluster/codec.ts\<close>), \<open>Framing\<close> (\<^verbatim>\<open>framing.ts\<close>), \<open>Crypto\<close> (\<^verbatim>\<open>crypto.ts\<close>).
  \<^item> Decisions without a database: \<open>Health\<close> (\<^verbatim>\<open>health.ts\<close>), \<open>Rollout\<close> (\<^verbatim>\<open>rollout.ts\<close>).
  \<^item> The database: \<open>Catalog\<close> (\<^verbatim>\<open>catalog.ts\<close>, \<^verbatim>\<open>sqlgen.ts\<close>) says what a table is and writes statements, \<open>Node_Db\<close> is the
    state they act on (\<^verbatim>\<open>node_db\<close>: rows, registry, set-aside changes) with the effect of each statement and
    of the triggers.
  \<^item> Replication: \<open>Applier\<close> (\<^verbatim>\<open>applier.ts\<close>), \<open>Replicator\<close> (\<^verbatim>\<open>replicator.ts\<close>, \<^verbatim>\<open>runtime.ts\<close>), \<open>Receiver\<close> (the calls \<^verbatim>\<open>offer\<close>
    and \<^verbatim>\<open>push\<close> of \<^verbatim>\<open>index.ts\<close>), \<open>Feed_World\<close> (both nodes and their other writers as one step relation),
    \<open>Verify\<close> (\<^verbatim>\<open>verify.ts\<close>).
  \<^item> Calls between nodes: \<open>Transport\<close> (\<^verbatim>\<open>transport.ts\<close>, the sessions of \<^verbatim>\<open>runtime.ts\<close>, the messages of \<^verbatim>\<open>protocol.ts\<close>).
  \<^item> The edge: \<open>Net_Policy\<close> (\<^verbatim>\<open>netpolicy.ts\<close>), \<open>Endpoints\<close> (\<^verbatim>\<open>endpoints.ts\<close>), \<open>Edge\<close> (\<^verbatim>\<open>proxyProtocol.ts\<close>, \<^verbatim>\<open>relayProtocol.ts\<close>).
  \<^item> Peers: \<open>Peer_Store\<close> (\<^verbatim>\<open>store.ts\<close>: the rows of peers and of the node itself), \<open>Reach\<close> (\<^verbatim>\<open>reach.ts\<close>), \<open>X509\<close> (\<^verbatim>\<open>x509.ts\<close>: the
    certificate a node writes for itself and reads of another), \<open>Invite\<close> (\<^verbatim>\<open>invite.ts\<close>).
  \<^item> Pairing: \<open>Pairing\<close> (\<^verbatim>\<open>pairing.ts\<close>: the answers of the host and the rounds of the joining node), \<open>Pair_Ops\<close> (invites,
    joining, introductions of \<^verbatim>\<open>mesh.ts\<close>, and what an administrator does with a link in \<^verbatim>\<open>index.ts\<close>). A request to pair is
    two operations, \<open>init_read\<close> and \<open>init_answer\<close>: between them the code derives keys and the node goes on.
    \<open>Pair_Link\<close> joins two nodes, \<open>Pair_Agree\<close> follows an exchange from one to the other.
  \<^item> Admin panel: \<open>Permissions\<close> (\<^verbatim>\<open>security/permissions.ts\<close>), \<open>Admin_Policy\<close> (\<^verbatim>\<open>adminLogin.ts\<close>,
    \<^verbatim>\<open>adminSecondFactorPolicy.ts\<close>, \<^verbatim>\<open>apiKeyPolicy.ts\<close>), \<open>Totp\<close> (\<^verbatim>\<open>totp.ts\<close>), \<open>Ttl_Cache\<close> (\<^verbatim>\<open>utils/cache.ts\<close>),
    \<open>Admin_State\<close> (the tables), \<open>Admin_Access\<close>, \<open>Admin_Accounts\<close>, \<open>Admin_Login\<close> (the services) and \<open>Admin_Routes\<close>
    (the handlers of \<^verbatim>\<open>requireAdmin.ts\<close>, \<^verbatim>\<open>routes/admin.ts\<close>, \<^verbatim>\<open>routes/adminSecurity.ts\<close>).

  \<^bold>\<open>How code and model correspond.\<close> A definition has the name of its function in snake case and its branches in
  the order of the code. A throw is \<open>Inl\<close>; a handler that throws keeps what it wrote before. An object's mutable
  fields are the fields of a record passed through the operation. Randomness, the clock and answers of the
  network are arguments. Maps of the code that are iterated are lists of pairs in insertion order.

  \<^bold>\<open>Lemmas.\<close> A theory \<open>X_Facts\<close> holds the lemmas of component \<open>X\<close>, \<open>X_Theorems\<close> its properties, each followed by a
  concrete run where it has hypotheses; \<open>Core_Theorems\<close> has those of the wire formats and decisions. What
  components promise each other is stated as locales, each interpreted on the code's own definitions:
  \<^item> \<open>preference\<close> (Preference): the comparison of versions (\<open>lww\<close> in Codec) and the ranking of nodes (\<open>rank\<close> in Health).
  \<^item> \<open>kept\<close> (Requests): what every handler of the panel preserves (\<open>accounts\<close>, \<open>allowed\<close> in Admin_Facts), and
    sublocales of the contracts below.
  \<^item> \<open>registry_history\<close> (Applier_Theorems): versions never go back, each record keeps its place in the feed; \<open>node\<close>.
  \<^item> \<open>feed_world\<close> (Feed_Facts): what other writers may do while a call is under way; \<open>world\<close> in Feed_World.
  \<^item> \<open>peer_contract\<close> (Replicator_Facts): what the answers of a peer mean; \<open>receiving\<close> interprets it on the receiving
    node with the applier behind it, so the sender's properties rest on the model of both ends.
  \<^item> \<open>pairing_world\<close> (Pair_Facts): whatever the other node answers, its calls leave this node's entries sound; \<open>linked\<close>
    in Pair_Link, with the other node's handlers as the network.
  \<^item> \<open>check_contract\<close> (Verify_Facts) joins both for the data check; \<open>checked\<close> in Verify_Theorems.
  \<^item> \<open>bounded_cache\<close> (Ttl_Cache): \<open>default_cache\<close>.
  What the receiver of a push may say is followed into its tables: \<open>Aside_Facts\<close> shows that a change answered \<open>D\<close> has
  been saved among the changes set aside, and what may clear it from there (\<open>taken_over\<close> in Receiver says what a sender
  may rely on). \<open>watched_check\<close> in Verify_Theorems writes down the calls of a data check.
  Transport_Facts is a step relation over the steps of overlapping calls with its reachable states; Transport_Link
  joins two nodes, so that the first call is followed from one handler to the other.

  \<^bold>\<open>Loops.\<close> Structural recursion or a measure, with three exceptions. \<open>grow_group\<close> has fuel \<open>Suc (length pending)\<close>:
  each round adds a pending change or stops. \<open>transfer_run\<close> takes the number of stretches, and
  \<open>transfer_covers_everything\<close> shows that finitely many reach the end. \<open>descend\<close> has the code's own bound
  \<open>max_prefix\<close>. A call is tried \<open>rpc_attempts\<close> times, as in the code.

  \<^bold>\<open>Parameters and what is relied on.\<close> MySQL's decisions (collations, which error a statement reports, foreign
  keys) are \<open>sql_env\<close> and \<open>ae_same\<close>; queries outside transactions do not fail. SHA-256, HMAC, HKDF, scrypt, AES-GCM
  and X25519 are \<open>primitives\<close>; a theorem that needs a law of theirs names it (\<open>gcm_laws\<close>: what is sealed opens,
  and only that; \<open>authenticated\<close>: the tag of a frame fits one nonce and associated data; \<open>exchange_ok\<close>, \<open>pair_exchange_ok\<close>: both sides of a key exchange agree; \<open>hash_separates\<close>). JSON, Brotli, the URL parser
  (\<open>reads_endpoints\<close>), NFKC, bcrypt, tokens and WebAuthn are parameters as well. A transaction that was open long
  ago has ended (\<open>horizon_held\<close>), which is what the replicator's horizon assumes. Text is ASCII or its UTF-8 bytes.
  Auxiliary variables record the past for the theorems and are read by no operation: \<open>lk_given\<close>, \<open>rv_pushed\<close>,
  \<open>tn_sent\<close>, \<open>tn_accepted\<close>, \<open>cs_handshake\<close>, \<open>ss_handshake\<close>, \<open>ck_events\<close>, \<open>hn_proved\<close>.

  \<^bold>\<open>Not modelled.\<close> Log lines, recorded events and rate limits. The sockets and TLS of the channel
  (\<^verbatim>\<open>mtls.ts\<close>, \<^verbatim>\<open>listener.ts\<close>, \<^verbatim>\<open>relayClient.ts\<close>): I/O; what OpenSSL reads of a certificate is a parameter. The two database
  writes of a confirmation and the calls of a joining round are one step each. Start-up, status,
  provisioning and updates (\<^verbatim>\<open>index.ts\<close> apart from the parts named above, \<^verbatim>\<open>provision.ts\<close>, \<^verbatim>\<open>updates.ts\<close>): processes,
  files and requests to GitHub. Reading the catalog from \<^verbatim>\<open>information_schema\<close> and installing triggers
  (\<^verbatim>\<open>capture.ts\<close>): SQL text for MySQL to interpret. The routes of the school app (\<^verbatim>\<open>routes/webuntis.ts\<close> and others),
  which pass requests on to third parties or read and write single rows, and the React panel (\<^verbatim>\<open>src/admin\<close>).
\<close>

end
